(* ===== verification/Prelude.thy ===== *)
theory Prelude
  imports Main "HOL-Library.Word" "HOL-Library.Monad_Syntax"
begin

unbundle bit_operations_syntax

text \<open>
  Shared vocabulary of the FurOS development: the machine types of the kernel's C code, the
  convention for undefined behaviour, the little-endian integer codecs, and the generic facts
  on lists, options and words that the component theories use.

  Conventions.
  \<^item> A C object of array type is a list of its elements. Reading or writing outside it is
    undefined behaviour in C and is the value \<^theory_text>\<open>None\<close> here, so every operation that
    touches an array returns an \<^theory_text>\<open>option\<close> and a theorem that a result is
    \<^theory_text>\<open>Some\<close> includes memory safety.
  \<^item> A C string argument (\<open>const char *\<close> that is only read) is the list of its bytes before
    the terminating NUL; \<^theory_text>\<open>c_str\<close> is the array with the terminator. Where the code
    tests a pointer against 0, the argument has type \<^theory_text>\<open>'a ptr\<close>, None being the
    null pointer.
\<close>

named_theorems loop_simps \<open>closed forms of the array loops\<close>
named_theorems codec_simps \<open>decoding an encoded value\<close>

type_synonym u8 = "8 word"
type_synonym u16 = "16 word"
type_synonym u32 = "32 word"
type_synonym 'a ptr = "'a option"

abbreviation NUL :: char where "NUL \<equiv> CHR 0x00"
abbreviation LF :: char where "LF \<equiv> CHR 0x0A"
abbreviation CR :: char where "CR \<equiv> CHR 0x0D"
abbreviation BS :: char where "BS \<equiv> CHR 0x08"
abbreviation TAB :: char where "TAB \<equiv> CHR 0x09"

definition c_str :: "string \<Rightarrow> char list" where
  "c_str s = s @ [NUL]"

definition cstr :: "char list \<Rightarrow> string" where
  "cstr buf = takeWhile (\<lambda>c. c \<noteq> NUL) buf"

definition nul_free :: "string \<Rightarrow> bool" where
  "nul_free s \<longleftrightarrow> NUL \<notin> set s"

lemma nul_free_Nil [simp]: "nul_free []"
  by (simp add: nul_free_def)

lemma nul_free_Cons [simp]: "nul_free (c # s) \<longleftrightarrow> c \<noteq> NUL \<and> nul_free s"
  by (auto simp: nul_free_def)

lemma nul_free_append [simp]: "nul_free (s @ t) \<longleftrightarrow> nul_free s \<and> nul_free t"
  by (auto simp: nul_free_def)

lemma nul_free_cstr [simp]: "nul_free (cstr b)"
  by (auto simp: nul_free_def cstr_def dest: set_takeWhileD)

lemma cstr_append_NUL [simp]: "nul_free s \<Longrightarrow> cstr (s @ NUL # t) = s"
  by (induction s) (auto simp: cstr_def)

lemma cstr_c_str [simp]: "nul_free s \<Longrightarrow> cstr (c_str s) = s"
  by (simp add: c_str_def)

lemma cstr_Nil [simp]: "cstr [] = []"
  by (simp add: cstr_def)

lemma cstr_Cons: "cstr (c # s) = (if c = NUL then [] else c # cstr s)"
  by (simp add: cstr_def)

lemma cstr_nul_free: "nul_free s \<Longrightarrow> cstr s = s"
  by (induction s) (auto simp: cstr_Cons)

lemma length_cstr_le: "length (cstr b) \<le> length b"
  by (simp add: cstr_def length_takeWhile_le)

lemma cstr_split:
  assumes "NUL \<in> set b"
  shows "\<exists>t. b = cstr b @ NUL # t"
  using assms by (induction b) (auto simp: cstr_Cons)

lemma length_cstr_less:
  assumes "NUL \<in> set b"
  shows "length (cstr b) < length b"
proof -
  obtain t where "b = cstr b @ NUL # t" using cstr_split [OF assms] by blast
  then have "length b = length (cstr b) + Suc (length t)"
    by (metis length_append length_Cons)
  then show ?thesis by simp
qed

text \<open>A cell of an array, and an assignment to it.\<close>

definition rd :: "'a list \<Rightarrow> nat \<Rightarrow> 'a option" where
  "rd a i = (if i < length a then Some (a ! i) else None)"

definition wr :: "'a list \<Rightarrow> nat \<Rightarrow> 'a \<Rightarrow> 'a list option" where
  "wr a i x = (if i < length a then Some (a[i := x]) else None)"

lemma rd_Some [simp]: "i < length a \<Longrightarrow> rd a i = Some (a ! i)"
  by (simp add: rd_def)

lemma wr_Some [simp]: "i < length a \<Longrightarrow> wr a i x = Some (a[i := x])"
  by (simp add: wr_def)

text \<open>Bytes of characters: memory copies between \<open>char\<close> and \<open>uint8_t\<close> arrays.\<close>

definition byte_of_char :: "char \<Rightarrow> u8" where
  "byte_of_char c = word_of_nat (of_char c)"

definition char_of_byte :: "u8 \<Rightarrow> char" where
  "char_of_byte b = char_of (unat b)"

lemma char_of_byte_of_char [codec_simps]: "char_of_byte (byte_of_char c) = c"
proof -
  have "(of_char c :: nat) < 256" by (rule nat_of_char_less_256)
  then show ?thesis
    by (simp add: char_of_byte_def byte_of_char_def unat_of_nat take_bit_eq_mod)
qed

lemma map_char_of_byte [codec_simps]: "map char_of_byte (map byte_of_char s) = s"
  by (simp add: char_of_byte_of_char o_def)

lemma char_of_byte_comp [codec_simps]: "char_of_byte \<circ> byte_of_char = id"
  by (simp add: fun_eq_iff char_of_byte_of_char)

text \<open>Little-endian integers of the packed structures.\<close>

definition le16 :: "u16 \<Rightarrow> u8 list" where
  "le16 w = [ucast w, ucast (drop_bit 8 w)]"

definition un_le16 :: "u8 list \<Rightarrow> u16" where
  "un_le16 bs = ucast (bs ! 0) OR push_bit 8 (ucast (bs ! 1))"

definition le32 :: "u32 \<Rightarrow> u8 list" where
  "le32 w = [ucast w, ucast (drop_bit 8 w), ucast (drop_bit 16 w), ucast (drop_bit 24 w)]"

definition un_le32 :: "u8 list \<Rightarrow> u32" where
  "un_le32 bs = ucast (bs ! 0) OR push_bit 8 (ucast (bs ! 1))
     OR push_bit 16 (ucast (bs ! 2)) OR push_bit 24 (ucast (bs ! 3))"

lemma length_le16 [simp]: "length (le16 w) = 2"
  by (simp add: le16_def)

lemma length_le32 [simp]: "length (le32 w) = 4"
  by (simp add: le32_def)

lemma un_le16_le16 [codec_simps]: "un_le16 (le16 w) = w"
  unfolding un_le16_def le16_def
  by (rule bit_eqI) (auto simp: bit_simps)

lemma un_le32_le32 [codec_simps]: "un_le32 (le32 w) = w"
proof (rule bit_word_eqI)
  fix n assume "n < LENGTH(32)"
  then have "n < 8 \<or> 8 \<le> n \<and> n < 16 \<or> 16 \<le> n \<and> n < 24 \<or> 24 \<le> n \<and> n < 32" by auto
  then show "bit (un_le32 (le32 w)) n = bit w n"
    by (elim disjE) (auto simp: un_le32_def le32_def bit_simps)
qed

subsection \<open>Runs of operations\<close>

text \<open>
  A run executes a list of calls one after the other, keeping every return value; it is undefined
  when one call is. \<^theory_text>\<open>guarded\<close> says that every call of the list meets its
  precondition in the state it is made in.
\<close>

fun run :: "('c \<Rightarrow> 's \<Rightarrow> ('r \<times> 's) option) \<Rightarrow> 'c list \<Rightarrow> 's \<Rightarrow> ('r list \<times> 's) option" where
  "run exec [] s = Some ([], s)"
| "run exec (c # cs) s = do {
     (r, s') \<leftarrow> exec c s;
     (rs, t) \<leftarrow> run exec cs s';
     Some (r # rs, t) }"

fun guarded :: "('c \<Rightarrow> 's \<Rightarrow> ('r \<times> 's) option) \<Rightarrow> ('c \<Rightarrow> 's \<Rightarrow> bool) \<Rightarrow> 'c list \<Rightarrow> 's \<Rightarrow> bool" where
  "guarded exec ok [] s \<longleftrightarrow> True"
| "guarded exec ok (c # cs) s \<longleftrightarrow>
     ok c s \<and> (case exec c s of None \<Rightarrow> True | Some (r, s') \<Rightarrow> guarded exec ok cs s')"

text \<open>
  The interface of a component with an invariant: a call made in its precondition is defined and
  keeps the invariant. Its clients get that every guarded run is defined and keeps it.
\<close>

locale guarded_machine =
  fixes exec :: "'c \<Rightarrow> 's \<Rightarrow> ('r \<times> 's) option"
    and ok :: "'c \<Rightarrow> 's \<Rightarrow> bool"
    and inv :: "'s \<Rightarrow> bool"
  assumes exec_inv: "inv s \<Longrightarrow> ok c s \<Longrightarrow> \<exists>r s'. exec c s = Some (r, s') \<and> inv s'"
begin

lemma exec_total: "inv s \<Longrightarrow> ok c s \<Longrightarrow> exec c s \<noteq> None"
  using exec_inv by fastforce

lemma exec_keeps: "inv s \<Longrightarrow> ok c s \<Longrightarrow> exec c s = Some (r, s') \<Longrightarrow> inv s'"
  using exec_inv by fastforce

lemma run_inv:
  "inv s \<Longrightarrow> guarded exec ok cs s \<Longrightarrow> \<exists>rs t. run exec cs s = Some (rs, t) \<and> inv t"
proof (induction cs arbitrary: s)
  case Nil
  then show ?case by simp
next
  case (Cons c cs)
  then obtain r s' where e: "exec c s = Some (r, s')" and inv: "inv s'"
    using exec_inv [of s c] by auto
  moreover obtain rs t where "run exec cs s' = Some (rs, t)" "inv t"
    using Cons.IH [OF inv] Cons.prems(2) e by auto
  ultimately show ?case by simp
qed

lemma guarded_always:
  "inv s \<Longrightarrow> (\<And>c t. c \<in> set cs \<Longrightarrow> inv t \<Longrightarrow> ok c t) \<Longrightarrow> guarded exec ok cs s"
proof (induction cs arbitrary: s)
  case Nil
  show ?case by simp
next
  case (Cons c cs)
  then have "ok c s" by simp
  with Cons.prems(1) obtain r s' where "exec c s = Some (r, s')" "inv s'"
    using exec_inv by blast
  with Cons \<open>ok c s\<close> show ?case by simp
qed

end

end
