(* ===== verification/Vga.thy ===== *)
theory Vga
  imports Prelude
begin

text \<open>
  kernel/vga.c: the text screen. The memory at \<open>0xB8000\<close> is the list of its 2000 cells; a
  write outside the 25 rows of 80 columns is undefined. The C integers of the cursor and the
  viewport are \<^theory_text>\<open>int\<close>; the only sums that can leave the range of \<open>int\<close>
  are those of \<open>vga_fill_rect\<close>, which is undefined then.
\<close>

abbreviation VGA_WIDTH :: int where "VGA_WIDTH \<equiv> 80"
abbreviation VGA_HEIGHT :: int where "VGA_HEIGHT \<equiv> 25"
abbreviation VGA_CELLS :: nat where "VGA_CELLS \<equiv> 2000"

record vga =
  v_mem :: "u16 list"
  v_row :: int
  v_col :: int
  v_color :: u8
  v_top :: int
  v_bot :: int

subsection \<open>Cells\<close>

definition cell_at :: "u16 list \<Rightarrow> int \<Rightarrow> u16 option" where
  "cell_at m i = (if 0 \<le> i then rd m (nat i) else None)"

definition cell_put :: "u16 list \<Rightarrow> int \<Rightarrow> u16 \<Rightarrow> u16 list option" where
  "cell_put m i v = (if 0 \<le> i then wr m (nat i) v else None)"

definition vga_entry_color :: "u8 \<Rightarrow> u8 \<Rightarrow> u8" where
  "vga_entry_color fg bg = fg OR push_bit 4 bg"

definition vga_entry :: "u8 \<Rightarrow> u8 \<Rightarrow> u16" where
  "vga_entry uc color = ucast uc OR push_bit 8 (ucast color)"

text \<open>The row loops: \<open>xs\<close> and \<open>ys\<close> are the values the loop variables still take.\<close>

fun fill_row :: "int list \<Rightarrow> int \<Rightarrow> u16 \<Rightarrow> u16 list \<Rightarrow> u16 list option" where
  "fill_row [] y v m = Some m"
| "fill_row (x # xs) y v m = do { m' \<leftarrow> cell_put m (y * VGA_WIDTH + x) v; fill_row xs y v m' }"

fun fill_rows :: "int list \<Rightarrow> u16 \<Rightarrow> u16 list \<Rightarrow> u16 list option" where
  "fill_rows [] v m = Some m"
| "fill_rows (y # ys) v m = do { m' \<leftarrow> fill_row [0..VGA_WIDTH - 1] y v m; fill_rows ys v m' }"

fun scroll_row :: "int list \<Rightarrow> int \<Rightarrow> u16 list \<Rightarrow> u16 list option" where
  "scroll_row [] y m = Some m"
| "scroll_row (x # xs) y m = do {
     v \<leftarrow> cell_at m (y * VGA_WIDTH + x);
     m' \<leftarrow> cell_put m ((y - 1) * VGA_WIDTH + x) v;
     scroll_row xs y m' }"

fun scroll_rows :: "int list \<Rightarrow> u16 list \<Rightarrow> u16 list option" where
  "scroll_rows [] m = Some m"
| "scroll_rows (y # ys) m = do { m' \<leftarrow> scroll_row [0..VGA_WIDTH - 1] y m; scroll_rows ys m' }"

subsection \<open>Text output\<close>

definition vga_init :: vga where
  "vga_init = \<lparr>v_mem = replicate VGA_CELLS 0, v_row = 0, v_col = 0, v_color = 0x07,
     v_top = 0, v_bot = 24\<rparr>"

definition vga_set_color :: "vga \<Rightarrow> u8 \<Rightarrow> u8 \<Rightarrow> vga" where
  "vga_set_color s fg bg = s\<lparr>v_color := vga_entry_color fg bg\<rparr>"

definition vga_scroll :: "vga \<Rightarrow> vga option" where
  "vga_scroll s = do {
     m \<leftarrow> scroll_rows [v_top s + 1..v_bot s] (v_mem s);
     m' \<leftarrow> fill_row [0..VGA_WIDTH - 1] (v_bot s) (vga_entry (byte_of_char CHR '' '') (v_color s)) m;
     Some (s\<lparr>v_mem := m'\<rparr>) }"

definition vga_clear :: "vga \<Rightarrow> vga option" where
  "vga_clear s = do {
     m \<leftarrow> fill_rows [v_top s..v_bot s] (vga_entry (byte_of_char CHR '' '') (v_color s)) (v_mem s);
     Some (s\<lparr>v_mem := m, v_row := v_top s, v_col := 0\<rparr>) }"

definition vga_newline :: "vga \<Rightarrow> vga option" where
  "vga_newline s = do {
     let s1 = s\<lparr>v_col := 0, v_row := v_row s + 1\<rparr>;
     if v_row s1 > v_bot s1
     then do { s2 \<leftarrow> vga_scroll s1; Some (s2\<lparr>v_row := v_bot s2\<rparr>) }
     else Some s1 }"

definition vga_putchar :: "vga \<Rightarrow> char \<Rightarrow> vga option" where
  "vga_putchar s c =
     (if c = LF then vga_newline s
      else if c = CR then Some (s\<lparr>v_col := 0\<rparr>)
      else do {
        m \<leftarrow> cell_put (v_mem s) (v_row s * VGA_WIDTH + v_col s)
               (vga_entry (byte_of_char c) (v_color s));
        let s1 = s\<lparr>v_mem := m, v_col := v_col s + 1\<rparr>;
        if v_col s1 \<ge> VGA_WIDTH then vga_newline s1 else Some s1 })"

definition vga_backspace :: "vga \<Rightarrow> vga option" where
  "vga_backspace s =
     (if v_row s = v_top s \<and> v_col s = 0 then Some s
      else do {
        let s1 = (if v_col s = 0 then s\<lparr>v_row := v_row s - 1, v_col := VGA_WIDTH - 1\<rparr>
                  else s\<lparr>v_col := v_col s - 1\<rparr>);
        m \<leftarrow> cell_put (v_mem s1) (v_row s1 * VGA_WIDTH + v_col s1)
               (vga_entry (byte_of_char CHR '' '') (v_color s1));
        Some (s1\<lparr>v_mem := m\<rparr>) })"

fun vga_write_loop :: "string \<Rightarrow> vga \<Rightarrow> vga option" where
  "vga_write_loop [] s = Some s"
| "vga_write_loop (c # cs) s = do { s' \<leftarrow> vga_putchar s c; vga_write_loop cs s' }"

definition vga_write_string :: "vga \<Rightarrow> string ptr \<Rightarrow> vga option" where
  "vga_write_string s str = (case str of None \<Rightarrow> Some s | Some t \<Rightarrow> vga_write_loop t s)"

subsection \<open>Direct positions\<close>

definition vga_put_at :: "vga \<Rightarrow> int \<Rightarrow> int \<Rightarrow> u8 \<Rightarrow> u8 \<Rightarrow> u8 \<Rightarrow> vga option" where
  "vga_put_at s x y c fg bg =
     (if x < 0 \<or> y < 0 \<or> x \<ge> VGA_WIDTH \<or> y \<ge> VGA_HEIGHT then Some s
      else do {
        m \<leftarrow> cell_put (v_mem s) (y * VGA_WIDTH + x) (vga_entry c (vga_entry_color fg bg));
        Some (s\<lparr>v_mem := m\<rparr>) })"

fun write_str_loop :: "string \<Rightarrow> int \<Rightarrow> int \<Rightarrow> u8 \<Rightarrow> u16 list \<Rightarrow> u16 list option" where
  "write_str_loop [] x y color m = Some m"
| "write_str_loop (c # cs) x y color m =
     (if x < VGA_WIDTH then do {
        m' \<leftarrow> (if x \<ge> 0 \<and> y \<ge> 0 \<and> y < VGA_HEIGHT
              then cell_put m (y * VGA_WIDTH + x) (vga_entry (byte_of_char c) color)
              else Some m);
        write_str_loop cs (x + 1) y color m' }
      else Some m)"

definition vga_write_str_at :: "vga \<Rightarrow> int \<Rightarrow> int \<Rightarrow> string ptr \<Rightarrow> u8 \<Rightarrow> u8 \<Rightarrow> vga option" where
  "vga_write_str_at s x y str fg bg =
     (case str of None \<Rightarrow> Some s
      | Some t \<Rightarrow> do {
          m \<leftarrow> write_str_loop t x y (vga_entry_color fg bg) (v_mem s);
          Some (s\<lparr>v_mem := m\<rparr>) })"

text \<open>The loops of \<open>vga_fill_rect\<close>, which skip the rows and columns that are off the screen.\<close>

fun rect_cols :: "int list \<Rightarrow> int \<Rightarrow> u16 \<Rightarrow> u16 list \<Rightarrow> u16 list option" where
  "rect_cols [] row v m = Some m"
| "rect_cols (col # cols) row v m =
     (if col < 0 \<or> col \<ge> VGA_WIDTH then rect_cols cols row v m
      else do { m' \<leftarrow> cell_put m (row * VGA_WIDTH + col) v; rect_cols cols row v m' })"

fun rect_rows :: "int list \<Rightarrow> int list \<Rightarrow> u16 \<Rightarrow> u16 list \<Rightarrow> u16 list option" where
  "rect_rows [] cols v m = Some m"
| "rect_rows (row # rows) cols v m =
     (if row < 0 \<or> row \<ge> VGA_HEIGHT then rect_rows rows cols v m
      else do { m' \<leftarrow> rect_cols cols row v m; rect_rows rows cols v m' })"

definition int_range :: "int \<Rightarrow> bool" where
  "int_range i \<longleftrightarrow> - (2 ^ 31) \<le> i \<and> i < 2 ^ 31"

definition vga_fill_rect ::
  "vga \<Rightarrow> int \<Rightarrow> int \<Rightarrow> int \<Rightarrow> int \<Rightarrow> u8 \<Rightarrow> u8 \<Rightarrow> u8 \<Rightarrow> vga option" where
  "vga_fill_rect s x y w h c fg bg =
     (if int_range (x + w) \<and> int_range (y + h) then do {
        m \<leftarrow> rect_rows [y..y + h - 1] [x..x + w - 1] (vga_entry c (vga_entry_color fg bg)) (v_mem s);
        Some (s\<lparr>v_mem := m\<rparr>) }
      else None)"

subsection \<open>Cursor and viewport\<close>

definition vga_set_cursor_pos :: "vga \<Rightarrow> int \<Rightarrow> int \<Rightarrow> vga" where
  "vga_set_cursor_pos s x y = (
     let x = (if x < 0 then 0 else x);
         y = (if y < 0 then 0 else y);
         x = (if x \<ge> VGA_WIDTH then VGA_WIDTH - 1 else x);
         y = (if y \<ge> VGA_HEIGHT then VGA_HEIGHT - 1 else y)
     in s\<lparr>v_col := x, v_row := y\<rparr>)"

definition vga_get_row :: "vga \<Rightarrow> int" where "vga_get_row s = v_row s"
definition vga_get_col :: "vga \<Rightarrow> int" where "vga_get_col s = v_col s"

definition vga_set_viewport :: "vga \<Rightarrow> int \<Rightarrow> int \<Rightarrow> vga" where
  "vga_set_viewport s tp bt = (
     let tp = (if tp < 0 then 0 else tp);
         bt = (if bt \<ge> VGA_HEIGHT then VGA_HEIGHT - 1 else bt);
         tp = (if tp > bt then bt else tp);
         s = s\<lparr>v_top := tp, v_bot := bt\<rparr>;
         s = (if v_row s < v_top s then s\<lparr>v_row := v_top s\<rparr> else s)
     in if v_row s > v_bot s then s\<lparr>v_row := v_bot s\<rparr> else s)"

definition vga_reset_viewport :: "vga \<Rightarrow> vga" where
  "vga_reset_viewport s = s\<lparr>v_top := 0, v_bot := VGA_HEIGHT - 1\<rparr>"

subsection \<open>Calls as data\<close>

text \<open>A sequence of calls is a list, which \<^theory_text>\<open>run vga_exec\<close> executes.\<close>

datatype vga_call =
    Set_color u8 u8
  | Clear
  | Putchar char
  | Backspace
  | Write_string "string ptr"
  | Put_at int int u8 u8 u8
  | Write_str_at int int "string ptr" u8 u8
  | Fill_rect int int int int u8 u8 u8
  | Set_cursor_pos int int
  | Set_viewport int int
  | Reset_viewport

fun vga_exec :: "vga_call \<Rightarrow> vga \<Rightarrow> (unit \<times> vga) option" where
  "vga_exec (Set_color fg bg) s = Some ((), vga_set_color s fg bg)"
| "vga_exec Clear s = map_option (Pair ()) (vga_clear s)"
| "vga_exec (Putchar c) s = map_option (Pair ()) (vga_putchar s c)"
| "vga_exec Backspace s = map_option (Pair ()) (vga_backspace s)"
| "vga_exec (Write_string t) s = map_option (Pair ()) (vga_write_string s t)"
| "vga_exec (Put_at x y c fg bg) s = map_option (Pair ()) (vga_put_at s x y c fg bg)"
| "vga_exec (Write_str_at x y t fg bg) s = map_option (Pair ()) (vga_write_str_at s x y t fg bg)"
| "vga_exec (Fill_rect x y w h c fg bg) s = map_option (Pair ()) (vga_fill_rect s x y w h c fg bg)"
| "vga_exec (Set_cursor_pos x y) s = Some ((), vga_set_cursor_pos s x y)"
| "vga_exec (Set_viewport t b) s = Some ((), vga_set_viewport s t b)"
| "vga_exec Reset_viewport s = Some ((), vga_reset_viewport s)"

end
