(* ===== verification/VgaSpec.thy ===== *)
theory VgaSpec
  imports Vga
begin

text \<open>
  The screen as a function from positions to cells, the closed forms of the drawing loops in
  those terms, the invariant of the screen, and the interpretation of
  \<^theory_text>\<open>guarded_machine\<close> on its calls.
\<close>

subsection \<open>Positions\<close>

definition on_screen :: "int \<Rightarrow> int \<Rightarrow> bool" where
  "on_screen x y \<longleftrightarrow> 0 \<le> x \<and> x < VGA_WIDTH \<and> 0 \<le> y \<and> y < VGA_HEIGHT"

definition cell :: "u16 list \<Rightarrow> int \<Rightarrow> int \<Rightarrow> u16" where
  "cell m x y = m ! nat (y * VGA_WIDTH + x)"

lemma on_screen_index: "on_screen x y \<Longrightarrow> nat (y * VGA_WIDTH + x) < VGA_CELLS"
  unfolding on_screen_def by linarith

lemma index_inject:
  assumes "on_screen x y" "on_screen x' y'"
  shows "nat (y * VGA_WIDTH + x) = nat (y' * VGA_WIDTH + x') \<longleftrightarrow> x = x' \<and> y = y'"
proof
  assume "nat (y * VGA_WIDTH + x) = nat (y' * VGA_WIDTH + x')"
  then have "y * VGA_WIDTH + x = y' * VGA_WIDTH + x'"
    using assms unfolding on_screen_def by linarith
  moreover have "0 \<le> x" "x < VGA_WIDTH" "0 \<le> x'" "x' < VGA_WIDTH"
    using assms by (simp_all add: on_screen_def)
  ultimately show "x = x' \<and> y = y'" by (cases y y' rule: linorder_cases) linarith+
qed simp

lemma cell_update:
  assumes "on_screen x y" "on_screen x' y'" "length m = VGA_CELLS"
  shows "cell (m[nat (y * VGA_WIDTH + x) := v]) x' y' = (if x' = x \<and> y' = y then v else cell m x' y')"
  using assms on_screen_index [OF assms(1)] index_inject [OF assms(1,2)]
  by (auto simp: cell_def nth_list_update)

lemma cell_put_eq [loop_simps]:
  assumes "on_screen x y" "length m = VGA_CELLS"
  shows "cell_put m (y * VGA_WIDTH + x) v = Some (m[nat (y * VGA_WIDTH + x) := v])"
  using assms on_screen_index [OF assms(1)] by (simp add: cell_put_def on_screen_def)

lemma cell_at_eq [loop_simps]:
  assumes "on_screen x y" "length m = VGA_CELLS"
  shows "cell_at m (y * VGA_WIDTH + x) = Some (cell m x y)"
  using assms on_screen_index [OF assms(1)] by (simp add: cell_at_def on_screen_def cell_def)

text \<open>
  \<^theory_text>\<open>paints m m' f\<close>: \<open>m'\<close> is the screen whose cell at each position is the one
  \<open>f\<close> gives, or the one of \<open>m\<close>.
\<close>

definition paints :: "u16 list \<Rightarrow> u16 list \<Rightarrow> (int \<Rightarrow> int \<Rightarrow> u16 option) \<Rightarrow> bool" where
  "paints m m' f \<longleftrightarrow> length m' = VGA_CELLS \<and>
     (\<forall>x y. on_screen x y \<longrightarrow> cell m' x y = (case f x y of None \<Rightarrow> cell m x y | Some v \<Rightarrow> v))"

lemma paints_refl: "length m = VGA_CELLS \<Longrightarrow> paints m m (\<lambda>_ _. None)"
  by (simp add: paints_def)

lemma paints_length: "paints m m' f \<Longrightarrow> length m' = VGA_CELLS"
  by (simp add: paints_def)

lemma paints_cell: "paints m m' f \<Longrightarrow> on_screen x y \<Longrightarrow>
    cell m' x y = (case f x y of None \<Rightarrow> cell m x y | Some v \<Rightarrow> v)"
  by (simp add: paints_def)

lemma paints_put:
  assumes "on_screen x y" "length m = VGA_CELLS"
  shows "paints m (m[nat (y * VGA_WIDTH + x) := v]) (\<lambda>x' y'. if x' = x \<and> y' = y then Some v else None)"
  using assms by (auto simp: paints_def cell_update)

lemma paints_trans:
  assumes "paints m m1 f" "paints m1 m2 g"
    and "\<And>x y. on_screen x y \<Longrightarrow> h x y = (case g x y of None \<Rightarrow> f x y | Some v \<Rightarrow> Some v)"
  shows "paints m m2 h"
  using assms by (auto simp: paints_def split: option.splits)

lemma fill_row_paints:
  assumes "0 \<le> y" "y < VGA_HEIGHT"
  shows "set xs \<subseteq> {0..<VGA_WIDTH} \<Longrightarrow> length m = VGA_CELLS \<Longrightarrow>
    \<exists>m'. fill_row xs y v m = Some m' \<and> paints m m' (\<lambda>x' y'. if y' = y \<and> x' \<in> set xs then Some v else None)"
proof (induction xs arbitrary: m)
  case Nil
  then show ?case by (simp add: paints_refl)
next
  case (Cons x xs)
  then have on: "on_screen x y" using assms by (simp add: on_screen_def)
  let ?m = "m[nat (y * VGA_WIDTH + x) := v]"
  obtain m' where m': "fill_row xs y v ?m = Some m'"
    "paints ?m m' (\<lambda>x' y'. if y' = y \<and> x' \<in> set xs then Some v else None)"
    using Cons.IH [of ?m] Cons.prems by auto
  have "paints m m' (\<lambda>x' y'. if y' = y \<and> x' \<in> set (x # xs) then Some v else None)"
    by (rule paints_trans [OF paints_put [OF on Cons.prems(2)] m'(2)]) auto
  with m'(1) show ?case by (simp add: cell_put_eq [OF on Cons.prems(2)])
qed

lemma fill_rows_paints:
  "set ys \<subseteq> {0..<VGA_HEIGHT} \<Longrightarrow> length m = VGA_CELLS \<Longrightarrow>
    \<exists>m'. fill_rows ys v m = Some m' \<and> paints m m' (\<lambda>x' y'. if y' \<in> set ys then Some v else None)"
proof (induction ys arbitrary: m)
  case Nil
  then show ?case by (simp add: paints_refl)
next
  case (Cons y ys)
  have y: "0 \<le> y" "y < VGA_HEIGHT" using Cons.prems(1) by auto
  have sub: "set [0..VGA_WIDTH - 1] \<subseteq> {0..<VGA_WIDTH}" by auto
  obtain m1 where m1: "fill_row [0..VGA_WIDTH - 1] y v m = Some m1"
    "paints m m1 (\<lambda>x' y'. if y' = y \<and> x' \<in> set [0..VGA_WIDTH - 1] then Some v else None)"
    using fill_row_paints [OF y sub Cons.prems(2)] by blast
  obtain m' where m': "fill_rows ys v m1 = Some m'" "paints m1 m' (\<lambda>x' y'. if y' \<in> set ys then Some v else None)"
    using Cons.IH [of m1] Cons.prems(1) paints_length [OF m1(2)] by auto
  have "paints m m' (\<lambda>x' y'. if y' \<in> set (y # ys) then Some v else None)"
    by (rule paints_trans [OF m1(2) m'(2)]) (auto simp: on_screen_def)
  with m1(1) m'(1) show ?case by simp
qed

lemma scroll_row_paints:
  assumes "1 \<le> y" "y < VGA_HEIGHT"
  shows "set xs \<subseteq> {0..<VGA_WIDTH} \<Longrightarrow> length m = VGA_CELLS \<Longrightarrow>
    \<exists>m'. scroll_row xs y m = Some m' \<and>
      paints m m' (\<lambda>x' y'. if y' = y - 1 \<and> x' \<in> set xs then Some (cell m x' y) else None)"
proof (induction xs arbitrary: m)
  case Nil
  then show ?case by (simp add: paints_refl)
next
  case (Cons x xs)
  then have on: "on_screen x y" "on_screen x (y - 1)" using assms by (simp_all add: on_screen_def)
  let ?m = "m[nat ((y - 1) * VGA_WIDTH + x) := cell m x y]"
  obtain m' where m': "scroll_row xs y ?m = Some m'"
    "paints ?m m' (\<lambda>x' y'. if y' = y - 1 \<and> x' \<in> set xs then Some (cell ?m x' y) else None)"
    using Cons.IH [of ?m] Cons.prems by auto
  have same: "cell ?m x' y = cell m x' y" if "on_screen x' y" for x'
    using cell_update [OF on(2) that Cons.prems(2)] by simp
  have "paints m m' (\<lambda>x' y'. if y' = y - 1 \<and> x' \<in> set (x # xs) then Some (cell m x' y) else None)"
    by (rule paints_trans [OF paints_put [OF on(2) Cons.prems(2)] m'(2)])
      (use on(1) same in \<open>auto simp: on_screen_def\<close>)
  moreover have "scroll_row (x # xs) y m = Some m'"
    using m'(1) by (simp only: scroll_row.simps cell_at_eq [OF on(1) Cons.prems(2)]
        cell_put_eq [OF on(2) Cons.prems(2)] bind.bind_lunit)
  ultimately show ?case by blast
qed

lemma scroll_rows_paints:
  assumes "b < VGA_HEIGHT"
  shows "1 \<le> a \<Longrightarrow> length m = VGA_CELLS \<Longrightarrow>
    \<exists>m'. scroll_rows [a..b] m = Some m' \<and>
      paints m m' (\<lambda>x' y'. if a - 1 \<le> y' \<and> y' < b then Some (cell m x' (y' + 1)) else None)"
proof (induction "nat (b + 1 - a)" arbitrary: a m)
  case 0
  then show ?case by (auto simp: paints_def)
next
  case (Suc k)
  then have ab: "a \<le> b" by simp
  have sub: "set [0..VGA_WIDTH - 1] \<subseteq> {0..<VGA_WIDTH}" by auto
  obtain m1 where m1: "scroll_row [0..VGA_WIDTH - 1] a m = Some m1"
    "paints m m1 (\<lambda>x' y'. if y' = a - 1 \<and> x' \<in> set [0..VGA_WIDTH - 1] then Some (cell m x' a) else None)"
    using scroll_row_paints [OF Suc.prems(1) _ sub Suc.prems(2)] ab assms by fastforce
  obtain m' where m': "scroll_rows [a + 1..b] m1 = Some m'"
    "paints m1 m' (\<lambda>x' y'. if a \<le> y' \<and> y' < b then Some (cell m1 x' (y' + 1)) else None)"
  proof -
    have "k = nat (b + 1 - (a + 1))" using Suc.hyps(2) by linarith
    from Suc.hyps(1) [OF this _ paints_length [OF m1(2)]] Suc.prems(1) that show thesis by auto
  qed
  have keep: "cell m1 x' (y' + 1) = cell m x' (y' + 1)" if "on_screen x' y'" "a \<le> y'" "y' < b" for x' y'
    using paints_cell [OF m1(2), of x' "y' + 1"] that assms by (simp add: on_screen_def)
  have "paints m m' (\<lambda>x' y'. if a - 1 \<le> y' \<and> y' < b then Some (cell m x' (y' + 1)) else None)"
    by (rule paints_trans [OF m1(2) m'(2)]) (use keep ab in \<open>auto simp: on_screen_def\<close>)
  moreover have "[a..b] = a # [a + 1..b]" using ab by (simp add: upto_rec1)
  ultimately show ?case using m1(1) m'(1) by simp
qed

subsection \<open>The screen invariant\<close>

definition vga_ok :: "vga \<Rightarrow> bool" where
  "vga_ok s \<longleftrightarrow> length (v_mem s) = VGA_CELLS \<and> 0 \<le> v_top s \<and> v_top s \<le> v_bot s
     \<and> v_bot s < VGA_HEIGHT \<and> on_screen (v_col s) (v_row s)"

definition in_viewport :: "vga \<Rightarrow> bool" where
  "in_viewport s \<longleftrightarrow> v_top s \<le> v_row s \<and> v_row s \<le> v_bot s"

definition blank :: "vga \<Rightarrow> u16" where
  "blank s = vga_entry (byte_of_char CHR '' '') (v_color s)"

text \<open>
  One step of text output: the viewport stays, and if the cursor is in the viewport
  it stays there and the rows outside keep their cells.
\<close>

definition text_step :: "vga \<Rightarrow> vga \<Rightarrow> bool" where
  "text_step s s' \<longleftrightarrow> vga_ok s' \<and> v_top s' = v_top s \<and> v_bot s' = v_bot s
     \<and> (in_viewport s \<longrightarrow> in_viewport s' \<and> (\<forall>x y. on_screen x y \<and> (y < v_top s \<or> v_bot s < y) \<longrightarrow>
          cell (v_mem s') x y = cell (v_mem s) x y))"

lemma text_step_refl: "vga_ok s \<Longrightarrow> text_step s s"
  by (simp add: text_step_def)

lemma text_step_trans: "text_step s s1 \<Longrightarrow> text_step s1 s2 \<Longrightarrow> text_step s s2"
  by (simp add: text_step_def)

lemma text_step_ok: "text_step s s' \<Longrightarrow> vga_ok s'"
  by (simp add: text_step_def)

lemma vga_ok_put: "vga_ok s \<Longrightarrow> vga_ok (s\<lparr>v_mem := (v_mem s)[i := v]\<rparr>)"
  by (simp add: vga_ok_def)

subsection \<open>The operations on an intact screen\<close>

definition scrolled :: "vga \<Rightarrow> int \<Rightarrow> int \<Rightarrow> u16 option" where
  "scrolled s x y = (if v_top s \<le> y \<and> y < v_bot s then Some (cell (v_mem s) x (y + 1))
     else if y = v_bot s then Some (blank s) else None)"

lemma vga_scroll_paints:
  assumes "length (v_mem s) = VGA_CELLS" "0 \<le> v_top s" "v_top s \<le> v_bot s" "v_bot s < VGA_HEIGHT"
  shows "\<exists>m. vga_scroll s = Some (s\<lparr>v_mem := m\<rparr>) \<and> paints (v_mem s) m (scrolled s)"
proof -
  obtain m1 where m1: "scroll_rows [v_top s + 1..v_bot s] (v_mem s) = Some m1"
    "paints (v_mem s) m1 (\<lambda>x' y'. if v_top s \<le> y' \<and> y' < v_bot s then Some (cell (v_mem s) x' (y' + 1)) else None)"
    using scroll_rows_paints [OF assms(4) _ assms(1), of "v_top s + 1"] assms(2) by auto
  have sub: "set [0..VGA_WIDTH - 1] \<subseteq> {0..<VGA_WIDTH}" by auto
  obtain m where m: "fill_row [0..VGA_WIDTH - 1] (v_bot s) (blank s) m1 = Some m"
    "paints m1 m (\<lambda>x' y'. if y' = v_bot s \<and> x' \<in> set [0..VGA_WIDTH - 1] then Some (blank s) else None)"
    using fill_row_paints [OF _ assms(4) sub paints_length [OF m1(2)]] assms(2,3) by fastforce
  have "paints (v_mem s) m (scrolled s)"
    by (rule paints_trans [OF m1(2) m(2)]) (auto simp: scrolled_def on_screen_def)
  with m1(1) m(1) show ?thesis by (auto simp: vga_scroll_def blank_def)
qed

lemma vga_clear_paints:
  assumes "vga_ok s"
  shows "\<exists>m. vga_clear s = Some (s\<lparr>v_mem := m, v_row := v_top s, v_col := 0\<rparr>)
    \<and> paints (v_mem s) m (\<lambda>x y. if v_top s \<le> y \<and> y \<le> v_bot s then Some (blank s) else None)"
proof -
  have "set [v_top s..v_bot s] \<subseteq> {0..<VGA_HEIGHT}" using assms by (auto simp: vga_ok_def)
  then obtain m where "fill_rows [v_top s..v_bot s] (blank s) (v_mem s) = Some m"
    "paints (v_mem s) m (\<lambda>x y. if y \<in> set [v_top s..v_bot s] then Some (blank s) else None)"
    using fill_rows_paints assms unfolding vga_ok_def by blast
  then show ?thesis by (intro exI [of _ m]) (simp add: vga_clear_def blank_def)
qed

lemma vga_clear_step:
  assumes "vga_ok s"
  shows "\<exists>s'. vga_clear s = Some s' \<and> text_step s s'"
proof -
  obtain m where m: "vga_clear s = Some (s\<lparr>v_mem := m, v_row := v_top s, v_col := 0\<rparr>)"
    "paints (v_mem s) m (\<lambda>x y. if v_top s \<le> y \<and> y \<le> v_bot s then Some (blank s) else None)"
    using vga_clear_paints [OF assms] by blast
  then have "text_step s (s\<lparr>v_mem := m, v_row := v_top s, v_col := 0\<rparr>)"
    using assms paints_length [OF m(2)] paints_cell [OF m(2)]
    by (simp add: text_step_def vga_ok_def in_viewport_def on_screen_def)
  with m(1) show ?thesis by blast
qed

lemma vga_newline_step:
  assumes "length (v_mem s) = VGA_CELLS" "0 \<le> v_top s" "v_top s \<le> v_bot s" "v_bot s < VGA_HEIGHT"
    "0 \<le> v_row s" "v_row s < VGA_HEIGHT"
  shows "\<exists>s'. vga_newline s = Some s' \<and> text_step s s'"
proof (cases "v_row s + 1 > v_bot s")
  case True
  let ?s = "s\<lparr>v_col := 0, v_row := v_row s + 1\<rparr>"
  obtain m where m: "vga_scroll ?s = Some (?s\<lparr>v_mem := m\<rparr>)" "paints (v_mem s) m (scrolled ?s)"
    using vga_scroll_paints [of ?s] assms by auto
  have "text_step s (?s\<lparr>v_mem := m, v_row := v_bot s\<rparr>)"
    using assms paints_length [OF m(2)] paints_cell [OF m(2)]
    by (simp add: text_step_def vga_ok_def in_viewport_def scrolled_def on_screen_def)
  with True m(1) show ?thesis by (auto simp: vga_newline_def)
next
  case False
  with assms show ?thesis
    by (auto simp: vga_newline_def text_step_def vga_ok_def in_viewport_def on_screen_def)
qed

lemma vga_putchar_step:
  assumes "vga_ok s"
  shows "\<exists>s'. vga_putchar s c = Some s' \<and> text_step s s'"
proof -
  note ok = assms [unfolded vga_ok_def]
  let ?m = "(v_mem s)[nat (v_row s * VGA_WIDTH + v_col s) := vga_entry (byte_of_char c) (v_color s)]"
  let ?s = "s\<lparr>v_mem := ?m, v_col := v_col s + 1\<rparr>"
  have put: "cell_put (v_mem s) (v_row s * VGA_WIDTH + v_col s) (vga_entry (byte_of_char c) (v_color s))
      = Some ?m"
    using ok by (intro cell_put_eq) auto
  have frame: "cell ?m x y = cell (v_mem s) x y" if "on_screen x y" "y \<noteq> v_row s" for x y
    using cell_update [of "v_col s" "v_row s" x y "v_mem s"] ok that by auto
  have nl: "\<exists>s'. vga_newline ?s = Some s' \<and> text_step ?s s'"
    using ok by (intro vga_newline_step) (auto simp: on_screen_def)
  have nl0: "\<exists>s'. vga_newline s = Some s' \<and> text_step s s'"
    using ok by (intro vga_newline_step) (auto simp: on_screen_def)
  have wrap: "text_step s s'" if "text_step ?s s'" for s'
    using that frame by (auto simp: text_step_def in_viewport_def)
  have mid: "text_step s ?s" if "v_col s + 1 < VGA_WIDTH"
    using that ok frame by (auto simp: text_step_def vga_ok_def in_viewport_def on_screen_def)
  have cr: "text_step s (s\<lparr>v_col := 0\<rparr>)"
    using ok by (auto simp: text_step_def vga_ok_def in_viewport_def on_screen_def)
  show ?thesis
    using nl nl0 wrap mid cr put by (auto simp: vga_putchar_def Let_def not_le)
qed

lemma vga_write_loop_step:
  "vga_ok s \<Longrightarrow> \<exists>s'. vga_write_loop t s = Some s' \<and> text_step s s'"
proof (induction t arbitrary: s)
  case Nil
  then show ?case by (simp add: text_step_refl)
next
  case (Cons c t)
  obtain s1 where s1: "vga_putchar s c = Some s1" "text_step s s1"
    using vga_putchar_step [OF Cons.prems] by blast
  with Cons.IH [OF text_step_ok] text_step_trans show ?case by fastforce
qed

lemma vga_backspace_eq:
  assumes "vga_ok s"
  shows "vga_backspace s =
    (if v_row s = v_top s \<and> v_col s = 0 then Some s
     else if v_col s > 0 then
       Some (s\<lparr>v_col := v_col s - 1, v_mem := (v_mem s)[nat (v_row s * VGA_WIDTH + (v_col s - 1)) := blank s]\<rparr>)
     else if v_row s > 0 then
       Some (s\<lparr>v_row := v_row s - 1, v_col := 79,
         v_mem := (v_mem s)[nat ((v_row s - 1) * VGA_WIDTH + 79) := blank s]\<rparr>)
     else None)"
proof -
  note ok = assms [unfolded vga_ok_def]
  have "cell_put (v_mem s) (v_row s * VGA_WIDTH + (v_col s - 1)) v =
      Some ((v_mem s)[nat (v_row s * VGA_WIDTH + (v_col s - 1)) := v])" if "v_col s > 0" for v
    using ok that by (intro cell_put_eq) (auto simp: on_screen_def)
  moreover have "cell_put (v_mem s) ((v_row s - 1) * VGA_WIDTH + 79) v =
      Some ((v_mem s)[nat ((v_row s - 1) * VGA_WIDTH + 79) := v])" if "v_row s > 0" for v
    using ok that by (intro cell_put_eq) (auto simp: on_screen_def)
  moreover have "cell_put (v_mem s) ((v_row s - 1) * VGA_WIDTH + 79) v = None" if "\<not> v_row s > 0" for v
    using ok that by (simp add: cell_put_def on_screen_def)
  moreover have "v_col s \<noteq> 0 \<longleftrightarrow> v_col s > 0" using ok by (auto simp: on_screen_def)
  ultimately show ?thesis by (simp add: vga_backspace_def Let_def blank_def)
qed

lemma vga_backspace_step:
  assumes "vga_ok s" "\<not> (v_row s = 0 \<and> v_col s = 0 \<and> v_top s \<noteq> 0)"
  shows "\<exists>s'. vga_backspace s = Some s' \<and> text_step s s'"
proof -
  note ok = assms(1) [unfolded vga_ok_def]
  have put: "text_step s (s\<lparr>v_row := r, v_col := c, v_mem := (v_mem s)[nat (r * VGA_WIDTH + c) := v]\<rparr>)"
    if "on_screen c r" "in_viewport s \<Longrightarrow> v_top s \<le> r \<and> r \<le> v_bot s" for r c v
  proof -
    have "cell ((v_mem s)[nat (r * VGA_WIDTH + c) := v]) x y = cell (v_mem s) x y"
      if "on_screen x y" "y \<noteq> r" for x y
      using cell_update [OF \<open>on_screen c r\<close> that(1)] ok that(2) by simp
    with that ok show ?thesis by (auto simp: text_step_def vga_ok_def in_viewport_def)
  qed
  consider "v_row s = v_top s \<and> v_col s = 0" | "\<not> (v_row s = v_top s \<and> v_col s = 0)" "v_col s > 0"
    | "\<not> (v_row s = v_top s \<and> v_col s = 0)" "v_col s = 0" "v_row s > 0"
    using ok assms(2) by (fastforce simp: on_screen_def)
  then show ?thesis
  proof cases
    case 1
    with assms(1) text_step_refl show ?thesis by (simp add: vga_backspace_eq)
  next
    case 2
    have "s\<lparr>v_row := v_row s, v_col := c, v_mem := m\<rparr> = s\<lparr>v_col := c, v_mem := m\<rparr>" for c m by simp
    with 2 put [of "v_col s - 1" "v_row s" "blank s"] ok show ?thesis
      by (auto simp: vga_backspace_eq [OF assms(1)] on_screen_def in_viewport_def)
  next
    case 3
    with put [of 79 "v_row s - 1" "blank s"] ok show ?thesis
      by (auto simp: vga_backspace_eq [OF assms(1)] on_screen_def in_viewport_def)
  qed
qed

subsection \<open>Direct drawing\<close>

lemma write_str_loop_paints:
  "length m = VGA_CELLS \<Longrightarrow> \<exists>m'. write_str_loop t x y color m = Some m' \<and>
    paints m m' (\<lambda>x' y'. if y' = y \<and> x \<le> x' \<and> x' < x + int (length t)
      then Some (vga_entry (byte_of_char (t ! nat (x' - x))) color) else None)"
proof (induction t arbitrary: x m)
  case Nil
  then show ?case by (auto simp: paints_def)
next
  case (Cons c t)
  let ?v = "vga_entry (byte_of_char c) color"
  show ?case
  proof (cases "x < VGA_WIDTH")
    case False
    with Cons.prems show ?thesis by (auto simp: paints_def on_screen_def)
  next
    case True
    let ?on = "x \<ge> 0 \<and> y \<ge> 0 \<and> y < VGA_HEIGHT"
    define m1 where "m1 = (if ?on then m[nat (y * VGA_WIDTH + x) := ?v] else m)"
    have m1: "paints m m1 (\<lambda>x' y'. if x' = x \<and> y' = y then Some ?v else None)"
      using paints_put [of x y m ?v] Cons.prems True by (auto simp: m1_def on_screen_def paints_def)
    have step: "(if ?on then cell_put m (y * VGA_WIDTH + x) ?v else Some m) = Some m1"
      using cell_put_eq [of x y m] True Cons.prems by (simp add: m1_def on_screen_def)
    obtain m' where m': "write_str_loop t (x + 1) y color m1 = Some m'"
      "paints m1 m' (\<lambda>x' y'. if y' = y \<and> x + 1 \<le> x' \<and> x' < x + 1 + int (length t)
        then Some (vga_entry (byte_of_char (t ! nat (x' - (x + 1)))) color) else None)"
      using Cons.IH [of m1 "x + 1"] paints_length [OF m1] by blast
    have idx: "(c # t) ! nat (x' - x) = t ! nat (x' - (x + 1))" if "x + 1 \<le> x'" for x'
    proof -
      have "nat (x' - x) = Suc (nat (x' - (x + 1)))" using that by linarith
      then show ?thesis by simp
    qed
    have "paints m m' (\<lambda>x' y'. if y' = y \<and> x \<le> x' \<and> x' < x + int (length (c # t))
        then Some (vga_entry (byte_of_char ((c # t) ! nat (x' - x))) color) else None)"
      by (rule paints_trans [OF m1 m'(2)]) (use idx in auto)
    with m'(1) step True show ?thesis by (intro exI [of _ m'], simp only: write_str_loop.simps) simp
  qed
qed

lemma rect_cols_paints:
  assumes "0 \<le> row" "row < VGA_HEIGHT"
  shows "length m = VGA_CELLS \<Longrightarrow> \<exists>m'. rect_cols cols row v m = Some m' \<and>
    paints m m' (\<lambda>x y. if y = row \<and> x \<in> set cols then Some v else None)"
proof (induction cols arbitrary: m)
  case Nil
  then show ?case by (auto simp: paints_def)
next
  case (Cons col cols)
  show ?case
  proof (cases "col < 0 \<or> col \<ge> VGA_WIDTH")
    case True
    obtain m' where m': "rect_cols cols row v m = Some m'"
      "paints m m' (\<lambda>x y. if y = row \<and> x \<in> set cols then Some v else None)"
      using Cons by blast
    have "paints m m' (\<lambda>x y. if y = row \<and> x \<in> set (col # cols) then Some v else None)"
      using m'(2) True by (auto simp: paints_def on_screen_def)
    with m'(1) True show ?thesis by auto
  next
    case False
    then have on: "on_screen col row" using assms by (simp add: on_screen_def)
    let ?m = "m[nat (row * VGA_WIDTH + col) := v]"
    obtain m' where m': "rect_cols cols row v ?m = Some m'"
      "paints ?m m' (\<lambda>x y. if y = row \<and> x \<in> set cols then Some v else None)"
      using Cons.IH [of ?m] Cons.prems by auto
    have "paints m m' (\<lambda>x y. if y = row \<and> x \<in> set (col # cols) then Some v else None)"
      by (rule paints_trans [OF paints_put [OF on Cons.prems] m'(2)]) auto
    with m'(1) False show ?thesis by (simp add: cell_put_eq [OF on Cons.prems])
  qed
qed

lemma rect_rows_paints:
  "length m = VGA_CELLS \<Longrightarrow> \<exists>m'. rect_rows rows cols v m = Some m' \<and>
    paints m m' (\<lambda>x y. if y \<in> set rows \<and> x \<in> set cols then Some v else None)"
proof (induction rows arbitrary: m)
  case Nil
  then show ?case by (auto simp: paints_def)
next
  case (Cons row rows)
  show ?case
  proof (cases "row < 0 \<or> row \<ge> VGA_HEIGHT")
    case True
    obtain m' where m': "rect_rows rows cols v m = Some m'"
      "paints m m' (\<lambda>x y. if y \<in> set rows \<and> x \<in> set cols then Some v else None)"
      using Cons by blast
    have "paints m m' (\<lambda>x y. if y \<in> set (row # rows) \<and> x \<in> set cols then Some v else None)"
      using m'(2) True by (auto simp: paints_def on_screen_def)
    with m'(1) True show ?thesis by auto
  next
    case False
    then have row: "0 \<le> row" "row < VGA_HEIGHT" by simp_all
    obtain m1 where m1: "rect_cols cols row v m = Some m1"
      "paints m m1 (\<lambda>x y. if y = row \<and> x \<in> set cols then Some v else None)"
      using rect_cols_paints [OF row Cons.prems] by blast
    obtain m' where m': "rect_rows rows cols v m1 = Some m'"
      "paints m1 m' (\<lambda>x y. if y \<in> set rows \<and> x \<in> set cols then Some v else None)"
      using Cons.IH paints_length [OF m1(2)] by blast
    have "paints m m' (\<lambda>x y. if y \<in> set (row # rows) \<and> x \<in> set cols then Some v else None)"
      by (rule paints_trans [OF m1(2) m'(2)]) auto
    with m1(1) m'(1) False show ?thesis by simp
  qed
qed

subsection \<open>The screen as a machine\<close>

text \<open>
  What a caller has to respect: no backspace with the cursor in the upper left corner above a
  viewport that starts lower, no negative bottom row, and no rectangle whose sums overflow.
\<close>

fun vga_call_ok :: "vga_call \<Rightarrow> vga \<Rightarrow> bool" where
  "vga_call_ok Backspace s \<longleftrightarrow> \<not> (v_row s = 0 \<and> v_col s = 0 \<and> v_top s \<noteq> 0)"
| "vga_call_ok (Fill_rect x y w h c fg bg) s \<longleftrightarrow> int_range (x + w) \<and> int_range (y + h)"
| "vga_call_ok (Set_viewport t b) s \<longleftrightarrow> 0 \<le> b"
| "vga_call_ok call s \<longleftrightarrow> True"

lemma vga_ok_paints: "vga_ok s \<Longrightarrow> paints (v_mem s) m f \<Longrightarrow> vga_ok (s\<lparr>v_mem := m\<rparr>)"
  using paints_length by (simp add: vga_ok_def)

lemma vga_put_at_paints:
  assumes "vga_ok s"
  shows "\<exists>m. vga_put_at s x y c fg bg = Some (s\<lparr>v_mem := m\<rparr>) \<and> paints (v_mem s) m
    (\<lambda>x' y'. if x' = x \<and> y' = y then Some (vga_entry c (vga_entry_color fg bg)) else None)"
proof (cases "on_screen x y")
  case True
  with assms paints_put [OF True] show ?thesis
    by (auto simp: vga_put_at_def cell_put_eq vga_ok_def on_screen_def)
next
  case False
  then have "vga_put_at s x y c fg bg = Some (s\<lparr>v_mem := v_mem s\<rparr>)"
    by (auto simp: vga_put_at_def on_screen_def)
  moreover have "paints (v_mem s) (v_mem s)
      (\<lambda>x' y'. if x' = x \<and> y' = y then Some (vga_entry c (vga_entry_color fg bg)) else None)"
    using assms False by (auto simp: paints_def vga_ok_def)
  ultimately show ?thesis by blast
qed

lemma vga_write_str_at_paints:
  assumes "vga_ok s"
  shows "\<exists>m. vga_write_str_at s x y (Some t) fg bg = Some (s\<lparr>v_mem := m\<rparr>) \<and> paints (v_mem s) m
    (\<lambda>x' y'. if y' = y \<and> x \<le> x' \<and> x' < x + int (length t)
      then Some (vga_entry (byte_of_char (t ! nat (x' - x))) (vga_entry_color fg bg)) else None)"
proof -
  have "length (v_mem s) = VGA_CELLS" using assms by (simp add: vga_ok_def)
  from write_str_loop_paints [OF this] obtain m where
    "write_str_loop t x y (vga_entry_color fg bg) (v_mem s) = Some m"
    "paints (v_mem s) m (\<lambda>x' y'. if y' = y \<and> x \<le> x' \<and> x' < x + int (length t)
      then Some (vga_entry (byte_of_char (t ! nat (x' - x))) (vga_entry_color fg bg)) else None)"
    by blast
  then show ?thesis by (intro exI [of _ m]) (simp add: vga_write_str_at_def)
qed

lemma vga_fill_rect_paints:
  assumes "vga_ok s" "int_range (x + w)" "int_range (y + h)"
  shows "\<exists>m. vga_fill_rect s x y w h c fg bg = Some (s\<lparr>v_mem := m\<rparr>) \<and> paints (v_mem s) m
    (\<lambda>x' y'. if y \<le> y' \<and> y' < y + h \<and> x \<le> x' \<and> x' < x + w
      then Some (vga_entry c (vga_entry_color fg bg)) else None)"
proof -
  have "length (v_mem s) = VGA_CELLS" using assms by (simp add: vga_ok_def)
  from rect_rows_paints [OF this] obtain m where
    m: "rect_rows [y..y + h - 1] [x..x + w - 1] (vga_entry c (vga_entry_color fg bg)) (v_mem s) = Some m"
    "paints (v_mem s) m (\<lambda>x' y'. if y' \<in> set [y..y + h - 1] \<and> x' \<in> set [x..x + w - 1]
      then Some (vga_entry c (vga_entry_color fg bg)) else None)" by blast
  have "(\<lambda>x' y'. if y' \<in> set [y..y + h - 1] \<and> x' \<in> set [x..x + w - 1]
      then Some (vga_entry c (vga_entry_color fg bg)) else None)
    = (\<lambda>x' y'. if y \<le> y' \<and> y' < y + h \<and> x \<le> x' \<and> x' < x + w
      then Some (vga_entry c (vga_entry_color fg bg)) else None)"
    by (auto simp: fun_eq_iff)
  with m assms(2,3) show ?thesis by (intro exI [of _ m]) (simp add: vga_fill_rect_def)
qed

lemma vga_exec_ok:
  assumes "vga_ok s" "vga_call_ok call s"
  shows "\<exists>r s'. vga_exec call s = Some (r, s') \<and> vga_ok s'"
proof (cases call)
  case (Write_string t)
  show ?thesis
  proof (cases t)
    case None
    with Write_string assms show ?thesis by (simp add: vga_write_string_def)
  next
    case (Some u)
    obtain s' where "vga_write_loop u s = Some s'" "text_step s s'"
      using vga_write_loop_step [OF assms(1)] by blast
    with Some Write_string show ?thesis by (simp add: vga_write_string_def text_step_ok)
  qed
next
  case (Put_at x y c fg bg)
  obtain m where "vga_put_at s x y c fg bg = Some (s\<lparr>v_mem := m\<rparr>)" "vga_ok (s\<lparr>v_mem := m\<rparr>)"
    using vga_put_at_paints [OF assms(1)] vga_ok_paints [OF assms(1)] by blast
  with Put_at show ?thesis by simp
next
  case (Write_str_at x y t fg bg)
  show ?thesis
  proof (cases t)
    case None
    with Write_str_at assms show ?thesis by (simp add: vga_write_str_at_def)
  next
    case (Some u)
    obtain m where "vga_write_str_at s x y (Some u) fg bg = Some (s\<lparr>v_mem := m\<rparr>)" "vga_ok (s\<lparr>v_mem := m\<rparr>)"
      using vga_write_str_at_paints [OF assms(1)] vga_ok_paints [OF assms(1)] by blast
    with Some Write_str_at show ?thesis by simp
  qed
next
  case (Fill_rect x y w h c fg bg)
  with assms(2) have i: "int_range (x + w)" "int_range (y + h)" by simp_all
  obtain m where "vga_fill_rect s x y w h c fg bg = Some (s\<lparr>v_mem := m\<rparr>)" "vga_ok (s\<lparr>v_mem := m\<rparr>)"
    using vga_fill_rect_paints [OF assms(1) i] vga_ok_paints [OF assms(1)] by blast
  with Fill_rect show ?thesis by simp
next
  case Clear
  with vga_clear_step [OF assms(1)] text_step_ok show ?thesis by auto
next
  case (Putchar c)
  with vga_putchar_step [OF assms(1)] text_step_ok show ?thesis by fastforce
next
  case Backspace
  with vga_backspace_step [OF assms(1)] assms(2) text_step_ok show ?thesis by fastforce
qed (use assms in \<open>auto simp: vga_set_color_def vga_set_cursor_pos_def
      vga_set_viewport_def vga_reset_viewport_def vga_ok_def on_screen_def Let_def\<close>)

interpretation vgam: guarded_machine vga_exec vga_call_ok vga_ok
  by unfold_locales (rule vga_exec_ok)

lemma vga_init_ok: "vga_ok vga_init"
  by (simp add: vga_ok_def vga_init_def on_screen_def)

end
