(* ===== verification/VgaProps.thy ===== *)
theory VgaProps
  imports VgaSpec
begin

text \<open>
  The properties of the screen: memory safety of every guarded run of calls, the confinement of
  text output to the viewport that kernel/vga.h promises, scrolling, clipping, and that erasing
  undoes typing.
\<close>

text \<open>C32. Any sequence of screen calls from the initial state runs without a write outside the 2000
  cells of the screen and keeps cursor and viewport on it, provided no rectangle overflows the range of
  \<open>int\<close>, no viewport has a negative bottom, and no backspace is made with the cursor in the upper left
  corner of the screen while the viewport starts lower.\<close>

theorem vga_run_safe:
  assumes "guarded vga_exec vga_call_ok calls vga_init"
  shows "\<exists>rs s. run vga_exec calls vga_init = Some (rs, s) \<and> vga_ok s"
  using vgam.run_inv [OF vga_init_ok assms] .

theorem vga_run_safe_witness:
  "\<exists>rs s. run vga_exec [Fill_rect (- 3) 20 200 90 65 1 2, Set_viewport 2 22, Clear, Write_string (Some ''hello''),
      Set_cursor_pos 100 (- 5), Putchar LF] vga_init = Some (rs, s) \<and> vga_ok s"
  by (rule vga_run_safe, rule vgam.guarded_always [OF vga_init_ok]) (auto simp: int_range_def)

fun text_call :: "vga_call \<Rightarrow> bool" where
  "text_call Clear \<longleftrightarrow> True"
| "text_call (Putchar c) \<longleftrightarrow> True"
| "text_call Backspace \<longleftrightarrow> True"
| "text_call (Write_string t) \<longleftrightarrow> True"
| "text_call (Set_color fg bg) \<longleftrightarrow> True"
| "text_call call \<longleftrightarrow> False"

lemma text_call_step:
  assumes "vga_ok s" "in_viewport s" "text_call call"
  shows "\<exists>r s'. vga_exec call s = Some (r, s') \<and> text_step s s'"
proof -
  have "\<not> (v_row s = 0 \<and> v_col s = 0 \<and> v_top s \<noteq> 0)"
    using assms by (auto simp: in_viewport_def vga_ok_def)
  note bs = vga_backspace_step [OF assms(1) this]
  show ?thesis
  proof (cases call)
    case (Write_string t)
    with vga_write_loop_step [OF assms(1)] text_step_refl [OF assms(1)] show ?thesis
      by (cases t) (fastforce simp: vga_write_string_def)+
  next
    case (Set_color fg bg)
    with assms show ?thesis
      by (simp add: vga_set_color_def text_step_def vga_ok_def in_viewport_def)
  next
    case (Putchar c)
    with vga_putchar_step [OF assms(1), of c] show ?thesis by auto
  qed (use assms(3) bs vga_clear_step [OF assms(1)] in auto)
qed

lemma text_run_step:
  "vga_ok s \<Longrightarrow> in_viewport s \<Longrightarrow> list_all text_call calls \<Longrightarrow>
    \<exists>rs s'. run vga_exec calls s = Some (rs, s') \<and> text_step s s'"
proof (induction calls arbitrary: s)
  case Nil
  then show ?case by (simp add: text_step_refl)
next
  case (Cons call calls)
  then obtain r s1 where 1: "vga_exec call s = Some (r, s1)" "text_step s s1"
    using text_call_step by fastforce
  then have "vga_ok s1" "in_viewport s1" using Cons.prems(2) by (auto simp: text_step_def)
  then obtain rs s' where "run vga_exec calls s1 = Some (rs, s')" "text_step s1 s'"
    using Cons.IH [OF \<open>vga_ok s1\<close> \<open>in_viewport s1\<close>] Cons.prems(3) by auto
  with 1 text_step_trans show ?case by fastforce
qed

text \<open>C33. Rows outside the viewport are never touched by text output: with the cursor in the viewport,
  any sequence of \<open>vga_clear\<close>, \<open>vga_putchar\<close>, \<open>vga_backspace\<close>, \<open>vga_write_string\<close> and
  \<open>vga_set_color\<close> is defined, leaves every cell above and below the viewport as it was, and leaves the
  cursor in the viewport.\<close>

theorem vga_text_confined:
  assumes "vga_ok s" "in_viewport s" "list_all text_call calls"
  shows "\<exists>rs s'. run vga_exec calls s = Some (rs, s') \<and> vga_ok s' \<and> in_viewport s'
    \<and> (\<forall>x y. on_screen x y \<and> (y < v_top s \<or> v_bot s < y) \<longrightarrow> cell (v_mem s') x y = cell (v_mem s) x y)"
  using text_run_step [OF assms] assms(2) by (fastforce simp: text_step_def)

theorem vga_text_confined_witness:
  "\<exists>rs s'. run vga_exec [Clear, Write_string (Some ''ls''), Putchar LF, Backspace] (vga_set_viewport vga_init 2 22)
      = Some (rs, s') \<and> in_viewport s' \<and> cell (v_mem s') 79 24 = 0"
proof -
  let ?s = "vga_set_viewport vga_init 2 22"
  have "vga_ok ?s" "in_viewport ?s" "v_bot ?s = 22"
    by (simp_all add: vga_set_viewport_def vga_init_def vga_ok_def in_viewport_def on_screen_def)
  moreover have "cell (v_mem ?s) 79 24 = 0" by (simp add: vga_set_viewport_def vga_init_def cell_def)
  moreover have "on_screen 79 24" by (simp add: on_screen_def)
  ultimately show ?thesis
    using vga_text_confined [of ?s "[Clear, Write_string (Some ''ls''), Putchar LF, Backspace]"] by fastforce
qed

text \<open>A new line in the last row of the viewport scrolls: every row of the viewport takes the cells
  of the row below it, the last one becomes blank in the current colour, all other rows stay, and the
  cursor is at the start of the last row.\<close>

theorem vga_newline_scrolls:
  assumes "vga_ok s" "v_row s = v_bot s"
  shows "\<exists>s'. vga_putchar s LF = Some s' \<and> v_row s' = v_bot s \<and> v_col s' = 0
    \<and> (\<forall>x y. on_screen x y \<longrightarrow> cell (v_mem s') x y =
        (if v_top s \<le> y \<and> y < v_bot s then cell (v_mem s) x (y + 1)
         else if y = v_bot s then vga_entry (byte_of_char CHR '' '') (v_color s) else cell (v_mem s) x y))"
proof -
  let ?s = "s\<lparr>v_col := 0, v_row := v_row s + 1\<rparr>"
  obtain m where m: "vga_scroll ?s = Some (?s\<lparr>v_mem := m\<rparr>)" "paints (v_mem s) m (scrolled ?s)"
    using vga_scroll_paints [of ?s] assms(1) by (auto simp: vga_ok_def)
  with assms(2) show ?thesis
    by (auto simp: vga_putchar_def vga_newline_def scrolled_def blank_def dest: paints_cell)
qed

theorem vga_newline_scrolls_witness:
  "\<exists>s'. vga_putchar (vga_set_cursor_pos vga_init 5 24) LF = Some s' \<and> v_row s' = 24
     \<and> cell (v_mem s') 3 24 = 0x0720"
proof -
  let ?s = "vga_set_cursor_pos vga_init 5 24"
  have "vga_ok ?s" "v_row ?s = v_bot ?s" "v_bot ?s = 24" "v_color ?s = 7"
    by (simp_all add: vga_set_cursor_pos_def vga_init_def vga_ok_def on_screen_def)
  moreover have "on_screen 3 24" by (simp add: on_screen_def)
  moreover have "vga_entry (byte_of_char CHR '' '') 7 = 0x0720"
    by (simp add: vga_entry_def byte_of_char_def push_bit_eq_mult)
  ultimately show ?thesis using vga_newline_scrolls [of ?s] by fastforce
qed

text \<open>The direct drawing calls clip: \<open>vga_fill_rect\<close> sets exactly the cells of the rectangle that
  are on the screen, and \<open>vga_write_str_at\<close> exactly those the string covers, whatever the coordinates;
  neither moves the cursor.\<close>

theorem vga_draw_clips:
  assumes "vga_ok s" "int_range (x + w)" "int_range (y + h)"
  shows "(\<exists>m. vga_fill_rect s x y w h c fg bg = Some (s\<lparr>v_mem := m\<rparr>) \<and>
      (\<forall>x' y'. on_screen x' y' \<longrightarrow> cell m x' y' =
        (if x \<le> x' \<and> x' < x + w \<and> y \<le> y' \<and> y' < y + h then vga_entry c (vga_entry_color fg bg)
         else cell (v_mem s) x' y')))
    \<and> (\<exists>m. vga_write_str_at s x y (Some t) fg bg = Some (s\<lparr>v_mem := m\<rparr>) \<and>
      (\<forall>x' y'. on_screen x' y' \<longrightarrow> cell m x' y' =
        (if y' = y \<and> x \<le> x' \<and> x' < x + int (length t)
         then vga_entry (byte_of_char (t ! nat (x' - x))) (vga_entry_color fg bg)
         else cell (v_mem s) x' y')))"
proof
  obtain m where m: "vga_fill_rect s x y w h c fg bg = Some (s\<lparr>v_mem := m\<rparr>)" "paints (v_mem s) m
    (\<lambda>x' y'. if y \<le> y' \<and> y' < y + h \<and> x \<le> x' \<and> x' < x + w
      then Some (vga_entry c (vga_entry_color fg bg)) else None)"
    using vga_fill_rect_paints [OF assms] by blast
  then show "\<exists>m. vga_fill_rect s x y w h c fg bg = Some (s\<lparr>v_mem := m\<rparr>) \<and>
      (\<forall>x' y'. on_screen x' y' \<longrightarrow> cell m x' y' =
        (if x \<le> x' \<and> x' < x + w \<and> y \<le> y' \<and> y' < y + h then vga_entry c (vga_entry_color fg bg)
         else cell (v_mem s) x' y'))"
    by (intro exI [of _ m]) (simp add: paints_cell)
next
  obtain m where m: "vga_write_str_at s x y (Some t) fg bg = Some (s\<lparr>v_mem := m\<rparr>)" "paints (v_mem s) m
    (\<lambda>x' y'. if y' = y \<and> x \<le> x' \<and> x' < x + int (length t)
      then Some (vga_entry (byte_of_char (t ! nat (x' - x))) (vga_entry_color fg bg)) else None)"
    using vga_write_str_at_paints [OF assms(1)] by blast
  then show "\<exists>m. vga_write_str_at s x y (Some t) fg bg = Some (s\<lparr>v_mem := m\<rparr>) \<and>
      (\<forall>x' y'. on_screen x' y' \<longrightarrow> cell m x' y' =
        (if y' = y \<and> x \<le> x' \<and> x' < x + int (length t)
         then vga_entry (byte_of_char (t ! nat (x' - x))) (vga_entry_color fg bg)
         else cell (v_mem s) x' y'))"
    by (intro exI [of _ m]) (simp add: paints_cell)
qed

theorem vga_draw_clips_witness:
  "\<exists>m. vga_fill_rect vga_init (- 2) 23 4 9 0x2A 1 0 = Some (vga_init\<lparr>v_mem := m\<rparr>) \<and> cell m 1 24 = 0x012A
     \<and> cell m 2 24 = 0"
proof -
  have "int_range (- 2 + 4)" "int_range (23 + 9)" by (simp_all add: int_range_def)
  from vga_draw_clips [OF vga_init_ok this] obtain m where m: "vga_fill_rect vga_init (- 2) 23 4 9 0x2A 1 0 = Some (vga_init\<lparr>v_mem := m\<rparr>)"
    and cells: "\<And>x' y'. on_screen x' y' \<Longrightarrow> cell m x' y' =
        (if - 2 \<le> x' \<and> x' < - 2 + 4 \<and> 23 \<le> y' \<and> y' < 23 + 9 then vga_entry 0x2A (vga_entry_color 1 0)
         else cell (v_mem vga_init) x' y')" by blast
  have "vga_entry 0x2A (vga_entry_color 1 0) = 0x012A"
    by (simp add: vga_entry_def vga_entry_color_def push_bit_eq_mult)
  moreover have "cell (v_mem vga_init) 2 24 = 0" by (simp add: cell_def vga_init_def)
  ultimately show ?thesis
    using m cells [of 1 24] cells [of 2 24] by (intro exI [of _ m]) (simp add: on_screen_def)
qed

text \<open>\<open>vga_backspace\<close> undoes \<open>vga_putchar\<close> of a printed character: unless the character scrolled
  the viewport, the cursor is back where it was and the only change is that its cell is blank.\<close>

theorem vga_backspace_undoes:
  assumes "vga_ok s" "in_viewport s" "c \<noteq> LF" "c \<noteq> CR" "v_col s < 79 \<or> v_row s < v_bot s"
  shows "\<exists>s1. vga_putchar s c = Some s1 \<and> vga_backspace s1 =
    Some (s\<lparr>v_mem := (v_mem s)[nat (v_row s * VGA_WIDTH + v_col s) := vga_entry (byte_of_char CHR '' '') (v_color s)]\<rparr>)"
proof -
  note ok = assms(1) [unfolded vga_ok_def]
  let ?i = "v_row s * VGA_WIDTH + v_col s"
  let ?m = "(v_mem s)[nat ?i := vga_entry (byte_of_char c) (v_color s)]"
  have put: "cell_put (v_mem s) ?i v = Some ((v_mem s)[nat ?i := v])" for v
    using ok by (intro cell_put_eq) auto
  show ?thesis
  proof (cases "v_col s < 79")
    case True
    let ?s = "s\<lparr>v_mem := ?m, v_col := v_col s + 1\<rparr>"
    have "vga_putchar s c = Some ?s" using assms True put by (simp add: vga_putchar_def)
    moreover have "vga_ok ?s" using ok True by (simp add: vga_ok_def on_screen_def)
    ultimately show ?thesis using ok by (simp add: vga_backspace_eq blank_def on_screen_def)
  next
    case False
    then have col: "v_col s = 79" and row: "v_row s < v_bot s" using ok assms(5) by (auto simp: on_screen_def)
    let ?s = "s\<lparr>v_mem := ?m, v_col := 0, v_row := v_row s + 1\<rparr>"
    have "vga_putchar s c = Some ?s"
      using assms col row put by (simp add: vga_putchar_def vga_newline_def)
    moreover have "vga_ok ?s" using ok row by (simp add: vga_ok_def on_screen_def)
    ultimately show ?thesis
      using ok row col assms(2) by (simp add: vga_backspace_eq blank_def on_screen_def in_viewport_def)
  qed
qed

theorem vga_backspace_undoes_witness:
  "\<exists>s1. vga_putchar vga_init CHR ''x'' = Some s1 \<and> vga_backspace s1 =
    Some (vga_init\<lparr>v_mem := (v_mem vga_init)[0 := vga_entry (byte_of_char CHR '' '') 7]\<rparr>)"
  using vga_backspace_undoes [OF vga_init_ok, of "CHR ''x''"]
  by (simp add: vga_init_def in_viewport_def)

end
