(* ===== verification/Keyboard.thy ===== *)
theory Keyboard
  imports Prelude
begin

text \<open>
  kernel/keyboard.c: the decoder of PS/2 scan codes (set 1). The two ports are read in a polling
  loop that has no end; the model takes the values the ports give, one pair of status and data
  byte per iteration, and is None while the loop is still waiting when they run out. The data
  byte of an iteration is only read when the status says so.
\<close>

definition KEY_UP :: int where "KEY_UP = 0x100"
definition KEY_DOWN :: int where "KEY_DOWN = 0x101"
definition KEY_LEFT :: int where "KEY_LEFT = 0x102"
definition KEY_RIGHT :: int where "KEY_RIGHT = 0x103"
definition KEY_F1 :: int where "KEY_F1 = 0x201"
definition KEY_F2 :: int where "KEY_F2 = 0x202"
definition KEY_F3 :: int where "KEY_F3 = 0x203"
definition KEY_F4 :: int where "KEY_F4 = 0x204"
definition KEY_F5 :: int where "KEY_F5 = 0x205"

record keyboard =
  shift_pressed :: bool
  ctrl_pressed :: bool
  caps_lock :: bool
  g_ext :: bool

definition scancode_set1_map :: "char list" where
  "scancode_set1_map =
    [NUL, CHR 0x1B] @ ''1234567890-='' @ [BS, TAB] @ ''qwertyuiop[]'' @ [LF, NUL] @ ''asdfghjkl;'' @
    [CHR 0x27, CHR 0x60, NUL, CHR 0x5C] @ ''zxcvbnm,./'' @
    [NUL, CHR ''*'', NUL, CHR '' ''] @ replicate 25 NUL @
    [CHR ''-'', NUL, NUL, NUL, CHR ''+''] @ replicate 40 NUL"

definition scancode_set1_shift_map :: "char list" where
  "scancode_set1_shift_map =
    [NUL, CHR 0x1B] @ ''!@#$%^&*()_+'' @ [BS, TAB] @ ''QWERTYUIOP{}'' @ [LF, NUL] @ ''ASDFGHJKL:'' @
    [CHR 0x22, CHR ''~'', NUL, CHR ''|''] @ ''ZXCVBNM<>?'' @
    [NUL, CHR ''*'', NUL, CHR '' ''] @ replicate 25 NUL @
    [CHR ''-'', NUL, NUL, NUL, CHR ''+''] @ replicate 40 NUL"

abbreviation code :: "char \<Rightarrow> nat" where "code c \<equiv> of_char c"

definition is_alpha :: "char \<Rightarrow> bool" where
  "is_alpha c \<longleftrightarrow> code CHR ''a'' \<le> code c \<and> code c \<le> code CHR ''z''
     \<or> code CHR ''A'' \<le> code c \<and> code c \<le> code CHR ''Z''"

definition to_upper :: "char \<Rightarrow> char" where
  "to_upper c = (if code CHR ''a'' \<le> code c \<and> code c \<le> code CHR ''z''
     then char_of (code c - (code CHR ''a'' - code CHR ''A'')) else c)"

definition to_lower :: "char \<Rightarrow> char" where
  "to_lower c = (if code CHR ''A'' \<le> code c \<and> code c \<le> code CHR ''Z''
     then char_of (code c + (code CHR ''a'' - code CHR ''A'')) else c)"

definition keyboard_init :: keyboard where
  "keyboard_init = \<lparr>shift_pressed = False, ctrl_pressed = False, caps_lock = False, g_ext = False\<rparr>"

text \<open>
  One scan code of the loop of \<open>keyboard_get_key\<close>: the new state, and the key if the function
  returns one. The outer None is an access outside the tables.
\<close>

definition release_key :: "keyboard \<Rightarrow> u8 \<Rightarrow> keyboard" where
  "release_key k scancode = (
     let released = scancode AND 0x7F;
         k = (if released = 0x2A \<or> released = 0x36 then k\<lparr>shift_pressed := False\<rparr>
              else if released = 0x1D then k\<lparr>ctrl_pressed := False\<rparr> else k)
     in k\<lparr>g_ext := False\<rparr>)"

definition ext_key :: "u8 \<Rightarrow> int" where
  "ext_key scancode = (if scancode = 0x48 then KEY_UP else if scancode = 0x50 then KEY_DOWN
     else if scancode = 0x4B then KEY_LEFT else if scancode = 0x4D then KEY_RIGHT else -1)"

definition char_key :: "keyboard \<Rightarrow> u8 \<Rightarrow> int option option" where
  "char_key k scancode = do {
     c0 \<leftarrow> rd scancode_set1_map (unat scancode);
     if c0 = NUL then Some None
     else do {
       sc \<leftarrow> rd scancode_set1_shift_map (unat scancode);
       let c = (if is_alpha c0
                then if shift_pressed k \<noteq> caps_lock k then to_upper c0 else to_lower c0
                else if shift_pressed k \<and> sc \<noteq> NUL then sc else c0);
       let c' = (if ctrl_pressed k \<and> is_alpha c
                 then char_of (code (to_lower c) - code CHR ''a'' + 1) else c);
       Some (Some (int (code c'))) } }"

definition key_step :: "keyboard \<Rightarrow> u8 \<Rightarrow> (keyboard \<times> int option) option" where
  "key_step k scancode =
     (if scancode = 0xE0 then Some (k\<lparr>g_ext := True\<rparr>, None)
      else if scancode AND 0x80 \<noteq> 0 then Some (release_key k scancode, None)
      else if g_ext k then
        Some (k\<lparr>g_ext := False\<rparr>, if ext_key scancode \<ge> 0 then Some (ext_key scancode) else None)
      else if scancode = 0x2A \<or> scancode = 0x36 then Some (k\<lparr>shift_pressed := True\<rparr>, None)
      else if scancode = 0x1D then Some (k\<lparr>ctrl_pressed := True\<rparr>, None)
      else if scancode = 0x3A then Some (k\<lparr>caps_lock := \<not> caps_lock k\<rparr>, None)
      else if scancode = 0x3B then Some (k, Some KEY_F1)
      else if scancode = 0x3C then Some (k, Some KEY_F2)
      else if scancode = 0x3D then Some (k, Some KEY_F3)
      else if scancode = 0x3E then Some (k, Some KEY_F4)
      else if scancode = 0x3F then Some (k, Some KEY_F5)
      else map_option (Pair k) (char_key k scancode))"

fun keyboard_get_key :: "keyboard \<Rightarrow> (u8 \<times> u8) list \<Rightarrow> (int \<times> keyboard \<times> (u8 \<times> u8) list) option" where
  "keyboard_get_key k [] = None"
| "keyboard_get_key k ((status, scancode) # polls) =
     (if status AND 0x01 = 0 then keyboard_get_key k polls
      else case key_step k scancode of
        None \<Rightarrow> None
      | Some (k', Some key) \<Rightarrow> Some (key, k', polls)
      | Some (k', None) \<Rightarrow> keyboard_get_key k' polls)"

lemma keyboard_get_key_shorter:
  "keyboard_get_key k polls = Some (key, k', rest) \<Longrightarrow> length rest < length polls"
  by (induction k polls rule: keyboard_get_key.induct) (fastforce split: if_splits option.splits)+

function keyboard_getchar :: "keyboard \<Rightarrow> (u8 \<times> u8) list \<Rightarrow> (char \<times> keyboard \<times> (u8 \<times> u8) list) option" where
  "keyboard_getchar k polls =
     (case keyboard_get_key k polls of
        None \<Rightarrow> None
      | Some (key, k', rest) \<Rightarrow>
          if key \<ge> 0 \<and> key \<le> 127 then Some (char_of (nat key), k', rest)
          else keyboard_getchar k' rest)"
  by pat_completeness auto
termination
  by (relation "measure (\<lambda>(k, polls). length polls)") (auto dest: keyboard_get_key_shorter)

declare keyboard_getchar.simps [simp del]

end
