(* ===== verification/KeyboardSpec.thy ===== *)
theory KeyboardSpec
  imports Keyboard
begin

text \<open>
  The decoder on scan codes given as numbers below 256, the facts of its two tables, and its
  properties: which keys it can return, what it makes of letters, and that the key strokes of a
  text decode to the text.
\<close>

subsection \<open>Scan codes\<close>

definition sc :: "nat \<Rightarrow> u8" where "sc i = word_of_nat i"

lemma unat_sc [simp]: "i < 256 \<Longrightarrow> unat (sc i) = i"
  by (simp add: sc_def unat_of_nat take_bit_nat_eq_self)

lemma sc_unat [simp]: "sc (unat w) = w"
  by (simp add: sc_def)

lemma sc_eq:
  assumes "i < 256"
  shows "sc i = w \<longleftrightarrow> i = unat w"
  using assms by (metis unat_sc sc_unat)

lemma and_0x7F: "unat ((w :: u8) AND 0x7F) = unat w mod 128"
proof -
  have "(0x7F :: u8) = Bit_Operations.mask 7" by (simp add: mask_eq_exp_minus_1)
  then have "w AND 0x7F = take_bit 7 w" by (simp only: take_bit_eq_mask)
  then have "unat (w AND 0x7F) = unat (take_bit 7 w)" by (rule arg_cong)
  also have "\<dots> = take_bit 7 (unat w)" by (simp add: unsigned_take_bit_eq)
  finally show ?thesis by (simp add: take_bit_eq_mod)
qed

lemma and_0x80: "(w :: u8) AND 0x80 = 0 \<longleftrightarrow> unat w < 128"
proof -
  have "(0x80 :: u8) = 2 ^ 7" by simp
  then have "w AND 0x80 = 0 \<longleftrightarrow> \<not> bit w 7" by (simp only: and_exp_eq_0_iff_not_bit)
  also have "bit w 7 \<longleftrightarrow> bit (unat w) 7" by (simp add: bit_unsigned_iff)
  also have "\<dots> \<longleftrightarrow> odd (unat w div 128)" by (simp add: bit_iff_odd)
  also have "\<not> \<dots> \<longleftrightarrow> unat w < 128"
  proof -
    have "unat w < 256" using unsigned_less [of w, where 'a = nat] by simp
    then have "unat w div 128 = 0 \<or> unat w div 128 = 1" by linarith
    then show ?thesis using \<open>unat w < 256\<close> by (auto simp: div_eq_0_iff)
  qed
  finally show ?thesis .
qed

lemma release_sc:
  assumes "i < 128"
  shows "release_key k (sc (i + 128)) = (if i = 0x2A \<or> i = 0x36 then k\<lparr>shift_pressed := False, g_ext := False\<rparr>
     else if i = 0x1D then k\<lparr>ctrl_pressed := False, g_ext := False\<rparr> else k\<lparr>g_ext := False\<rparr>)"
proof -
  have "unat (sc (i + 128) AND 0x7F) = i" using assms by (simp add: and_0x7F)
  then have "sc (i + 128) AND 0x7F = sc i" by (metis sc_unat)
  with assms show ?thesis by (simp add: release_key_def sc_eq)
qed

lemma key_step_break:
  assumes "i < 128" "i \<noteq> 0x60"
  shows "key_step k (sc (i + 128)) = Some (release_key k (sc (i + 128)), None)"
proof -
  have "sc (i + 128) AND 0x80 \<noteq> 0" using assms by (simp add: and_0x80)
  with assms show ?thesis by (simp add: key_step_def sc_eq)
qed

subsection \<open>The tables\<close>

lemma table_lengths [simp]:
  "length scancode_set1_map = 128" "length scancode_set1_shift_map = 128"
  by (simp_all add: scancode_set1_map_def scancode_set1_shift_map_def)

lemma table_holes:
  "scancode_set1_map ! 0x2A = NUL" "scancode_set1_map ! 0x36 = NUL" "scancode_set1_map ! 0x1D = NUL"
  "scancode_set1_map ! 0x3A = NUL" "scancode_set1_map ! 0x3B = NUL" "scancode_set1_map ! 0x3C = NUL"
  "scancode_set1_map ! 0x3D = NUL" "scancode_set1_map ! 0x3E = NUL" "scancode_set1_map ! 0x3F = NUL"
  "scancode_set1_map ! 0x60 = NUL"
  by (simp_all add: scancode_set1_map_def nth_append)

definition table_pair_ok :: "char \<Rightarrow> char \<Rightarrow> bool" where
  "table_pair_ok c d \<longleftrightarrow> (c = NUL \<longleftrightarrow> d = NUL) \<and> code c \<le> 126 \<and> code d \<le> 126
     \<and> (is_alpha c \<longrightarrow> 97 \<le> code c \<and> code c \<le> 122 \<and> to_upper c = d \<and> to_lower c = c
           \<and> to_lower d = c \<and> is_alpha d)
     \<and> (is_alpha d \<longrightarrow> is_alpha c)"

lemma table_pairs: "list_all2 table_pair_ok scancode_set1_map scancode_set1_shift_map"
  by code_simp

lemma table_pair:
  assumes "i < 128"
  shows "table_pair_ok (scancode_set1_map ! i) (scancode_set1_shift_map ! i)"
  using table_pairs assms by (simp add: list_all2_conv_all_nth)

text \<open>The make code of a key with a character.\<close>

lemma key_step_make:
  assumes "i < 128" "scancode_set1_map ! i \<noteq> NUL" "\<not> g_ext k"
  shows "key_step k (sc i) = map_option (Pair k) (char_key k (sc i))"
proof -
  have "i \<notin> {0x2A, 0x36, 0x1D, 0x3A, 0x3B, 0x3C, 0x3D, 0x3E, 0x3F}"
    using assms(2) table_holes by auto
  moreover have "sc i AND 0x80 = 0" using assms(1) by (simp add: and_0x80)
  ultimately show ?thesis using assms by (simp add: key_step_def sc_eq)
qed

lemma char_key_eq:
  assumes "i < 128" "scancode_set1_map ! i \<noteq> NUL"
  shows "char_key k (sc i) = Some (Some (
    let c0 = scancode_set1_map ! i; d = scancode_set1_shift_map ! i in
    if is_alpha c0
    then if ctrl_pressed k then int (code c0) - 96
         else int (code (if shift_pressed k \<noteq> caps_lock k then d else c0))
    else int (code (if shift_pressed k then d else c0))))"
proof -
  let ?c = "scancode_set1_map ! i" and ?d = "scancode_set1_shift_map ! i"
  note t = table_pair [OF assms(1), unfolded table_pair_ok_def]
  have d: "?d \<noteq> NUL" using t assms(2) by simp
  have ctrl: "int (code (char_of (code ?c - 97 + 1) :: char)) = int (code ?c) - 96" if "is_alpha ?c"
  proof -
    have "97 \<le> code ?c" "code ?c \<le> 122" using t that by simp_all
    then have "Suc (code ?c - 97) mod 256 = code ?c - 96" by simp
    with \<open>97 \<le> code ?c\<close> show ?thesis by (simp add: of_char_of)
  qed
  show ?thesis
    using assms t d ctrl by (simp add: char_key_def Let_def)
qed

subsection \<open>The keys\<close>

definition special_keys :: "int list" where
  "special_keys = [KEY_UP, KEY_DOWN, KEY_LEFT, KEY_RIGHT, KEY_F1, KEY_F2, KEY_F3, KEY_F4, KEY_F5]"

lemma key_step_cases:
  "\<exists>k' r. key_step k w = Some (k', r) \<and> (\<forall>key. r = Some key \<longrightarrow> key \<in> set special_keys \<or> 1 \<le> key \<and> key \<le> 126)"
proof (cases "unat w < 128 \<and> scancode_set1_map ! unat w \<noteq> NUL")
  case True
  let ?i = "unat w"
  note t = table_pair [of ?i, unfolded table_pair_ok_def]
  have pos: "0 < code c" if "c \<noteq> NUL" for c :: char
    using that of_char_eq_iff [of c NUL, where 'a = nat] by (cases "code c") auto
  have "\<exists>key. char_key k w = Some (Some key) \<and> 1 \<le> key \<and> key \<le> 126"
  proof -
    let ?n = "code (scancode_set1_map ! ?i)" and ?m = "code (scancode_set1_shift_map ! ?i)"
    have n: "0 < ?n" "?n \<le> 126" "0 < ?m" "?m \<le> 126"
      and l: "is_alpha (scancode_set1_map ! ?i) \<longrightarrow> 97 \<le> ?n \<and> ?n \<le> 122"
      using True t pos by auto
    have "char_key k w = Some (Some (
        if is_alpha (scancode_set1_map ! ?i)
        then if ctrl_pressed k then int ?n - 96 else if shift_pressed k \<noteq> caps_lock k then int ?m else int ?n
        else if shift_pressed k then int ?m else int ?n))"
      using char_key_eq [of ?i k] True by (simp add: Let_def)
    then show ?thesis using n l by simp
  qed
  then show ?thesis
    by (auto simp: key_step_def ext_key_def special_keys_def)
next
  case False
  have "char_key k w = Some None" if "w AND 0x80 = 0"
    using False that by (simp add: char_key_def and_0x80)
  then show ?thesis
    by (auto simp: key_step_def ext_key_def special_keys_def)
qed

text \<open>Decoding never reads outside the tables, and a key that \<open>keyboard_get_key\<close> returns is one
  of the nine special keys or an ASCII code from 1 to 126; a character that \<open>keyboard_getchar\<close> returns
  is in the latter range. In particular 127 (delete) is never produced.\<close>

theorem keyboard_key_range:
  "(\<forall>key k' rest. keyboard_get_key k polls = Some (key, k', rest) \<longrightarrow>
      key \<in> set special_keys \<or> 1 \<le> key \<and> key \<le> 126)
   \<and> (\<forall>c k' rest. keyboard_getchar k polls = Some (c, k', rest) \<longrightarrow> 1 \<le> code c \<and> code c \<le> 126)"
proof -
  have key: "key \<in> set special_keys \<or> 1 \<le> key \<and> key \<le> 126"
    if "keyboard_get_key k polls = Some (key, k', rest)" for k polls key k' rest
    using that
  proof (induction k polls rule: keyboard_get_key.induct)
    case (2 k status scancode polls)
    obtain k1 r where 1: "key_step k scancode = Some (k1, r)"
      "\<And>key. r = Some key \<Longrightarrow> key \<in> set special_keys \<or> 1 \<le> key \<and> key \<le> 126"
      using key_step_cases [of k scancode] by blast
    show ?case
    proof (cases "status AND 1 = 0")
      case True
      with 2 show ?thesis by simp
    next
      case False
      with 1 2 show ?thesis by (cases r) auto
    qed
  qed simp
  have char: "1 \<le> code c \<and> code c \<le> 126" if "keyboard_getchar k polls = Some (c, k', rest)" for k polls c k' rest
    using that
  proof (induction k polls rule: keyboard_getchar.induct)
    case (1 k polls)
    from 1(2) obtain key k1 r1 where g: "keyboard_get_key k polls = Some (key, k1, r1)"
      by (subst (asm) keyboard_getchar.simps) (auto split: option.splits)
    show ?case
    proof (cases "key \<ge> 0 \<and> key \<le> 127")
      case True
      with g 1(2) have "c = char_of (nat key)" by (subst (asm) keyboard_getchar.simps) simp
      moreover have "1 \<le> key \<and> key \<le> 126"
        using key [OF g] True by (auto simp: special_keys_def KEY_UP_def KEY_DOWN_def KEY_LEFT_def
            KEY_RIGHT_def KEY_F1_def KEY_F2_def KEY_F3_def KEY_F4_def KEY_F5_def)
      moreover from this have "nat key < 256" by linarith
      ultimately show ?thesis by (simp add: of_char_of) linarith
    next
      case False
      with g 1(2) have "keyboard_getchar k1 r1 = Some (c, k', rest)"
        by (subst (asm) keyboard_getchar.simps) simp
      with 1(1) [OF g refl refl False] show ?thesis .
    qed
  qed
  show ?thesis using key char by blast
qed

theorem keyboard_key_range_witness:
  "keyboard_getchar keyboard_init [(0, 0), (1, 0x1E)] = Some (CHR ''a'', keyboard_init, [])
    \<and> 1 \<le> code CHR ''a'' \<and> code CHR ''a'' \<le> 126"
proof -
  have "keyboard_get_key keyboard_init [(0, 0), (1, 0x1E)] = Some (97, keyboard_init, [])"
    by (simp add: key_step_def char_key_def keyboard_init_def rd_def is_alpha_def to_lower_def
        scancode_set1_map_def scancode_set1_shift_map_def)
  moreover have "char_of (97 :: nat) = CHR ''a''" by code_simp
  ultimately have "keyboard_getchar keyboard_init [(0, 0), (1, 0x1E)] = Some (CHR ''a'', keyboard_init, [])"
    by (simp add: keyboard_getchar.simps del: keyboard_get_key.simps)
  with keyboard_key_range [of keyboard_init "[(0, 0), (1, 0x1E)]"] show ?thesis by blast
qed

text \<open>Letters: the make code of a letter key, outside an extended sequence, returns the control code
  of the letter (1 to 26) while control is held, and otherwise the upper case letter exactly when one
  of shift and caps lock is on; the decoder's state does not change. The letter keys are those whose
  entry in the unshifted table is a letter.\<close>

theorem keyboard_letters:
  assumes "i < 128" "is_alpha (scancode_set1_map ! i)" "\<not> g_ext k" "status AND 1 \<noteq> 0"
  shows "keyboard_get_key k ((status, sc i) # polls) = Some
    (int (code (scancode_set1_map ! i)) -
       (if ctrl_pressed k then 96 else if shift_pressed k \<noteq> caps_lock k then 32 else 0), k, polls)"
proof -
  let ?c = "scancode_set1_map ! i"
  note t = table_pair [OF assms(1), unfolded table_pair_ok_def]
  have r: "97 \<le> code ?c" "code ?c \<le> 122" "?c \<noteq> NUL" using t assms(2) by auto
  have "scancode_set1_shift_map ! i = char_of (code ?c - 32)"
    using t assms(2) r by (auto simp: to_upper_def)
  then have "int (code (scancode_set1_shift_map ! i)) = int (code ?c) - 32"
    using r by (simp add: of_char_of)
  then show ?thesis
    using assms key_step_make [OF assms(1) r(3) assms(3)] char_key_eq [OF assms(1) r(3), of k]
    by (simp add: Let_def)
qed

theorem keyboard_letters_witness:
  "keyboard_get_key (keyboard_init\<lparr>caps_lock := True\<rparr>) [(1, sc 0x1E)] = Some (65, keyboard_init\<lparr>caps_lock := True\<rparr>, [])"
proof -
  have "scancode_set1_map ! 0x1E = CHR ''a''" by (simp add: scancode_set1_map_def)
  then show ?thesis
    using keyboard_letters [where i = "0x1E" and k = "keyboard_init\<lparr>caps_lock := True\<rparr>" and status = 1]
    by (simp add: is_alpha_def keyboard_init_def)
qed

subsection \<open>Typing a text\<close>

text \<open>
  The main block of a keyboard with the US layout in scan code set 1, as tables of the codes give it: the keys of a row have
  consecutive codes. A key is its code, its character and its character with shift.
\<close>

definition us_row :: "nat \<Rightarrow> string \<Rightarrow> string \<Rightarrow> (nat \<times> char \<times> char) list" where
  "us_row i plain upper = zip [i..<i + length plain] (zip plain upper)"

definition us_layout :: "(nat \<times> char \<times> char) list" where
  "us_layout =
     [(0x01, CHR 0x1B, CHR 0x1B)] @ us_row 0x02 ''1234567890-='' ''!@#$%^&*()_+'' @ [(0x0E, BS, BS)] @
     [(0x0F, TAB, TAB)] @ us_row 0x10 ''qwertyuiop[]'' ''QWERTYUIOP{}'' @ [(0x1C, LF, LF)] @
     us_row 0x1E (''asdfghjkl;'' @ [CHR 0x27]) (''ASDFGHJKL:'' @ [CHR 0x22]) @ [(0x29, CHR 0x60, CHR ''~'')] @
     [(0x2B, CHR 0x5C, CHR ''|'')] @ us_row 0x2C ''zxcvbnm,./'' ''ZXCVBNM<>?'' @ [(0x39, CHR '' '', CHR '' '')]"

text \<open>The scan codes of the key stroke for a character: make and break, with the left shift key around if needed.\<close>

definition keystroke :: "char \<Rightarrow> nat list" where
  "keystroke c = (case find (\<lambda>(i, plain, upper). plain = c) us_layout of
       Some (i, _) \<Rightarrow> [i, i + 128]
     | None \<Rightarrow> (case find (\<lambda>(i, plain, upper). upper = c) us_layout of
           Some (i, _) \<Rightarrow> [0x2A, i, i + 128, 0x2A + 128] | None \<Rightarrow> []))"

definition typeable :: "char \<Rightarrow> bool" where
  "typeable c \<longleftrightarrow> (\<exists>(i, plain, upper) \<in> set us_layout. c = plain \<or> c = upper)"

text \<open>The tables of the decoder have this layout.\<close>

definition decodes_key :: "nat \<times> char \<times> char \<Rightarrow> bool" where
  "decodes_key = (\<lambda>(i, plain, upper). i < 128 \<and> plain \<noteq> NUL \<and> upper \<noteq> NUL
     \<and> scancode_set1_map ! i = plain \<and> scancode_set1_shift_map ! i = upper)"

lemma tables_layout: "list_all decodes_key us_layout"
  by code_simp

lemma layout_key:
  assumes "(i, plain, upper) \<in> set us_layout"
  shows "i < 128" "plain \<noteq> NUL" "upper \<noteq> NUL" "scancode_set1_map ! i = plain" "scancode_set1_shift_map ! i = upper"
  using tables_layout assms by (auto simp: list_all_iff decodes_key_def)

text \<open>
  Outside the main block the tables give characters to three keys: the * of the number pad (0x37), and, nine places behind
  the - (0x4A) and the + (0x4E) of the number pad, which return nothing, the key with the decimal point (0x53) and F11 (0x57).
\<close>

lemma keypad_keys:
  "filter (\<lambda>i. scancode_set1_map ! i \<noteq> NUL \<and> i \<notin> fst ` set us_layout) [0..<128] = [0x37, 0x53, 0x57]"
  "map (\<lambda>i. scancode_set1_map ! i) [0x37, 0x4A, 0x4E, 0x53, 0x57] = [CHR ''*'', NUL, NUL, CHR ''-'', CHR ''+'']"
  by code_simp+

definition type_string :: "string \<Rightarrow> nat list" where
  "type_string s = concat (map keystroke s)"

definition ready :: "nat list \<Rightarrow> (u8 \<times> u8) list" where
  "ready is = map (\<lambda>i. (1, sc i)) is"

fun read_chars :: "nat \<Rightarrow> keyboard \<Rightarrow> (u8 \<times> u8) list \<Rightarrow> string option" where
  "read_chars 0 k polls = Some []"
| "read_chars (Suc n) k polls = do {
     (c, k', rest) \<leftarrow> keyboard_getchar k polls;
     cs \<leftarrow> read_chars n k' rest;
     Some (c # cs) }"

text \<open>Scan codes that return no key and lead back to the initial state.\<close>

fun drains :: "keyboard \<Rightarrow> nat list \<Rightarrow> bool" where
  "drains k [] \<longleftrightarrow> k = keyboard_init"
| "drains k (i # is) \<longleftrightarrow> (case key_step k (sc i) of Some (k', None) \<Rightarrow> drains k' is | _ \<Rightarrow> False)"

lemma getchar_skip:
  assumes "key_step k (sc i) = Some (k', None)"
  shows "keyboard_getchar k (ready (i # is)) = keyboard_getchar k' (ready is)"
  using assms by (simp add: ready_def keyboard_getchar.simps [of k] keyboard_getchar.simps [of k'])

lemma read_chars_skip:
  assumes "key_step k (sc i) = Some (k', None)"
  shows "read_chars (Suc n) k (ready (i # is)) = read_chars (Suc n) k' (ready is)"
  by (simp add: getchar_skip [OF assms])

lemma read_chars_drain:
  "drains k is \<Longrightarrow> read_chars (Suc n) k (ready (is @ js)) = read_chars (Suc n) keyboard_init (ready js)"
proof (induction "is" arbitrary: k)
  case Nil
  then show ?case by simp
next
  case (Cons i "is")
  then obtain k' where "key_step k (sc i) = Some (k', None)" "drains k' is"
    by (auto split: option.splits prod.splits)
  with Cons.IH show ?case by (simp only: append_Cons read_chars_skip)
qed

lemma read_chars_key:
  assumes "key_step k (sc i) = Some (k, Some (int (code c)))" "code c \<le> 127"
  shows "read_chars (Suc n) k (ready (i # is)) = map_option ((#) c) (read_chars n k (ready is))"
  using assms
  by (simp add: ready_def keyboard_getchar.simps [of k] map_option_case split: option.split)

abbreviation shifted :: keyboard where "shifted \<equiv> keyboard_init\<lparr>shift_pressed := True\<rparr>"

lemma neutral_key:
  assumes "i < 128" "scancode_set1_map ! i = c" "c \<noteq> NUL"
  shows "key_step keyboard_init (sc i) = Some (keyboard_init, Some (int (code c)))"
  using key_step_make [of i keyboard_init] char_key_eq [of i keyboard_init] assms
  by (simp add: keyboard_init_def Let_def)

lemma shifted_key:
  assumes "i < 128" "scancode_set1_shift_map ! i = c" "c \<noteq> NUL"
  shows "key_step shifted (sc i) = Some (shifted, Some (int (code c)))"
proof -
  have "scancode_set1_map ! i \<noteq> NUL" using table_pair [OF assms(1)] assms by (auto simp: table_pair_ok_def)
  then show ?thesis
    using key_step_make [of i shifted] char_key_eq [of i shifted] assms by (simp add: keyboard_init_def Let_def)
qed

lemma plain_break:
  assumes "i < 128" "scancode_set1_map ! i \<noteq> NUL"
  shows "key_step k (sc (i + 128)) = Some (k\<lparr>g_ext := False\<rparr>, None)"
proof -
  have "i \<notin> {0x2A, 0x36, 0x1D, 0x60}" using assms(2) table_holes by auto
  then show ?thesis using assms(1) by (simp add: key_step_break release_sc)
qed

lemma shift_press: "key_step keyboard_init (sc 0x2A) = Some (shifted, None)"
  by (simp add: key_step_def sc_eq and_0x80) (simp add: keyboard_init_def)

lemma shift_release: "key_step shifted (sc (0x2A + 128)) = Some (keyboard_init, None)"
  using key_step_break [of "0x2A" shifted] release_sc [of "0x2A" shifted] by (simp add: keyboard_init_def)

lemma read_keystroke:
  assumes "typeable c"
  shows "\<exists>k js. drains k js \<and> (\<forall>n is. read_chars (Suc n) keyboard_init (ready (keystroke c @ is)) =
    map_option ((#) c) (read_chars n k (ready (js @ is))))"
proof (cases "find (\<lambda>(i, plain, upper). plain = c) us_layout")
  case (Some key)
  then have "key \<in> set us_layout" "fst (snd key) = c" by (auto simp: find_Some_iff split_beta)
  then obtain i upper where key: "key = (i, c, upper)" "(i, c, upper) \<in> set us_layout"
    by (metis prod.collapse)
  note l = layout_key [OF key(2)]
  have low: "code c \<le> 127" using table_pair [OF l(1)] l(4) by (simp add: table_pair_ok_def)
  have "drains keyboard_init [i + 128]"
    using plain_break [of i keyboard_init] l by (simp add: keyboard_init_def)
  moreover have "read_chars (Suc n) keyboard_init (ready (keystroke c @ is)) =
      map_option ((#) c) (read_chars n keyboard_init (ready ([i + 128] @ is)))" for n "is"
    using read_chars_key [OF neutral_key low] l Some by (simp add: keystroke_def key(1))
  ultimately show ?thesis by blast
next
  case None
  then have "\<forall>(i, plain, upper) \<in> set us_layout. plain \<noteq> c" by (auto simp: find_None_iff)
  then obtain j plain where "(j, plain, c) \<in> set us_layout" using assms by (auto simp: typeable_def)
  then obtain key where k: "find (\<lambda>(i, plain, upper). upper = c) us_layout = Some key"
    by (cases "find (\<lambda>(i, plain, upper). upper = c) us_layout") (fastforce simp: find_None_iff)+
  then have "key \<in> set us_layout" "snd (snd key) = c" by (auto simp: find_Some_iff split_beta)
  with k obtain i plain where f: "find (\<lambda>(i, plain, upper). upper = c) us_layout = Some (i, plain, c)" "(i, plain, c) \<in> set us_layout"
    by (metis prod.collapse)
  note l = layout_key [OF f(2)]
  have low: "code c \<le> 127" using table_pair [OF l(1)] l(5) by (simp add: table_pair_ok_def)
  have "drains shifted [i + 128, 0x2A + 128]"
    using plain_break [OF l(1), of shifted] l shift_release by (simp add: keyboard_init_def)
  moreover have "read_chars (Suc n) keyboard_init (ready (keystroke c @ is)) =
      map_option ((#) c) (read_chars n shifted (ready ([i + 128, 0x2A + 128] @ is)))" for n "is"
    using read_chars_key [OF shifted_key low] l None f read_chars_skip [OF shift_press]
    by (simp add: keystroke_def del: read_chars.simps)
  ultimately show ?thesis by blast
qed

lemma read_typed_text:
  assumes "list_all typeable s"
  shows "read_chars (length s) keyboard_init (ready (type_string s)) = Some s"
proof -
  have "drains k js \<Longrightarrow> read_chars (length s) k (ready (js @ type_string s)) = Some s" for k js
    using assms
  proof (induction s arbitrary: k js)
    case Nil
    then show ?case by simp
  next
    case (Cons c s)
    obtain k' js' where 1: "drains k' js'" "\<And>n is. read_chars (Suc n) keyboard_init (ready (keystroke c @ is)) =
        map_option ((#) c) (read_chars n k' (ready (js' @ is)))"
      using read_keystroke [of c] Cons.prems(2) by auto
    have "read_chars (length s) k' (ready (js' @ type_string s)) = Some s"
      using Cons.IH [OF 1(1)] Cons.prems(2) by simp
    moreover have "type_string (c # s) = keystroke c @ type_string s" by (simp add: type_string_def)
    ultimately show ?case
      using read_chars_drain [OF Cons.prems(1), of "length s" "type_string (c # s)"] 1(2)
      by (simp del: read_chars.simps)
  qed
  from this [of keyboard_init "[]"] show ?thesis by simp
qed

text \<open>C34. Typing and reading are inverse: if every character of a text is on the main block of a US keyboard (any printable
  ASCII character, backspace, tab, newline and escape), reading as many characters from the set 1 scan codes
  of its key strokes (make, break, shift around the characters that need it) gives the text.\<close>

theorem keyboard_types_text:
  assumes "list_all typeable s"
  shows "read_chars (length s) keyboard_init (ready (type_string s)) = Some s"
  using assms by (rule read_typed_text)

theorem keyboard_types_text_witness:
  "read_chars 5 keyboard_init (ready (type_string ''rm -R'')) = Some ''rm -R''"
proof -
  have "list_all typeable ''rm -R''"
    by code_simp
  moreover have "length ''rm -R'' = 5" by simp
  ultimately show ?thesis using keyboard_types_text [of "''rm -R''"] by (simp only:)
qed

text \<open>
  Releasing an extended key is decoded like releasing the plain key with the same code: the fake
  shift codes that a keyboard sends around a cursor key while shift is down (\<open>E0 AA\<close>) clear the
  shift state although the key is still held.
\<close>

lemma extended_release_clears_shift:
  "key_step (keyboard_init\<lparr>shift_pressed := True, g_ext := True\<rparr>) (sc 0xAA) = Some (keyboard_init, None)"
  using key_step_break [of "0x2A"] release_sc [of "0x2A"] by (simp add: keyboard_init_def)

end
