(* ===== verification/Kstring.thy ===== *)
theory Kstring
  imports Prelude
begin

text \<open>
  kernel/kstring.c: the freestanding string routines. Each loop is translated as a loop over
  its index (or, where the code advances the pointers, over the remaining arrays); an access
  outside an array gives None. The lemmas in \<^theory_text>\<open>loop_simps\<close> are their closed
  forms: what a call writes, and exactly when it stays inside its arrays.
\<close>

subsection \<open>kmemset and kmemcpy\<close>

function kmemset_loop :: "'a list \<Rightarrow> 'a \<Rightarrow> nat \<Rightarrow> nat \<Rightarrow> 'a list option" where
  "kmemset_loop p v count i =
     (if i < count then do { p' \<leftarrow> wr p i v; kmemset_loop p' v count (Suc i) } else Some p)"
  by pat_completeness auto
termination
  by (relation "measure (\<lambda>(p, v, count, i). count - i)") auto

definition kmemset :: "'a list \<Rightarrow> 'a \<Rightarrow> nat \<Rightarrow> 'a list option" where
  "kmemset dst v count = kmemset_loop dst v count 0"

function kmemcpy_loop :: "'a list \<Rightarrow> 'a list \<Rightarrow> nat \<Rightarrow> nat \<Rightarrow> 'a list option" where
  "kmemcpy_loop d s count i =
     (if i < count
      then do { x \<leftarrow> rd s i; d' \<leftarrow> wr d i x; kmemcpy_loop d' s count (Suc i) }
      else Some d)"
  by pat_completeness auto
termination
  by (relation "measure (\<lambda>(d, s, count, i). count - i)") auto

definition kmemcpy :: "'a list \<Rightarrow> 'a list \<Rightarrow> nat \<Rightarrow> 'a list option" where
  "kmemcpy dst src count = kmemcpy_loop dst src count 0"

text \<open>A copy to \<open>dst + off\<close>, a pointer into an array.\<close>

definition kmemcpy_at :: "'a list \<Rightarrow> nat \<Rightarrow> 'a list \<Rightarrow> nat \<Rightarrow> 'a list option" where
  "kmemcpy_at dst off src count =
     (if off \<le> length dst
      then do { d \<leftarrow> kmemcpy (drop off dst) src count; Some (take off dst @ d) }
      else None)"

declare kmemset_loop.simps [simp del] kmemcpy_loop.simps [simp del]

lemma kmemset_loop_eq:
  assumes "i \<le> count" "i \<le> length p"
  shows "kmemset_loop p v count i =
    (if count \<le> length p then Some (take i p @ replicate (count - i) v @ drop count p) else None)"
  using assms
proof (induction p v count i rule: kmemset_loop.induct)
  case (1 p v count i)
  show ?case
  proof (cases "i < count")
    case False
    with 1(2) have "i = count" by simp
    with 1(3) show ?thesis by (simp add: kmemset_loop.simps)
  next
    case True
    show ?thesis
    proof (cases "i < length p")
      case False
      with True show ?thesis by (simp add: kmemset_loop.simps wr_def)
    next
      case in_p: True
      from True have r: "replicate (count - i) v = v # replicate (count - Suc i) v"
        by (metis Suc_diff_Suc replicate_Suc)
      have "kmemset_loop (p[i := v]) v count (Suc i) =
        (if count \<le> length p then Some (take (Suc i) (p[i := v]) @ replicate (count - Suc i) v
           @ drop count (p[i := v])) else None)"
        using 1(1) [OF True, of "p[i := v]"] True in_p by simp
      with True in_p r show ?thesis
        by (simp add: kmemset_loop.simps [of p] take_Suc_conv_app_nth)
    qed
  qed
qed

lemma kmemset_eq [loop_simps]:
  "kmemset p v n = (if n \<le> length p then Some (replicate n v @ drop n p) else None)"
  by (simp add: kmemset_def kmemset_loop_eq)

lemma kmemcpy_loop_eq:
  assumes "i \<le> count" "i \<le> length d" "i \<le> length s"
  shows "kmemcpy_loop d s count i =
    (if count \<le> length d \<and> count \<le> length s
     then Some (take i d @ drop i (take count s) @ drop count d) else None)"
  using assms
proof (induction d s count i rule: kmemcpy_loop.induct)
  case (1 d s count i)
  show ?case
  proof (cases "i < count")
    case False
    with 1(2) have "i = count" by simp
    with 1(3,4) show ?thesis by (simp add: kmemcpy_loop.simps)
  next
    case True
    show ?thesis
    proof (cases "i < length d \<and> i < length s")
      case False
      with True show ?thesis by (auto simp: kmemcpy_loop.simps wr_def rd_def)
    next
      case inb: True
      have "kmemcpy_loop (d[i := s ! i]) s count (Suc i) =
        (if count \<le> length d \<and> count \<le> length s
         then Some (take (Suc i) (d[i := s ! i]) @ drop (Suc i) (take count s)
           @ drop count (d[i := s ! i])) else None)"
        using 1(1) [OF True, of "s ! i" "d[i := s ! i]"] True inb by simp
      moreover have "drop i (take count s) = s ! i # drop (Suc i) (take count s)"
        using True inb by (simp add: Cons_nth_drop_Suc [symmetric])
      ultimately show ?thesis
        using True inb by (simp add: kmemcpy_loop.simps [of d] take_Suc_conv_app_nth)
    qed
  qed
qed

lemma kmemcpy_eq [loop_simps]:
  "kmemcpy d s n =
     (if n \<le> length d \<and> n \<le> length s then Some (take n s @ drop n d) else None)"
  by (simp add: kmemcpy_def kmemcpy_loop_eq)

lemma kmemcpy_at_eq [loop_simps]:
  "kmemcpy_at d off s n =
     (if off + n \<le> length d \<and> n \<le> length s
      then Some (take off d @ take n s @ drop (off + n) d) else None)"
  by (auto simp: kmemcpy_at_def kmemcpy_eq add.commute)

subsection \<open>kstrlen, kstrcmp and kstrncmp\<close>

fun kstrlen_loop :: "char list \<Rightarrow> nat \<Rightarrow> nat option" where
  "kstrlen_loop [] len = None"
| "kstrlen_loop (c # s) len = (if c \<noteq> NUL then kstrlen_loop s (Suc len) else Some len)"

definition kstrlen :: "char list ptr \<Rightarrow> nat option" where
  "kstrlen s = (case s of None \<Rightarrow> Some 0 | Some a \<Rightarrow> kstrlen_loop a 0)"

text \<open>\<open>(int)(unsigned char)c\<close>\<close>

abbreviation uchar :: "char \<Rightarrow> int" where "uchar c \<equiv> of_char c"

fun kstrcmp :: "char list \<Rightarrow> char list \<Rightarrow> int option" where
  "kstrcmp (a # as) (b # bs) =
     (if a \<noteq> NUL \<and> b \<noteq> NUL \<and> a = b then kstrcmp as bs else Some (uchar a - uchar b))"
| "kstrcmp as bs = None"

fun kstrncmp :: "char list \<Rightarrow> char list \<Rightarrow> nat \<Rightarrow> int option" where
  "kstrncmp as bs 0 = Some 0"
| "kstrncmp (a # as) (b # bs) (Suc n) =
     (if a \<noteq> b \<or> a = NUL \<or> b = NUL then Some (uchar a - uchar b) else kstrncmp as bs n)"
| "kstrncmp as bs (Suc n) = None"

lemma kstrlen_loop_eq:
  "kstrlen_loop b k = (if NUL \<in> set b then Some (k + length (cstr b)) else None)"
  by (induction b k rule: kstrlen_loop.induct) (auto simp: cstr_Cons)

lemma kstrlen_eq [loop_simps]:
  "kstrlen (Some b) = (if NUL \<in> set b then Some (length (cstr b)) else None)"
  by (simp add: kstrlen_def kstrlen_loop_eq)

lemma kstrlen_null [simp]: "kstrlen None = Some 0"
  by (simp add: kstrlen_def)

lemma kstrlen_c_str [simp]: "nul_free s \<Longrightarrow> kstrlen (Some (c_str s)) = Some (length s)"
  by (simp add: kstrlen_eq) (simp add: c_str_def)

lemma uchar_zero [simp]: "uchar c = 0 \<longleftrightarrow> c = NUL"
  using of_char_eq_iff [of c NUL, where 'a = int] by simp

lemma uchar_pos: "c \<noteq> NUL \<Longrightarrow> 0 < uchar c"
proof -
  assume "c \<noteq> NUL"
  moreover have "0 \<le> uchar c mod 256" by (rule pos_mod_sign) simp
  then have "0 \<le> uchar c" by (simp only: of_char_mod_256)
  ultimately show ?thesis using uchar_zero [of c] by linarith
qed

lemma kstrcmp_total:
  assumes "NUL \<in> set a" "NUL \<in> set b"
  shows "\<exists>r. kstrcmp a b = Some r"
  using assms by (induction a b rule: kstrcmp.induct) auto

lemma kstrcmp_zero:
  assumes "NUL \<in> set a" "NUL \<in> set b"
  shows "kstrcmp a b = Some 0 \<longleftrightarrow> cstr a = cstr b"
  using assms
proof (induction a b rule: kstrcmp.induct)
  case (1 a as b bs)
  show ?case
  proof (cases "a \<noteq> NUL \<and> b \<noteq> NUL \<and> a = b")
    case True
    with 1 show ?thesis by (auto simp: cstr_Cons)
  next
    case False
    then show ?thesis by (auto simp: cstr_Cons)
  qed
qed auto

text \<open>The string equality test of the code: \<open>kstrcmp(a, b) == 0\<close> on string arguments.\<close>

definition streq :: "string \<Rightarrow> string \<Rightarrow> bool" where
  "streq a b \<longleftrightarrow> kstrcmp (c_str a) (c_str b) = Some 0"

lemma streq_iff [simp]:
  assumes "nul_free a" "nul_free b"
  shows "streq a b \<longleftrightarrow> a = b"
  using assms kstrcmp_zero [of "c_str a" "c_str b"]
  by (simp add: streq_def) (simp add: c_str_def)

lemma kstrcmp_sign:
  assumes "NUL \<in> set a" "NUL \<in> set b" "kstrcmp a b = Some r"
  shows "r < 0 \<longleftrightarrow> (cstr a, cstr b) \<in> lexord {(x, y). uchar x < uchar y}"
  using assms
proof (induction a b rule: kstrcmp.induct)
  case (1 a as b bs)
  show ?case
  proof (cases "a \<noteq> NUL \<and> b \<noteq> NUL \<and> a = b")
    case True
    with 1 show ?thesis by (auto simp: cstr_Cons)
  next
    case False
    with 1(4) uchar_pos [of a] uchar_pos [of b] show ?thesis
      by (auto simp: cstr_Cons split: if_splits)
  qed
qed auto

lemma kstrncmp_prefix:
  assumes "NUL \<in> set a" "nul_free s" "length s = n"
  shows "\<exists>r. kstrncmp a (s @ t) n = Some r \<and> (r = 0 \<longleftrightarrow> take n (cstr a) = s)"
  using assms
proof (induction n arbitrary: a s)
  case 0
  then show ?case by simp
next
  case (Suc n)
  then obtain y s' where s: "s = y # s'" by (cases s) auto
  from Suc.prems(1) obtain x a' where a: "a = x # a'" by (cases a) auto
  show ?case
  proof (cases "x = y")
    case True
    with Suc.prems s a have "NUL \<in> set a'" "nul_free s'" "length s' = n" "y \<noteq> NUL" by auto
    with Suc.IH [of a' s'] True s a show ?thesis by (simp add: cstr_Cons)
  next
    case False
    with Suc.prems s a show ?thesis by (auto simp: cstr_Cons)
  qed
qed

subsection \<open>kstrcpy and kstrncpy\<close>

function kstrcpy_loop :: "char list \<Rightarrow> char list \<Rightarrow> nat \<Rightarrow> (char list \<times> nat) option" where
  "kstrcpy_loop dst src i =
     (if i < length src
      then if src ! i \<noteq> NUL
        then do { dst' \<leftarrow> wr dst i (src ! i); kstrcpy_loop dst' src (Suc i) }
        else Some (dst, i)
      else None)"
  by pat_completeness auto
termination
  by (relation "measure (\<lambda>(dst, src, i). length src - i)") auto

definition kstrcpy :: "char list \<Rightarrow> char list \<Rightarrow> char list option" where
  "kstrcpy dst src = do { (dst', i) \<leftarrow> kstrcpy_loop dst src 0; wr dst' i NUL }"

function kstrncpy_copy :: "char list \<Rightarrow> char list \<Rightarrow> nat \<Rightarrow> nat \<Rightarrow> (char list \<times> nat) option" where
  "kstrncpy_copy dst src n i =
     (if i < n
      then do {
        c \<leftarrow> rd src i;
        if c \<noteq> NUL
        then do { dst' \<leftarrow> wr dst i c; kstrncpy_copy dst' src n (Suc i) }
        else Some (dst, i) }
      else Some (dst, i))"
  by pat_completeness auto
termination
  by (relation "measure (\<lambda>(dst, src, n, i). n - i)") auto

definition kstrncpy :: "char list \<Rightarrow> char list \<Rightarrow> nat \<Rightarrow> char list option" where
  "kstrncpy dst src n =
     do { (dst', i) \<leftarrow> kstrncpy_copy dst src n 0; kmemset_loop dst' NUL n i }"

declare kstrcpy_loop.simps [simp del] kstrncpy_copy.simps [simp del]

lemma kstrcpy_loop_eq:
  assumes "nul_free s" "i \<le> length s" "i \<le> length dst"
  shows "kstrcpy_loop dst (s @ NUL # t) i =
    (if length s \<le> length dst then Some (take i dst @ drop i s @ drop (length s) dst, length s)
     else None)"
  using assms
proof (induction "length s - i" arbitrary: i dst)
  case 0
  then have "i = length s" by simp
  then show ?case using 0 by (subst kstrcpy_loop.simps) (simp add: nth_append)
next
  case (Suc k)
  then have i: "i < length s" by simp
  with Suc.prems have nn: "s ! i \<noteq> NUL" by (auto simp: nul_free_def dest: nth_mem)
  show ?case
  proof (cases "i < length dst")
    case False
    with i nn show ?thesis
      by (subst kstrcpy_loop.simps) (simp add: nth_append wr_def)
  next
    case True
    from Suc(2) have k: "k = length s - Suc i" by simp
    have "kstrcpy_loop (dst[i := s ! i]) (s @ NUL # t) (Suc i) =
      (if length s \<le> length dst then Some (take (Suc i) (dst[i := s ! i]) @ drop (Suc i) s
         @ drop (length s) (dst[i := s ! i]), length s) else None)"
      using Suc.hyps(1) [OF k Suc.prems(1), of "dst[i := s ! i]"] i True by simp
    with i nn True show ?thesis
      by (subst kstrcpy_loop.simps)
        (simp add: nth_append take_Suc_conv_app_nth Cons_nth_drop_Suc)
  qed
qed

lemma kstrcpy_eq [loop_simps]:
  assumes "nul_free s"
  shows "kstrcpy dst (s @ NUL # t) =
    (if length s < length dst then Some (s @ NUL # drop (Suc (length s)) dst) else None)"
proof (cases "length s < length dst")
  case True
  then have "(s @ drop (length s) dst)[length s := NUL] = s @ NUL # drop (Suc (length s)) dst"
    by (simp add: list_update_append Cons_nth_drop_Suc [symmetric])
  with True assms show ?thesis by (simp add: kstrcpy_def kstrcpy_loop_eq)
next
  case False
  with assms show ?thesis by (simp add: kstrcpy_def kstrcpy_loop_eq wr_def)
qed

lemma kstrcpy_c_str [loop_simps]:
  "nul_free s \<Longrightarrow> kstrcpy dst (c_str s) =
    (if length s < length dst then Some (s @ NUL # drop (Suc (length s)) dst) else None)"
  using kstrcpy_eq [of s dst "[]"] by (simp add: c_str_def)

lemma kstrncpy_copy_eq:
  assumes "nul_free s" "i \<le> length s" "i \<le> n" "n \<le> length dst"
  shows "kstrncpy_copy dst (s @ NUL # t) n i =
    (let m = min n (length s) in Some (take i dst @ drop i (take m s) @ drop m dst, m))"
  using assms
proof (induction "n - i" arbitrary: i dst)
  case 0
  then have "i = n" by simp
  then show ?case using 0 by (subst kstrncpy_copy.simps) (simp add: min_def)
next
  case (Suc k)
  then have i: "i < n" "i < length dst" by simp_all
  show ?case
  proof (cases "i < length s")
    case False
    with Suc.prems have "i = length s" by simp
    with i show ?thesis by (subst kstrncpy_copy.simps) (simp add: nth_append min_def)
  next
    case True
    with Suc.prems have nn: "s ! i \<noteq> NUL" by (auto simp: nul_free_def dest: nth_mem)
    from Suc(2) have k: "k = n - Suc i" by simp
    have "kstrncpy_copy (dst[i := s ! i]) (s @ NUL # t) n (Suc i) =
      (let m = min n (length s) in
         Some (take (Suc i) (dst[i := s ! i]) @ drop (Suc i) (take m s) @ drop m (dst[i := s ! i]), m))"
      using Suc.hyps(1) [OF k Suc.prems(1), of "dst[i := s ! i]"] i True Suc.prems by simp
    moreover have "drop i (take (min n (length s)) s)
        = s ! i # drop (Suc i) (take (min n (length s)) s)"
      using True i by (simp add: Cons_nth_drop_Suc [symmetric])
    ultimately show ?thesis using i True nn
      by (subst kstrncpy_copy.simps)
        (simp add: nth_append take_Suc_conv_app_nth Let_def)
  qed
qed

lemma kstrncpy_eq [loop_simps]:
  assumes "nul_free s" "n \<le> length dst"
  shows "kstrncpy dst (s @ NUL # t) n =
    Some (take n s @ replicate (n - length s) NUL @ drop n dst)"
  using assms
  by (auto simp: kstrncpy_def kstrncpy_copy_eq Let_def min_def kmemset_loop_eq)

subsection \<open>Properties of the string functions\<close>

text \<open>\<open>kstrcmp\<close> of two strings always returns; it is 0 exactly for equal strings, negative exactly
  when the first comes before the second in the lexicographic order of unsigned bytes.\<close>

theorem kstrcmp_order:
  assumes "nul_free s" "nul_free t"
  shows "\<exists>r. kstrcmp (c_str s) (c_str t) = Some r \<and> (r = 0 \<longleftrightarrow> s = t)
    \<and> (r < 0 \<longleftrightarrow> (s, t) \<in> lexord {(x, y). uchar x < uchar y})"
proof -
  have n: "NUL \<in> set (c_str s)" "NUL \<in> set (c_str t)" by (simp_all add: c_str_def)
  obtain r where r: "kstrcmp (c_str s) (c_str t) = Some r" using kstrcmp_total [OF n] by blast
  with kstrcmp_zero [OF n] kstrcmp_sign [OF n r] assms show ?thesis by auto
qed

theorem kstrcmp_order_witness:
  "\<exists>r. kstrcmp (c_str ''ab'') (c_str ''b'') = Some r \<and> r \<noteq> 0
    \<and> (r < 0 \<longleftrightarrow> (''ab'', ''b'') \<in> lexord {(x, y). uchar x < uchar y})"
  using kstrcmp_order [of "''ab''" "''b''"] by auto

text \<open>Bounded copying: \<open>kstrncpy\<close> of a string into an array of at least \<open>n\<close> bytes writes exactly its
  first \<open>n\<close> bytes: the string cut to \<open>n\<close>, then NULs; it leaves no terminator when the string has \<open>n\<close>
  bytes or more. \<open>kstrcpy\<close> copies the string with its terminator when the array is longer than the
  string, and is out of bounds otherwise.\<close>

theorem kstr_copies:
  assumes "nul_free s"
  shows "(n \<le> length dst \<longrightarrow>
      kstrncpy dst (c_str s) n = Some (take n s @ replicate (n - length s) NUL @ drop n dst))
    \<and> kstrcpy dst (c_str s) =
      (if length s < length dst then Some (s @ NUL # drop (Suc (length s)) dst) else None)"
  using kstrncpy_eq [OF assms, of n dst "[]"] kstrcpy_c_str [OF assms] by (simp add: c_str_def)

theorem kstr_copies_witness:
  "kstrncpy ''xxxxx'' (c_str ''ab'') 4 = Some (''ab'' @ [NUL, NUL] @ ''x'')
   \<and> kstrcpy ''xx'' (c_str ''ab'') = None"
  using kstr_copies [of "''ab''" 4 "''xxxxx''"] kstr_copies [of "''ab''" 0 "''xx''"] by (simp add: numeral_2_eq_2)

end
