(* ===== verification/Ata.thy ===== *)
theory Ata
  imports Kstring
begin

text \<open>
  kernel/ata.c, first part: the state of the disk driver, the ports, and IDE. The hardware is a
  parameter: \<^theory_text>\<open>'h\<close> is its state and \<^theory_text>\<open>'h hw\<close> what the
  instructions \<open>in\<close> and \<open>out\<close>, the memory mapped registers and the memory that a controller
  shares with the CPU do to it. Nothing is assumed about it here.

  The state \<^theory_text>\<open>'h ata\<close> holds the static variables of the file and the state of the
  hardware. A polling loop counts down its remaining attempts. None is an access outside an array,
  or the loop of \<open>ide_probe_device\<close> that waits for the busy bit without a bound and does not end.
\<close>

record 'h hw =
  hw_inb :: "u16 \<Rightarrow> 'h \<Rightarrow> u8 \<times> 'h"
  hw_outb :: "u16 \<Rightarrow> u8 \<Rightarrow> 'h \<Rightarrow> 'h"
  hw_inw :: "u16 \<Rightarrow> 'h \<Rightarrow> u16 \<times> 'h"
  hw_outw :: "u16 \<Rightarrow> u16 \<Rightarrow> 'h \<Rightarrow> 'h"
  hw_inl :: "u16 \<Rightarrow> 'h \<Rightarrow> u32 \<times> 'h"
  hw_outl :: "u16 \<Rightarrow> u32 \<Rightarrow> 'h \<Rightarrow> 'h"
  hw_mmio_read :: "nat \<Rightarrow> 'h \<Rightarrow> u32 \<times> 'h"
  hw_mmio_write :: "nat \<Rightarrow> u32 \<Rightarrow> 'h \<Rightarrow> 'h"
  hw_ram_get :: "nat \<Rightarrow> nat \<Rightarrow> 'h \<Rightarrow> u8 list"
  hw_ram_put :: "nat \<Rightarrow> u8 list \<Rightarrow> 'h \<Rightarrow> 'h"
  hw_ctx_addr :: nat
  hw_sector_addr :: nat
  hw_payload_addr :: nat

abbreviation (input) ATA_MAX_IDE_DEVICES :: nat where "ATA_MAX_IDE_DEVICES \<equiv> 4"
abbreviation (input) ATA_MAX_AHCI_DEVICES :: nat where "ATA_MAX_AHCI_DEVICES \<equiv> 8"
abbreviation (input) ATA_MAX_DEVICES :: nat where "ATA_MAX_DEVICES \<equiv> 16"

definition ATA_POLL_ATTEMPTS :: nat where "ATA_POLL_ATTEMPTS = 1000000"

abbreviation (input) IDE_REG_DATA :: u16 where "IDE_REG_DATA \<equiv> 0"
abbreviation (input) IDE_REG_ERROR :: u16 where "IDE_REG_ERROR \<equiv> 1"
abbreviation (input) IDE_REG_SECCOUNT0 :: u16 where "IDE_REG_SECCOUNT0 \<equiv> 2"
abbreviation (input) IDE_REG_LBA0 :: u16 where "IDE_REG_LBA0 \<equiv> 3"
abbreviation (input) IDE_REG_LBA1 :: u16 where "IDE_REG_LBA1 \<equiv> 4"
abbreviation (input) IDE_REG_LBA2 :: u16 where "IDE_REG_LBA2 \<equiv> 5"
abbreviation (input) IDE_REG_HDDEVSEL :: u16 where "IDE_REG_HDDEVSEL \<equiv> 6"
abbreviation (input) IDE_REG_COMMAND :: u16 where "IDE_REG_COMMAND \<equiv> 7"
abbreviation (input) IDE_REG_STATUS :: u16 where "IDE_REG_STATUS \<equiv> 7"
abbreviation (input) IDE_REG_ALTSTATUS :: u16 where "IDE_REG_ALTSTATUS \<equiv> 0x206"
abbreviation (input) ATA_SR_ERR :: u8 where "ATA_SR_ERR \<equiv> 0x01"
abbreviation (input) ATA_SR_DRQ :: u8 where "ATA_SR_DRQ \<equiv> 0x08"
abbreviation (input) ATA_SR_DF :: u8 where "ATA_SR_DF \<equiv> 0x20"
abbreviation (input) ATA_SR_BSY :: u8 where "ATA_SR_BSY \<equiv> 0x80"
abbreviation (input) ATA_CMD_IDENTIFY :: u8 where "ATA_CMD_IDENTIFY \<equiv> 0xEC"

abbreviation (input) DEV_IDE :: u8 where "DEV_IDE \<equiv> 1"
abbreviation (input) DEV_AHCI :: u8 where "DEV_AHCI \<equiv> 2"

record ide_device =
  id_present :: bool
  id_io_base :: u16
  id_slave :: u8
  id_identify :: "u16 list"
  id_sectors28 :: u32
  id_model :: "char list"

record ahci_device =
  ah_present :: bool
  ah_port :: nat
  ah_port_no :: u8
  ah_sectors28 :: u32
  ah_model :: "char list"

record device_map =
  dm_present :: bool
  dm_kind :: u8
  dm_source_index :: u8
  dm_io_base :: u16
  dm_slave :: u8
  dm_sectors28 :: u32
  dm_model :: "char list"

record 'h ata =
  g_ide_devices :: "ide_device list"
  g_ahci_devices :: "ahci_device list"
  g_ahci_count :: int
  g_ahci_controllers_seen :: int
  g_ahci_bar64_rejected :: int
  g_ahci_ports_considered :: int
  g_dbg_pci_host_id :: u32
  g_dbg_slot13_id :: u32
  g_dbg_slot13_class :: u32
  g_dbg_slot13_bar5 :: u32
  g_devices :: "device_map list"
  g_device_count :: int
  g_selected_device :: int
  g_last_error :: string
  g_last_status :: u8
  g_last_error_reg :: u8
  machine :: 'h

definition zero_ide :: "u16 \<Rightarrow> u8 \<Rightarrow> ide_device" where
  "zero_ide base slave = \<lparr>id_present = False, id_io_base = base, id_slave = slave,
     id_identify = replicate 256 0, id_sectors28 = 0, id_model = replicate 41 NUL\<rparr>"

definition zero_ahci :: ahci_device where
  "zero_ahci = \<lparr>ah_present = False, ah_port = 0, ah_port_no = 0, ah_sectors28 = 0,
     ah_model = replicate 41 NUL\<rparr>"

definition zero_map :: device_map where
  "zero_map = \<lparr>dm_present = False, dm_kind = 0, dm_source_index = 0, dm_io_base = 0, dm_slave = 0,
     dm_sectors28 = 0, dm_model = replicate 41 NUL\<rparr>"

definition ata_boot :: "'h \<Rightarrow> 'h ata" where
  "ata_boot h = \<lparr>
     g_ide_devices = [zero_ide 0x1F0 0, zero_ide 0x1F0 1, zero_ide 0x170 0, zero_ide 0x170 1],
     g_ahci_devices = replicate ATA_MAX_AHCI_DEVICES zero_ahci,
     g_ahci_count = 0, g_ahci_controllers_seen = 0, g_ahci_bar64_rejected = 0,
     g_ahci_ports_considered = 0, g_dbg_pci_host_id = 0xFFFFFFFF, g_dbg_slot13_id = 0xFFFFFFFF,
     g_dbg_slot13_class = 0xFFFFFFFF, g_dbg_slot13_bar5 = 0xFFFFFFFF,
     g_devices = replicate ATA_MAX_DEVICES zero_map, g_device_count = 0, g_selected_device = -1,
     g_last_error = ''ok'', g_last_status = 0, g_last_error_reg = 0, machine = h\<rparr>"

subsection \<open>Ports\<close>

definition inb :: "'h hw \<Rightarrow> u16 \<Rightarrow> 'h ata \<Rightarrow> u8 \<times> 'h ata" where
  "inb hw port s = (let (v, h) = hw_inb hw port (machine s) in (v, s\<lparr>machine := h\<rparr>))"

definition outb :: "'h hw \<Rightarrow> u16 \<Rightarrow> u8 \<Rightarrow> 'h ata \<Rightarrow> 'h ata" where
  "outb hw port v s = s\<lparr>machine := hw_outb hw port v (machine s)\<rparr>"

definition inw :: "'h hw \<Rightarrow> u16 \<Rightarrow> 'h ata \<Rightarrow> u16 \<times> 'h ata" where
  "inw hw port s = (let (v, h) = hw_inw hw port (machine s) in (v, s\<lparr>machine := h\<rparr>))"

definition outw :: "'h hw \<Rightarrow> u16 \<Rightarrow> u16 \<Rightarrow> 'h ata \<Rightarrow> 'h ata" where
  "outw hw port v s = s\<lparr>machine := hw_outw hw port v (machine s)\<rparr>"

definition inl :: "'h hw \<Rightarrow> u16 \<Rightarrow> 'h ata \<Rightarrow> u32 \<times> 'h ata" where
  "inl hw port s = (let (v, h) = hw_inl hw port (machine s) in (v, s\<lparr>machine := h\<rparr>))"

definition outl :: "'h hw \<Rightarrow> u16 \<Rightarrow> u32 \<Rightarrow> 'h ata \<Rightarrow> 'h ata" where
  "outl hw port v s = s\<lparr>machine := hw_outl hw port v (machine s)\<rparr>"

text \<open>A write to port 0x80, which the code uses as a delay.\<close>

definition io_wait :: "'h hw \<Rightarrow> 'h ata \<Rightarrow> 'h ata" where
  "io_wait hw s = outb hw 0x80 0 s"

definition error_ok :: "'h ata \<Rightarrow> 'h ata" where
  "error_ok s = s\<lparr>g_last_error := ''ok'', g_last_status := 0, g_last_error_reg := 0\<rparr>"

definition error_ide :: "'h hw \<Rightarrow> string \<Rightarrow> u16 \<Rightarrow> u8 \<Rightarrow> 'h ata \<Rightarrow> int \<times> 'h ata" where
  "error_ide hw msg io_base status s = (
     let s = s\<lparr>g_last_error := msg, g_last_status := status\<rparr>;
         (e, s) = inb hw (io_base + IDE_REG_ERROR) s
     in (-1, s\<lparr>g_last_error_reg := e\<rparr>))"

definition ide_delay_400ns :: "'h hw \<Rightarrow> u16 \<Rightarrow> 'h ata \<Rightarrow> 'h ata" where
  "ide_delay_400ns hw io_base s = (
     let (_, s) = inb hw (io_base + IDE_REG_ALTSTATUS) s;
         (_, s) = inb hw (io_base + IDE_REG_ALTSTATUS) s;
         (_, s) = inb hw (io_base + IDE_REG_ALTSTATUS) s;
         (_, s) = inb hw (io_base + IDE_REG_ALTSTATUS) s
     in s)"

subsection \<open>Model strings\<close>

text \<open>The 20 words of the model number, high byte first.\<close>

fun model_words :: "nat list \<Rightarrow> u16 list \<Rightarrow> nat \<Rightarrow> char list \<Rightarrow> char list option" where
  "model_words [] ident p out = Some out"
| "model_words (i # is) ident p out = do {
     w \<leftarrow> rd ident i;
     out \<leftarrow> wr out p (char_of_byte (ucast (drop_bit 8 w)));
     out \<leftarrow> wr out (p + 1) (char_of_byte (ucast (w AND 0xFF)));
     model_words is ident (p + 2) out }"

text \<open>Called with \<open>i + 1\<close> for the loop variable \<open>i\<close>, which runs down to 0.\<close>

fun model_trim :: "nat \<Rightarrow> char list \<Rightarrow> char list option" where
  "model_trim 0 out = Some out"
| "model_trim (Suc i) out = do {
     c \<leftarrow> rd out i;
     if c = CHR '' '' \<or> c = NUL then do { out \<leftarrow> wr out i NUL; model_trim i out }
     else Some out }"

definition extract_model_from_identify :: "u16 list \<Rightarrow> char list \<Rightarrow> char list option" where
  "extract_model_from_identify ident out = do {
     out \<leftarrow> model_words [27..<47] ident 0 out;
     out \<leftarrow> wr out 40 NUL;
     model_trim 40 out }"

subsection \<open>Waiting\<close>

fun wait_ready_loop :: "'h hw \<Rightarrow> u16 \<Rightarrow> nat \<Rightarrow> u8 \<Rightarrow> 'h ata \<Rightarrow> int \<times> 'h ata" where
  "wait_ready_loop hw io_base 0 status s = error_ide hw ''IDE ready timeout'' io_base status s"
| "wait_ready_loop hw io_base (Suc n) status s = (
     let (status, s) = inb hw (io_base + IDE_REG_STATUS) s in
     if status AND ATA_SR_BSY = 0 then
       if status AND (ATA_SR_ERR OR ATA_SR_DF) \<noteq> 0
       then error_ide hw ''IDE ready wait error'' io_base status s
       else (0, s)
     else wait_ready_loop hw io_base n status (io_wait hw s))"

definition ide_wait_ready :: "'h hw \<Rightarrow> u16 \<Rightarrow> 'h ata \<Rightarrow> int \<times> 'h ata" where
  "ide_wait_ready hw io_base s =
     wait_ready_loop hw io_base ATA_POLL_ATTEMPTS 0 (ide_delay_400ns hw io_base s)"

fun wait_drq_loop :: "'h hw \<Rightarrow> u16 \<Rightarrow> nat \<Rightarrow> u8 \<Rightarrow> 'h ata \<Rightarrow> int \<times> 'h ata" where
  "wait_drq_loop hw io_base 0 status s = error_ide hw ''IDE DRQ timeout'' io_base status s"
| "wait_drq_loop hw io_base (Suc n) status s = (
     let (status, s) = inb hw (io_base + IDE_REG_STATUS) s in
     if status AND ATA_SR_ERR \<noteq> 0 then error_ide hw ''IDE DRQ error'' io_base status s
     else if status AND ATA_SR_DF \<noteq> 0 then error_ide hw ''IDE device fault'' io_base status s
     else if status AND ATA_SR_BSY = 0 \<and> status AND ATA_SR_DRQ \<noteq> 0 then (0, s)
     else wait_drq_loop hw io_base n status (io_wait hw s))"

definition ide_wait_drq :: "'h hw \<Rightarrow> u16 \<Rightarrow> 'h ata \<Rightarrow> int \<times> 'h ata" where
  "ide_wait_drq hw io_base s =
     wait_drq_loop hw io_base ATA_POLL_ATTEMPTS 0 (ide_delay_400ns hw io_base s)"

fun wait_not_busy_loop :: "'h hw \<Rightarrow> u16 \<Rightarrow> nat \<Rightarrow> u8 \<Rightarrow> 'h ata \<Rightarrow> int \<times> 'h ata" where
  "wait_not_busy_loop hw io_base 0 status s = error_ide hw ''IDE completion timeout'' io_base status s"
| "wait_not_busy_loop hw io_base (Suc n) status s = (
     let (status, s) = inb hw (io_base + IDE_REG_STATUS) s in
     if status AND ATA_SR_BSY = 0 then
       if status AND (ATA_SR_ERR OR ATA_SR_DF) \<noteq> 0
       then error_ide hw ''IDE completion error'' io_base status s
       else (0, s)
     else wait_not_busy_loop hw io_base n status (io_wait hw s))"

definition ide_wait_not_busy :: "'h hw \<Rightarrow> u16 \<Rightarrow> 'h ata \<Rightarrow> int \<times> 'h ata" where
  "ide_wait_not_busy hw io_base s =
     wait_not_busy_loop hw io_base ATA_POLL_ATTEMPTS 0 (ide_delay_400ns hw io_base s)"

subsection \<open>Probing\<close>

text \<open>The loop of \<open>ide_probe_device\<close> that has no bound.\<close>

partial_function (option) ide_busy_loop :: "'h hw \<Rightarrow> u16 \<Rightarrow> u8 \<Rightarrow> 'h ata \<Rightarrow> 'h ata option" where
  "ide_busy_loop hw io_base status s =
     (if status AND ATA_SR_BSY \<noteq> 0
      then case inb hw (io_base + IDE_REG_STATUS) s of (status', s') \<Rightarrow> ide_busy_loop hw io_base status' s'
      else Some s)"

text \<open>Reads \<open>n\<close> words from the data port, in order.\<close>

fun read_words :: "'h hw \<Rightarrow> u16 \<Rightarrow> nat \<Rightarrow> 'h ata \<Rightarrow> u16 list \<times> 'h ata" where
  "read_words hw io_base 0 s = ([], s)"
| "read_words hw io_base (Suc n) s = (
     let (w, s) = inw hw (io_base + IDE_REG_DATA) s;
         (ws, s) = read_words hw io_base n s
     in (w # ws, s))"

definition put_ide :: "nat \<Rightarrow> ide_device \<Rightarrow> 'h ata \<Rightarrow> 'h ata" where
  "put_ide i d s = s\<lparr>g_ide_devices := (g_ide_devices s)[i := d]\<rparr>"

definition ide_probe_device :: "'h hw \<Rightarrow> int \<Rightarrow> 'h ata \<Rightarrow> (int \<times> 'h ata) option" where
  "ide_probe_device hw index s =
     (if index < 0 \<or> index \<ge> int ATA_MAX_IDE_DEVICES then Some (-1, s)
      else do {
        dev0 \<leftarrow> rd (g_ide_devices s) (nat index);
        let dev = dev0\<lparr>id_present := False, id_sectors28 := 0,
          id_model := replicate 41 NUL, id_identify := replicate 256 0\<rparr>;
        let s = put_ide (nat index) dev s;
        let s = outb hw (id_io_base dev + IDE_REG_HDDEVSEL) (0xA0 OR push_bit 4 (id_slave dev)) s;
        let s = ide_delay_400ns hw (id_io_base dev) s;
        let s = outb hw (id_io_base dev + IDE_REG_SECCOUNT0) 0 s;
        let s = outb hw (id_io_base dev + IDE_REG_LBA0) 0 s;
        let s = outb hw (id_io_base dev + IDE_REG_LBA1) 0 s;
        let s = outb hw (id_io_base dev + IDE_REG_LBA2) 0 s;
        let s = outb hw (id_io_base dev + IDE_REG_COMMAND) ATA_CMD_IDENTIFY s;
        let (status, s) = inb hw (id_io_base dev + IDE_REG_STATUS) s;
        if status = 0 then Some (-1, s)
        else do {
          s \<leftarrow> ide_busy_loop hw (id_io_base dev) status s;
          let (lba1, s) = inb hw (id_io_base dev + IDE_REG_LBA1) s;
          let (lba2, s) = inb hw (id_io_base dev + IDE_REG_LBA2) s;
          if lba1 \<noteq> 0 \<or> lba2 \<noteq> 0 then Some (-1, s)
          else do {
            let (drq, s) = ide_wait_drq hw (id_io_base dev) s;
            if drq \<noteq> 0 then Some (-1, s)
            else do {
              let (words, s) = read_words hw (id_io_base dev) 256 s;
              lo \<leftarrow> rd words 60;
              hi \<leftarrow> rd words 61;
              model \<leftarrow> extract_model_from_identify words (id_model dev);
              Some (0, put_ide (nat index) (dev\<lparr>id_present := True, id_identify := words,
                id_sectors28 := ucast lo OR push_bit 16 (ucast hi), id_model := model\<rparr>) s) } } } })"

subsection \<open>Sectors\<close>

text \<open>The registers of a 28 bit transfer of one sector.\<close>

definition ide_setup :: "'h hw \<Rightarrow> ide_device \<Rightarrow> u32 \<Rightarrow> u8 \<Rightarrow> 'h ata \<Rightarrow> 'h ata" where
  "ide_setup hw dev lba command s = (
     let b = id_io_base dev;
         s = outb hw (b + IDE_REG_HDDEVSEL)
               (0xE0 OR push_bit 4 (id_slave dev) OR ucast (drop_bit 24 lba AND 0x0F)) s;
         s = ide_delay_400ns hw b s;
         s = outb hw (b + IDE_REG_SECCOUNT0) 1 s;
         s = outb hw (b + IDE_REG_LBA0) (ucast (lba AND 0xFF)) s;
         s = outb hw (b + IDE_REG_LBA1) (ucast (drop_bit 8 lba AND 0xFF)) s;
         s = outb hw (b + IDE_REG_LBA2) (ucast (drop_bit 16 lba AND 0xFF)) s;
         s = outb hw (b + IDE_REG_COMMAND) command s
     in ide_delay_400ns hw b s)"

fun read_data :: "'h hw \<Rightarrow> u16 \<Rightarrow> nat list \<Rightarrow> u8 list \<Rightarrow> 'h ata \<Rightarrow> (u8 list \<times> 'h ata) option" where
  "read_data hw io_base [] buf s = Some (buf, s)"
| "read_data hw io_base (i # is) buf s = do {
     let (w, s) = inw hw (io_base + IDE_REG_DATA) s;
     buf \<leftarrow> wr buf (i * 2) (ucast (w AND 0xFF));
     buf \<leftarrow> wr buf (i * 2 + 1) (ucast (drop_bit 8 w));
     read_data hw io_base is buf s }"

fun write_data :: "'h hw \<Rightarrow> u16 \<Rightarrow> nat list \<Rightarrow> u8 list \<Rightarrow> 'h ata \<Rightarrow> 'h ata option" where
  "write_data hw io_base [] buf s = Some s"
| "write_data hw io_base (i # is) buf s = do {
     lo \<leftarrow> rd buf (i * 2);
     hi \<leftarrow> rd buf (i * 2 + 1);
     write_data hw io_base is buf
       (outw hw (io_base + IDE_REG_DATA) (ucast lo OR push_bit 8 (ucast hi)) s) }"

text \<open>
  \<open>buf\<close> is the memory from the pointer \<open>buffer512\<close> to the end of its array; the results are
  the return value, that memory, and the state.
\<close>

definition ide_read_sector ::
  "'h hw \<Rightarrow> int \<Rightarrow> u32 \<Rightarrow> u8 list ptr \<Rightarrow> 'h ata \<Rightarrow> (int \<times> u8 list ptr \<times> 'h ata) option" where
  "ide_read_sector hw index lba buffer512 s =
     (if index < 0 \<or> index \<ge> int ATA_MAX_IDE_DEVICES \<or> buffer512 = None
      then Some (-1, buffer512, s\<lparr>g_last_error := ''IDE invalid read request''\<rparr>)
      else do {
        dev \<leftarrow> rd (g_ide_devices s) (nat index);
        if \<not> id_present dev then Some (-1, buffer512, s\<lparr>g_last_error := ''IDE device missing''\<rparr>)
        else do {
          let (r, s) = ide_wait_ready hw (id_io_base dev) s;
          if r \<noteq> 0 then Some (-1, buffer512, s)
          else do {
            let s = ide_setup hw dev lba 0x20 s;
            let (r, s) = ide_wait_drq hw (id_io_base dev) s;
            if r \<noteq> 0 then Some (-1, buffer512, s)
            else do {
              (buf, s) \<leftarrow> read_data hw (id_io_base dev) [0..<256] (the buffer512) s;
              Some (0, Some buf, error_ok s) } } } })"

definition ide_write_sector ::
  "'h hw \<Rightarrow> int \<Rightarrow> u32 \<Rightarrow> u8 list ptr \<Rightarrow> 'h ata \<Rightarrow> (int \<times> 'h ata) option" where
  "ide_write_sector hw index lba buffer512 s =
     (if index < 0 \<or> index \<ge> int ATA_MAX_IDE_DEVICES \<or> buffer512 = None
      then Some (-1, s\<lparr>g_last_error := ''IDE invalid write request''\<rparr>)
      else do {
        dev \<leftarrow> rd (g_ide_devices s) (nat index);
        if \<not> id_present dev then Some (-1, s\<lparr>g_last_error := ''IDE device missing''\<rparr>)
        else do {
          let (r, s) = ide_wait_ready hw (id_io_base dev) s;
          if r \<noteq> 0 then Some (-1, s)
          else do {
            let s = ide_setup hw dev lba 0x30 s;
            let (r, s) = ide_wait_drq hw (id_io_base dev) s;
            if r \<noteq> 0 then Some (-1, s)
            else do {
              s \<leftarrow> write_data hw (id_io_base dev) [0..<256] (the buffer512) s;
              let (r, s) = ide_wait_not_busy hw (id_io_base dev) s;
              if r \<noteq> 0 then Some (-1, s) else Some (0, error_ok s) } } } })"

definition ide_flush_cache :: "'h hw \<Rightarrow> int \<Rightarrow> 'h ata \<Rightarrow> (int \<times> 'h ata) option" where
  "ide_flush_cache hw index s =
     (if index < 0 \<or> index \<ge> int ATA_MAX_IDE_DEVICES
      then Some (-1, s\<lparr>g_last_error := ''IDE invalid flush request''\<rparr>)
      else do {
        dev \<leftarrow> rd (g_ide_devices s) (nat index);
        if \<not> id_present dev then Some (-1, s\<lparr>g_last_error := ''IDE device missing''\<rparr>)
        else do {
          let (r, s) = ide_wait_ready hw (id_io_base dev) s;
          if r \<noteq> 0 then Some (-1, s)
          else do {
            let s = outb hw (id_io_base dev + IDE_REG_HDDEVSEL) (0xA0 OR push_bit 4 (id_slave dev)) s;
            let s = ide_delay_400ns hw (id_io_base dev) s;
            let s = outb hw (id_io_base dev + IDE_REG_COMMAND) 0xE7 s;
            let (r, s) = ide_wait_not_busy hw (id_io_base dev) s;
            if r \<noteq> 0 then Some (-1, s) else Some (0, error_ok s) } } })"

end
