(* ===== verification/Ahci.thy ===== *)
theory Ahci
  imports Ata
begin

text \<open>
  kernel/ata.c, second part: AHCI. A register block is at a physical address, registers are 32 bits
  wide; the command list, the command table, the received FIS area and the identify buffer of a
  port are in memory that the controller reads and writes, at \<open>hw_ctx_addr + 2048 * index\<close> with the
  layout of \<open>struct ahci_port_ctx\<close>. A transfer buffer is given with its address: its bytes are
  stored there before the command is issued and read back when \<open>ahci_issue\<close> returns, so the model
  covers what the controller does to the buffer and to nothing else of the kernel's memory.
\<close>

abbreviation (input) HBA_PxCMD_ST :: u32 where "HBA_PxCMD_ST \<equiv> 0x1"
abbreviation (input) HBA_PxCMD_FRE :: u32 where "HBA_PxCMD_FRE \<equiv> 0x10"
abbreviation (input) HBA_PxCMD_FR :: u32 where "HBA_PxCMD_FR \<equiv> 0x4000"
abbreviation (input) HBA_PxCMD_CR :: u32 where "HBA_PxCMD_CR \<equiv> 0x8000"
abbreviation (input) HBA_PxIS_TFES :: u32 where "HBA_PxIS_TFES \<equiv> 0x40000000"
abbreviation (input) SATA_SIG_ATA :: u32 where "SATA_SIG_ATA \<equiv> 0x00000101"
abbreviation (input) FIS_TYPE_REG_H2D :: u8 where "FIS_TYPE_REG_H2D \<equiv> 0x27"
abbreviation (input) ATA_CMD_READ_DMA_EXT :: u8 where "ATA_CMD_READ_DMA_EXT \<equiv> 0x25"
abbreviation (input) ATA_CMD_WRITE_DMA_EXT :: u8 where "ATA_CMD_WRITE_DMA_EXT \<equiv> 0x35"
abbreviation (input) ATA_DEV_LBA :: u8 where "ATA_DEV_LBA \<equiv> 0x40"

text \<open>Offsets in \<open>struct hba_port\<close>, \<open>struct hba_mem\<close> and \<open>struct ahci_port_ctx\<close>.\<close>

abbreviation (input) PORT_CLB :: nat where "PORT_CLB \<equiv> 0x00"
abbreviation (input) PORT_CLBU :: nat where "PORT_CLBU \<equiv> 0x04"
abbreviation (input) PORT_FB :: nat where "PORT_FB \<equiv> 0x08"
abbreviation (input) PORT_FBU :: nat where "PORT_FBU \<equiv> 0x0C"
abbreviation (input) PORT_IS :: nat where "PORT_IS \<equiv> 0x10"
abbreviation (input) PORT_CMD :: nat where "PORT_CMD \<equiv> 0x18"
abbreviation (input) PORT_TFD :: nat where "PORT_TFD \<equiv> 0x20"
abbreviation (input) PORT_SIG :: nat where "PORT_SIG \<equiv> 0x24"
abbreviation (input) PORT_SSTS :: nat where "PORT_SSTS \<equiv> 0x28"
abbreviation (input) PORT_SERR :: nat where "PORT_SERR \<equiv> 0x30"
abbreviation (input) PORT_SACT :: nat where "PORT_SACT \<equiv> 0x34"
abbreviation (input) PORT_CI :: nat where "PORT_CI \<equiv> 0x38"
abbreviation (input) HBA_GHC :: nat where "HBA_GHC \<equiv> 0x04"
abbreviation (input) HBA_PI :: nat where "HBA_PI \<equiv> 0x0C"
abbreviation (input) HBA_PORTS :: nat where "HBA_PORTS \<equiv> 0x100"

record fis_reg_h2d =
  fis_type :: u8
  fis_pmport_c :: u8
  fis_command :: u8
  fis_lba0 :: u8
  fis_lba1 :: u8
  fis_lba2 :: u8
  fis_device :: u8
  fis_lba3 :: u8
  fis_lba4 :: u8
  fis_lba5 :: u8
  fis_countl :: u8
  fis_counth :: u8

text \<open>The 20 bytes of \<open>struct fis_reg_h2d\<close>; the fields left out stay zero.\<close>

definition enc_fis :: "fis_reg_h2d \<Rightarrow> u8 list" where
  "enc_fis f = [fis_type f, fis_pmport_c f, fis_command f, 0, fis_lba0 f, fis_lba1 f, fis_lba2 f,
     fis_device f, fis_lba3 f, fis_lba4 f, fis_lba5 f, 0, fis_countl f, fis_counth f, 0, 0,
     0, 0, 0, 0]"

text \<open>The 32 bytes of \<open>struct hba_cmd_header\<close> and the 16 of \<open>struct hba_prdt_entry\<close>.\<close>

definition enc_cmd_header :: "u8 \<Rightarrow> u16 \<Rightarrow> u32 \<Rightarrow> u8 list" where
  "enc_cmd_header flags prdtl ctba = [flags, 0] @ le16 prdtl @ le32 0 @ le32 ctba @ replicate 20 0"

definition enc_prdt_entry :: "u32 \<Rightarrow> u32 \<Rightarrow> u8 list" where
  "enc_prdt_entry dba dbc_i = le32 dba @ le32 0 @ le32 0 @ le32 dbc_i"

subsection \<open>Registers and shared memory\<close>

definition mmio_get :: "'h hw \<Rightarrow> nat \<Rightarrow> 'h ata \<Rightarrow> u32 \<times> 'h ata" where
  "mmio_get hw addr s = (let (v, h) = hw_mmio_read hw addr (machine s) in (v, s\<lparr>machine := h\<rparr>))"

definition mmio_set :: "'h hw \<Rightarrow> nat \<Rightarrow> u32 \<Rightarrow> 'h ata \<Rightarrow> 'h ata" where
  "mmio_set hw addr v s = s\<lparr>machine := hw_mmio_write hw addr v (machine s)\<rparr>"

definition ram_set :: "'h hw \<Rightarrow> nat \<Rightarrow> u8 list \<Rightarrow> 'h ata \<Rightarrow> 'h ata" where
  "ram_set hw addr bs s = s\<lparr>machine := hw_ram_put hw addr bs (machine s)\<rparr>"

definition ctx_cmd_list :: "'h hw \<Rightarrow> nat \<Rightarrow> nat" where
  "ctx_cmd_list hw i = hw_ctx_addr hw + 2048 * i"

definition ctx_fis :: "'h hw \<Rightarrow> nat \<Rightarrow> nat" where
  "ctx_fis hw i = hw_ctx_addr hw + 2048 * i + 1024"

definition ctx_cmd_table :: "'h hw \<Rightarrow> nat \<Rightarrow> nat" where
  "ctx_cmd_table hw i = hw_ctx_addr hw + 2048 * i + 1280"

definition ctx_identify :: "'h hw \<Rightarrow> nat \<Rightarrow> nat" where
  "ctx_identify hw i = hw_ctx_addr hw + 2048 * i + 1536"

definition error_ahci :: "'h hw \<Rightarrow> string \<Rightarrow> nat \<Rightarrow> 'h ata \<Rightarrow> int \<times> 'h ata" where
  "error_ahci hw msg port s = (
     let s = s\<lparr>g_last_error := msg\<rparr>;
         (t, s) = mmio_get hw (port + PORT_TFD) s;
         s = s\<lparr>g_last_status := ucast (t AND 0xFF)\<rparr>;
         (t, s) = mmio_get hw (port + PORT_TFD) s
     in (-1, s\<lparr>g_last_error_reg := ucast (drop_bit 8 t AND 0xFF)\<rparr>))"

subsection \<open>PCI configuration space\<close>

definition pci_address :: "u8 \<Rightarrow> u8 \<Rightarrow> u8 \<Rightarrow> u8 \<Rightarrow> u32" where
  "pci_address bus slot func offset = 0x80000000 OR push_bit 16 (ucast bus) OR push_bit 11 (ucast slot)
     OR push_bit 8 (ucast func) OR (ucast offset AND 0xFC)"

definition pci_read32 :: "'h hw \<Rightarrow> u8 \<Rightarrow> u8 \<Rightarrow> u8 \<Rightarrow> u8 \<Rightarrow> 'h ata \<Rightarrow> u32 \<times> 'h ata" where
  "pci_read32 hw bus slot func offset s =
     inl hw 0xCFC (outl hw 0xCF8 (pci_address bus slot func offset) s)"

definition pci_write32 :: "'h hw \<Rightarrow> u8 \<Rightarrow> u8 \<Rightarrow> u8 \<Rightarrow> u8 \<Rightarrow> u32 \<Rightarrow> 'h ata \<Rightarrow> 'h ata" where
  "pci_write32 hw bus slot func offset value s =
     outl hw 0xCFC value (outl hw 0xCF8 (pci_address bus slot func offset) s)"

subsection \<open>Ports\<close>

fun stop_port_loop :: "'h hw \<Rightarrow> nat \<Rightarrow> nat \<Rightarrow> 'h ata \<Rightarrow> int \<times> 'h ata" where
  "stop_port_loop hw port 0 s = error_ahci hw ''AHCI stop timeout'' port s"
| "stop_port_loop hw port (Suc n) s = (
     let (cmd, s) = mmio_get hw (port + PORT_CMD) s in
     if cmd AND (HBA_PxCMD_CR OR HBA_PxCMD_FR) = 0 then (0, s)
     else stop_port_loop hw port n (io_wait hw s))"

definition ahci_stop_port :: "'h hw \<Rightarrow> nat \<Rightarrow> 'h ata \<Rightarrow> int \<times> 'h ata" where
  "ahci_stop_port hw port s = (
     let (cmd, s) = mmio_get hw (port + PORT_CMD) s;
         s = mmio_set hw (port + PORT_CMD) (cmd AND NOT (HBA_PxCMD_ST OR HBA_PxCMD_FRE)) s
     in stop_port_loop hw port ATA_POLL_ATTEMPTS s)"

text \<open>Waits for a register to have no bit of a mask, for at most \<open>n\<close> reads.\<close>

fun wait_clear_loop :: "'h hw \<Rightarrow> nat \<Rightarrow> u32 \<Rightarrow> nat \<Rightarrow> 'h ata \<Rightarrow> 'h ata" where
  "wait_clear_loop hw addr bits 0 s = s"
| "wait_clear_loop hw addr bits (Suc n) s = (
     let (v, s) = mmio_get hw addr s in
     if v AND bits = 0 then s else wait_clear_loop hw addr bits n (io_wait hw s))"

definition ahci_start_port :: "'h hw \<Rightarrow> nat \<Rightarrow> 'h ata \<Rightarrow> int \<times> 'h ata" where
  "ahci_start_port hw port s = (
     let s = wait_clear_loop hw (port + PORT_CMD) HBA_PxCMD_CR ATA_POLL_ATTEMPTS s;
         (cmd, s) = mmio_get hw (port + PORT_CMD) s in
     if cmd AND HBA_PxCMD_CR \<noteq> 0 then error_ahci hw ''AHCI CR clear timeout'' port s
     else
       let (cmd, s) = mmio_get hw (port + PORT_CMD) s;
           s = mmio_set hw (port + PORT_CMD) (cmd OR HBA_PxCMD_FRE) s;
           (cmd, s) = mmio_get hw (port + PORT_CMD) s;
           s = mmio_set hw (port + PORT_CMD) (cmd OR HBA_PxCMD_ST) s
       in (0, s))"

definition ahci_setup_port :: "'h hw \<Rightarrow> nat \<Rightarrow> 'h ata \<Rightarrow> (int \<times> 'h ata) option" where
  "ahci_setup_port hw index s = do {
     dev \<leftarrow> rd (g_ahci_devices s) index;
     let port = ah_port dev;
     let (r, s) = ahci_stop_port hw port s;
     if r \<noteq> 0 then Some (-1, s)
     else do {
       let s = ram_set hw (ctx_cmd_list hw index) (replicate 1024 0) s;
       let s = ram_set hw (ctx_fis hw index) (replicate 256 0) s;
       let s = ram_set hw (ctx_cmd_table hw index) (replicate 256 0) s;
       let s = ram_set hw (ctx_identify hw index) (replicate 512 0) s;
       let clb = ctx_cmd_list hw index;
       let fb = ctx_fis hw index;
       if clb div 2 ^ 32 \<noteq> 0 \<or> fb div 2 ^ 32 \<noteq> 0
       then Some (error_ahci hw ''AHCI high memory not supported'' port s)
       else do {
         let s = mmio_set hw (port + PORT_CLB) (word_of_nat clb) s;
         let s = mmio_set hw (port + PORT_CLBU) 0 s;
         let s = mmio_set hw (port + PORT_FB) (word_of_nat fb) s;
         let s = mmio_set hw (port + PORT_FBU) 0 s;
         let s = mmio_set hw (port + PORT_IS) 0xFFFFFFFF s;
         let s = mmio_set hw (port + PORT_SERR) 0xFFFFFFFF s;
         let (r, s) = ahci_start_port hw port s;
         if r \<noteq> 0 then Some (-1, s) else Some (0, s) } } }"

subsection \<open>Commands\<close>

text \<open>C leaves the order of the two reads of \<open>ci | sact\<close> open; the model reads \<open>ci\<close> first.\<close>

fun slot_free_loop :: "'h hw \<Rightarrow> nat \<Rightarrow> u32 \<Rightarrow> nat \<Rightarrow> 'h ata \<Rightarrow> int \<times> 'h ata" where
  "slot_free_loop hw port bits 0 s = error_ahci hw ''AHCI slot busy timeout'' port s"
| "slot_free_loop hw port bits (Suc n) s = (
     let (ci, s) = mmio_get hw (port + PORT_CI) s;
         (sact, s) = mmio_get hw (port + PORT_SACT) s in
     if (ci OR sact) AND bits = 0 then (0, s)
     else slot_free_loop hw port bits n (io_wait hw s))"

definition ahci_wait_slot_free :: "'h hw \<Rightarrow> nat \<Rightarrow> u32 \<Rightarrow> 'h ata \<Rightarrow> int \<times> 'h ata" where
  "ahci_wait_slot_free hw port bits s = slot_free_loop hw port bits ATA_POLL_ATTEMPTS s"

fun complete_loop :: "'h hw \<Rightarrow> nat \<Rightarrow> u32 \<Rightarrow> nat \<Rightarrow> 'h ata \<Rightarrow> int \<times> 'h ata" where
  "complete_loop hw port bits 0 s = error_ahci hw ''AHCI command timeout'' port s"
| "complete_loop hw port bits (Suc n) s = (
     let (ci, s) = mmio_get hw (port + PORT_CI) s;
         (is, s) = mmio_get hw (port + PORT_IS) s in
     if ci AND bits = 0 then
       if is AND HBA_PxIS_TFES \<noteq> 0 then error_ahci hw ''AHCI task file error'' port s
       else (0, error_ok s)
     else if is AND HBA_PxIS_TFES \<noteq> 0 then error_ahci hw ''AHCI task file error'' port s
     else complete_loop hw port bits n (io_wait hw s))"

definition command_fis :: "u8 \<Rightarrow> u32 \<Rightarrow> u16 \<Rightarrow> u8 \<Rightarrow> fis_reg_h2d" where
  "command_fis command lba fis_count device_reg = \<lparr>fis_type = FIS_TYPE_REG_H2D,
     fis_pmport_c = 0x80, fis_command = command,
     fis_lba0 = ucast (lba AND 0xFF), fis_lba1 = ucast (drop_bit 8 lba AND 0xFF),
     fis_lba2 = ucast (drop_bit 16 lba AND 0xFF), fis_device = device_reg,
     fis_lba3 = ucast (drop_bit 24 lba AND 0xFF), fis_lba4 = 0, fis_lba5 = 0,
     fis_countl = ucast (fis_count AND 0xFF), fis_counth = ucast (drop_bit 8 fis_count AND 0xFF)\<rparr>"

text \<open>
  Builds the command in memory: None if the buffer or the table is above 4 GB, with the message
  and the state at that point.
\<close>

definition build_command ::
  "'h hw \<Rightarrow> nat \<Rightarrow> u8 \<Rightarrow> u32 \<Rightarrow> u16 \<Rightarrow> u16 \<Rightarrow> bool \<Rightarrow> u8 \<Rightarrow> nat \<Rightarrow> 'h ata \<Rightarrow> (string \<times> 'h ata) + 'h ata" where
  "build_command hw index command lba transfer_count fis_count write device_reg dba s = (
     let flags = (if write then 5 OR 0x40 else 5);
         table = ctx_cmd_table hw index;
         s = ram_set hw (ctx_cmd_list hw index) (enc_cmd_header flags 1 0) s;
         s = ram_set hw table (replicate 144 0) s in
     if dba div 2 ^ 32 \<noteq> 0 then Inl (''AHCI DMA buffer above 4G'', s)
     else
       let s = ram_set hw (table + 128)
                 (enc_prdt_entry (word_of_nat dba) (ucast transfer_count * 512 - 1)) s in
       if table div 2 ^ 32 \<noteq> 0 then Inl (''AHCI command table above 4G'', s)
       else
         let s = ram_set hw (ctx_cmd_list hw index) (enc_cmd_header flags 1 (word_of_nat table)) s
         in Inr (ram_set hw table (enc_fis (command_fis command lba fis_count device_reg)) s))"

definition ahci_issue ::
  "'h hw \<Rightarrow> int \<Rightarrow> u8 \<Rightarrow> u32 \<Rightarrow> u16 \<Rightarrow> u16 \<Rightarrow> bool \<Rightarrow> u8 \<Rightarrow> (nat \<times> u8 list) ptr \<Rightarrow> 'h ata \<Rightarrow>
   (int \<times> (nat \<times> u8 list) ptr \<times> 'h ata) option" where
  "ahci_issue hw index command lba transfer_count fis_count write device_reg buffer s =
     (if index < 0 then None
      else do {
        dev \<leftarrow> rd (g_ahci_devices s) (nat index);
        let port = ah_port dev;
        if \<not> ah_present dev then Some (-1, buffer, s\<lparr>g_last_error := ''AHCI device missing''\<rparr>)
        else if buffer = None \<or> transfer_count = 0
        then Some (-1, buffer, s\<lparr>g_last_error := ''AHCI invalid request''\<rparr>)
        else do {
          let (dba, bytes) = the buffer;
          let s = ram_set hw dba bytes s;
          let back = (\<lambda>s. Some (dba, hw_ram_get hw dba (length bytes) (machine s)));
          let (r, s) = ahci_wait_slot_free hw port 1 s;
          if r \<noteq> 0 then Some (-1, back s, s)
          else do {
            let s = wait_clear_loop hw (port + PORT_TFD) 0x88 ATA_POLL_ATTEMPTS s;
            let (t, s) = mmio_get hw (port + PORT_TFD) s;
            if t AND 0x88 \<noteq> 0
            then do { let (r, s) = error_ahci hw ''AHCI port busy timeout'' port s; Some (r, back s, s) }
            else case build_command hw (nat index) command lba transfer_count fis_count write device_reg dba s of
              Inl (msg, s) \<Rightarrow> do { let (r, s) = error_ahci hw msg port s; Some (r, back s, s) }
            | Inr s \<Rightarrow> do {
                let s = mmio_set hw (port + PORT_IS) 0xFFFFFFFF s;
                let s = mmio_set hw (port + PORT_CI) 1 s;
                let (r, s) = complete_loop hw port 1 ATA_POLL_ATTEMPTS s;
                Some (r, back s, s) } } } })"

end
