(* ===== verification/AtaScan.thy ===== *)
theory AtaScan
  imports Ahci
begin

text \<open>
  kernel/ata.c, third part: finding AHCI ports, the map of devices over both interfaces, and the
  operations the rest of the kernel calls, which go to the selected device.
\<close>

subsection \<open>AHCI devices\<close>

text \<open>The copying loops of \<open>add_prefixed_model\<close>, from a string array to \<open>out + p\<close>.\<close>

fun copy_bounded :: "char list \<Rightarrow> nat \<Rightarrow> char list \<Rightarrow> (char list \<times> nat) option" where
  "copy_bounded [] p out = None"
| "copy_bounded (c # cs) p out =
     (if c \<noteq> NUL \<and> p + 1 < 41 then do { out \<leftarrow> wr out p c; copy_bounded cs (p + 1) out }
      else Some (out, p))"

definition add_prefixed_model :: "char list \<Rightarrow> char list \<Rightarrow> char list \<Rightarrow> char list option" where
  "add_prefixed_model out prefx model = do {
     (out, p) \<leftarrow> copy_bounded prefx 0 out;
     (out, p) \<leftarrow> copy_bounded model p out;
     wr out p NUL }"

definition identify_words :: "u8 list \<Rightarrow> u16 list" where
  "identify_words bs = map (\<lambda>i. un_le16 (take 2 (drop (2 * i) bs))) [0..<length bs div 2]"

definition put_ahci :: "nat \<Rightarrow> ahci_device \<Rightarrow> 'h ata \<Rightarrow> 'h ata" where
  "put_ahci i d s = s\<lparr>g_ahci_devices := (g_ahci_devices s)[i := d]\<rparr>"

definition ahci_identify :: "'h hw \<Rightarrow> nat \<Rightarrow> 'h ata \<Rightarrow> (int \<times> 'h ata) option" where
  "ahci_identify hw index s = do {
     let buf = ctx_identify hw index;
     (r, buffer, s) \<leftarrow> ahci_issue hw (int index) ATA_CMD_IDENTIFY 0 1 0 False 0
       (Some (buf, hw_ram_get hw buf 512 (machine s))) s;
     if r \<noteq> 0 then Some (-1, s)
     else do {
       let ident = identify_words (snd (the buffer));
       dev \<leftarrow> rd (g_ahci_devices s) index;
       lo \<leftarrow> rd ident 60;
       hi \<leftarrow> rd ident 61;
       model \<leftarrow> extract_model_from_identify ident (replicate 41 NUL);
       m0 \<leftarrow> rd model 0;
       model \<leftarrow> (if m0 = NUL then kstrcpy model (c_str ''SATA Disk'') else Some model);
       out \<leftarrow> add_prefixed_model (ah_model dev) (c_str ''AHCI '') model;
       Some (0, put_ahci index (dev\<lparr>ah_sectors28 := ucast lo OR push_bit 16 (ucast hi),
         ah_model := out\<rparr>) s) } }"

definition ahci_register_port :: "'h hw \<Rightarrow> nat \<Rightarrow> u8 \<Rightarrow> 'h ata \<Rightarrow> (int \<times> 'h ata) option" where
  "ahci_register_port hw port port_no s =
     (if g_ahci_count s \<ge> int ATA_MAX_AHCI_DEVICES then Some (-1, s)
      else if g_ahci_count s < 0 then None
      else do {
        let index = nat (g_ahci_count s);
        _ \<leftarrow> rd (g_ahci_devices s) index;
        let s = put_ahci index (zero_ahci\<lparr>ah_port := port, ah_port_no := port_no\<rparr>) s;
        (r, s) \<leftarrow> ahci_setup_port hw index s;
        if r \<noteq> 0 then Some (-1, s)
        else do {
          (r, s) \<leftarrow> ahci_identify hw index s;
          dev \<leftarrow> rd (g_ahci_devices s) index;
          dev \<leftarrow> (if r \<noteq> 0 then do {
                  m \<leftarrow> kstrcpy (ah_model dev) (c_str ''AHCI Disk'');
                  Some (dev\<lparr>ah_sectors28 := 0x0FFFFFFF, ah_model := m\<rparr>) }
                else Some dev);
          let s = put_ahci index (dev\<lparr>ah_present := True\<rparr>) s;
          Some (0, s\<lparr>g_ahci_count := g_ahci_count s + 1\<rparr>) } })"

text \<open>The ports of a controller at \<open>abar\<close>; a return from the loop ends the probe.\<close>

fun probe_ports :: "'h hw \<Rightarrow> nat \<Rightarrow> u32 \<Rightarrow> nat list \<Rightarrow> 'h ata \<Rightarrow> 'h ata option" where
  "probe_ports hw abar ports [] s = Some s"
| "probe_ports hw abar ports (port_no # rest) s =
     (if \<not> bit ports port_no then probe_ports hw abar ports rest s
      else if g_ahci_count s \<ge> int ATA_MAX_AHCI_DEVICES then Some s
      else do {
        let port = abar + HBA_PORTS + 128 * port_no;
        let (ssts, s) = mmio_get hw (port + PORT_SSTS) s;
        if ssts AND 0xF \<noteq> 3 \<or> drop_bit 8 ssts AND 0xF \<noteq> 1
        then probe_ports hw abar ports rest s
        else do {
          let (sig1, s) = mmio_get hw (port + PORT_SIG) s;
          let (sig2, s) = (if sig1 \<noteq> SATA_SIG_ATA then mmio_get hw (port + PORT_SIG) s else (sig1, s));
          let (sig3, s) = (if sig1 \<noteq> SATA_SIG_ATA \<and> sig2 \<noteq> 0
                           then mmio_get hw (port + PORT_SIG) s else (sig2, s));
          if sig1 \<noteq> SATA_SIG_ATA \<and> sig2 \<noteq> 0 \<and> sig3 \<noteq> 0xFFFFFFFF
          then probe_ports hw abar ports rest s
          else do {
            let s = s\<lparr>g_ahci_ports_considered := g_ahci_ports_considered s + 1\<rparr>;
            (_, s) \<leftarrow> ahci_register_port hw port (word_of_nat port_no) s;
            probe_ports hw abar ports rest s } } })"

definition ahci_probe_controller :: "'h hw \<Rightarrow> u8 \<Rightarrow> u8 \<Rightarrow> u8 \<Rightarrow> int \<Rightarrow> 'h ata \<Rightarrow> 'h ata option" where
  "ahci_probe_controller hw bus slot func probe_mode s = (
     let (id, s) = pci_read32 hw bus slot func 0x00 s in
     if id AND 0xFFFF = 0xFFFF then Some s
     else
       let (class_reg, s) = pci_read32 hw bus slot func 0x08 s;
           class_code = drop_bit 24 class_reg AND 0xFF;
           subclass = drop_bit 16 class_reg AND 0xFF in
       if probe_mode \<ge> 0 \<and> class_code \<noteq> 0x01 then Some s
       else if probe_mode > 0 \<and> subclass \<noteq> 0x06 then Some s
       else
         let s = s\<lparr>g_ahci_controllers_seen := g_ahci_controllers_seen s + 1\<rparr>;
             (command_reg, s) = pci_read32 hw bus slot func 0x04 s;
             s = pci_write32 hw bus slot func 0x04 (command_reg OR (0x2 OR 0x4)) s;
             (bar5, s) = pci_read32 hw bus slot func 0x24 s in
         if bar5 = 0 \<or> bar5 AND 1 \<noteq> 0 then Some s
         else
           let (bar5_hi, s) = (if bar5 AND 0x6 = 0x4 then pci_read32 hw bus slot func 0x28 s else (0, s)) in
           if bar5_hi \<noteq> 0 then Some (s\<lparr>g_ahci_bar64_rejected := g_ahci_bar64_rejected s + 1\<rparr>)
           else
             let abar = unat (bar5 AND NOT 0x0F) in
             if abar = 0 then Some s
             else
               let (ghc, s) = mmio_get hw (abar + HBA_GHC) s;
                   s = mmio_set hw (abar + HBA_GHC) (ghc OR 0x80000000) s;
                   (ports, s) = mmio_get hw (abar + HBA_PI) s
               in probe_ports hw abar ports [0..<32] s)"

fun probe_all :: "'h hw \<Rightarrow> (u8 \<times> u8 \<times> u8 \<times> int) list \<Rightarrow> 'h ata \<Rightarrow> 'h ata option" where
  "probe_all hw [] s = Some s"
| "probe_all hw ((bus, slot, func, mode) # rest) s = do {
     s \<leftarrow> ahci_probe_controller hw bus slot func mode s;
     probe_all hw rest s }"

definition pci_functions :: "(u8 \<times> u8 \<times> u8 \<times> int) list" where
  "pci_functions = concat (map (\<lambda>bus. concat (map (\<lambda>slot. map (\<lambda>func.
     (word_of_nat bus, word_of_nat slot, word_of_nat func, 1)) [0..<8]) [0..<32])) [0..<256])"

definition ahci_scan_controllers :: "'h hw \<Rightarrow> 'h ata \<Rightarrow> 'h ata option" where
  "ahci_scan_controllers hw s = do {
     let s = s\<lparr>g_ahci_count := 0, g_ahci_controllers_seen := 0, g_ahci_bar64_rejected := 0,
       g_ahci_ports_considered := 0, g_ahci_devices := replicate ATA_MAX_AHCI_DEVICES zero_ahci\<rparr>;
     s \<leftarrow> probe_all hw pci_functions s;
     if g_ahci_count s = 0
     then probe_all hw [(0, 13, 0, -1), (0, 31, 2, -1), (0, 31, 5, -1)] s
     else Some s }"

subsection \<open>The device map\<close>

definition clear_device_map :: "'h ata \<Rightarrow> 'h ata" where
  "clear_device_map s = s\<lparr>g_devices := replicate ATA_MAX_DEVICES zero_map, g_device_count := 0\<rparr>"

definition add_device_map ::
  "u8 \<Rightarrow> u8 \<Rightarrow> u16 \<Rightarrow> u8 \<Rightarrow> u32 \<Rightarrow> char list ptr \<Rightarrow> 'h ata \<Rightarrow> 'h ata option" where
  "add_device_map kind source_index io_base slave sectors28 model s =
     (if g_device_count s \<ge> int ATA_MAX_DEVICES then Some s
      else if g_device_count s < 0 then None
      else do {
        let i = nat (g_device_count s);
        entry \<leftarrow> rd (g_devices s) i;
        m \<leftarrow> (case model of Some t \<Rightarrow> kstrcpy (dm_model entry) t | None \<Rightarrow> wr (dm_model entry) 0 NUL);
        Some (s\<lparr>g_devices := (g_devices s)[i := entry\<lparr>dm_present := True, dm_kind := kind,
            dm_source_index := source_index, dm_io_base := io_base, dm_slave := slave,
            dm_sectors28 := sectors28, dm_model := m\<rparr>],
          g_device_count := g_device_count s + 1\<rparr>) })"

fun scan_ide :: "'h hw \<Rightarrow> nat list \<Rightarrow> 'h ata \<Rightarrow> 'h ata option" where
  "scan_ide hw [] s = Some s"
| "scan_ide hw (i # is) s = do {
     (r, s) \<leftarrow> ide_probe_device hw (int i) s;
     dev \<leftarrow> rd (g_ide_devices s) i;
     s \<leftarrow> (if r = 0 \<and> id_present dev
          then add_device_map DEV_IDE (word_of_nat i) (id_io_base dev) (id_slave dev) (id_sectors28 dev)
                 (Some (id_model dev)) s
          else Some s);
     scan_ide hw is s }"

fun scan_ahci :: "nat list \<Rightarrow> 'h ata \<Rightarrow> 'h ata option" where
  "scan_ahci [] s = Some s"
| "scan_ahci (i # is) s = do {
     dev \<leftarrow> rd (g_ahci_devices s) i;
     s \<leftarrow> (if ah_present dev
          then add_device_map DEV_AHCI (word_of_nat i) 0 0 (ah_sectors28 dev) (Some (ah_model dev)) s
          else Some s);
     scan_ahci is s }"

definition ata_scan :: "'h hw \<Rightarrow> 'h ata \<Rightarrow> (int \<times> 'h ata) option" where
  "ata_scan hw s = do {
     let s = clear_device_map (s\<lparr>g_selected_device := -1\<rparr>);
     s \<leftarrow> scan_ide hw [0..<ATA_MAX_IDE_DEVICES] s;
     let (pci_host_id, s) = pci_read32 hw 0 0 0 0x00 s;
     let s = s\<lparr>g_dbg_pci_host_id := pci_host_id\<rparr>;
     let (v, s) = pci_read32 hw 0 13 0 0x00 s;
     let s = s\<lparr>g_dbg_slot13_id := v\<rparr>;
     let (v, s) = pci_read32 hw 0 13 0 0x08 s;
     let s = s\<lparr>g_dbg_slot13_class := v\<rparr>;
     let (v, s) = pci_read32 hw 0 13 0 0x24 s;
     let s = s\<lparr>g_dbg_slot13_bar5 := v\<rparr>;
     s \<leftarrow> (if pci_host_id AND 0xFFFF \<noteq> 0xFFFF then ahci_scan_controllers hw s else Some s);
     s \<leftarrow> scan_ahci [0..<nat (g_ahci_count s)] s;
     let s = (if g_device_count s > 0 then error_ok (s\<lparr>g_selected_device := 0\<rparr>)
       else if g_ahci_controllers_seen s > 0 \<and> g_ahci_count s = 0 then
         s\<lparr>g_last_error :=
           (if g_ahci_bar64_rejected s > 0 then ''AHCI BAR above 4G unsupported''
            else if g_ahci_ports_considered s = 0 then ''AHCI found but no disk ports''
            else ''AHCI identify failed'')\<rparr>
       else if pci_host_id AND 0xFFFF = 0xFFFF then s\<lparr>g_last_error := ''PCI config space unavailable''\<rparr>
       else s\<lparr>g_last_error := ''no supported disk controller''\<rparr>);
     Some (g_device_count s, s) }"

record ata_device_info =
  in_present :: bool
  in_index :: int
  in_interface_type :: u8
  in_io_base :: u16
  in_slave :: u8
  in_sectors28 :: u32
  in_model :: "char list"

definition ata_get_info :: "'h ata \<Rightarrow> int \<Rightarrow> ata_device_info ptr \<Rightarrow> (int \<times> ata_device_info ptr) option" where
  "ata_get_info s index out =
     (case out of None \<Rightarrow> Some (-1, None)
      | Some o0 \<Rightarrow>
          if index < 0 \<or> index \<ge> g_device_count s then Some (-1, out)
          else do {
            entry \<leftarrow> rd (g_devices s) (nat index);
            if \<not> dm_present entry then Some (-1, out)
            else do {
              m \<leftarrow> kstrcpy (in_model o0) (dm_model entry);
              Some (0, Some (o0\<lparr>in_present := dm_present entry, in_index := index,
                in_interface_type := (if dm_kind entry = DEV_AHCI then 1 else 0),
                in_io_base := dm_io_base entry, in_slave := dm_slave entry,
                in_sectors28 := dm_sectors28 entry, in_model := m\<rparr>)) } })"

definition ata_select_device :: "'h ata \<Rightarrow> int \<Rightarrow> (int \<times> 'h ata) option" where
  "ata_select_device s index =
     (if index < 0 \<or> index \<ge> g_device_count s then Some (-1, s)
      else do {
        entry \<leftarrow> rd (g_devices s) (nat index);
        if \<not> dm_present entry then Some (-1, s)
        else Some (0, s\<lparr>g_selected_device := index\<rparr>) })"

definition ata_selected_device :: "'h ata \<Rightarrow> int" where
  "ata_selected_device s = g_selected_device s"

subsection \<open>The selected device\<close>

text \<open>The buffer is the address of the pointer and the memory from there on.\<close>

definition ata_read_sector ::
  "'h hw \<Rightarrow> u32 \<Rightarrow> (nat \<times> u8 list) ptr \<Rightarrow> 'h ata \<Rightarrow> (int \<times> (nat \<times> u8 list) ptr \<times> 'h ata) option" where
  "ata_read_sector hw lba buffer512 s =
     (if g_selected_device s < 0 \<or> g_selected_device s \<ge> g_device_count s
      then Some (-1, buffer512, s\<lparr>g_last_error := ''no selected disk''\<rparr>)
      else do {
        entry \<leftarrow> rd (g_devices s) (nat (g_selected_device s));
        if \<not> dm_present entry then Some (-1, buffer512, s\<lparr>g_last_error := ''selected disk missing''\<rparr>)
        else if dm_kind entry = DEV_IDE then do {
          (r, buf, s) \<leftarrow> ide_read_sector hw (uint (dm_source_index entry)) lba (map_option snd buffer512) s;
          Some (r, map_option (\<lambda>b. (fst (the buffer512), b)) buf, s) }
        else if dm_kind entry = DEV_AHCI then
          ahci_issue hw (uint (dm_source_index entry)) ATA_CMD_READ_DMA_EXT lba 1 1 False ATA_DEV_LBA buffer512 s
        else Some (-1, buffer512, s\<lparr>g_last_error := ''unsupported disk interface''\<rparr>) })"

definition ata_write_sector ::
  "'h hw \<Rightarrow> u32 \<Rightarrow> (nat \<times> u8 list) ptr \<Rightarrow> 'h ata \<Rightarrow> (int \<times> 'h ata) option" where
  "ata_write_sector hw lba buffer512 s =
     (if g_selected_device s < 0 \<or> g_selected_device s \<ge> g_device_count s
      then Some (-1, s\<lparr>g_last_error := ''no selected disk''\<rparr>)
      else do {
        entry \<leftarrow> rd (g_devices s) (nat (g_selected_device s));
        if \<not> dm_present entry then Some (-1, s\<lparr>g_last_error := ''selected disk missing''\<rparr>)
        else if dm_kind entry = DEV_IDE then
          ide_write_sector hw (uint (dm_source_index entry)) lba (map_option snd buffer512) s
        else if dm_kind entry = DEV_AHCI then do {
          (r, _, s) \<leftarrow> ahci_issue hw (uint (dm_source_index entry)) ATA_CMD_WRITE_DMA_EXT lba 1 1 True
            ATA_DEV_LBA buffer512 s;
          Some (r, s) }
        else Some (-1, s\<lparr>g_last_error := ''unsupported disk interface''\<rparr>) })"

definition ata_flush :: "'h hw \<Rightarrow> 'h ata \<Rightarrow> (int \<times> 'h ata) option" where
  "ata_flush hw s =
     (if g_selected_device s < 0 \<or> g_selected_device s \<ge> g_device_count s
      then Some (-1, s\<lparr>g_last_error := ''no selected disk''\<rparr>)
      else do {
        entry \<leftarrow> rd (g_devices s) (nat (g_selected_device s));
        if \<not> dm_present entry then Some (-1, s\<lparr>g_last_error := ''selected disk missing''\<rparr>)
        else if dm_kind entry = DEV_IDE then ide_flush_cache hw (uint (dm_source_index entry)) s
        else Some (0, error_ok s) })"

definition ata_last_error :: "'h ata \<Rightarrow> string" where "ata_last_error s = g_last_error s"
definition ata_last_status :: "'h ata \<Rightarrow> u8" where "ata_last_status s = g_last_status s"
definition ata_last_error_reg :: "'h ata \<Rightarrow> u8" where "ata_last_error_reg s = g_last_error_reg s"

record ata_debug =
  db_pci_host_id :: u32
  db_pci_ahci_slot_id :: u32
  db_pci_ahci_slot_class :: u32
  db_pci_ahci_slot_bar5 :: u32
  db_ahci_controllers_seen :: int
  db_ahci_ports_considered :: int
  db_ahci_devices_found :: int

definition ata_debug_state :: "'h ata \<Rightarrow> ata_debug ptr \<Rightarrow> ata_debug ptr" where
  "ata_debug_state s out = map_option (\<lambda>_. \<lparr>db_pci_host_id = g_dbg_pci_host_id s,
     db_pci_ahci_slot_id = g_dbg_slot13_id s, db_pci_ahci_slot_class = g_dbg_slot13_class s,
     db_pci_ahci_slot_bar5 = g_dbg_slot13_bar5 s,
     db_ahci_controllers_seen = g_ahci_controllers_seen s,
     db_ahci_ports_considered = g_ahci_ports_considered s,
     db_ahci_devices_found = g_ahci_count s\<rparr>) out"

end
