(* ===== verification/AtaSpec.thy ===== *)
theory AtaSpec
  imports AtaScan
begin

text \<open>
  What the driver does for every hardware: the invariant of its tables, that the operations on the
  selected device are memory safe and return after a bounded number of polls, and that a scan keeps
  the invariant. \<^theory_text>\<open>tables\<close> is the part of the state that port and register
  accesses leave alone.
\<close>

subsection \<open>The tables\<close>

definition tables :: "'h ata \<Rightarrow> ide_device list \<times> ahci_device list \<times> device_map list \<times> int \<times> int \<times> int" where
  "tables s = (g_ide_devices s, g_ahci_devices s, g_devices s, g_ahci_count s, g_device_count s,
     g_selected_device s)"

named_theorems keeps \<open>operations that leave the tables alone\<close>

lemma keeps_ports [keeps]:
  "tables (snd (inb hw p s)) = tables s" "tables (outb hw p b s) = tables s"
  "tables (snd (inw hw p s)) = tables s" "tables (outw hw p w s) = tables s"
  "tables (snd (inl hw p s)) = tables s" "tables (outl hw p d s) = tables s"
  "tables (io_wait hw s) = tables s"
  "tables (error_ok s) = tables s"
  "tables (s\<lparr>g_last_error := e\<rparr>) = tables s"
  by (simp_all add: tables_def inb_def outb_def inw_def outw_def inl_def outl_def io_wait_def
      error_ok_def split_beta)

lemma keeps_error [keeps]: "tables (snd (error_ide hw m b st s)) = tables s"
  by (simp add: error_ide_def split_beta) (simp add: tables_def inb_def split_beta)

lemma keeps_delay [keeps]: "tables (ide_delay_400ns hw b s) = tables s"
  by (simp add: ide_delay_400ns_def split_beta keeps)

lemma keeps_wait_ready_loop [keeps]: "tables (snd (wait_ready_loop hw b n st s)) = tables s"
  by (induction n arbitrary: st s) (simp_all add: keeps split_beta)

lemma keeps_wait_drq_loop [keeps]: "tables (snd (wait_drq_loop hw b n st s)) = tables s"
  by (induction n arbitrary: st s) (simp_all add: keeps split_beta)

lemma keeps_wait_not_busy_loop [keeps]: "tables (snd (wait_not_busy_loop hw b n st s)) = tables s"
  by (induction n arbitrary: st s) (simp_all add: keeps split_beta)

lemma keeps_waits [keeps]:
  "tables (snd (ide_wait_ready hw b s)) = tables s" "tables (snd (ide_wait_drq hw b s)) = tables s"
  "tables (snd (ide_wait_not_busy hw b s)) = tables s"
  by (simp_all add: ide_wait_ready_def ide_wait_drq_def ide_wait_not_busy_def keeps)

lemma keeps_setup [keeps]: "tables (ide_setup hw dev lba c s) = tables s"
  by (simp add: ide_setup_def Let_def keeps)

lemma keeps_read_words [keeps]: "tables (snd (read_words hw b n s)) = tables s"
  by (induction n arbitrary: s) (simp_all add: keeps split_beta)

lemma read_data_total:
  "\<forall>i \<in> set is. i * 2 + 1 < length buf \<Longrightarrow>
    \<exists>buf' s'. read_data hw b is buf s = Some (buf', s') \<and> length buf' = length buf \<and> tables s' = tables s"
proof (induction "is" arbitrary: buf s)
  case Nil
  then show ?case by simp
next
  case (Cons i "is")
  obtain w s1 where 1: "inw hw (b + IDE_REG_DATA) s = (w, s1)" by fastforce
  then have "tables s1 = tables s" using keeps_ports(3) [of hw b s] by simp
  moreover obtain buf' s' where "read_data hw b is
      (buf[i * 2 := ucast (w AND 0xFF), i * 2 + 1 := ucast (drop_bit 8 w)]) s1 = Some (buf', s')"
    "length buf' = length buf" "tables s' = tables s1"
    using Cons.IH [of "buf[i * 2 := ucast (w AND 0xFF), i * 2 + 1 := ucast (drop_bit 8 w)]" s1] Cons.prems
    by auto
  ultimately show ?case using 1 Cons.prems by (simp add: wr_def)
qed

lemma write_data_total:
  "\<forall>i \<in> set is. i * 2 + 1 < length buf \<Longrightarrow>
    \<exists>s'. write_data hw b is buf s = Some s' \<and> tables s' = tables s"
proof (induction "is" arbitrary: s)
  case Nil
  then show ?case by simp
next
  case (Cons i "is")
  let ?s = "outw hw (b + IDE_REG_DATA) (ucast (buf ! (i * 2)) OR push_bit 8 (ucast (buf ! (i * 2 + 1)))) s"
  obtain s' where "write_data hw b is buf ?s = Some s'" "tables s' = tables ?s"
    using Cons.IH [of ?s] Cons.prems by auto
  then show ?case using Cons.prems by (simp add: rd_def keeps)
qed

subsection \<open>IDE transfers\<close>

lemma tables_simps:
  "tables s' = tables s \<Longrightarrow> g_ide_devices s' = g_ide_devices s"
  "tables s' = tables s \<Longrightarrow> g_ahci_devices s' = g_ahci_devices s"
  "tables s' = tables s \<Longrightarrow> g_devices s' = g_devices s"
  by (simp_all add: tables_def)

lemma ide_read_sector_total:
  assumes "length (g_ide_devices s) = ATA_MAX_IDE_DEVICES" "buf = None \<or> 512 \<le> length (the buf)"
  shows "\<exists>r buf' s'. ide_read_sector hw index lba buf s = Some (r, buf', s') \<and> tables s' = tables s
    \<and> (r = 0 \<or> r = -1) \<and> map_option length buf' = map_option length buf"
proof (cases "index < 0 \<or> index \<ge> int ATA_MAX_IDE_DEVICES \<or> buf = None")
  case True
  then show ?thesis by (simp add: ide_read_sector_def keeps)
next
  case False
  then obtain bs where bs: "buf = Some bs" "512 \<le> length bs" using assms(2) by auto
  have i: "nat index < length (g_ide_devices s)" using False assms(1) by auto
  let ?dev = "g_ide_devices s ! nat index"
  obtain r1 s1 where 1: "ide_wait_ready hw (id_io_base ?dev) s = (r1, s1)" by fastforce
  then have t1: "tables s1 = tables s" using keeps_waits(1) [of hw "id_io_base ?dev" s] by simp
  obtain r2 s2 where 2: "ide_wait_drq hw (id_io_base ?dev) (ide_setup hw ?dev lba 0x20 s1) = (r2, s2)"
    by fastforce
  then have t2: "tables s2 = tables s"
    using keeps_waits(2) [of hw "id_io_base ?dev" "ide_setup hw ?dev lba 0x20 s1"] t1 by (simp add: keeps)
  have "\<forall>i \<in> set [0..<256]. i * 2 + 1 < length bs" using bs(2) by auto
  then obtain buf' s3 where 3: "read_data hw (id_io_base ?dev) [0..<256] bs s2 = Some (buf', s3)"
    "length buf' = length bs" "tables s3 = tables s2" using read_data_total by blast
  show ?thesis
    using False bs i 1 2 3 t1 t2 by (simp add: ide_read_sector_def keeps del: upt_Suc)
qed

lemma ide_write_sector_total:
  assumes "length (g_ide_devices s) = ATA_MAX_IDE_DEVICES" "buf = None \<or> 512 \<le> length (the buf)"
  shows "\<exists>r s'. ide_write_sector hw index lba buf s = Some (r, s') \<and> tables s' = tables s
    \<and> (r = 0 \<or> r = -1)"
proof (cases "index < 0 \<or> index \<ge> int ATA_MAX_IDE_DEVICES \<or> buf = None")
  case True
  then show ?thesis by (simp add: ide_write_sector_def keeps)
next
  case False
  then obtain bs where bs: "buf = Some bs" "512 \<le> length bs" using assms(2) by auto
  have i: "nat index < length (g_ide_devices s)" using False assms(1) by auto
  let ?dev = "g_ide_devices s ! nat index"
  obtain r1 s1 where 1: "ide_wait_ready hw (id_io_base ?dev) s = (r1, s1)" by fastforce
  then have t1: "tables s1 = tables s" using keeps_waits(1) [of hw "id_io_base ?dev" s] by simp
  obtain r2 s2 where 2: "ide_wait_drq hw (id_io_base ?dev) (ide_setup hw ?dev lba 0x30 s1) = (r2, s2)"
    by fastforce
  then have t2: "tables s2 = tables s"
    using keeps_waits(2) [of hw "id_io_base ?dev" "ide_setup hw ?dev lba 0x30 s1"] t1 by (simp add: keeps)
  have "\<forall>i \<in> set [0..<256]. i * 2 + 1 < length bs" using bs(2) by auto
  then obtain s3 where 3: "write_data hw (id_io_base ?dev) [0..<256] bs s2 = Some s3"
    "tables s3 = tables s2" using write_data_total by blast
  obtain r4 s4 where 4: "ide_wait_not_busy hw (id_io_base ?dev) s3 = (r4, s4)" by fastforce
  then have "tables s4 = tables s"
    using keeps_waits(3) [of hw "id_io_base ?dev" s3] 3(2) t2 by simp
  then show ?thesis
    using False bs i 1 2 3 4 t1 t2 by (simp add: ide_write_sector_def keeps del: upt_Suc)
qed

lemma ide_flush_cache_total:
  assumes "length (g_ide_devices s) = ATA_MAX_IDE_DEVICES"
  shows "\<exists>r s'. ide_flush_cache hw index s = Some (r, s') \<and> tables s' = tables s \<and> (r = 0 \<or> r = -1)"
proof (cases "index < 0 \<or> index \<ge> int ATA_MAX_IDE_DEVICES")
  case True
  then show ?thesis by (simp add: ide_flush_cache_def keeps)
next
  case False
  have i: "nat index < length (g_ide_devices s)" using False assms by auto
  let ?dev = "g_ide_devices s ! nat index"
  obtain r1 s1 where 1: "ide_wait_ready hw (id_io_base ?dev) s = (r1, s1)" by fastforce
  then have t1: "tables s1 = tables s" using keeps_waits(1) [of hw "id_io_base ?dev" s] by simp
  let ?s = "outb hw (id_io_base ?dev + IDE_REG_COMMAND) 0xE7 (ide_delay_400ns hw (id_io_base ?dev)
    (outb hw (id_io_base ?dev + IDE_REG_HDDEVSEL) (0xA0 OR push_bit 4 (id_slave ?dev)) s1))"
  obtain r2 s2 where 2: "ide_wait_not_busy hw (id_io_base ?dev) ?s = (r2, s2)" by fastforce
  then have "tables s2 = tables s"
    using keeps_waits(3) [of hw "id_io_base ?dev" ?s] t1 by (simp add: keeps)
  with False i 1 2 t1 show ?thesis by (simp add: ide_flush_cache_def keeps)
qed

subsection \<open>AHCI commands\<close>

lemma keeps_mmio [keeps]:
  "tables (snd (mmio_get hw a s)) = tables s" "tables (mmio_set hw a v s) = tables s"
  "tables (ram_set hw a bs s) = tables s"
  by (simp_all add: tables_def mmio_get_def mmio_set_def ram_set_def split_beta)

lemma keeps_error_ahci [keeps]: "tables (snd (error_ahci hw m port s)) = tables s"
  by (simp add: error_ahci_def split_beta) (simp add: tables_def mmio_get_def split_beta)

lemma error_ahci_fst [simp]: "fst (error_ahci hw m port s) = -1"
  by (simp add: error_ahci_def split_beta Let_def)

lemma error_ide_fst [simp]: "fst (error_ide hw m b st s) = -1"
  by (simp add: error_ide_def split_beta Let_def)

lemma keeps_stop_loop [keeps]: "tables (snd (stop_port_loop hw port n s)) = tables s"
  by (induction n arbitrary: s) (simp_all add: keeps split_beta)

lemma keeps_wait_clear [keeps]: "tables (wait_clear_loop hw a bits n s) = tables s"
  by (induction n arbitrary: s) (simp_all add: keeps split_beta)

lemma keeps_slot_free_loop [keeps]: "tables (snd (slot_free_loop hw port bits n s)) = tables s"
  by (induction n arbitrary: s) (simp_all add: keeps split_beta)

lemma keeps_complete_loop [keeps]: "tables (snd (complete_loop hw port bits n s)) = tables s"
  by (induction n arbitrary: s) (simp_all add: keeps split_beta Let_def)

lemma keeps_stop_start [keeps]:
  "tables (snd (ahci_stop_port hw port s)) = tables s"
  "tables (snd (ahci_start_port hw port s)) = tables s"
  "tables (snd (ahci_wait_slot_free hw port bits s)) = tables s"
  by (simp_all add: ahci_stop_port_def ahci_start_port_def ahci_wait_slot_free_def keeps split_beta Let_def)

lemma complete_loop_result: "fst (complete_loop hw port bits n s) = 0 \<or> fst (complete_loop hw port bits n s) = -1"
  by (induction n arbitrary: s) (simp_all add: split_beta Let_def)

lemma keeps_build [keeps]:
  "tables (case build_command hw i c lba tc fc w dr dba s of Inl (m, s') \<Rightarrow> s' | Inr s' \<Rightarrow> s') = tables s"
  by (simp add: build_command_def Let_def keeps)

lemma build_command_tables:
  "build_command hw i c lba tc fc w dr dba s = Inl (m, s') \<Longrightarrow> tables s' = tables s"
  "build_command hw i c lba tc fc w dr dba s = Inr s' \<Longrightarrow> tables s' = tables s"
  using keeps_build [of hw i c lba tc fc w dr dba s] by simp_all

lemma ahci_issue_total:
  assumes "length (g_ahci_devices s) = ATA_MAX_AHCI_DEVICES" "0 \<le> index" "index < int ATA_MAX_AHCI_DEVICES"
  shows "\<exists>r buf' s'. ahci_issue hw index c lba tc fc w dr buf s = Some (r, buf', s')
    \<and> tables s' = tables s \<and> (r = 0 \<or> r = -1) \<and> (buf' = None \<longleftrightarrow> buf = None)"
proof -
  have i: "nat index < length (g_ahci_devices s)" using assms by simp
  let ?dev = "g_ahci_devices s ! nat index"
  let ?port = "ah_port ?dev"
  show ?thesis
  proof (cases "\<not> ah_present ?dev \<or> buf = None \<or> tc = 0")
    case True
    with i assms(2) show ?thesis by (auto simp: ahci_issue_def keeps Let_def)
  next
    case False
    then obtain dba bytes where buf: "buf = Some (dba, bytes)" by (cases buf) auto
    obtain r1 s1 where 1: "ahci_wait_slot_free hw ?port 1 (ram_set hw dba bytes s) = (r1, s1)" by fastforce
    then have t1: "tables s1 = tables s"
      using keeps_stop_start(3) [of hw ?port 1 "ram_set hw dba bytes s"] by (simp add: keeps)
    let ?s2 = "wait_clear_loop hw (?port + PORT_TFD) 0x88 ATA_POLL_ATTEMPTS s1"
    obtain t s3 where 3: "mmio_get hw (?port + PORT_TFD) ?s2 = (t, s3)" by fastforce
    then have t3: "tables s3 = tables s"
      using keeps_mmio(1) [of hw "?port + PORT_TFD" ?s2] t1 by (simp add: keeps)
    show ?thesis
    proof (cases "build_command hw (nat index) c lba tc fc w dr dba s3")
      case (Inl ms)
      obtain m s4 where ms: "ms = (m, s4)" by fastforce
      have "tables s4 = tables s" using build_command_tables(1) [OF Inl [unfolded ms]] t3 by simp
      then show ?thesis
        using False i assms(2) buf 1 3 t1 t3 Inl ms
        by (simp add: ahci_issue_def keeps split_beta Let_def)
    next
      case (Inr s4)
      have "tables s4 = tables s" using build_command_tables(2) [OF Inr] t3 by simp
      then show ?thesis
        using False i assms(2) buf 1 3 t1 t3 Inr
        by (simp add: ahci_issue_def keeps split_beta Let_def) (use complete_loop_result in blast)
    qed
  qed
qed

subsection \<open>The invariant\<close>

definition model_ok :: "char list \<Rightarrow> bool" where
  "model_ok m \<longleftrightarrow> length m = 41 \<and> NUL \<in> set m"

definition map_entry_ok :: "device_map \<Rightarrow> bool" where
  "map_entry_ok e \<longleftrightarrow> model_ok (dm_model e) \<and> (dm_present e \<longrightarrow>
     dm_kind e = DEV_IDE \<and> uint (dm_source_index e) < int ATA_MAX_IDE_DEVICES \<or>
     dm_kind e = DEV_AHCI \<and> uint (dm_source_index e) < int ATA_MAX_AHCI_DEVICES)"

definition ata_ok :: "'h ata \<Rightarrow> bool" where
  "ata_ok s \<longleftrightarrow> length (g_ide_devices s) = ATA_MAX_IDE_DEVICES
     \<and> (\<forall>d \<in> set (g_ide_devices s). model_ok (id_model d))
     \<and> length (g_ahci_devices s) = ATA_MAX_AHCI_DEVICES
     \<and> (\<forall>d \<in> set (g_ahci_devices s). model_ok (ah_model d))
     \<and> length (g_devices s) = ATA_MAX_DEVICES
     \<and> (\<forall>e \<in> set (g_devices s). map_entry_ok e)
     \<and> 0 \<le> g_ahci_count s \<and> g_ahci_count s \<le> int ATA_MAX_AHCI_DEVICES
     \<and> 0 \<le> g_device_count s \<and> g_device_count s \<le> int ATA_MAX_DEVICES
     \<and> (\<forall>i < nat (g_device_count s). dm_present (g_devices s ! i))
     \<and> -1 \<le> g_selected_device s \<and> g_selected_device s < g_device_count s"

lemma ata_ok_tables: "tables s' = tables s \<Longrightarrow> ata_ok s' = ata_ok s"
  by (simp add: tables_def ata_ok_def)

lemma ata_boot_ok: "ata_ok (ata_boot h)"
  by (auto simp: ata_ok_def ata_boot_def zero_ide_def zero_ahci_def zero_map_def model_ok_def map_entry_ok_def)

lemma selected_entry:
  assumes "ata_ok s" "0 \<le> g_selected_device s" "g_selected_device s < g_device_count s"
  shows "nat (g_selected_device s) < length (g_devices s)"
    and "map_entry_ok (g_devices s ! nat (g_selected_device s))"
  using assms by (auto simp: ata_ok_def)

lemma ata_read_sector_total:
  assumes "ata_ok s" "buf = None \<or> 512 \<le> length (snd (the buf))"
  shows "\<exists>r buf' s'. ata_read_sector hw lba buf s = Some (r, buf', s') \<and> tables s' = tables s
    \<and> (r = 0 \<or> r = -1)"
proof (cases "g_selected_device s < 0 \<or> g_selected_device s \<ge> g_device_count s")
  case True
  then show ?thesis by (simp add: ata_read_sector_def keeps)
next
  case False
  let ?e = "g_devices s ! nat (g_selected_device s)"
  note e = selected_entry [OF assms(1)]
  have e1: "nat (g_selected_device s) < length (g_devices s)" "map_entry_ok ?e" using False e by auto
  have len: "length (g_ide_devices s) = ATA_MAX_IDE_DEVICES" "length (g_ahci_devices s) = ATA_MAX_AHCI_DEVICES"
    using assms(1) by (simp_all add: ata_ok_def)
  have buf: "map_option snd buf = None \<or> 512 \<le> length (the (map_option snd buf))"
    using assms(2) by (cases buf) auto
  obtain r buf' s' where i: "ide_read_sector hw (uint (dm_source_index ?e)) lba (map_option snd buf) s = Some (r, buf', s')"
    "tables s' = tables s" "r = 0 \<or> r = -1"
    using ide_read_sector_total [OF len(1) buf] by blast
  show ?thesis
  proof (cases "dm_present ?e \<and> dm_kind ?e = DEV_AHCI")
    case True
    then have "uint (dm_source_index ?e) < int ATA_MAX_AHCI_DEVICES" using e1(2) by (auto simp: map_entry_ok_def)
    then obtain r' buf'' s'' where
      "ahci_issue hw (uint (dm_source_index ?e)) ATA_CMD_READ_DMA_EXT lba 1 1 False ATA_DEV_LBA buf s = Some (r', buf'', s'')"
      "tables s'' = tables s" "r' = 0 \<or> r' = -1"
      using ahci_issue_total [OF len(2)] by (metis uint_ge_0)
    with True False e1(1) show ?thesis by (auto simp: ata_read_sector_def)
  next
    case no_ahci: False
    with False e1 i show ?thesis by (auto simp: ata_read_sector_def keeps)
  qed
qed

lemma ata_write_sector_total:
  assumes "ata_ok s" "buf = None \<or> 512 \<le> length (snd (the buf))"
  shows "\<exists>r s'. ata_write_sector hw lba buf s = Some (r, s') \<and> tables s' = tables s \<and> (r = 0 \<or> r = -1)"
proof (cases "g_selected_device s < 0 \<or> g_selected_device s \<ge> g_device_count s")
  case True
  then show ?thesis by (simp add: ata_write_sector_def keeps)
next
  case False
  let ?e = "g_devices s ! nat (g_selected_device s)"
  note e = selected_entry [OF assms(1)]
  have e1: "nat (g_selected_device s) < length (g_devices s)" "map_entry_ok ?e" using False e by auto
  have len: "length (g_ide_devices s) = ATA_MAX_IDE_DEVICES" "length (g_ahci_devices s) = ATA_MAX_AHCI_DEVICES"
    using assms(1) by (simp_all add: ata_ok_def)
  have buf: "map_option snd buf = None \<or> 512 \<le> length (the (map_option snd buf))"
    using assms(2) by (cases buf) auto
  obtain r s' where i: "ide_write_sector hw (uint (dm_source_index ?e)) lba (map_option snd buf) s = Some (r, s')"
    "tables s' = tables s" "r = 0 \<or> r = -1"
    using ide_write_sector_total [OF len(1) buf] by blast
  show ?thesis
  proof (cases "dm_present ?e \<and> dm_kind ?e = DEV_AHCI")
    case True
    then have "uint (dm_source_index ?e) < int ATA_MAX_AHCI_DEVICES" using e1(2) by (auto simp: map_entry_ok_def)
    then obtain r' buf'' s'' where
      "ahci_issue hw (uint (dm_source_index ?e)) ATA_CMD_WRITE_DMA_EXT lba 1 1 True ATA_DEV_LBA buf s = Some (r', buf'', s'')"
      "tables s'' = tables s" "r' = 0 \<or> r' = -1"
      using ahci_issue_total [OF len(2)] by (metis uint_ge_0)
    with True False e1(1) show ?thesis by (auto simp: ata_write_sector_def)
  next
    case no_ahci: False
    with False e1 i show ?thesis by (auto simp: ata_write_sector_def keeps)
  qed
qed

lemma ata_flush_total:
  assumes "ata_ok s"
  shows "\<exists>r s'. ata_flush hw s = Some (r, s') \<and> tables s' = tables s \<and> (r = 0 \<or> r = -1)"
proof (cases "g_selected_device s < 0 \<or> g_selected_device s \<ge> g_device_count s")
  case True
  then show ?thesis by (simp add: ata_flush_def keeps)
next
  case False
  let ?e = "g_devices s ! nat (g_selected_device s)"
  have e1: "nat (g_selected_device s) < length (g_devices s)" using False selected_entry [OF assms] by auto
  have "length (g_ide_devices s) = ATA_MAX_IDE_DEVICES" using assms by (simp add: ata_ok_def)
  from ide_flush_cache_total [OF this, of hw "uint (dm_source_index ?e)"] False e1 show ?thesis
    by (auto simp: ata_flush_def keeps)
qed

end
