(* ===== verification/Codec.thy ===== *)
theory Codec
  imports Prelude
begin

text \<open>
  Fixed-width byte codecs: the contract between a packed C structure and the byte buffers it is
  copied to and from. A client that lays records out one after the other in a buffer reads them
  back; the integer codecs of the prelude and the structures of kernel/fs.c and kernel/disk.c are
  instances.
\<close>

text \<open>\<open>memcpy(&x, buf + off, n)\<close>: the bytes read, None outside the buffer.\<close>

definition slice :: "'a list \<Rightarrow> nat \<Rightarrow> nat \<Rightarrow> 'a list option" where
  "slice buf off n = (if off + n \<le> length buf then Some (take n (drop off buf)) else None)"

lemma slice_append [simp]:
  "slice (xs @ ys @ zs) (length xs) (length ys) = Some ys"
  by (simp add: slice_def)

locale byte_codec =
  fixes enc :: "'a \<Rightarrow> u8 list"
    and dec :: "u8 list \<Rightarrow> 'a"
    and width :: nat
    and valid :: "'a \<Rightarrow> bool"
  assumes enc_length: "valid x \<Longrightarrow> length (enc x) = width"
    and dec_enc: "valid x \<Longrightarrow> dec (enc x) = x"
begin

lemma enc_inject: "valid x \<Longrightarrow> valid y \<Longrightarrow> enc x = enc y \<longleftrightarrow> x = y"
  by (metis dec_enc)

lemma concat_length: "\<forall>x \<in> set xs. valid x \<Longrightarrow> length (concat (map enc xs)) = width * length xs"
  by (induction xs) (auto simp: enc_length)

text \<open>The \<open>k\<close>-th record of a sequence laid out from offset \<open>length pre\<close>.\<close>

lemma slice_concat:
  assumes "\<forall>x \<in> set xs. valid x" "k < length xs"
  shows "slice (pre @ concat (map enc xs) @ post) (length pre + width * k) width = Some (enc (xs ! k))"
proof -
  have "xs = take k xs @ xs ! k # drop (Suc k) xs" using assms(2) by (simp add: id_take_nth_drop)
  then have "pre @ concat (map enc xs) @ post = (pre @ concat (map enc (take k xs))) @ enc (xs ! k)
      @ (concat (map enc (drop (Suc k) xs)) @ post)"
    by (metis (no_types) append.assoc concat.simps(2) concat_append list.simps(9) map_append)
  moreover have "length (pre @ concat (map enc (take k xs))) = length pre + width * k"
    using concat_length [of "take k xs"] assms by (auto dest: in_set_takeD)
  moreover have "length (enc (xs ! k)) = width" using assms by (simp add: enc_length)
  ultimately show ?thesis using slice_append [of "pre @ concat (map enc (take k xs))"] by metis
qed

lemma dec_slice_concat:
  assumes "\<forall>x \<in> set xs. valid x" "k < length xs"
  shows "map_option dec (slice (pre @ concat (map enc xs) @ post) (length pre + width * k) width)
    = Some (xs ! k)"
  using slice_concat [OF assms] assms by (simp add: dec_enc)

end

interpretation c16: byte_codec le16 un_le16 2 "\<lambda>_. True"
  by unfold_locales (simp_all add: codec_simps)

interpretation c32: byte_codec le32 un_le32 4 "\<lambda>_. True"
  by unfold_locales (simp_all add: codec_simps)

lemma length_map_byte [simp]: "length (map byte_of_char s) = length s"
  by simp

end
