(* ===== verification/Sectors.thy ===== *)
theory Sectors
  imports Prelude
begin

text \<open>
  The interface between the disk layer (kernel/disk.c) and the driver below it: reading, writing and
  flushing sectors of 512 bytes, as a locale. A device in a \<^theory_text>\<open>good\<close> state has
  \<^theory_text>\<open>capacity\<close> sectors, a read gives the sector last written and leaves all sectors alone,
  and a write changes one. The loops of the disk layer over consecutive sectors are shown to move
  whole buffers on every such device.
\<close>

subsection \<open>The loops\<close>

text \<open>
  The buffer is given with its address; iteration \<open>i\<close> uses it from \<open>i * 512\<close> on. A pointer more than
  one past its end is undefined.
\<close>

type_synonym 's reader = "u32 \<Rightarrow> (nat \<times> u8 list) ptr \<Rightarrow> 's \<Rightarrow> (int \<times> (nat \<times> u8 list) ptr \<times> 's) option"
type_synonym 's writer = "u32 \<Rightarrow> (nat \<times> u8 list) ptr \<Rightarrow> 's \<Rightarrow> (int \<times> 's) option"

fun read_range :: "'s reader \<Rightarrow> u32 \<Rightarrow> nat \<Rightarrow> nat list \<Rightarrow> u8 list \<Rightarrow> 's \<Rightarrow> (int \<times> u8 list \<times> 's) option" where
  "read_range rds base addr [] buf s = Some (0, buf, s)"
| "read_range rds base addr (i # is) buf s =
     (if length buf < i * 512 then None
      else do {
        (r, out, s) \<leftarrow> rds (base + word_of_nat i) (Some (addr + i * 512, drop (i * 512) buf)) s;
        let buf = take (i * 512) buf @ snd (the out);
        if r \<noteq> 0 then Some (-1, buf, s) else read_range rds base addr is buf s })"

fun write_range :: "'s writer \<Rightarrow> u32 \<Rightarrow> nat \<Rightarrow> nat list \<Rightarrow> u8 list \<Rightarrow> 's \<Rightarrow> (int \<times> 's) option" where
  "write_range wrs base addr [] buf s = Some (0, s)"
| "write_range wrs base addr (i # is) buf s =
     (if length buf < i * 512 then None
      else do {
        (r, s) \<leftarrow> wrs (base + word_of_nat i) (Some (addr + i * 512, drop (i * 512) buf)) s;
        if r \<noteq> 0 then Some (-1, s) else write_range wrs base addr is buf s })"

text \<open>The 512 bytes of a buffer that iteration \<open>i\<close> moves.\<close>

definition block :: "u8 list \<Rightarrow> nat \<Rightarrow> u8 list" where
  "block buf i = take 512 (drop (i * 512) buf)"

lemma length_block [simp]: "(i + 1) * 512 \<le> length buf \<Longrightarrow> length (block buf i) = 512"
  by (simp add: block_def)

lemma blocks_take: "n * 512 \<le> length buf \<Longrightarrow> concat (map (block buf) [0..<n]) = take (n * 512) buf"
proof (induction n)
  case 0
  then show ?case by simp
next
  case (Suc n)
  then have "concat (map (block buf) [0..<Suc n]) = take (n * 512) buf @ block buf n"
    by simp
  also have "\<dots> = take (n * 512 + 512) buf" by (simp add: take_add block_def)
  finally show ?case by (simp add: add.commute)
qed

lemma sector_address:
  assumes "unat base + i < 2 ^ 32"
  shows "unat (base + word_of_nat i :: u32) = unat base + i"
proof -
  have "i < 2 ^ 32" using assms by simp
  then have i: "unat (word_of_nat i :: u32) = i" by (simp add: unat_of_nat take_bit_nat_eq_self)
  have "unat (base + word_of_nat i :: u32) = (unat base + unat (word_of_nat i :: u32)) mod 2 ^ 32"
    using unat_word_ariths(1) [of base "word_of_nat i"] by simp
  then show ?thesis using i assms by simp
qed

subsection \<open>The contract\<close>

locale sector_device =
  fixes read_sector :: "'s reader"
    and write_sector :: "'s writer"
    and flush :: "'s \<Rightarrow> (int \<times> 's) option"
    and good :: "'s \<Rightarrow> bool"
    and sector :: "'s \<Rightarrow> nat \<Rightarrow> u8 list"
    and capacity :: nat
  assumes sector_length: "good s \<Longrightarrow> length (sector s n) = 512"
    and capacity_le: "capacity \<le> 2 ^ 32"
    and read_ok: "good s \<Longrightarrow> unat lba < capacity \<Longrightarrow> 512 \<le> length bs \<Longrightarrow>
      \<exists>s'. read_sector lba (Some (a, bs)) s = Some (0, Some (a, sector s (unat lba) @ drop 512 bs), s')
        \<and> good s' \<and> sector s' = sector s"
    and write_ok: "good s \<Longrightarrow> unat lba < capacity \<Longrightarrow> 512 \<le> length bs \<Longrightarrow>
      \<exists>s'. write_sector lba (Some (a, bs)) s = Some (0, s') \<and> good s'
        \<and> sector s' = (sector s)(unat lba := take 512 bs)"
    and flush_ok: "good s \<Longrightarrow> \<exists>r s'. flush s = Some (r, s') \<and> good s' \<and> sector s' = sector s"
begin

lemma write_range_ok:
  assumes "good s" "unat base + k + n \<le> capacity" "(k + n) * 512 \<le> length buf"
  shows "\<exists>s'. write_range write_sector base addr [k..<k + n] buf s = Some (0, s') \<and> good s'
    \<and> sector s' = (\<lambda>l. if unat base + k \<le> l \<and> l < unat base + k + n then block buf (l - unat base) else sector s l)"
  using assms
proof (induction n arbitrary: k s)
  case 0
  then show ?case by (auto simp: fun_eq_iff)
next
  case (Suc n)
  have u: "[k..<k + Suc n] = k # [Suc k..<Suc k + n]" by (subst upt_conv_Cons) simp_all
  have l: "unat (base + word_of_nat k) = unat base + k"
    by (rule sector_address) (use Suc.prems(2) capacity_le in simp)
  have cap: "unat (base + word_of_nat k) < capacity" using l Suc.prems(2) by simp
  have room: "512 \<le> length (drop (k * 512) buf)" using Suc.prems(3) by simp
  obtain s1 where 1: "write_sector (base + word_of_nat k) (Some (addr + k * 512, drop (k * 512) buf)) s = Some (0, s1)"
    "good s1" "sector s1 = (sector s)(unat base + k := block buf k)"
    using write_ok [OF Suc.prems(1) cap room, of "addr + k * 512"] unfolding l block_def by blast
  obtain s2 where "write_range write_sector base addr [Suc k..<Suc k + n] buf s1 = Some (0, s2)" "good s2"
    "sector s2 = (\<lambda>l. if unat base + Suc k \<le> l \<and> l < unat base + Suc k + n then block buf (l - unat base) else sector s1 l)"
    using Suc.IH [OF 1(2), of "Suc k"] Suc.prems by auto
  with 1 Suc.prems(3) show ?case unfolding u
    by (auto simp: fun_eq_iff not_less le_Suc_eq Suc_le_eq simp del: upt_Suc)
qed

lemma read_range_ok:
  assumes "good s" "unat base + k + n \<le> capacity" "(k + n) * 512 \<le> length buf"
  shows "\<exists>s'. read_range read_sector base addr [k..<k + n] buf s =
      Some (0, take (k * 512) buf @ concat (map (\<lambda>i. sector s (unat base + i)) [k..<k + n]) @ drop ((k + n) * 512) buf, s')
    \<and> good s' \<and> sector s' = sector s"
  using assms
proof (induction n arbitrary: k s buf)
  case 0
  then show ?case by simp
next
  case (Suc n)
  have u: "[k..<k + Suc n] = k # [Suc k..<Suc k + n]" by (subst upt_conv_Cons) simp_all
  have l: "unat (base + word_of_nat k) = unat base + k"
    by (rule sector_address) (use Suc.prems(2) capacity_le in simp)
  have cap: "unat (base + word_of_nat k) < capacity" using l Suc.prems(2) by simp
  have room: "512 \<le> length (drop (k * 512) buf)" using Suc.prems(3) by simp
  let ?sec = "sector s (unat base + k)"
  have len: "length ?sec = 512" by (rule sector_length [OF Suc.prems(1)])
  obtain s1 where 1: "read_sector (base + word_of_nat k) (Some (addr + k * 512, drop (k * 512) buf)) s =
      Some (0, Some (addr + k * 512, ?sec @ drop 512 (drop (k * 512) buf)), s1)" "good s1" "sector s1 = sector s"
    using read_ok [OF Suc.prems(1) cap room, of "addr + k * 512"] unfolding l by blast
  define B where "B = take (k * 512) buf @ ?sec @ drop (Suc k * 512) buf"
  have B: "(Suc k + n) * 512 \<le> length B" "take (Suc k * 512) B = take (k * 512) buf @ ?sec"
    "drop ((Suc k + n) * 512) B = drop ((k + Suc n) * 512) buf"
    using Suc.prems(3) len by (simp_all add: B_def add.commute add.left_commute)
  have "unat base + Suc k + n \<le> capacity" using Suc.prems(2) by simp
  from Suc.IH [OF 1(2) this B(1)] obtain s2 where
    2: "read_range read_sector base addr [Suc k..<Suc k + n] B s1 = Some (0, take (k * 512) buf @ ?sec
        @ concat (map (\<lambda>i. sector s (unat base + i)) [Suc k..<Suc k + n]) @ drop ((k + Suc n) * 512) buf, s2)"
    "good s2" "sector s2 = sector s"
    unfolding B(2,3) 1(3) append_assoc by blast
  have "drop 512 (drop (k * 512) buf) = drop (Suc k * 512) buf" by simp
  then have "read_range read_sector base addr (k # [Suc k..<Suc k + n]) buf s =
      read_range read_sector base addr [Suc k..<Suc k + n] B s1"
    using 1(1) Suc.prems(3) unfolding B_def by (simp del: upt_Suc drop_drop mult_Suc) simp
  with 2 show ?case unfolding u by simp
qed

lemma write_then_read:
  assumes "good s" "unat lba < capacity" "512 \<le> length bs"
  shows "\<exists>s1. write_sector lba (Some (a, bs)) s = Some (0, s1) \<and> good s1
    \<and> (\<forall>b buf. 512 \<le> length buf \<longrightarrow>
      (\<exists>s2. read_sector lba (Some (b, buf)) s1 = Some (0, Some (b, take 512 bs @ drop 512 buf), s2)))
    \<and> (\<forall>l. l \<noteq> unat lba \<longrightarrow> sector s1 l = sector s l)"
proof -
  obtain s1 where 1: "write_sector lba (Some (a, bs)) s = Some (0, s1)" "good s1"
    "sector s1 = (sector s)(unat lba := take 512 bs)"
    using write_ok [OF assms] by blast
  have "\<exists>s2. read_sector lba (Some (b, buf)) s1 = Some (0, Some (b, take 512 bs @ drop 512 buf), s2)"
    if "512 \<le> length buf" for b and buf :: "u8 list"
    using read_ok [OF 1(2) assms(2) that, of b] unfolding 1(3) fun_upd_same by blast
  with 1 show ?thesis by (intro exI [of _ s1]) simp
qed

text \<open>What a range was written with is read back, into any buffer.\<close>

lemma read_written_range:
  assumes "good s" "unat base + n \<le> capacity" "n * 512 \<le> length buf" "n * 512 \<le> length src"
    and "\<forall>i < n. sector s (unat base + i) = block src i"
  shows "\<exists>s'. read_range read_sector base addr [0..<n] buf s = Some (0, take (n * 512) src @ drop (n * 512) buf, s')
    \<and> good s' \<and> sector s' = sector s"
proof -
  have "map (\<lambda>i. sector s (unat base + i)) [0..<n] = map (block src) [0..<n]" using assms(5) by simp
  then have "concat (map (\<lambda>i. sector s (unat base + i)) [0..<n]) = take (n * 512) src"
    using blocks_take [OF assms(4)] by (simp only:)
  with read_range_ok [of s base 0 n buf addr] assms(1-3) show ?thesis by simp
qed

end

end
