(* ===== verification/Pio.thy ===== *)
theory Pio
  imports AtaSpec Codec Sectors
begin

text \<open>
  An ATA drive on the primary IDE channel, as its programming interface documents it: command and
  task file registers at 0x1F0, the status register with its busy, data request and error bits, and a data
  port through which each sector passes in 256 words. A read or write command transfers as many sectors as the
  sector count register says, 256 if it is 0, and addresses them by cylinder, head and sector unless the LBA bit is set.
  The drive stays busy for \<open>lat\<close> reads of its status after every command and before every further sector;
  while it is busy or has a transfer to finish it ignores what is written to its registers, and while it is busy no
  data passes. A command that it does not know ends with the error bit, which the next command clears. The driver of
  the kernel runs on it as on any other hardware; with it the contract of a sector device, which the disk layer
  relies on, is shown of the driver's own code.
\<close>

subsection \<open>The drive\<close>

text \<open>\<open>dr_in\<close> and \<open>dr_out\<close> hold the sector that is being transferred, \<open>dr_next\<close> and \<open>dr_left\<close> the ones to follow.\<close>

record drive =
  dr_disk :: "nat \<Rightarrow> u8 list"
  dr_sel :: u8
  dr_count :: u8
  dr_l0 :: u8
  dr_l1 :: u8
  dr_l2 :: u8
  dr_busy :: nat
  dr_err :: bool
  dr_in :: "u16 list"
  dr_out :: "(nat \<times> u8 list) option"
  dr_next :: nat
  dr_left :: nat

fun words_of :: "u8 list \<Rightarrow> u16 list" where
  "words_of (a # b # bs) = un_le16 [a, b] # words_of bs"
| "words_of bs = []"

definition bytes_of :: "u16 list \<Rightarrow> u8 list" where
  "bytes_of ws = concat (map le16 ws)"

text \<open>The geometry of the translation of cylinders, heads and sectors has 16 heads of 63 sectors.\<close>

definition drive_lba :: "drive \<Rightarrow> nat" where
  "drive_lba d =
     (if dr_sel d AND 0x40 \<noteq> 0
      then unat (dr_l0 d) + 2 ^ 8 * unat (dr_l1 d) + 2 ^ 16 * unat (dr_l2 d) + 2 ^ 24 * unat (dr_sel d AND 0x0F)
      else ((unat (dr_l1 d) + 2 ^ 8 * unat (dr_l2 d)) * 16 + unat (dr_sel d AND 0x0F)) * 63 + unat (dr_l0 d) - 1)"

definition drive_sectors :: "drive \<Rightarrow> nat" where
  "drive_sectors d = (if dr_count d = 0 then 256 else unat (dr_count d))"

definition drive_absent :: "drive \<Rightarrow> bool" where
  "drive_absent d \<longleftrightarrow> dr_sel d AND 0x10 \<noteq> 0"

definition drive_drq :: "drive \<Rightarrow> bool" where
  "drive_drq d \<longleftrightarrow> dr_in d \<noteq> [] \<or> dr_out d \<noteq> None"

definition drive_status :: "drive \<Rightarrow> u8" where
  "drive_status d = (if dr_busy d > 0 then 0x80
     else 0x50 OR (if drive_drq d then 0x08 else 0) OR (if dr_err d then 0x01 else 0))"

definition drive_inb :: "u16 \<Rightarrow> drive \<Rightarrow> u8 \<times> drive" where
  "drive_inb port d =
     (if drive_absent d then (0, d)
      else if port = 0x1F7 \<or> port = 0x3F6 then (drive_status d, d\<lparr>dr_busy := dr_busy d - 1\<rparr>)
      else if port < 0x1F1 \<or> 0x1F6 < port then (0, d)
      else if dr_busy d > 0 then (0x80, d)
      else if port = 0x1F1 then (if dr_err d then 0x04 else 0, d)
      else if port = 0x1F2 then (dr_count d, d)
      else if port = 0x1F3 then (dr_l0 d, d)
      else if port = 0x1F4 then (dr_l1 d, d)
      else if port = 0x1F5 then (dr_l2 d, d)
      else (dr_sel d, d))"

definition drive_command :: "nat \<Rightarrow> u16 list \<Rightarrow> u8 \<Rightarrow> drive \<Rightarrow> drive" where
  "drive_command lat ident c d =
     (let d = d\<lparr>dr_busy := lat, dr_err := False, dr_in := [], dr_out := None, dr_next := drive_lba d + 1,
            dr_left := drive_sectors d - 1\<rparr>
      in if c = 0x20 then d\<lparr>dr_in := words_of (dr_disk d (drive_lba d))\<rparr>
         else if c = 0x30 then d\<lparr>dr_out := Some (drive_lba d, [])\<rparr>
         else if c = 0xEC then d\<lparr>dr_in := ident, dr_left := 0\<rparr>
         else if c = 0xE7 then d\<lparr>dr_left := 0\<rparr>
         else d\<lparr>dr_err := True, dr_left := 0\<rparr>)"

definition drive_outb :: "nat \<Rightarrow> u16 list \<Rightarrow> u16 \<Rightarrow> u8 \<Rightarrow> drive \<Rightarrow> drive" where
  "drive_outb lat ident port v d =
     (if dr_busy d > 0 \<or> drive_drq d then d
      else if port = 0x1F2 then d\<lparr>dr_count := v\<rparr>
      else if port = 0x1F3 then d\<lparr>dr_l0 := v\<rparr>
      else if port = 0x1F4 then d\<lparr>dr_l1 := v\<rparr>
      else if port = 0x1F5 then d\<lparr>dr_l2 := v\<rparr>
      else if port = 0x1F6 then d\<lparr>dr_sel := v\<rparr>
      else if port = 0x1F7 \<and> \<not> drive_absent d then drive_command lat ident v d
      else d)"

definition drive_inw :: "nat \<Rightarrow> u16 \<Rightarrow> drive \<Rightarrow> u16 \<times> drive" where
  "drive_inw lat port d =
     (if port \<noteq> 0x1F0 \<or> drive_absent d \<or> dr_busy d > 0 then (0, d)
      else case dr_in d of
        [] \<Rightarrow> (0, d)
      | w # ws \<Rightarrow> (w,
          if ws = [] \<and> dr_left d > 0
          then d\<lparr>dr_in := words_of (dr_disk d (dr_next d)), dr_next := dr_next d + 1, dr_left := dr_left d - 1, dr_busy := lat\<rparr>
          else d\<lparr>dr_in := ws\<rparr>))"

definition drive_outw :: "nat \<Rightarrow> u16 \<Rightarrow> u16 \<Rightarrow> drive \<Rightarrow> drive" where
  "drive_outw lat port w d =
     (if port \<noteq> 0x1F0 \<or> drive_absent d \<or> dr_busy d > 0 then d
      else case dr_out d of
        None \<Rightarrow> d
      | Some (l, bs) \<Rightarrow>
          if length bs + 2 < 512 then d\<lparr>dr_out := Some (l, bs @ le16 w)\<rparr>
          else d\<lparr>dr_disk := (dr_disk d)(l := bs @ le16 w), dr_busy := lat,
            dr_out := (if dr_left d > 0 then Some (dr_next d, []) else None), dr_next := dr_next d + 1, dr_left := dr_left d - 1\<rparr>)"

definition pio_hw :: "nat \<Rightarrow> u16 list \<Rightarrow> drive hw" where
  "pio_hw lat ident = \<lparr>hw_inb = drive_inb, hw_outb = drive_outb lat ident, hw_inw = drive_inw lat,
     hw_outw = drive_outw lat, hw_inl = (\<lambda>p d. (0xFFFFFFFF, d)), hw_outl = (\<lambda>p v d. d),
     hw_mmio_read = (\<lambda>a d. (0xFFFFFFFF, d)), hw_mmio_write = (\<lambda>a v d. d),
     hw_ram_get = (\<lambda>a n d. replicate n 0), hw_ram_put = (\<lambda>a bs d. d),
     hw_ctx_addr = 0x200000, hw_sector_addr = 0x210000, hw_payload_addr = 0x220000\<rparr>"

lemma pio_ports [simp]:
  "inb (pio_hw lat ident) p s = (fst (drive_inb p (machine s)), s\<lparr>machine := snd (drive_inb p (machine s))\<rparr>)"
  "outb (pio_hw lat ident) p v s = s\<lparr>machine := drive_outb lat ident p v (machine s)\<rparr>"
  "inw (pio_hw lat ident) p s = (fst (drive_inw lat p (machine s)), s\<lparr>machine := snd (drive_inw lat p (machine s))\<rparr>)"
  "outw (pio_hw lat ident) p w s = s\<lparr>machine := drive_outw lat p w (machine s)\<rparr>"
  by (simp_all add: inb_def outb_def inw_def outw_def pio_hw_def split_beta)

lemma machine_update_same [simp]: "s\<lparr>machine := machine s\<rparr> = s"
  by simp

subsection \<open>Sectors as words\<close>

lemma bytes_of_simps [simp]: "bytes_of [] = []" "bytes_of (w # ws) = le16 w @ bytes_of ws"
  by (simp_all add: bytes_of_def)

lemma le16_un_le16: "le16 (un_le16 [a, b]) = [a, b]"
proof -
  have "\<not> bit a (8 + n)" for n using bit_imp_le_length [of a "8 + n"] by auto
  then show ?thesis unfolding le16_def un_le16_def
    by (auto intro!: bit_word_eqI simp: bit_simps)
qed

lemma bytes_of_words_of: "even (length bs) \<Longrightarrow> bytes_of (words_of bs) = bs"
  by (induction bs rule: words_of.induct) (simp_all add: le16_un_le16)

lemma length_words_of: "length (words_of bs) = length bs div 2"
  by (induction bs rule: words_of.induct) simp_all

lemma length_bytes_of [simp]: "length (bytes_of ws) = 2 * length ws"
  by (induction ws) simp_all

lemma word_bytes: "ucast (w AND 0xFF) = (ucast w :: u8)" for w :: u16
proof -
  have "(0xFF :: u16) = Bit_Operations.mask 8" by (simp add: mask_eq_exp_minus_1)
  then show ?thesis by (simp add: bit_eq_iff) (auto simp: bit_simps)
qed

text \<open>Data passes.\<close>

definition passing :: "drive \<Rightarrow> bool" where
  "passing d \<longleftrightarrow> \<not> drive_absent d \<and> dr_busy d = 0"

lemma passing_update [simp]: "passing (d\<lparr>dr_in := ws\<rparr>) = passing d" "passing (d\<lparr>dr_out := r\<rparr>) = passing d"
  by (simp_all add: passing_def drive_absent_def)

lemma drive_inw_word: "passing d \<Longrightarrow> dr_left d = 0 \<Longrightarrow> dr_in d = w # ws \<Longrightarrow> drive_inw lat 0x1F0 d = (w, d\<lparr>dr_in := ws\<rparr>)"
  by (simp add: drive_inw_def passing_def)

lemma read_data_pio:
  "passing (machine s) \<Longrightarrow> dr_left (machine s) = 0 \<Longrightarrow> dr_in (machine s) = ws @ rest \<Longrightarrow> 2 * (k + length ws) \<le> length buf \<Longrightarrow>
    read_data (pio_hw lat ident) 0x1F0 [k..<k + length ws] buf s =
      Some (take (2 * k) buf @ bytes_of ws @ drop (2 * (k + length ws)) buf,
        s\<lparr>machine := (machine s)\<lparr>dr_in := rest\<rparr>\<rparr>)"
proof (induction ws arbitrary: k buf s)
  case Nil
  then have "(machine s)\<lparr>dr_in := rest\<rparr> = machine s" by simp
  then show ?case by simp
next
  case (Cons w ws)
  let ?buf = "buf[k * 2 := ucast w, k * 2 + 1 := ucast (drop_bit 8 w)]"
  let ?s = "s\<lparr>machine := (machine s)\<lparr>dr_in := ws @ rest\<rparr>\<rparr>"
  have u: "[k..<k + length (w # ws)] = k # [Suc k..<Suc k + length ws]" by (subst upt_conv_Cons) simp_all
  have ih: "read_data (pio_hw lat ident) 0x1F0 [Suc k..<Suc k + length ws] ?buf ?s =
      Some (take (2 * Suc k) ?buf @ bytes_of ws @ drop (2 * (Suc k + length ws)) ?buf,
        ?s\<lparr>machine := (machine ?s)\<lparr>dr_in := rest\<rparr>\<rparr>)"
    by (rule Cons.IH) (use Cons.prems in simp_all)
  have "take (2 * Suc k) ?buf = take (2 * k) buf @ le16 w"
    using Cons.prems by (intro nth_equalityI) (auto simp: le16_def nth_append nth_list_update nth_Cons')
  then show ?case using ih Cons.prems unfolding u
    by (simp add: drive_inw_word word_bytes mult.commute del: upt_Suc)
qed

lemma write_data_append:
  "write_data hw b (is @ js) buf s = write_data hw b is buf s \<bind> write_data hw b js buf"
  by (induction "is" arbitrary: s) (auto simp: rd_def)

lemma un_le16_word: "ucast a OR push_bit 8 (ucast b) = un_le16 [a, b]"
  by (simp add: un_le16_def)

lemma write_data_pio:
  "passing (machine s) \<Longrightarrow> dr_out (machine s) = Some (l, bs) \<Longrightarrow> length bs = 2 * k \<Longrightarrow> k + n < 256 \<Longrightarrow> 2 * (k + n) \<le> length buf \<Longrightarrow>
    write_data (pio_hw lat ident) 0x1F0 [k..<k + n] buf s =
      Some (s\<lparr>machine := (machine s)\<lparr>dr_out := Some (l, bs @ take (2 * n) (drop (2 * k) buf))\<rparr>\<rparr>)"
proof (induction n arbitrary: k bs s)
  case 0
  then have "(machine s)\<lparr>dr_out := Some (l, bs)\<rparr> = machine s" by simp
  with 0 show ?case by simp
next
  case (Suc n)
  let ?w = "[buf ! (k * 2), buf ! (k * 2 + 1)]"
  let ?s = "s\<lparr>machine := (machine s)\<lparr>dr_out := Some (l, bs @ ?w)\<rparr>\<rparr>"
  have u: "[k..<k + Suc n] = k # [Suc k..<Suc k + n]" by (subst upt_conv_Cons) simp_all
  have ih: "write_data (pio_hw lat ident) 0x1F0 [Suc k..<Suc k + n] buf ?s =
      Some (?s\<lparr>machine := (machine ?s)\<lparr>dr_out := Some (l, (bs @ ?w) @ take (2 * n) (drop (2 * Suc k) buf))\<rparr>\<rparr>)"
    by (rule Suc.IH) (use Suc.prems in simp_all)
  have d: "drop (2 * k) buf = buf ! (k * 2) # buf ! (k * 2 + 1) # drop (2 * Suc k) buf"
  proof -
    have "2 * k < length buf" "Suc (2 * k) < length buf" using Suc.prems by simp_all
    then have "drop (2 * k) buf = buf ! (2 * k) # buf ! Suc (2 * k) # drop (Suc (Suc (2 * k))) buf"
      by (metis Cons_nth_drop_Suc)
    then show ?thesis by (simp add: mult.commute)
  qed
  have "drive_outw lat 0x1F0 (un_le16 ?w) (machine s) = machine ?s"
    using Suc.prems by (simp add: drive_outw_def passing_def le16_un_le16)
  then show ?case using ih Suc.prems d unfolding u
    by (simp add: un_le16_word del: upt_Suc)
qed

lemma write_sector_pio:
  assumes "passing (machine s)" "dr_left (machine s) = 0" "dr_out (machine s) = Some (l, [])" "512 \<le> length buf"
  shows "write_data (pio_hw lat ident) 0x1F0 [0..<256] buf s =
    Some (s\<lparr>machine := (machine s)\<lparr>dr_disk := (dr_disk (machine s))(l := take 512 buf), dr_busy := lat,
      dr_out := None, dr_next := dr_next (machine s) + 1, dr_left := 0\<rparr>\<rparr>)"
proof -
  let ?s = "s\<lparr>machine := (machine s)\<lparr>dr_out := Some (l, take 510 buf)\<rparr>\<rparr>"
  have "write_data (pio_hw lat ident) 0x1F0 [0..<0 + 255] buf s =
      Some (s\<lparr>machine := (machine s)\<lparr>dr_out := Some (l, [] @ take (2 * 255) (drop (2 * 0) buf))\<rparr>\<rparr>)"
    by (rule write_data_pio) (use assms in simp_all)
  moreover have "[0..<256] = [0..<255] @ [255::nat]"
    using upt_Suc_append [of 0 255] by (simp only: eval_nat_numeral(3) BitM.simps pred_numeral_simps) simp
  moreover have "take 512 buf = take 510 buf @ [buf ! 510, buf ! 511]"
  proof -
    have "take (Suc (Suc 510)) buf = take 510 buf @ [buf ! 510, buf ! 511]"
      using assms(4) by (simp only: take_Suc_conv_app_nth append_assoc) simp
    then show ?thesis by simp
  qed
  moreover have "drive_outw lat 0x1F0 (un_le16 [buf ! 510, buf ! 511]) (machine ?s) = (machine s)\<lparr>
      dr_disk := (dr_disk (machine s))(l := take 510 buf @ [buf ! 510, buf ! 511]), dr_busy := lat,
      dr_out := None, dr_next := dr_next (machine s) + 1, dr_left := 0\<rparr>"
    using assms by (simp add: drive_outw_def passing_def drive_absent_def le16_un_le16)
  ultimately show ?thesis
    using assms by (simp add: write_data_append un_le16_word del: upt_rec_numeral)
qed


subsection \<open>Waiting for the drive\<close>

text \<open>The same drive, with less time to be busy.\<close>

definition calmer :: "drive ata \<Rightarrow> drive ata \<Rightarrow> bool" where
  "calmer s s' \<longleftrightarrow> (\<exists>b \<le> dr_busy (machine s). s' = s\<lparr>machine := (machine s)\<lparr>dr_busy := b\<rparr>\<rparr>)"

lemma calmerI: "b \<le> dr_busy (machine s) \<Longrightarrow> calmer s (s\<lparr>machine := (machine s)\<lparr>dr_busy := b\<rparr>\<rparr>)"
  unfolding calmer_def by blast

lemma calmerE:
  assumes "calmer s s'"
  obtains b where "b \<le> dr_busy (machine s)" "s' = s\<lparr>machine := (machine s)\<lparr>dr_busy := b\<rparr>\<rparr>"
  using assms unfolding calmer_def by blast

lemma calmer_refl: "calmer s s"
  using calmerI [of "dr_busy (machine s)" s] by simp

lemma calmer_trans:
  assumes "calmer s t" "calmer t u"
  shows "calmer s u"
proof -
  obtain b where b: "b \<le> dr_busy (machine s)" "t = s\<lparr>machine := (machine s)\<lparr>dr_busy := b\<rparr>\<rparr>"
    using assms(1) by (rule calmerE)
  obtain c where "c \<le> dr_busy (machine t)" "u = t\<lparr>machine := (machine t)\<lparr>dr_busy := c\<rparr>\<rparr>"
    using assms(2) by (rule calmerE)
  with b calmerI [of c s] show ?thesis by simp
qed

lemma drive_inb_still: "drive_absent d \<or> port \<noteq> 0x1F7 \<and> port \<noteq> 0x3F6 \<Longrightarrow> snd (drive_inb port d) = d"
  by (auto simp: drive_inb_def)

lemma drive_inb_status: "\<not> drive_absent d \<Longrightarrow> port = 0x1F7 \<or> port = 0x3F6 \<Longrightarrow>
    drive_inb port d = (drive_status d, d\<lparr>dr_busy := dr_busy d - 1\<rparr>)"
  by (simp add: drive_inb_def)

lemma calmer_status: "calmer s (s\<lparr>machine := snd (drive_inb p (machine s))\<rparr>)"
proof (cases "\<not> drive_absent (machine s) \<and> (p = 0x1F7 \<or> p = 0x3F6)")
  case True
  then have "snd (drive_inb p (machine s)) = (machine s)\<lparr>dr_busy := dr_busy (machine s) - 1\<rparr>"
    by (simp add: drive_inb_status)
  with calmerI [of "dr_busy (machine s) - 1" s] show ?thesis by simp
next
  case False
  then have "snd (drive_inb p (machine s)) = machine s" using drive_inb_still by blast
  with calmer_refl [of s] show ?thesis by simp
qed

lemma calmer_delay: "calmer s (ide_delay_400ns (pio_hw lat ident) b s)"
proof -
  define f where "f = (\<lambda>s. snd (inb (pio_hw lat ident) (b + IDE_REG_ALTSTATUS) s))"
  have f: "calmer t (f t)" for t using calmer_status [of t] by (simp add: f_def)
  have "ide_delay_400ns (pio_hw lat ident) b s = f (f (f (f s)))"
    by (simp only: ide_delay_400ns_def split_beta Let_def f_def)
  then show ?thesis
    by (simp only:) (rule calmer_trans [OF f calmer_trans [OF f calmer_trans [OF f f]]])
qed

text \<open>The drive when it is no longer busy. A drive that is not selected is not waited for.\<close>

definition calmed :: "drive ata \<Rightarrow> drive ata" where
  "calmed s = s\<lparr>machine := (machine s)\<lparr>dr_busy := 0\<rparr>\<rparr>"

definition settles :: "nat \<Rightarrow> drive ata \<Rightarrow> bool" where
  "settles n s \<longleftrightarrow> dr_busy (machine s) < n \<and> \<not> dr_err (machine s) \<and> (drive_absent (machine s) \<longrightarrow> dr_busy (machine s) = 0)"

lemma calmed_fields [simp]: "machine (calmed s) = (machine s)\<lparr>dr_busy := 0\<rparr>" "g_ide_devices (calmed s) = g_ide_devices s"
  "tables (calmed s) = tables s"
  by (simp_all add: calmed_def tables_def)

lemma calmed_calmer: "calmer s t \<Longrightarrow> calmed t = calmed s"
  by (auto elim!: calmerE simp: calmed_def)

lemma calmed_same: "dr_busy (machine s) = 0 \<Longrightarrow> calmed s = s"
  by (simp add: calmed_def)

lemma settles_calmer: "calmer s t \<Longrightarrow> settles n s \<Longrightarrow> settles n t"
  by (auto elim!: calmerE simp: settles_def drive_absent_def)

lemma drive_drq_update [simp]: "drive_drq (d\<lparr>dr_busy := b\<rparr>) = drive_drq d" "drive_drq (d\<lparr>dr_sel := v\<rparr>) = drive_drq d"
  "drive_drq (d\<lparr>dr_count := v\<rparr>) = drive_drq d" "drive_drq (d\<lparr>dr_l0 := v\<rparr>) = drive_drq d"
  "drive_drq (d\<lparr>dr_l1 := v\<rparr>) = drive_drq d" "drive_drq (d\<lparr>dr_l2 := v\<rparr>) = drive_drq d"
  by (simp_all add: drive_drq_def)

text \<open>A drive that is neither busy nor in a transfer takes what is written to its registers.\<close>

lemma task_file:
  assumes "dr_busy d = 0" "\<not> drive_drq d"
  shows "drive_outb lat ident 0x1F2 v d = d\<lparr>dr_count := v\<rparr>" "drive_outb lat ident 0x1F3 v d = d\<lparr>dr_l0 := v\<rparr>"
    "drive_outb lat ident 0x1F4 v d = d\<lparr>dr_l1 := v\<rparr>" "drive_outb lat ident 0x1F5 v d = d\<lparr>dr_l2 := v\<rparr>"
    "drive_outb lat ident 0x1F6 v d = d\<lparr>dr_sel := v\<rparr>"
    "drive_outb lat ident 0x1F7 v d = (if drive_absent d then d else drive_command lat ident v d)"
  using assms by (simp_all add: drive_outb_def)

lemma io_wait_pio [simp]: "io_wait (pio_hw lat ident) s = s"
  by (simp add: io_wait_def drive_outb_def)

lemma delay_calm: "dr_busy (machine s) = 0 \<Longrightarrow> ide_delay_400ns (pio_hw lat ident) b s = s"
  using calmer_delay [of s lat ident b] by (auto elim!: calmerE)

text \<open>One poll of the status.\<close>

lemma poll_cases:
  assumes "settles (Suc n) s"
  obtains (free) st where "drive_inb 0x1F7 (machine s) = (st, machine s)" "calmed s = s" "dr_busy (machine s) = 0"
      "st = (if drive_absent (machine s) then 0 else if drive_drq (machine s) then 0x58 else 0x50)"
    | (busy) t where "drive_inb 0x1F7 (machine s) = (0x80, machine t)" "t = s\<lparr>machine := machine t\<rparr>" "settles n t"
      "calmed t = calmed s" "drive_drq (machine t) = drive_drq (machine s)" "drive_absent (machine t) = drive_absent (machine s)"
proof (cases "dr_busy (machine s) = 0")
  case True
  then have "(machine s)\<lparr>dr_busy := 0\<rparr> = machine s" by simp
  with True assms show thesis
    by (intro free [of "fst (drive_inb 0x1F7 (machine s))"]) (simp_all add: calmed_same drive_inb_def drive_status_def settles_def)
next
  case False
  let ?t = "s\<lparr>machine := (machine s)\<lparr>dr_busy := dr_busy (machine s) - 1\<rparr>\<rparr>"
  have "\<not> drive_absent (machine s)" using False assms by (auto simp: settles_def)
  with False assms show thesis
    by (intro busy [of ?t]) (auto simp: drive_inb_status drive_status_def settles_def calmed_def drive_absent_def)
qed

lemma wait_ready_pio: "settles n s \<Longrightarrow> wait_ready_loop (pio_hw lat ident) 0x1F0 n st s = (0, calmed s)"
proof (induction n arbitrary: st s)
  case (Suc n)
  from Suc.prems show ?case
  proof (cases rule: poll_cases)
    case (free st)
    then show ?thesis by simp
  next
    case (busy t)
    with Suc.IH [OF busy(3)] show ?thesis by simp
  qed
qed (simp add: settles_def)

lemma wait_not_busy_pio: "settles n s \<Longrightarrow> wait_not_busy_loop (pio_hw lat ident) 0x1F0 n st s = (0, calmed s)"
proof (induction n arbitrary: st s)
  case (Suc n)
  from Suc.prems show ?case
  proof (cases rule: poll_cases)
    case (free st)
    then show ?thesis by simp
  next
    case (busy t)
    with Suc.IH [OF busy(3)] show ?thesis by simp
  qed
qed (simp add: settles_def)

lemma wait_drq_pio:
  "settles n s \<Longrightarrow> \<not> drive_absent (machine s) \<Longrightarrow> drive_drq (machine s) \<Longrightarrow>
    wait_drq_loop (pio_hw lat ident) 0x1F0 n st s = (0, calmed s)"
proof (induction n arbitrary: st s)
  case (Suc n)
  from Suc.prems(1) show ?case
  proof (cases rule: poll_cases)
    case (free st)
    with Suc.prems show ?thesis by simp
  next
    case (busy t)
    with Suc.IH [OF busy(3)] Suc.prems show ?thesis by simp
  qed
qed (simp add: settles_def)

text \<open>The three waits of the driver.\<close>

lemma ready_pio: "settles ATA_POLL_ATTEMPTS s \<Longrightarrow> ide_wait_ready (pio_hw lat ident) 0x1F0 s = (0, calmed s)"
  using wait_ready_pio [OF settles_calmer [OF calmer_delay]] calmed_calmer [OF calmer_delay]
  by (simp add: ide_wait_ready_def)

lemma not_busy_pio: "settles ATA_POLL_ATTEMPTS s \<Longrightarrow> ide_wait_not_busy (pio_hw lat ident) 0x1F0 s = (0, calmed s)"
  using wait_not_busy_pio [OF settles_calmer [OF calmer_delay]] calmed_calmer [OF calmer_delay]
  by (simp add: ide_wait_not_busy_def)

lemma drq_pio:
  assumes "settles ATA_POLL_ATTEMPTS s" "\<not> drive_absent (machine s)" "drive_drq (machine s)"
  shows "ide_wait_drq (pio_hw lat ident) 0x1F0 s = (0, calmed s)"
proof -
  let ?s = "ide_delay_400ns (pio_hw lat ident) 0x1F0 s"
  have c: "calmer s ?s" by (rule calmer_delay)
  have "\<not> drive_absent (machine ?s)" "drive_drq (machine ?s)"
    using assms(2,3) c by (auto elim!: calmerE simp: drive_absent_def)
  from wait_drq_pio [OF settles_calmer [OF c assms(1)] this] calmed_calmer [OF c] show ?thesis
    by (simp add: ide_wait_drq_def)
qed

subsection \<open>Addressing\<close>

lemma low_byte: "unat (ucast (w AND 0xFF) :: u8) = unat w mod 256" for w :: u32
proof -
  have "(0xFF :: u32) = Bit_Operations.mask 8" by (simp add: mask_eq_exp_minus_1)
  then have "ucast (w AND 0xFF) = (ucast w :: u8)" by (simp add: bit_eq_iff) (auto simp: bit_simps)
  then show ?thesis by (simp add: unsigned_ucast_eq take_bit_eq_mod)
qed

lemma head_bits: "unat ((0xE0 OR ucast (w AND 0x0F)) AND 0x0F :: u8) = unat w mod 16" for w :: u32
proof -
  have m: "(0x0F :: u32) = Bit_Operations.mask 4" "(0x0F :: u8) = Bit_Operations.mask 4"
    by (simp_all add: mask_eq_exp_minus_1)
  have "(0xE0 OR ucast (w AND 0x0F)) AND 0x0F = (0xE0 AND 0x0F) OR (ucast (w AND 0x0F) AND 0x0F :: u8)"
    by (simp only: bit.conj_disj_distrib2)
  also have "\<dots> = (ucast (w AND 0x0F) AND 0x0F :: u8)" by simp
  also have "\<dots> = ucast (take_bit 4 w)" unfolding m by (simp add: bit_eq_iff) (auto simp: bit_simps)
  finally show ?thesis
    by (simp add: unsigned_ucast_eq unsigned_take_bit_eq) (simp add: take_bit_eq_mod)
qed


definition select28 :: "u32 \<Rightarrow> drive \<Rightarrow> drive" where
  "select28 lba d = d\<lparr>dr_sel := 0xE0 OR ucast (drop_bit 24 lba AND 0x0F), dr_count := 1, dr_l0 := ucast (lba AND 0xFF),
     dr_l1 := ucast (drop_bit 8 lba AND 0xFF), dr_l2 := ucast (drop_bit 16 lba AND 0xFF)\<rparr>"

lemma head_high_bits:
  fixes w :: u32
  assumes "\<forall>n<4. \<not> bit m n"
  shows "(0xE0 OR ucast (w AND 0x0F)) AND m = (0xE0 AND m :: u8)"
proof -
  have 1: "(0x0F :: u32) = Bit_Operations.mask 4" by (simp add: mask_eq_exp_minus_1)
  have "ucast (w AND 0x0F) AND m = 0" using assms unfolding 1 by (simp add: bit_eq_iff) (auto simp: bit_simps)
  then show ?thesis by (simp only: bit.conj_disj_distrib2 or.right_neutral)
qed

lemma select_bits: "(0xE0 OR ucast (w AND 0x0F)) AND 0x10 = (0 :: u8)" "(0xE0 OR ucast (w AND 0x0F)) AND 0x40 = (0x40 :: u8)" for w :: u32
proof -
  have n: "n = 0 \<or> n = 1 \<or> n = 2 \<or> n = 3" if "n < 4" for n :: nat using that by auto
  show "(0xE0 OR ucast (w AND 0x0F)) AND 0x10 = (0 :: u8)" by (subst head_high_bits) (auto dest!: n)
  show "(0xE0 OR ucast (w AND 0x0F)) AND 0x40 = (0x40 :: u8)" by (subst head_high_bits) (auto dest!: n)
qed

lemma drive_lba_select28: "drive_lba (select28 lba d) = unat lba mod 2 ^ 28"
proof -
  have "unat lba mod 2 ^ 28 = unat lba mod 2 ^ 8 + 2 ^ 8 * (unat lba div 2 ^ 8 mod 2 ^ 8)
      + 2 ^ 16 * (unat lba div 2 ^ 16 mod 2 ^ 8) + 2 ^ 24 * (unat lba div 2 ^ 24 mod 2 ^ 4)"
    using mod_mult2_eq [of "unat lba" "2 ^ 24" "2 ^ 4"] mod_mult2_eq [of "unat lba" "2 ^ 16" "2 ^ 8"]
      mod_mult2_eq [of "unat lba" "2 ^ 8" "2 ^ 8"] by simp
  moreover have "dr_sel (select28 lba d) AND 0x40 \<noteq> 0" using select_bits(2) [of \<open>drop_bit 24 lba\<close>] by (simp add: select28_def)
  then have "drive_lba (select28 lba d) = unat (ucast (lba AND 0xFF) :: u8)
      + 2 ^ 8 * unat (ucast (drop_bit 8 lba AND 0xFF) :: u8) + 2 ^ 16 * unat (ucast (drop_bit 16 lba AND 0xFF) :: u8)
      + 2 ^ 24 * unat ((0xE0 OR ucast (drop_bit 24 lba AND 0x0F)) AND 0x0F :: u8)"
    by (cases d) (simp only: drive_lba_def select28_def drive.simps drive.update_convs if_True simp_thms)
  ultimately show ?thesis
    unfolding low_byte head_bits unat_drop_bit_eq unfolding drop_bit_eq_div by simp
qed

lemma select28_fields [simp]: "\<not> drive_absent (select28 lba d)" "drive_sectors (select28 lba d) = 1"
  "dr_disk (select28 lba d) = dr_disk d"
  by (simp_all add: drive_absent_def drive_sectors_def select28_def select_bits)

lemma setup_pio:
  assumes "id_io_base dev = 0x1F0" "id_slave dev = 0" "dr_busy (machine s) = 0" "\<not> drive_drq (machine s)"
  shows "ide_setup (pio_hw lat ident) dev lba c s =
    ide_delay_400ns (pio_hw lat ident) 0x1F0 (s\<lparr>machine := drive_command lat ident c (select28 lba (machine s))\<rparr>)"
proof -
  let ?s1 = "s\<lparr>machine := (machine s)\<lparr>dr_sel := 0xE0 OR ucast (drop_bit 24 lba AND 0x0F)\<rparr>\<rparr>"
  have "ide_delay_400ns (pio_hw lat ident) 0x1F0 ?s1 = ?s1" by (rule delay_calm) (simp add: assms)
  then show ?thesis
    using assms select28_fields(1) [of lba "machine s"]
    by (simp add: ide_setup_def task_file Let_def select28_def)
qed

subsection \<open>Sectors\<close>

text \<open>The drive has no transfer to finish and no error to report.\<close>

definition idle :: "drive \<Rightarrow> bool" where
  "idle d \<longleftrightarrow> \<not> drive_drq d \<and> \<not> dr_err d"

definition pio_ready :: "nat \<Rightarrow> drive ata \<Rightarrow> bool" where
  "pio_ready lat s \<longleftrightarrow> ata_ok s \<and> 0 \<le> g_selected_device s
     \<and> dm_kind (g_devices s ! nat (g_selected_device s)) = DEV_IDE
     \<and> dm_source_index (g_devices s ! nat (g_selected_device s)) = 0
     \<and> id_present (g_ide_devices s ! 0) \<and> id_io_base (g_ide_devices s ! 0) = 0x1F0
     \<and> id_slave (g_ide_devices s ! 0) = 0
     \<and> idle (machine s) \<and> dr_busy (machine s) \<le> lat \<and> lat < ATA_POLL_ATTEMPTS
     \<and> (drive_absent (machine s) \<longrightarrow> dr_busy (machine s) = 0)
     \<and> (\<forall>n. length (dr_disk (machine s) n) = 512)"

definition pio_sector :: "drive ata \<Rightarrow> nat \<Rightarrow> u8 list" where
  "pio_sector s n = dr_disk (machine s) n"

lemma pio_ready_frame:
  assumes "pio_ready lat s" "tables s' = tables s" "idle (machine s')" "dr_busy (machine s') = 0"
    "\<forall>n. length (dr_disk (machine s') n) = 512"
  shows "pio_ready lat s'"
  using assms ata_ok_tables [OF assms(2)] unfolding pio_ready_def by (simp add: tables_def)

lemma pio_ready_parts:
  assumes "pio_ready lat s"
  shows "0 < length (g_ide_devices s)" "nat (g_selected_device s) < length (g_devices s)"
    "0 \<le> g_selected_device s" "g_selected_device s < g_device_count s"
    "dm_present (g_devices s ! nat (g_selected_device s))"
proof -
  have ok: "ata_ok s" "0 \<le> g_selected_device s" using assms by (simp_all add: pio_ready_def)
  then show "0 < length (g_ide_devices s)" "0 \<le> g_selected_device s" "g_selected_device s < g_device_count s"
    by (simp_all add: ata_ok_def)
  then show "nat (g_selected_device s) < length (g_devices s)" using selected_entry(1) [OF ok] by simp
  have "nat (g_selected_device s) < nat (g_device_count s)" using ok by (simp add: ata_ok_def)
  then show "dm_present (g_devices s ! nat (g_selected_device s))" using ok(1) by (simp add: ata_ok_def)
qed

lemma pio_ready_drive:
  assumes "pio_ready lat s"
  shows "id_io_base (g_ide_devices s ! 0) = 0x1F0" "id_present (g_ide_devices s ! 0)" "id_slave (g_ide_devices s ! 0) = 0"
    "dm_kind (g_devices s ! nat (g_selected_device s)) = DEV_IDE" "dm_source_index (g_devices s ! nat (g_selected_device s)) = 0"
    "length (dr_disk (machine s) n) = 512" "\<not> drive_drq (machine s)" "settles ATA_POLL_ATTEMPTS s" "lat < ATA_POLL_ATTEMPTS"
  using assms by (simp_all add: pio_ready_def settles_def idle_def)

text \<open>After the command register is written: the drive when it asks for the data of one sector.\<close>

definition issued :: "nat \<Rightarrow> u16 list \<Rightarrow> u8 \<Rightarrow> u32 \<Rightarrow> drive ata \<Rightarrow> drive ata" where
  "issued lat ident c lba s = calmed (s\<lparr>machine := drive_command lat ident c (select28 lba ((machine s)\<lparr>dr_busy := 0\<rparr>))\<rparr>)"

lemma command_fields:
  "dr_disk (drive_command lat ident c d) = dr_disk d" "dr_busy (drive_command lat ident c d) = lat"
  "drive_absent (drive_command lat ident c d) = drive_absent d"
  "c = 0x20 \<or> c = 0x30 \<Longrightarrow> dr_left (drive_command lat ident c d) = drive_sectors d - 1 \<and> \<not> dr_err (drive_command lat ident c d)"
  "dr_in (drive_command lat ident 0x20 d) = words_of (dr_disk d (drive_lba d))" "dr_out (drive_command lat ident 0x20 d) = None"
  "dr_in (drive_command lat ident 0x30 d) = []" "dr_out (drive_command lat ident 0x30 d) = Some (drive_lba d, [])"
  by (auto simp: drive_command_def drive_absent_def drive_lba_def Let_def)

lemma issued_fields:
  assumes "c = 0x20 \<or> c = 0x30"
  shows "tables (issued lat ident c lba s) = tables s" "passing (machine (issued lat ident c lba s))"
    "dr_left (machine (issued lat ident c lba s)) = 0" "\<not> dr_err (machine (issued lat ident c lba s))"
    "dr_disk (machine (issued lat ident c lba s)) = dr_disk (machine s)"
    "c = 0x20 \<Longrightarrow> dr_in (machine (issued lat ident c lba s)) = words_of (pio_sector s (unat lba mod 2 ^ 28))
       \<and> dr_out (machine (issued lat ident c lba s)) = None"
    "c = 0x30 \<Longrightarrow> dr_in (machine (issued lat ident c lba s)) = [] \<and> dr_out (machine (issued lat ident c lba s)) = Some (unat lba mod 2 ^ 28, [])"
proof -
  have *: "tables (s\<lparr>machine := m\<rparr>) = tables s" for m by (simp add: tables_def)
  have absent: "drive_absent (d\<lparr>dr_busy := b\<rparr>) = drive_absent d" for d b by (simp add: drive_absent_def)
  show "tables (issued lat ident c lba s) = tables s" "passing (machine (issued lat ident c lba s))"
    "dr_left (machine (issued lat ident c lba s)) = 0" "\<not> dr_err (machine (issued lat ident c lba s))"
    "dr_disk (machine (issued lat ident c lba s)) = dr_disk (machine s)"
    "c = 0x20 \<Longrightarrow> dr_in (machine (issued lat ident c lba s)) = words_of (pio_sector s (unat lba mod 2 ^ 28))
       \<and> dr_out (machine (issued lat ident c lba s)) = None"
    "c = 0x30 \<Longrightarrow> dr_in (machine (issued lat ident c lba s)) = [] \<and> dr_out (machine (issued lat ident c lba s)) = Some (unat lba mod 2 ^ 28, [])"
    using command_fields(4) [OF assms, of lat ident "select28 lba ((machine s)\<lparr>dr_busy := 0\<rparr>)"]
    by (simp_all add: issued_def passing_def command_fields absent drive_lba_select28 pio_sector_def *)
qed

lemma issue_pio:
  assumes ready: "pio_ready lat s" and c: "c = 0x20 \<or> c = 0x30"
  shows "ide_wait_ready (pio_hw lat ident) 0x1F0 s = (0, calmed s)"
    "ide_wait_drq (pio_hw lat ident) 0x1F0 (ide_setup (pio_hw lat ident) (g_ide_devices s ! 0) lba c (calmed s)) = (0, issued lat ident c lba s)"
proof -
  note r = pio_ready_drive [OF ready]
  show "ide_wait_ready (pio_hw lat ident) 0x1F0 s = (0, calmed s)" by (rule ready_pio [OF r(8)])
  let ?d = "select28 lba ((machine s)\<lparr>dr_busy := 0\<rparr>)"
  let ?t = "s\<lparr>machine := drive_command lat ident c ?d\<rparr>"
  have "words_of (dr_disk (machine s) n) \<noteq> []" for n
    using length_words_of [of "dr_disk (machine s) n"] r(6) [of n] by auto
  then have t: "settles ATA_POLL_ATTEMPTS ?t" "\<not> drive_absent (machine ?t)" "drive_drq (machine ?t)"
    using c r(9) command_fields(4) [OF c, of lat ident ?d] by (auto simp: settles_def drive_drq_def command_fields)
  have set: "ide_setup (pio_hw lat ident) (g_ide_devices s ! 0) lba c (calmed s) = ide_delay_400ns (pio_hw lat ident) 0x1F0 ?t"
    by (subst setup_pio) (use r in \<open>simp_all add: calmed_def\<close>)
  have c1: "calmer ?t (ide_delay_400ns (pio_hw lat ident) 0x1F0 ?t)" by (rule calmer_delay)
  then have "\<not> drive_absent (machine (ide_delay_400ns (pio_hw lat ident) 0x1F0 ?t))"
    "drive_drq (machine (ide_delay_400ns (pio_hw lat ident) 0x1F0 ?t))"
    using t(2,3) by (auto elim!: calmerE simp: drive_absent_def)
  from drq_pio [OF settles_calmer [OF c1 t(1)] this] calmed_calmer [OF c1]
  show "ide_wait_drq (pio_hw lat ident) 0x1F0 (ide_setup (pio_hw lat ident) (g_ide_devices s ! 0) lba c (calmed s)) = (0, issued lat ident c lba s)"
    by (simp add: set issued_def)
qed

lemma pio_read:
  assumes ready: "pio_ready lat s" and len: "512 \<le> length bs"
  shows "\<exists>s'. ata_read_sector (pio_hw lat ident) lba (Some (a, bs)) s =
      Some (0, Some (a, pio_sector s (unat lba mod 2 ^ 28) @ drop 512 bs), s')
    \<and> pio_ready lat s' \<and> pio_sector s' = pio_sector s"
proof -
  let ?hw = "pio_hw lat ident"
  note p = pio_ready_parts [OF ready]
  note r = pio_ready_drive [OF ready]
  note i = issue_pio(1) [OF ready disjI1 [OF refl], of ident] issue_pio(2) [OF ready disjI1 [OF refl], of ident lba]
  let ?s2 = "issued lat ident 0x20 lba s"
  note f = issued_fields [OF disjI1 [OF refl], of lat ident lba s]
  have in2: "dr_in (machine ?s2) = words_of (pio_sector s (unat lba mod 2 ^ 28))" "dr_out (machine ?s2) = None"
    using f(6) by simp_all
  let ?ws = "words_of (pio_sector s (unat lba mod 2 ^ 28))"
  let ?s3 = "?s2\<lparr>machine := (machine ?s2)\<lparr>dr_in := []\<rparr>\<rparr>"
  have ws: "length ?ws = 256" "bytes_of ?ws = pio_sector s (unat lba mod 2 ^ 28)"
    by (simp_all add: length_words_of bytes_of_words_of pio_sector_def r(6))
  have "read_data ?hw 0x1F0 [0..<0 + length ?ws] bs ?s2 =
      Some (take (2 * 0) bs @ bytes_of ?ws @ drop (2 * (0 + length ?ws)) bs, ?s3)"
    by (rule read_data_pio) (use f in2 ws len in simp_all)
  then have "read_data ?hw 0x1F0 [0..<256] bs ?s2 =
      Some (pio_sector s (unat lba mod 2 ^ 28) @ drop 512 bs, ?s3)" unfolding ws by simp
  then have "ide_read_sector ?hw 0 lba (Some bs) s =
      Some (0, Some (pio_sector s (unat lba mod 2 ^ 28) @ drop 512 bs), error_ok ?s3)"
    using i p(1) r by (simp add: ide_read_sector_def)
  moreover have "pio_ready lat (error_ok ?s3)"
    by (rule pio_ready_frame [OF ready])
      (use f in2 r(6) in \<open>simp_all add: error_ok_def tables_def idle_def drive_drq_def passing_def\<close>)
  moreover have "pio_sector (error_ok ?s3) = pio_sector s" using f(5) by (simp add: pio_sector_def error_ok_def fun_eq_iff)
  ultimately show ?thesis using p r by (simp add: ata_read_sector_def)
qed

lemma pio_write:
  assumes ready: "pio_ready lat s" and len: "512 \<le> length bs"
  shows "\<exists>s'. ata_write_sector (pio_hw lat ident) lba (Some (a, bs)) s = Some (0, s')
    \<and> pio_ready lat s' \<and> pio_sector s' = (pio_sector s)(unat lba mod 2 ^ 28 := take 512 bs)"
proof -
  let ?hw = "pio_hw lat ident" and ?l = "unat lba mod 2 ^ 28"
  note p = pio_ready_parts [OF ready]
  note r = pio_ready_drive [OF ready]
  note i = issue_pio(1) [OF ready disjI2 [OF refl], of ident] issue_pio(2) [OF ready disjI2 [OF refl], of ident lba]
  let ?s2 = "issued lat ident 0x30 lba s"
  note f = issued_fields [OF disjI2 [OF refl], of lat ident lba s]
  have out2: "dr_in (machine ?s2) = []" "dr_out (machine ?s2) = Some (?l, [])" using f(7) by simp_all
  let ?s3 = "?s2\<lparr>machine := (machine ?s2)\<lparr>dr_disk := (dr_disk (machine ?s2))(?l := take 512 bs), dr_busy := lat,
      dr_out := None, dr_next := dr_next (machine ?s2) + 1, dr_left := 0\<rparr>\<rparr>"
  have 3: "write_data ?hw 0x1F0 [0..<256] bs ?s2 = Some ?s3" by (rule write_sector_pio [OF f(2,3) out2(2) len])
  have "settles ATA_POLL_ATTEMPTS ?s3" using f(2,4) r(9) by (simp add: settles_def passing_def drive_absent_def)
  note 4 = not_busy_pio [OF this, of lat ident]
  have "ide_write_sector ?hw 0 lba (Some bs) s = Some (0, error_ok (calmed ?s3))"
    using i 3 4 p(1) r by (simp add: ide_write_sector_def)
  moreover have "pio_ready lat (error_ok (calmed ?s3))"
    by (rule pio_ready_frame [OF ready])
      (use f out2 r(6) len in \<open>simp_all add: error_ok_def tables_def idle_def drive_drq_def calmed_def\<close>)
  moreover have "pio_sector (error_ok (calmed ?s3)) = (pio_sector s)(?l := take 512 bs)"
    using f(5) by (simp add: pio_sector_def error_ok_def fun_eq_iff calmed_def)
  ultimately show ?thesis using p r by (simp add: ata_write_sector_def)
qed

lemma pio_flush:
  assumes ready: "pio_ready lat s"
  shows "\<exists>r s'. ata_flush (pio_hw lat ident) s = Some (r, s') \<and> pio_ready lat s' \<and> pio_sector s' = pio_sector s"
proof -
  let ?hw = "pio_hw lat ident"
  note p = pio_ready_parts [OF ready]
  note r = pio_ready_drive [OF ready]
  let ?s2 = "s\<lparr>machine := (machine s)\<lparr>dr_busy := 0, dr_sel := 0xA0\<rparr>\<rparr>"
  have sel: "outb ?hw 0x1F6 0xA0 (calmed s) = ?s2" using r(7) by (simp add: drive_outb_def calmed_def drive_drq_def)
  have delay: "ide_delay_400ns ?hw 0x1F0 ?s2 = ?s2" by (rule delay_calm) simp
  let ?s3 = "s\<lparr>machine := drive_command lat ident 0xE7 ((machine s)\<lparr>dr_busy := 0, dr_sel := 0xA0\<rparr>)\<rparr>"
  have 3: "outb ?hw 0x1F7 0xE7 ?s2 = ?s3" using r(7) by (simp add: drive_outb_def drive_drq_def drive_absent_def)
  have "dr_busy (machine ?s3) = lat" "\<not> dr_err (machine ?s3)" "\<not> drive_absent (machine ?s3)"
    by (simp_all add: drive_command_def drive_absent_def Let_def)
  then have "settles ATA_POLL_ATTEMPTS ?s3" using r(9) by (simp add: settles_def)
  note 4 = not_busy_pio [OF this, of lat ident]
  have "ide_flush_cache ?hw 0 s = Some (0, error_ok (calmed ?s3))"
    using ready_pio [OF r(8), of lat ident] sel delay 3 4 p(1) r by (simp add: ide_flush_cache_def del: pio_ports)
  moreover have "pio_ready lat (error_ok (calmed ?s3))"
    by (rule pio_ready_frame [OF ready])
      (use r(6) in \<open>simp_all add: error_ok_def tables_def idle_def drive_drq_def calmed_def drive_command_def Let_def\<close>)
  moreover have "pio_sector (error_ok (calmed ?s3)) = pio_sector s"
    by (simp add: pio_sector_def error_ok_def fun_eq_iff calmed_def command_fields)
  ultimately show ?thesis using p r by (simp add: ata_flush_def)
qed

text \<open>The driver on this drive is a sector device, for every latency below the driver's patience.\<close>

interpretation pio: sector_device "ata_read_sector (pio_hw lat ident)" "ata_write_sector (pio_hw lat ident)"
  "ata_flush (pio_hw lat ident)" "pio_ready lat" pio_sector "2 ^ 28" for lat ident
proof (unfold_locales, goal_cases)
  case (1 s n)
  then show ?case by (simp add: pio_ready_def pio_sector_def)
next
  case 2
  show ?case by simp
next
  case (3 s lba bs a)
  with pio_read [of lat s bs ident lba a] show ?case by simp
next
  case (4 s lba bs a)
  with pio_write [of lat s bs ident lba a] show ?case by simp
next
  case (5 s)
  then show ?case by (rule pio_flush)
qed

end
