(* ===== verification/AtaModel.thy ===== *)
theory AtaModel
  imports AtaSpec
begin

text \<open>
  The model strings: what \<open>extract_model_from_identify\<close> and \<open>add_prefixed_model\<close> leave in their 41
  byte arrays, and with that the scan: every table operation keeps the invariant.
\<close>

definition word_chars :: "u16 \<Rightarrow> char list" where
  "word_chars w = [char_of_byte (ucast (drop_bit 8 w)), char_of_byte (ucast (w AND 0xFF))]"

definition rstrip :: "char list \<Rightarrow> char list" where
  "rstrip xs = rev (dropWhile (\<lambda>c. c = CHR '' '' \<or> c = NUL) (rev xs))"

definition model_text :: "u16 list \<Rightarrow> char list" where
  "model_text ident = rstrip (concat (map word_chars (take 20 (drop 27 ident))))"

lemma model_words_eq:
  "a + n \<le> length ident \<Longrightarrow> p + 2 * n \<le> length out \<Longrightarrow>
    model_words [a..<a + n] ident p out =
      Some (take p out @ concat (map word_chars (take n (drop a ident))) @ drop (p + 2 * n) out)"
proof (induction n arbitrary: a p out)
  case 0
  then show ?case by simp
next
  case (Suc n)
  let ?w = "ident ! a"
  let ?out = "out[p := char_of_byte (ucast (drop_bit 8 ?w)), p + 1 := char_of_byte (ucast (?w AND 0xFF))]"
  have u: "[a..<a + Suc n] = a # [Suc a..<Suc a + n]" by (simp add: upt_conv_Cons)
  have ih: "model_words [Suc a..<Suc a + n] ident (p + 2) ?out =
      Some (take (p + 2) ?out @ concat (map word_chars (take n (drop (Suc a) ident))) @ drop (p + 2 + 2 * n) ?out)"
    by (rule Suc.IH) (use Suc.prems in auto)
  have "take (p + 2) ?out = take p out @ word_chars ?w"
    using Suc.prems by (intro nth_equalityI) (auto simp: word_chars_def nth_append nth_list_update nth_Cons')
  moreover have "drop a ident = ?w # drop (Suc a) ident" using Suc.prems by (simp add: Cons_nth_drop_Suc)
  moreover have "drop (p + 2 + 2 * n) ?out = drop (p + 2 * Suc n) out" by simp
  ultimately show ?case
    using ih Suc.prems unfolding u by (simp add: wr_def rd_def del: upt_Suc)
qed

lemma model_trim_eq:
  "model_trim (length xs) (xs @ ys) = Some (rstrip xs @ replicate (length xs - length (rstrip xs)) NUL @ ys)"
proof (induction xs arbitrary: ys rule: rev_induct)
  case Nil
  then show ?case by (simp add: rstrip_def)
next
  case (snoc x xs)
  have le: "length (rstrip xs) \<le> length xs"
    using length_dropWhile_le [of _ "rev xs"] by (simp add: rstrip_def)
  show ?case
  proof (cases "x = CHR '' '' \<or> x = NUL")
    case True
    then have "rstrip (xs @ [x]) = rstrip xs" by (simp add: rstrip_def)
    moreover have "NUL # ys = [NUL] @ ys" by simp
    moreover have "replicate (Suc (length xs) - length (rstrip xs)) NUL
        = replicate (length xs - length (rstrip xs)) NUL @ [NUL]"
      using le by (simp add: Suc_diff_le replicate_append_same)
    ultimately show ?thesis
      using True snoc [of "NUL # ys"] by (simp add: rd_def wr_def list_update_append)
  next
    case False
    then show ?thesis by (simp add: rstrip_def rd_def)
  qed
qed

lemma rstrip_length: "length (rstrip xs) \<le> length xs"
  using length_dropWhile_le [of _ "rev xs"] by (simp add: rstrip_def)

lemma concat_word_chars_length: "length (concat (map word_chars ws)) = 2 * length ws"
  by (induction ws) (simp_all add: word_chars_def)

lemma extract_model_eq:
  assumes "length ident = 256" "length out = 41"
  shows "extract_model_from_identify ident out =
    Some (model_text ident @ replicate (41 - length (model_text ident)) NUL)"
proof -
  let ?t = "concat (map word_chars (take 20 (drop 27 ident)))"
  have len: "length ?t = 40" using assms by (simp add: concat_word_chars_length)
  have "model_words [27..<27 + 20] ident 0 out = Some (take 0 out @ ?t @ drop (0 + 2 * 20) out)"
    by (rule model_words_eq) (use assms in simp_all)
  moreover obtain z where "drop 40 out = [z]"
  proof -
    have "length (drop 40 out) = 1" using assms(2) by simp
    then show thesis using that by (metis One_nat_def length_0_conv length_Suc_conv)
  qed
  moreover have "model_trim (length ?t) (?t @ [NUL])
      = Some (rstrip ?t @ replicate (length ?t - length (rstrip ?t)) NUL @ [NUL])"
    by (rule model_trim_eq)
  moreover have "replicate (40 - length (rstrip ?t)) NUL @ [NUL] = replicate (41 - length (rstrip ?t)) NUL"
  proof -
    have "41 - length (rstrip ?t) = Suc (40 - length (rstrip ?t))" using rstrip_length [of ?t] len by simp
    then show ?thesis by (simp only: replicate_Suc replicate_append_same)
  qed
  ultimately show ?thesis
    using len by (simp add: extract_model_from_identify_def model_text_def wr_def list_update_append)
qed

lemma model_text_length:
  assumes "length ident = 256"
  shows "length (model_text ident) \<le> 40"
proof -
  have "length (model_text ident) \<le> length (concat (map word_chars (take 20 (drop 27 ident))))"
    unfolding model_text_def by (rule rstrip_length)
  then show ?thesis using assms by (simp add: concat_word_chars_length)
qed

lemma extract_model_ok:
  assumes "length ident = 256" "length out = 41"
  shows "\<exists>m. extract_model_from_identify ident out = Some m \<and> model_ok m"
  using model_text_length [OF assms(1)] by (auto simp: extract_model_eq [OF assms] model_ok_def)

text \<open>The loop that copies into a 41 byte array from position \<open>p\<close>.\<close>

lemma copy_bounded_total:
  "NUL \<in> set src \<Longrightarrow> p \<le> 40 \<Longrightarrow> length out = 41 \<Longrightarrow>
    \<exists>out' q. copy_bounded src p out = Some (out', q) \<and> length out' = 41 \<and> q \<le> 40"
  by (induction src p out rule: copy_bounded.induct) auto

lemma add_prefixed_model_ok:
  assumes "NUL \<in> set pre" "NUL \<in> set m" "length out = 41"
  shows "\<exists>r. add_prefixed_model out pre m = Some r \<and> model_ok r"
proof -
  obtain o1 p where 1: "copy_bounded pre 0 out = Some (o1, p)" "length o1 = 41" "p \<le> 40"
    using copy_bounded_total [OF assms(1) _ assms(3)] by blast
  obtain o2 q where 2: "copy_bounded m p o1 = Some (o2, q)" "length o2 = 41" "q \<le> 40"
    using copy_bounded_total [OF assms(2) 1(3,2)] by blast
  have "NUL \<in> set (o2[q := NUL])" using 2(2,3) by (simp add: set_update_memI)
  with 1 2 show ?thesis by (simp add: add_prefixed_model_def wr_def model_ok_def)
qed

lemma kstrcpy_model:
  assumes "model_ok d" "model_ok m"
  shows "\<exists>r. kstrcpy d m = Some r \<and> model_ok r"
proof -
  have "NUL \<in> set m" "length m = 41" using assms(2) by (simp_all add: model_ok_def)
  then obtain t where t: "m = cstr m @ NUL # t" using cstr_split by blast
  have "length (cstr m) < 41" using length_cstr_less [OF \<open>NUL \<in> set m\<close>] \<open>length m = 41\<close> by simp
  then show ?thesis
    using assms(1) by (subst t) (simp add: kstrcpy_eq model_ok_def)
qed

subsection \<open>Scanning\<close>

lemma busy_loop_keeps:
  assumes "ide_busy_loop hw b st s = Some s'"
  shows "tables s' = tables s"
  using assms
proof (rule ide_busy_loop.raw_induct [rotated, where P = "\<lambda>hw b st s s'. tables s' = tables s"])
  fix rec :: "'h hw \<Rightarrow> u16 \<Rightarrow> u8 \<Rightarrow> 'h ata \<Rightarrow> 'h ata option" and hw :: "'h hw" and b st s s'
  assume ih: "\<And>hw b st s s'. rec hw b st s = Some s' \<Longrightarrow> tables s' = tables s"
    and step: "(if st AND ATA_SR_BSY \<noteq> 0
      then case inb hw (b + IDE_REG_STATUS) s of (st', s') \<Rightarrow> rec hw b st' s' else Some s) = Some s'"
  obtain st1 s1 where i: "inb hw (b + IDE_REG_STATUS) s = (st1, s1)" by fastforce
  then have "tables s1 = tables s" using keeps_ports(1) [of hw "b + IDE_REG_STATUS" s] by simp
  with step i ih [of hw b st1 s1] show "tables s' = tables s" by (auto split: if_splits)
qed

text \<open>The hardware that never keeps a device busy for ever, as far as the probe can see.\<close>

definition busy_ends :: "'h hw \<Rightarrow> bool" where
  "busy_ends hw \<longleftrightarrow> (\<forall>b st s. ide_busy_loop hw b st s \<noteq> None)"

lemma read_words_length: "length (fst (read_words hw b n s)) = n"
  by (induction n arbitrary: s) (simp_all add: split_beta Let_def)

lemma put_ide_ok:
  assumes "ata_ok s" "model_ok (id_model d)"
  shows "ata_ok (put_ide i d s)"
  using assms set_update_subset_insert [of "g_ide_devices s" i d] by (auto simp: ata_ok_def put_ide_def)

lemma ide_probe_ok:
  assumes ok: "ata_ok s" and ends: "busy_ends hw"
  shows "\<exists>r s'. ide_probe_device hw index s = Some (r, s') \<and> ata_ok s'
    \<and> g_selected_device s' = g_selected_device s"
proof (cases "index < 0 \<or> index \<ge> int ATA_MAX_IDE_DEVICES")
  case True
  with ok show ?thesis by (simp add: ide_probe_device_def)
next
  case False
  then have i: "nat index < length (g_ide_devices s)" using ok by (auto simp: ata_ok_def)
  define dev0 where "dev0 = g_ide_devices s ! nat index"
  let ?dev = "dev0\<lparr>id_present := False, id_sectors28 := 0,
    id_model := replicate 41 NUL, id_identify := replicate 256 0\<rparr>"
  let ?b = "id_io_base dev0"
  define s1 where "s1 = outb hw (?b + IDE_REG_COMMAND) ATA_CMD_IDENTIFY (outb hw (?b + IDE_REG_LBA2) 0
    (outb hw (?b + IDE_REG_LBA1) 0 (outb hw (?b + IDE_REG_LBA0) 0 (outb hw (?b + IDE_REG_SECCOUNT0) 0
    (ide_delay_400ns hw ?b (outb hw (?b + IDE_REG_HDDEVSEL) (0xA0 OR push_bit 4 (id_slave dev0))
    (put_ide (nat index) ?dev s)))))))"
  have t1: "tables s1 = tables (put_ide (nat index) ?dev s)" by (simp add: s1_def keeps)
  have dev_ok: "model_ok (id_model ?dev)" by (simp add: model_ok_def)
  have good: "ata_ok s' \<and> g_selected_device s' = g_selected_device s"
    if "tables s' = tables (put_ide (nat index) ?dev s)" for s'
    using ata_ok_tables [OF that] put_ide_ok [OF ok dev_ok] that by (simp add: tables_def put_ide_def)
  obtain status s2 where 2: "inb hw (?b + IDE_REG_STATUS) s1 = (status, s2)" by fastforce
  then have t2: "tables s2 = tables (put_ide (nat index) ?dev s)" using keeps_ports(1) [of hw "?b + IDE_REG_STATUS" s1] t1 by simp
  obtain s3 where 3: "ide_busy_loop hw ?b status s2 = Some s3"
    using ends unfolding busy_ends_def by (metis not_None_eq)
  have t3: "tables s3 = tables (put_ide (nat index) ?dev s)" using busy_loop_keeps [OF 3] t2 by simp
  obtain lba1 s4 where 4: "inb hw (?b + IDE_REG_LBA1) s3 = (lba1, s4)" by fastforce
  then have t4: "tables s4 = tables (put_ide (nat index) ?dev s)" using keeps_ports(1) [of hw "?b + IDE_REG_LBA1" s3] t3 by simp
  obtain lba2 s5 where 5: "inb hw (?b + IDE_REG_LBA2) s4 = (lba2, s5)" by fastforce
  then have t5: "tables s5 = tables (put_ide (nat index) ?dev s)" using keeps_ports(1) [of hw "?b + IDE_REG_LBA2" s4] t4 by simp
  obtain drq s6 where 6: "ide_wait_drq hw ?b s5 = (drq, s6)" by fastforce
  then have t6: "tables s6 = tables (put_ide (nat index) ?dev s)" using keeps_waits(2) [of hw ?b s5] t5 by simp
  obtain ws s7 where 7: "read_words hw ?b 256 s6 = (ws, s7)" by fastforce
  then have t7: "tables s7 = tables (put_ide (nat index) ?dev s)" using keeps_read_words [of hw ?b 256 s6] t6 by simp
  have len: "length ws = 256" using 7 read_words_length [of hw ?b 256 s6] by simp
  obtain m where m: "extract_model_from_identify ws (id_model ?dev) = Some m" "model_ok m"
    using extract_model_ok [OF len, of "id_model ?dev"] by auto
  let ?s = "put_ide (nat index) (?dev\<lparr>id_present := True, id_identify := ws,
    id_sectors28 := ucast (ws ! 60) OR push_bit 16 (ucast (ws ! 61)), id_model := m\<rparr>) s7"
  have "ata_ok ?s \<and> g_selected_device ?s = g_selected_device s"
    using put_ide_ok [of s7 "?dev\<lparr>id_present := True, id_identify := ws,
      id_sectors28 := ucast (ws ! 60) OR push_bit 16 (ucast (ws ! 61)), id_model := m\<rparr>"] good [OF t7] m(2)
    by (simp add: put_ide_def)
  moreover have "ide_probe_device hw index s =
    (if status = 0 then Some (-1, s2) else if lba1 \<noteq> 0 \<or> lba2 \<noteq> 0 then Some (-1, s5)
     else if drq \<noteq> 0 then Some (-1, s6) else Some (0, ?s))"
    using False i len m(1)
    by (simp add: ide_probe_device_def Let_def rd_def dev0_def [symmetric] s1_def [symmetric] 2 3 4 5 6 7)
  ultimately show ?thesis using good [OF t2] good [OF t5] good [OF t6]
    by (cases "status = 0"; cases "lba1 \<noteq> 0 \<or> lba2 \<noteq> 0"; cases "drq \<noteq> 0") simp_all
qed

lemma add_device_map_ok:
  assumes "ata_ok s" "model = None \<or> model_ok (the model)"
    and "kind = DEV_IDE \<and> uint src < int ATA_MAX_IDE_DEVICES \<or> kind = DEV_AHCI \<and> uint src < int ATA_MAX_AHCI_DEVICES"
  shows "\<exists>s'. add_device_map kind src base slave sec model s = Some s' \<and> ata_ok s'
    \<and> g_selected_device s' = g_selected_device s \<and> g_ahci_count s' = g_ahci_count s"
proof (cases "g_device_count s \<ge> int ATA_MAX_DEVICES")
  case True
  with assms(1) show ?thesis by (simp add: add_device_map_def)
next
  case False
  let ?i = "nat (g_device_count s)"
  have i: "?i < length (g_devices s)" "0 \<le> g_device_count s" using assms(1) False by (auto simp: ata_ok_def)
  have e: "model_ok (dm_model (g_devices s ! ?i))" using assms(1) i by (auto simp: ata_ok_def map_entry_ok_def)
  obtain m where m: "(case model of Some t \<Rightarrow> kstrcpy (dm_model (g_devices s ! ?i)) t
      | None \<Rightarrow> wr (dm_model (g_devices s ! ?i)) 0 NUL) = Some m" "model_ok m"
  proof (cases model)
    case None
    with that e show thesis by (fastforce simp: wr_def model_ok_def intro: set_update_memI)
  next
    case (Some t)
    with that kstrcpy_model [OF e, of t] assms(2) show thesis by auto
  qed
  let ?e = "(g_devices s ! ?i)\<lparr>dm_present := True, dm_kind := kind, dm_source_index := src,
    dm_io_base := base, dm_slave := slave, dm_sectors28 := sec, dm_model := m\<rparr>"
  have eok: "map_entry_ok ?e" using m(2) assms(3) by (auto simp: map_entry_ok_def)
  have n: "nat (g_device_count s + 1) = Suc ?i" using i(2) by simp
  have "ata_ok (s\<lparr>g_devices := (g_devices s)[?i := ?e], g_device_count := g_device_count s + 1\<rparr>)"
    using assms(1) eok i False set_update_subset_insert [of "g_devices s" ?i ?e]
    by (auto simp: ata_ok_def n less_Suc_eq nth_list_update)
  then show ?thesis using m(1) False i
    by (simp add: add_device_map_def Let_def)
qed

lemma scan_ide_ok:
  assumes "busy_ends hw"
  shows "ata_ok s \<Longrightarrow> set is \<subseteq> {..<ATA_MAX_IDE_DEVICES} \<Longrightarrow>
    \<exists>s'. scan_ide hw is s = Some s' \<and> ata_ok s' \<and> g_selected_device s' = g_selected_device s"
proof (induction "is" arbitrary: s)
  case Nil
  then show ?case by simp
next
  case (Cons i "is")
  obtain r s1 where 1: "ide_probe_device hw (int i) s = Some (r, s1)" "ata_ok s1"
    "g_selected_device s1 = g_selected_device s"
    using ide_probe_ok [OF Cons.prems(1) assms] by blast
  have i: "i < length (g_ide_devices s1)" "i < ATA_MAX_IDE_DEVICES" using 1(2) Cons.prems(2) by (auto simp: ata_ok_def)
  let ?d = "g_ide_devices s1 ! i"
  have m: "model_ok (id_model ?d)" using 1(2) i by (auto simp: ata_ok_def)
  have u: "uint (word_of_nat i :: u8) < int ATA_MAX_IDE_DEVICES" using i(2) by (simp add: unsigned_of_nat take_bit_eq_mod)
  obtain s2 where 2: "(if r = 0 \<and> id_present ?d then add_device_map DEV_IDE (word_of_nat i) (id_io_base ?d)
      (id_slave ?d) (id_sectors28 ?d) (Some (id_model ?d)) s1 else Some s1) = Some s2" "ata_ok s2"
    "g_selected_device s2 = g_selected_device s1"
  proof (cases "r = 0 \<and> id_present ?d")
    case True
    have "Some (id_model ?d) = None \<or> model_ok (the (Some (id_model ?d)))" using m by simp
    from add_device_map_ok [OF 1(2) this, of DEV_IDE "word_of_nat i" "id_io_base ?d" "id_slave ?d" "id_sectors28 ?d"] u
    obtain s2 where "add_device_map DEV_IDE (word_of_nat i) (id_io_base ?d)
      (id_slave ?d) (id_sectors28 ?d) (Some (id_model ?d)) s1 = Some s2" "ata_ok s2"
      "g_selected_device s2 = g_selected_device s1" by blast
    with True that show thesis by simp
  next
    case False
    with that [of s1] 1(2) show thesis by simp
  qed
  obtain s' where "scan_ide hw is s2 = Some s'" "ata_ok s'" "g_selected_device s' = g_selected_device s2"
    using Cons.IH [OF 2(2)] Cons.prems(2) by auto
  with 1 2 i(1) show ?case by (simp del: One_nat_def)
qed

end
