(* ===== verification/AtaProps.thy ===== *)
theory AtaProps
  imports AtaModel
begin

text \<open>
  The scan of the AHCI controllers and the whole \<open>ata_scan\<close>, the driver's calls as a guarded machine,
  and the properties of the driver that hold for every hardware.
\<close>

subsection \<open>AHCI ports\<close>

lemma put_ahci_ok: "ata_ok s \<Longrightarrow> model_ok (ah_model d) \<Longrightarrow> ata_ok (put_ahci i d s)"
  using set_update_subset_insert [of "g_ahci_devices s" i d] by (auto simp: ata_ok_def put_ahci_def)

lemma keeps_outside [keeps]:
  "g_ahci_count (s\<lparr>g_ahci_ports_considered := n\<rparr>) = g_ahci_count s"
  "tables (s\<lparr>g_ahci_controllers_seen := n\<rparr>) = tables s"
  "tables (s\<lparr>g_ahci_bar64_rejected := n\<rparr>) = tables s"
  "tables (s\<lparr>g_ahci_ports_considered := n\<rparr>) = tables s"
  "tables (s\<lparr>g_dbg_pci_host_id := v\<rparr>) = tables s" "tables (s\<lparr>g_dbg_slot13_id := v\<rparr>) = tables s"
  "tables (s\<lparr>g_dbg_slot13_class := v\<rparr>) = tables s" "tables (s\<lparr>g_dbg_slot13_bar5 := v\<rparr>) = tables s"
  by (simp_all add: tables_def)

lemma keeps_pci [keeps]:
  "tables (snd (pci_read32 hw bus slot func off s)) = tables s"
  "tables (pci_write32 hw bus slot func off v s) = tables s"
  by (simp_all add: pci_read32_def pci_write32_def keeps)

lemma ahci_setup_port_total:
  assumes "index < length (g_ahci_devices s)"
  shows "\<exists>r s'. ahci_setup_port hw index s = Some (r, s') \<and> tables s' = tables s"
proof -
  have pair: "(\<exists>r s'. p = (r, s') \<and> tables s' = tables s) = (tables (snd p) = tables s)" for p :: "int \<times> 'a ata"
    by (cases p) simp
  show ?thesis using assms by (simp add: ahci_setup_port_def split_beta Let_def keeps pair)
qed

lemma identify_absent:
  assumes "index < length (g_ahci_devices s)" "\<not> ah_present (g_ahci_devices s ! index)"
  shows "ahci_identify hw index s = Some (-1, s\<lparr>g_last_error := ''AHCI device missing''\<rparr>)"
  using assms by (simp add: ahci_identify_def ahci_issue_def)

definition ahci_disk_model :: "char list" where
  "ahci_disk_model = c_str ''AHCI Disk'' @ replicate 31 NUL"

lemma register_port_eq:
  assumes ok: "ata_ok s" and room: "g_ahci_count s < int ATA_MAX_AHCI_DEVICES"
  obtains (fails) s' where "ahci_register_port hw port n s = Some (-1, s')" "ata_ok s'"
    "g_ahci_count s' = g_ahci_count s" "g_selected_device s' = g_selected_device s" "g_device_count s' = g_device_count s"
  | (found) s' where "ahci_register_port hw port n s = Some (0, s')" "ata_ok s'"
    "g_ahci_count s' = g_ahci_count s + 1" "g_selected_device s' = g_selected_device s" "g_device_count s' = g_device_count s"
    "g_ahci_devices s' ! nat (g_ahci_count s) = \<lparr>ah_present = True, ah_port = port, ah_port_no = n,
      ah_sectors28 = 0x0FFFFFFF, ah_model = ahci_disk_model\<rparr>"
proof -
  define i where "i = nat (g_ahci_count s)"
  have i: "i < length (g_ahci_devices s)" "0 \<le> g_ahci_count s" using ok room by (auto simp: ata_ok_def i_def)
  let ?d = "zero_ahci\<lparr>ah_port := port, ah_port_no := n\<rparr>"
  let ?s1 = "put_ahci i ?d s"
  have ok1: "ata_ok ?s1" by (rule put_ahci_ok [OF ok]) (simp add: zero_ahci_def model_ok_def)
  have i1: "i < length (g_ahci_devices ?s1)" using i by (simp add: put_ahci_def)
  obtain r s2 where 2: "ahci_setup_port hw i ?s1 = Some (r, s2)" "tables s2 = tables ?s1"
    using ahci_setup_port_total [OF i1] by blast
  have f2: "g_ahci_count s2 = g_ahci_count s" "g_selected_device s2 = g_selected_device s"
    "g_device_count s2 = g_device_count s" "g_ahci_devices s2 = (g_ahci_devices s)[i := ?d]"
    using 2(2) by (simp_all add: tables_def put_ahci_def)
  have ok2: "ata_ok s2" using ata_ok_tables [OF 2(2)] ok1 by simp
  show thesis
  proof (cases "r = 0")
    case False
    with 2 i room have "ahci_register_port hw port n s = Some (-1, s2)"
      by (simp add: ahci_register_port_def i_def [symmetric] Let_def)
    then show thesis by (rule fails [OF _ ok2]) (simp_all add: f2)
  next
    case True
    let ?s3 = "s2\<lparr>g_last_error := ''AHCI device missing''\<rparr>"
    have id: "ahci_identify hw i s2 = Some (-1, ?s3)"
      by (rule identify_absent) (use i in \<open>simp_all add: f2 zero_ahci_def\<close>)
    have m: "kstrcpy (ah_model ?d) (c_str ''AHCI Disk'') = Some ahci_disk_model"
      by (simp add: zero_ahci_def ahci_disk_model_def) code_simp
    let ?e = "\<lparr>ah_present = True, ah_port = port, ah_port_no = n,
      ah_sectors28 = 0x0FFFFFFF, ah_model = ahci_disk_model\<rparr>"
    let ?s4 = "(put_ahci i ?e ?s3)\<lparr>g_ahci_count := g_ahci_count s + 1\<rparr>"
    have "ahci_register_port hw port n s = Some (0, ?s4)"
      using 2 i room True id m
      by (simp add: ahci_register_port_def i_def [symmetric] Let_def f2 put_ahci_def zero_ahci_def)
    moreover have "ata_ok ?s3" using ok2 ata_ok_tables [of ?s3 s2] by (simp add: keeps)
    then have "ata_ok (put_ahci i ?e ?s3)"
      by (rule put_ahci_ok) (simp add: ahci_disk_model_def model_ok_def c_str_def)
    then have "ata_ok ?s4" using room i by (simp add: ata_ok_def)
    ultimately show thesis
      by (rule found) (use i in \<open>simp_all add: put_ahci_def f2 i_def\<close>)
  qed
qed

lemma probe_ports_ok:
  "ata_ok s \<Longrightarrow> \<exists>s'. probe_ports hw abar ports ns s = Some s' \<and> ata_ok s'
    \<and> g_selected_device s' = g_selected_device s \<and> g_device_count s' = g_device_count s"
proof (induction ns arbitrary: s)
  case Nil
  then show ?case by simp
next
  case (Cons n ns)
  have step: "\<exists>s'. probe_ports hw abar ports ns t = Some s' \<and> ata_ok s'
    \<and> g_selected_device s' = g_selected_device s \<and> g_device_count s' = g_device_count s"
    if "tables t = tables s" for t
    using Cons.IH [of t] Cons.prems ata_ok_tables [OF that] that by (simp add: tables_def)
  show ?case
  proof (cases "bit ports n \<and> g_ahci_count s < int ATA_MAX_AHCI_DEVICES")
    case False
    with Cons.prems step [of s] show ?thesis by (cases "bit ports n") (simp_all add: not_less)
  next
    case True
    let ?p = "abar + HBA_PORTS + 128 * n"
    obtain ssts s1 where 1: "mmio_get hw (?p + PORT_SSTS) s = (ssts, s1)" by fastforce
    then have t1: "tables s1 = tables s" using keeps_mmio(1) [of hw "?p + PORT_SSTS" s] by simp
    obtain g1 s2 where 2: "mmio_get hw (?p + PORT_SIG) s1 = (g1, s2)" by fastforce
    then have t2: "tables s2 = tables s" using keeps_mmio(1) [of hw "?p + PORT_SIG" s1] t1 by simp
    obtain g2 s3 where 3: "(if g1 \<noteq> SATA_SIG_ATA then mmio_get hw (?p + PORT_SIG) s2 else (g1, s2)) = (g2, s3)"
      by fastforce
    then have t3: "tables s3 = tables s" using keeps_mmio(1) [of hw "?p + PORT_SIG" s2] t2
      by (auto split: if_splits)
    obtain g3 s4 where 4: "(if g1 \<noteq> SATA_SIG_ATA \<and> g2 \<noteq> 0 then mmio_get hw (?p + PORT_SIG) s3 else (g2, s3)) = (g3, s4)"
      by fastforce
    then have t4: "tables s4 = tables s" using keeps_mmio(1) [of hw "?p + PORT_SIG" s3] t3
      by (auto split: if_splits)
    let ?s5 = "s4\<lparr>g_ahci_ports_considered := g_ahci_ports_considered s4 + 1\<rparr>"
    have t5: "tables ?s5 = tables s" using t4 by (simp add: keeps)
    have ok5: "ata_ok ?s5" using ata_ok_tables [OF t5] Cons.prems by simp
    have room5: "g_ahci_count ?s5 < int ATA_MAX_AHCI_DEVICES" using t5 True by (simp add: tables_def)
    obtain r s6 where 6: "ahci_register_port hw ?p (word_of_nat n) ?s5 = Some (r, s6)" "ata_ok s6"
      "g_selected_device s6 = g_selected_device s" "g_device_count s6 = g_device_count s"
      using t5 by (cases rule: register_port_eq [OF ok5 room5, of hw ?p "word_of_nat n"]) (auto simp: tables_def)
    obtain s7 where 7: "probe_ports hw abar ports ns s6 = Some s7" "ata_ok s7"
      "g_selected_device s7 = g_selected_device s" "g_device_count s7 = g_device_count s"
      using Cons.IH [OF 6(2)] 6(3,4) by auto
    have "probe_ports hw abar ports (n # ns) s =
      (if ssts AND 0xF \<noteq> 3 \<or> drop_bit 8 ssts AND 0xF \<noteq> 1 then probe_ports hw abar ports ns s1
       else if g1 \<noteq> SATA_SIG_ATA \<and> g2 \<noteq> 0 \<and> g3 \<noteq> 0xFFFFFFFF then probe_ports hw abar ports ns s4 else Some s7)"
      using True 1 2 3 4 6(1) 7(1) by (simp add: not_le Let_def cong del: if_weak_cong)
    with step [OF t1] step [OF t4] 7 show ?thesis
      by (cases "ssts AND 0xF \<noteq> 3 \<or> drop_bit 8 ssts AND 0xF \<noteq> 1";
          cases "g1 \<noteq> SATA_SIG_ATA \<and> g2 \<noteq> 0 \<and> g3 \<noteq> 0xFFFFFFFF") simp_all
  qed
qed


subsection \<open>Controllers\<close>

lemma scan_frame_ok:
  assumes "tables t = tables s" "ata_ok s"
  shows "ata_ok t" "g_selected_device t = g_selected_device s" "g_device_count t = g_device_count s"
  using ata_ok_tables [OF assms(1)] assms by (simp_all add: tables_def)

lemma ahci_probe_controller_ok:
  assumes "ata_ok s"
  shows "\<exists>s'. ahci_probe_controller hw bus slot func mode s = Some s' \<and> ata_ok s'
    \<and> g_selected_device s' = g_selected_device s \<and> g_device_count s' = g_device_count s"
proof -
  have keep: "\<exists>s'. Some t = Some s' \<and> ata_ok s'
    \<and> g_selected_device s' = g_selected_device s \<and> g_device_count s' = g_device_count s"
    if "tables t = tables s" for t
    using scan_frame_ok [OF that assms] by simp
  have ports: "\<exists>s'. probe_ports hw abar ports ns t = Some s' \<and> ata_ok s'
    \<and> g_selected_device s' = g_selected_device s \<and> g_device_count s' = g_device_count s"
    if "tables t = tables s" for abar ports ns t
    using probe_ports_ok [OF scan_frame_ok(1) [OF that assms], of hw abar ports ns]
      scan_frame_ok [OF that assms] by simp
  show ?thesis
    unfolding ahci_probe_controller_def Let_def split_beta
    by (intro impI conjI keep ports | split if_split | simp add: keeps split_beta del: upt_Suc)+
qed

lemma probe_all_ok:
  "ata_ok s \<Longrightarrow> \<exists>s'. probe_all hw fs s = Some s' \<and> ata_ok s'
    \<and> g_selected_device s' = g_selected_device s \<and> g_device_count s' = g_device_count s"
proof (induction fs arbitrary: s)
  case Nil
  then show ?case by simp
next
  case (Cons f fs)
  obtain bus slot func mode where f: "f = (bus, slot, func, mode)" by (cases f)
  obtain s1 where 1: "ahci_probe_controller hw bus slot func mode s = Some s1" "ata_ok s1"
    "g_selected_device s1 = g_selected_device s" "g_device_count s1 = g_device_count s"
    using ahci_probe_controller_ok [OF Cons.prems] by blast
  with Cons.IH [OF 1(2)] show ?case by (simp add: f)
qed

lemma ahci_scan_controllers_ok:
  assumes "ata_ok s"
  shows "\<exists>s'. ahci_scan_controllers hw s = Some s' \<and> ata_ok s'
    \<and> g_selected_device s' = g_selected_device s \<and> g_device_count s' = g_device_count s"
proof -
  let ?s = "s\<lparr>g_ahci_count := 0, g_ahci_controllers_seen := 0, g_ahci_bar64_rejected := 0,
       g_ahci_ports_considered := 0, g_ahci_devices := replicate ATA_MAX_AHCI_DEVICES zero_ahci\<rparr>"
  have "ata_ok ?s" using assms by (simp add: ata_ok_def zero_ahci_def model_ok_def)
  then obtain s1 where 1: "probe_all hw pci_functions ?s = Some s1" "ata_ok s1"
    "g_selected_device s1 = g_selected_device s" "g_device_count s1 = g_device_count s"
    using probe_all_ok [of ?s hw pci_functions] by auto
  moreover obtain s2 where "probe_all hw [(0, 13, 0, -1), (0, 31, 2, -1), (0, 31, 5, -1)] s1 = Some s2" "ata_ok s2"
    "g_selected_device s2 = g_selected_device s" "g_device_count s2 = g_device_count s"
    using probe_all_ok [OF 1(2)] 1(3,4) by metis
  ultimately show ?thesis by (simp add: ahci_scan_controllers_def del: probe_all.simps)
qed

lemma scan_ahci_ok:
  "ata_ok s \<Longrightarrow> set is \<subseteq> {..<ATA_MAX_AHCI_DEVICES} \<Longrightarrow>
    \<exists>s'. scan_ahci is s = Some s' \<and> ata_ok s' \<and> g_selected_device s' = g_selected_device s"
proof (induction "is" arbitrary: s)
  case Nil
  then show ?case by simp
next
  case (Cons i "is")
  have i: "i < length (g_ahci_devices s)" "i < ATA_MAX_AHCI_DEVICES" using Cons.prems by (auto simp: ata_ok_def)
  let ?d = "g_ahci_devices s ! i"
  have m: "model_ok (ah_model ?d)" using Cons.prems(1) i by (auto simp: ata_ok_def)
  have u: "uint (word_of_nat i :: u8) < int ATA_MAX_AHCI_DEVICES" using i(2) by (simp add: unsigned_of_nat take_bit_eq_mod)
  have "Some (ah_model ?d) = None \<or> model_ok (the (Some (ah_model ?d)))" using m by simp
  from add_device_map_ok [OF Cons.prems(1) this, of DEV_AHCI "word_of_nat i" 0 0 "ah_sectors28 ?d"] u
  obtain s1 where 1: "add_device_map DEV_AHCI (word_of_nat i) 0 0 (ah_sectors28 ?d) (Some (ah_model ?d)) s = Some s1"
    "ata_ok s1" "g_selected_device s1 = g_selected_device s" by blast
  have "set is \<subseteq> {..<ATA_MAX_AHCI_DEVICES}" using Cons.prems(2) by simp
  with Cons.IH [OF 1(2)] Cons.IH [OF Cons.prems(1)] 1 i(1) show ?case by (simp split: if_split)
qed

subsection \<open>The scan\<close>

lemma ata_scan_total:
  assumes ok: "ata_ok s" and ends: "busy_ends hw"
  shows "\<exists>s'. ata_scan hw s = Some (g_device_count s', s') \<and> ata_ok s'
    \<and> g_selected_device s' = (if g_device_count s' > 0 then 0 else -1)"
proof -
  let ?s0 = "clear_device_map (s\<lparr>g_selected_device := -1\<rparr>)"
  have ok0: "ata_ok ?s0" using ok by (simp add: ata_ok_def clear_device_map_def zero_map_def map_entry_ok_def model_ok_def)
  have sub: "set [0..<ATA_MAX_IDE_DEVICES] \<subseteq> {..<ATA_MAX_IDE_DEVICES}" by auto
  have sel: "g_selected_device ?s0 = -1" by (simp add: clear_device_map_def)
  obtain s1 where 1: "scan_ide hw [0..<ATA_MAX_IDE_DEVICES] ?s0 = Some s1" "ata_ok s1" "g_selected_device s1 = -1"
    using scan_ide_ok [OF ends ok0 sub] sel by metis
  define s2 where "s2 = (snd (pci_read32 hw 0 0 0 0 s1))\<lparr>g_dbg_pci_host_id := fst (pci_read32 hw 0 0 0 0 s1)\<rparr>"
  define s3 where "s3 = (snd (pci_read32 hw 0 13 0 0 s2))\<lparr>g_dbg_slot13_id := fst (pci_read32 hw 0 13 0 0 s2)\<rparr>"
  define s4 where "s4 = (snd (pci_read32 hw 0 13 0 8 s3))\<lparr>g_dbg_slot13_class := fst (pci_read32 hw 0 13 0 8 s3)\<rparr>"
  define s5 where "s5 = (snd (pci_read32 hw 0 13 0 0x24 s4))\<lparr>g_dbg_slot13_bar5 := fst (pci_read32 hw 0 13 0 0x24 s4)\<rparr>"
  have "tables s5 = tables s1" by (simp add: s5_def s4_def s3_def s2_def keeps)
  note s5 = scan_frame_ok [OF this 1(2)]
  let ?host = "fst (pci_read32 hw 0 0 0 0 s1)"
  obtain s6 where 6: "(if ?host AND 0xFFFF \<noteq> 0xFFFF then ahci_scan_controllers hw s5 else Some s5) = Some s6"
    "ata_ok s6" "g_selected_device s6 = -1"
    using ahci_scan_controllers_ok [OF s5(1), of hw] s5 1(3) by (cases "?host AND 0xFFFF \<noteq> 0xFFFF") auto
  have "set [0..<nat (g_ahci_count s6)] \<subseteq> {..<ATA_MAX_AHCI_DEVICES}" using 6(2) by (auto simp: ata_ok_def)
  then obtain s7 where 7: "scan_ahci [0..<nat (g_ahci_count s6)] s6 = Some s7" "ata_ok s7" "g_selected_device s7 = -1"
    using scan_ahci_ok [OF 6(2)] 6(3) by metis
  have ok7: "ata_ok (s7\<lparr>g_last_error := e\<rparr>)" for e using 7(2) by (simp add: ata_ok_def)
  have ok8: "ata_ok (error_ok (s7\<lparr>g_selected_device := 0\<rparr>))" if "g_device_count s7 > 0"
    using 7(2) that by (simp add: ata_ok_def error_ok_def)
  define s8 where "s8 = (if g_device_count s7 > 0 then error_ok (s7\<lparr>g_selected_device := 0\<rparr>)
       else if g_ahci_controllers_seen s7 > 0 \<and> g_ahci_count s7 = 0 then
         s7\<lparr>g_last_error :=
           (if g_ahci_bar64_rejected s7 > 0 then ''AHCI BAR above 4G unsupported''
            else if g_ahci_ports_considered s7 = 0 then ''AHCI found but no disk ports''
            else ''AHCI identify failed'')\<rparr>
       else if ?host AND 0xFFFF = 0xFFFF then s7\<lparr>g_last_error := ''PCI config space unavailable''\<rparr>
       else s7\<lparr>g_last_error := ''no supported disk controller''\<rparr>)"
  have "ata_scan hw s = Some (g_device_count s8, s8)"
  proof (cases "?host AND 0xFFFF = 0xFFFF")
    case True
    with 1(1) 6(1) 7(1) show ?thesis
      unfolding ata_scan_def Let_def split_beta s8_def
      by (simp add: s2_def [symmetric] s3_def [symmetric] s4_def [symmetric] s5_def [symmetric] del: upt_rec_numeral upt_conv_Cons)
  next
    case False
    with 1(1) 6(1) 7(1) show ?thesis
      unfolding ata_scan_def Let_def split_beta s8_def
      by (simp add: s2_def [symmetric] s3_def [symmetric] s4_def [symmetric] s5_def [symmetric] del: upt_rec_numeral upt_conv_Cons)
  qed
  moreover have "ata_ok s8 \<and> g_selected_device s8 = (if g_device_count s8 > 0 then 0 else -1)"
    unfolding s8_def using ok7 ok8 7(3) by (simp add: error_ok_def)
  ultimately show ?thesis by blast
qed

text \<open>A machine without any disk controller: every read gives 0.\<close>

definition bare_hw :: "unit hw" where
  "bare_hw = \<lparr>hw_inb = (\<lambda>p h. (0, h)), hw_outb = (\<lambda>p v h. h), hw_inw = (\<lambda>p h. (0, h)), hw_outw = (\<lambda>p v h. h),
     hw_inl = (\<lambda>p h. (0xFFFFFFFF, h)), hw_outl = (\<lambda>p v h. h), hw_mmio_read = (\<lambda>a h. (0, h)),
     hw_mmio_write = (\<lambda>a v h. h), hw_ram_get = (\<lambda>a n h. replicate n 0), hw_ram_put = (\<lambda>a bs h. h),
     hw_ctx_addr = 0x100000, hw_sector_addr = 0x110000, hw_payload_addr = 0x120000\<rparr>"

lemma bare_busy_ends: "busy_ends bare_hw"
proof -
  have ready: "ide_busy_loop bare_hw b 0 s = Some s" for b s by (subst ide_busy_loop.simps) simp
  have zero: "hw_inb bare_hw p h = (0, h)" for p h by (simp add: bare_hw_def)
  have "ide_busy_loop bare_hw b st s \<noteq> None" for b st s
    by (subst ide_busy_loop.simps) (simp add: inb_def zero ready)
  then show ?thesis by (simp add: busy_ends_def)
qed

text \<open>C25. A scan returns on hardware that does not keep a device busy for ever, from every state in
  which the tables are well formed: it returns the number of devices in the map, keeps the tables well
  formed, and selects the first device, or none if there is none.\<close>

theorem ata_scan_ok:
  assumes "ata_ok s" "busy_ends hw"
  shows "\<exists>s'. ata_scan hw s = Some (g_device_count s', s') \<and> ata_ok s'
    \<and> g_selected_device s' = (if g_device_count s' > 0 then 0 else -1)"
  using assms by (rule ata_scan_total)

theorem ata_scan_ok_witness:
  "\<exists>s'. ata_scan bare_hw (ata_boot ()) = Some (g_device_count s', s') \<and> ata_ok s'
    \<and> g_selected_device s' = (if g_device_count s' > 0 then 0 else -1)"
  by (rule ata_scan_ok [OF ata_boot_ok bare_busy_ends])

text \<open>On a floating bus every byte read is 0xFF, the busy bit included.\<close>

definition floating_bus :: "'h hw \<Rightarrow> bool" where
  "floating_bus hw \<longleftrightarrow> (\<forall>p h. fst (hw_inb hw p h) = 0xFF)"

lemma busy_loop_floating:
  assumes "floating_bus hw"
  shows "ide_busy_loop hw b 0xFF s = None"
proof -
  have "\<not> (floating_bus hw \<and> st = 0xFF)" if "ide_busy_loop hw b st s = Some s'" for hw :: "'h hw" and b st s s'
    using that
  proof (rule ide_busy_loop.raw_induct [rotated, where P = "\<lambda>hw b st s s'. \<not> (floating_bus hw \<and> st = 0xFF)"])
    fix rec :: "'h hw \<Rightarrow> u16 \<Rightarrow> u8 \<Rightarrow> 'h ata \<Rightarrow> 'h ata option" and hw :: "'h hw" and b st s s'
    assume ih: "\<And>hw b st s s'. rec hw b st s = Some s' \<Longrightarrow> \<not> (floating_bus hw \<and> st = 0xFF)"
      and step: "(if st AND ATA_SR_BSY \<noteq> 0
        then case inb hw (b + IDE_REG_STATUS) s of (st', s') \<Rightarrow> rec hw b st' s' else Some s) = Some s'"
    show "\<not> (floating_bus hw \<and> st = 0xFF)"
    proof
      assume f: "floating_bus hw \<and> st = 0xFF"
      obtain st1 s1 where i: "inb hw (b + IDE_REG_STATUS) s = (st1, s1)" by fastforce
      then have "st1 = fst (hw_inb hw (b + IDE_REG_STATUS) (machine s))" by (simp add: inb_def split_beta)
      then have "st1 = 0xFF" using f unfolding floating_bus_def by simp
      with step i f have "rec hw b 0xFF s1 = Some s'" by simp
      from ih [OF this] f show False by simp
    qed
  qed
  then show ?thesis using assms by (metis not_None_eq)
qed

text \<open>C36. The probe of an IDE position has no bound on its wait for the busy bit: where no drive pulls the
  data lines and every byte reads as 0xFF, the first probe of a scan does not return, from any state.\<close>

theorem ata_scan_floating_bus:
  assumes "ata_ok s" "floating_bus hw"
  shows "ata_scan hw s = None"
proof -
  have probe: "ide_probe_device hw 0 t = None" if "0 < length (g_ide_devices t)" for t
  proof -
    have st: "fst (inb hw p u) = 0xFF" for p u
      using assms(2) by (simp add: floating_bus_def inb_def split_beta)
    show ?thesis using that
      by (simp add: ide_probe_device_def Let_def rd_def split_beta st busy_loop_floating [OF assms(2)])
  qed
  have "ide_probe_device hw 0 (clear_device_map (s\<lparr>g_selected_device := -1\<rparr>)) = None"
    by (rule probe) (use assms(1) in \<open>simp add: clear_device_map_def ata_ok_def\<close>)
  moreover have "[0..<ATA_MAX_IDE_DEVICES] = 0 # [1..<ATA_MAX_IDE_DEVICES]" by (simp add: upt_conv_Cons)
  ultimately show ?thesis by (simp add: ata_scan_def del: upt_rec_numeral)
qed

definition floating_hw :: "unit hw" where
  "floating_hw = bare_hw\<lparr>hw_inb := \<lambda>p h. (0xFF, h)\<rparr>"

theorem ata_scan_floating_bus_witness: "ata_scan floating_hw (ata_boot ()) = None"
  by (rule ata_scan_floating_bus [OF ata_boot_ok]) (simp add: floating_bus_def floating_hw_def)

text \<open>Registering an AHCI port never keeps what the drive says about itself: whatever the hardware
  answers, a registered port has the model \<open>AHCI Disk\<close> and 0x0FFFFFFF sectors, because the port is marked
  present only after the identify command, and a command to a port that is not present is refused.\<close>

theorem ahci_register_port_default:
  assumes "ata_ok s" "ahci_register_port hw port n s = Some (0, s')"
  shows "cstr (ah_model (g_ahci_devices s' ! nat (g_ahci_count s))) = ''AHCI Disk''
    \<and> ah_sectors28 (g_ahci_devices s' ! nat (g_ahci_count s)) = 0x0FFFFFFF"
proof -
  have room: "g_ahci_count s < int ATA_MAX_AHCI_DEVICES"
    using assms(2) by (auto simp: ahci_register_port_def split: if_splits)
  have "cstr ahci_disk_model = ''AHCI Disk''" by (simp add: ahci_disk_model_def c_str_def) code_simp
  then show ?thesis
    using assms(2) by (cases rule: register_port_eq [OF assms(1) room, of hw port n]) simp_all
qed

lemma poll_attempts: "ATA_POLL_ATTEMPTS = Suc 999999"
  by (simp add: ATA_POLL_ATTEMPTS_def)

theorem ahci_register_port_default_witness:
  "\<exists>s'. ahci_register_port bare_hw 0x1000 0 (ata_boot ()) = Some (0, s')
    \<and> cstr (ah_model (g_ahci_devices s' ! nat (g_ahci_count (ata_boot ())))) = ''AHCI Disk''
    \<and> ah_sectors28 (g_ahci_devices s' ! nat (g_ahci_count (ata_boot ()))) = 0x0FFFFFFF"
proof -
  have zero: "mmio_get bare_hw a t = (0, t)" for a t by (simp add: bare_hw_def mmio_get_def)
  have same: "mmio_set bare_hw a v t = t" "ram_set bare_hw a bs t = t" for a v bs t
    by (simp_all add: bare_hw_def mmio_set_def ram_set_def)
  have stop: "ahci_stop_port bare_hw p t = (0, t)" for p t
    unfolding ahci_stop_port_def poll_attempts stop_port_loop.simps by (simp add: zero same)
  have start: "ahci_start_port bare_hw p t = (0, t)" for p t
    unfolding ahci_start_port_def poll_attempts wait_clear_loop.simps by (simp add: zero same)
  have ctxs: "ctx_cmd_list bare_hw 0 = 0x100000" "ctx_fis bare_hw 0 = 0x100400"
    by (simp_all add: ctx_cmd_list_def ctx_fis_def bare_hw_def)
  have ready: "ahci_setup_port bare_hw 0 t = Some (0, t)" if "0 < length (g_ahci_devices t)" for t
    using that by (simp add: ahci_setup_port_def stop start same ctxs)
  have boot: "g_ahci_count (ata_boot ()) = 0" "g_ahci_devices (ata_boot ()) = replicate 8 zero_ahci"
    by (simp_all add: ata_boot_def)
  have room: "g_ahci_count (ata_boot ()) < int ATA_MAX_AHCI_DEVICES" by (simp add: boot)
  have no_fail: "ahci_register_port bare_hw 0x1000 0 (ata_boot ()) \<noteq> Some (-1, t)" for t
    by (auto simp: ahci_register_port_def boot ready put_ahci_def split_beta bind_eq_Some_conv)
  obtain s' where s': "ahci_register_port bare_hw 0x1000 0 (ata_boot ()) = Some (0, s')"
    by (rule register_port_eq [OF ata_boot_ok room, of bare_hw "0x1000" 0]) (use no_fail in blast)+
  from ahci_register_port_default [OF ata_boot_ok s'] s' show ?thesis by blast
qed

subsection \<open>The calls\<close>

datatype ata_call =
    Scan
  | Select int
  | Get_info int "ata_device_info ptr"
  | Read "u32" "(nat \<times> u8 list) ptr"
  | Write "u32" "(nat \<times> u8 list) ptr"
  | Flush

fun ata_exec :: "'h hw \<Rightarrow> ata_call \<Rightarrow> 'h ata \<Rightarrow> (int \<times> 'h ata) option" where
  "ata_exec hw Scan s = ata_scan hw s"
| "ata_exec hw (Select i) s = ata_select_device s i"
| "ata_exec hw (Get_info i out) s = map_option (\<lambda>r. (fst r, s)) (ata_get_info s i out)"
| "ata_exec hw (Read lba buf) s = map_option (\<lambda>r. (fst r, snd (snd r))) (ata_read_sector hw lba buf s)"
| "ata_exec hw (Write lba buf) s = ata_write_sector hw lba buf s"
| "ata_exec hw Flush s = ata_flush hw s"

fun ata_call_ok :: "ata_call \<Rightarrow> 'h ata \<Rightarrow> bool" where
  "ata_call_ok (Get_info i out) s \<longleftrightarrow> out = None \<or> model_ok (in_model (the out))"
| "ata_call_ok (Read lba buf) s \<longleftrightarrow> buf = None \<or> 512 \<le> length (snd (the buf))"
| "ata_call_ok (Write lba buf) s \<longleftrightarrow> buf = None \<or> 512 \<le> length (snd (the buf))"
| "ata_call_ok call s \<longleftrightarrow> True"

lemma ata_get_info_total:
  assumes "ata_ok s" "out = None \<or> model_ok (in_model (the out))"
  shows "ata_get_info s i out \<noteq> None"
proof (cases "out = None \<or> i < 0 \<or> i \<ge> g_device_count s")
  case True
  then show ?thesis by (auto simp: ata_get_info_def split: option.splits)
next
  case False
  then obtain o0 where o: "out = Some o0" "model_ok (in_model o0)" using assms(2) by auto
  have i: "nat i < length (g_devices s)" "model_ok (dm_model (g_devices s ! nat i))"
    using assms(1) False by (auto simp: ata_ok_def map_entry_ok_def)
  from kstrcpy_model [OF o(2) i(2)] i(1) o(1) show ?thesis by (auto simp: ata_get_info_def)
qed

lemma ata_select_total:
  assumes "ata_ok s"
  shows "\<exists>r s'. ata_select_device s i = Some (r, s') \<and> ata_ok s'"
  using assms by (auto simp: ata_select_device_def ata_ok_def)

lemma ata_exec_ok:
  assumes "ata_ok s \<and> busy_ends hw" "ata_call_ok call s"
  shows "\<exists>r s'. ata_exec hw call s = Some (r, s') \<and> ata_ok s' \<and> busy_ends hw"
proof -
  have frame: "ata_ok t" if "tables t = tables s" for t using ata_ok_tables [OF that] assms(1) by simp
  have ok: "ata_ok s" and ends: "busy_ends hw" using assms(1) by simp_all
  show ?thesis
  proof (cases call)
    case Scan
    with ata_scan_total [OF ok ends] ends show ?thesis by (metis ata_exec.simps(1))
  next
    case (Select i)
    with ata_select_total [OF ok, of i] ends show ?thesis by simp
  next
    case (Get_info i out)
    with ata_get_info_total [OF ok, of out i] assms ok show ?thesis by auto
  next
    case (Read lba buf)
    with ata_read_sector_total [OF ok, of buf hw lba] assms(2) ends frame show ?thesis by auto
  next
    case (Write lba buf)
    with ata_write_sector_total [OF ok, of buf hw lba] assms(2) ends frame show ?thesis by auto
  next
    case Flush
    with ata_flush_total [OF ok, of hw] ends frame show ?thesis by auto
  qed
qed

interpretation atam: guarded_machine "ata_exec hw" ata_call_ok "\<lambda>s. ata_ok s \<and> busy_ends hw" for hw
  by unfold_locales (rule ata_exec_ok)

text \<open>C35. Any sequence of the driver's calls from the initial state, with buffers of at least 512 bytes,
  returns and stays inside every array and table of the driver, on every hardware that does not keep a
  device busy for ever: all its other answers are arbitrary.\<close>

theorem ata_run_safe:
  assumes "busy_ends hw" "guarded (ata_exec hw) ata_call_ok calls (ata_boot h)"
  shows "\<exists>rs s. run (ata_exec hw) calls (ata_boot h) = Some (rs, s) \<and> ata_ok s"
  using atam.run_inv [OF conjI [OF ata_boot_ok assms(1)] assms(2)] by blast

theorem ata_run_safe_witness:
  "\<exists>rs s. run (ata_exec bare_hw) [Scan, Select 3, Read 7 (Some (0x110000, replicate 512 0)), Flush] (ata_boot ())
    = Some (rs, s) \<and> ata_ok s"
  by (rule ata_run_safe [OF bare_busy_ends], rule atam.guarded_always)
    (auto simp: ata_boot_ok bare_busy_ends)

end
