(* ===== verification/PioScan.thy ===== *)
theory PioScan
  imports Pio AtaProps
begin

text \<open>
  The scan on a machine whose only disk is the drive of \<^theory_text>\<open>Pio\<close>: the driver finds it,
  reads its capacity and its model string, selects it, and is then a sector device.
\<close>

lemma busy_loop_pio:
  "settles (Suc n) s \<Longrightarrow> ide_busy_loop (pio_hw lat ident) 0x1F0 (fst (drive_inb 0x1F7 (machine s)))
      (s\<lparr>machine := snd (drive_inb 0x1F7 (machine s))\<rparr>) = Some (calmed s)"
proof (induction n arbitrary: s)
  case 0
  then show ?case
  proof (cases rule: poll_cases)
    case (free st)
    then show ?thesis by (subst ide_busy_loop.simps) simp
  next
    case (busy t)
    then show ?thesis by (simp add: settles_def)
  qed
next
  case (Suc n)
  from Suc.prems show ?case
  proof (cases rule: poll_cases)
    case (free st)
    then show ?thesis by (subst ide_busy_loop.simps) simp
  next
    case (busy t)
    have t: "s\<lparr>machine := machine t\<rparr> = t" using busy(2) by simp
    from Suc.IH [OF busy(3)] busy(1,4) show ?thesis by (subst ide_busy_loop.simps) (simp add: t)
  qed
qed

lemma read_words_pio:
  "passing (machine s) \<Longrightarrow> dr_left (machine s) = 0 \<Longrightarrow> dr_in (machine s) = ws @ rest \<Longrightarrow>
    read_words (pio_hw lat ident) 0x1F0 (length ws) s = (ws, s\<lparr>machine := (machine s)\<lparr>dr_in := rest\<rparr>\<rparr>)"
proof (induction ws arbitrary: s)
  case Nil
  then have "(machine s)\<lparr>dr_in := rest\<rparr> = machine s" by simp
  then show ?case by simp
next
  case (Cons w ws)
  let ?s = "s\<lparr>machine := (machine s)\<lparr>dr_in := ws @ rest\<rparr>\<rparr>"
  have "read_words (pio_hw lat ident) 0x1F0 (length ws) ?s = (ws, ?s\<lparr>machine := (machine ?s)\<lparr>dr_in := rest\<rparr>\<rparr>)"
    by (rule Cons.IH) (use Cons.prems in simp_all)
  with Cons.prems show ?case by (simp add: drive_inw_word)
qed

text \<open>A drive that has finished its reset: it is not busy and wants no data.\<close>

definition resting :: "drive \<Rightarrow> bool" where
  "resting d \<longleftrightarrow> dr_busy d = 0 \<and> \<not> drive_drq d"

text \<open>The second position of the channel and both of the other channel answer 0.\<close>

definition cleared :: "ide_device \<Rightarrow> ide_device" where
  "cleared d = d\<lparr>id_present := False, id_sectors28 := 0, id_model := replicate 41 NUL, id_identify := replicate 256 0\<rparr>"

lemma cleared_fields [simp]: "id_io_base (cleared d) = id_io_base d" "id_slave (cleared d) = id_slave d"
  by (simp_all add: cleared_def)

lemma probe_slave_pio:
  assumes "0 \<le> i" "i < 4" "nat i < length (g_ide_devices s)" "resting (machine s)"
    and "id_io_base (g_ide_devices s ! nat i) = 0x1F0" "id_slave (g_ide_devices s ! nat i) = 1"
  shows "ide_probe_device (pio_hw lat ident) i s = Some (-1, (put_ide (nat i) (cleared (g_ide_devices s ! nat i)) s)
    \<lparr>machine := (machine s)\<lparr>dr_sel := 0xB0, dr_count := 0, dr_l0 := 0, dr_l1 := 0, dr_l2 := 0\<rparr>\<rparr>)"
proof -
  let ?hw = "pio_hw lat ident"
  define s1 where "s1 = put_ide (nat i) (cleared (g_ide_devices s ! nat i)) s"
  let ?s2 = "s1\<lparr>machine := (machine s1)\<lparr>dr_sel := 0xB0\<rparr>\<rparr>"
  let ?s3 = "s1\<lparr>machine := (machine s1)\<lparr>dr_sel := 0xB0, dr_count := 0, dr_l0 := 0, dr_l1 := 0, dr_l2 := 0\<rparr>\<rparr>"
  have m: "machine s1 = machine s" by (simp add: s1_def put_ide_def)
  then have rest: "dr_busy (machine s1) = 0" "\<not> drive_drq (machine s1)" using assms(4) by (simp_all add: resting_def)
  have sel: "outb ?hw 0x1F6 0xB0 s1 = ?s2" by (simp add: task_file rest)
  have "ide_delay_400ns ?hw 0x1F0 ?s2 = ?s2" by (rule delay_calm) (simp add: rest)
  then have regs: "outb ?hw 0x1F7 0xEC (outb ?hw 0x1F5 0 (outb ?hw 0x1F4 0 (outb ?hw 0x1F3 0 (outb ?hw 0x1F2 0
      (ide_delay_400ns ?hw 0x1F0 ?s2))))) = ?s3"
    by (simp add: task_file rest drive_absent_def)
  have st: "inb ?hw 0x1F7 ?s3 = (0, ?s3)" by (simp add: drive_inb_def drive_absent_def)
  from m show ?thesis
    using assms sel regs st
    by (simp add: ide_probe_device_def Let_def s1_def [symmetric] cleared_def [symmetric] del: pio_ports)
qed

lemma probe_second_pio:
  assumes "0 \<le> i" "i < 4" "nat i < length (g_ide_devices s)"
    and "id_io_base (g_ide_devices s ! nat i) = 0x170" "drive_absent (machine s)" "dr_busy (machine s) = 0"
  shows "ide_probe_device (pio_hw lat ident) i s = Some (-1, put_ide (nat i) (cleared (g_ide_devices s ! nat i)) s)"
proof -
  let ?hw = "pio_hw lat ident"
  define s1 where "s1 = put_ide (nat i) (cleared (g_ide_devices s ! nat i)) s"
  have absent: "drive_absent (machine s1)" "dr_busy (machine s1) = 0" using assms(5,6) by (simp_all add: s1_def put_ide_def)
  have "outb ?hw 0x172 v s1 = s1" "outb ?hw 0x173 v s1 = s1" "outb ?hw 0x174 v s1 = s1"
    "outb ?hw 0x175 v s1 = s1" "outb ?hw 0x176 v s1 = s1" "outb ?hw 0x177 v s1 = s1" for v
    by (simp_all add: drive_outb_def)
  moreover have "inb ?hw 0x177 s1 = (0, s1)" using absent by (simp add: drive_inb_def)
  moreover have "ide_delay_400ns ?hw b s1 = s1" for b by (rule delay_calm [OF absent(2)])
  ultimately show ?thesis
    using assms(1-4)
    by (simp add: ide_probe_device_def Let_def s1_def [symmetric] cleared_def [symmetric] del: pio_ports)
qed

lemma probe_first_pio:
  assumes dev: "0 < length (g_ide_devices s)" "id_io_base (g_ide_devices s ! 0) = 0x1F0" "id_slave (g_ide_devices s ! 0) = 0"
    and ident: "length ident = 256" and lat: "lat < ATA_POLL_ATTEMPTS" and rest: "resting (machine s)"
  shows "\<exists>m'. ide_probe_device (pio_hw lat ident) 0 s = Some (0, (put_ide 0 ((g_ide_devices s ! 0)\<lparr>id_present := True,
      id_identify := ident, id_sectors28 := ucast (ident ! 60) OR push_bit 16 (ucast (ident ! 61)),
      id_model := model_text ident @ replicate (41 - length (model_text ident)) NUL\<rparr>) s)\<lparr>machine := m'\<rparr>)
    \<and> idle m' \<and> dr_busy m' = 0 \<and> dr_disk m' = dr_disk (machine s)"
proof -
  let ?hw = "pio_hw lat ident"
  define dev0 where "dev0 = g_ide_devices s ! 0"
  let ?dev = "dev0\<lparr>id_present := False, id_sectors28 := 0, id_model := replicate 41 NUL, id_identify := replicate 256 0\<rparr>"
  let ?s1 = "put_ide 0 ?dev s"
  let ?s2 = "?s1\<lparr>machine := (machine s)\<lparr>dr_sel := 0xA0\<rparr>\<rparr>"
  have rest: "dr_busy (machine s) = 0" "\<not> drive_drq (machine s)" using rest by (simp_all add: resting_def)
  have delay: "ide_delay_400ns ?hw 0x1F0 ?s2 = ?s2" by (rule delay_calm) (simp add: rest)
  define d where "d = (machine s)\<lparr>dr_sel := 0xA0, dr_count := 0, dr_l0 := 0, dr_l1 := 0, dr_l2 := 0\<rparr>"
  define s3 where "s3 = ?s1\<lparr>machine := drive_command lat ident 0xEC d\<rparr>"
  have s3: "outb ?hw 0x1F7 0xEC (outb ?hw 0x1F5 0 (outb ?hw 0x1F4 0 (outb ?hw 0x1F3 0 (outb ?hw 0x1F2 0
      (ide_delay_400ns ?hw 0x1F0 (outb ?hw 0x1F6 0xA0 ?s1)))))) = s3"
    using delay by (simp add: s3_def d_def task_file rest drive_absent_def put_ide_def)
  have m3: "dr_in (machine s3) = ident" "dr_out (machine s3) = None" "dr_left (machine s3) = 0" "\<not> dr_err (machine s3)"
    "\<not> drive_absent (machine s3)" "dr_busy (machine s3) = lat" "dr_l1 (machine s3) = 0" "dr_l2 (machine s3) = 0"
    "dr_disk (machine s3) = dr_disk (machine s)"
    by (simp_all add: s3_def d_def drive_command_def drive_absent_def Let_def)
  have ne: "ident \<noteq> []" using ident by auto
  have settles: "settles ATA_POLL_ATTEMPTS s3" using m3 lat by (simp add: settles_def)
  obtain n where n: "ATA_POLL_ATTEMPTS = Suc n" by (simp add: ATA_POLL_ATTEMPTS_def)
  have 5: "ide_busy_loop ?hw 0x1F0 (fst (drive_inb 0x1F7 (machine s3))) (s3\<lparr>machine := snd (drive_inb 0x1F7 (machine s3))\<rparr>)
      = Some (calmed s3)"
    by (rule busy_loop_pio [OF settles [unfolded n]])
  have absent: "drive_absent (d\<lparr>dr_busy := b\<rparr>) = drive_absent d" for d b by (simp add: drive_absent_def)
  have zero: "drive_inb 0x1F4 (machine (calmed s3)) = (0, machine (calmed s3))"
    "drive_inb 0x1F5 (machine (calmed s3)) = (0, machine (calmed s3))"
    by (simp_all add: drive_inb_def m3 absent)
  have 6: "ide_wait_drq ?hw 0x1F0 (calmed s3) = (0, calmed s3)"
  proof -
    have "settles ATA_POLL_ATTEMPTS (calmed s3)" using settles m3 by (simp add: settles_def absent)
    from drq_pio [OF this, of lat ident] show ?thesis using ne m3 by (simp add: absent drive_drq_def calmed_same)
  qed
  have 7: "read_words ?hw 0x1F0 256 (calmed s3) = (ident, (calmed s3)\<lparr>machine := (machine (calmed s3))\<lparr>dr_in := []\<rparr>\<rparr>)"
    using read_words_pio [of "calmed s3" ident "[]"] ident m3 by (simp add: passing_def absent)
  have st: "fst (drive_inb 0x1F7 (machine s3)) \<noteq> 0"
    using ne m3 by (simp add: drive_inb_def drive_status_def drive_drq_def)
  have m: "extract_model_from_identify ident (replicate 41 NUL) =
      Some (model_text ident @ replicate (41 - length (model_text ident)) NUL)"
    by (rule extract_model_eq) (simp_all add: ident)
  have "ide_probe_device ?hw 0 s = Some (0, put_ide 0 (?dev\<lparr>id_present := True, id_identify := ident,
      id_sectors28 := ucast (ident ! 60) OR push_bit 16 (ucast (ident ! 61)),
      id_model := model_text ident @ replicate (41 - length (model_text ident)) NUL\<rparr>)
      ((calmed s3)\<lparr>machine := (machine (calmed s3))\<lparr>dr_in := []\<rparr>\<rparr>))"
    using dev s3 5 6 7 st zero m ident
    by (simp add: ide_probe_device_def Let_def dev0_def [symmetric] del: pio_ports calmed_fields) (simp del: calmed_fields)
  then show ?thesis
    using m3 by (intro exI [of _ "(machine (calmed s3))\<lparr>dr_in := []\<rparr>"])
      (simp add: calmed_def put_ide_def idle_def drive_drq_def dev0_def s3_def)
qed


lemma add_device_map_eq:
  assumes "0 \<le> g_device_count s" "nat (g_device_count s) < 16" "length (g_devices s) = 16"
    and e: "length (dm_model (g_devices s ! nat (g_device_count s))) = 41" and m: "model_ok m"
  shows "\<exists>r. cstr r = cstr m \<and> model_ok r \<and> add_device_map kind src base slave sec (Some m) s =
    Some (s\<lparr>g_devices := (g_devices s)[nat (g_device_count s) := (g_devices s ! nat (g_device_count s))\<lparr>
      dm_present := True, dm_kind := kind, dm_source_index := src, dm_io_base := base, dm_slave := slave,
      dm_sectors28 := sec, dm_model := r\<rparr>], g_device_count := g_device_count s + 1\<rparr>)"
proof -
  obtain t where t: "m = cstr m @ NUL # t" using m cstr_split [of m] by (auto simp: model_ok_def)
  let ?old = "dm_model (g_devices s ! nat (g_device_count s))"
  let ?r = "cstr m @ NUL # drop (Suc (length (cstr m))) ?old"
  have "length (cstr m) < 41" using length_cstr_less [of m] m by (simp add: model_ok_def)
  then have "kstrcpy ?old (cstr m @ NUL # t) = Some ?r" using e kstrcpy_eq [of "cstr m" ?old t] by simp
  then have "kstrcpy ?old m = Some ?r" using t by simp
  moreover have "length ?r = 41" using e \<open>length (cstr m) < 41\<close> by simp
  ultimately show ?thesis using assms
    by (intro exI [of _ ?r]) (simp add: add_device_map_def model_ok_def Let_def)
qed

lemma scan_finds_drive:
  assumes ident: "length ident = 256" and lat: "lat < ATA_POLL_ATTEMPTS"
    and disk: "\<forall>n. length (dr_disk d n) = 512" and rest: "resting d"
  shows "\<exists>s. ata_scan (pio_hw lat ident) (ata_boot d) = Some (1, s) \<and> pio_ready lat s \<and> pio_sector s = dr_disk d
    \<and> g_selected_device s = 0
    \<and> dm_sectors28 (g_devices s ! 0) = ucast (ident ! 60) OR push_bit 16 (ucast (ident ! 61))
    \<and> cstr (dm_model (g_devices s ! 0)) = cstr (model_text ident)"
proof -
  let ?hw = "pio_hw lat ident"
  define s0 where "s0 = clear_device_map ((ata_boot d)\<lparr>g_selected_device := -1\<rparr>)"
  have s0: "g_ide_devices s0 = [zero_ide 0x1F0 0, zero_ide 0x1F0 1, zero_ide 0x170 0, zero_ide 0x170 1]"
    "machine s0 = d" "g_devices s0 = replicate 16 zero_map" "g_device_count s0 = 0" "g_selected_device s0 = -1"
    "g_ahci_count s0 = 0" "g_ahci_devices s0 = replicate 8 zero_ahci"
    by (simp_all add: s0_def ata_boot_def clear_device_map_def)
  let ?model = "model_text ident @ replicate (41 - length (model_text ident)) NUL"
  let ?sectors = "ucast (ident ! 60) OR push_bit 16 (ucast (ident ! 61)) :: u32"
  have tl: "length (model_text ident) \<le> 40" by (rule model_text_length [OF ident])
  have model: "model_ok ?model" "cstr ?model = cstr (model_text ident)"
  proof -
    show "model_ok ?model" using tl by (auto simp: model_ok_def)
    have "cstr (t @ replicate n NUL) = cstr t" for t n by (induction t) (auto simp: cstr_def)
    then show "cstr ?model = cstr (model_text ident)" .
  qed
  define d0 where "d0 = (zero_ide 0x1F0 0)\<lparr>id_present := True, id_identify := ident, id_sectors28 := ?sectors, id_model := ?model\<rparr>"
  obtain m1 where 1: "ide_probe_device ?hw 0 s0 = Some (0, (put_ide 0 d0 s0)\<lparr>machine := m1\<rparr>)"
    "idle m1" "dr_busy m1 = 0" "dr_disk m1 = dr_disk d"
    using probe_first_pio [of s0 ident lat] ident lat rest s0(1,2) by (auto simp: d0_def zero_ide_def)
  define s1 where "s1 = (put_ide 0 d0 s0)\<lparr>machine := m1\<rparr>"
  have s1: "g_ide_devices s1 = [d0, zero_ide 0x1F0 1, zero_ide 0x170 0, zero_ide 0x170 1]" "machine s1 = m1"
    "g_devices s1 = replicate 16 zero_map" "g_device_count s1 = 0" "g_selected_device s1 = -1"
    "g_ahci_count s1 = 0" "g_ahci_devices s1 = replicate 8 zero_ahci"
    by (simp_all add: s1_def put_ide_def s0)
  obtain r where r: "cstr r = cstr ?model" "model_ok r" "add_device_map DEV_IDE (word_of_nat 0) 0x1F0 0 ?sectors (Some ?model) s1 =
      Some (s1\<lparr>g_devices := (g_devices s1)[0 := zero_map\<lparr>dm_present := True, dm_kind := 1, dm_source_index := 0,
        dm_io_base := 0x1F0, dm_slave := 0, dm_sectors28 := ?sectors, dm_model := r\<rparr>], g_device_count := 1\<rparr>)"
    using add_device_map_eq [of s1 ?model DEV_IDE 0 "0x1F0" 0 ?sectors] model(1) s1(3,4)
    by (auto simp: zero_map_def)
  define e0 where "e0 = zero_map\<lparr>dm_present := True, dm_kind := 1, dm_source_index := 0,
        dm_io_base := 0x1F0, dm_slave := 0, dm_sectors28 := ?sectors, dm_model := r\<rparr>"
  define s2 where "s2 = s1\<lparr>g_devices := e0 # replicate 15 zero_map, g_device_count := 1\<rparr>"
  have 2: "add_device_map DEV_IDE (word_of_nat 0) 0x1F0 0 ?sectors (Some ?model) s1 = Some s2"
    using r(3) s1(3) by (simp add: s2_def e0_def numeral_eq_Suc)
  define s3 where "s3 = (put_ide 1 (cleared (zero_ide 0x1F0 1)) s2)\<lparr>machine := m1\<lparr>dr_sel := 0xB0, dr_count := 0, dr_l0 := 0, dr_l1 := 0, dr_l2 := 0\<rparr>\<rparr>"
  have g2: "g_ide_devices s2 = [d0, zero_ide 0x1F0 1, zero_ide 0x170 0, zero_ide 0x170 1]" "machine s2 = m1"
    by (simp_all add: s2_def s1)
  have 3: "ide_probe_device ?hw 1 s2 = Some (-1, s3)"
    using probe_slave_pio [of 1 s2 lat ident] g2 1(2,3) by (simp add: s3_def zero_ide_def resting_def idle_def)
  have g3: "g_ide_devices s3 = [d0, cleared (zero_ide 0x1F0 1), zero_ide 0x170 0, zero_ide 0x170 1]"
    "drive_absent (machine s3)" "dr_busy (machine s3) = 0" using 1(3) by (simp_all add: s3_def put_ide_def g2 drive_absent_def)
  define s4 where "s4 = put_ide 2 (cleared (zero_ide 0x170 0)) s3"
  have 4: "ide_probe_device ?hw 2 s3 = Some (-1, s4)"
    using probe_second_pio [of 2 s3 lat ident] g3 by (simp add: s4_def zero_ide_def)
  have g4: "g_ide_devices s4 = [d0, cleared (zero_ide 0x1F0 1), cleared (zero_ide 0x170 0), zero_ide 0x170 1]"
    "drive_absent (machine s4)" "dr_busy (machine s4) = 0" using g3(2,3) by (simp_all add: s4_def put_ide_def g3)
  define s5 where "s5 = put_ide 3 (cleared (zero_ide 0x170 1)) s4"
  have 5: "ide_probe_device ?hw 3 s4 = Some (-1, s5)"
    using probe_second_pio [of 3 s4 lat ident] g4 by (simp add: s5_def zero_ide_def)
  have g5: "g_ide_devices s5 = [d0, cleared (zero_ide 0x1F0 1), cleared (zero_ide 0x170 0), cleared (zero_ide 0x170 1)]"
    "machine s5 = m1\<lparr>dr_sel := 0xB0, dr_count := 0, dr_l0 := 0, dr_l1 := 0, dr_l2 := 0\<rparr>"
    "g_devices s5 = e0 # replicate 15 zero_map" "g_device_count s5 = 1" "g_ahci_count s5 = 0"
    "g_ahci_devices s5 = replicate 8 zero_ahci"
    by (simp_all add: s5_def put_ide_def g4) (simp_all add: s4_def s3_def s2_def s1 put_ide_def)
  have d0: "id_present d0" "id_io_base d0 = 0x1F0" "id_slave d0 = 0" "id_sectors28 d0 = ?sectors" "id_model d0 = ?model"
    by (simp_all add: d0_def zero_ide_def)
  have "scan_ide ?hw [0, 1, 2, 3] s0 = Some s5"
    using 1(1) 2 3 4 5 s1(1) g3(1) g4(1) g5(1) d0 by (simp add: s1_def [symmetric])
  moreover have "[0..<4] = [0, 1, 2, 3::nat]" by (simp add: numeral_eq_Suc)
  ultimately have ide: "scan_ide ?hw [0..<4] s0 = Some s5" by simp
  have pci: "pci_read32 ?hw bus slot func off s = (0xFFFFFFFF, s)" for bus slot func off s
    by (simp add: pci_read32_def inl_def outl_def pio_hw_def)
  define s where "s = error_ok (s5\<lparr>g_dbg_pci_host_id := 0xFFFFFFFF, g_dbg_slot13_id := 0xFFFFFFFF,
    g_dbg_slot13_class := 0xFFFFFFFF, g_dbg_slot13_bar5 := 0xFFFFFFFF, g_selected_device := 0\<rparr>)"
  have "ata_scan ?hw (ata_boot d) = Some (1, s)"
    using ide g5(4,5) by (simp add: ata_scan_def s0_def [symmetric] pci s_def error_ok_def)
  moreover have gs: "g_ide_devices s = g_ide_devices s5" "g_devices s = g_devices s5" "g_device_count s = 1"
    "g_selected_device s = 0" "machine s = machine s5" "g_ahci_count s = 0" "g_ahci_devices s = replicate 8 zero_ahci"
    by (simp_all add: s_def error_ok_def g5)
  have "ata_ok s"
    unfolding ata_ok_def gs g5 using model(1) r(2)
    by (simp add: d0 model_ok_def cleared_def zero_ahci_def map_entry_ok_def e0_def zero_map_def) 
  then have "pio_ready lat s"
    using 1(2-4) lat disk d0
    by (simp add: pio_ready_def gs g5 e0_def idle_def)
  moreover have "pio_sector s = dr_disk d" using 1(4) by (simp add: pio_sector_def gs g5 fun_eq_iff)
  moreover have "dm_sectors28 (g_devices s ! 0) = ?sectors" "cstr (dm_model (g_devices s ! 0)) = cstr (model_text ident)"
    using r(1) model(2) by (simp_all add: gs g5 e0_def)
  ultimately show ?thesis using gs(4) by blast
qed

text \<open>C37. On a machine whose only disk is an ATA drive on the primary channel that has finished its reset, a scan from the initial state
  returns 1: it finds the drive, records the number of sectors and the model string that the drive
  identifies itself with, and selects it. From then on the driver is a sector device on the drive's sectors.\<close>

theorem ata_scan_finds_drive:
  assumes "length ident = 256" "lat < ATA_POLL_ATTEMPTS" "\<forall>n. length (dr_disk d n) = 512" "resting d"
  shows "\<exists>s. ata_scan (pio_hw lat ident) (ata_boot d) = Some (1, s) \<and> pio_ready lat s \<and> pio_sector s = dr_disk d
    \<and> g_selected_device s = 0
    \<and> dm_sectors28 (g_devices s ! 0) = ucast (ident ! 60) OR push_bit 16 (ucast (ident ! 61))
    \<and> cstr (dm_model (g_devices s ! 0)) = cstr (model_text ident)"
  using assms by (rule scan_finds_drive)

definition blank_drive :: drive where
  "blank_drive = \<lparr>dr_disk = (\<lambda>n. replicate 512 0), dr_sel = 0, dr_count = 1, dr_l0 = 1, dr_l1 = 0, dr_l2 = 0,
     dr_busy = 0, dr_err = False, dr_in = [], dr_out = None, dr_next = 0, dr_left = 0\<rparr>"

lemma blank_resting: "resting blank_drive"
  by (simp add: resting_def blank_drive_def drive_drq_def)

theorem ata_scan_finds_drive_witness:
  "\<exists>s. ata_scan (pio_hw 7 (replicate 256 0x4141)) (ata_boot blank_drive) = Some (1, s) \<and> pio_ready 7 s
    \<and> pio_sector s = (\<lambda>n. replicate 512 0)"
proof -
  have "length (replicate 256 (0x4141 :: u16)) = 256" "7 < ATA_POLL_ATTEMPTS" "\<forall>n. length (dr_disk blank_drive n) = 512"
    "dr_disk blank_drive = (\<lambda>n. replicate 512 0)"
    by (simp_all add: ATA_POLL_ATTEMPTS_def blank_drive_def)
  with ata_scan_finds_drive [OF this(1-3) blank_resting] show ?thesis by metis
qed

text \<open>C38. Sectors through the driver: once the drive is selected, \<open>ata_write_sector\<close> of any 28 bit address
  succeeds, \<open>ata_read_sector\<close> of that address then gives the 512 bytes written, into any buffer and without
  touching the rest of it, and every other sector is as before; however long the drive stays busy, as long
  as it is less than the driver's number of polls. The drive transfers as many sectors as the command asks for, passes no
  data and takes no command while it is busy, and is idle again at the end.\<close>

theorem ata_sector_roundtrip:
  assumes "pio_ready lat s" "unat lba < 2 ^ 28" "512 \<le> length bs"
  shows "\<exists>s1. ata_write_sector (pio_hw lat ident) lba (Some (a, bs)) s = Some (0, s1) \<and> pio_ready lat s1
    \<and> (\<forall>b buf. 512 \<le> length buf \<longrightarrow> (\<exists>s2. ata_read_sector (pio_hw lat ident) lba (Some (b, buf)) s1 =
        Some (0, Some (b, take 512 bs @ drop 512 buf), s2)))
    \<and> (\<forall>l. l \<noteq> unat lba \<longrightarrow> pio_sector s1 l = pio_sector s l)"
  using assms by (rule pio.write_then_read)

lemma pio_ready_exists:
  "\<exists>s. pio_ready 7 s \<and> pio_sector s = (\<lambda>n. replicate 512 0)"
proof -
  define d0 where "d0 = (zero_ide 0x1F0 0)\<lparr>id_present := True\<rparr>"
  define e0 where "e0 = zero_map\<lparr>dm_present := True, dm_kind := 1\<rparr>"
  define s where "s = (ata_boot blank_drive)\<lparr>g_ide_devices := [d0, zero_ide 0x1F0 1, zero_ide 0x170 0, zero_ide 0x170 1],
    g_devices := e0 # replicate 15 zero_map, g_device_count := 1, g_selected_device := 0\<rparr>"
  have "ata_ok s"
    by (simp add: ata_ok_def s_def d0_def e0_def zero_ide_def zero_map_def model_ok_def map_entry_ok_def ata_boot_def
        zero_ahci_def)
  then have "pio_ready 7 s"
    by (simp add: pio_ready_def s_def d0_def e0_def zero_ide_def zero_map_def ata_boot_def blank_drive_def idle_def drive_drq_def
        ATA_POLL_ATTEMPTS_def)
  moreover have "pio_sector s = (\<lambda>n. replicate 512 0)"
    by (simp add: s_def pio_sector_def ata_boot_def blank_drive_def fun_eq_iff)
  ultimately show ?thesis by blast
qed

theorem ata_sector_roundtrip_witness:
  "\<exists>s s1. ata_write_sector (pio_hw 7 []) 2048 (Some (0x1000, replicate 512 5)) s = Some (0, s1) \<and>
    (\<exists>s2. ata_read_sector (pio_hw 7 []) 2048 (Some (0x1000, replicate 512 0)) s1 =
      Some (0, Some (0x1000, replicate 512 5), s2))"
proof -
  obtain s where s: "pio_ready 7 s" using pio_ready_exists by blast
  obtain s1 where "ata_write_sector (pio_hw 7 []) 2048 (Some (0x1000, replicate 512 5)) s = Some (0, s1)"
    and r: "\<forall>b buf. 512 \<le> length buf \<longrightarrow> (\<exists>s2. ata_read_sector (pio_hw 7 []) 2048 (Some (b, buf)) s1 =
        Some (0, Some (b, take 512 (replicate 512 5) @ drop 512 buf), s2))"
    using ata_sector_roundtrip [OF s, of 2048 "replicate 512 5" "[]" "0x1000"] by auto
  moreover have "\<exists>s2. ata_read_sector (pio_hw 7 []) 2048 (Some (0x1000, replicate 512 0)) s1 =
      Some (0, Some (0x1000, replicate 512 5), s2)"
    using r [rule_format, of "replicate 512 0" "0x1000"] by simp
  ultimately show ?thesis by blast
qed

subsection \<open>After an error\<close>

text \<open>
  The error bit of the status stays until the next command, and the driver gives no command to a drive that shows it:
  after one command that the drive has refused, reading, writing and flushing fail for ever, and only a new scan helps.
\<close>

lemma ready_refused:
  assumes "dr_err (machine s)" "dr_busy (machine s) = 0" "\<not> drive_absent (machine s)"
  shows "\<exists>s'. ide_wait_ready (pio_hw lat ident) 0x1F0 s = (-1, s') \<and> machine s' = machine s"
proof -
  obtain n where n: "ATA_POLL_ATTEMPTS = Suc n" by (simp add: ATA_POLL_ATTEMPTS_def)
  have e: "\<exists>s'. error_ide (pio_hw lat ident) msg 0x1F0 st s = (-1, s') \<and> machine s' = machine s" for msg st
    by (simp add: error_ide_def Let_def split_beta drive_inb_still)
  have "(machine s)\<lparr>dr_busy := 0\<rparr> = machine s" using assms(2) by simp
  then have "drive_inb 0x1F7 (machine s) = (if drive_drq (machine s) then 0x59 else 0x51, machine s)"
    using assms by (simp add: drive_inb_status drive_status_def)
  then show ?thesis
    using e unfolding ide_wait_ready_def n delay_calm [OF assms(2)] by simp
qed

lemma error_sticks:
  assumes "dr_err (machine s)" "dr_busy (machine s) = 0" "\<not> drive_absent (machine s)"
    and "0 < length (g_ide_devices s)" "id_present (g_ide_devices s ! 0)" "id_io_base (g_ide_devices s ! 0) = 0x1F0"
  shows "\<exists>s'. ide_read_sector (pio_hw lat ident) 0 lba (Some bs) s = Some (-1, Some bs, s') \<and> machine s' = machine s"
    "\<exists>s'. ide_write_sector (pio_hw lat ident) 0 lba (Some bs) s = Some (-1, s') \<and> machine s' = machine s"
    "\<exists>s'. ide_flush_cache (pio_hw lat ident) 0 s = Some (-1, s') \<and> machine s' = machine s"
  using ready_refused [OF assms(1-3), of lat ident] assms(4-6)
  by (auto simp: ide_read_sector_def ide_write_sector_def ide_flush_cache_def)

end
