(* ===== verification/Fs.thy ===== *)
theory Fs
  imports Kstring
begin

text \<open>
  kernel/fs.c: the in-memory file system, a static table of 128 nodes that point to their
  parents. The state is the table; every operation takes it and returns it updated next to the
  C return value. None is undefined behaviour: a use of \<open>nodes[i]\<close> with \<open>i\<close> outside the
  table, or of a name or data buffer outside its array.
\<close>

abbreviation FS_MAX_NODES :: nat where "FS_MAX_NODES \<equiv> 128"
abbreviation FS_MAX_NAME :: nat where "FS_MAX_NAME \<equiv> 31"
abbreviation FS_MAX_FILE_SIZE :: nat where "FS_MAX_FILE_SIZE \<equiv> 4096"
abbreviation FS_ACCESS_READ :: u8 where "FS_ACCESS_READ \<equiv> 4"
abbreviation FS_ACCESS_WRITE :: u8 where "FS_ACCESS_WRITE \<equiv> 2"
abbreviation FS_ACCESS_EXEC :: u8 where "FS_ACCESS_EXEC \<equiv> 1"
text \<open>0755, 0644 and 0777 of the source, which writes them in octal.\<close>
abbreviation FS_DEFAULT_DIR_MODE :: u16 where "FS_DEFAULT_DIR_MODE \<equiv> 0x1ED"
abbreviation FS_DEFAULT_FILE_MODE :: u16 where "FS_DEFAULT_FILE_MODE \<equiv> 0x1A4"
abbreviation MODE_MASK :: u16 where "MODE_MASK \<equiv> 0x1FF"

record fs_node =
  nd_used :: bool
  nd_is_dir :: bool
  nd_parent :: int
  nd_owner :: u16
  nd_mode :: u16
  nd_name :: "char list"
  nd_data :: "char list"
  nd_size :: nat

type_synonym fs = "fs_node list"

definition zero_node :: fs_node where
  "zero_node = \<lparr>nd_used = False, nd_is_dir = False, nd_parent = 0, nd_owner = 0, nd_mode = 0,
     nd_name = replicate (FS_MAX_NAME + 1) NUL, nd_data = replicate FS_MAX_FILE_SIZE NUL,
     nd_size = 0\<rparr>"

text \<open>\<open>nodes[i]\<close> with a signed index.\<close>

definition nd_at :: "fs \<Rightarrow> int \<Rightarrow> fs_node option" where
  "nd_at ns i = (if 0 \<le> i then rd ns (nat i) else None)"

definition nd_put :: "fs \<Rightarrow> int \<Rightarrow> fs_node \<Rightarrow> fs option" where
  "nd_put ns i n = (if 0 \<le> i then wr ns (nat i) n else None)"

subsection \<open>Names and nodes\<close>

fun is_valid_name_loop :: "string \<Rightarrow> nat \<Rightarrow> bool" where
  "is_valid_name_loop [] i = True"
| "is_valid_name_loop (c # s) i =
     (if c = CHR ''/'' then False
      else if Suc i > FS_MAX_NAME then False
      else is_valid_name_loop s (Suc i))"

definition is_valid_name :: "string ptr \<Rightarrow> bool" where
  "is_valid_name nm =
     (case nm of None \<Rightarrow> False | Some s \<Rightarrow> if s = [] then False else is_valid_name_loop s 0)"

fun alloc_node_loop :: "nat list \<Rightarrow> fs \<Rightarrow> (int \<times> fs) option" where
  "alloc_node_loop [] ns = Some (-1, ns)"
| "alloc_node_loop (i # is) ns = do {
     n \<leftarrow> rd ns i;
     if \<not> nd_used n then do {
       nm \<leftarrow> wr (nd_name n) 0 NUL;
       dt \<leftarrow> wr (nd_data n) 0 NUL;
       ns' \<leftarrow> wr ns i (n\<lparr>nd_used := True, nd_is_dir := False, nd_parent := 0, nd_owner := 0,
                        nd_mode := FS_DEFAULT_FILE_MODE, nd_size := 0,
                        nd_name := nm, nd_data := dt\<rparr>);
       Some (int i, ns') }
     else alloc_node_loop is ns }"

definition alloc_node :: "fs \<Rightarrow> (int \<times> fs) option" where
  "alloc_node ns = alloc_node_loop [1..<FS_MAX_NODES] ns"

fun find_child_loop :: "nat list \<Rightarrow> fs \<Rightarrow> int \<Rightarrow> char list \<Rightarrow> int option" where
  "find_child_loop [] ns parent nm = Some (-1)"
| "find_child_loop (i # is) ns parent nm = do {
     n \<leftarrow> rd ns i;
     if nd_used n \<and> nd_parent n = parent
     then do {
       r \<leftarrow> kstrcmp (nd_name n) nm;
       if r = 0 then Some (int i) else find_child_loop is ns parent nm }
     else find_child_loop is ns parent nm }"

definition find_child :: "fs \<Rightarrow> int \<Rightarrow> char list \<Rightarrow> int option" where
  "find_child ns parent nm = find_child_loop [0..<FS_MAX_NODES] ns parent nm"

definition fs_init :: "fs option" where
  "fs_init = do {
     let ns = replicate FS_MAX_NODES zero_node;
     n \<leftarrow> nd_at ns 0;
     nm \<leftarrow> kstrcpy (nd_name n) (c_str ''/'');
     nd_put ns 0 (n\<lparr>nd_used := True, nd_is_dir := True, nd_parent := 0, nd_owner := 0,
       nd_mode := FS_DEFAULT_DIR_MODE, nd_name := nm\<rparr>) }"

subsection \<open>Accessors\<close>

definition fs_get_root :: int where "fs_get_root = 0"

text \<open>The guard \<open>node < 0 || node >= FS_MAX_NODES || !nodes[node].used\<close>, negated.\<close>

definition fs_live :: "fs \<Rightarrow> int \<Rightarrow> bool option" where
  "fs_live ns node =
     (if node < 0 \<or> node \<ge> int FS_MAX_NODES then Some False
      else do { n \<leftarrow> nd_at ns node; Some (nd_used n) })"

definition fs_get_parent :: "fs \<Rightarrow> int \<Rightarrow> int option" where
  "fs_get_parent ns node = do {
     live \<leftarrow> fs_live ns node;
     if \<not> live then Some (-1) else do { n \<leftarrow> nd_at ns node; Some (nd_parent n) } }"

definition fs_is_dir :: "fs \<Rightarrow> int \<Rightarrow> bool option" where
  "fs_is_dir ns node = do {
     live \<leftarrow> fs_live ns node;
     if \<not> live then Some False else do { n \<leftarrow> nd_at ns node; Some (nd_is_dir n) } }"

definition fs_get_name :: "fs \<Rightarrow> int \<Rightarrow> char list ptr option" where
  "fs_get_name ns node = do {
     live \<leftarrow> fs_live ns node;
     if \<not> live then Some None else do { n \<leftarrow> nd_at ns node; Some (Some (nd_name n)) } }"

definition fs_get_owner :: "fs \<Rightarrow> int \<Rightarrow> int option" where
  "fs_get_owner ns node = do {
     live \<leftarrow> fs_live ns node;
     if \<not> live then Some (-1) else do { n \<leftarrow> nd_at ns node; Some (uint (nd_owner n)) } }"

definition fs_get_mode :: "fs \<Rightarrow> int \<Rightarrow> u16 option" where
  "fs_get_mode ns node = do {
     live \<leftarrow> fs_live ns node;
     if \<not> live then Some 0 else do { n \<leftarrow> nd_at ns node; Some (nd_mode n) } }"

definition fs_set_owner :: "fs \<Rightarrow> int \<Rightarrow> u16 \<Rightarrow> (int \<times> fs) option" where
  "fs_set_owner ns node owner = do {
     live \<leftarrow> fs_live ns node;
     if \<not> live then Some (-1, ns)
     else do {
       n \<leftarrow> nd_at ns node;
       ns' \<leftarrow> nd_put ns node (n\<lparr>nd_owner := owner\<rparr>);
       Some (0, ns') } }"

definition fs_set_mode :: "fs \<Rightarrow> int \<Rightarrow> u16 \<Rightarrow> (int \<times> fs) option" where
  "fs_set_mode ns node mode = do {
     live \<leftarrow> fs_live ns node;
     if \<not> live then Some (-1, ns)
     else do {
       n \<leftarrow> nd_at ns node;
       ns' \<leftarrow> nd_put ns node (n\<lparr>nd_mode := mode AND MODE_MASK\<rparr>);
       Some (0, ns') } }"

definition fs_check_access :: "fs \<Rightarrow> int \<Rightarrow> u16 \<Rightarrow> u8 \<Rightarrow> bool option" where
  "fs_check_access ns node user acc = do {
     live \<leftarrow> fs_live ns node;
     if \<not> live then Some False
     else if acc = 0 then Some True
     else if user = 0 then Some True
     else do {
       n \<leftarrow> nd_at ns node;
       let mode = nd_mode n AND MODE_MASK;
       let allowed = (if user = nd_owner n then ucast (drop_bit 6 mode AND 7) :: u8
                      else ucast (mode AND 7));
       Some (allowed AND acc = acc) } }"

subsection \<open>Path resolution\<close>

text \<open>
  One path component of \<open>fs_resolve\<close>, run at a slash or at the end of the path. \<open>Inl r\<close> is
  \<open>return r\<close> from the whole function, \<open>Inr c\<close> goes on with \<open>current = c\<close>.
\<close>

definition resolve_token :: "fs \<Rightarrow> int \<Rightarrow> string \<Rightarrow> (int + int) option" where
  "resolve_token ns current token =
     (if length token > 0 then
        if streq token ''.'' then Some (Inr current)
        else if streq token ''..'' then
          if current \<noteq> 0 then do { n \<leftarrow> nd_at ns current; Some (Inr (nd_parent n)) }
          else Some (Inr current)
        else do {
          child \<leftarrow> find_child ns current (c_str token);
          if child < 0 then Some (Inl (-1)) else Some (Inr child) }
      else Some (Inr current))"

fun resolve_loop :: "fs \<Rightarrow> string \<Rightarrow> int \<Rightarrow> string \<Rightarrow> int option" where
  "resolve_loop ns [] current token = do {
     r \<leftarrow> resolve_token ns current token;
     case r of Inl e \<Rightarrow> Some e | Inr c \<Rightarrow> Some c }"
| "resolve_loop ns (ch # path) current token =
     (if ch = CHR ''/'' then do {
        r \<leftarrow> resolve_token ns current token;
        case r of Inl e \<Rightarrow> Some e | Inr c \<Rightarrow> resolve_loop ns path c [] }
      else if length token \<ge> FS_MAX_NAME then Some (-1)
      else resolve_loop ns path current (token @ [ch]))"

definition fs_resolve :: "fs \<Rightarrow> int \<Rightarrow> string ptr \<Rightarrow> int option" where
  "fs_resolve ns cwd path =
     (case path of
        None \<Rightarrow> Some cwd
      | Some p \<Rightarrow>
          if p = [] then Some cwd
          else resolve_loop ns p (if hd p = CHR ''/'' then 0 else cwd) [])"

fun last_slash :: "string \<Rightarrow> nat \<Rightarrow> nat option \<Rightarrow> nat option" where
  "last_slash [] i slash = slash"
| "last_slash (c # s) i slash = last_slash s (Suc i) (if c = CHR ''/'' then Some i else slash)"

text \<open>
  The directory part \<open>path[0..slash)\<close>, resolved through a 128 byte copy. The early return for a
  longer part is the value -1, which the caller's test \<open>parent < 0\<close> returns.
\<close>

definition resolve_dir_prefix :: "fs \<Rightarrow> int \<Rightarrow> string \<Rightarrow> nat \<Rightarrow> int option" where
  "resolve_dir_prefix ns cwd p slash =
     (if slash = 0 then Some 0
      else if slash \<ge> 128 then Some (-1)
      else do {
        pp \<leftarrow> kmemcpy (replicate 128 NUL) (c_str p) slash;
        pp' \<leftarrow> wr pp slash NUL;
        fs_resolve ns cwd (Some (cstr pp')) })"

text \<open>
  The result None is \<open>return -1\<close>; Some (parent, leaf) is \<open>return 0\<close> with both out
  parameters set. \<open>leaf\<close> is the caller's array of 32 bytes, here filled with NUL before.
\<close>

definition resolve_parent_and_leaf ::
  "fs \<Rightarrow> int \<Rightarrow> string ptr \<Rightarrow> (int \<times> char list) option option" where
  "resolve_parent_and_leaf ns cwd path =
     (case path of
        None \<Rightarrow> Some None
      | Some p \<Rightarrow>
          if p = [] then Some None
          else do {
            len \<leftarrow> kstrlen (Some (c_str p));
            if len = 0 then Some None
            else case last_slash p 0 None of
              None \<Rightarrow>
                if \<not> is_valid_name (Some p) then Some None
                else do {
                  leaf \<leftarrow> kstrcpy (replicate (FS_MAX_NAME + 1) NUL) (c_str p);
                  Some (Some (cwd, leaf)) }
            | Some slash \<Rightarrow>
                if slash = len - 1 then Some None
                else do {
                  parent \<leftarrow> resolve_dir_prefix ns cwd p slash;
                  if parent < 0 then Some None
                  else do {
                    n \<leftarrow> nd_at ns parent;
                    if \<not> nd_is_dir n then Some None
                    else if \<not> is_valid_name (Some (drop (slash + 1) p)) then Some None
                    else do {
                      leaf \<leftarrow> kstrcpy (replicate (FS_MAX_NAME + 1) NUL)
                               (c_str (drop (slash + 1) p));
                      Some (Some (parent, leaf)) } } } })"

subsection \<open>Creating directories and files\<close>

definition fs_mkdir_as ::
  "fs \<Rightarrow> int \<Rightarrow> string ptr \<Rightarrow> u16 \<Rightarrow> u16 \<Rightarrow> (int \<times> fs) option" where
  "fs_mkdir_as ns cwd path owner mode = do {
     r \<leftarrow> resolve_parent_and_leaf ns cwd path;
     case r of
       None \<Rightarrow> Some (-1, ns)
     | Some (parent, leaf) \<Rightarrow> do {
         existing \<leftarrow> find_child ns parent leaf;
         if existing \<ge> 0 then do {
           e \<leftarrow> nd_at ns existing;
           Some (if nd_is_dir e then 0 else -1, ns) }
         else do {
           (node, ns1) \<leftarrow> alloc_node ns;
           if node < 0 then Some (-1, ns1)
           else do {
             n \<leftarrow> nd_at ns1 node;
             nm \<leftarrow> kstrcpy (nd_name n) leaf;
             ns2 \<leftarrow> nd_put ns1 node (n\<lparr>nd_is_dir := True, nd_parent := parent,
                      nd_owner := owner, nd_mode := mode AND MODE_MASK, nd_name := nm\<rparr>);
             Some (0, ns2) } } } }"

definition fs_mkdir :: "fs \<Rightarrow> int \<Rightarrow> string ptr \<Rightarrow> (int \<times> fs) option" where
  "fs_mkdir ns cwd path = fs_mkdir_as ns cwd path 0 FS_DEFAULT_DIR_MODE"

definition fs_touch_as ::
  "fs \<Rightarrow> int \<Rightarrow> string ptr \<Rightarrow> u16 \<Rightarrow> u16 \<Rightarrow> (int \<times> fs) option" where
  "fs_touch_as ns cwd path owner mode = do {
     r \<leftarrow> resolve_parent_and_leaf ns cwd path;
     case r of
       None \<Rightarrow> Some (-1, ns)
     | Some (parent, leaf) \<Rightarrow> do {
         existing \<leftarrow> find_child ns parent leaf;
         if existing \<ge> 0 then do {
           e \<leftarrow> nd_at ns existing;
           Some (if nd_is_dir e then -1 else 0, ns) }
         else do {
           (node, ns1) \<leftarrow> alloc_node ns;
           if node < 0 then Some (-1, ns1)
           else do {
             n \<leftarrow> nd_at ns1 node;
             dt \<leftarrow> wr (nd_data n) 0 NUL;
             nm \<leftarrow> kstrcpy (nd_name n) leaf;
             ns2 \<leftarrow> nd_put ns1 node (n\<lparr>nd_is_dir := False, nd_parent := parent,
                      nd_owner := owner, nd_mode := mode AND MODE_MASK, nd_size := 0,
                      nd_data := dt, nd_name := nm\<rparr>);
             Some (0, ns2) } } } }"

definition fs_touch :: "fs \<Rightarrow> int \<Rightarrow> string ptr \<Rightarrow> (int \<times> fs) option" where
  "fs_touch ns cwd path = fs_touch_as ns cwd path 0 FS_DEFAULT_FILE_MODE"

subsection \<open>Listing, reading, writing and removing\<close>

text \<open>Returns the number of children and the caller's array \<open>out\<close>, filled as far as it goes.\<close>

fun fs_list_loop :: "nat list \<Rightarrow> fs \<Rightarrow> int \<Rightarrow> int list \<Rightarrow> nat \<Rightarrow> nat \<Rightarrow> (nat \<times> int list) option" where
  "fs_list_loop [] ns dir out max_out count = Some (count, out)"
| "fs_list_loop (i # is) ns dir out max_out count = do {
     n \<leftarrow> rd ns i;
     if nd_used n \<and> nd_parent n = dir \<and> int i \<noteq> dir then do {
       out' \<leftarrow> (if count < max_out then wr out count (int i) else Some out);
       fs_list_loop is ns dir out' max_out (Suc count) }
     else fs_list_loop is ns dir out max_out count }"

definition fs_list :: "fs \<Rightarrow> int \<Rightarrow> int list \<Rightarrow> nat \<Rightarrow> (int \<times> int list) option" where
  "fs_list ns dir out max_out = do {
     live \<leftarrow> fs_live ns dir;
     if \<not> live then Some (-1, out)
     else do {
       d \<leftarrow> nd_at ns dir;
       if \<not> nd_is_dir d then Some (-1, out)
       else do {
         (count, out') \<leftarrow> fs_list_loop [0..<FS_MAX_NODES] ns dir out max_out 0;
         if count > 2147483647 then Some (-1, out') else Some (int count, out') } } }"

text \<open>The result None is \<open>return -1\<close>; Some (data, size) is \<open>return 0\<close>.\<close>

definition fs_read_file :: "fs \<Rightarrow> int \<Rightarrow> string ptr \<Rightarrow> (char list \<times> nat) option option" where
  "fs_read_file ns cwd path = do {
     node \<leftarrow> fs_resolve ns cwd path;
     if node < 0 then Some None
     else do {
       n \<leftarrow> nd_at ns node;
       if nd_is_dir n then Some None else Some (Some (nd_data n, nd_size n)) } }"

definition fs_write_file ::
  "fs \<Rightarrow> int \<Rightarrow> string ptr \<Rightarrow> char list ptr \<Rightarrow> nat \<Rightarrow> (int \<times> fs) option" where
  "fs_write_file ns cwd path data sz = do {
     node0 \<leftarrow> fs_resolve ns cwd path;
     (rc, node, ns1) \<leftarrow>
       (if node0 < 0 then do {
          (t, ns1) \<leftarrow> fs_touch ns cwd path;
          if t \<noteq> 0 then Some (-1, node0, ns1)
          else do { node1 \<leftarrow> fs_resolve ns1 cwd path; Some (0, node1, ns1) } }
        else Some (0 :: int, node0, ns));
     if rc \<noteq> 0 then Some (-1, ns1)
     else if node < 0 then Some (-1, ns1)
     else do {
       n \<leftarrow> nd_at ns1 node;
       if nd_is_dir n then Some (-1, ns1)
       else do {
         let sz' = (if sz \<ge> FS_MAX_FILE_SIZE then FS_MAX_FILE_SIZE - 1 else sz);
         dt \<leftarrow> (case data of
                 None \<Rightarrow> Some (nd_data n)
               | Some d \<Rightarrow> if sz' > 0 then kmemcpy (nd_data n) d sz' else Some (nd_data n));
         dt' \<leftarrow> wr dt sz' NUL;
         ns2 \<leftarrow> nd_put ns1 node (n\<lparr>nd_data := dt', nd_size := sz'\<rparr>);
         Some (0, ns2) } } }"

fun has_child_loop :: "nat list \<Rightarrow> fs \<Rightarrow> int \<Rightarrow> bool option" where
  "has_child_loop [] ns node = Some False"
| "has_child_loop (i # is) ns node = do {
     n \<leftarrow> rd ns i;
     if nd_used n \<and> nd_parent n = node then Some True else has_child_loop is ns node }"

definition fs_remove :: "fs \<Rightarrow> int \<Rightarrow> string ptr \<Rightarrow> (int \<times> fs) option" where
  "fs_remove ns cwd path = do {
     node \<leftarrow> fs_resolve ns cwd path;
     if node \<le> 0 then Some (-1, ns)
     else do {
       n \<leftarrow> nd_at ns node;
       busy \<leftarrow> (if nd_is_dir n then has_child_loop [0..<FS_MAX_NODES] ns node else Some False);
       if busy then Some (-1, ns)
       else do {
         ns' \<leftarrow> nd_put ns node (n\<lparr>nd_used := False\<rparr>);
         Some (0, ns') } } }"

subsection \<open>The absolute path of a node\<close>

text \<open>
  \<open>stack\<close> holds \<open>stack[0..depth)\<close>. The emitting loop runs from \<open>depth - 1\<close> down to 0, so it
  gets the stack reversed; the test \<open>i > 0\<close> is that entries remain.
\<close>

function path_stack :: "fs \<Rightarrow> int \<Rightarrow> int list \<Rightarrow> int list option" where
  "path_stack ns node stack =
     (if node \<noteq> 0 \<and> length stack < FS_MAX_NODES then do {
        n \<leftarrow> nd_at ns node;
        path_stack ns (nd_parent n) (stack @ [node]) }
      else Some stack)"
  by pat_completeness auto
termination
  by (relation "measure (\<lambda>(ns, node, stack). FS_MAX_NODES - length stack)") auto

declare path_stack.simps [simp del]

fun path_emit ::
  "fs \<Rightarrow> int list \<Rightarrow> char list \<Rightarrow> nat \<Rightarrow> nat \<Rightarrow> (int \<times> nat \<times> char list) option" where
  "path_emit ns [] out pos out_size = Some (0, pos, out)"
| "path_emit ns (node # rest) out pos out_size = do {
     n \<leftarrow> nd_at ns node;
     len \<leftarrow> kstrlen (Some (nd_name n));
     if pos + len + 1 \<ge> out_size then Some (-1, pos, out)
     else do {
       out1 \<leftarrow> kmemcpy_at out pos (nd_name n) len;
       let pos1 = pos + len;
       if rest \<noteq> [] then do {
         out2 \<leftarrow> wr out1 pos1 (CHR ''/'');
         path_emit ns rest out2 (pos1 + 1) out_size }
       else path_emit ns rest out1 pos1 out_size } }"

text \<open>Returns the C result and the caller's buffer \<open>out\<close>, of at least \<open>out_size\<close> bytes.\<close>

definition fs_make_path :: "fs \<Rightarrow> int \<Rightarrow> char list ptr \<Rightarrow> nat \<Rightarrow> (int \<times> char list) option" where
  "fs_make_path ns node out out_size =
     (case out of
        None \<Rightarrow> Some (-1, [])
      | Some o0 \<Rightarrow>
          if out_size = 0 then Some (-1, o0)
          else do {
            live \<leftarrow> fs_live ns node;
            if \<not> live then Some (-1, o0)
            else if node = 0 then
              if out_size < 2 then Some (-1, o0)
              else do {
                o1 \<leftarrow> wr o0 0 (CHR ''/'');
                o2 \<leftarrow> wr o1 1 NUL;
                Some (0, o2) }
            else do {
              stack \<leftarrow> path_stack ns node [];
              if 0 + 1 \<ge> out_size then Some (-1, o0)
              else do {
                o1 \<leftarrow> wr o0 0 (CHR ''/'');
                (rc, pos, o2) \<leftarrow> path_emit ns (rev stack) o1 1 out_size;
                if rc \<noteq> 0 then Some (-1, o2)
                else do {
                  o3 \<leftarrow> wr o2 pos NUL;
                  Some (0, o3) } } } })"

end
