(* ===== verification/FsTree.thy ===== *)
theory FsTree
  imports Fs
begin

text \<open>
  Well-formed file systems and the abstract vocabulary the rest of the development uses:
  what the arrays of a node hold (\<^theory_text>\<open>fs_mem\<close>), that the parent pointers form a
  tree of directories with unique valid names (\<^theory_text>\<open>tree_ok\<close>), the lookup of a child
  by name and of a free slot, and the closed forms of the table loops in those terms.
\<close>

subsection \<open>Well-formedness\<close>

definition node_ok :: "fs_node \<Rightarrow> bool" where
  "node_ok n \<longleftrightarrow> length (nd_name n) = FS_MAX_NAME + 1 \<and> nd_name n ! FS_MAX_NAME = NUL
     \<and> length (nd_data n) = FS_MAX_FILE_SIZE \<and> nd_size n < FS_MAX_FILE_SIZE
     \<and> nd_data n ! nd_size n = NUL \<and> nd_mode n AND MODE_MASK = nd_mode n"

definition fs_mem :: "fs \<Rightarrow> bool" where
  "fs_mem ns \<longleftrightarrow> length ns = FS_MAX_NODES \<and> (\<forall>n \<in> set ns. node_ok n)"

abbreviation node_name :: "fs \<Rightarrow> nat \<Rightarrow> string" where
  "node_name ns i \<equiv> cstr (nd_name (ns ! i))"

definition dir_node :: "fs \<Rightarrow> nat \<Rightarrow> bool" where
  "dir_node ns i \<longleftrightarrow> i < FS_MAX_NODES \<and> nd_used (ns ! i) \<and> nd_is_dir (ns ! i)"

definition file_node :: "fs \<Rightarrow> nat \<Rightarrow> bool" where
  "file_node ns i \<longleftrightarrow> i < FS_MAX_NODES \<and> nd_used (ns ! i) \<and> \<not> nd_is_dir (ns ! i)"

definition used_node :: "fs \<Rightarrow> nat \<Rightarrow> bool" where
  "used_node ns i \<longleftrightarrow> i < FS_MAX_NODES \<and> nd_used (ns ! i)"

text \<open>The nodes whose parent pointers lead to the root.\<close>

inductive anchored :: "fs \<Rightarrow> nat \<Rightarrow> bool" for ns where
  root: "anchored ns 0"
| step: "i < FS_MAX_NODES \<Longrightarrow> nd_used (ns ! i) \<Longrightarrow> 0 \<le> nd_parent (ns ! i) \<Longrightarrow>
     anchored ns (nat (nd_parent (ns ! i))) \<Longrightarrow> anchored ns i"

code_pred anchored .

definition valid_name :: "string \<Rightarrow> bool" where
  "valid_name s \<longleftrightarrow> s \<noteq> [] \<and> length s \<le> FS_MAX_NAME \<and> CHR ''/'' \<notin> set s"

definition root_ok :: "fs \<Rightarrow> bool" where
  "root_ok ns \<longleftrightarrow> nd_used (ns ! 0) \<and> nd_is_dir (ns ! 0) \<and> nd_parent (ns ! 0) = 0
     \<and> node_name ns 0 = ''/''"

definition parents_ok :: "fs \<Rightarrow> bool" where
  "parents_ok ns \<longleftrightarrow> (\<forall>i < FS_MAX_NODES. nd_used (ns ! i) \<longrightarrow>
     0 \<le> nd_parent (ns ! i) \<and> dir_node ns (nat (nd_parent (ns ! i))) \<and> anchored ns i)"

definition names_ok :: "fs \<Rightarrow> bool" where
  "names_ok ns \<longleftrightarrow> (\<forall>i < FS_MAX_NODES. i \<noteq> 0 \<longrightarrow> nd_used (ns ! i) \<longrightarrow> valid_name (node_name ns i))"

definition unique_ok :: "fs \<Rightarrow> bool" where
  "unique_ok ns \<longleftrightarrow> (\<forall>i < FS_MAX_NODES. \<forall>j < FS_MAX_NODES.
     nd_used (ns ! i) \<and> nd_used (ns ! j) \<and> nd_parent (ns ! i) = nd_parent (ns ! j)
       \<and> node_name ns i = node_name ns j \<longrightarrow> i = j)"

definition tree_ok :: "fs \<Rightarrow> bool" where
  "tree_ok ns \<longleftrightarrow> root_ok ns \<and> parents_ok ns \<and> names_ok ns \<and> unique_ok ns"

definition fs_wf :: "fs \<Rightarrow> bool" where
  "fs_wf ns \<longleftrightarrow> fs_mem ns \<and> tree_ok ns"

lemma fs_memD:
  assumes "fs_mem ns"
  shows fs_mem_length: "length ns = FS_MAX_NODES"
    and fs_mem_node: "i < FS_MAX_NODES \<Longrightarrow> node_ok (ns ! i)"
  using assms by (auto simp: fs_mem_def)

lemma fs_mem_update [intro]: "fs_mem ns \<Longrightarrow> node_ok n \<Longrightarrow> fs_mem (ns[i := n])"
  by (auto simp: fs_mem_def dest: set_update_subset_insert [THEN subsetD])

lemma node_ok_NUL:
  assumes "node_ok n"
  shows "NUL \<in> set (nd_name n)"
proof -
  from assms have "nd_name n ! FS_MAX_NAME = NUL" "FS_MAX_NAME < length (nd_name n)"
    by (simp_all add: node_ok_def)
  then show ?thesis by (metis nth_mem)
qed

lemma node_ok_name_length: "node_ok n \<Longrightarrow> length (cstr (nd_name n)) \<le> FS_MAX_NAME"
  using length_cstr_less [OF node_ok_NUL] by (fastforce simp: node_ok_def)

lemma fs_wf_mem [simp, intro]: "fs_wf ns \<Longrightarrow> fs_mem ns"
  by (simp add: fs_wf_def)

lemma fs_wf_length [simp]: "fs_wf ns \<Longrightarrow> length ns = FS_MAX_NODES"
  by (simp add: fs_wf_def fs_mem_def)

lemma used_nodeI [intro]: "dir_node ns i \<Longrightarrow> used_node ns i" "file_node ns i \<Longrightarrow> used_node ns i"
  by (simp_all add: used_node_def dir_node_def file_node_def)

lemma used_node_cases: "used_node ns i \<longleftrightarrow> dir_node ns i \<or> file_node ns i"
  by (auto simp: used_node_def dir_node_def file_node_def)

lemma fs_wf_root: "fs_wf ns \<Longrightarrow> dir_node ns 0"
  by (simp add: fs_wf_def tree_ok_def root_ok_def dir_node_def)

lemma fs_wf_root_parent: "fs_wf ns \<Longrightarrow> nd_parent (ns ! 0) = 0"
  by (simp add: fs_wf_def tree_ok_def root_ok_def)

lemma fs_wf_parent:
  assumes "fs_wf ns" "used_node ns i"
  obtains p where "nd_parent (ns ! i) = int p" "dir_node ns p"
  using assms that [of "nat (nd_parent (ns ! i))"]
  by (auto simp: fs_wf_def tree_ok_def parents_ok_def used_node_def)

lemma fs_wf_unique:
  assumes "fs_wf ns" "used_node ns i" "used_node ns j"
    "nd_parent (ns ! i) = nd_parent (ns ! j)" "node_name ns i = node_name ns j"
  shows "i = j"
  using assms by (auto simp: fs_wf_def tree_ok_def unique_ok_def used_node_def)

lemma fs_wf_name:
  assumes "fs_wf ns" "used_node ns i" "i \<noteq> 0"
  shows "valid_name (node_name ns i)"
  using assms by (auto simp: fs_wf_def tree_ok_def names_ok_def used_node_def)

lemma is_valid_name_loop_iff:
  "is_valid_name_loop s i \<longleftrightarrow> (s \<noteq> [] \<longrightarrow> i + length s \<le> FS_MAX_NAME) \<and> CHR ''/'' \<notin> set s"
  by (induction s i rule: is_valid_name_loop.induct) auto

lemma is_valid_name_iff [simp]: "is_valid_name (Some s) \<longleftrightarrow> valid_name s"
  by (auto simp: is_valid_name_def valid_name_def is_valid_name_loop_iff)

subsection \<open>Table accesses\<close>

lemma nd_at_int [simp]: "i < length ns \<Longrightarrow> nd_at ns (int i) = Some (ns ! i)"
  by (simp add: nd_at_def)

lemma nd_put_int [simp]: "i < length ns \<Longrightarrow> nd_put ns (int i) n = Some (ns[i := n])"
  by (simp add: nd_put_def)

lemma nd_at_0 [simp]: "0 < length ns \<Longrightarrow> nd_at ns 0 = Some (ns ! 0)"
  by (simp add: nd_at_def)

lemma fs_live_int [simp]:
  "i < length ns \<Longrightarrow> length ns = FS_MAX_NODES \<Longrightarrow> fs_live ns (int i) = Some (nd_used (ns ! i))"
  by (simp add: fs_live_def)

lemma fs_live_total:
  assumes "length ns = FS_MAX_NODES"
  shows "fs_live ns k = Some (0 \<le> k \<and> used_node ns (nat k))"
  using assms by (auto simp: fs_live_def nd_at_def used_node_def)

subsection \<open>Lookup of a child, and of a free slot\<close>

definition lookup :: "fs \<Rightarrow> nat \<Rightarrow> string \<Rightarrow> nat option" where
  "lookup ns p s =
     find (\<lambda>i. nd_used (ns ! i) \<and> nd_parent (ns ! i) = int p \<and> node_name ns i = s) [0..<FS_MAX_NODES]"

definition free_slot :: "fs \<Rightarrow> nat option" where
  "free_slot ns = find (\<lambda>i. \<not> nd_used (ns ! i)) [1..<FS_MAX_NODES]"

definition node_code :: "nat option \<Rightarrow> int" where
  "node_code r = (case r of None \<Rightarrow> -1 | Some i \<Rightarrow> int i)"

lemma node_code_simps [simp]: "node_code None = -1" "node_code (Some i) = int i"
  by (simp_all add: node_code_def)

lemma node_code_neg [simp]: "node_code r < 0 \<longleftrightarrow> r = None"
  by (cases r) auto

lemma node_code_nonneg [simp]: "0 \<le> node_code r \<longleftrightarrow> r \<noteq> None"
  by (cases r) auto

lemma find_child_loop_eq:
  assumes "fs_mem ns" "NUL \<in> set b" "set is \<subseteq> {..<FS_MAX_NODES}"
  shows "find_child_loop is ns (int p) b =
    Some (node_code (find (\<lambda>i. nd_used (ns ! i) \<and> nd_parent (ns ! i) = int p
       \<and> node_name ns i = cstr b) is))"
  using assms(3)
proof (induction "is")
  case Nil
  then show ?case by simp
next
  case (Cons i "is")
  then have i: "i < FS_MAX_NODES" by simp
  from i assms(1) have rd: "rd ns i = Some (ns ! i)" by (simp add: fs_mem_length)
  have nul: "NUL \<in> set (nd_name (ns ! i))"
    using fs_mem_node [OF assms(1) i] by (rule node_ok_NUL)
  obtain r where r: "kstrcmp (nd_name (ns ! i)) b = Some r"
    using kstrcmp_total [OF nul assms(2)] by blast
  have "r = 0 \<longleftrightarrow> node_name ns i = cstr b"
    using kstrcmp_zero [OF nul assms(2)] r by simp
  with Cons rd r show ?case by simp
qed

lemma find_child_eq [loop_simps]:
  assumes "fs_mem ns" "NUL \<in> set b"
  shows "find_child ns (int p) b = Some (node_code (lookup ns p (cstr b)))"
  unfolding find_child_def lookup_def
  by (rule find_child_loop_eq [OF assms]) auto

lemma lookup_SomeD:
  assumes "lookup ns p s = Some i"
  shows "used_node ns i" "nd_parent (ns ! i) = int p" "node_name ns i = s"
  using assms by (auto simp: lookup_def find_Some_iff used_node_def)

lemma lookup_NoneD:
  assumes "lookup ns p s = None" "used_node ns i" "nd_parent (ns ! i) = int p"
  shows "node_name ns i \<noteq> s"
  using assms by (auto simp: lookup_def find_None_iff used_node_def)

lemma lookup_Some_iff:
  assumes "fs_wf ns"
  shows "lookup ns p s = Some i \<longleftrightarrow>
    used_node ns i \<and> nd_parent (ns ! i) = int p \<and> node_name ns i = s"
proof
  assume "used_node ns i \<and> nd_parent (ns ! i) = int p \<and> node_name ns i = s"
  moreover from this obtain j where j: "lookup ns p s = Some j"
    by (meson lookup_NoneD not_None_eq)
  ultimately show "lookup ns p s = Some i"
    using lookup_SomeD [OF j] fs_wf_unique [OF assms] by metis
qed (simp add: lookup_SomeD)

text \<open>What \<open>alloc_node\<close> leaves in the slot it returns.\<close>

definition fresh_node :: "fs_node \<Rightarrow> fs_node" where
  "fresh_node n = n\<lparr>nd_used := True, nd_is_dir := False, nd_parent := 0, nd_owner := 0,
     nd_mode := FS_DEFAULT_FILE_MODE, nd_size := 0,
     nd_name := (nd_name n)[0 := NUL], nd_data := (nd_data n)[0 := NUL]\<rparr>"

lemma alloc_node_loop_eq:
  assumes "fs_mem ns" "set is \<subseteq> {..<FS_MAX_NODES}"
  shows "alloc_node_loop is ns = Some
    (case find (\<lambda>i. \<not> nd_used (ns ! i)) is of
       None \<Rightarrow> (-1, ns) | Some i \<Rightarrow> (int i, ns[i := fresh_node (ns ! i)]))"
  using assms(2)
proof (induction "is")
  case Nil
  then show ?case by simp
next
  case (Cons i "is")
  then have "i < FS_MAX_NODES" by simp
  with assms(1) have "i < length ns" "node_ok (ns ! i)"
    by (simp_all add: fs_mem_length fs_mem_node)
  moreover from this have "0 < length (nd_name (ns ! i))" "0 < length (nd_data (ns ! i))"
    by (simp_all add: node_ok_def)
  ultimately show ?case using Cons by (simp add: fresh_node_def)
qed

lemma alloc_node_eq [loop_simps]:
  assumes "fs_mem ns"
  shows "alloc_node ns = Some
    (case free_slot ns of None \<Rightarrow> (-1, ns) | Some i \<Rightarrow> (int i, ns[i := fresh_node (ns ! i)]))"
  unfolding alloc_node_def free_slot_def
  by (rule alloc_node_loop_eq [OF assms]) auto

lemma free_slot_SomeD:
  assumes "free_slot ns = Some i"
  shows "i < FS_MAX_NODES" "i \<noteq> 0" "\<not> nd_used (ns ! i)"
  using assms by (auto simp: free_slot_def find_Some_iff nth_append)

lemma free_slot_NoneD:
  assumes "free_slot ns = None" "i < FS_MAX_NODES" "i \<noteq> 0"
  shows "nd_used (ns ! i)"
  using assms by (auto simp: free_slot_def find_None_iff)

lemma has_child_loop_eq:
  assumes "length ns = FS_MAX_NODES" "set is \<subseteq> {..<FS_MAX_NODES}"
  shows "has_child_loop is ns k = Some (\<exists>i \<in> set is. nd_used (ns ! i) \<and> nd_parent (ns ! i) = k)"
  using assms(2) by (induction "is") (auto simp: assms(1))

end
