(* ===== verification/FsPath.thy ===== *)
theory FsPath
  imports FsTree
begin

text \<open>
  What path resolution means. \<^theory_text>\<open>walk\<close> follows a list of components from a node;
  \<^theory_text>\<open>resolve_spec\<close> splits a path at its slashes and walks. The character loop of
  \<open>fs_resolve\<close>, with its 31 byte token buffer, computes exactly that on every well-formed file
  system, and \<open>resolve_parent_and_leaf\<close> computes \<^theory_text>\<open>parent_leaf\<close>.
\<close>

subsection \<open>Components\<close>

fun split_slash :: "string \<Rightarrow> string list" where
  "split_slash [] = [[]]"
| "split_slash (c # s) =
     (if c = CHR ''/'' then [] # split_slash s
      else (c # hd (split_slash s)) # tl (split_slash s))"

lemma split_slash_nonempty [simp]: "split_slash s \<noteq> []"
  by (induction s) auto

lemma split_slash_prefix:
  "CHR ''/'' \<notin> set t \<Longrightarrow> split_slash (t @ p) = (t @ hd (split_slash p)) # tl (split_slash p)"
  by (induction t) auto

lemma split_slash_single [simp]: "CHR ''/'' \<notin> set t \<Longrightarrow> split_slash t = [t]"
  using split_slash_prefix [of t "[]"] by simp

lemma split_slash_slash [simp]:
  "CHR ''/'' \<notin> set t \<Longrightarrow> split_slash (t @ CHR ''/'' # p) = t # split_slash p"
  using split_slash_prefix [of t "CHR ''/'' # p"] by simp

lemma split_slash_append:
  "split_slash (d @ CHR ''/'' # s) = split_slash d @ split_slash s"
  by (induction d) auto

subsection \<open>Walking\<close>

definition walk_step :: "fs \<Rightarrow> nat \<Rightarrow> string \<Rightarrow> nat option" where
  "walk_step ns c tok =
     (if tok = [] \<or> tok = ''.'' then Some c
      else if tok = ''..'' then Some (if c = 0 then 0 else nat (nd_parent (ns ! c)))
      else lookup ns c tok)"

fun walk :: "fs \<Rightarrow> nat \<Rightarrow> string list \<Rightarrow> nat option" where
  "walk ns c [] = Some c"
| "walk ns c (t # ts) = (case walk_step ns c t of None \<Rightarrow> None | Some d \<Rightarrow> walk ns d ts)"

definition resolve_spec :: "fs \<Rightarrow> nat \<Rightarrow> string \<Rightarrow> nat option" where
  "resolve_spec ns c p =
     walk ns (if p \<noteq> [] \<and> hd p = CHR ''/'' then 0 else c) (split_slash p)"

lemma walk_append:
  "walk ns c (ts @ us) = (case walk ns c ts of None \<Rightarrow> None | Some d \<Rightarrow> walk ns d us)"
  by (induction ts arbitrary: c) (auto split: option.splits)

lemma walk_step_used:
  assumes "fs_wf ns" "used_node ns c" "walk_step ns c t = Some d"
  shows "used_node ns d"
proof -
  obtain p where p: "nd_parent (ns ! c) = int p" "dir_node ns p"
    using assms(1,2) by (rule fs_wf_parent)
  then show ?thesis
    using assms fs_wf_root [OF assms(1)] lookup_SomeD(1)
    by (auto simp: walk_step_def split: if_splits)
qed

lemma walk_used:
  assumes "fs_wf ns"
  shows "used_node ns c \<Longrightarrow> walk ns c ts = Some d \<Longrightarrow> used_node ns d"
proof (induction ts arbitrary: c)
  case Nil
  then show ?case by simp
next
  case (Cons t ts)
  then show ?case using walk_step_used [OF assms Cons.prems(1)] by (auto split: option.splits)
qed

lemma resolve_spec_used:
  assumes "fs_wf ns" "used_node ns c" "resolve_spec ns c p = Some d"
  shows "used_node ns d"
proof -
  have "used_node ns 0" using fs_wf_root [OF assms(1)] by blast
  with assms show ?thesis
    using walk_used [OF assms(1)] by (auto simp: resolve_spec_def split: if_splits)
qed

lemma lookup_name_length:
  assumes "fs_wf ns" "lookup ns c t = Some i"
  shows "length t \<le> FS_MAX_NAME"
proof -
  have "used_node ns i" and n: "node_name ns i = t" using lookup_SomeD [OF assms(2)] by simp_all
  then have "node_ok (ns ! i)" using assms(1) fs_mem_node fs_wf_mem used_node_def by blast
  then have "length (node_name ns i) \<le> FS_MAX_NAME" by (rule node_ok_name_length)
  then show ?thesis unfolding n .
qed

lemma walk_step_long:
  assumes "fs_wf ns" "FS_MAX_NAME < length t"
  shows "walk_step ns c t = None"
  using assms lookup_name_length [OF assms(1), of c t]
  by (cases "lookup ns c t") (auto simp: walk_step_def)

subsection \<open>fs_resolve\<close>

lemma resolve_token_eq:
  assumes "fs_wf ns" "used_node ns c" "nul_free tok"
  shows "resolve_token ns (int c) tok =
    Some (case walk_step ns c tok of None \<Rightarrow> Inl (-1) | Some d \<Rightarrow> Inr (int d))"
proof -
  obtain p where p: "nd_parent (ns ! c) = int p" using assms(1,2) by (rule fs_wf_parent)
  have c: "c < length ns" using assms by (simp add: used_node_def)
  have "NUL \<in> set (c_str tok)" by (simp add: c_str_def)
  with assms have "find_child ns (int c) (c_str tok) = Some (node_code (lookup ns c tok))"
    by (simp add: find_child_eq)
  with assms(3) c p show ?thesis
    by (auto simp: resolve_token_def walk_step_def split: option.splits)
qed

lemma resolve_loop_eq:
  assumes "fs_wf ns"
  shows "used_node ns c \<Longrightarrow> nul_free path \<Longrightarrow> nul_free tok \<Longrightarrow> CHR ''/'' \<notin> set tok \<Longrightarrow>
    length tok \<le> FS_MAX_NAME \<Longrightarrow>
    resolve_loop ns path (int c) tok = Some (node_code (walk ns c (split_slash (tok @ path))))"
proof (induction path arbitrary: c tok)
  case Nil
  then show ?case
    by (simp add: resolve_token_eq [OF assms] split: option.splits)
next
  case (Cons ch path)
  show ?case
  proof (cases "ch = CHR ''/''")
    case True
    with Cons assms show ?thesis
      using walk_step_used [OF assms Cons.prems(1)]
      by (auto simp: resolve_token_eq split: option.splits)
  next
    case ch: False
    show ?thesis
    proof (cases "length tok < FS_MAX_NAME")
      case True
      with ch Cons show ?thesis by simp
    next
      case False
      let ?t = "(tok @ [ch]) @ hd (split_slash path)"
      have "split_slash (tok @ ch # path) = ?t # tl (split_slash path)"
        using ch Cons.prems(4) split_slash_prefix [of "tok @ [ch]" path] by simp
      moreover have "walk_step ns c ?t = None"
        using False by (intro walk_step_long [OF assms]) simp
      ultimately show ?thesis using False ch Cons.prems by simp
    qed
  qed
qed

lemma fs_resolve_eq [loop_simps]:
  assumes "fs_wf ns" "used_node ns c" "nul_free p"
  shows "fs_resolve ns (int c) (Some p) = Some (node_code (resolve_spec ns c p))"
proof -
  have "used_node ns 0" using fs_wf_root [OF assms(1)] by blast
  from resolve_loop_eq [OF assms(1) this assms(3), of "[]"]
    resolve_loop_eq [OF assms(1,2,3), of "[]"]
  show ?thesis by (auto simp: fs_resolve_def resolve_spec_def walk_step_def)
qed

subsection \<open>The parent directory and the last component\<close>

definition leafpart :: "string \<Rightarrow> string" where
  "leafpart p = rev (takeWhile (\<lambda>c. c \<noteq> CHR ''/'') (rev p))"

definition dirpart :: "string \<Rightarrow> string" where
  "dirpart p = rev (tl (dropWhile (\<lambda>c. c \<noteq> CHR ''/'') (rev p)))"

definition parent_leaf :: "fs \<Rightarrow> nat \<Rightarrow> string \<Rightarrow> (nat \<times> string) option" where
  "parent_leaf ns c p =
     (if CHR ''/'' \<notin> set p then (if valid_name p then Some (c, p) else None)
      else if leafpart p = [] \<or> length (dirpart p) \<ge> 128 then None
      else case (if dirpart p = [] then Some 0 else resolve_spec ns c (dirpart p)) of
        None \<Rightarrow> None
      | Some q \<Rightarrow>
          if nd_is_dir (ns ! q) \<and> valid_name (leafpart p) then Some (q, leafpart p) else None)"

lemma leafpart_no_slash: "CHR ''/'' \<notin> set (leafpart p)"
  by (auto simp: leafpart_def dest: set_takeWhileD)

lemma path_parts:
  assumes "CHR ''/'' \<in> set p"
  shows "p = dirpart p @ CHR ''/'' # leafpart p"
proof -
  let ?P = "\<lambda>c. c \<noteq> CHR ''/''"
  have ne: "dropWhile ?P (rev p) \<noteq> []" using assms by (auto simp: dropWhile_eq_Nil_conv)
  have "hd (dropWhile ?P (rev p)) = CHR ''/''" using hd_dropWhile [OF ne] by simp
  with ne have "dropWhile ?P (rev p) = CHR ''/'' # tl (dropWhile ?P (rev p))"
    by (metis list.collapse)
  then have "rev p = takeWhile ?P (rev p) @ CHR ''/'' # tl (dropWhile ?P (rev p))"
    by (metis takeWhile_dropWhile_id)
  then have "p = rev (takeWhile ?P (rev p) @ CHR ''/'' # tl (dropWhile ?P (rev p)))"
    by (metis rev_rev_ident)
  then show ?thesis by (simp add: dirpart_def leafpart_def)
qed

lemma last_slash_none: "CHR ''/'' \<notin> set s \<Longrightarrow> last_slash s i acc = acc"
  by (induction s arbitrary: i) auto

lemma last_slash_append:
  "last_slash (s @ t) i acc = last_slash t (i + length s) (last_slash s i acc)"
  by (induction s arbitrary: i acc) auto

lemma last_slash_eq:
  "last_slash p 0 None = (if CHR ''/'' \<in> set p then Some (length (dirpart p)) else None)"
proof (cases "CHR ''/'' \<in> set p")
  case True
  have "last_slash (dirpart p @ CHR ''/'' # leafpart p) 0 None = Some (length (dirpart p))"
    by (simp add: last_slash_append last_slash_none leafpart_no_slash)
  then show ?thesis using True path_parts [OF True] by simp
qed (simp add: last_slash_none)

definition leaf_array :: "string \<Rightarrow> char list" where
  "leaf_array s = s @ NUL # replicate (FS_MAX_NAME - length s) NUL"

lemma leaf_array_simps [simp]:
  "NUL \<in> set (leaf_array s)" "nul_free s \<Longrightarrow> cstr (leaf_array s) = s"
  by (simp_all add: leaf_array_def)

lemma leaf_copy:
  assumes "valid_name s" "nul_free s"
  shows "kstrcpy (replicate 32 NUL) (c_str s) = Some (leaf_array s)"
  using assms by (simp add: loop_simps valid_name_def leaf_array_def drop_replicate)

lemma resolve_dir_prefix_eq:
  assumes wf: "fs_wf ns" and c: "used_node ns c" and p: "nul_free p" "CHR ''/'' \<in> set p"
  shows "resolve_dir_prefix ns (int c) p (length (dirpart p)) =
    Some (if length (dirpart p) \<ge> 128 then -1
          else node_code (if dirpart p = [] then Some 0 else resolve_spec ns c (dirpart p)))"
proof (cases "dirpart p = [] \<or> 128 \<le> length (dirpart p)")
  case True
  then show ?thesis by (auto simp: resolve_dir_prefix_def)
next
  case False
  let ?d = "dirpart p"
  note parts = path_parts [OF p(2)]
  have len: "length ?d < length p" by (subst (2) parts) simp
  have nf: "nul_free ?d" using p by (metis parts nul_free_append)
  have "take (length ?d) p = ?d" by (subst (2) parts) simp
  then have "take (length ?d) (c_str p) = ?d" using len by (simp add: c_str_def)
  moreover have "(?d @ drop (length ?d) (replicate 128 NUL))[length ?d := NUL]
      = ?d @ NUL # replicate (127 - length ?d) NUL"
    using False by (simp add: list_update_append drop_replicate) (cases "128 - length ?d"; simp)
  moreover have "length ?d \<le> length (c_str p)" using len by (simp add: c_str_def)
  ultimately show ?thesis using False wf c nf
    by (simp add: resolve_dir_prefix_def loop_simps wr_def)
qed

lemma resolve_parent_and_leaf_eq [loop_simps]:
  assumes wf: "fs_wf ns" and c: "used_node ns c" and p: "nul_free p"
  shows "resolve_parent_and_leaf ns (int c) (Some p) =
    Some (map_option (\<lambda>(q, s). (int q, leaf_array s)) (parent_leaf ns c p))"
proof (cases "CHR ''/'' \<in> set p")
  case False
  with p show ?thesis
    by (auto simp: resolve_parent_and_leaf_def parent_leaf_def last_slash_eq leaf_copy
        valid_name_def)
next
  case True
  let ?d = "dirpart p" and ?s = "leafpart p"
  define r where "r = (if ?d = [] then Some 0 else resolve_spec ns c ?d)"
  note parts = path_parts [OF True]
  have ne: "p \<noteq> []" using True by auto
  have len: "length p = length ?d + 1 + length ?s" by (subst parts) simp
  then have last: "length ?d = length p - 1 \<longleftrightarrow> ?s = []" by auto
  have drop: "drop (length ?d + 1) p = ?s" by (subst (2) parts) simp
  have nf: "nul_free ?s" using p by (metis parts nul_free_append nul_free_Cons)
  have used: "q < length ns" if "r = Some q" for q
    using that resolve_spec_used [OF wf c] wf by (auto simp: r_def used_node_def split: if_splits)
  have pre: "resolve_dir_prefix ns (int c) p (length ?d) =
      Some (if length ?d \<ge> 128 then -1 else node_code r)"
    unfolding r_def by (rule resolve_dir_prefix_eq [OF wf c p True])
  have spec: "parent_leaf ns c p = (if ?s = [] \<or> 128 \<le> length ?d then None else
      case r of None \<Rightarrow> None | Some q \<Rightarrow>
        if nd_is_dir (ns ! q) \<and> valid_name ?s then Some (q, ?s) else None)"
    using True by (simp add: parent_leaf_def r_def)
  have "resolve_parent_and_leaf ns (int c) (Some p) = (if ?s = [] then Some None else do {
      parent \<leftarrow> resolve_dir_prefix ns (int c) p (length ?d);
      if parent < 0 then Some None
      else do {
        n \<leftarrow> nd_at ns parent;
        if \<not> nd_is_dir n then Some None
        else if \<not> valid_name ?s then Some None
        else do { leaf \<leftarrow> kstrcpy (replicate 32 NUL) (c_str ?s); Some (Some (parent, leaf)) } } })"
    using True ne p by (simp add: resolve_parent_and_leaf_def last_slash_eq drop last
        del: add_Suc_right One_nat_def cong del: if_weak_cong)
  then show ?thesis
    using used nf by (cases r) (simp_all add: pre spec leaf_copy)
qed

lemma parent_leafD:
  assumes "fs_wf ns" "dir_node ns c" "nul_free p" "parent_leaf ns c p = Some (q, s)"
  shows "dir_node ns q" "valid_name s" "nul_free s"
proof -
  have c: "used_node ns c" using assms by blast
  have "dir_node ns q \<and> valid_name s \<and> nul_free s"
  proof (cases "CHR ''/'' \<in> set p")
    case False
    with assms show ?thesis by (auto simp: parent_leaf_def split: if_splits)
  next
    case True
    have "nul_free (leafpart p)" using assms(3) by (metis path_parts [OF True] nul_free_append nul_free_Cons)
    then show ?thesis
      using True assms resolve_spec_used [OF assms(1) c] fs_wf_root [OF assms(1)]
      by (auto simp: parent_leaf_def dir_node_def used_node_def split: if_splits option.splits)
  qed
  then show "dir_node ns q" "valid_name s" "nul_free s" by simp_all
qed

lemma parent_leaf_resolve:
  assumes "parent_leaf ns c p = Some (q, s)"
  shows "resolve_spec ms c p = (case (if CHR ''/'' \<notin> set p then Some c
      else if dirpart p = [] then Some 0 else resolve_spec ms c (dirpart p)) of
      None \<Rightarrow> None | Some r \<Rightarrow> walk_step ms r s)"
proof (cases "CHR ''/'' \<in> set p")
  case False
  with assms have "c = q" "p = s" "valid_name p"
    by (auto simp: parent_leaf_def split: if_splits)
  moreover from this have "hd p \<noteq> CHR ''/''"
    using False by (metis hd_in_set valid_name_def)
  ultimately show ?thesis using False by (simp add: resolve_spec_def split: option.splits)
next
  case True
  note parts = path_parts [OF True]
  have s: "s = leafpart p" using assms True by (auto simp: parent_leaf_def split: if_splits option.splits)
  have "split_slash p = split_slash (dirpart p) @ [s]"
    using leafpart_no_slash [of p] by (subst parts) (simp add: split_slash_append s)
  moreover have "hd p = (if dirpart p = [] then CHR ''/'' else hd (dirpart p))" "p \<noteq> []"
    by (subst parts, simp)+
  ultimately show ?thesis using True
    by (auto simp: resolve_spec_def walk_append walk_step_def split: option.splits)
qed

end
