(* ===== verification/FsOps.thy ===== *)
theory FsOps
  imports FsPath
begin

text \<open>
  What the mutating operations of kernel/fs.c do to a well-formed table, in closed form, and
  that they keep it well formed: creating a node in the first free slot, rewriting one node's
  contents or attributes, and removing a node. The last part states the component's contract
  as an interpretation of \<^theory_text>\<open>guarded_machine\<close>.
\<close>

subsection \<open>Updates of one node\<close>

lemma used_node_update:
  "i < FS_MAX_NODES \<Longrightarrow> length ns = FS_MAX_NODES \<Longrightarrow>
    used_node (ns[i := n]) j \<longleftrightarrow> (if j = i then nd_used n else used_node ns j)"
  by (auto simp: used_node_def)

lemma dir_node_update:
  "i < FS_MAX_NODES \<Longrightarrow> length ns = FS_MAX_NODES \<Longrightarrow>
    dir_node (ns[i := n]) j \<longleftrightarrow> (if j = i then nd_used n \<and> nd_is_dir n else dir_node ns j)"
  by (auto simp: dir_node_def)

lemma anchored_mono:
  assumes "anchored ns j"
    and "\<And>k. used_node ns k \<Longrightarrow> used_node ns' k \<and> nd_parent (ns' ! k) = nd_parent (ns ! k)"
  shows "anchored ns' j"
  using assms(1)
proof (induction rule: anchored.induct)
  case root
  show ?case by (rule anchored.root)
next
  case (step i)
  then have "used_node ns i" by (simp add: used_node_def)
  with assms(2) have "used_node ns' i" "nd_parent (ns' ! i) = nd_parent (ns ! i)" by auto
  with step show ?case using anchored.step [of i ns'] by (simp add: used_node_def)
qed

lemma fs_wf_anchored: "fs_wf ns \<Longrightarrow> used_node ns i \<Longrightarrow> anchored ns i"
  by (simp add: fs_wf_def tree_ok_def parents_ok_def used_node_def)

text \<open>The conditions of \<^theory_text>\<open>fs_wf\<close>, in the vocabulary of nodes.\<close>

lemma fs_wfI:
  assumes "fs_mem ns" "dir_node ns 0" "nd_parent (ns ! 0) = 0" "node_name ns 0 = ''/''"
    and "\<And>i. used_node ns i \<Longrightarrow> \<exists>p. nd_parent (ns ! i) = int p \<and> dir_node ns p"
    and "\<And>i. used_node ns i \<Longrightarrow> anchored ns i"
    and "\<And>i. used_node ns i \<Longrightarrow> i \<noteq> 0 \<Longrightarrow> valid_name (node_name ns i)"
    and "\<And>i j. used_node ns i \<Longrightarrow> used_node ns j \<Longrightarrow> nd_parent (ns ! i) = nd_parent (ns ! j) \<Longrightarrow>
           node_name ns i = node_name ns j \<Longrightarrow> i = j"
  shows "fs_wf ns"
proof -
  have "root_ok ns" using assms(2-4) by (simp add: root_ok_def dir_node_def)
  moreover have "0 \<le> nd_parent (ns ! i) \<and> dir_node ns (nat (nd_parent (ns ! i)))"
    if "used_node ns i" for i using assms(5) [OF that] by auto
  then have "parents_ok ns"
    unfolding parents_ok_def using assms(6) by (simp add: used_node_def)
  moreover have "names_ok ns" unfolding names_ok_def using assms(7) by (auto simp: used_node_def)
  moreover have "unique_ok ns" unfolding unique_ok_def using assms(8) by (auto simp: used_node_def)
  ultimately show ?thesis using assms(1) by (simp add: fs_wf_def tree_ok_def)
qed

lemma fs_wf_root_name: "fs_wf ns \<Longrightarrow> node_name ns 0 = ''/''"
  by (simp add: fs_wf_def tree_ok_def root_ok_def)

text \<open>Rewriting a node's owner, mode, data or size.\<close>

lemma fs_wf_attr:
  assumes wf: "fs_wf ns" and i: "used_node ns i" and n: "node_ok n"
    and same: "nd_used n" "nd_is_dir n = nd_is_dir (ns ! i)" "nd_parent n = nd_parent (ns ! i)"
      "nd_name n = nd_name (ns ! i)"
  shows "fs_wf (ns[i := n])"
proof -
  have il: "i < FS_MAX_NODES" "length ns = FS_MAX_NODES"
    using i wf by (simp_all add: used_node_def)
  have par: "nd_parent (ns[i := n] ! k) = nd_parent (ns ! k)" for k
    using il same by (cases "k = i") auto
  have nam: "node_name (ns[i := n]) k = node_name ns k" for k
    using il same by (cases "k = i") auto
  have used: "used_node (ns[i := n]) k \<longleftrightarrow> used_node ns k" for k
    using il same i by (simp add: used_node_update)
  have dir: "dir_node (ns[i := n]) k \<longleftrightarrow> dir_node ns k" for k
    using il same i by (cases "k = i") (simp_all add: dir_node_def used_node_def)
  show ?thesis
  proof (rule fs_wfI)
    show "fs_mem (ns[i := n])" using wf n by blast
    fix k j
    show "\<exists>p. nd_parent (ns[i := n] ! k) = int p \<and> dir_node (ns[i := n]) p"
      if "used_node (ns[i := n]) k"
      using that fs_wf_parent [OF wf, of k] by (auto simp: par dir used)
    show "anchored (ns[i := n]) k" if "used_node (ns[i := n]) k"
      using that fs_wf_anchored [OF wf, of k] by (auto intro: anchored_mono simp: used par)
    show "valid_name (node_name (ns[i := n]) k)" if "used_node (ns[i := n]) k" "k \<noteq> 0"
      using that fs_wf_name [OF wf] by (simp add: used nam)
    show "k = j" if "used_node (ns[i := n]) k" "used_node (ns[i := n]) j"
      "nd_parent (ns[i := n] ! k) = nd_parent (ns[i := n] ! j)"
      "node_name (ns[i := n]) k = node_name (ns[i := n]) j"
      using that fs_wf_unique [OF wf] by (simp add: used nam par)
  qed (use fs_wf_root [OF wf] fs_wf_root_parent [OF wf] fs_wf_root_name [OF wf]
      in \<open>simp_all add: dir par nam\<close>)
qed

subsection \<open>Creating a node\<close>

definition new_node :: "bool \<Rightarrow> fs_node \<Rightarrow> nat \<Rightarrow> string \<Rightarrow> u16 \<Rightarrow> u16 \<Rightarrow> fs_node" where
  "new_node d n q s owner mode = n\<lparr>nd_used := True, nd_is_dir := d, nd_parent := int q,
     nd_owner := owner, nd_mode := mode AND MODE_MASK, nd_size := 0,
     nd_name := s @ NUL # drop (Suc (length s)) (nd_name n), nd_data := (nd_data n)[0 := NUL]\<rparr>"

lemma new_node_simps [simp]:
  "nd_used (new_node d n q s owner mode)" "nd_is_dir (new_node d n q s owner mode) = d"
  "nd_parent (new_node d n q s owner mode) = int q" "nd_size (new_node d n q s owner mode) = 0"
  "nd_owner (new_node d n q s owner mode) = owner"
  "nd_mode (new_node d n q s owner mode) = mode AND MODE_MASK"
  by (simp_all add: new_node_def)

lemma new_node_name [simp]: "nul_free s \<Longrightarrow> cstr (nd_name (new_node d n q s owner mode)) = s"
  by (simp add: new_node_def)

lemma mode_mask_idem [simp]: "m AND MODE_MASK AND MODE_MASK = m AND MODE_MASK" for m :: u16
  by (simp add: and.assoc)

lemma new_node_ok:
  assumes "node_ok n" "valid_name s"
  shows "node_ok (new_node d n q s owner mode)"
proof -
  have len: "length s \<le> FS_MAX_NAME" "length (nd_name n) = 32" "nd_name n ! 31 = NUL"
    "length (nd_data n) = 4096"
    using assms by (simp_all add: node_ok_def valid_name_def)
  then have "(s @ NUL # drop (Suc (length s)) (nd_name n)) ! FS_MAX_NAME = NUL"
    by (cases "length s = FS_MAX_NAME") (simp_all add: nth_append nth_Cons')
  with len show ?thesis by (simp add: node_ok_def new_node_def)
qed

lemma fs_wf_create:
  assumes wf: "fs_wf ns" and q: "dir_node ns q" and s: "valid_name s" "nul_free s"
    and new: "lookup ns q s = None" and i: "free_slot ns = Some i"
  shows "fs_wf (ns[i := new_node d (ns ! i) q s owner mode])" (is "fs_wf ?ns'")
proof -
  have il: "i < FS_MAX_NODES" "length ns = FS_MAX_NODES" "i \<noteq> 0"
    using free_slot_SomeD [OF i] wf by simp_all
  have un: "\<not> used_node ns i" using free_slot_SomeD [OF i] by (simp add: used_node_def)
  have other: "?ns' ! k = ns ! k" if "used_node ns k" for k
    using that un by (cases "k = i") auto
  have qi: "q \<noteq> i" using q un by (auto simp: dir_node_def used_node_def)
  have dir: "dir_node ?ns' k" if "dir_node ns k" for k
    using that un other [of k] il by (auto simp: dir_node_def used_node_def)
  have used: "used_node ?ns' k \<longleftrightarrow> used_node ns k \<or> k = i" for k
    using il un by (auto simp: used_node_update)
  have new_i: "?ns' ! i = new_node d (ns ! i) q s owner mode" using il by simp
  have anch: "anchored ?ns' k" if "used_node ns k" for k
    using fs_wf_anchored [OF wf that] by (rule anchored_mono) (simp add: used other)
  show ?thesis
  proof (rule fs_wfI)
    show "fs_mem ?ns'"
      using wf il s by (intro fs_mem_update new_node_ok) (auto simp: fs_mem_node)
    fix k j
    show "\<exists>p. nd_parent (?ns' ! k) = int p \<and> dir_node ?ns' p" if "used_node ?ns' k"
    proof (cases "k = i")
      case True
      then show ?thesis using new_i dir [OF q] by auto
    next
      case False
      with that have "used_node ns k" by (simp add: used)
      then show ?thesis using fs_wf_parent [OF wf] other dir by metis
    qed
    show "anchored ?ns' k" if "used_node ?ns' k"
    proof (cases "k = i")
      case True
      have "anchored ?ns' q" using q by (blast intro: anch)
      then show ?thesis using True il new_i anchored.step [of i ?ns'] by simp
    next
      case False
      with that anch show ?thesis by (simp add: used)
    qed
    show "valid_name (node_name ?ns' k)" if "used_node ?ns' k" "k \<noteq> 0"
      using that new_i s other fs_wf_name [OF wf] by (auto simp: used)
    have fresh_name: "node_name ns k \<noteq> s" if "used_node ns k" "nd_parent (ns ! k) = int q" for k
      using lookup_NoneD [OF new that] .
    show "k = j" if "used_node ?ns' k" "used_node ?ns' j"
      "nd_parent (?ns' ! k) = nd_parent (?ns' ! j)" "node_name ?ns' k = node_name ?ns' j"
      using that new_i s other fs_wf_unique [OF wf, of k j] fresh_name [of k] fresh_name [of j]
      by (cases "k = i"; cases "j = i") (auto simp: used)
  next
    have "?ns' ! 0 = ns ! 0" using il by simp
    then show "dir_node ?ns' 0" "nd_parent (?ns' ! 0) = 0" "node_name ?ns' 0 = ''/''"
      using fs_wf_root [OF wf] dir fs_wf_root_parent [OF wf] fs_wf_root_name [OF wf] by simp_all
  qed
qed

text \<open>The common specification of \<open>fs_mkdir_as\<close> (\<open>d\<close> True) and \<open>fs_touch_as\<close> (\<open>d\<close> False).\<close>

definition create_spec :: "bool \<Rightarrow> fs \<Rightarrow> nat \<Rightarrow> string \<Rightarrow> u16 \<Rightarrow> u16 \<Rightarrow> int \<times> fs" where
  "create_spec d ns c p owner mode =
     (case parent_leaf ns c p of
        None \<Rightarrow> (-1, ns)
      | Some (q, s) \<Rightarrow>
          (case lookup ns q s of
             Some e \<Rightarrow> (if nd_is_dir (ns ! e) = d then 0 else -1, ns)
           | None \<Rightarrow>
               (case free_slot ns of
                  None \<Rightarrow> (-1, ns)
                | Some i \<Rightarrow> (0, ns[i := new_node d (ns ! i) q s owner mode]))))"

lemma kstrcpy_leaf:
  assumes "node_ok n" "valid_name s" "nul_free s"
  shows "kstrcpy (nd_name (fresh_node n)) (leaf_array s)
    = Some (s @ NUL # drop (Suc (length s)) (nd_name n))"
  using assms kstrcpy_eq [of s "nd_name (fresh_node n)" "replicate (FS_MAX_NAME - length s) NUL"]
  by (simp add: leaf_array_def fresh_node_def node_ok_def valid_name_def)

lemma new_node_install:
  "(fresh_node n)\<lparr>nd_is_dir := True, nd_parent := int q, nd_owner := owner,
      nd_mode := mode AND MODE_MASK, nd_name := s @ NUL # drop (Suc (length s)) (nd_name n)\<rparr>
    = new_node True n q s owner mode"
  "(fresh_node n)\<lparr>nd_is_dir := False, nd_parent := int q, nd_owner := owner,
      nd_mode := mode AND MODE_MASK, nd_size := 0, nd_data := (nd_data n)[0 := NUL],
      nd_name := s @ NUL # drop (Suc (length s)) (nd_name n)\<rparr>
    = new_node False n q s owner mode"
  by (cases n; simp add: fresh_node_def new_node_def)+

lemma create_eqs:
  assumes wf: "fs_wf ns" and c: "dir_node ns c" and p: "nul_free p"
  shows fs_mkdir_as_eq: "fs_mkdir_as ns (int c) (Some p) owner mode
      = Some (create_spec True ns c p owner mode)"
    and fs_touch_as_eq: "fs_touch_as ns (int c) (Some p) owner mode
      = Some (create_spec False ns c p owner mode)"
proof -
  have u: "used_node ns c" using c by blast
  note rpl = resolve_parent_and_leaf_eq [OF wf u p]
  note len = fs_wf_length [OF wf]
  show "fs_mkdir_as ns (int c) (Some p) owner mode = Some (create_spec True ns c p owner mode)"
    and "fs_touch_as ns (int c) (Some p) owner mode = Some (create_spec False ns c p owner mode)"
  proof (atomize (full), cases "parent_leaf ns c p")
    case None
    then show "fs_mkdir_as ns (int c) (Some p) owner mode = Some (create_spec True ns c p owner mode) \<and>
      fs_touch_as ns (int c) (Some p) owner mode = Some (create_spec False ns c p owner mode)"
      by (simp add: fs_mkdir_as_def fs_touch_as_def create_spec_def rpl)
  next
    case (Some qs)
    obtain q s where qs: "qs = (q, s)" by (cases qs)
    note leaf = parent_leafD [OF wf c p Some [unfolded qs]]
    have find: "find_child ns (int q) (leaf_array s) = Some (node_code (lookup ns q s))"
      using leaf wf by (simp add: find_child_eq)
    have existing: "e < length ns" if "lookup ns q s = Some e" for e
      using lookup_SomeD(1) [OF that] len by (simp add: used_node_def)
    have slot: "i < length ns \<and> node_ok (ns ! i)" if "free_slot ns = Some i" for i
      using free_slot_SomeD [OF that] len wf by (simp add: fs_mem_node)
    have data: "wr (nd_data (fresh_node n)) 0 NUL = Some ((nd_data n)[0 := NUL])" if "node_ok n" for n
      using that by (simp add: fresh_node_def node_ok_def wr_def)
    show "fs_mkdir_as ns (int c) (Some p) owner mode = Some (create_spec True ns c p owner mode) \<and>
      fs_touch_as ns (int c) (Some p) owner mode = Some (create_spec False ns c p owner mode)"
    proof (cases "lookup ns q s")
      case (Some e)
      with \<open>parent_leaf ns c p = Some qs\<close> existing [OF Some] show ?thesis
        by (simp add: fs_mkdir_as_def fs_touch_as_def create_spec_def rpl qs find)
    next
      case None
      show ?thesis
      proof (cases "free_slot ns")
        case None
        with \<open>lookup ns q s = None\<close> \<open>parent_leaf ns c p = Some qs\<close> wf show ?thesis
          by (simp add: fs_mkdir_as_def fs_touch_as_def create_spec_def rpl qs find alloc_node_eq)
      next
        case (Some i)
        with \<open>lookup ns q s = None\<close> \<open>parent_leaf ns c p = Some qs\<close> wf slot [OF Some] leaf show ?thesis
          by (simp add: fs_mkdir_as_def fs_touch_as_def create_spec_def rpl qs find alloc_node_eq
              kstrcpy_leaf data new_node_install)
      qed
    qed
  qed
qed

lemma create_spec_wf:
  assumes "fs_wf ns" "dir_node ns c" "nul_free p" "create_spec d ns c p owner mode = (r, ns')"
  shows "fs_wf ns'"
  using assms parent_leafD [OF assms(1-3)]
  by (auto simp: create_spec_def intro: fs_wf_create split: option.splits prod.splits)

subsection \<open>Resolution under updates\<close>

text \<open>Every node of the first table is in the second, at the same place of the tree.\<close>

definition shape_le :: "fs \<Rightarrow> fs \<Rightarrow> bool" where
  "shape_le ns ns' \<longleftrightarrow> (\<forall>k < FS_MAX_NODES. nd_used (ns ! k) \<longrightarrow> nd_used (ns' ! k)
     \<and> nd_parent (ns' ! k) = nd_parent (ns ! k) \<and> node_name ns' k = node_name ns k)"

lemma shape_leD:
  assumes "shape_le ns ns'" "used_node ns k"
  shows "used_node ns' k" "nd_parent (ns' ! k) = nd_parent (ns ! k)"
    "node_name ns' k = node_name ns k"
  using assms by (auto simp: shape_le_def used_node_def)

lemma walk_mono:
  assumes wf: "fs_wf ns" "fs_wf ns'" and le: "shape_le ns ns'"
  shows "used_node ns c \<Longrightarrow> walk ns c ts = Some d \<Longrightarrow> walk ns' c ts = Some d"
proof (induction ts arbitrary: c)
  case Nil
  then show ?case by simp
next
  case (Cons t ts)
  then obtain e where e: "walk_step ns c t = Some e" "walk ns e ts = Some d"
    by (auto split: option.splits)
  have "lookup ns' c t = Some e" if "lookup ns c t = Some e"
    using that shape_leD [OF le] by (simp add: lookup_Some_iff wf)
  then have "walk_step ns' c t = Some e"
    using e(1) shape_leD [OF le Cons.prems(1)] by (auto simp: walk_step_def split: if_splits)
  moreover have "used_node ns e" using walk_step_used [OF wf(1) Cons.prems(1) e(1)] .
  ultimately show ?case using Cons.IH e(2) by simp
qed

lemma resolve_mono:
  assumes "fs_wf ns" "fs_wf ns'" "shape_le ns ns'" "used_node ns c" "resolve_spec ns c p = Some d"
  shows "resolve_spec ns' c p = Some d"
  using assms walk_mono [OF assms(1-3)] used_nodeI(1) [OF fs_wf_root [OF assms(1)]]
  by (auto simp: resolve_spec_def split: if_splits)

lemma resolve_same_shape:
  assumes "fs_wf ns" "fs_wf ns'" "shape_le ns ns'" "shape_le ns' ns" "used_node ns c"
  shows "resolve_spec ns' c p = resolve_spec ns c p"
  using resolve_mono [OF assms(1,2,3,5)] resolve_mono [OF assms(2,1,4)] shape_leD(1) [OF assms(3,5)]
  by (metis not_None_eq)

lemma shape_le_attr:
  assumes "used_node ns i" "nd_parent n = nd_parent (ns ! i)" "nd_name n = nd_name (ns ! i)"
    "nd_used n" "length ns = FS_MAX_NODES"
  shows "shape_le ns (ns[i := n])" "shape_le (ns[i := n]) ns"
proof -
  have "nd_used (ns[i := n] ! k) = nd_used (ns ! k) \<and> nd_parent (ns[i := n] ! k) = nd_parent (ns ! k)
      \<and> nd_name (ns[i := n] ! k) = nd_name (ns ! k)" for k
    using assms by (cases "k = i") (auto simp: used_node_def)
  then show "shape_le ns (ns[i := n])" "shape_le (ns[i := n]) ns" by (simp_all add: shape_le_def)
qed

lemma shape_le_fresh:
  assumes "\<not> nd_used (ns ! i)"
  shows "shape_le ns (ns[i := n])"
proof -
  have "ns[i := n] ! k = ns ! k" if "nd_used (ns ! k)" for k
    using that assms by (cases "k = i") auto
  then show ?thesis by (simp add: shape_le_def)
qed

lemma shape_le_drop:
  assumes "\<not> nd_used n" "length ns = FS_MAX_NODES"
  shows "shape_le (ns[i := n]) ns"
proof -
  have "ns[i := n] ! k = ns ! k" if "nd_used (ns[i := n] ! k)" "k < FS_MAX_NODES" for k
    using that assms by (cases "k = i") auto
  then show ?thesis by (metis shape_le_def)
qed

lemma create_spec_shape:
  assumes "create_spec d ns c p owner mode = (r, ns')"
  shows "shape_le ns ns'"
proof -
  have "shape_le ns ns" by (simp add: shape_le_def)
  then show ?thesis
    using assms free_slot_SomeD(3) [of ns] shape_le_fresh
    by (auto simp: create_spec_def split: option.splits prod.splits if_splits)
qed

lemma create_spec_resolves:
  assumes wf: "fs_wf ns" and c: "dir_node ns c" and p: "nul_free p"
    and new: "create_spec d ns c p owner mode = (0, ns')"
    and leaf: "\<And>q s. parent_leaf ns c p = Some (q, s) \<Longrightarrow> s \<noteq> ''.'' \<and> s \<noteq> ''..''"
  shows "\<exists>i. resolve_spec ns' c p = Some i \<and> used_node ns' i \<and> nd_is_dir (ns' ! i) = d"
proof -
  obtain q s where qs: "parent_leaf ns c p = Some (q, s)"
    using new by (auto simp: create_spec_def split: option.splits)
  note pl = parent_leafD [OF wf c p qs]
  have wf': "fs_wf ns'" using create_spec_wf [OF wf c p new] .
  have s: "s \<noteq> []" "s \<noteq> ''.''" "s \<noteq> ''..''" using pl leaf [OF qs] by (auto simp: valid_name_def)
  have u: "used_node ns c" using c by blast
  note le = create_spec_shape [OF new]
  have dir: "(if CHR ''/'' \<notin> set p then Some c
      else if dirpart p = [] then Some 0 else resolve_spec ns' c (dirpart p)) = Some q"
    using qs resolve_mono [OF wf wf' le u, of "dirpart p"]
    by (auto simp: parent_leaf_def split: if_splits option.splits)
  have res: "resolve_spec ns' c p = lookup ns' q s"
    using parent_leaf_resolve [OF qs, of ns'] dir s by (simp add: walk_step_def)
  show ?thesis
  proof (cases "lookup ns q s")
    case (Some e)
    with new qs have "ns' = ns" "nd_is_dir (ns ! e) = d"
      by (auto simp: create_spec_def split: if_splits)
    with Some res lookup_SomeD [OF Some] show ?thesis by simp
  next
    case None
    with new qs obtain i where i: "free_slot ns = Some i"
      and ns': "ns' = ns[i := new_node d (ns ! i) q s owner mode]"
      by (auto simp: create_spec_def split: option.splits)
    have "i < length ns" using free_slot_SomeD(1) [OF i] wf by simp
    then have "ns' ! i = new_node d (ns ! i) q s owner mode" "used_node ns' i"
      using ns' free_slot_SomeD(1) [OF i] by (simp_all add: used_node_def)
    moreover from this pl have "lookup ns' q s = Some i" by (simp add: lookup_Some_iff [OF wf'])
    ultimately show ?thesis using res by simp
  qed
qed

subsection \<open>Writing a file\<close>

definition write_node :: "fs_node \<Rightarrow> char list ptr \<Rightarrow> nat \<Rightarrow> fs_node" where
  "write_node n data sz = (let k = min sz (FS_MAX_FILE_SIZE - 1) in
     n\<lparr>nd_data := (case data of None \<Rightarrow> nd_data n | Some d \<Rightarrow> take k d @ drop k (nd_data n))[k := NUL],
       nd_size := k\<rparr>)"

definition write_put :: "fs \<Rightarrow> nat \<Rightarrow> char list ptr \<Rightarrow> nat \<Rightarrow> int \<times> fs" where
  "write_put ns i data sz =
     (if nd_is_dir (ns ! i) then (-1, ns) else (0, ns[i := write_node (ns ! i) data sz]))"

definition write_spec :: "fs \<Rightarrow> nat \<Rightarrow> string \<Rightarrow> char list ptr \<Rightarrow> nat \<Rightarrow> int \<times> fs" where
  "write_spec ns c p data sz =
     (case resolve_spec ns c p of
        Some i \<Rightarrow> write_put ns i data sz
      | None \<Rightarrow>
          (case create_spec False ns c p 0 FS_DEFAULT_FILE_MODE of (r, ns1) \<Rightarrow>
             if r \<noteq> 0 then (-1, ns1)
             else case resolve_spec ns1 c p of
               None \<Rightarrow> (-1, ns1) | Some i \<Rightarrow> write_put ns1 i data sz))"

text \<open>The caller's buffer holds the bytes that are copied.\<close>

definition buffer_ok :: "char list ptr \<Rightarrow> nat \<Rightarrow> bool" where
  "buffer_ok data sz \<longleftrightarrow>
     (case data of None \<Rightarrow> True | Some d \<Rightarrow> min sz (FS_MAX_FILE_SIZE - 1) \<le> length d)"

lemma write_node_simps [simp]:
  "nd_used (write_node n data sz) = nd_used n" "nd_is_dir (write_node n data sz) = nd_is_dir n"
  "nd_parent (write_node n data sz) = nd_parent n" "nd_name (write_node n data sz) = nd_name n"
  "nd_owner (write_node n data sz) = nd_owner n" "nd_mode (write_node n data sz) = nd_mode n"
  "nd_size (write_node n data sz) = min sz (FS_MAX_FILE_SIZE - 1)"
  by (simp_all add: write_node_def Let_def)

lemma write_node_ok:
  assumes "node_ok n" "buffer_ok data sz"
  shows "node_ok (write_node n data sz)"
  using assms by (auto simp: node_ok_def buffer_ok_def write_node_def Let_def split: option.splits)

lemma write_node_data:
  assumes "node_ok n" "buffer_ok (Some d) sz"
  shows "take (nd_size (write_node n (Some d) sz)) (nd_data (write_node n (Some d) sz))
    = take (min sz (FS_MAX_FILE_SIZE - 1)) d"
  using assms by (auto simp: node_ok_def buffer_ok_def write_node_def Let_def)

lemma fs_wf_node_ok: "fs_wf ns \<Longrightarrow> used_node ns i \<Longrightarrow> node_ok (ns ! i)"
  by (simp add: fs_mem_node used_node_def)

lemma write_body_eq:
  assumes "fs_wf ns" "used_node ns i" "buffer_ok data sz"
  shows "(do {
       n \<leftarrow> nd_at ns (int i);
       if nd_is_dir n then Some (-1, ns)
       else do {
         let sz' = (if sz \<ge> FS_MAX_FILE_SIZE then FS_MAX_FILE_SIZE - 1 else sz);
         dt \<leftarrow> (case data of
                 None \<Rightarrow> Some (nd_data n)
               | Some d \<Rightarrow> if sz' > 0 then kmemcpy (nd_data n) d sz' else Some (nd_data n));
         dt' \<leftarrow> wr dt sz' NUL;
         ns2 \<leftarrow> nd_put ns (int i) (n\<lparr>nd_data := dt', nd_size := sz'\<rparr>);
         Some (0, ns2) } }) = Some (write_put ns i data sz)"
proof -
  have i: "i < length ns" using assms by (simp add: used_node_def)
  have n: "length (nd_data (ns ! i)) = FS_MAX_FILE_SIZE"
    using fs_wf_node_ok [OF assms(1,2)] by (simp add: node_ok_def)
  have k: "(if sz \<ge> FS_MAX_FILE_SIZE then FS_MAX_FILE_SIZE - 1 else sz) = min sz (FS_MAX_FILE_SIZE - 1)"
    by (simp add: min_def)
  show ?thesis unfolding k
    using assms(3) i n
    by (auto simp: write_put_def write_node_def buffer_ok_def kmemcpy_eq Let_def split: option.splits)
qed

lemma fs_write_file_eq:
  assumes wf: "fs_wf ns" and c: "dir_node ns c" and p: "nul_free p" and b: "buffer_ok data sz"
  shows "fs_write_file ns (int c) (Some p) data sz = Some (write_spec ns c p data sz)"
proof -
  have u: "used_node ns c" using c by blast
  note res = fs_resolve_eq [OF wf u p]
  show ?thesis
  proof (cases "resolve_spec ns c p")
    case (Some i)
    note body = write_body_eq [OF wf resolve_spec_used [OF wf u Some] b]
    show ?thesis
      using body Some by (simp add: fs_write_file_def res write_spec_def cong del: if_weak_cong)
  next
    case None
    obtain r ns1 where r: "create_spec False ns c p 0 FS_DEFAULT_FILE_MODE = (r, ns1)"
      by (cases "create_spec False ns c p 0 FS_DEFAULT_FILE_MODE")
    note touch = fs_touch_as_eq [OF wf c p, of 0 FS_DEFAULT_FILE_MODE, folded fs_touch_def, unfolded r]
    have wf1: "fs_wf ns1" using create_spec_wf [OF wf c p r] .
    have u1: "used_node ns1 c"
      using shape_leD(1) [OF create_spec_shape [OF r] u] .
    note res1 = fs_resolve_eq [OF wf1 u1 p]
    show ?thesis
    proof (cases "resolve_spec ns1 c p")
      case None
      with \<open>resolve_spec ns c p = None\<close> show ?thesis
        by (simp add: fs_write_file_def res touch res1 r write_spec_def)
    next
      case (Some i)
      note body = write_body_eq [OF wf1 resolve_spec_used [OF wf1 u1 Some] b]
      show ?thesis
        using body Some \<open>resolve_spec ns c p = None\<close>
        by (simp add: fs_write_file_def res touch res1 r write_spec_def cong del: if_weak_cong)
    qed
  qed
qed

lemma write_put_wf:
  assumes "fs_wf ns" "used_node ns i" "buffer_ok data sz" "write_put ns i data sz = (r, ns')"
  shows "fs_wf ns'"
  using assms write_node_ok [OF fs_wf_node_ok [OF assms(1,2)] assms(3)]
  by (auto simp: write_put_def used_node_def intro!: fs_wf_attr split: if_splits)

lemma write_spec_wf:
  assumes wf: "fs_wf ns" and c: "dir_node ns c" and p: "nul_free p" and b: "buffer_ok data sz"
    and w: "write_spec ns c p data sz = (r, ns')"
  shows "fs_wf ns'"
proof -
  have u: "used_node ns c" using c by blast
  obtain r1 ns1 where r1: "create_spec False ns c p 0 FS_DEFAULT_FILE_MODE = (r1, ns1)"
    by (cases "create_spec False ns c p 0 FS_DEFAULT_FILE_MODE")
  have wf1: "fs_wf ns1" using create_spec_wf [OF wf c p r1] .
  have u1: "used_node ns1 c"
    using shape_leD(1) [OF create_spec_shape [OF r1] u] .
  show ?thesis
    using w wf1 write_put_wf [OF wf _ b] write_put_wf [OF wf1 _ b]
      resolve_spec_used [OF wf u] resolve_spec_used [OF wf1 u1]
    by (auto simp: write_spec_def r1 split: option.splits if_splits; blast)
qed

end
