(* ===== verification/FsService.thy ===== *)
theory FsService
  imports FsOps
begin

text \<open>
  Removal and the attribute setters of kernel/fs.c, and the whole file system as a machine: the
  calls a client can make, their preconditions, the initial table, and the interpretation of
  \<^theory_text>\<open>guarded_machine\<close> that says the calls are memory safe and keep the table
  well formed. \<^theory_text>\<open>fs_reachable\<close> are the tables the calls can produce.
\<close>

subsection \<open>Removing\<close>

definition remove_spec :: "fs \<Rightarrow> nat \<Rightarrow> string \<Rightarrow> int \<times> fs" where
  "remove_spec ns c p =
     (case resolve_spec ns c p of
        None \<Rightarrow> (-1, ns)
      | Some i \<Rightarrow>
          if i = 0 then (-1, ns)
          else if nd_is_dir (ns ! i) \<and>
            (\<exists>j \<in> set [0..<FS_MAX_NODES]. nd_used (ns ! j) \<and> nd_parent (ns ! j) = int i)
          then (-1, ns)
          else (0, ns[i := (ns ! i)\<lparr>nd_used := False\<rparr>]))"

lemma fs_remove_eq:
  assumes wf: "fs_wf ns" and c: "used_node ns c" and p: "nul_free p"
  shows "fs_remove ns (int c) (Some p) = Some (remove_spec ns c p)"
proof (cases "resolve_spec ns c p")
  case None
  then show ?thesis by (simp add: fs_remove_def fs_resolve_eq [OF assms] remove_spec_def)
next
  case (Some i)
  have i: "i < length ns" using resolve_spec_used [OF wf c Some] wf by (simp add: used_node_def)
  have "has_child_loop [0..<FS_MAX_NODES] ns (int i) =
      Some (\<exists>j \<in> set [0..<FS_MAX_NODES]. nd_used (ns ! j) \<and> nd_parent (ns ! j) = int i)"
    by (rule has_child_loop_eq) (use wf in auto)
  with Some i show ?thesis
    by (simp add: fs_remove_def fs_resolve_eq [OF assms] remove_spec_def) blast
qed

lemma fs_wf_remove:
  assumes wf: "fs_wf ns" and i: "used_node ns i" "i \<noteq> 0"
    and leaf: "\<And>j. used_node ns j \<Longrightarrow> nd_parent (ns ! j) \<noteq> int i"
  shows "fs_wf (ns[i := (ns ! i)\<lparr>nd_used := False\<rparr>])" (is "fs_wf ?ns'")
proof -
  have il: "i < length ns" "length ns = FS_MAX_NODES" using i wf by (simp_all add: used_node_def)
  have used: "used_node ?ns' k \<longleftrightarrow> used_node ns k \<and> k \<noteq> i" for k
    using il by (auto simp: used_node_update)
  have other: "?ns' ! k = ns ! k" if "k \<noteq> i" for k using that by simp
  have dir: "dir_node ?ns' k" if "dir_node ns k" "k \<noteq> i" for k
    using that other by (simp add: dir_node_def)
  have anch: "anchored ?ns' k" if "anchored ns k" "k \<noteq> i" for k
    using that
  proof (induction rule: anchored.induct)
    case root
    show ?case by (rule anchored.root)
  next
    case (step k)
    then have "used_node ns k" by (simp add: used_node_def)
    with leaf step have "nat (nd_parent (ns ! k)) \<noteq> i" by fastforce
    with step other show ?case using anchored.step [of k ?ns'] by simp
  qed
  have ok: "node_ok ((ns ! i)\<lparr>nd_used := False\<rparr>)"
    using fs_wf_node_ok [OF wf i(1)] by (simp add: node_ok_def)
  show ?thesis
  proof (rule fs_wfI)
    show "fs_mem ?ns'" using wf ok by blast
    fix k j
    show "\<exists>p. nd_parent (?ns' ! k) = int p \<and> dir_node ?ns' p" if "used_node ?ns' k"
    proof -
      from that have k: "used_node ns k" "k \<noteq> i" by (simp_all add: used)
      obtain p where "nd_parent (ns ! k) = int p" "dir_node ns p" using wf k(1) by (rule fs_wf_parent)
      with leaf [OF k(1)] dir k show ?thesis by auto
    qed
    show "anchored ?ns' k" if "used_node ?ns' k"
      using that fs_wf_anchored [OF wf] by (simp add: used anch)
    show "valid_name (node_name ?ns' k)" if "used_node ?ns' k" "k \<noteq> 0"
      using that fs_wf_name [OF wf] by (simp add: used)
    show "k = j" if "used_node ?ns' k" "used_node ?ns' j"
      "nd_parent (?ns' ! k) = nd_parent (?ns' ! j)" "node_name ?ns' k = node_name ?ns' j"
      using that fs_wf_unique [OF wf] by (simp add: used)
  qed (use i(2) dir [OF fs_wf_root [OF wf]] fs_wf_root_parent [OF wf] fs_wf_root_name [OF wf]
      in simp_all)
qed

lemma file_has_no_child:
  assumes "fs_wf ns" "file_node ns i" "used_node ns j"
  shows "nd_parent (ns ! j) \<noteq> int i"
proof
  assume j: "nd_parent (ns ! j) = int i"
  obtain p where "nd_parent (ns ! j) = int p" "dir_node ns p" using assms(1,3) by (rule fs_wf_parent)
  with j assms(2) show False by (simp add: dir_node_def file_node_def)
qed

lemma remove_spec_success:
  assumes "fs_wf ns" "used_node ns c" "remove_spec ns c p = (0, ns')"
  obtains i where "resolve_spec ns c p = Some i" "used_node ns i" "i \<noteq> 0"
    "\<And>j. used_node ns j \<Longrightarrow> nd_parent (ns ! j) \<noteq> int i"
    "ns' = ns[i := (ns ! i)\<lparr>nd_used := False\<rparr>]"
proof -
  obtain i where i: "resolve_spec ns c p = Some i" "i \<noteq> 0"
    "ns' = ns[i := (ns ! i)\<lparr>nd_used := False\<rparr>]"
    "nd_is_dir (ns ! i) \<Longrightarrow> \<forall>j < FS_MAX_NODES. nd_used (ns ! j) \<longrightarrow> nd_parent (ns ! j) \<noteq> int i"
    using assms(3) by (auto simp: remove_spec_def Ball_def split: option.splits if_splits)
  have u: "used_node ns i" using resolve_spec_used [OF assms(1,2) i(1)] .
  have "nd_parent (ns ! j) \<noteq> int i" if "used_node ns j" for j
    using that u i(4) file_has_no_child [OF assms(1) _ that, of i]
    by (auto simp: used_node_def file_node_def)
  with i u that show thesis by blast
qed

lemma remove_spec_wf:
  assumes "fs_wf ns" "used_node ns c" "remove_spec ns c p = (r, ns')"
  shows "fs_wf ns'"
proof (cases "r = 0")
  case True
  with assms obtain i where "used_node ns i" "i \<noteq> 0"
    "\<And>j. used_node ns j \<Longrightarrow> nd_parent (ns ! j) \<noteq> int i"
    "ns' = ns[i := (ns ! i)\<lparr>nd_used := False\<rparr>]"
    using remove_spec_success [of ns c p ns'] by metis
  with assms(1) show ?thesis using fs_wf_remove by simp
next
  case False
  then have "ns' = ns" using assms(3) by (auto simp: remove_spec_def split: option.splits if_splits)
  with assms(1) show ?thesis by simp
qed

subsection \<open>Owner and mode\<close>

lemma fs_set_owner_eq:
  assumes "fs_wf ns"
  shows "fs_set_owner ns k owner = Some
    (if 0 \<le> k \<and> used_node ns (nat k)
     then (0, ns[nat k := (ns ! nat k)\<lparr>nd_owner := owner\<rparr>]) else (-1, ns))"
  using assms by (auto simp: fs_set_owner_def fs_live_total nd_at_def nd_put_def used_node_def)

lemma fs_set_mode_eq:
  assumes "fs_wf ns"
  shows "fs_set_mode ns k mode = Some
    (if 0 \<le> k \<and> used_node ns (nat k)
     then (0, ns[nat k := (ns ! nat k)\<lparr>nd_mode := mode AND MODE_MASK\<rparr>]) else (-1, ns))"
  using assms by (auto simp: fs_set_mode_def fs_live_total nd_at_def nd_put_def used_node_def)

lemma set_attr_wf:
  assumes "fs_wf ns" "used_node ns i"
  shows "fs_wf (ns[i := (ns ! i)\<lparr>nd_owner := owner\<rparr>])"
    and "fs_wf (ns[i := (ns ! i)\<lparr>nd_mode := mode AND MODE_MASK\<rparr>])"
  using assms fs_wf_node_ok [OF assms]
  by (auto intro!: fs_wf_attr simp: used_node_def node_ok_def)

subsection \<open>The initial table\<close>

definition root_node :: fs_node where
  "root_node = zero_node\<lparr>nd_used := True, nd_is_dir := True, nd_parent := 0, nd_owner := 0,
     nd_mode := FS_DEFAULT_DIR_MODE, nd_name := CHR ''/'' # NUL # replicate 30 NUL\<rparr>"

definition init_table :: fs where
  "init_table = root_node # replicate (FS_MAX_NODES - 1) zero_node"

lemma replicate_num: "replicate (numeral k) x = x # replicate (pred_numeral k) x"
  by (simp add: numeral_eq_Suc)

lemma fs_init_eq: "fs_init = Some init_table"
proof -
  have "replicate FS_MAX_NODES zero_node = zero_node # replicate 127 zero_node"
    by (simp add: replicate_num [of "num.Bit0 n" for n])
  moreover have "kstrcpy (nd_name zero_node) (c_str ''/'') = Some (CHR ''/'' # NUL # replicate 30 NUL)"
    by (simp add: loop_simps zero_node_def)
  ultimately show ?thesis
    by (simp add: fs_init_def init_table_def root_node_def nd_at_def nd_put_def)
qed

lemma zero_node_ok: "node_ok zero_node"
  by (simp add: node_ok_def zero_node_def)

lemma root_node_ok: "node_ok root_node"
  by (simp add: node_ok_def root_node_def zero_node_def)

lemma init_table_used: "used_node init_table i \<longleftrightarrow> i = 0"
  by (cases i) (auto simp: used_node_def init_table_def root_node_def zero_node_def)

lemma init_table_0 [simp]: "init_table ! 0 = root_node"
  by (simp add: init_table_def)

lemma init_table_wf: "fs_wf init_table"
proof (rule fs_wfI)
  show "fs_mem init_table"
    using zero_node_ok root_node_ok by (auto simp: fs_mem_def init_table_def)
  show dir: "dir_node init_table 0" by (simp add: dir_node_def root_node_def)
  show par: "nd_parent (init_table ! 0) = 0" and nam: "node_name init_table 0 = ''/''"
    by (simp_all add: root_node_def cstr_def)
  fix i j
  show "\<exists>p. nd_parent (init_table ! i) = int p \<and> dir_node init_table p" if "used_node init_table i"
    using that dir par by (intro exI [of _ 0]) (simp add: init_table_used)
  show "anchored init_table i" if "used_node init_table i"
    using that by (simp add: init_table_used anchored.root)
qed (simp_all add: init_table_used)

subsection \<open>The file system as a machine\<close>

text \<open>The mutating calls, with a directory as the working node where the code takes one.\<close>

datatype fs_call =
    Mkdir_as nat string u16 u16
  | Touch_as nat string u16 u16
  | Write_file nat string "char list ptr" nat
  | Remove nat string
  | Set_owner int u16
  | Set_mode int u16

fun fs_exec :: "fs_call \<Rightarrow> fs \<Rightarrow> (int \<times> fs) option" where
  "fs_exec (Mkdir_as c p owner mode) ns = fs_mkdir_as ns (int c) (Some p) owner mode"
| "fs_exec (Touch_as c p owner mode) ns = fs_touch_as ns (int c) (Some p) owner mode"
| "fs_exec (Write_file c p data sz) ns = fs_write_file ns (int c) (Some p) data sz"
| "fs_exec (Remove c p) ns = fs_remove ns (int c) (Some p)"
| "fs_exec (Set_owner k owner) ns = fs_set_owner ns k owner"
| "fs_exec (Set_mode k mode) ns = fs_set_mode ns k mode"

fun fs_call_ok :: "fs_call \<Rightarrow> fs \<Rightarrow> bool" where
  "fs_call_ok (Mkdir_as c p owner mode) ns \<longleftrightarrow> dir_node ns c \<and> nul_free p"
| "fs_call_ok (Touch_as c p owner mode) ns \<longleftrightarrow> dir_node ns c \<and> nul_free p"
| "fs_call_ok (Write_file c p data sz) ns \<longleftrightarrow> dir_node ns c \<and> nul_free p \<and> buffer_ok data sz"
| "fs_call_ok (Remove c p) ns \<longleftrightarrow> used_node ns c \<and> nul_free p"
| "fs_call_ok (Set_owner k owner) ns \<longleftrightarrow> True"
| "fs_call_ok (Set_mode k mode) ns \<longleftrightarrow> True"

lemma fs_exec_inv:
  assumes "fs_wf ns" "fs_call_ok call ns"
  shows "\<exists>r ns'. fs_exec call ns = Some (r, ns') \<and> fs_wf ns'"
  using assms
proof (cases call)
  case (Mkdir_as c p owner mode)
  with assms show ?thesis
    using create_spec_wf [of ns c p True owner mode]
    by (cases "create_spec True ns c p owner mode") (simp add: fs_mkdir_as_eq)
next
  case (Touch_as c p owner mode)
  with assms show ?thesis
    using create_spec_wf [of ns c p False owner mode]
    by (cases "create_spec False ns c p owner mode") (simp add: fs_touch_as_eq)
next
  case (Write_file c p data sz)
  with assms show ?thesis
    using write_spec_wf [of ns c p data sz]
    by (cases "write_spec ns c p data sz") (simp add: fs_write_file_eq)
next
  case (Remove c p)
  with assms show ?thesis
    using remove_spec_wf [of ns c p] by (cases "remove_spec ns c p") (simp add: fs_remove_eq)
next
  case (Set_owner k owner)
  with assms show ?thesis by (simp add: fs_set_owner_eq set_attr_wf)
next
  case (Set_mode k mode)
  with assms show ?thesis by (simp add: fs_set_mode_eq set_attr_wf)
qed

interpretation fsm: guarded_machine fs_exec fs_call_ok fs_wf
  by unfold_locales (rule fs_exec_inv)

inductive fs_reachable :: "fs \<Rightarrow> bool" where
  init: "fs_init = Some ns \<Longrightarrow> fs_reachable ns"
| call: "fs_reachable ns \<Longrightarrow> fs_call_ok call ns \<Longrightarrow> fs_exec call ns = Some (r, ns') \<Longrightarrow>
     fs_reachable ns'"

lemma fs_reachable_inv: "fs_reachable ns \<Longrightarrow> fs_wf ns"
  by (induction rule: fs_reachable.induct) (auto simp: fs_init_eq init_table_wf intro: fsm.exec_keeps)

end
