(* ===== verification/FsPathname.thy ===== *)
theory FsPathname
  imports FsService
begin

text \<open>
  \<open>fs_make_path\<close>: the chain of parents of a node in a well-formed table is finite, has no
  repetition and is shorter than the 128 entries of the code's stack, so the bounded loop always
  reaches the root. The emitting loop writes the absolute path of the node if it fits, never
  writes past \<open>out_size\<close>, and the path resolves back to the node.
\<close>

subsection \<open>The chain of parents\<close>

fun up_chain :: "nat \<Rightarrow> fs \<Rightarrow> nat \<Rightarrow> nat list" where
  "up_chain 0 ns i = []"
| "up_chain (Suc k) ns i = (if i = 0 then [] else i # up_chain k ns (nat (nd_parent (ns ! i))))"

definition chain :: "fs \<Rightarrow> nat \<Rightarrow> nat list" where
  "chain ns i = up_chain FS_MAX_NODES ns i"

inductive is_chain :: "fs \<Rightarrow> nat \<Rightarrow> nat list \<Rightarrow> bool" for ns where
  root: "is_chain ns 0 []"
| up: "used_node ns i \<Longrightarrow> i \<noteq> 0 \<Longrightarrow> nd_parent (ns ! i) = int p \<Longrightarrow> is_chain ns p ps \<Longrightarrow>
     is_chain ns i (i # ps)"

inductive_cases is_chain_NilE: "is_chain ns i []"
inductive_cases is_chain_ConsE: "is_chain ns i (j # ps)"
inductive_simps is_chain_Cons: "is_chain ns i (j # ps)"

lemma is_chain_unique:
  assumes "is_chain ns i ps" "is_chain ns i qs"
  shows "qs = ps"
  using assms
proof (induction arbitrary: qs rule: is_chain.induct)
  case root
  then show ?case by cases simp_all
next
  case (up i p ps)
  from up.prems show ?case
  proof cases
    case root
    with up.hyps show ?thesis by simp
  next
    case (up p' ps')
    with \<open>nd_parent (ns ! i) = int p\<close> have "p' = p" by simp
    with up.IH \<open>is_chain ns p' ps'\<close> \<open>qs = i # ps'\<close> show ?thesis by simp
  qed
qed

lemma is_chain_suffix:
  assumes "is_chain ns i ps" "j \<in> set ps"
  shows "\<exists>qs. is_chain ns j qs \<and> length qs \<le> length ps"
  using assms
proof (induction rule: is_chain.induct)
  case root
  then show ?case by simp
next
  case (up i p ps)
  show ?case
  proof (cases "j = i")
    case True
    with up show ?thesis using is_chain.up [OF up(1-4)] by (intro exI [of _ "i # ps"]) simp
  next
    case False
    with up obtain qs where "is_chain ns j qs" "length qs \<le> length ps" by auto
    then show ?thesis by (intro exI [of _ qs]) simp
  qed
qed

lemma is_chain_nodes: "is_chain ns i ps \<Longrightarrow> j \<in> set ps \<Longrightarrow> used_node ns j \<and> j \<noteq> 0"
  by (induction rule: is_chain.induct) auto

lemma is_chain_distinct: "is_chain ns i ps \<Longrightarrow> distinct ps"
proof (induction rule: is_chain.induct)
  case root
  show ?case by simp
next
  case (up i p ps)
  have "i \<notin> set ps"
  proof
    assume "i \<in> set ps"
    then obtain qs where q: "is_chain ns i qs" "length qs \<le> length ps"
      using is_chain_suffix [OF up(4)] by blast
    moreover have "qs = i # ps" using is_chain_unique [OF is_chain.up [OF up(1-4)] q(1)] .
    ultimately show False by simp
  qed
  with up show ?case by simp
qed

lemma is_chain_length:
  assumes "is_chain ns i ps"
  shows "length ps < FS_MAX_NODES"
proof -
  have "set ps \<subseteq> {1..<FS_MAX_NODES}"
    using is_chain_nodes [OF assms] by (fastforce simp: used_node_def)
  then have "card (set ps) \<le> card {1..<FS_MAX_NODES}" by (intro card_mono) auto
  then show ?thesis using is_chain_distinct [OF assms] by (simp add: distinct_card)
qed

lemma is_chain_exists:
  assumes "fs_wf ns" "anchored ns i" "i = 0 \<or> used_node ns i"
  shows "\<exists>ps. is_chain ns i ps"
  using assms(2,3)
proof (induction rule: anchored.induct)
  case root
  show ?case using is_chain.root by blast
next
  case (step i)
  then have u: "used_node ns i" by (simp add: used_node_def)
  obtain p where p: "nd_parent (ns ! i) = int p" "dir_node ns p"
    using assms(1) u by (rule fs_wf_parent)
  with step have "\<exists>ps. is_chain ns p ps" by auto
  then show ?case using is_chain.up [OF u _ p(1)] is_chain.root by (cases "i = 0") auto
qed

lemma up_chain_eq: "is_chain ns i ps \<Longrightarrow> length ps < k \<Longrightarrow> up_chain k ns i = ps"
proof (induction arbitrary: k rule: is_chain.induct)
  case root
  then show ?case by (cases k) auto
next
  case (up i p ps)
  then show ?case by (cases k) auto
qed

lemma is_chain_chain:
  assumes "fs_wf ns" "used_node ns i"
  shows "is_chain ns i (chain ns i)"
proof -
  obtain ps where "is_chain ns i ps"
    using is_chain_exists [OF assms(1) fs_wf_anchored [OF assms]] assms(2) by blast
  then show ?thesis using up_chain_eq is_chain_length by (simp add: chain_def)
qed

lemma path_stack_eq:
  assumes "length ns = FS_MAX_NODES"
  shows "is_chain ns i ps \<Longrightarrow> length st + length ps \<le> FS_MAX_NODES \<Longrightarrow>
    path_stack ns (int i) st = Some (st @ map int ps)"
proof (induction arbitrary: st rule: is_chain.induct)
  case root
  then show ?case by (subst path_stack.simps) simp
next
  case (up i p ps)
  have "i < length ns" using up(1) assms by (simp add: used_node_def)
  with up show ?case by (subst path_stack.simps) simp
qed

subsection \<open>The absolute path\<close>

definition abs_path :: "fs \<Rightarrow> nat \<Rightarrow> string" where
  "abs_path ns i =
     (if i = 0 then ''/''
      else concat (map (\<lambda>j. CHR ''/'' # node_name ns j) (rev (chain ns i))))"

fun path_body :: "fs \<Rightarrow> nat list \<Rightarrow> string" where
  "path_body ns [] = []"
| "path_body ns [i] = node_name ns i"
| "path_body ns (i # j # is) = node_name ns i @ CHR ''/'' # path_body ns (j # is)"

lemma path_body_Cons: "is \<noteq> [] \<Longrightarrow> path_body ns (i # is) = node_name ns i @ CHR ''/'' # path_body ns is"
  by (cases "is") auto

lemma concat_path_body:
  "is \<noteq> [] \<Longrightarrow> concat (map (\<lambda>j. CHR ''/'' # node_name ns j) is) = CHR ''/'' # path_body ns is"
  by (induction ns "is" rule: path_body.induct) auto

lemma chain_eq_Nil: "fs_wf ns \<Longrightarrow> used_node ns i \<Longrightarrow> chain ns i = [] \<longleftrightarrow> i = 0"
  using is_chain_chain [of ns i] by (auto elim: is_chain.cases)

text \<open>The emitting loop on a non-empty list of used nodes.\<close>

lemma path_emit_fits:
  assumes wf: "fs_wf ns"
  shows "is \<noteq> [] \<Longrightarrow> \<forall>i \<in> set is. used_node ns i \<Longrightarrow> out_size \<le> length out \<Longrightarrow>
    pos + length (path_body ns is) + 1 < out_size \<Longrightarrow>
    path_emit ns (map int is) out pos out_size =
      Some (0, pos + length (path_body ns is),
        take pos out @ path_body ns is @ drop (pos + length (path_body ns is)) out)"
proof (induction "is" arbitrary: out pos)
  case Nil
  then show ?case by simp
next
  case (Cons i "is")
  have i: "i < length ns" "node_ok (ns ! i)"
    using Cons.prems(2) wf fs_wf_node_ok [OF wf] by (simp_all add: used_node_def)
  have nul: "NUL \<in> set (nd_name (ns ! i))" using node_ok_NUL [OF i(2)] .
  have le: "length (node_name ns i) \<le> length (nd_name (ns ! i))" by (rule length_cstr_le)
  have tk: "take (length (node_name ns i)) (nd_name (ns ! i)) = node_name ns i"
    by (metis cstr_def takeWhile_eq_take length_takeWhile_le min.absorb1 length_take)
  show ?case
  proof (cases "is = []")
    case True
    with Cons.prems i nul le tk show ?thesis by (simp add: loop_simps)
  next
    case False
    let ?n = "node_name ns i" and ?b = "path_body ns is"
    let ?o = "take pos out @ ?n @ CHR ''/'' # drop (pos + length ?n + 1) out"
    have fit: "pos + length ?n + 1 + length ?b + 1 < out_size"
      using Cons.prems(4) False by (simp add: path_body_Cons)
    have upd: "(take pos out @ ?n @ drop (pos + length ?n) out)[pos + length ?n := CHR ''/''] = ?o"
      using fit Cons.prems(3) by (simp add: list_update_append Cons_nth_drop_Suc [symmetric])
    have "path_emit ns (map int is) ?o (pos + length ?n + 1) out_size =
      Some (0, pos + length ?n + 1 + length ?b, take (pos + length ?n + 1) ?o @ ?b
        @ drop (pos + length ?n + 1 + length ?b) ?o)"
      using Cons.IH [OF False, of ?o "pos + length ?n + 1"] Cons.prems fit by simp
    with False i nul le tk fit Cons.prems(3) show ?thesis
      by (simp add: loop_simps upd path_body_Cons wr_def del: list_update_append)
        (simp add: ac_simps)
  qed
qed

lemma path_emit_overflow:
  assumes wf: "fs_wf ns"
  shows "is \<noteq> [] \<Longrightarrow> \<forall>i \<in> set is. used_node ns i \<Longrightarrow> out_size \<le> length out \<Longrightarrow>
    out_size \<le> pos + length (path_body ns is) + 1 \<Longrightarrow>
    \<exists>pos' out'. path_emit ns (map int is) out pos out_size = Some (-1, pos', out')
      \<and> length out' = length out \<and> drop out_size out' = drop out_size out"
proof (induction "is" arbitrary: out pos)
  case Nil
  then show ?case by simp
next
  case (Cons i "is")
  let ?n = "node_name ns i"
  have i: "i < length ns" "node_ok (ns ! i)"
    using Cons.prems(2) wf fs_wf_node_ok [OF wf] by (simp_all add: used_node_def)
  have nul: "NUL \<in> set (nd_name (ns ! i))" using node_ok_NUL [OF i(2)] .
  have le: "length ?n \<le> length (nd_name (ns ! i))" by (rule length_cstr_le)
  have tk: "take (length ?n) (nd_name (ns ! i)) = ?n"
    by (metis cstr_def takeWhile_eq_take length_takeWhile_le min.absorb1 length_take)
  show ?case
  proof (cases "out_size \<le> pos + length ?n + 1")
    case True
    with i nul show ?thesis by (simp add: loop_simps)
  next
    case False
    with Cons.prems have ne: "is \<noteq> []" by auto
    let ?o = "take pos out @ ?n @ CHR ''/'' # drop (pos + length ?n + 1) out"
    have upd: "(take pos out @ ?n @ drop (pos + length ?n) out)[pos + length ?n := CHR ''/''] = ?o"
      using False Cons.prems(3) by (simp add: list_update_append Cons_nth_drop_Suc [symmetric])
    have len: "length ?o = length out" using False Cons.prems(3) by simp
    have dr: "drop out_size ?o = drop out_size out"
      using False Cons.prems(3) by (simp add: drop_Cons')
    have "\<exists>pos' out'. path_emit ns (map int is) ?o (pos + length ?n + 1) out_size = Some (-1, pos', out')
      \<and> length out' = length ?o \<and> drop out_size out' = drop out_size ?o"
      using Cons.IH [OF ne, of ?o "pos + length ?n + 1"] Cons.prems len ne
      by (simp add: path_body_Cons)
    with ne i nul le tk False Cons.prems(3) len dr show ?thesis
      by (simp add: loop_simps upd wr_def Let_def del: list_update_append)
  qed
qed

lemma fs_make_path_eq:
  assumes wf: "fs_wf ns" and i: "used_node ns i" and out: "out_size \<le> length out"
  shows "if length (abs_path ns i) + (if i = 0 then 0 else 1) < out_size
    then fs_make_path ns (int i) (Some out) out_size =
      Some (0, abs_path ns i @ NUL # drop (length (abs_path ns i) + 1) out)
    else \<exists>out'. fs_make_path ns (int i) (Some out) out_size = Some (-1, out')
      \<and> length out' = length out \<and> drop out_size out' = drop out_size out"
proof (cases "i = 0")
  case True
  have "2 \<le> out_size \<Longrightarrow> (\<exists>a b r. out = a # b # r)"
    using out by (cases out; cases "tl out") auto
  moreover have "fs_live ns 0 = Some True" using True wf i by (simp add: fs_live_total)
  ultimately show ?thesis using True
    by (auto simp: fs_make_path_def abs_path_def)
next
  case False
  have live: "fs_live ns (int i) = Some True" using i wf by (simp add: used_node_def)
  have ch: "is_chain ns i (chain ns i)" using is_chain_chain [OF wf i] .
  let ?is = "rev (chain ns i)"
  have ne: "?is \<noteq> []" using chain_eq_Nil [OF wf i] False by simp
  have used: "\<forall>j \<in> set ?is. used_node ns j" using is_chain_nodes [OF ch] by simp
  have stack: "path_stack ns (int i) [] = Some (map int (chain ns i))"
    using path_stack_eq [OF _ ch, of "[]"] is_chain_length [OF ch] wf by simp
  have abs: "abs_path ns i = CHR ''/'' # path_body ns ?is"
    using False ne by (simp add: abs_path_def concat_path_body del: rev_is_Nil_conv)
  show ?thesis
  proof (cases "out_size \<le> 1")
    case True
    with False live stack abs show ?thesis by (auto simp: fs_make_path_def)
  next
    case big: False
    with out obtain x o' where o: "out = x # o'" by (cases out) auto
    have run: "fs_make_path ns (int i) (Some out) out_size = do {
        (rc, pos, o2) \<leftarrow> path_emit ns (map int ?is) (CHR ''/'' # o') 1 out_size;
        if rc \<noteq> 0 then Some (-1, o2) else do { o3 \<leftarrow> wr o2 pos NUL; Some (0, o3) } }"
      using False big live stack o by (simp add: fs_make_path_def rev_map)
    show ?thesis
    proof (cases "1 + length (path_body ns ?is) + 1 < out_size")
      case True
      have "path_emit ns (map int ?is) (CHR ''/'' # o') 1 out_size =
        Some (0, 1 + length (path_body ns ?is),
          CHR ''/'' # path_body ns ?is @ drop (length (path_body ns ?is)) o')"
        using path_emit_fits [OF wf ne used, of out_size "CHR ''/'' # o'" 1] True out o by simp
      moreover have "length (path_body ns ?is) < length o'" using True out o by simp
      ultimately show ?thesis
        using True False abs o
        by (simp add: run [unfolded o] wr_def list_update_append Cons_nth_drop_Suc [symmetric])
    next
      case overflow: False
      then obtain pos' out' where "path_emit ns (map int ?is) (CHR ''/'' # o') 1 out_size
          = Some (-1, pos', out')" "length out' = length (CHR ''/'' # o')"
        "drop out_size out' = drop out_size (CHR ''/'' # o')"
        using path_emit_overflow [OF wf ne used, of out_size "CHR ''/'' # o'" 1] out o by auto
      moreover have "drop out_size (CHR ''/'' # o') = drop out_size out"
        using big o by (cases out_size) auto
      ultimately show ?thesis using overflow False abs o by (auto simp: run [unfolded o])
    qed
  qed
qed

subsection \<open>Round trip\<close>

text \<open>The names on the way to the node are not \<open>.\<close> or \<open>..\<close>, which resolution treats specially.\<close>

definition plain_path :: "fs \<Rightarrow> nat \<Rightarrow> bool" where
  "plain_path ns i \<longleftrightarrow> (\<forall>j \<in> set (chain ns i). node_name ns j \<noteq> ''.'' \<and> node_name ns j \<noteq> ''..'')"

lemma split_slash_concat:
  "\<forall>s \<in> set ss. CHR ''/'' \<notin> set s \<Longrightarrow>
    split_slash (concat (map (\<lambda>s. CHR ''/'' # s) ss)) = [] # ss"
proof (induction ss)
  case Nil
  then show ?case by simp
next
  case (Cons s ss)
  then have "split_slash (s @ concat (map (\<lambda>s. CHR ''/'' # s) ss)) = s # ss"
    by (simp add: split_slash_prefix)
  then show ?case by simp
qed

lemma walk_chain:
  assumes wf: "fs_wf ns"
  shows "is_chain ns i ps \<Longrightarrow>
    \<forall>j \<in> set ps. node_name ns j \<noteq> ''.'' \<and> node_name ns j \<noteq> ''..'' \<Longrightarrow>
    walk ns 0 (map (node_name ns) (rev ps)) = Some i"
proof (induction rule: is_chain.induct)
  case root
  then show ?case by simp
next
  case (up i p ps)
  have "lookup ns p (node_name ns i) = Some i" using up by (simp add: lookup_Some_iff [OF wf])
  moreover have "node_name ns i \<noteq> []" using fs_wf_name [OF wf up(1,2)] by (simp add: valid_name_def)
  ultimately have "walk_step ns p (node_name ns i) = Some i" using up by (simp add: walk_step_def)
  then show ?case using up by (simp add: walk_append)
qed

lemma abs_path_resolves:
  assumes wf: "fs_wf ns" and i: "used_node ns i" and plain: "plain_path ns i"
  shows "resolve_spec ns c (abs_path ns i) = Some i"
proof (cases "i = 0")
  case True
  then show ?thesis by (simp add: resolve_spec_def abs_path_def walk_step_def)
next
  case False
  have ch: "is_chain ns i (chain ns i)" using is_chain_chain [OF wf i] .
  have ne: "chain ns i \<noteq> []" using chain_eq_Nil [OF wf i] False by simp
  let ?ss = "map (node_name ns) (rev (chain ns i))"
  have "\<forall>s \<in> set ?ss. CHR ''/'' \<notin> set s"
    using is_chain_nodes [OF ch] fs_wf_name [OF wf] by (auto simp: valid_name_def)
  then have split: "split_slash (abs_path ns i) = [] # ?ss"
    using False split_slash_concat [of ?ss] by (simp add: abs_path_def o_def)
  have "abs_path ns i \<noteq> [] \<and> hd (abs_path ns i) = CHR ''/''"
    using False ne concat_path_body [of "rev (chain ns i)" ns] by (simp add: abs_path_def)
  then show ?thesis
    using walk_chain [OF wf ch] plain split by (simp add: resolve_spec_def walk_step_def plain_path_def)
qed

lemma nul_free_abs_path: "nul_free (abs_path ns i)"
  by (auto simp: abs_path_def nul_free_def cstr_def dest: set_takeWhileD)

end
