(* ===== verification/FsImage.thy ===== *)
theory FsImage
  imports FsPathname Codec
begin

text \<open>
  The on-disk image of the file system in kernel/fs.c: \<open>fs_serialize\<close> writes a 16 byte header
  and 128 packed nodes of 4142 bytes; \<open>fs_deserialize\<close> reads that format (version 2) and the
  older one without owner and mode (version 1). The packed structures are records with a byte
  codec; both are interpretations of \<^theory_text>\<open>byte_codec\<close>.
\<close>

subsection \<open>Packed structures\<close>

record fs_disk_header =
  fh_magic :: "char list"
  fh_version :: u32
  fh_node_count :: u32

record fs_disk_node =
  dn_used :: u8
  dn_is_dir :: u8
  dn_parent :: u32
  dn_owner :: u16
  dn_mode :: u16
  dn_size :: u32
  dn_name :: "char list"
  dn_data :: "char list"

record fs_disk_node_v1 =
  d1_used :: u8
  d1_is_dir :: u8
  d1_parent :: u32
  d1_size :: u32
  d1_name :: "char list"
  d1_data :: "char list"

abbreviation HEADER_SIZE :: nat where "HEADER_SIZE \<equiv> 16"
abbreviation DISK_NODE_SIZE :: nat where "DISK_NODE_SIZE \<equiv> 4142"
abbreviation DISK_NODE_V1_SIZE :: nat where "DISK_NODE_V1_SIZE \<equiv> 4138"

definition enc_header :: "fs_disk_header \<Rightarrow> u8 list" where
  "enc_header h = map byte_of_char (fh_magic h) @ le32 (fh_version h) @ le32 (fh_node_count h)"

definition dec_header :: "u8 list \<Rightarrow> fs_disk_header" where
  "dec_header bs = \<lparr>fh_magic = map char_of_byte (take 8 bs),
     fh_version = un_le32 (take 4 (drop 8 bs)), fh_node_count = un_le32 (take 4 (drop 12 bs))\<rparr>"

definition enc_disk_node :: "fs_disk_node \<Rightarrow> u8 list" where
  "enc_disk_node d = [dn_used d, dn_is_dir d] @ le32 (dn_parent d) @ le16 (dn_owner d)
     @ le16 (dn_mode d) @ le32 (dn_size d) @ map byte_of_char (dn_name d) @ map byte_of_char (dn_data d)"

definition dec_disk_node :: "u8 list \<Rightarrow> fs_disk_node" where
  "dec_disk_node bs = \<lparr>dn_used = bs ! 0, dn_is_dir = bs ! 1,
     dn_parent = un_le32 (take 4 (drop 2 bs)), dn_owner = un_le16 (take 2 (drop 6 bs)),
     dn_mode = un_le16 (take 2 (drop 8 bs)), dn_size = un_le32 (take 4 (drop 10 bs)),
     dn_name = map char_of_byte (take 32 (drop 14 bs)),
     dn_data = map char_of_byte (take 4096 (drop 46 bs))\<rparr>"

definition enc_disk_node_v1 :: "fs_disk_node_v1 \<Rightarrow> u8 list" where
  "enc_disk_node_v1 d = [d1_used d, d1_is_dir d] @ le32 (d1_parent d) @ le32 (d1_size d)
     @ map byte_of_char (d1_name d) @ map byte_of_char (d1_data d)"

definition dec_disk_node_v1 :: "u8 list \<Rightarrow> fs_disk_node_v1" where
  "dec_disk_node_v1 bs = \<lparr>d1_used = bs ! 0, d1_is_dir = bs ! 1,
     d1_parent = un_le32 (take 4 (drop 2 bs)), d1_size = un_le32 (take 4 (drop 6 bs)),
     d1_name = map char_of_byte (take 32 (drop 10 bs)),
     d1_data = map char_of_byte (take 4096 (drop 42 bs))\<rparr>"

text \<open>The field sizes of the structures, which their C types fix.\<close>

definition header_sized :: "fs_disk_header \<Rightarrow> bool" where
  "header_sized h \<longleftrightarrow> length (fh_magic h) = 8"

definition disk_node_sized :: "fs_disk_node \<Rightarrow> bool" where
  "disk_node_sized d \<longleftrightarrow> length (dn_name d) = 32 \<and> length (dn_data d) = 4096"

definition disk_node_v1_sized :: "fs_disk_node_v1 \<Rightarrow> bool" where
  "disk_node_v1_sized d \<longleftrightarrow> length (d1_name d) = 32 \<and> length (d1_data d) = 4096"

interpretation hdr: byte_codec enc_header dec_header HEADER_SIZE header_sized
  by unfold_locales (auto simp: enc_header_def dec_header_def header_sized_def codec_simps)

interpretation v2: byte_codec enc_disk_node dec_disk_node DISK_NODE_SIZE disk_node_sized
  by unfold_locales
    (auto simp: enc_disk_node_def dec_disk_node_def disk_node_sized_def codec_simps take_Cons'
      simp flip: append_assoc)

interpretation v1: byte_codec enc_disk_node_v1 dec_disk_node_v1 DISK_NODE_V1_SIZE disk_node_v1_sized
  by unfold_locales
    (auto simp: enc_disk_node_v1_def dec_disk_node_v1_def disk_node_v1_sized_def codec_simps)

subsection \<open>Writing the image\<close>

definition magic :: string where "magic = ''FURFSv1''"

text \<open>\<open>struct fs_disk_node dn\<close> filled from \<open>nodes[i]\<close>.\<close>

definition pack_node :: "fs_node \<Rightarrow> fs_disk_node option" where
  "pack_node n = do {
     nm \<leftarrow> kmemcpy (replicate (FS_MAX_NAME + 1) NUL) (nd_name n) (FS_MAX_NAME + 1);
     dt \<leftarrow> kmemcpy (replicate FS_MAX_FILE_SIZE NUL) (nd_data n) FS_MAX_FILE_SIZE;
     Some \<lparr>dn_used = (if nd_used n then 1 else 0), dn_is_dir = (if nd_is_dir n then 1 else 0),
       dn_parent = word_of_int (nd_parent n), dn_owner = nd_owner n, dn_mode = nd_mode n,
       dn_size = word_of_nat (nd_size n), dn_name = nm, dn_data = dt\<rparr> }"

fun fs_serialize_loop :: "nat list \<Rightarrow> fs \<Rightarrow> u8 list \<Rightarrow> nat \<Rightarrow> (u8 list \<times> nat) option" where
  "fs_serialize_loop [] ns out off = Some (out, off)"
| "fs_serialize_loop (i # is) ns out off = do {
     n \<leftarrow> rd ns i;
     dn \<leftarrow> pack_node n;
     out' \<leftarrow> kmemcpy_at out off (enc_disk_node dn) DISK_NODE_SIZE;
     fs_serialize_loop is ns out' (off + DISK_NODE_SIZE) }"

text \<open>The buffer is NULL or an array; the result is the return value and the buffer.\<close>

definition fs_serialize :: "fs \<Rightarrow> u8 list ptr \<Rightarrow> nat \<Rightarrow> (nat \<times> u8 list ptr) option" where
  "fs_serialize ns out max_len =
     (case out of None \<Rightarrow> Some (0, None)
      | Some buf \<Rightarrow>
          if max_len < HEADER_SIZE + DISK_NODE_SIZE * FS_MAX_NODES then Some (0, out)
          else do {
            mg \<leftarrow> kstrcpy (replicate 8 NUL) (c_str magic);
            let header = \<lparr>fh_magic = mg, fh_version = 2, fh_node_count = 128\<rparr>;
            buf \<leftarrow> kmemcpy_at buf 0 (enc_header header) HEADER_SIZE;
            (buf, off) \<leftarrow> fs_serialize_loop [0..<FS_MAX_NODES] ns buf HEADER_SIZE;
            Some (off, Some buf) })"

subsection \<open>Reading an image\<close>

definition unpack_node :: "fs_disk_node \<Rightarrow> fs_node \<Rightarrow> fs_node option" where
  "unpack_node dn n = do {
     let sz = (if unat (dn_size dn) \<ge> FS_MAX_FILE_SIZE then FS_MAX_FILE_SIZE - 1
               else unat (dn_size dn));
     nm \<leftarrow> kmemcpy (nd_name n) (dn_name dn) (FS_MAX_NAME + 1);
     nm \<leftarrow> wr nm FS_MAX_NAME NUL;
     dt \<leftarrow> kmemcpy (nd_data n) (dn_data dn) FS_MAX_FILE_SIZE;
     dt \<leftarrow> wr dt sz NUL;
     Some (n\<lparr>nd_used := (dn_used dn \<noteq> 0), nd_is_dir := (dn_is_dir dn \<noteq> 0),
       nd_parent := sint (dn_parent dn), nd_owner := dn_owner dn,
       nd_mode := dn_mode dn AND MODE_MASK, nd_size := sz, nd_name := nm, nd_data := dt\<rparr>) }"

definition unpack_node_v1 :: "fs_disk_node_v1 \<Rightarrow> fs_node \<Rightarrow> fs_node option" where
  "unpack_node_v1 dn n = do {
     let sz = (if unat (d1_size dn) \<ge> FS_MAX_FILE_SIZE then FS_MAX_FILE_SIZE - 1
               else unat (d1_size dn));
     nm \<leftarrow> kmemcpy (nd_name n) (d1_name dn) (FS_MAX_NAME + 1);
     nm \<leftarrow> wr nm FS_MAX_NAME NUL;
     dt \<leftarrow> kmemcpy (nd_data n) (d1_data dn) FS_MAX_FILE_SIZE;
     dt \<leftarrow> wr dt sz NUL;
     Some (n\<lparr>nd_used := (d1_used dn \<noteq> 0), nd_is_dir := (d1_is_dir dn \<noteq> 0),
       nd_parent := sint (d1_parent dn), nd_owner := 0,
       nd_mode := (if d1_is_dir dn \<noteq> 0 then FS_DEFAULT_DIR_MODE else FS_DEFAULT_FILE_MODE),
       nd_size := sz, nd_name := nm, nd_data := dt\<rparr>) }"

fun fs_deserialize_loop :: "nat list \<Rightarrow> u32 \<Rightarrow> u8 list \<Rightarrow> fs \<Rightarrow> nat \<Rightarrow> fs option" where
  "fs_deserialize_loop [] version inb ns off = Some ns"
| "fs_deserialize_loop (i # is) version inb ns off =
     (if version = 1 then do {
        bs \<leftarrow> slice inb off DISK_NODE_V1_SIZE;
        n \<leftarrow> rd ns i;
        n' \<leftarrow> unpack_node_v1 (dec_disk_node_v1 bs) n;
        ns' \<leftarrow> wr ns i n';
        fs_deserialize_loop is version inb ns' (off + DISK_NODE_V1_SIZE) }
      else do {
        bs \<leftarrow> slice inb off DISK_NODE_SIZE;
        n \<leftarrow> rd ns i;
        n' \<leftarrow> unpack_node (dec_disk_node bs) n;
        ns' \<leftarrow> wr ns i n';
        fs_deserialize_loop is version inb ns' (off + DISK_NODE_SIZE) })"

definition fs_deserialize :: "fs \<Rightarrow> u8 list ptr \<Rightarrow> nat \<Rightarrow> (int \<times> fs) option" where
  "fs_deserialize ns inp len =
     (case inp of None \<Rightarrow> Some (-1, ns)
      | Some inb \<Rightarrow>
          if len < HEADER_SIZE then Some (-1, ns)
          else do {
            bs \<leftarrow> slice inb 0 HEADER_SIZE;
            let header = dec_header bs;
            m \<leftarrow> kstrncmp (fh_magic header) (c_str magic) 7;
            if m \<noteq> 0 \<or> fh_node_count header \<noteq> 128 then Some (-1, ns)
            else if fh_version header \<noteq> 1 \<and> fh_version header \<noteq> 2 then Some (-1, ns)
            else if len < HEADER_SIZE + (if fh_version header = 1 then DISK_NODE_V1_SIZE
                                         else DISK_NODE_SIZE) * FS_MAX_NODES then Some (-1, ns)
            else do {
              ns \<leftarrow> fs_deserialize_loop [0..<FS_MAX_NODES] (fh_version header) inb
                (replicate FS_MAX_NODES zero_node) HEADER_SIZE;
              n \<leftarrow> nd_at ns 0;
              if \<not> nd_used n \<or> \<not> nd_is_dir n then do { ns \<leftarrow> fs_init; Some (-1, ns) }
              else do {
                nm \<leftarrow> kstrcpy (nd_name n) (c_str ''/'');
                ns \<leftarrow> nd_put ns 0 (n\<lparr>nd_used := True, nd_is_dir := True, nd_parent := 0,
                  nd_owner := 0, nd_mode := FS_DEFAULT_DIR_MODE, nd_name := nm\<rparr>);
                Some (0, ns) } } })"

end
