(* ===== verification/Disk.thy ===== *)
theory Disk
  imports AtaScan FsImage Sectors
begin

text \<open>
  kernel/disk.c: the layout of a FurOS disk (boot sector, boot information, kernel image, file system
  area) over the driver of kernel/ata.c. The state holds the static variables of the file, the driver
  and the table of the file system, which loading replaces. The kernel image, the entry point in it and
  the boot sector are placed by the linker, so they are parameters.
\<close>

abbreviation (input) DISK_START_LBA :: u32 where "DISK_START_LBA \<equiv> 2048"
abbreviation (input) DISK_TOTAL_SECTORS :: u32 where "DISK_TOTAL_SECTORS \<equiv> 4096"
abbreviation (input) SECTOR_SIZE :: nat where "SECTOR_SIZE \<equiv> 512"
abbreviation (input) DISK_PAYLOAD_MAX :: nat where "DISK_PAYLOAD_MAX \<equiv> 2096640"
abbreviation (input) BOOT_INFO_LBA :: u32 where "BOOT_INFO_LBA \<equiv> 1"
abbreviation (input) KERNEL_LBA_START :: u32 where "KERNEL_LBA_START \<equiv> 2"
abbreviation (input) BOOTSECT_SIZE :: nat where "BOOTSECT_SIZE \<equiv> 512"
abbreviation (input) MAX_BOOT_KERNEL_SECTORS :: u32 where "MAX_BOOT_KERNEL_SECTORS \<equiv> 1920"

definition disk_magic :: string where "disk_magic = ''FURDSK1''"
definition boot_magic :: string where "boot_magic = ''FURBOOT1''"

text \<open>\<open>struct disk_header\<close>, 20 bytes, and \<open>struct boot_info_sector\<close>, 512 bytes.\<close>

record disk_header =
  dh_magic :: "char list"
  dh_version :: u32
  dh_payload_size :: u32
  dh_checksum :: u32

abbreviation DISK_HEADER_SIZE :: nat where "DISK_HEADER_SIZE \<equiv> 20"

definition enc_disk_header :: "disk_header \<Rightarrow> u8 list" where
  "enc_disk_header h = map byte_of_char (dh_magic h) @ le32 (dh_version h) @ le32 (dh_payload_size h)
     @ le32 (dh_checksum h)"

definition dec_disk_header :: "u8 list \<Rightarrow> disk_header" where
  "dec_disk_header bs = \<lparr>dh_magic = map char_of_byte (take 8 bs),
     dh_version = un_le32 (take 4 (drop 8 bs)), dh_payload_size = un_le32 (take 4 (drop 12 bs)),
     dh_checksum = un_le32 (take 4 (drop 16 bs))\<rparr>"

definition disk_header_sized :: "disk_header \<Rightarrow> bool" where
  "disk_header_sized h \<longleftrightarrow> length (dh_magic h) = 8"

interpretation dhdr: byte_codec enc_disk_header dec_disk_header DISK_HEADER_SIZE disk_header_sized
  by unfold_locales (auto simp: enc_disk_header_def dec_disk_header_def disk_header_sized_def codec_simps)

record boot_info_sector =
  bi_magic :: "char list"
  bi_kernel_size_bytes :: u32
  bi_kernel_sectors :: u32
  bi_entry_offset :: u32

definition enc_boot_info :: "boot_info_sector \<Rightarrow> u8 list" where
  "enc_boot_info b = map byte_of_char (bi_magic b) @ le32 (bi_kernel_size_bytes b)
     @ le32 (bi_kernel_sectors b) @ le32 (bi_entry_offset b) @ le32 0 @ replicate 488 0"

text \<open>What the linker provides: \<open>entry\<close> is \<open>_start32 - __kernel_image_start\<close>.\<close>

record blobs =
  bl_kernel :: "u8 list"
  bl_entry :: nat
  bl_bootsect :: "u8 list"

record 'h disk =
  d_count :: int
  d_selected :: int
  d_error :: string
  d_sector :: "u8 list"
  d_payload :: "u8 list"
  d_ata :: "'h ata"
  d_nodes :: fs

definition disk_boot :: "'h \<Rightarrow> fs \<Rightarrow> 'h disk" where
  "disk_boot h ns = \<lparr>d_count = 0, d_selected = -1, d_error = ''ok'', d_sector = replicate SECTOR_SIZE 0,
     d_payload = replicate DISK_PAYLOAD_MAX 0, d_ata = ata_boot h, d_nodes = ns\<rparr>"

subsection \<open>Selecting a disk\<close>

fun checksum_loop :: "u8 list \<Rightarrow> nat \<Rightarrow> u32 \<Rightarrow> u32 option" where
  "checksum_loop data 0 acc = Some acc"
| "checksum_loop [] (Suc n) acc = None"
| "checksum_loop (b # data) (Suc n) acc = checksum_loop data n (acc + ucast b)"

definition checksum_bytes :: "u8 list \<Rightarrow> nat \<Rightarrow> u32 option" where
  "checksum_bytes data len = checksum_loop data len 0"

definition disk_init :: "'h hw \<Rightarrow> 'h disk \<Rightarrow> 'h disk option" where
  "disk_init hw s = do {
     (n, a) \<leftarrow> ata_scan hw (d_ata s);
     let s = s\<lparr>d_ata := a, d_count := n, d_selected := ata_selected_device a\<rparr>;
     Some (s\<lparr>d_error := (if d_count s > 0 \<and> d_selected s \<ge> 0 then ''ok'' else ata_last_error a)\<rparr>) }"

definition disk_available :: "'h disk \<Rightarrow> bool" where
  "disk_available s \<longleftrightarrow> d_selected s \<ge> 0"

text \<open>The local \<open>info\<close> has no initial value in C; its bytes here are 0.\<close>

definition zero_info :: ata_device_info where
  "zero_info = \<lparr>in_present = False, in_index = 0, in_interface_type = 0, in_io_base = 0, in_slave = 0,
     in_sectors28 = 0, in_model = replicate 41 NUL\<rparr>"

definition disk_get_info :: "'h disk \<Rightarrow> int \<Rightarrow> ata_device_info ptr \<Rightarrow> (int \<times> ata_device_info ptr) option" where
  "disk_get_info s index out =
     (case out of None \<Rightarrow> Some (-1, None)
      | Some o0 \<Rightarrow> do {
          (r, info) \<leftarrow> ata_get_info (d_ata s) index (Some zero_info);
          if r \<noteq> 0 then Some (-1, out)
          else do {
            let i = the info;
            m \<leftarrow> kmemcpy (in_model o0) (in_model i) 41;
            Some (0, Some (o0\<lparr>in_present := in_present i, in_index := in_index i,
              in_interface_type := in_interface_type i, in_sectors28 := in_sectors28 i,
              in_io_base := in_io_base i, in_slave := in_slave i, in_model := m\<rparr>)) } })"

definition disk_select :: "'h disk \<Rightarrow> int \<Rightarrow> (int \<times> 'h disk) option" where
  "disk_select s index = do {
     (r, a) \<leftarrow> ata_select_device (d_ata s) index;
     let s = s\<lparr>d_ata := a\<rparr>;
     if r \<noteq> 0 then Some (-1, s\<lparr>d_error := ''invalid or missing disk index''\<rparr>)
     else Some (0, s\<lparr>d_selected := index, d_error := ''ok''\<rparr>) }"

definition disk_selected :: "'h disk \<Rightarrow> int" where "disk_selected s = d_selected s"
definition disk_count :: "'h disk \<Rightarrow> int" where "disk_count s = d_count s"
definition disk_last_error :: "'h disk \<Rightarrow> string" where "disk_last_error s = d_error s"

subsection \<open>Sector buffer\<close>

text \<open>
  \<open>ata_read_sector(lba, g_sector)\<close> and \<open>ata_write_sector(lba, g_sector)\<close>, with the error branch that
  every caller has: the driver's message and -1.
\<close>

definition read_g_sector :: "'h hw \<Rightarrow> u32 \<Rightarrow> 'h disk \<Rightarrow> (int \<times> 'h disk) option" where
  "read_g_sector hw lba s = do {
     (r, buf, a) \<leftarrow> ata_read_sector hw lba (Some (hw_sector_addr hw, d_sector s)) (d_ata s);
     let s = s\<lparr>d_sector := snd (the buf), d_ata := a\<rparr>;
     if r \<noteq> 0 then Some (-1, s\<lparr>d_error := ata_last_error a\<rparr>) else Some (0, s) }"

definition write_g_sector :: "'h hw \<Rightarrow> u32 \<Rightarrow> 'h disk \<Rightarrow> (int \<times> 'h disk) option" where
  "write_g_sector hw lba s = do {
     (r, a) \<leftarrow> ata_write_sector hw lba (Some (hw_sector_addr hw, d_sector s)) (d_ata s);
     let s = s\<lparr>d_ata := a\<rparr>;
     if r \<noteq> 0 then Some (-1, s\<lparr>d_error := ata_last_error a\<rparr>) else Some (0, s) }"

subsection \<open>Installing the system\<close>

text \<open>The loop over the sectors of the kernel.\<close>

fun install_kernel :: "'h hw \<Rightarrow> blobs \<Rightarrow> nat list \<Rightarrow> 'h disk \<Rightarrow> (int \<times> 'h disk) option" where
  "install_kernel hw bl [] s = Some (0, s)"
| "install_kernel hw bl (i # is) s = do {
     let offset = i * SECTOR_SIZE;
     let remain = length (bl_kernel bl) - offset;
     let chunk = (if remain \<ge> SECTOR_SIZE then SECTOR_SIZE else remain);
     sec \<leftarrow> kmemset (d_sector s) 0 SECTOR_SIZE;
     sec \<leftarrow> kmemcpy sec (drop offset (bl_kernel bl)) chunk;
     (r, s) \<leftarrow> write_g_sector hw (KERNEL_LBA_START + word_of_nat i) (s\<lparr>d_sector := sec\<rparr>);
     if r \<noteq> 0 then Some (-1, s) else install_kernel hw bl is s }"

definition disk_install_system :: "'h hw \<Rightarrow> blobs \<Rightarrow> 'h disk \<Rightarrow> (int \<times> 'h disk) option" where
  "disk_install_system hw bl s =
     (if \<not> disk_available s then Some (-1, s\<lparr>d_error := ''disk unavailable''\<rparr>)
      else do {
        (r, cap) \<leftarrow> disk_get_info s (d_selected s) (Some zero_info);
        if r = 0 \<and> in_sectors28 (the cap) > 0 \<and> in_sectors28 (the cap) < DISK_START_LBA + DISK_TOTAL_SECTORS
        then Some (-1, s\<lparr>d_error := ''disk too small for FurOS (need 3 MB minimum)''\<rparr>)
        else if length (bl_bootsect bl) < BOOTSECT_SIZE
        then Some (-1, s\<lparr>d_error := ''boot sector blob missing''\<rparr>)
        else do {
          let kernel_size = length (bl_kernel bl);
          let kernel_sectors = (word_of_nat ((kernel_size + SECTOR_SIZE - 1) div SECTOR_SIZE) :: u32);
          if kernel_size = 0 \<or> bl_entry bl \<ge> kernel_size
          then Some (-1, s\<lparr>d_error := ''invalid kernel image bounds''\<rparr>)
          else if kernel_sectors = 0 \<or> kernel_sectors > MAX_BOOT_KERNEL_SECTORS
          then Some (-1, s\<lparr>d_error := ''kernel too large for bootloader''\<rparr>)
          else do {
            sec \<leftarrow> kmemcpy (d_sector s) (bl_bootsect bl) BOOTSECT_SIZE;
            (r, s) \<leftarrow> write_g_sector hw 0 (s\<lparr>d_sector := sec\<rparr>);
            if r \<noteq> 0 then Some (-1, s)
            else do {
              mg \<leftarrow> kmemcpy (replicate 8 NUL) (c_str boot_magic) 8;
              let info = \<lparr>bi_magic = mg, bi_kernel_size_bytes = word_of_nat kernel_size,
                bi_kernel_sectors = kernel_sectors, bi_entry_offset = word_of_nat (bl_entry bl)\<rparr>;
              sec \<leftarrow> kmemcpy (d_sector s) (enc_boot_info info) 512;
              (r, s) \<leftarrow> write_g_sector hw BOOT_INFO_LBA (s\<lparr>d_sector := sec\<rparr>);
              if r \<noteq> 0 then Some (-1, s)
              else do {
                (r, s) \<leftarrow> install_kernel hw bl [0..<unat kernel_sectors] s;
                if r \<noteq> 0 then Some (-1, s)
                else do {
                  (_, a) \<leftarrow> ata_flush hw (d_ata s);
                  Some (0, s\<lparr>d_ata := a, d_error := ''ok''\<rparr>) } } } } } })"

subsection \<open>Loading and saving the file system\<close>

definition disk_load_fs :: "'h hw \<Rightarrow> 'h disk \<Rightarrow> (int \<times> 'h disk) option" where
  "disk_load_fs hw s =
     (if \<not> disk_available s then Some (-1, s\<lparr>d_error := ''disk unavailable''\<rparr>)
      else do {
        (r, s) \<leftarrow> read_g_sector hw DISK_START_LBA s;
        if r \<noteq> 0 then Some (-1, s)
        else do {
          bs \<leftarrow> slice (d_sector s) 0 DISK_HEADER_SIZE;
          let header = dec_disk_header bs;
          m \<leftarrow> kstrncmp (dh_magic header) (c_str disk_magic) 7;
          if m \<noteq> 0 \<or> dh_version header \<noteq> 1 then Some (-1, s\<lparr>d_error := ''not installed''\<rparr>)
          else if dh_payload_size header = 0 \<or> unat (dh_payload_size header) > DISK_PAYLOAD_MAX
          then Some (-1, s\<lparr>d_error := ''invalid payload size''\<rparr>)
          else do {
            let sectors = unat ((dh_payload_size header + 512 - 1) div 512);
            (r, payload, a) \<leftarrow> read_range (ata_read_sector hw) (DISK_START_LBA + 1) (hw_payload_addr hw)
              [0..<sectors] (d_payload s) (d_ata s);
            let s = s\<lparr>d_payload := payload, d_ata := a\<rparr>;
            if r \<noteq> 0 then Some (-1, s\<lparr>d_error := ata_last_error a\<rparr>)
            else do {
              acc \<leftarrow> checksum_bytes (d_payload s) (unat (dh_payload_size header));
              if acc \<noteq> dh_checksum header then Some (-1, s\<lparr>d_error := ''checksum mismatch''\<rparr>)
              else do {
                (r, ns) \<leftarrow> fs_deserialize (d_nodes s) (Some (d_payload s)) (unat (dh_payload_size header));
                let s = s\<lparr>d_nodes := ns\<rparr>;
                if r \<noteq> 0 then Some (-1, s\<lparr>d_error := ''filesystem decode failed''\<rparr>)
                else Some (0, s\<lparr>d_error := ''ok''\<rparr>) } } } } })"

definition disk_save_fs :: "'h hw \<Rightarrow> 'h disk \<Rightarrow> (int \<times> 'h disk) option" where
  "disk_save_fs hw s =
     (if \<not> disk_available s then Some (-1, s\<lparr>d_error := ''disk unavailable''\<rparr>)
      else do {
        (payload_size, out) \<leftarrow> fs_serialize (d_nodes s) (Some (d_payload s)) DISK_PAYLOAD_MAX;
        let s = s\<lparr>d_payload := the out\<rparr>;
        if payload_size = 0 then Some (-1, s\<lparr>d_error := ''filesystem encode failed''\<rparr>)
        else do {
          mg \<leftarrow> kstrcpy (replicate 8 NUL) (c_str disk_magic);
          acc \<leftarrow> checksum_bytes (d_payload s) payload_size;
          let header = \<lparr>dh_magic = mg, dh_version = 1, dh_payload_size = word_of_nat payload_size,
            dh_checksum = acc\<rparr>;
          sec \<leftarrow> kmemset (d_sector s) 0 SECTOR_SIZE;
          sec \<leftarrow> kmemcpy sec (enc_disk_header header) DISK_HEADER_SIZE;
          (r, s) \<leftarrow> write_g_sector hw DISK_START_LBA (s\<lparr>d_sector := sec\<rparr>);
          if r \<noteq> 0 then Some (-1, s)
          else do {
            let sectors = (payload_size + SECTOR_SIZE - 1) div SECTOR_SIZE;
            (r, a) \<leftarrow> write_range (ata_write_sector hw) (DISK_START_LBA + 1) (hw_payload_addr hw)
              [0..<sectors] (d_payload s) (d_ata s);
            let s = s\<lparr>d_ata := a\<rparr>;
            if r \<noteq> 0 then Some (-1, s\<lparr>d_error := ata_last_error a\<rparr>)
            else do {
              (_, a) \<leftarrow> ata_flush hw (d_ata s);
              Some (0, s\<lparr>d_ata := a, d_error := ''ok''\<rparr>) } } } })"

definition disk_format_fs :: "'h hw \<Rightarrow> 'h disk \<Rightarrow> (int \<times> 'h disk) option" where
  "disk_format_fs hw s = do {
     ns \<leftarrow> fs_init;
     (r, s) \<leftarrow> disk_save_fs hw (s\<lparr>d_nodes := ns\<rparr>);
     if r \<noteq> 0 then Some (-1, s) else Some (0, s\<lparr>d_error := ''ok''\<rparr>) }"

end
