(* ===== verification/FsImageSpec.thy ===== *)
theory FsImageSpec
  imports FsImage
begin

text \<open>
  The image format as a specification: \<^theory_text>\<open>image\<close> is the byte sequence of a table,
  \<^theory_text>\<open>load_node\<close> and \<^theory_text>\<open>load_node_v1\<close> are the node that a stored one becomes. The
  loops of kernel/fs.c compute them; loading the image of a well-formed table gives the table
  back, and loading any bytes at all leaves a table whose buffers are well formed.
\<close>

subsection \<open>The image of a table\<close>

definition image_header :: "u32 \<Rightarrow> fs_disk_header" where
  "image_header v = \<lparr>fh_magic = magic @ [NUL], fh_version = v, fh_node_count = 128\<rparr>"

definition disk_of :: "fs_node \<Rightarrow> fs_disk_node" where
  "disk_of n = \<lparr>dn_used = (if nd_used n then 1 else 0), dn_is_dir = (if nd_is_dir n then 1 else 0),
     dn_parent = word_of_int (nd_parent n), dn_owner = nd_owner n, dn_mode = nd_mode n,
     dn_size = word_of_nat (nd_size n), dn_name = nd_name n, dn_data = nd_data n\<rparr>"

abbreviation nodes_bytes :: "fs \<Rightarrow> u8 list" where
  "nodes_bytes ns \<equiv> concat (map (enc_disk_node \<circ> disk_of) ns)"

definition image :: "fs \<Rightarrow> u8 list" where
  "image ns = enc_header (image_header 2) @ nodes_bytes ns"

abbreviation IMAGE_SIZE :: nat where "IMAGE_SIZE \<equiv> 530192"

lemma node_ok_sized: "node_ok n \<Longrightarrow> disk_node_sized (disk_of n)"
  by (simp add: node_ok_def disk_node_sized_def disk_of_def)

lemma header_ok: "header_sized (image_header v)"
  by (simp add: header_sized_def image_header_def magic_def)

lemma nodes_bytes_length:
  "\<forall>n \<in> set ns. node_ok n \<Longrightarrow> length (nodes_bytes ns) = DISK_NODE_SIZE * length ns"
  using v2.concat_length [of "map disk_of ns"] node_ok_sized by simp

lemma image_length: "fs_mem ns \<Longrightarrow> length (image ns) = IMAGE_SIZE"
  using nodes_bytes_length [of ns] hdr.enc_length [OF header_ok]
  by (simp add: image_def fs_mem_def)

lemma pack_node_eq: "node_ok n \<Longrightarrow> pack_node n = Some (disk_of n)"
  by (simp add: pack_node_def loop_simps node_ok_def disk_of_def)

lemma fs_serialize_loop_eq:
  assumes "\<forall>n \<in> set ns. node_ok n" "i \<le> length ns"
    "length pre = off" "DISK_NODE_SIZE * (length ns - i) \<le> length post"
  shows "fs_serialize_loop [i..<length ns] ns (pre @ post) off =
    Some (pre @ nodes_bytes (drop i ns) @ drop (DISK_NODE_SIZE * (length ns - i)) post,
          off + DISK_NODE_SIZE * (length ns - i))"
  using assms(2-4)
proof (induction "length ns - i" arbitrary: i pre post off)
  case 0
  then show ?case by simp
next
  case (Suc k)
  then have i: "i < length ns" by simp
  let ?b = "enc_disk_node (disk_of (ns ! i))"
  have ok: "node_ok (ns ! i)" using assms(1) i by simp
  have lb: "length ?b = DISK_NODE_SIZE" using v2.enc_length [OF node_ok_sized [OF ok]] .
  have k: "k = length ns - Suc i" "length ns - i = Suc (length ns - Suc i)" using Suc.hyps(2) by auto
  have room: "DISK_NODE_SIZE \<le> length post" using Suc.prems(3) k(2) by simp
  have cp: "kmemcpy_at (pre @ post) off ?b DISK_NODE_SIZE =
      Some ((pre @ ?b) @ drop DISK_NODE_SIZE post)"
    using room lb Suc.prems(2) by (simp add: kmemcpy_at_eq)
  have ih: "fs_serialize_loop [Suc i..<length ns] ns ((pre @ ?b) @ drop DISK_NODE_SIZE post)
      (off + DISK_NODE_SIZE) =
    Some ((pre @ ?b) @ nodes_bytes (drop (Suc i) ns)
        @ drop (DISK_NODE_SIZE * (length ns - Suc i)) (drop DISK_NODE_SIZE post),
      off + DISK_NODE_SIZE + DISK_NODE_SIZE * (length ns - Suc i))"
    by (rule Suc.hyps(1) [OF k(1)]) (use Suc.prems lb i k(2) in auto)
  have u: "[i..<length ns] = i # [Suc i..<length ns]" using i by (simp add: upt_conv_Cons)
  have d: "drop i ns = ns ! i # drop (Suc i) ns" using i by (simp add: Cons_nth_drop_Suc)
  show ?case
    using ih i k(2) by (simp add: u d pack_node_eq [OF ok] cp add.commute)
qed

lemma fs_serialize_eq:
  assumes "fs_mem ns" "IMAGE_SIZE \<le> max_len" "max_len \<le> length buf"
  shows "fs_serialize ns (Some buf) max_len = Some (IMAGE_SIZE, Some (image ns @ drop IMAGE_SIZE buf))"
proof -
  have "kstrcpy (replicate 8 NUL) (c_str magic) = Some (magic @ [NUL])"
    by (simp add: loop_simps magic_def)
  moreover have h: "length (enc_header (image_header 2)) = HEADER_SIZE"
    by (rule hdr.enc_length [OF header_ok])
  moreover have "kmemcpy_at buf 0 (enc_header (image_header 2)) HEADER_SIZE =
      Some (enc_header (image_header 2) @ drop HEADER_SIZE buf)"
    using assms h by (simp add: kmemcpy_at_eq)
  moreover have "fs_serialize_loop [0..<length ns] ns
      (enc_header (image_header 2) @ drop HEADER_SIZE buf) HEADER_SIZE =
    Some (enc_header (image_header 2) @ nodes_bytes (drop 0 ns)
        @ drop (DISK_NODE_SIZE * (length ns - 0)) (drop HEADER_SIZE buf),
      HEADER_SIZE + DISK_NODE_SIZE * (length ns - 0))"
    by (rule fs_serialize_loop_eq) (use assms h in \<open>auto simp: fs_mem_def\<close>)
  ultimately show ?thesis
    using assms(1,2) by (simp add: fs_serialize_def image_header_def fs_mem_def image_def)
qed

subsection \<open>The table of an image\<close>

definition clamp_size :: "u32 \<Rightarrow> nat" where
  "clamp_size w = (if unat w \<ge> FS_MAX_FILE_SIZE then FS_MAX_FILE_SIZE - 1 else unat w)"

definition load_node :: "fs_disk_node \<Rightarrow> fs_node" where
  "load_node d = \<lparr>nd_used = (dn_used d \<noteq> 0), nd_is_dir = (dn_is_dir d \<noteq> 0),
     nd_parent = sint (dn_parent d), nd_owner = dn_owner d, nd_mode = dn_mode d AND MODE_MASK,
     nd_name = (dn_name d)[FS_MAX_NAME := NUL],
     nd_data = (dn_data d)[clamp_size (dn_size d) := NUL], nd_size = clamp_size (dn_size d)\<rparr>"

definition load_node_v1 :: "fs_disk_node_v1 \<Rightarrow> fs_node" where
  "load_node_v1 d = \<lparr>nd_used = (d1_used d \<noteq> 0), nd_is_dir = (d1_is_dir d \<noteq> 0),
     nd_parent = sint (d1_parent d), nd_owner = 0,
     nd_mode = (if d1_is_dir d \<noteq> 0 then FS_DEFAULT_DIR_MODE else FS_DEFAULT_FILE_MODE),
     nd_name = (d1_name d)[FS_MAX_NAME := NUL],
     nd_data = (d1_data d)[clamp_size (d1_size d) := NUL], nd_size = clamp_size (d1_size d)\<rparr>"

lemma clamp_size_less: "clamp_size w < FS_MAX_FILE_SIZE"
  by (simp add: clamp_size_def)

lemma load_node_ok: "disk_node_sized d \<Longrightarrow> node_ok (load_node d)"
  using clamp_size_less [of "dn_size d"]
  by (simp add: node_ok_def load_node_def disk_node_sized_def and.assoc)

lemma load_node_v1_ok: "disk_node_v1_sized d \<Longrightarrow> node_ok (load_node_v1 d)"
  using clamp_size_less [of "d1_size d"]
  by (simp add: node_ok_def load_node_v1_def disk_node_v1_sized_def)

lemma zero_node_sizes: "length (nd_name zero_node) = 32" "length (nd_data zero_node) = 4096"
  by (simp_all add: zero_node_def)

lemma unpack_node_eq: "disk_node_sized d \<Longrightarrow> unpack_node d zero_node = Some (load_node d)"
  by (simp add: unpack_node_def load_node_def disk_node_sized_def loop_simps zero_node_sizes
      clamp_size_def wr_def Let_def zero_node_def cong del: if_weak_cong)

lemma unpack_node_v1_eq: "disk_node_v1_sized d \<Longrightarrow> unpack_node_v1 d zero_node = Some (load_node_v1 d)"
  by (simp add: unpack_node_v1_def load_node_v1_def disk_node_v1_sized_def loop_simps zero_node_sizes
      clamp_size_def wr_def Let_def zero_node_def cong del: if_weak_cong)

lemma dec_disk_node_sized: "length bs = DISK_NODE_SIZE \<Longrightarrow> disk_node_sized (dec_disk_node bs)"
  by (simp add: dec_disk_node_def disk_node_sized_def)

lemma dec_disk_node_v1_sized: "length bs = DISK_NODE_V1_SIZE \<Longrightarrow> disk_node_v1_sized (dec_disk_node_v1 bs)"
  by (simp add: dec_disk_node_v1_def disk_node_v1_sized_def)

definition node_width :: "u32 \<Rightarrow> nat" where
  "node_width v = (if v = 1 then DISK_NODE_V1_SIZE else DISK_NODE_SIZE)"

definition stored_node :: "u32 \<Rightarrow> u8 list \<Rightarrow> nat \<Rightarrow> fs_node" where
  "stored_node v inb k = (let bs = take (node_width v) (drop (HEADER_SIZE + node_width v * k) inb)
     in if v = 1 then load_node_v1 (dec_disk_node_v1 bs) else load_node (dec_disk_node bs))"

definition loaded :: "u32 \<Rightarrow> u8 list \<Rightarrow> fs" where
  "loaded v inb = map (stored_node v inb) [0..<FS_MAX_NODES]"

lemma loaded_mem:
  assumes "HEADER_SIZE + node_width v * FS_MAX_NODES \<le> length inb"
  shows "fs_mem (loaded v inb)"
proof -
  have "node_ok (stored_node v inb k)" if "k < FS_MAX_NODES" for k
  proof -
    have "HEADER_SIZE + node_width v * Suc k \<le> length inb"
      using assms that mult_le_mono2 [of "Suc k" FS_MAX_NODES "node_width v"] by linarith
    then have "length (take (node_width v) (drop (HEADER_SIZE + node_width v * k) inb)) = node_width v"
      by simp
    then show ?thesis
      by (auto simp: stored_node_def Let_def node_width_def
          intro!: load_node_ok load_node_v1_ok dec_disk_node_sized dec_disk_node_v1_sized)
  qed
  then show ?thesis by (auto simp: fs_mem_def loaded_def)
qed

lemma fs_deserialize_loop_eq:
  assumes "HEADER_SIZE + node_width v * FS_MAX_NODES \<le> length inb" "i \<le> FS_MAX_NODES"
    "length ns = i"
  shows "fs_deserialize_loop [i..<FS_MAX_NODES] v inb (ns @ replicate (FS_MAX_NODES - i) zero_node)
      (HEADER_SIZE + node_width v * i) = Some (ns @ drop i (loaded v inb))"
  using assms(2,3)
proof (induction "FS_MAX_NODES - i" arbitrary: i ns)
  case 0
  then show ?case by (simp add: loaded_def)
next
  case (Suc k)
  then have i: "i < FS_MAX_NODES" by simp
  let ?bs = "take (node_width v) (drop (HEADER_SIZE + node_width v * i) inb)"
  have "HEADER_SIZE + node_width v * Suc i \<le> length inb"
    using assms(1) i mult_le_mono2 [of "Suc i" FS_MAX_NODES "node_width v"] by linarith
  then have sl: "slice inb (HEADER_SIZE + node_width v * i) (node_width v) = Some ?bs"
    and len: "length ?bs = node_width v"
    by (simp_all add: slice_def)
  have r: "replicate (FS_MAX_NODES - i) zero_node = zero_node # replicate (FS_MAX_NODES - Suc i) zero_node"
    using i by (metis Suc_diff_Suc replicate_Suc)
  have ih: "fs_deserialize_loop [Suc i..<FS_MAX_NODES] v inb
      ((ns @ [stored_node v inb i]) @ replicate (FS_MAX_NODES - Suc i) zero_node)
      (HEADER_SIZE + node_width v * Suc i) =
    Some ((ns @ [stored_node v inb i]) @ drop (Suc i) (loaded v inb))"
    by (rule Suc.hyps(1)) (use Suc.hyps(2) Suc.prems i in auto)
  have u: "[i..<FS_MAX_NODES] = i # [Suc i..<FS_MAX_NODES]" using i by (simp add: upt_conv_Cons)
  have "loaded v inb ! i = stored_node v inb i" "i < length (loaded v inb)"
    using i by (simp_all add: loaded_def)
  then have d: "drop i (loaded v inb) = stored_node v inb i # drop (Suc i) (loaded v inb)"
    by (metis Cons_nth_drop_Suc)
  have rd: "rd (ns @ zero_node # xs) i = Some zero_node" for xs
    using Suc.prems(2) by (simp add: rd_def nth_append)
  have wr: "wr (ns @ zero_node # xs) i y = Some (ns @ y # xs)" for xs y
    using Suc.prems(2) by (simp add: wr_def list_update_append)
  show ?case
  proof (cases "v = 1")
    case True
    then have "unpack_node_v1 (dec_disk_node_v1 ?bs) zero_node = Some (stored_node v inb i)"
      using len by (simp add: unpack_node_v1_eq dec_disk_node_v1_sized stored_node_def node_width_def)
    with True ih sl show ?thesis
      by (simp only: u r fs_deserialize_loop.simps rd wr node_width_def) (simp add: d [unfolded True])
  next
    case False
    then have "unpack_node (dec_disk_node ?bs) zero_node = Some (stored_node v inb i)"
      using len by (simp add: unpack_node_eq dec_disk_node_sized stored_node_def node_width_def)
    with False ih sl show ?thesis
      by (simp only: u r d fs_deserialize_loop.simps rd wr node_width_def) simp
  qed
qed

lemma fs_deserialize_loop_loaded:
  assumes "HEADER_SIZE + node_width v * FS_MAX_NODES \<le> length inb"
  shows "fs_deserialize_loop [0..<FS_MAX_NODES] v inb (replicate FS_MAX_NODES zero_node) HEADER_SIZE
    = Some (loaded v inb)"
  using fs_deserialize_loop_eq [OF assms, of 0 "[]"] by simp

subsection \<open>Loading\<close>

lemma kstrncmp_magic:
  assumes "nul_free s" "length s = n" "n \<le> length a"
  shows "\<exists>r. kstrncmp a (s @ t) n = Some r \<and> (r = 0 \<longleftrightarrow> take n a = s)"
  using assms
proof (induction n arbitrary: a s)
  case 0
  then show ?case by simp
next
  case (Suc n)
  from Suc.prems obtain x a' where a: "a = x # a'" by (cases a) auto
  from Suc.prems obtain y s' where s: "s = y # s'" by (cases s) auto
  from Suc.prems a s have "nul_free s'" "length s' = n" "n \<le> length a'" "y \<noteq> NUL" by auto
  with Suc.IH [of s' a'] a s show ?case by auto
qed

definition image_version :: "u8 list \<Rightarrow> u32" where
  "image_version inb = fh_version (dec_header (take HEADER_SIZE inb))"

definition image_ok :: "u8 list \<Rightarrow> nat \<Rightarrow> bool" where
  "image_ok inb len \<longleftrightarrow> HEADER_SIZE \<le> len
     \<and> take 7 (fh_magic (dec_header (take HEADER_SIZE inb))) = magic
     \<and> fh_node_count (dec_header (take HEADER_SIZE inb)) = 128
     \<and> (image_version inb = 1 \<or> image_version inb = 2)
     \<and> HEADER_SIZE + node_width (image_version inb) * FS_MAX_NODES \<le> len"

definition reset_root :: "fs \<Rightarrow> fs" where
  "reset_root ns = ns[0 := (ns ! 0)\<lparr>nd_used := True, nd_is_dir := True, nd_parent := 0, nd_owner := 0,
     nd_mode := FS_DEFAULT_DIR_MODE, nd_name := CHR ''/'' # NUL # drop 2 (nd_name (ns ! 0))\<rparr>]"

definition load_spec :: "fs \<Rightarrow> u8 list \<Rightarrow> nat \<Rightarrow> int \<times> fs" where
  "load_spec ns inb len =
     (if \<not> image_ok inb len then (-1, ns)
      else let t = loaded (image_version inb) inb
           in if dir_node t 0 then (0, reset_root t) else (-1, init_table))"

lemma fs_deserialize_eq:
  assumes len: "len \<le> length inb"
  shows "fs_deserialize ns (Some inb) len = Some (load_spec ns inb len)"
proof (cases "HEADER_SIZE \<le> len")
  case False
  then show ?thesis by (simp add: fs_deserialize_def load_spec_def image_ok_def)
next
  case True
  let ?h = "dec_header (take HEADER_SIZE inb)"
  have sl: "slice inb 0 HEADER_SIZE = Some (take HEADER_SIZE inb)"
    using True len by (simp add: slice_def)
  have m8: "length (fh_magic ?h) = 8" using True len by (simp add: dec_header_def)
  obtain r where r: "kstrncmp (fh_magic ?h) (c_str magic) 7 = Some r"
    "r = 0 \<longleftrightarrow> take 7 (fh_magic ?h) = magic"
    using kstrncmp_magic [of magic 7 "fh_magic ?h" "[NUL]"] m8 by (auto simp: magic_def c_str_def)
  show ?thesis
  proof (cases "image_ok inb len")
    case False
    with True sl r show ?thesis
      by (auto simp: fs_deserialize_def load_spec_def image_ok_def image_version_def node_width_def
          not_le Let_def cong del: if_weak_cong)
  next
    case ok: True
    let ?t = "loaded (fh_version ?h) inb"
    have v: "fh_version ?h = 1 \<or> fh_version ?h = 2"
      and room: "HEADER_SIZE + node_width (fh_version ?h) * FS_MAX_NODES \<le> len"
      using ok by (auto simp: image_ok_def image_version_def)
    have mem: "fs_mem ?t" and lp: "fs_deserialize_loop [0..<FS_MAX_NODES] (fh_version ?h) inb
        (replicate FS_MAX_NODES zero_node) HEADER_SIZE = Some ?t"
      using room len by (auto intro!: loaded_mem fs_deserialize_loop_loaded)
    have l0: "length ?t = FS_MAX_NODES" "node_ok (?t ! 0)" using mem by (auto simp: fs_mem_def)
    then have "kstrcpy (nd_name (?t ! 0)) (c_str ''/'') = Some (CHR ''/'' # NUL # drop 2 (nd_name (?t ! 0)))"
      by (simp add: loop_simps node_ok_def numeral_2_eq_2)
    moreover have "fs_deserialize ns (Some inb) len = do {
        n \<leftarrow> nd_at ?t 0;
        if \<not> nd_used n \<or> \<not> nd_is_dir n then do { ns \<leftarrow> fs_init; Some (-1, ns) }
        else do {
          nm \<leftarrow> kstrcpy (nd_name n) (c_str ''/'');
          ns \<leftarrow> nd_put ?t 0 (n\<lparr>nd_used := True, nd_is_dir := True, nd_parent := 0,
            nd_owner := 0, nd_mode := FS_DEFAULT_DIR_MODE, nd_name := nm\<rparr>);
          Some (0, ns) } }"
      using True sl r ok v room lp
      by (simp add: fs_deserialize_def image_ok_def image_version_def node_width_def Let_def
          cong del: if_weak_cong) blast
    ultimately show ?thesis
      using l0 ok by (auto simp: nd_at_def nd_put_def load_spec_def Let_def reset_root_def dir_node_def
          fs_init_eq image_version_def)
  qed
qed

lemma reset_root_mem:
  assumes "fs_mem t" "dir_node t 0"
  shows "fs_mem (reset_root t)" and "dir_node (reset_root t) 0" and "root_ok (reset_root t)"
proof -
  have t: "length t = FS_MAX_NODES" "node_ok (t ! 0)" using assms(1) by (auto simp: fs_mem_def)
  have "drop 2 (nd_name (t ! 0)) ! 29 = NUL"
    using t(2) by (simp add: node_ok_def)
  then show "fs_mem (reset_root t)"
    unfolding reset_root_def by (intro fs_mem_update assms) (use t in \<open>simp add: node_ok_def\<close>)
  show "dir_node (reset_root t) 0" "root_ok (reset_root t)"
    using t by (simp_all add: dir_node_def reset_root_def root_ok_def cstr_def)
qed

lemma load_spec_cases:
  assumes "len \<le> length inb" "load_spec ns inb len = (r, ns')"
  shows "r = 0 \<and> fs_mem ns' \<and> root_ok ns' \<or> r = -1 \<and> (ns' = ns \<or> ns' = init_table)"
proof -
  have "fs_mem (loaded (image_version inb) inb)" if "image_ok inb len"
    by (rule loaded_mem) (use that assms(1) in \<open>simp add: image_ok_def\<close>)
  then show ?thesis
    using assms(2) reset_root_mem by (auto simp: load_spec_def Let_def split: if_splits)
qed

subsection \<open>Loading a written image\<close>

text \<open>The range of the C type of \<open>parent\<close>, which every cell of the table has.\<close>

definition int_parents :: "fs \<Rightarrow> bool" where
  "int_parents ns \<longleftrightarrow> (\<forall>n \<in> set ns. - (2 ^ 31) \<le> nd_parent n \<and> nd_parent n < 2 ^ 31)"

lemma sint_word_of_int:
  "- (2 ^ 31) \<le> i \<Longrightarrow> i < 2 ^ 31 \<Longrightarrow> sint (word_of_int i :: u32) = i"
  by (simp add: sint_sbintrunc' signed_take_bit_int_eq_self)

lemma unat_word_of_nat:
  "m < 2 ^ 32 \<Longrightarrow> unat (word_of_nat m :: u32) = m"
  by (simp add: unat_of_nat take_bit_nat_eq_self)

lemma load_disk_of:
  assumes "node_ok n" "- (2 ^ 31) \<le> nd_parent n" "nd_parent n < 2 ^ 31"
  shows "load_node (disk_of n) = n"
proof -
  have "clamp_size (word_of_nat (nd_size n)) = nd_size n"
    using assms(1) by (simp add: clamp_size_def unat_word_of_nat node_ok_def)
  moreover have "(nd_name n)[FS_MAX_NAME := NUL] = nd_name n"
    "(nd_data n)[nd_size n := NUL] = nd_data n"
    using assms(1) by (metis list_update_id node_ok_def)+
  moreover have "nd_mode n AND MODE_MASK = nd_mode n" using assms(1) by (simp add: node_ok_def)
  ultimately show ?thesis
    using sint_word_of_int [OF assms(2,3)] by (cases n) (simp add: load_node_def disk_of_def)
qed

lemma image_slice:
  assumes "fs_mem ns" "k < FS_MAX_NODES"
  shows "take DISK_NODE_SIZE (drop (HEADER_SIZE + DISK_NODE_SIZE * k) (image ns @ rest)) =
    enc_disk_node (disk_of (ns ! k))"
proof -
  have "\<forall>x \<in> set (map disk_of ns). disk_node_sized x" "k < length (map disk_of ns)"
    using assms by (auto simp: fs_mem_def node_ok_sized)
  then have "slice (enc_header (image_header 2) @ concat (map enc_disk_node (map disk_of ns)) @ rest)
      (length (enc_header (image_header 2)) + DISK_NODE_SIZE * k) DISK_NODE_SIZE =
    Some (enc_disk_node (map disk_of ns ! k))"
    by (rule v2.slice_concat)
  then show ?thesis
    using assms hdr.enc_length [OF header_ok, of 2]
    by (simp add: slice_def image_def fs_mem_def split: if_splits)
qed

lemma image_take_header:
  "take HEADER_SIZE (image ns @ rest) = enc_header (image_header 2)"
  using hdr.enc_length [OF header_ok, of 2] by (simp add: image_def)

lemma loaded_image:
  assumes "fs_mem ns" "int_parents ns"
  shows "loaded 2 (image ns @ rest) = ns"
proof (rule nth_equalityI)
  show l: "length (loaded 2 (image ns @ rest)) = length ns"
    using assms(1) by (simp add: loaded_def fs_mem_def)
  fix k assume "k < length (loaded 2 (image ns @ rest))"
  then have k: "k < FS_MAX_NODES" by (simp add: loaded_def)
  have n: "node_ok (ns ! k)" "- (2 ^ 31) \<le> nd_parent (ns ! k)" "nd_parent (ns ! k) < 2 ^ 31"
    using assms k by (auto simp: fs_mem_def int_parents_def)
  have "stored_node 2 (image ns @ rest) k = load_node (disk_of (ns ! k))"
    using image_slice [OF assms(1) k] v2.dec_enc [OF node_ok_sized [OF n(1)]]
    by (simp add: stored_node_def node_width_def)
  with load_disk_of [OF n] k show "loaded 2 (image ns @ rest) ! k = ns ! k"
    by (simp add: loaded_def)
qed

lemma image_accepted:
  assumes "fs_mem ns" "IMAGE_SIZE \<le> len"
  shows "image_ok (image ns @ rest) len" and "image_version (image ns @ rest) = 2"
proof -
  have h: "dec_header (take HEADER_SIZE (image ns @ rest)) = image_header 2"
    by (simp only: image_take_header hdr.dec_enc [OF header_ok])
  then show "image_version (image ns @ rest) = 2"
    by (simp only: image_version_def image_header_def) simp
  with h assms(2) show "image_ok (image ns @ rest) len"
    by (simp add: image_ok_def node_width_def) (simp add: image_header_def magic_def)
qed

definition root_attr_reset :: "fs \<Rightarrow> fs" where
  "root_attr_reset ns = ns[0 := (ns ! 0)\<lparr>nd_owner := 0, nd_mode := FS_DEFAULT_DIR_MODE\<rparr>]"

lemma reset_root_wf:
  assumes "fs_wf ns"
  shows "reset_root ns = root_attr_reset ns"
proof -
  have n: "NUL \<in> set (nd_name (ns ! 0))"
    using assms fs_wf_root [OF assms] fs_memD
    by (metis fs_wf_length fs_wf_mem fs_mem_def node_ok_NUL nth_mem zero_less_numeral)
  then obtain t where "nd_name (ns ! 0) = node_name ns 0 @ NUL # t" using cstr_split by blast
  then have "CHR ''/'' # NUL # drop 2 (nd_name (ns ! 0)) = nd_name (ns ! 0)"
    by (simp add: fs_wf_root_name [OF assms])
  moreover have "nd_used (ns ! 0)" "nd_is_dir (ns ! 0)" "nd_parent (ns ! 0) = 0"
    using fs_wf_root [OF assms] fs_wf_root_parent [OF assms] by (simp_all add: dir_node_def)
  ultimately show ?thesis by (cases "ns ! 0") (simp add: reset_root_def root_attr_reset_def)
qed

lemma load_image:
  assumes "fs_wf ns" "int_parents ns" "IMAGE_SIZE \<le> len"
  shows "load_spec ns0 (image ns @ rest) len = (0, root_attr_reset ns)"
  using assms image_accepted [of ns len rest] loaded_image [of ns rest] fs_wf_root [OF assms(1)]
    reset_root_wf [OF assms(1)]
  by (simp add: load_spec_def)

end
