(* ===== verification/FsSafe.thy ===== *)
theory FsSafe
  imports FsService
begin

text \<open>
  The file system on tables that need not be trees: after a load of untrusted bytes, or after the
  working directory of a client has been removed. \<^theory_text>\<open>node_set\<close> is the interface of
  path resolution to such a table: a set of nodes that contains the root and is closed under parents and
  children. The nodes connected to the root are one such set; the largest one, \<^theory_text>\<open>in_table\<close>,
  holds the nodes from which following parents never leaves the table, and every call of the file
  system keeps it.
\<close>

subsection \<open>Resolution inside a set of nodes\<close>

locale node_set =
  fixes ns :: fs and P :: "nat \<Rightarrow> bool"
  assumes root_in: "P 0"
    and parent_in: "P i \<Longrightarrow> i \<noteq> 0 \<Longrightarrow> i < FS_MAX_NODES \<and> (\<exists>p. nd_parent (ns ! i) = int p \<and> P p)"
    and child_in: "P c \<Longrightarrow> used_node ns i \<Longrightarrow> nd_parent (ns ! i) = int c \<Longrightarrow> P i"
begin

lemma resolve_token_in:
  assumes "fs_mem ns" "P c" "nul_free tok"
  shows "resolve_token ns (int c) tok = Some (Inl (-1)) \<or>
    (\<exists>d. resolve_token ns (int c) tok = Some (Inr (int d)) \<and> P d)"
proof -
  have f: "find_child ns (int c) (c_str tok) = Some (node_code (lookup ns c tok))"
    using find_child_eq [OF assms(1), of "c_str tok" c] assms(3) by (simp add: c_str_def)
  have child: "P i" if "lookup ns c tok = Some i" for i
    using lookup_SomeD [OF that] child_in [OF assms(2)] by blast
  consider "c = 0" | p where "c \<noteq> 0" "c < FS_MAX_NODES" "nd_parent (ns ! c) = int p" "P p"
    using parent_in [OF assms(2)] by blast
  then show ?thesis
  proof cases
    case 1
    with f assms child show ?thesis by (cases "lookup ns c tok") (auto simp: resolve_token_def)
  next
    case 2
    then have "nd_at ns (int c) = Some (ns ! c)" using assms(1) by (simp add: nd_at_def fs_mem_length)
    with f 2 assms child show ?thesis by (cases "lookup ns c tok") (auto simp: resolve_token_def)
  qed
qed

lemma resolve_loop_in:
  assumes "fs_mem ns"
  shows "P c \<Longrightarrow> nul_free path \<Longrightarrow> nul_free tok \<Longrightarrow>
    \<exists>r. resolve_loop ns path (int c) tok = Some (node_code r) \<and> (\<forall>d. r = Some d \<longrightarrow> P d)"
proof (induction path arbitrary: c tok)
  case Nil
  then show ?case
    using resolve_token_in [OF assms Nil(1,3)] by (auto intro: exI [of _ None] exI [of _ "Some d" for d])
next
  case (Cons ch path)
  then show ?case
    using resolve_token_in [OF assms Cons.prems(1,3)] by (auto intro: exI [of _ None])
qed

lemma fs_resolve_in:
  assumes "fs_mem ns" "P c" "nul_free p"
  shows "\<exists>r. fs_resolve ns (int c) (Some p) = Some (node_code r) \<and> (\<forall>d. r = Some d \<longrightarrow> P d)"
proof (cases "p = []")
  case True
  with assms(2) show ?thesis by (auto simp: fs_resolve_def intro: exI [of _ "Some c"])
next
  case False
  then show ?thesis
    using resolve_loop_in [OF assms(1,2,3), of "[]"] resolve_loop_in [OF assms(1) root_in assms(3), of "[]"]
    by (auto simp: fs_resolve_def)
qed

lemma less_in: "P c \<Longrightarrow> c < FS_MAX_NODES"
  using parent_in [of c] by (cases "c = 0") auto

end

lemma anchored_cases:
  assumes "anchored ns c" "c \<noteq> 0"
  shows "c < FS_MAX_NODES \<and> (\<exists>p. nd_parent (ns ! c) = int p \<and> anchored ns p)"
  using assms by (cases rule: anchored.cases) (auto intro!: exI [of _ "nat (nd_parent (ns ! c))"])

interpretation anch: node_set ns "anchored ns" for ns
  by unfold_locales (use anchored_cases in \<open>auto simp: used_node_def intro: anchored.root anchored.step\<close>)

text \<open>The largest such set.\<close>

coinductive in_table :: "fs \<Rightarrow> nat \<Rightarrow> bool" for ns where
  at_root: "in_table ns 0"
| at_node: "i < FS_MAX_NODES \<Longrightarrow> nd_parent (ns ! i) = int p \<Longrightarrow> in_table ns p \<Longrightarrow> in_table ns i"

interpretation intab: node_set ns "in_table ns" for ns
proof
  show "in_table ns 0" by (rule at_root)
  show "i < FS_MAX_NODES \<and> (\<exists>p. nd_parent (ns ! i) = int p \<and> in_table ns p)" if "in_table ns i" "i \<noteq> 0" for i
    using that by (cases rule: in_table.cases) auto
  show "in_table ns i" if "in_table ns c" "used_node ns i" "nd_parent (ns ! i) = int c" for c i
    using that by (auto simp: used_node_def intro: at_node)
qed

lemma anchored_in_table: "anchored ns i \<Longrightarrow> in_table ns i"
proof (induction rule: anchored.induct)
  case (step i)
  then show ?case by (intro at_node [of i ns "nat (nd_parent (ns ! i))"]) simp_all
qed (rule at_root)

lemma in_table_put:
  assumes "length ns = FS_MAX_NODES" "in_table ns q" "nd_parent n = int q" "in_table ns j \<or> j = i" "i < FS_MAX_NODES"
  shows "in_table (ns[i := n]) j"
  using assms(4)
proof (coinduction arbitrary: j)
  case in_table
  consider "j = i" | "j \<noteq> i" "j = 0" | p where "j \<noteq> i" "j < FS_MAX_NODES" "nd_parent (ns ! j) = int p" "in_table ns p"
    using in_table by (metis in_table.cases)
  then show ?case using assms(1-3,5) by cases auto
qed

lemma in_table_same:
  assumes "length ns = FS_MAX_NODES" "nd_parent n = nd_parent (ns ! i)" "in_table ns j"
  shows "in_table (ns[i := n]) j"
  using assms(3)
proof (coinduction arbitrary: j)
  case in_table
  consider "j = 0" | p where "j < FS_MAX_NODES" "nd_parent (ns ! j) = int p" "in_table ns p"
    using in_table by (metis in_table.cases)
  then show ?case
  proof cases
    case 2
    then have "nd_parent (ns[i := n] ! j) = int p" using assms(1,2) by (cases "j = i") simp_all
    with 2 show ?thesis by auto
  qed simp
qed

subsection \<open>The calls\<close>

text \<open>What every call keeps: the shape of the nodes, the nodes that are safe to start from, and that the root is its own parent.\<close>

definition own_parent :: "fs \<Rightarrow> bool" where
  "own_parent ns \<longleftrightarrow> nd_parent (ns ! 0) = 0"

lemma own_parent_init [simp]: "own_parent init_table"
  by (simp add: own_parent_def init_table_def root_node_def)

definition fs_keeps :: "fs \<Rightarrow> fs \<Rightarrow> bool" where
  "fs_keeps ns ns' \<longleftrightarrow> fs_mem ns' \<and> (\<forall>j. in_table ns j \<longrightarrow> in_table ns' j)
     \<and> (own_parent ns \<longrightarrow> own_parent ns')"

lemma fs_keeps_refl: "fs_mem ns \<Longrightarrow> fs_keeps ns ns"
  by (simp add: fs_keeps_def)

lemma fs_keeps_trans: "fs_keeps ns ns1 \<Longrightarrow> fs_keeps ns1 ns2 \<Longrightarrow> fs_keeps ns ns2"
  by (simp add: fs_keeps_def)

lemma fs_keeps_same:
  assumes "fs_mem ns" "node_ok n" "nd_parent n = nd_parent (ns ! i)"
  shows "fs_keeps ns (ns[i := n])"
  using assms fs_mem_length [OF assms(1)] by (cases "i = 0") (auto simp: fs_keeps_def own_parent_def intro: in_table_same)

lemma fs_checks_total:
  assumes "fs_mem ns"
  shows "\<exists>b. fs_is_dir ns k = Some b" "\<exists>b. fs_check_access ns k uid acc = Some b"
    "\<exists>v. fs_get_owner ns k = Some v"
    "\<exists>r. fs_get_name ns k = Some r \<and> (\<forall>b. r = Some b \<longrightarrow> NUL \<in> set b)"
proof -
  have n: "\<exists>n. nd_at ns k = Some n \<and> node_ok n" if "0 \<le> k" "used_node ns (nat k)"
    using that fs_mem_node [OF assms] fs_mem_length [OF assms] by (auto simp: nd_at_def used_node_def)
  show "\<exists>b. fs_is_dir ns k = Some b" "\<exists>b. fs_check_access ns k uid acc = Some b" "\<exists>v. fs_get_owner ns k = Some v"
    "\<exists>r. fs_get_name ns k = Some r \<and> (\<forall>b. r = Some b \<longrightarrow> NUL \<in> set b)"
    using n node_ok_NUL fs_live_total [OF fs_mem_length [OF assms], of k]
    by (auto simp: fs_is_dir_def fs_check_access_def fs_get_owner_def fs_get_name_def Let_def)
qed

lemma fs_dir_live:
  assumes "fs_mem ns" "fs_is_dir ns k = Some True"
  shows "0 \<le> k \<and> dir_node ns (nat k)"
  using assms(2) fs_live_total [OF fs_mem_length [OF assms(1)], of k] fs_mem_length [OF assms(1)]
  by (auto simp: fs_is_dir_def dir_node_def used_node_def nd_at_def split: if_splits)

lemma nul_free_take: "nul_free p \<Longrightarrow> nul_free (take n p)"
  by (auto simp: nul_free_def dest: in_set_takeD)

lemma nul_free_drop: "nul_free p \<Longrightarrow> nul_free (drop n p)"
  by (auto simp: nul_free_def dest: in_set_dropD)

lemma prefix_copy:
  assumes "nul_free p" "n \<le> length p" "n < 128"
  shows "\<exists>b b'. kmemcpy (replicate 128 NUL) (c_str p) n = Some b \<and> wr b n NUL = Some b' \<and> cstr b' = take n p"
proof -
  have "take n p @ replicate (128 - n) NUL = take n p @ NUL # replicate (127 - n) NUL"
    using assms(3) by (simp flip: replicate_Suc)
  then show ?thesis
    using assms nul_free_take [OF assms(1), of n]
    by (simp add: loop_simps c_str_def wr_def list_update_append del: replicate_Suc)
qed

lemma resolve_dir_prefix_in:
  assumes "fs_mem ns" "in_table ns c" "nul_free p" "slash \<le> length p"
  shows "\<exists>r. resolve_dir_prefix ns (int c) p slash = Some (node_code r) \<and> (\<forall>d. r = Some d \<longrightarrow> in_table ns d)"
proof (cases "slash = 0 \<or> slash \<ge> 128")
  case True
  then show ?thesis
    by (auto simp: resolve_dir_prefix_def at_root intro: exI [of _ "Some 0"] exI [of _ None])
next
  case False
  then obtain b b' where "kmemcpy (replicate 128 NUL) (c_str p) slash = Some b" "wr b slash NUL = Some b'" "cstr b' = take slash p"
    using prefix_copy [OF assms(3,4)] by auto
  then show ?thesis
    using False intab.fs_resolve_in [OF assms(1,2) nul_free_take [OF assms(3)], of slash]
    by (simp add: resolve_dir_prefix_def)
qed

lemma last_slash_less:
  assumes "last_slash p 0 None = Some n"
  shows "n < length p"
proof -
  have p: "CHR ''/'' \<in> set p" "n = length (dirpart p)" using assms by (auto simp: last_slash_eq split: if_splits)
  have "length (dirpart p) < length p" by (subst (2) path_parts [OF p(1)]) simp
  with p(2) show ?thesis by simp
qed

lemma parent_and_leaf_in:
  assumes "fs_mem ns" "in_table ns c" "nul_free p"
  obtains (none) "resolve_parent_and_leaf ns (int c) (Some p) = Some None"
  | (some) q s where "resolve_parent_and_leaf ns (int c) (Some p) = Some (Some (int q, leaf_array s))"
      "in_table ns q" "valid_name s" "nul_free s"
proof -
  have nd: "nd_at ns (int d) = Some (ns ! d)" if "in_table ns d" for d
    using intab.less_in [OF that] fs_mem_length [OF assms(1)] by (simp add: nd_at_def)
  consider "p = []" | "p \<noteq> []" "last_slash p 0 None = None" | slash where "p \<noteq> []" "last_slash p 0 None = Some slash" by blast
  then show thesis
  proof cases
    case 1
    then show ?thesis by (intro none) (simp add: resolve_parent_and_leaf_def)
  next
    case 2
    then show ?thesis
      using assms leaf_copy [of p] none some [of c p]
      by (cases "valid_name p") (simp_all add: resolve_parent_and_leaf_def)
  next
    case 3
    obtain r where r: "resolve_dir_prefix ns (int c) p slash = Some (node_code r)" "\<forall>d. r = Some d \<longrightarrow> in_table ns d"
      using resolve_dir_prefix_in [OF assms less_imp_le [OF last_slash_less [OF 3(2)]]] by blast
    let ?leaf = "drop (Suc slash) p"
    have leaf: "nul_free ?leaf" by (rule nul_free_drop [OF assms(3)])
    show ?thesis
    proof (cases r)
      case None
      with 3 r assms(3) show ?thesis by (intro none) (simp add: resolve_parent_and_leaf_def)
    next
      case (Some d)
      with r nd have d: "in_table ns d" "nd_at ns (int d) = Some (ns ! d)" by simp_all
      show ?thesis
      proof (cases "slash = length p - 1 \<or> \<not> nd_is_dir (ns ! d) \<or> \<not> valid_name ?leaf")
        case True
        with 3 r Some d assms(3) show ?thesis by (intro none) (auto simp: resolve_parent_and_leaf_def)
      next
        case False
        with 3 r Some d assms(3) leaf_copy [OF _ leaf] leaf show ?thesis
          by (intro some [of d ?leaf]) (simp_all add: resolve_parent_and_leaf_def)
      qed
    qed
  qed
qed

lemma fs_keeps_new:
  assumes "fs_mem ns" "in_table ns q" "i < FS_MAX_NODES" "i \<noteq> 0" "node_ok n" "nd_parent n = int q"
  shows "fs_keeps ns (ns[i := n])"
  using assms fs_mem_length [OF assms(1)] by (auto simp: fs_keeps_def own_parent_def intro: in_table_put)

lemma fs_create_in:
  assumes "fs_mem ns" "in_table ns c" "nul_free p"
  shows "\<exists>r ns'. fs_mkdir_as ns (int c) (Some p) owner mode = Some (r, ns') \<and> fs_keeps ns ns'"
    and "\<exists>r ns'. fs_touch_as ns (int c) (Some p) owner mode = Some (r, ns') \<and> fs_keeps ns ns'"
proof -
  let ?both = "(\<exists>r ns'. fs_mkdir_as ns (int c) (Some p) owner mode = Some (r, ns') \<and> fs_keeps ns ns')
    \<and> (\<exists>r ns'. fs_touch_as ns (int c) (Some p) owner mode = Some (r, ns') \<and> fs_keeps ns ns')"
  note keep = fs_keeps_refl [OF assms(1)]
  note len = fs_mem_length [OF assms(1)]
  have ?both
  proof (cases rule: parent_and_leaf_in [OF assms, case_names none some])
    case none
    with keep show ?thesis by (simp add: fs_mkdir_as_def fs_touch_as_def)
  next
    case (some q s)
    have find: "find_child ns (int q) (leaf_array s) = Some (node_code (lookup ns q s))"
      using some assms(1) by (simp add: find_child_eq)
    show ?thesis
    proof (cases "lookup ns q s")
      case (Some e)
      then have "e < length ns" using lookup_SomeD(1) [OF Some] len by (simp add: used_node_def)
      with Some some find keep show ?thesis by (auto simp: fs_mkdir_as_def fs_touch_as_def)
    next
      case None
      show ?thesis
      proof (cases "free_slot ns")
        case None
        with \<open>lookup ns q s = None\<close> some find keep assms(1) show ?thesis
          by (simp add: fs_mkdir_as_def fs_touch_as_def alloc_node_eq)
      next
        case (Some i)
        note i = free_slot_SomeD [OF Some]
        have n: "node_ok (ns ! i)" using fs_mem_node [OF assms(1) i(1)] .
        have "fs_keeps ns (ns[i := new_node d (ns ! i) q s owner mode])" for d
          using fs_keeps_new [OF assms(1) some(2) i(1,2)] new_node_ok [OF n some(3)] by simp
        moreover have "wr (nd_data (fresh_node (ns ! i))) 0 NUL = Some ((nd_data (ns ! i))[0 := NUL])"
          using n by (simp add: fresh_node_def node_ok_def wr_def)
        ultimately show ?thesis
          using \<open>lookup ns q s = None\<close> some find Some i n len assms(1) kstrcpy_leaf [OF n some(3,4)]
          by (simp add: fs_mkdir_as_def fs_touch_as_def alloc_node_eq new_node_install)
      qed
    qed
  qed
  then show "\<exists>r ns'. fs_mkdir_as ns (int c) (Some p) owner mode = Some (r, ns') \<and> fs_keeps ns ns'"
    and "\<exists>r ns'. fs_touch_as ns (int c) (Some p) owner mode = Some (r, ns') \<and> fs_keeps ns ns'" by blast+
qed

lemma fs_write_file_in:
  assumes "fs_mem ns" "in_table ns c" "nul_free p" "buffer_ok data sz"
  shows "\<exists>r ns'. fs_write_file ns (int c) (Some p) data sz = Some (r, ns') \<and> fs_keeps ns ns'"
proof -
  let ?put = "\<lambda>ns (i :: nat). (do {
       n \<leftarrow> nd_at ns (int i);
       if nd_is_dir n then Some (-1, ns)
       else do {
         let sz' = (if sz \<ge> FS_MAX_FILE_SIZE then FS_MAX_FILE_SIZE - 1 else sz);
         dt \<leftarrow> (case data of None \<Rightarrow> Some (nd_data n)
               | Some d \<Rightarrow> if sz' > 0 then kmemcpy (nd_data n) d sz' else Some (nd_data n));
         dt' \<leftarrow> wr dt sz' NUL;
         ns2 \<leftarrow> nd_put ns (int i) (n\<lparr>nd_data := dt', nd_size := sz'\<rparr>);
         Some (0 :: int, ns2) } })"
  have put: "\<exists>r ns'. ?put t i = Some (r, ns') \<and> fs_keeps t ns'" if t: "fs_mem t" "in_table t i" for t i
  proof -
    have i: "i < FS_MAX_NODES" using intab.less_in [OF t(2)] .
    have "\<exists>r ns'. ?put t i = Some (r, ns') \<and> (ns' = t \<or> ns' = t[i := write_node (t ! i) data sz])"
      using fs_mem_node [OF t(1) i] i fs_mem_length [OF t(1)] assms(4)
      by (auto simp: write_node_def buffer_ok_def node_ok_def kmemcpy_eq Let_def split: option.splits)
    moreover have "fs_keeps t (t[i := write_node (t ! i) data sz])"
      using fs_keeps_same [OF t(1) write_node_ok [OF fs_mem_node [OF t(1) i] assms(4)], of i] by simp
    ultimately show ?thesis using fs_keeps_refl [OF t(1)] by blast
  qed
  obtain r where r: "fs_resolve ns (int c) (Some p) = Some (node_code r)" "\<forall>d. r = Some d \<longrightarrow> in_table ns d"
    using intab.fs_resolve_in [OF assms(1-3)] by blast
  show ?thesis
  proof (cases r)
    case (Some i)
    with r put [OF assms(1), of i] show ?thesis by (simp add: fs_write_file_def)
  next
    case None
    obtain t ns1 where 1: "fs_touch ns (int c) (Some p) = Some (t, ns1)" "fs_keeps ns ns1"
      using fs_create_in(2) [OF assms(1-3)] unfolding fs_touch_def by blast
    then have ns1: "fs_mem ns1" "in_table ns1 c" using assms(2) by (simp_all add: fs_keeps_def)
    obtain r1 where 2: "fs_resolve ns1 (int c) (Some p) = Some (node_code r1)" "\<forall>d. r1 = Some d \<longrightarrow> in_table ns1 d"
      using intab.fs_resolve_in [OF ns1 assms(3)] by blast
    show ?thesis
    proof (cases "t = 0 \<and> r1 \<noteq> None")
      case False
      with None r 1 2 show ?thesis by (auto simp: fs_write_file_def)
    next
      case True
      then obtain i where i: "t = 0" "r1 = Some i" by blast
      obtain r' ns' where 3: "?put ns1 i = Some (r', ns')" "fs_keeps ns1 ns'"
        using put [OF ns1(1), of i] 2(2) i(2) by blast
      have "fs_write_file ns (int c) (Some p) data sz = ?put ns1 i"
        using None r 1(1) 2(1) i by (simp add: fs_write_file_def)
      with 3 fs_keeps_trans [OF 1(2)] show ?thesis by auto
    qed
  qed
qed

lemma fs_remove_in:
  assumes "fs_mem ns" "in_table ns c" "nul_free p"
  shows "\<exists>r ns'. fs_remove ns (int c) (Some p) = Some (r, ns') \<and> fs_keeps ns ns'"
proof -
  obtain r where r: "fs_resolve ns (int c) (Some p) = Some (node_code r)" "\<forall>d. r = Some d \<longrightarrow> in_table ns d"
    using intab.fs_resolve_in [OF assms(1-3)] by blast
  show ?thesis
  proof (cases r)
    case None
    with r fs_keeps_refl [OF assms(1)] show ?thesis by (simp add: fs_remove_def)
  next
    case (Some i)
    have i: "i < FS_MAX_NODES" using r(2) Some intab.less_in by blast
    have "node_ok ((ns ! i)\<lparr>nd_used := False\<rparr>)"
      using fs_mem_node [OF assms(1) i] by (simp add: node_ok_def)
    then have "fs_keeps ns (ns[i := (ns ! i)\<lparr>nd_used := False\<rparr>])" by (rule fs_keeps_same [OF assms(1)]) simp
    moreover have "set [0..<FS_MAX_NODES] \<subseteq> {..<FS_MAX_NODES}" by auto
    then have "\<exists>b. has_child_loop [0..<FS_MAX_NODES] ns (int i) = Some b"
      using has_child_loop_eq [OF fs_mem_length [OF assms(1)]] by blast
    ultimately show ?thesis
      using Some r i fs_keeps_refl [OF assms(1)] fs_mem_length [OF assms(1)] by (auto simp: fs_remove_def)
  qed
qed

lemma fs_attr_in:
  assumes "fs_mem ns"
  shows "\<exists>r ns'. fs_set_owner ns k owner = Some (r, ns') \<and> fs_keeps ns ns'"
    and "\<exists>r ns'. fs_set_mode ns k mode = Some (r, ns') \<and> fs_keeps ns ns'"
proof -
  note len = fs_mem_length [OF assms]
  have n: "node_ok (ns ! i)" if "used_node ns i" for i
    using that fs_mem_node [OF assms] by (simp add: used_node_def)
  have "fs_keeps ns (ns[i := (ns ! i)\<lparr>nd_owner := owner\<rparr>])" "fs_keeps ns (ns[i := (ns ! i)\<lparr>nd_mode := mode AND MODE_MASK\<rparr>])"
    if "used_node ns i" for i
    using n [OF that] by (auto intro!: fs_keeps_same [OF assms] simp: node_ok_def)
  then show "\<exists>r ns'. fs_set_owner ns k owner = Some (r, ns') \<and> fs_keeps ns ns'"
    and "\<exists>r ns'. fs_set_mode ns k mode = Some (r, ns') \<and> fs_keeps ns ns'"
    using fs_keeps_refl [OF assms] fs_live_total [OF len, of k] len
    by (auto simp: fs_set_owner_def fs_set_mode_def nd_at_def nd_put_def used_node_def)
qed

lemma fs_read_file_in:
  assumes "fs_mem ns" "in_table ns c" "nul_free p"
  shows "\<exists>r. fs_read_file ns (int c) (Some p) = Some r
    \<and> (\<forall>data sz. r = Some (data, sz) \<longrightarrow> NUL \<in> set data \<and> length data = FS_MAX_FILE_SIZE \<and> sz < FS_MAX_FILE_SIZE)"
proof -
  obtain r where r: "fs_resolve ns (int c) (Some p) = Some (node_code r)" "\<forall>d. r = Some d \<longrightarrow> in_table ns d"
    using intab.fs_resolve_in [OF assms(1-3)] by blast
  show ?thesis
  proof (cases r)
    case None
    with r show ?thesis by (simp add: fs_read_file_def)
  next
    case (Some i)
    have i: "i < FS_MAX_NODES" using r(2) Some intab.less_in by blast
    have n: "node_ok (ns ! i)" by (rule fs_mem_node [OF assms(1) i])
    then have "NUL \<in> set (nd_data (ns ! i))" unfolding node_ok_def by (metis nth_mem)
    with Some r i n fs_mem_length [OF assms(1)] show ?thesis by (auto simp: fs_read_file_def node_ok_def)
  qed
qed

lemma fs_list_loop_in:
  assumes "length ns = FS_MAX_NODES"
  shows "set is \<subseteq> {..<FS_MAX_NODES} \<Longrightarrow> count + length is \<le> length out \<Longrightarrow>
    \<exists>n out'. fs_list_loop is ns dir out (length out) count = Some (n, out') \<and> length out' = length out \<and> n \<le> count + length is"
proof (induction "is" arbitrary: out count)
  case Nil
  then show ?case by simp
next
  case (Cons i "is")
  then have i: "rd ns i = Some (ns ! i)" and c: "count < length out" using assms by simp_all
  from Cons.IH [of "Suc count" "out[count := int i]"] Cons.IH [of count out] Cons.prems i c show ?case
    by (auto simp: le_Suc_eq)
qed

lemma fs_list_in:
  assumes "fs_mem ns"
  shows "\<exists>n out. fs_list ns k (replicate FS_MAX_NODES 0) FS_MAX_NODES = Some (n, out) \<and> length out = FS_MAX_NODES \<and> n \<le> 128"
proof (cases "0 \<le> k \<and> used_node ns (nat k)")
  case True
  have "\<exists>n out'. fs_list_loop [0..<FS_MAX_NODES] ns k (replicate FS_MAX_NODES 0) (length (replicate FS_MAX_NODES (0 :: int))) 0
      = Some (n, out') \<and> length out' = length (replicate FS_MAX_NODES (0 :: int)) \<and> n \<le> 0 + length [0..<FS_MAX_NODES]"
    by (rule fs_list_loop_in [OF fs_mem_length [OF assms]]) auto
  then obtain n out where "fs_list_loop [0..<FS_MAX_NODES] ns k (replicate FS_MAX_NODES 0) FS_MAX_NODES 0 = Some (n, out)"
    "length out = FS_MAX_NODES" "n \<le> 128" by (auto simp del: upt_rec_numeral)
  with True fs_mem_length [OF assms] fs_live_total [OF fs_mem_length [OF assms], of k] show ?thesis
    by (auto simp: fs_list_def nd_at_def used_node_def simp del: upt_rec_numeral)
next
  case False
  with fs_live_total [OF fs_mem_length [OF assms], of k] show ?thesis by (simp add: fs_list_def)
qed

lemma path_stack_in:
  assumes "fs_mem ns"
  shows "in_table ns i \<Longrightarrow> \<forall>k \<in> set stack. \<exists>j < FS_MAX_NODES. k = int j \<Longrightarrow>
    \<exists>st. path_stack ns (int i) stack = Some st \<and> (\<forall>k \<in> set st. \<exists>j < FS_MAX_NODES. k = int j)"
proof (induction "FS_MAX_NODES - length stack" arbitrary: i stack)
  case 0
  then show ?case by (subst path_stack.simps) simp
next
  case (Suc n)
  show ?case
  proof (cases "i = 0")
    case True
    with Suc.prems show ?thesis by (subst path_stack.simps) simp
  next
    case False
    obtain p where p: "i < FS_MAX_NODES" "nd_parent (ns ! i) = int p" "in_table ns p"
      using intab.parent_in [OF Suc.prems(1) False] by blast
    have "\<exists>st. path_stack ns (int p) (stack @ [int i]) = Some st \<and> (\<forall>k \<in> set st. \<exists>j < FS_MAX_NODES. k = int j)"
      using Suc.hyps Suc.prems(2) p by (intro Suc.hyps(1)) auto
    moreover have "length stack < FS_MAX_NODES" using Suc.hyps(2) by linarith
    ultimately show ?thesis using False p fs_mem_length [OF assms] by (subst path_stack.simps) simp
  qed
qed

lemma path_emit_in:
  assumes "fs_mem ns"
  shows "\<forall>k \<in> set st. \<exists>j < FS_MAX_NODES. k = int j \<Longrightarrow> out_size \<le> length out \<Longrightarrow> pos < out_size \<Longrightarrow>
    \<exists>r pos' out'. path_emit ns st out pos out_size = Some (r, pos', out') \<and> length out' = length out \<and> pos' < out_size"
proof (induction st arbitrary: out pos)
  case Nil
  then show ?case by simp
next
  case (Cons k st)
  then obtain j where j: "k = int j" "j < FS_MAX_NODES" by auto
  have nul: "NUL \<in> set (nd_name (ns ! j))" using node_ok_NUL fs_mem_node [OF assms j(2)] by blast
  let ?l = "length (node_name ns j)"
  have le: "?l \<le> length (nd_name (ns ! j))" by (rule length_cstr_le)
  show ?case
  proof (cases "pos + ?l + 1 \<ge> out_size")
    case True
    with Cons.prems j nul fs_mem_length [OF assms] show ?thesis by (simp add: kstrlen_eq)
  next
    case False
    let ?o = "take pos out @ take ?l (nd_name (ns ! j)) @ drop (pos + ?l) out"
    have o: "length ?o = length out" using False Cons.prems(2) le by simp
    have cp: "kmemcpy_at out pos (nd_name (ns ! j)) ?l = Some ?o" using False Cons.prems(2) le by (simp add: kmemcpy_at_eq)
    have ih: "\<exists>r pos' out'. path_emit ns st t q out_size = Some (r, pos', out') \<and> length out' = length out \<and> pos' < out_size"
      if "length t = length out" "q < out_size" for t q
      using Cons.IH [of t q] Cons.prems that by simp
    have w: "wr ?o (pos + ?l) (CHR ''/'') = Some (?o[pos + ?l := CHR ''/''])"
      using False Cons.prems(2) o by (simp add: wr_def)
    from ih [of ?o "pos + ?l"] ih [of "?o[pos + ?l := CHR ''/'']" "pos + ?l + 1"] False o w cp nul j fs_mem_length [OF assms]
    show ?thesis by (auto simp: kstrlen_eq Let_def)
  qed
qed

lemma fs_make_path_in:
  assumes "fs_mem ns" "in_table ns c" "2 \<le> length out"
  shows "\<exists>r out'. fs_make_path ns (int c) (Some out) (length out) = Some (r, out') \<and> length out' = length out
    \<and> (r = 0 \<longrightarrow> NUL \<in> set out')"
proof -
  note len = fs_mem_length [OF assms(1)]
  have nul: "NUL \<in> set (t[n := NUL])" if "n < length t" for t :: "char list" and n
    using that set_update_memI by metis
  consider "\<not> used_node ns c" | "used_node ns c" "c = 0" | "used_node ns c" "c \<noteq> 0" by blast
  then show ?thesis
  proof cases
    case 1
    with fs_live_total [OF len, of "int c"] assms(3) show ?thesis by (auto simp: fs_make_path_def)
  next
    case 2
    with fs_live_total [OF len, of "int c"] assms(3) nul [of 1 "out[0 := CHR ''/'']"] show ?thesis
      by (auto simp: fs_make_path_def wr_def)
  next
    case 3
    obtain st where st: "path_stack ns (int c) [] = Some st" "\<forall>k \<in> set st. \<exists>j < FS_MAX_NODES. k = int j"
      using path_stack_in [OF assms(1,2), of "[]"] by auto
    let ?o = "out[0 := CHR ''/'']"
    obtain r pos o2 where e: "path_emit ns (rev st) ?o 1 (length out) = Some (r, pos, o2)" "length o2 = length out" "pos < length out"
      using path_emit_in [OF assms(1), of "rev st" "length out" ?o 1] st(2) assms(3) by auto
    with 3 st(1) fs_live_total [OF len, of "int c"] assms(3) nul [of pos o2] show ?thesis
      by (auto simp: fs_make_path_def wr_def)
  qed
qed

end
