(* ===== verification/FsLoad.thy ===== *)
theory FsLoad
  imports FsImageSpec FsSafe
begin

text \<open>
  What loading keeps and resets: the range of \<open>parent\<close> is an invariant of the file system's calls, so
  that the stored 32 bit value gives it back, and the attributes of the root, which a load resets, do not
  change what paths resolve to.
\<close>

subsection \<open>The range of the parent indices\<close>

lemma int_parents_update:
  assumes "int_parents ns" "- (2 ^ 31) \<le> nd_parent n" "nd_parent n < 2 ^ 31"
  shows "int_parents (ns[i := n])"
  using assms set_update_subset_insert [of ns i n] by (auto simp: int_parents_def)

lemma int_parents_same:
  assumes "int_parents ns" "i < length ns" "nd_parent n = nd_parent (ns ! i)"
  shows "int_parents (ns[i := n])"
  using assms by (intro int_parents_update) (auto simp: int_parents_def)

lemma int_parents_init: "int_parents init_table"
  by (auto simp: int_parents_def init_table_def root_node_def zero_node_def)

lemma create_spec_parents:
  assumes "fs_wf ns" "dir_node ns c" "nul_free p" "int_parents ns"
    "create_spec d ns c p owner mode = (r, ns')"
  shows "int_parents ns'"
proof -
  have "int_parents (ns[i := new_node d (ns ! i) q s owner mode])"
    if "parent_leaf ns c p = Some (q, s)" for i q s
  proof -
    have "q < FS_MAX_NODES"
      using parent_leafD [OF assms(1-3) that] by (auto simp: dir_node_def used_node_def)
    then show ?thesis using assms(4) by (intro int_parents_update) auto
  qed
  with assms(4,5) show ?thesis
    by (auto simp: create_spec_def split: option.splits prod.splits)
qed

lemma write_put_parents:
  assumes "fs_wf ns" "used_node ns i" "int_parents ns" "write_put ns i data sz = (r, ns')"
  shows "int_parents ns'"
proof -
  have "int_parents (ns[i := write_node (ns ! i) data sz])"
    using assms(1-3) by (intro int_parents_same) (auto simp: used_node_def write_node_def Let_def)
  with assms(3,4) show ?thesis by (auto simp: write_put_def split: if_splits)
qed

lemma write_spec_parents:
  assumes wf: "fs_wf ns" and c: "dir_node ns c" and p: "nul_free p" and ip: "int_parents ns"
    and w: "write_spec ns c p data sz = (r, ns')"
  shows "int_parents ns'"
proof (cases "resolve_spec ns c p")
  case (Some i)
  then have "used_node ns i" using resolve_spec_used [OF wf _ Some] c by blast
  with Some w show ?thesis using write_put_parents [OF wf _ ip] by (simp add: write_spec_def)
next
  case None
  obtain r1 ns1 where 1: "create_spec False ns c p 0 FS_DEFAULT_FILE_MODE = (r1, ns1)"
    by (cases "create_spec False ns c p 0 FS_DEFAULT_FILE_MODE")
  have ip1: "int_parents ns1" and wf1: "fs_wf ns1"
    using create_spec_parents [OF wf c p ip 1] create_spec_wf [OF wf c p 1] by simp_all
  have "used_node ns1 c" using shape_leD(1) [OF create_spec_shape [OF 1]] c by blast
  then have "used_node ns1 i" if "resolve_spec ns1 c p = Some i" for i
    using resolve_spec_used [OF wf1 _ that] by blast
  with None w 1 ip1 show ?thesis using write_put_parents [OF wf1 _ ip1]
    by (auto simp: write_spec_def split: if_splits option.splits)
qed

lemma remove_spec_parents:
  assumes "fs_wf ns" "used_node ns c" "int_parents ns" "remove_spec ns c p = (r, ns')"
  shows "int_parents ns'"
proof -
  have "int_parents (ns[i := (ns ! i)\<lparr>nd_used := False\<rparr>])" if "resolve_spec ns c p = Some i" for i
    using assms(1,3) resolve_spec_used [OF assms(1,2) that]
    by (intro int_parents_same) (auto simp: used_node_def)
  with assms(3,4) show ?thesis by (auto simp: remove_spec_def split: option.splits if_splits)
qed

lemma fs_exec_parents:
  assumes "fs_wf ns" "int_parents ns" "fs_call_ok call ns" "fs_exec call ns = Some (r, ns')"
  shows "int_parents ns'"
proof (cases call)
  case (Mkdir_as c p owner mode)
  with assms create_spec_parents [of ns c p True owner mode] show ?thesis
    by (simp add: fs_mkdir_as_eq)
next
  case (Touch_as c p owner mode)
  with assms create_spec_parents [of ns c p False owner mode] show ?thesis
    by (simp add: fs_touch_as_eq)
next
  case (Write_file c p data sz)
  with assms write_spec_parents [of ns c p data sz] show ?thesis by (simp add: fs_write_file_eq)
next
  case (Remove c p)
  with assms remove_spec_parents [of ns c p] show ?thesis by (simp add: fs_remove_eq)
next
  case (Set_owner k owner)
  with assms show ?thesis
    by (auto simp: fs_set_owner_eq used_node_def intro!: int_parents_same split: if_splits)
next
  case (Set_mode k mode)
  with assms show ?thesis
    by (auto simp: fs_set_mode_eq used_node_def intro!: int_parents_same split: if_splits)
qed

lemma fs_reachable_parents: "fs_reachable ns \<Longrightarrow> int_parents ns"
proof (induction rule: fs_reachable.induct)
  case (init ns)
  then show ?case by (simp add: fs_init_eq int_parents_init)
next
  case (call ns c r ns')
  then show ?case using fs_exec_parents fs_reachable_inv by blast
qed

subsection \<open>The attributes of the root\<close>

lemma root_attr_reset_wf:
  assumes "fs_wf ns"
  shows "fs_wf (root_attr_reset ns)"
proof -
  have "node_ok (ns ! 0)" "used_node ns 0"
    using assms fs_wf_root [OF assms] fs_wf_node_ok by blast+
  then show ?thesis
    unfolding root_attr_reset_def by (intro fs_wf_attr assms) (simp_all add: node_ok_def used_node_def)
qed

lemma root_attr_reset_resolve:
  assumes "fs_wf ns" "used_node ns c"
  shows "resolve_spec (root_attr_reset ns) c p = resolve_spec ns c p"
proof -
  have "used_node ns 0" using fs_wf_root [OF assms(1)] by blast
  then have "shape_le ns (root_attr_reset ns)" "shape_le (root_attr_reset ns) ns"
    using assms(1) shape_le_attr [of ns 0 "(ns ! 0)\<lparr>nd_owner := 0, nd_mode := FS_DEFAULT_DIR_MODE\<rparr>"]
    by (simp_all add: root_attr_reset_def used_node_def)
  then show ?thesis
    using resolve_same_shape [OF assms(1) root_attr_reset_wf [OF assms(1)] _ _ assms(2)] by metis
qed

end
