(* ===== verification/DiskSpec.thy ===== *)
theory DiskSpec
  imports Disk FsLoad AtaSpec
begin

text \<open>
  What the disk layer does over a driver that is a sector device: \<^theory_text>\<open>disk_device\<close> extends the
  interface of \<^theory_text>\<open>Sectors\<close> to the driver of kernel/ata.c on some hardware with room for
  the disk layout. \<^theory_text>\<open>load_outcome\<close> is loading as a function of the sectors alone,
  \<^theory_text>\<open>saved_sectors\<close> and \<^theory_text>\<open>installed_sectors\<close> are what saving and
  installing leave on the disk.
\<close>

subsection \<open>Checksums and headers\<close>

definition checksum :: "u8 list \<Rightarrow> u32" where
  "checksum bs = sum_list (map ucast bs)"

lemma checksum_loop_eq:
  "checksum_loop data n acc = (if n \<le> length data then Some (acc + checksum (take n data)) else None)"
  by (induction data n acc rule: checksum_loop.induct) (simp_all add: checksum_def algebra_simps)

lemma checksum_bytes_eq:
  "checksum_bytes data n = (if n \<le> length data then Some (checksum (take n data)) else None)"
  by (simp add: checksum_bytes_def checksum_loop_eq)

definition fs_header :: "u32 \<Rightarrow> u8 list \<Rightarrow> disk_header" where
  "fs_header n payload = \<lparr>dh_magic = disk_magic @ [NUL], dh_version = 1, dh_payload_size = n,
     dh_checksum = checksum payload\<rparr>"

definition header_sector :: "u8 list \<Rightarrow> u8 list" where
  "header_sector payload = enc_disk_header (fs_header (word_of_nat (length payload)) payload) @ replicate 492 0"

lemma fs_header_sized: "disk_header_sized (fs_header n p)"
  by (simp add: disk_header_sized_def fs_header_def disk_magic_def)

lemma length_header_sector [simp]: "length (header_sector p) = 512"
  using dhdr.enc_length [OF fs_header_sized] by (simp add: header_sector_def)

lemma dec_header_sector: "dec_disk_header (take 20 (header_sector p)) = fs_header (word_of_nat (length p)) p"
  using dhdr.enc_length [OF fs_header_sized] dhdr.dec_enc [OF fs_header_sized] by (simp add: header_sector_def)

text \<open>The bytes of a payload of \<open>n\<close> bytes in the sectors behind the header.\<close>

definition stored_payload :: "(nat \<Rightarrow> u8 list) \<Rightarrow> nat \<Rightarrow> u8 list" where
  "stored_payload sec n = take n (concat (map (\<lambda>i. sec (2049 + i)) [0..<(n + 511) div 512]))"

definition load_outcome :: "(nat \<Rightarrow> u8 list) \<Rightarrow> fs \<Rightarrow> int \<times> string \<times> fs" where
  "load_outcome sec ns = (
     let h = dec_disk_header (take 20 (sec 2048)); n = unat (dh_payload_size h); p = stored_payload sec n in
     if take 7 (dh_magic h) \<noteq> disk_magic \<or> dh_version h \<noteq> 1 then (-1, ''not installed'', ns)
     else if n = 0 \<or> DISK_PAYLOAD_MAX < n then (-1, ''invalid payload size'', ns)
     else if checksum p \<noteq> dh_checksum h then (-1, ''checksum mismatch'', ns)
     else let (r, ns') = load_spec ns p n
       in if r \<noteq> 0 then (-1, ''filesystem decode failed'', ns') else (0, ''ok'', ns'))"

lemma load_spec_take:
  assumes "n \<le> length b"
  shows "load_spec ns (take n b) n = load_spec ns b n"
proof -
  have h: "take HEADER_SIZE (take n b) = take HEADER_SIZE b" if "HEADER_SIZE \<le> n"
    using that by (simp add: min_absorb1)
  have ok: "image_ok (take n b) n = image_ok b n"
  proof (cases "HEADER_SIZE \<le> n")
    case True
    show ?thesis unfolding image_ok_def image_version_def h [OF True] by simp
  next
    case False
    then show ?thesis by (simp add: image_ok_def)
  qed
  have "loaded v (take n b) = loaded v b" if room: "HEADER_SIZE + node_width v * FS_MAX_NODES \<le> n" for v
  proof -
    have "stored_node v (take n b) k = stored_node v b k" if "k < FS_MAX_NODES" for k
    proof -
      have "node_width v * Suc k \<le> node_width v * FS_MAX_NODES" by (rule mult_le_mono2) (use that in simp)
      then have "HEADER_SIZE + node_width v * k + node_width v \<le> n"
        using room unfolding mult_Suc_right by linarith
      then have "take (node_width v) (drop (HEADER_SIZE + node_width v * k) (take n b))
          = take (node_width v) (drop (HEADER_SIZE + node_width v * k) b)"
        by (simp add: drop_take min_absorb1)
      then show ?thesis by (simp only: stored_node_def)
    qed
    then show ?thesis by (simp add: loaded_def)
  qed
  moreover have "image_version (take n b) = image_version b" if "image_ok b n"
    using that h by (simp add: image_version_def image_ok_def)
  moreover have "HEADER_SIZE + node_width (image_version b) * FS_MAX_NODES \<le> n" if "image_ok b n"
    using that by (simp add: image_ok_def)
  ultimately show ?thesis by (simp add: load_spec_def ok)
qed

lemma disk_magic_compare:
  assumes "length bs = 20"
  shows "\<exists>r. kstrncmp (dh_magic (dec_disk_header bs)) (c_str disk_magic) 7 = Some r
    \<and> (r = 0 \<longleftrightarrow> take 7 (dh_magic (dec_disk_header bs)) = disk_magic)"
  using kstrncmp_magic [of disk_magic 7 "dh_magic (dec_disk_header bs)" "[NUL]"] assms
  by (simp add: c_str_def disk_magic_def dec_disk_header_def)

subsection \<open>The sectors after saving and installing\<close>

definition saved_sectors :: "u8 list \<Rightarrow> u8 list \<Rightarrow> (nat \<Rightarrow> u8 list) \<Rightarrow> nat \<Rightarrow> u8 list" where
  "saved_sectors im buf sec l = (if l = 2048 then header_sector im
     else if 2049 \<le> l \<and> l < 3085 then block buf (l - 2049) else sec l)"

definition padded_block :: "u8 list \<Rightarrow> nat \<Rightarrow> u8 list" where
  "padded_block bs i = block bs i @ replicate (512 - length (block bs i)) 0"

definition boot_info :: "blobs \<Rightarrow> boot_info_sector" where
  "boot_info bl = \<lparr>bi_magic = boot_magic, bi_kernel_size_bytes = word_of_nat (length (bl_kernel bl)),
     bi_kernel_sectors = word_of_nat ((length (bl_kernel bl) + 511) div 512),
     bi_entry_offset = word_of_nat (bl_entry bl)\<rparr>"

definition installed_sectors :: "blobs \<Rightarrow> (nat \<Rightarrow> u8 list) \<Rightarrow> nat \<Rightarrow> u8 list" where
  "installed_sectors bl sec l = (if l = 0 then take 512 (bl_bootsect bl)
     else if l = 1 then enc_boot_info (boot_info bl)
     else if l < 2 + (length (bl_kernel bl) + 511) div 512 then padded_block (bl_kernel bl) (l - 2) else sec l)"

lemma saved_header:
  assumes "length im = IMAGE_SIZE"
  shows "dec_disk_header (take 20 (saved_sectors im buf sec 2048)) = fs_header (word_of_nat IMAGE_SIZE) im"
  using dec_header_sector [of im] assms by (simp add: saved_sectors_def)

lemma saved_payload:
  assumes "length im = IMAGE_SIZE" "length rest = 1566448"
  shows "stored_payload (saved_sectors im (im @ rest) sec) IMAGE_SIZE = im"
proof -
  let ?sec = "saved_sectors im (im @ rest) sec"
  have "map (\<lambda>i. ?sec (2049 + i)) [0..<1036] = map (block (im @ rest)) [0..<1036]"
    by (rule map_cong) (auto simp: saved_sectors_def)
  moreover have "concat (map (block (im @ rest)) [0..<1036]) = take (1036 * 512) (im @ rest)"
    by (rule blocks_take) (simp add: assms)
  moreover have "stored_payload ?sec IMAGE_SIZE = take IMAGE_SIZE (concat (map (\<lambda>i. ?sec (2049 + i)) [0..<1036]))"
    by (simp add: stored_payload_def del: upt_rec_numeral)
  ultimately have "stored_payload ?sec IMAGE_SIZE = take IMAGE_SIZE (take (1036 * 512) (im @ rest))" by (simp only:)
  then show ?thesis by (simp add: assms)
qed

lemma load_saved:
  assumes "fs_wf ns" "int_parents ns" "length rest = 1566448"
  shows "load_outcome (saved_sectors (image ns) (image ns @ rest) sec) ns0 = (0, ''ok'', root_attr_reset ns)"
proof -
  have len: "length (image ns) = IMAGE_SIZE" using assms(1) by (simp add: image_length)
  have l: "load_spec ns0 (image ns) IMAGE_SIZE = (0, root_attr_reset ns)"
    using load_image [OF assms(1,2), of IMAGE_SIZE ns0 "[]"] by simp
  have s: "dh_magic (fs_header n p) = disk_magic @ [NUL]" "dh_version (fs_header n p) = 1"
    "dh_payload_size (fs_header n p) = n" "dh_checksum (fs_header n p) = checksum p" for n p
    by (simp_all add: fs_header_def)
  show ?thesis
    unfolding load_outcome_def saved_header [OF len] s Let_def
    by (simp add: saved_payload [OF len assms(3)] l disk_magic_def)
qed

subsection \<open>The disk layer on a sector device\<close>

definition disk_sized :: "'h disk \<Rightarrow> bool" where
  "disk_sized s \<longleftrightarrow> length (d_sector s) = SECTOR_SIZE \<and> length (d_payload s) = DISK_PAYLOAD_MAX"

locale disk_device = sector_device "ata_read_sector hw" "ata_write_sector hw" "ata_flush hw" good sector capacity
  for hw :: "'h hw" and good :: "'h ata \<Rightarrow> bool" and sector :: "'h ata \<Rightarrow> nat \<Rightarrow> u8 list" and capacity :: nat +
  assumes room: "6144 \<le> capacity"
begin

definition ready_disk :: "'h disk \<Rightarrow> bool" where
  "ready_disk s \<longleftrightarrow> disk_sized s \<and> 0 \<le> d_selected s \<and> good (d_ata s)"

lemma read_g_sector_ok:
  assumes "ready_disk s" "unat lba < capacity"
  shows "\<exists>a. read_g_sector hw lba s = Some (0, s\<lparr>d_sector := sector (d_ata s) (unat lba), d_ata := a\<rparr>)
    \<and> good a \<and> sector a = sector (d_ata s)"
proof -
  have g: "good (d_ata s)" "512 \<le> length (d_sector s)" "drop 512 (d_sector s) = []"
    using assms(1) by (simp_all add: ready_disk_def disk_sized_def)
  show ?thesis
    using read_ok [OF g(1) assms(2) g(2), of "hw_sector_addr hw"] g(3)
    by (auto simp: read_g_sector_def)
qed

lemma write_g_sector_ok:
  assumes "ready_disk s" "unat lba < capacity"
  shows "\<exists>a. write_g_sector hw lba s = Some (0, s\<lparr>d_ata := a\<rparr>)
    \<and> good a \<and> sector a = (sector (d_ata s))(unat lba := d_sector s)"
proof -
  have g: "good (d_ata s)" "512 \<le> length (d_sector s)" "take 512 (d_sector s) = d_sector s"
    using assms(1) by (simp_all add: ready_disk_def disk_sized_def)
  show ?thesis
    using write_ok [OF g(1) assms(2) g(2), of "hw_sector_addr hw"] g(3)
    by (auto simp: write_g_sector_def)
qed

lemma disk_load_eq:
  assumes "ready_disk s"
  shows "\<exists>r e ns s'. load_outcome (sector (d_ata s)) (d_nodes s) = (r, e, ns)
    \<and> disk_load_fs hw s = Some (r, s') \<and> d_error s' = e \<and> d_nodes s' = ns
    \<and> ready_disk s' \<and> sector (d_ata s') = sector (d_ata s)"
proof -
  let ?sec = "sector (d_ata s)"
  have av: "disk_available s" and good: "good (d_ata s)" and size: "disk_sized s"
    using assms by (simp_all add: ready_disk_def disk_available_def)
  have len: "length (?sec l) = 512" for l by (rule sector_length [OF good])
  obtain a1 where 1: "read_g_sector hw 2048 s = Some (0, s\<lparr>d_sector := ?sec 2048, d_ata := a1\<rparr>)"
    "good a1" "sector a1 = ?sec"
    using read_g_sector_ok [OF assms, of 2048] room by auto
  define h where "h = dec_disk_header (take 20 (?sec 2048))"
  define n where "n = unat (dh_payload_size h)"
  have n0: "dh_payload_size h = 0 \<longleftrightarrow> n = 0" by (simp add: n_def unsigned_eq_0_iff)
  have sl: "slice (?sec 2048) 0 20 = Some (take 20 (?sec 2048))" by (simp add: slice_def len)
  obtain m where m: "kstrncmp (dh_magic h) (c_str disk_magic) 7 = Some m"
    "m = 0 \<longleftrightarrow> take 7 (dh_magic h) = disk_magic"
    using disk_magic_compare [of "take 20 (?sec 2048)"] len by (auto simp: h_def)
  let ?s1 = "s\<lparr>d_sector := ?sec 2048, d_ata := a1\<rparr>"
  have ok1: "ready_disk (?s1\<lparr>d_error := e\<rparr>)" for e
    using assms 1(2) by (simp add: ready_disk_def disk_sized_def len)
  show ?thesis
  proof (cases "take 7 (dh_magic h) \<noteq> disk_magic \<or> dh_version h \<noteq> 1 \<or> n = 0 \<or> DISK_PAYLOAD_MAX < n")
    case True
    then show ?thesis
      using av 1 sl m ok1
      by (auto simp: disk_load_fs_def load_outcome_def h_def [symmetric] n_def [symmetric] n0 Let_def)
  next
    case False
    then have hdr: "take 7 (dh_magic h) = disk_magic" "dh_version h = 1" "n \<noteq> 0" "n \<le> DISK_PAYLOAD_MAX" by auto
    let ?k = "(n + 511) div 512"
    have k: "?k \<le> 4095" "?k * 512 \<le> DISK_PAYLOAD_MAX" "n \<le> ?k * 512" using hdr(4) by auto
    have pl: "length (d_payload s) = DISK_PAYLOAD_MAX" using size by (simp add: disk_sized_def)
    have sectors: "unat ((dh_payload_size h + 512 - 1) div 512) = ?k"
    proof -
      have "unat (dh_payload_size h + 511) = n + 511"
        using unat_word_ariths(1) [of "dh_payload_size h" 511] hdr(4) by (simp add: n_def)
      moreover have "dh_payload_size h + 512 - 1 = dh_payload_size h + 511" by simp
      ultimately show ?thesis by (simp only: unat_div_distrib) simp
    qed
    have lba: "unat (DISK_START_LBA + 1) + 0 + ?k \<le> capacity" using k(1) room by simp
    obtain a2 where 2: "read_range (ata_read_sector hw) (DISK_START_LBA + 1) (hw_payload_addr hw) [0..<?k] (d_payload s) a1 =
        Some (0, concat (map (\<lambda>i. ?sec (2049 + i)) [0..<?k]) @ drop (?k * 512) (d_payload s), a2)"
      "good a2" "sector a2 = ?sec"
      using read_range_ok [OF 1(2) lba, of "d_payload s" "hw_payload_addr hw"] k(2) pl unfolding 1(3) by auto
    define P where "P = concat (map (\<lambda>i. ?sec (2049 + i)) [0..<?k]) @ drop (?k * 512) (d_payload s)"
    have cl: "length (concat (map (\<lambda>i. ?sec (2049 + i)) [0..<?k])) = ?k * 512"
      by (simp add: length_concat len o_def sum_list_triv)
    have P: "take n P = stored_payload ?sec n" "length P = DISK_PAYLOAD_MAX" "n \<le> length P"
      using k pl cl hdr(4) by (simp_all add: P_def stored_payload_def)
    have ck: "checksum_bytes P n = Some (checksum (stored_payload ?sec n))"
      using P by (simp add: checksum_bytes_eq)
    obtain r ns where l: "load_spec (d_nodes s) P n = (r, ns)" by fastforce
    then have de: "fs_deserialize (d_nodes s) (Some P) n = Some (r, ns)"
      "load_spec (d_nodes s) (stored_payload ?sec n) n = (r, ns)"
      using fs_deserialize_eq [OF P(3)] load_spec_take [OF P(3)] by (simp_all add: P(1))
    have ok2: "ready_disk (s\<lparr>d_sector := ?sec 2048, d_payload := P, d_ata := a2, d_nodes := ns', d_error := e\<rparr>)" for e ns'
      using assms 2(2) P(2) by (simp add: ready_disk_def disk_sized_def len)
    have ok3: "ready_disk (s\<lparr>d_sector := ?sec 2048, d_payload := P, d_ata := a2, d_error := e\<rparr>)" for e
      using assms 2(2) P(2) by (simp add: ready_disk_def disk_sized_def len)
    show ?thesis
    proof (cases "checksum (stored_payload ?sec n) = dh_checksum h")
      case False
      then show ?thesis
        using av 1 sl m hdr 2 sectors ck ok3 P_def
        by (auto simp: disk_load_fs_def load_outcome_def h_def [symmetric] n_def [symmetric] n0 Let_def)
    next
      case True
      then show ?thesis
        using av 1 sl m hdr 2 sectors ck de ok2 P_def
        by (auto simp: disk_load_fs_def load_outcome_def h_def [symmetric] n_def [symmetric] n0 Let_def)
    qed
  qed
qed


text \<open>Saving.\<close>

lemma disk_save_eq:
  assumes "ready_disk s" "fs_mem (d_nodes s)"
  shows "\<exists>s'. disk_save_fs hw s = Some (0, s') \<and> ready_disk s' \<and> d_nodes s' = d_nodes s \<and> d_error s' = ''ok''
    \<and> sector (d_ata s') = saved_sectors (image (d_nodes s)) (image (d_nodes s) @ drop IMAGE_SIZE (d_payload s)) (sector (d_ata s))"
proof -
  let ?sec = "sector (d_ata s)"
  define im where "im = image (d_nodes s)"
  define P where "P = im @ drop IMAGE_SIZE (d_payload s)"
  have av: "disk_available s" and good: "good (d_ata s)" and size: "disk_sized s"
    using assms(1) by (simp_all add: ready_disk_def disk_available_def)
  have len: "length im = IMAGE_SIZE" "length P = DISK_PAYLOAD_MAX" "take IMAGE_SIZE P = im"
    using image_length [OF assms(2)] size by (simp_all add: im_def P_def disk_sized_def)
  have ser: "fs_serialize (d_nodes s) (Some (d_payload s)) DISK_PAYLOAD_MAX = Some (IMAGE_SIZE, Some P)"
    using fs_serialize_eq [OF assms(2), of DISK_PAYLOAD_MAX "d_payload s"] size
    by (simp add: P_def im_def disk_sized_def)
  have mg: "kstrcpy (replicate 8 NUL) (c_str disk_magic) = Some (disk_magic @ [NUL])"
    by (simp add: loop_simps disk_magic_def)
  have ck: "checksum_bytes P IMAGE_SIZE = Some (checksum im)" using len by (simp add: checksum_bytes_eq)
  define H where "H = fs_header 530192 im"
  have h: "\<lparr>dh_magic = disk_magic @ [NUL], dh_version = 1, dh_payload_size = 530192, dh_checksum = checksum im\<rparr> = H"
    by (simp add: fs_header_def H_def)
  have hl: "length (enc_disk_header H) = 20" unfolding H_def by (rule dhdr.enc_length [OF fs_header_sized])
  have hs: "header_sector im = enc_disk_header H @ replicate 492 0" by (simp add: header_sector_def H_def len(1))
  have ms: "kmemset (d_sector s) 0 SECTOR_SIZE = Some (replicate 512 0)"
    using size by (simp add: loop_simps disk_sized_def)
  have cp: "kmemcpy (replicate 512 0) (enc_disk_header H) DISK_HEADER_SIZE = Some (header_sector im)"
    using hl unfolding hs by (simp add: loop_simps)
  let ?s1 = "s\<lparr>d_payload := P, d_sector := header_sector im\<rparr>"
  have "ready_disk ?s1" using assms(1) len by (simp add: ready_disk_def disk_sized_def)
  from write_g_sector_ok [OF this, of 2048] obtain a1 where
    1: "write_g_sector hw 2048 ?s1 = Some (0, ?s1\<lparr>d_ata := a1\<rparr>)" "good a1" "sector a1 = ?sec(2048 := header_sector im)"
    using room by auto
  have start: "unat (DISK_START_LBA + 1) = 2049" by simp
  have lba: "unat (DISK_START_LBA + 1) + 0 + 1036 \<le> capacity" using room by simp
  obtain a2 where 2: "write_range (ata_write_sector hw) (DISK_START_LBA + 1) (hw_payload_addr hw) [0..<1036] P a1 = Some (0, a2)"
    "good a2" "sector a2 = (\<lambda>l. if 2049 \<le> l \<and> l < 3085 then block P (l - 2049) else sector a1 l)"
    using write_range_ok [OF 1(2) lba, of P "hw_payload_addr hw"] len(2)
    unfolding start add_0_right by (auto simp del: upt_rec_numeral)
  obtain r a3 where 3: "ata_flush hw a2 = Some (r, a3)" "good a3" "sector a3 = sector a2" using flush_ok [OF 2(2)] by blast
  have "disk_save_fs hw s = Some (0, s\<lparr>d_payload := P, d_sector := header_sector im, d_ata := a3, d_error := ''ok''\<rparr>)"
    using av ser mg ck ms cp 1(1) 2(1) 3(1) by (simp add: disk_save_fs_def Let_def h del: upt_rec_numeral)
  moreover have "sector a3 = saved_sectors im P ?sec"
    unfolding 3(3) 2(3) 1(3) by (auto simp: saved_sectors_def fun_eq_iff)
  moreover have "ready_disk (s\<lparr>d_payload := P, d_sector := header_sector im, d_ata := a3, d_error := ''ok''\<rparr>)"
    using assms(1) 3(2) len by (simp add: ready_disk_def disk_sized_def)
  ultimately show ?thesis unfolding P_def im_def by simp
qed

text \<open>Installing.\<close>

lemma install_kernel_ok:
  assumes "ready_disk s" "k + n \<le> 1920" "(k + n) * 512 < length (bl_kernel bl) + 512"
  shows "\<exists>s'. install_kernel hw bl [k..<k + n] s = Some (0, s') \<and> ready_disk s' \<and> d_nodes s' = d_nodes s
    \<and> sector (d_ata s') = (\<lambda>l. if k + 2 \<le> l \<and> l < k + n + 2 then padded_block (bl_kernel bl) (l - 2) else sector (d_ata s) l)"
  using assms
proof (induction n arbitrary: k s)
  case 0
  then show ?case by (auto simp: fun_eq_iff)
next
  case (Suc n)
  let ?K = "bl_kernel bl"
  have u: "[k..<k + Suc n] = k # [Suc k..<Suc k + n]" by (subst upt_conv_Cons) simp_all
  define chunk where "chunk = (if length ?K - k * 512 \<ge> 512 then 512 else length ?K - k * 512)"
  have kk: "k * 512 < length ?K" using Suc.prems(3) by simp
  have size: "length (d_sector s) = 512" using Suc.prems(1) by (simp add: ready_disk_def disk_sized_def)
  have ms: "kmemset (d_sector s) 0 512 = Some (replicate 512 0)" using size by (simp add: loop_simps)
  have cp: "kmemcpy (replicate 512 0) (drop (k * 512) ?K) chunk = Some (padded_block ?K k)"
    by (auto simp: loop_simps chunk_def padded_block_def block_def min_def)
  have pl: "length (padded_block ?K k) = 512" by (simp add: padded_block_def block_def)
  let ?s = "s\<lparr>d_sector := padded_block ?K k\<rparr>"
  have r1: "ready_disk ?s" using Suc.prems(1) pl by (simp add: ready_disk_def disk_sized_def)
  have l: "unat (KERNEL_LBA_START + word_of_nat k) = k + 2"
    using sector_address [of 2 k] Suc.prems(2) by simp
  obtain a where 1: "write_g_sector hw (KERNEL_LBA_START + word_of_nat k) ?s = Some (0, ?s\<lparr>d_ata := a\<rparr>)"
    "good a" "sector a = (sector (d_ata s))(k + 2 := padded_block ?K k)"
    using write_g_sector_ok [OF r1, of "KERNEL_LBA_START + word_of_nat k"] room Suc.prems(2) unfolding l by auto
  define t where "t = ?s\<lparr>d_ata := a\<rparr>"
  have r2: "ready_disk t" "d_nodes t = d_nodes s" "d_ata t = a"
    using r1 1(2) by (simp_all add: t_def ready_disk_def disk_sized_def)
  have "Suc k + n \<le> 1920" "(Suc k + n) * 512 < length ?K + 512" using Suc.prems by simp_all
  from Suc.IH [OF r2(1) this] obtain s' where 2: "install_kernel hw bl [Suc k..<Suc k + n] t = Some (0, s')" "ready_disk s'"
    "d_nodes s' = d_nodes s"
    "sector (d_ata s') = (\<lambda>l. if Suc k + 2 \<le> l \<and> l < Suc k + n + 2 then padded_block ?K (l - 2) else sector a l)"
    unfolding r2(2,3) by blast
  have "install_kernel hw bl (k # [Suc k..<Suc k + n]) s = Some (0, s')"
    using ms cp 1(1) 2(1) by (simp add: chunk_def [symmetric] t_def Let_def del: upt_Suc)
  with 2 1(3) show ?case unfolding u by (auto simp: fun_eq_iff simp del: upt_Suc)
qed

lemma disk_install_eq:
  assumes ready: "ready_disk s" and info: "disk_get_info s (d_selected s) (Some zero_info) = Some (r, cap)"
    "\<not> (r = 0 \<and> in_sectors28 (the cap) > 0 \<and> in_sectors28 (the cap) < 6144)"
    and bl: "512 \<le> length (bl_bootsect bl)" "length (bl_kernel bl) \<le> 1920 * 512" "bl_entry bl < length (bl_kernel bl)"
  shows "\<exists>s'. disk_install_system hw bl s = Some (0, s') \<and> ready_disk s' \<and> d_nodes s' = d_nodes s \<and> d_error s' = ''ok''
    \<and> sector (d_ata s') = installed_sectors bl (sector (d_ata s))"
proof -
  let ?sec = "sector (d_ata s)"
  let ?n = "(length (bl_kernel bl) + 511) div 512"
  have n: "1 \<le> ?n" "?n \<le> 1920" "?n * 512 < length (bl_kernel bl) + 512" using bl by auto
  have un: "unat (word_of_nat ?n :: u32) = ?n" using n(2) by (simp add: unat_of_nat take_bit_nat_eq_self)
  have ks: "(word_of_nat ?n :: u32) \<noteq> 0" "\<not> (word_of_nat ?n :: u32) > 1920"
    using un n by (auto simp: word_less_nat_alt)
  have av: "disk_available s" and size: "length (d_sector s) = 512"
    using ready by (simp_all add: ready_disk_def disk_available_def disk_sized_def)
  define boot where "boot = take 512 (bl_bootsect bl)"
  have b: "kmemcpy (d_sector s) (bl_bootsect bl) 512 = Some boot" "length boot = 512"
    using size bl(1) by (simp_all add: loop_simps boot_def)
  have "ready_disk (s\<lparr>d_sector := boot\<rparr>)" using ready b(2) by (simp add: ready_disk_def disk_sized_def)
  from write_g_sector_ok [OF this, of 0] obtain a1 where
    1: "write_g_sector hw 0 (s\<lparr>d_sector := boot\<rparr>) = Some (0, s\<lparr>d_sector := boot, d_ata := a1\<rparr>)"
      "good a1" "sector a1 = ?sec(0 := boot)"
    using room by auto
  define inf where "inf = enc_boot_info (boot_info bl)"
  have il: "length inf = 512" by (simp add: inf_def enc_boot_info_def boot_info_def boot_magic_def)
  have mg: "kmemcpy (replicate 8 NUL) (c_str boot_magic) 8 = Some boot_magic"
    by (simp add: loop_simps boot_magic_def c_str_def)
  have ic: "kmemcpy boot (enc_boot_info \<lparr>bi_magic = boot_magic, bi_kernel_size_bytes = word_of_nat (length (bl_kernel bl)),
      bi_kernel_sectors = word_of_nat ?n, bi_entry_offset = word_of_nat (bl_entry bl)\<rparr>) 512 = Some inf"
    using il b(2) by (simp add: loop_simps inf_def boot_info_def)
  let ?s2 = "s\<lparr>d_sector := inf, d_ata := a1\<rparr>"
  have r2: "ready_disk ?s2" using ready 1(2) il by (simp add: ready_disk_def disk_sized_def)
  from write_g_sector_ok [OF this, of 1] obtain a2 where
    2: "write_g_sector hw 1 ?s2 = Some (0, s\<lparr>d_sector := inf, d_ata := a2\<rparr>)" "good a2" "sector a2 = (sector a1)(1 := inf)"
    using room by auto
  define t where "t = s\<lparr>d_sector := inf, d_ata := a2\<rparr>"
  have r3: "ready_disk t" "d_nodes t = d_nodes s" "d_ata t = a2"
    using r2 2(2) by (simp_all add: t_def ready_disk_def disk_sized_def)
  have "0 + ?n \<le> 1920" "(0 + ?n) * 512 < length (bl_kernel bl) + 512" using n by simp_all
  from install_kernel_ok [OF r3(1) this] obtain s3 where 3: "install_kernel hw bl [0..<?n] t = Some (0, s3)" "ready_disk s3"
    "d_nodes s3 = d_nodes s"
    "sector (d_ata s3) = (\<lambda>l. if 2 \<le> l \<and> l < ?n + 2 then padded_block (bl_kernel bl) (l - 2) else sector a2 l)"
    unfolding r3(2,3) add_0 by blast
  obtain r' a4 where 4: "ata_flush hw (d_ata s3) = Some (r', a4)" "good a4" "sector a4 = sector (d_ata s3)"
    using flush_ok 3(2) by (metis ready_disk_def)
  have lk: "bl_kernel bl \<noteq> []" using bl(3) by auto
  have turn: "511 + length (bl_kernel bl) = length (bl_kernel bl) + 511" by simp
  have swap: "s\<lparr>d_ata := a1, d_sector := inf\<rparr> = s\<lparr>d_sector := inf, d_ata := a1\<rparr>" by simp
  have "disk_install_system hw bl s = Some (0, s3\<lparr>d_ata := a4, d_error := ''ok''\<rparr>)"
    using av info b bl lk ks un 1(1) mg ic 2(1) 3(1) 4(1)
    by (simp add: disk_install_system_def t_def Let_def turn swap)
  moreover have "ready_disk (s3\<lparr>d_ata := a4, d_error := ''ok''\<rparr>)"
    using 3(2) 4(2) by (simp add: ready_disk_def disk_sized_def)
  moreover have "sector a4 = installed_sectors bl ?sec"
    unfolding 4(3) 3(4) 2(3) 1(3) by (auto simp: installed_sectors_def boot_def inf_def fun_eq_iff)
  ultimately show ?thesis using 3(3) by simp
qed

end

end
