(* ===== verification/DiskSafe.thy ===== *)
theory DiskSafe
  imports DiskSpec AtaProps FsLoad
begin

text \<open>
  kernel/disk.c on any hardware: whatever the ports, the registers and the memory shared with the
  controller answer, as long as a device does not stay busy for ever, every call returns and stays
  inside its buffers, and leaves a table of the file system that the calls of kernel/fs.c can be made on.
\<close>

text \<open>Reading \<open>n\<close> bytes of memory gives \<open>n\<close> bytes.\<close>

definition ram_exact :: "'h hw \<Rightarrow> bool" where
  "ram_exact hw \<longleftrightarrow> (\<forall>a n h. length (hw_ram_get hw a n h) = n)"

subsection \<open>Buffers keep their length\<close>

lemma ahci_issue_length:
  assumes "ram_exact hw" "ahci_issue hw i c lba tc fc w dr buf s = Some (r, buf', s')"
  shows "map_option (length \<circ> snd) buf' = map_option (length \<circ> snd) buf"
  using assms
  by (auto simp: ahci_issue_def ram_exact_def Let_def split_beta bind_eq_Some_conv split: if_splits sum.splits option.splits)

lemma ata_read_sector_length:
  assumes "ata_ok s" "ram_exact hw" "512 \<le> length bs" "ata_read_sector hw lba (Some (a, bs)) s = Some (r, buf', s')"
  shows "\<exists>a' bs'. buf' = Some (a', bs') \<and> length bs' = length bs"
proof -
  have len: "length (g_ide_devices s) = ATA_MAX_IDE_DEVICES" using assms(1) by (simp add: ata_ok_def)
  have ide: "\<exists>b. buf = Some b \<and> length b = length bs"
    if "ide_read_sector hw i lba (Some bs) s = Some (q, buf, t)" for i q buf t
    using ide_read_sector_total [OF len, of "Some bs" hw i lba] assms(3) that by auto
  have ahci: "\<exists>b c. buf = Some (b, c) \<and> length c = length bs"
    if "ahci_issue hw i c lba tc fc w dr (Some (a, bs)) s = Some (q, buf, t)" for i c tc fc w dr q buf t
    using ahci_issue_length [OF assms(2) that] by (cases buf) auto
  show ?thesis
    using assms(4) by (auto simp: ata_read_sector_def bind_eq_Some_conv dest!: ide ahci split: if_splits)
qed

lemma ata_read_sector_safe:
  assumes "ata_ok s" "ram_exact hw" "512 \<le> length bs"
  shows "\<exists>r a' bs' s'. ata_read_sector hw lba (Some (a, bs)) s = Some (r, Some (a', bs'), s') \<and> ata_ok s'
    \<and> length bs' = length bs"
proof -
  obtain r buf' s' where 1: "ata_read_sector hw lba (Some (a, bs)) s = Some (r, buf', s')" "tables s' = tables s"
    using ata_read_sector_total [OF assms(1), of "Some (a, bs)" hw lba] assms(3) by auto
  then show ?thesis
    using ata_read_sector_length [OF assms 1(1)] ata_ok_tables [OF 1(2)] assms(1) by auto
qed

lemma ata_write_sector_safe:
  assumes "ata_ok s" "512 \<le> length bs"
  shows "\<exists>r s'. ata_write_sector hw lba (Some (a, bs)) s = Some (r, s') \<and> ata_ok s'"
proof -
  obtain r s' where "ata_write_sector hw lba (Some (a, bs)) s = Some (r, s')" "tables s' = tables s"
    using ata_write_sector_total [OF assms(1), of "Some (a, bs)" hw lba] assms(2) by auto
  then show ?thesis using ata_ok_tables assms(1) by blast
qed

lemma ata_flush_safe: "ata_ok s \<Longrightarrow> \<exists>r s'. ata_flush hw s = Some (r, s') \<and> ata_ok s'"
  using ata_flush_total [of s hw] ata_ok_tables by metis

lemma read_range_safe:
  assumes "ram_exact hw"
  shows "ata_ok s \<Longrightarrow> \<forall>i \<in> set is. (i + 1) * 512 \<le> length buf \<Longrightarrow>
    \<exists>r buf' s'. read_range (ata_read_sector hw) base addr is buf s = Some (r, buf', s') \<and> ata_ok s' \<and> length buf' = length buf"
proof (induction "is" arbitrary: buf s)
  case Nil
  then show ?case by simp
next
  case (Cons i "is")
  then have i: "(i + 1) * 512 \<le> length buf" by simp
  then have "512 \<le> length (drop (i * 512) buf)" by simp
  from ata_read_sector_safe [OF Cons.prems(1) assms this, of "base + word_of_nat i" "addr + i * 512"]
  obtain r a bs s1 where 1: "ata_read_sector hw (base + word_of_nat i) (Some (addr + i * 512, drop (i * 512) buf)) s = Some (r, Some (a, bs), s1)"
    "ata_ok s1" "length bs = length buf - i * 512" by auto
  let ?buf = "take (i * 512) buf @ bs"
  have l: "length ?buf = length buf" using 1(3) i by simp
  then have "\<exists>r buf' s'. read_range (ata_read_sector hw) base addr is ?buf s1 = Some (r, buf', s') \<and> ata_ok s' \<and> length buf' = length ?buf"
    using Cons.IH [OF 1(2), of ?buf] Cons.prems(2) by simp
  with 1 i l show ?case by (auto simp: not_less Let_def)
qed

lemma write_range_safe:
  "ata_ok s \<Longrightarrow> \<forall>i \<in> set is. (i + 1) * 512 \<le> length buf \<Longrightarrow>
    \<exists>r s'. write_range (ata_write_sector hw) base addr is buf s = Some (r, s') \<and> ata_ok s'"
proof (induction "is" arbitrary: s)
  case Nil
  then show ?case by simp
next
  case (Cons i "is")
  then have i: "(i + 1) * 512 \<le> length buf" by simp
  then have "512 \<le> length (drop (i * 512) buf)" by simp
  from ata_write_sector_safe [OF Cons.prems(1) this] obtain r s1 where
    "ata_write_sector hw (base + word_of_nat i) (Some (addr + i * 512, drop (i * 512) buf)) s = Some (r, s1)" "ata_ok s1"
    by blast
  with Cons.IH [of s1] Cons.prems(2) i show ?case by (auto simp: not_less)
qed

subsection \<open>The calls\<close>

definition disk_ok :: "'h disk \<Rightarrow> bool" where
  "disk_ok s \<longleftrightarrow> disk_sized s \<and> ata_ok (d_ata s) \<and> fs_mem (d_nodes s)"

text \<open>What a call does to the table: \<open>in_table\<close> nodes stay so, and a root that is its own parent.\<close>

definition disk_keeps :: "'h disk \<Rightarrow> 'h disk \<Rightarrow> bool" where
  "disk_keeps s s' \<longleftrightarrow> disk_ok s' \<and> (\<forall>j. in_table (d_nodes s) j \<longrightarrow> in_table (d_nodes s') j)
     \<and> (own_parent (d_nodes s) \<longrightarrow> own_parent (d_nodes s'))"

lemma disk_keeps_refl: "disk_ok s \<Longrightarrow> disk_keeps s s"
  by (simp add: disk_keeps_def)

lemma disk_keeps_trans: "disk_keeps s t \<Longrightarrow> disk_keeps t u \<Longrightarrow> disk_keeps s u"
  by (simp add: disk_keeps_def)

lemma disk_keeps_same: "disk_ok s' \<Longrightarrow> d_nodes s' = d_nodes s \<Longrightarrow> disk_keeps s s'"
  by (simp add: disk_keeps_def)

lemma disk_ok_updates [simp]:
  "disk_ok (s\<lparr>d_error := e\<rparr>) \<longleftrightarrow> disk_ok s" "disk_ok (s\<lparr>d_selected := k\<rparr>) \<longleftrightarrow> disk_ok s"
  "disk_ok (s\<lparr>d_count := k\<rparr>) \<longleftrightarrow> disk_ok s"
  by (simp_all add: disk_ok_def disk_sized_def)

lemma in_table_init: "in_table ns j \<Longrightarrow> in_table init_table j"
proof -
  assume "in_table ns j"
  then have j: "j < FS_MAX_NODES" by (rule intab.less_in)
  show ?thesis
  proof (cases "j = 0")
    case False
    have "nd_parent (init_table ! j) = int 0"
      using False j by (cases j) (simp_all add: init_table_def zero_node_def)
    with j show ?thesis by (rule at_node) (rule at_root)
  qed (simp add: at_root)
qed

lemma read_g_sector_safe:
  assumes "disk_ok s" "ram_exact hw"
  shows "\<exists>r s'. read_g_sector hw lba s = Some (r, s') \<and> disk_ok s' \<and> d_nodes s' = d_nodes s"
proof -
  have g: "ata_ok (d_ata s)" "512 \<le> length (d_sector s)" "length (d_sector s) = 512"
    using assms(1) by (simp_all add: disk_ok_def disk_sized_def)
  obtain r a' bs' t where "ata_read_sector hw lba (Some (hw_sector_addr hw, d_sector s)) (d_ata s) = Some (r, Some (a', bs'), t)"
    "ata_ok t" "length bs' = 512"
    using ata_read_sector_safe [OF g(1) assms(2) g(2), of lba "hw_sector_addr hw"] g(3) by auto
  then show ?thesis using assms(1) by (auto simp: read_g_sector_def disk_ok_def disk_sized_def Let_def)
qed

lemma write_g_sector_safe:
  assumes "disk_ok s"
  shows "\<exists>r s'. write_g_sector hw lba s = Some (r, s') \<and> disk_ok s' \<and> d_nodes s' = d_nodes s"
proof -
  have g: "ata_ok (d_ata s)" "512 \<le> length (d_sector s)"
    using assms(1) by (simp_all add: disk_ok_def disk_sized_def)
  obtain r t where "ata_write_sector hw lba (Some (hw_sector_addr hw, d_sector s)) (d_ata s) = Some (r, t)" "ata_ok t"
    using ata_write_sector_safe [OF g, of hw lba "hw_sector_addr hw"] by auto
  then show ?thesis using assms(1) by (auto simp: write_g_sector_def disk_ok_def disk_sized_def Let_def)
qed

lemma disk_load_safe:
  assumes "disk_ok s" "ram_exact hw"
  shows "\<exists>r s'. disk_load_fs hw s = Some (r, s') \<and> disk_ok s' \<and> (r = 0 \<and> own_parent (d_nodes s') \<or> disk_keeps s s')"
proof (cases "disk_available s")
  case False
  with assms(1) show ?thesis by (simp add: disk_load_fs_def disk_keeps_same)
next
  case av: True
  obtain r1 s1 where 1: "read_g_sector hw 2048 s = Some (r1, s1)" "disk_ok s1" "d_nodes s1 = d_nodes s"
    using read_g_sector_safe [OF assms] by blast
  have err: "disk_keeps s (s1\<lparr>d_error := e\<rparr>)" for e using 1(2,3) by (simp add: disk_keeps_same)
  have len: "length (d_sector s1) = 512" "length (d_payload s1) = DISK_PAYLOAD_MAX"
    using 1(2) by (simp_all add: disk_ok_def disk_sized_def)
  define h where "h = dec_disk_header (take 20 (d_sector s1))"
  define n where "n = unat (dh_payload_size h)"
  have n0: "dh_payload_size h = 0 \<longleftrightarrow> n = 0" by (simp add: n_def unsigned_eq_0_iff)
  have sl: "slice (d_sector s1) 0 20 = Some (take 20 (d_sector s1))" by (simp add: slice_def len)
  obtain m where m: "kstrncmp (dh_magic h) (c_str disk_magic) 7 = Some m"
    using disk_magic_compare [of "take 20 (d_sector s1)"] len by (auto simp: h_def)
  show ?thesis
  proof (cases "r1 \<noteq> 0 \<or> m \<noteq> 0 \<or> dh_version h \<noteq> 1 \<or> n = 0 \<or> DISK_PAYLOAD_MAX < n")
    case True
    then show ?thesis
      using av 1 sl m err disk_keeps_same [of s1 s]
      by (auto simp: disk_load_fs_def h_def [symmetric] n_def [symmetric] n0 Let_def)
  next
    case False
    let ?k = "unat ((dh_payload_size h + 512 - 1) div 512)"
    have "dh_payload_size h + 512 - 1 = dh_payload_size h + 511" by simp
    moreover have "unat (dh_payload_size h + 511) = n + 511"
      using unat_word_ariths(1) [of "dh_payload_size h" 511] False by (simp add: n_def)
    ultimately have k: "?k = (n + 511) div 512" by (simp only: unat_div_distrib) simp
    then have room: "\<forall>i \<in> set [0..<?k]. (i + 1) * 512 \<le> length (d_payload s1)" using False len by auto
    have "ata_ok (d_ata s1)" using 1(2) by (simp add: disk_ok_def)
    from read_range_safe [OF assms(2) this room] obtain r2 P a where 2: "read_range (ata_read_sector hw) (DISK_START_LBA + 1) (hw_payload_addr hw) [0..<?k] (d_payload s1) (d_ata s1)
        = Some (r2, P, a)" "ata_ok a" "length P = DISK_PAYLOAD_MAX"
      unfolding len(2) by blast
    have ck: "checksum_bytes P n = Some (checksum (take n P))" using False 2(3) by (simp add: checksum_bytes_eq)
    have le: "n \<le> length P" using False 2(3) by simp
    obtain r3 ns where 3: "load_spec (d_nodes s) P n = (r3, ns)" by fastforce
    have de: "fs_deserialize (d_nodes s) (Some P) n = Some (r3, ns)" using fs_deserialize_eq [OF le] 3 by simp
    have ns: "r3 = 0 \<and> fs_mem ns \<and> own_parent ns \<or> r3 = -1 \<and> (ns = d_nodes s \<or> ns = init_table)"
      using load_spec_cases [OF le 3] by (auto simp: root_ok_def own_parent_def)
    have init: "fs_mem init_table" using init_table_wf by blast
    define t where "t = s1\<lparr>d_payload := P, d_ata := a\<rparr>"
    have t: "disk_ok t" "d_nodes t = d_nodes s" using 1(2,3) 2(2,3) by (simp_all add: t_def disk_ok_def disk_sized_def)
    have ok: "disk_ok (t\<lparr>d_nodes := ns, d_error := e\<rparr>)" for e
      using t ns init by (auto simp: disk_ok_def disk_sized_def)
    have keep: "disk_keeps s (t\<lparr>d_nodes := ns, d_error := e\<rparr>)" if "r3 \<noteq> 0" for e
      using ok [of e] ns that in_table_init by (auto simp: disk_keeps_def)
    have keep1: "disk_keeps s (t\<lparr>d_error := e\<rparr>)" for e using t by (simp add: disk_keeps_same)
    have "disk_load_fs hw s =
        (if r2 \<noteq> 0 then Some (-1, t\<lparr>d_error := ata_last_error a\<rparr>)
         else if checksum (take n P) \<noteq> dh_checksum h then Some (-1, t\<lparr>d_error := ''checksum mismatch''\<rparr>)
         else if r3 \<noteq> 0 then Some (-1, t\<lparr>d_nodes := ns, d_error := ''filesystem decode failed''\<rparr>)
         else Some (0, t\<lparr>d_nodes := ns, d_error := ''ok''\<rparr>))"
      using av 1 sl m False 2(1) ck de
      by (simp add: disk_load_fs_def h_def [symmetric] n_def [symmetric] n0 t_def Let_def)
    then show ?thesis
      using ok keep keep1 t(1) ns by auto
  qed
qed

lemma disk_save_safe:
  assumes "disk_ok s"
  shows "\<exists>r s'. disk_save_fs hw s = Some (r, s') \<and> disk_ok s' \<and> d_nodes s' = d_nodes s"
proof (cases "disk_available s")
  case False
  with assms show ?thesis by (simp add: disk_save_fs_def)
next
  case av: True
  have mem: "fs_mem (d_nodes s)" using assms by (simp add: disk_ok_def)
  define im where "im = image (d_nodes s)"
  define P where "P = im @ drop IMAGE_SIZE (d_payload s)"
  have len: "length im = IMAGE_SIZE" "length P = DISK_PAYLOAD_MAX"
    using image_length [OF mem] assms by (simp_all add: im_def P_def disk_ok_def disk_sized_def)
  have ser: "fs_serialize (d_nodes s) (Some (d_payload s)) DISK_PAYLOAD_MAX = Some (IMAGE_SIZE, Some P)"
    using fs_serialize_eq [OF mem, of DISK_PAYLOAD_MAX "d_payload s"] assms
    by (simp add: P_def im_def disk_ok_def disk_sized_def)
  have mg: "kstrcpy (replicate 8 NUL) (c_str disk_magic) = Some (disk_magic @ [NUL])"
    by (simp add: loop_simps disk_magic_def)
  have ck: "checksum_bytes P IMAGE_SIZE = Some (checksum (take IMAGE_SIZE P))" using len by (simp add: checksum_bytes_eq)
  obtain H where H: "\<lparr>dh_magic = disk_magic @ [NUL], dh_version = 1, dh_payload_size = 530192,
      dh_checksum = checksum (take IMAGE_SIZE P)\<rparr> = H" "length (enc_disk_header H) = 20"
    using dhdr.enc_length [OF fs_header_sized, of 530192 "take IMAGE_SIZE P"] by (simp add: fs_header_def)
  have ms: "kmemset (d_sector s) 0 SECTOR_SIZE = Some (replicate 512 0)"
    using assms by (simp add: loop_simps disk_ok_def disk_sized_def)
  obtain sec where cp: "kmemcpy (replicate 512 0) (enc_disk_header H) DISK_HEADER_SIZE = Some sec" "length sec = 512"
    using H(2) by (simp add: loop_simps)
  have "disk_ok (s\<lparr>d_payload := P, d_sector := sec\<rparr>)" using assms len cp(2) by (simp add: disk_ok_def disk_sized_def)
  from write_g_sector_safe [OF this, of hw 2048] obtain r1 s1 where
    1: "write_g_sector hw 2048 (s\<lparr>d_payload := P, d_sector := sec\<rparr>) = Some (r1, s1)" "disk_ok s1" "d_nodes s1 = d_nodes s"
    by auto
  have "length (d_payload s1) = DISK_PAYLOAD_MAX" "ata_ok (d_ata s1)" using 1(2) by (simp_all add: disk_ok_def disk_sized_def)
  then have "\<forall>i \<in> set [0..<1036]. (i + 1) * 512 \<le> length (d_payload s1)" "ata_ok (d_ata s1)" by auto
  from write_range_safe [OF this(2,1)] obtain r2 a2 where
    2: "write_range (ata_write_sector hw) (DISK_START_LBA + 1) (hw_payload_addr hw) [0..<1036] (d_payload s1) (d_ata s1) = Some (r2, a2)"
      "ata_ok a2" by blast
  obtain r3 a3 where 3: "ata_flush hw a2 = Some (r3, a3)" "ata_ok a3" using ata_flush_safe [OF 2(2)] by blast
  have "disk_save_fs hw s =
      (if r1 \<noteq> 0 then Some (-1, s1)
       else if r2 \<noteq> 0 then Some (-1, s1\<lparr>d_ata := a2, d_error := ata_last_error a2\<rparr>)
       else Some (0, s1\<lparr>d_ata := a3, d_error := ''ok''\<rparr>))"
    using av ser mg ck ms cp 1(1) 2(1) 3(1) by (simp add: disk_save_fs_def Let_def H(1) del: upt_rec_numeral)
  moreover have "disk_ok (s1\<lparr>d_ata := a, d_error := e\<rparr>)" if "ata_ok a" for a e
    using 1(2) that by (simp add: disk_ok_def disk_sized_def)
  ultimately show ?thesis using 1(2,3) 2(2) 3(2) by auto
qed

lemma disk_format_safe:
  assumes "disk_ok s"
  shows "\<exists>r s'. disk_format_fs hw s = Some (r, s') \<and> disk_keeps s s' \<and> d_nodes s' = init_table"
proof -
  have "disk_ok (s\<lparr>d_nodes := init_table\<rparr>)"
    using assms init_table_wf by (auto simp: disk_ok_def disk_sized_def)
  from disk_save_safe [OF this, of hw] obtain r s1 where
    "disk_save_fs hw (s\<lparr>d_nodes := init_table\<rparr>) = Some (r, s1)" "disk_ok s1" "d_nodes s1 = init_table" by auto
  then show ?thesis using in_table_init by (simp add: disk_format_fs_def fs_init_eq disk_keeps_def)
qed

lemma disk_init_safe:
  assumes "disk_ok s" "busy_ends hw"
  shows "\<exists>s'. disk_init hw s = Some s' \<and> disk_ok s' \<and> d_nodes s' = d_nodes s"
proof -
  have "ata_ok (d_ata s)" using assms(1) by (simp add: disk_ok_def)
  from ata_scan_total [OF this assms(2)] obtain a where "ata_scan hw (d_ata s) = Some (g_device_count a, a)" "ata_ok a" by blast
  then show ?thesis using assms(1) by (simp add: disk_init_def disk_ok_def disk_sized_def)
qed

lemma kstrcpy_model41:
  assumes "model_ok m" "model_ok d"
  shows "\<exists>r. kstrcpy d m = Some r \<and> length r = 41 \<and> NUL \<in> set r"
proof -
  have m: "NUL \<in> set m" "length m = 41" "length d = 41" using assms by (simp_all add: model_ok_def)
  obtain t where "m = cstr m @ NUL # t" using cstr_split [OF m(1)] by blast
  moreover have "length (cstr m) < 41" using length_cstr_less [OF m(1)] m(2) by simp
  ultimately show ?thesis using m(3) kstrcpy_eq [of "cstr m" d t] by auto
qed

lemma ata_get_info_model:
  assumes "ata_ok s" "model_ok (in_model i)"
  shows "\<exists>r j. ata_get_info s k (Some i) = Some (r, Some j) \<and> model_ok (in_model j)"
proof (cases "k < 0 \<or> k \<ge> g_device_count s")
  case True
  with assms(2) show ?thesis by (auto simp: ata_get_info_def)
next
  case False
  then have k: "nat k < length (g_devices s)" "model_ok (dm_model (g_devices s ! nat k))"
    using assms(1) by (auto simp: ata_ok_def map_entry_ok_def)
  from kstrcpy_model41 [OF k(2) assms(2)] k(1) False assms(2) show ?thesis
    by (auto simp: ata_get_info_def model_ok_def)
qed

lemma zero_info_model: "model_ok (in_model zero_info)"
  by (simp add: zero_info_def model_ok_def)

lemma disk_get_info_safe:
  assumes "disk_ok s" "out = None \<or> length (in_model (the out)) = 41"
  shows "\<exists>r out'. disk_get_info s k out = Some (r, out')"
proof (cases out)
  case (Some o0)
  have "ata_ok (d_ata s)" using assms(1) by (simp add: disk_ok_def)
  from ata_get_info_model [OF this zero_info_model, of k] obtain r j where
    "ata_get_info (d_ata s) k (Some zero_info) = Some (r, Some j)" "length (in_model j) = 41" by (auto simp: model_ok_def)
  with Some assms(2) show ?thesis by (auto simp: disk_get_info_def loop_simps)
qed (simp add: disk_get_info_def)

lemma disk_select_safe:
  assumes "disk_ok s"
  shows "\<exists>r s'. disk_select s k = Some (r, s') \<and> disk_ok s' \<and> d_nodes s' = d_nodes s"
proof -
  have "ata_ok (d_ata s)" using assms by (simp add: disk_ok_def)
  then obtain r a where "ata_select_device (d_ata s) k = Some (r, a)" "ata_ok a" using ata_select_total by blast
  then show ?thesis using assms by (auto simp: disk_select_def disk_ok_def disk_sized_def Let_def)
qed

lemma install_kernel_safe:
  "disk_ok s \<Longrightarrow> \<forall>i \<in> set is. i * 512 < length (bl_kernel bl) \<Longrightarrow>
    \<exists>r s'. install_kernel hw bl is s = Some (r, s') \<and> disk_ok s' \<and> d_nodes s' = d_nodes s"
proof (induction "is" arbitrary: s)
  case Nil
  then show ?case by simp
next
  case (Cons i "is")
  let ?remain = "length (bl_kernel bl) - i * 512"
  have ms: "kmemset (d_sector s) 0 512 = Some (replicate 512 0)"
    using Cons.prems(1) by (simp add: loop_simps disk_ok_def disk_sized_def)
  define chunk where "chunk = (if ?remain \<ge> 512 then 512 else ?remain)"
  have "chunk \<le> 512" "chunk \<le> ?remain" by (simp_all add: chunk_def)
  then obtain sec where cp: "kmemcpy (replicate 512 0) (drop (i * 512) (bl_kernel bl)) chunk = Some sec" "length sec = 512"
    by (simp add: loop_simps)
  have "disk_ok (s\<lparr>d_sector := sec\<rparr>)" using Cons.prems(1) cp(2) by (simp add: disk_ok_def disk_sized_def)
  from write_g_sector_safe [OF this, of hw "KERNEL_LBA_START + word_of_nat i"] obtain r s1 where
    "write_g_sector hw (KERNEL_LBA_START + word_of_nat i) (s\<lparr>d_sector := sec\<rparr>) = Some (r, s1)" "disk_ok s1" "d_nodes s1 = d_nodes s"
    by auto
  with Cons.IH [of s1] Cons.prems(2) ms cp show ?case by (auto simp: chunk_def [symmetric] Let_def)
qed

lemma disk_install_safe:
  assumes "disk_ok s"
  shows "\<exists>r s'. disk_install_system hw bl s = Some (r, s') \<and> disk_ok s' \<and> d_nodes s' = d_nodes s"
proof -
  let ?K = "length (bl_kernel bl)"
  let ?n = "word_of_nat ((?K + 512 - 1) div 512) :: u32"
  obtain r i where info: "disk_get_info s (d_selected s) (Some zero_info) = Some (r, i)"
    using disk_get_info_safe [OF assms, of "Some zero_info" "d_selected s"] by (auto simp: zero_info_def)
  show ?thesis
  proof (cases "disk_available s \<and> \<not> (r = 0 \<and> in_sectors28 (the i) > 0 \<and> in_sectors28 (the i) < 2048 + 4096)
      \<and> 512 \<le> length (bl_bootsect bl) \<and> ?K \<noteq> 0 \<and> bl_entry bl < ?K \<and> ?n \<noteq> 0 \<and> \<not> ?n > 1920")
    case False
    with assms info show ?thesis by (auto simp: disk_install_system_def Let_def)
  next
    case True
    have size: "length (d_sector s) = 512" using assms by (simp add: disk_ok_def disk_sized_def)
    obtain b where b: "kmemcpy (d_sector s) (bl_bootsect bl) 512 = Some b" "length b = 512"
      using True size by (simp add: loop_simps)
    have upd: "disk_ok (t\<lparr>d_sector := x\<rparr>)" if "disk_ok t" "length x = 512" for t :: "'a disk" and x
      using that by (simp add: disk_ok_def disk_sized_def)
    obtain r1 s1 where 1: "write_g_sector hw 0 (s\<lparr>d_sector := b\<rparr>) = Some (r1, s1)" "disk_ok s1" "d_nodes s1 = d_nodes s"
      using write_g_sector_safe [OF upd [OF assms b(2)], of hw 0] by auto
    have mg: "kmemcpy (replicate 8 NUL) (c_str boot_magic) 8 = Some boot_magic" by (simp add: loop_simps boot_magic_def c_str_def)
    define inf where "inf = \<lparr>bi_magic = boot_magic, bi_kernel_size_bytes = word_of_nat ?K, bi_kernel_sectors = ?n,
      bi_entry_offset = word_of_nat (bl_entry bl)\<rparr>"
    have "length (enc_boot_info inf) = 512" by (simp add: inf_def enc_boot_info_def boot_magic_def)
    moreover have "length (d_sector s1) = 512" using 1(2) by (simp add: disk_ok_def disk_sized_def)
    ultimately obtain c where c: "kmemcpy (d_sector s1) (enc_boot_info inf) 512 = Some c" "length c = 512"
      by (simp add: loop_simps)
    obtain r2 s2 where 2: "write_g_sector hw 1 (s1\<lparr>d_sector := c\<rparr>) = Some (r2, s2)" "disk_ok s2" "d_nodes s2 = d_nodes s"
      using write_g_sector_safe [OF upd [OF 1(2) c(2)], of hw 1] 1(3) by auto
    have "unat ?n \<le> (?K + 512 - 1) div 512" by (simp add: unat_of_nat take_bit_nat_less_eq_self)
    then have "\<forall>i \<in> set [0..<unat ?n]. i * 512 < ?K" by auto
    from install_kernel_safe [OF 2(2) this] obtain r3 s3 where
      3: "install_kernel hw bl [0..<unat ?n] s2 = Some (r3, s3)" "disk_ok s3" "d_nodes s3 = d_nodes s" unfolding 2(3) by blast
    then have "ata_ok (d_ata s3)" by (simp add: disk_ok_def)
    then obtain r4 a4 where 4: "ata_flush hw (d_ata s3) = Some (r4, a4)" "ata_ok a4" using ata_flush_safe by blast
    have "disk_install_system hw bl s = (if r1 \<noteq> 0 then Some (-1, s1) else if r2 \<noteq> 0 then Some (-1, s2)
        else if r3 \<noteq> 0 then Some (-1, s3) else Some (0, s3\<lparr>d_ata := a4, d_error := ''ok''\<rparr>))"
    proof -
      have ok: "disk_available s" "(r = 0 \<and> 0 < in_sectors28 (the i) \<and> in_sectors28 (the i) < 6144) = False"
        using True by auto
      show ?thesis
        unfolding disk_install_system_def
        using True info b(1) 1(1) mg c(1) 2(1) 3(1) 4(1) by (simp add: ok inf_def Let_def)
    qed
    moreover have "disk_ok (s3\<lparr>d_ata := a4, d_error := ''ok''\<rparr>)" using 3(2) 4(2) by (simp add: disk_ok_def disk_sized_def)
    ultimately show ?thesis using 1 2 3 by auto
  qed
qed

end
