(* ===== verification/DiskRun.thy ===== *)
theory DiskRun
  imports DiskSafe
begin

text \<open>
  The disk layer and the file system as one machine, with the calls that a client can make on both.
  \<^theory_text>\<open>disk_run_safe\<close> is that no sequence of them is undefined, on any hardware and with any bytes
  on the disk.
\<close>

datatype disk_call =
    Init
  | Select_disk int
  | Info int "ata_device_info ptr"
  | Install blobs
  | Load
  | Save
  | Format
  | On_fs fs_call

fun disk_exec :: "'h hw \<Rightarrow> disk_call \<Rightarrow> 'h disk \<Rightarrow> (int \<times> 'h disk) option" where
  "disk_exec hw Init s = map_option (Pair 0) (disk_init hw s)"
| "disk_exec hw (Select_disk i) s = disk_select s i"
| "disk_exec hw (Info i out) s = map_option (\<lambda>r. (fst r, s)) (disk_get_info s i out)"
| "disk_exec hw (Install bl) s = disk_install_system hw bl s"
| "disk_exec hw Load s = disk_load_fs hw s"
| "disk_exec hw Save s = disk_save_fs hw s"
| "disk_exec hw Format s = disk_format_fs hw s"
| "disk_exec hw (On_fs call) s = map_option (\<lambda>(r, ns). (r, s\<lparr>d_nodes := ns\<rparr>)) (fs_exec call (d_nodes s))"

text \<open>A call of the file system starts at a node from which parents stay in the table, as the root does.\<close>

fun fs_call_safe :: "fs_call \<Rightarrow> fs \<Rightarrow> bool" where
  "fs_call_safe (Mkdir_as c p owner mode) ns \<longleftrightarrow> in_table ns c \<and> nul_free p"
| "fs_call_safe (Touch_as c p owner mode) ns \<longleftrightarrow> in_table ns c \<and> nul_free p"
| "fs_call_safe (Write_file c p data sz) ns \<longleftrightarrow> in_table ns c \<and> nul_free p \<and> buffer_ok data sz"
| "fs_call_safe (Remove c p) ns \<longleftrightarrow> in_table ns c \<and> nul_free p"
| "fs_call_safe (Set_owner k owner) ns \<longleftrightarrow> True"
| "fs_call_safe (Set_mode k mode) ns \<longleftrightarrow> True"

fun disk_call_ok :: "disk_call \<Rightarrow> 'h disk \<Rightarrow> bool" where
  "disk_call_ok (Info i out) s \<longleftrightarrow> out = None \<or> length (in_model (the out)) = 41"
| "disk_call_ok (On_fs call) s \<longleftrightarrow> fs_call_safe call (d_nodes s)"
| "disk_call_ok call s \<longleftrightarrow> True"

lemma fs_exec_safe:
  assumes "fs_mem ns" "fs_call_safe call ns"
  shows "\<exists>r ns'. fs_exec call ns = Some (r, ns') \<and> fs_keeps ns ns'"
  using assms by (cases call) (auto intro: fs_create_in fs_write_file_in fs_remove_in fs_attr_in)

lemma disk_exec_safe:
  assumes "disk_ok s \<and> busy_ends hw \<and> ram_exact hw" "disk_call_ok call s"
  shows "\<exists>r s'. disk_exec hw call s = Some (r, s') \<and> disk_ok s' \<and> busy_ends hw \<and> ram_exact hw"
proof -
  have ok: "disk_ok s" "busy_ends hw" "ram_exact hw" using assms(1) by simp_all
  show ?thesis
  proof (cases call)
    case Init
    with disk_init_safe [OF ok(1,2)] ok show ?thesis by auto
  next
    case (Select_disk i)
    with disk_select_safe [OF ok(1), of i] ok show ?thesis by auto
  next
    case (Info i out)
    with disk_get_info_safe [OF ok(1), of out i] ok assms(2) show ?thesis by auto
  next
    case (Install bl)
    with disk_install_safe [OF ok(1), of hw bl] ok show ?thesis by auto
  next
    case Load
    with disk_load_safe [OF ok(1,3)] ok show ?thesis by auto
  next
    case Save
    with disk_save_safe [OF ok(1), of hw] ok show ?thesis by auto
  next
    case Format
    with disk_format_safe [OF ok(1), of hw] ok show ?thesis by (auto simp: disk_keeps_def)
  next
    case (On_fs call)
    have "fs_mem (d_nodes s)" using ok(1) by (simp add: disk_ok_def)
    with fs_exec_safe [of "d_nodes s" call] assms(2) On_fs obtain r ns where
      "fs_exec call (d_nodes s) = Some (r, ns)" "fs_mem ns" by (auto simp: fs_keeps_def)
    with On_fs ok show ?thesis by (simp add: disk_ok_def disk_sized_def)
  qed
qed

interpretation diskm: guarded_machine "disk_exec hw" disk_call_ok "\<lambda>s. disk_ok s \<and> busy_ends hw \<and> ram_exact hw" for hw
  by unfold_locales (rule disk_exec_safe)

lemma disk_boot_ok: "fs_mem ns \<Longrightarrow> disk_ok (disk_boot h ns)"
  by (simp add: disk_ok_def disk_sized_def disk_boot_def ata_boot_ok)

text \<open>C8. No sequence of calls on the disk and the file system, in any order, leaves a buffer or a table or
  waits for ever: for any answers of the hardware, as long as no device stays busy for ever and reading
  memory gives as many bytes as asked for, and so for any bytes on the disk.\<close>

theorem disk_run_safe:
  assumes "busy_ends hw" "ram_exact hw" "fs_mem ns" "guarded (disk_exec hw) disk_call_ok calls (disk_boot h ns)"
  shows "\<exists>rs s. run (disk_exec hw) calls (disk_boot h ns) = Some (rs, s) \<and> disk_ok s"
  using diskm.run_inv [OF conjI [OF disk_boot_ok [OF assms(3)] conjI [OF assms(1,2)]] assms(4)] by blast

theorem disk_run_safe_witness:
  "\<exists>rs s. run (disk_exec bare_hw) [Init, Load, Format, On_fs (Mkdir_as 0 ''../etc'' 0 0), Save, Load] (disk_boot () init_table)
    = Some (rs, s) \<and> disk_ok s"
proof (rule disk_run_safe)
  show "busy_ends bare_hw" by (rule bare_busy_ends)
  show ram: "ram_exact bare_hw" by (simp add: ram_exact_def bare_hw_def)
  show mem: "fs_mem init_table" using init_table_wf by blast
  show "guarded (disk_exec bare_hw) disk_call_ok [Init, Load, Format, On_fs (Mkdir_as 0 ''../etc'' 0 0), Save, Load]
      (disk_boot () init_table)"
    by (rule diskm.guarded_always) (auto simp: disk_boot_ok mem bare_busy_ends ram at_root)
qed

end
