(* ===== verification/Shell.thy ===== *)
theory Shell
  imports Vga Keyboard Disk
begin

text \<open>
  kernel/shell.c, first half: the state of the shell, its number and line parsers and the commands on
  files. A command line is the list of the strings \<open>argv\<close> points to, \<open>argc\<close> being its length.
  The shell writes through kernel/vga.c, reads through kernel/keyboard.c and works on the disk state of
  kernel/disk.c, which holds the table of kernel/fs.c; all of them are parts of its state.
\<close>

abbreviation (input) SHELL_LINE_MAX :: nat where "SHELL_LINE_MAX \<equiv> 256"
abbreviation (input) SHELL_ARGV_MAX :: nat where "SHELL_ARGV_MAX \<equiv> 16"
abbreviation (input) SHELL_UID_ROOT :: u16 where "SHELL_UID_ROOT \<equiv> 0"
abbreviation (input) SHELL_UID_DEBIAN :: u16 where "SHELL_UID_DEBIAN \<equiv> 1000"

record package =
  pk_name :: string
  pk_installed :: bool
  pk_essential :: bool

definition package_repo_init :: "package list" where
  "package_repo_init =
     [\<lparr>pk_name = ''base'', pk_installed = True, pk_essential = True\<rparr>,
      \<lparr>pk_name = ''bash'', pk_installed = True, pk_essential = True\<rparr>,
      \<lparr>pk_name = ''coreutils'', pk_installed = True, pk_essential = True\<rparr>,
      \<lparr>pk_name = ''sudo'', pk_installed = True, pk_essential = True\<rparr>,
      \<lparr>pk_name = ''nano'', pk_installed = True, pk_essential = False\<rparr>,
      \<lparr>pk_name = ''less'', pk_installed = True, pk_essential = False\<rparr>,
      \<lparr>pk_name = ''network-manager'', pk_installed = True, pk_essential = False\<rparr>,
      \<lparr>pk_name = ''net-tools'', pk_installed = False, pk_essential = False\<rparr>,
      \<lparr>pk_name = ''curl'', pk_installed = False, pk_essential = False\<rparr>,
      \<lparr>pk_name = ''openssh-client'', pk_installed = False, pk_essential = False\<rparr>,
      \<lparr>pk_name = ''vim'', pk_installed = False, pk_essential = False\<rparr>,
      \<lparr>pk_name = ''git'', pk_installed = False, pk_essential = False\<rparr>]"

record wifi_ap =
  ap_ssid :: string
  ap_password :: "string ptr"

definition wifi_aps :: "wifi_ap list" where
  "wifi_aps = [\<lparr>ap_ssid = ''FurOS-Lab'', ap_password = Some ''furos123''\<rparr>,
     \<lparr>ap_ssid = ''DebianCafe'', ap_password = Some ''linuxmint''\<rparr>,
     \<lparr>ap_ssid = ''OpenGuest'', ap_password = None\<rparr>]"

record 'h shell =
  shell_cwd :: int
  shell_uid :: u16
  shell_exit :: bool
  apt_index_ready :: bool
  network_manager_running :: bool
  wifi_enabled :: bool
  wifi_connected :: bool
  wifi_ssid :: "char list"
  package_repo :: "package list"
  sh_disk :: "'h disk"
  sh_vga :: vga
  sh_kbd :: keyboard
  sh_polls :: "(u8 \<times> u8) list"

definition shell_boot :: "'h disk \<Rightarrow> vga \<Rightarrow> keyboard \<Rightarrow> (u8 \<times> u8) list \<Rightarrow> 'h shell" where
  "shell_boot d v k polls = \<lparr>shell_cwd = 0, shell_uid = SHELL_UID_DEBIAN, shell_exit = False, apt_index_ready = False,
     network_manager_running = True, wifi_enabled = True, wifi_connected = False,
     wifi_ssid = replicate (FS_MAX_NAME + 1) NUL, package_repo = package_repo_init,
     sh_disk = d, sh_vga = v, sh_kbd = k, sh_polls = polls\<rparr>"

abbreviation sh_fs :: "'h shell \<Rightarrow> fs" where "sh_fs s \<equiv> d_nodes (sh_disk s)"

subsection \<open>Calls of the other components\<close>

text \<open>Reading a buffer as a string needs its terminator.\<close>

definition c_string :: "char list \<Rightarrow> string option" where
  "c_string buf = (if NUL \<in> set buf then Some (cstr buf) else None)"

definition write_string :: "string \<Rightarrow> 'h shell \<Rightarrow> 'h shell option" where
  "write_string t s = do { v \<leftarrow> vga_write_string (sh_vga s) (Some t); Some (s\<lparr>sh_vga := v\<rparr>) }"

definition put_char :: "char \<Rightarrow> 'h shell \<Rightarrow> 'h shell option" where
  "put_char c s = do { v \<leftarrow> vga_putchar (sh_vga s) c; Some (s\<lparr>sh_vga := v\<rparr>) }"

definition set_color :: "u8 \<Rightarrow> u8 \<Rightarrow> 'h shell \<Rightarrow> 'h shell" where
  "set_color fg bg s = s\<lparr>sh_vga := vga_set_color (sh_vga s) fg bg\<rparr>"

definition on_fs :: "(fs \<Rightarrow> (int \<times> fs) option) \<Rightarrow> 'h shell \<Rightarrow> (int \<times> 'h shell) option" where
  "on_fs f s = do { (r, ns) \<leftarrow> f (sh_fs s); Some (r, s\<lparr>sh_disk := (sh_disk s)\<lparr>d_nodes := ns\<rparr>\<rparr>) }"

definition on_disk :: "('h disk \<Rightarrow> (int \<times> 'h disk) option) \<Rightarrow> 'h shell \<Rightarrow> (int \<times> 'h shell) option" where
  "on_disk f s = do { (r, d) \<leftarrow> f (sh_disk s); Some (r, s\<lparr>sh_disk := d\<rparr>) }"

definition shell_println :: "string \<Rightarrow> 'h shell \<Rightarrow> 'h shell option" where
  "shell_println t s = do { s \<leftarrow> write_string t s; write_string [LF] s }"

text \<open>Several \<open>shell_println\<close> in a row.\<close>

fun println_all :: "string list \<Rightarrow> 'h shell \<Rightarrow> 'h shell option" where
  "println_all [] s = Some s"
| "println_all (t # ts) s = do { s \<leftarrow> shell_println t s; println_all ts s }"

subsection \<open>Characters and numbers\<close>

definition is_space :: "char \<Rightarrow> bool" where
  "is_space c \<longleftrightarrow> c = CHR '' '' \<or> c = TAB"

text \<open>\<open>char\<close> is signed on the target: the codes from 128 on are negative, so not printable.\<close>

definition is_printable :: "char \<Rightarrow> bool" where
  "is_printable c \<longleftrightarrow> 32 \<le> code c \<and> code c \<le> 126"

definition is_digit :: "char \<Rightarrow> bool" where
  "is_digit c \<longleftrightarrow> code CHR ''0'' \<le> code c \<and> code c \<le> code CHR ''9''"

definition is_octal_digit :: "char \<Rightarrow> bool" where
  "is_octal_digit c \<longleftrightarrow> code CHR ''0'' \<le> code c \<and> code c \<le> code CHR ''7''"

definition digit_of :: "char \<Rightarrow> u32" where
  "digit_of c = word_of_nat (code c - code CHR ''0'')"

definition uid_to_name :: "u16 \<Rightarrow> string" where
  "uid_to_name uid = (if uid = SHELL_UID_ROOT then ''root'' else if uid = SHELL_UID_DEBIAN then ''debian'' else ''user'')"

text \<open>The parsers return the value they store through \<open>out\<close>; None is the result -1.\<close>

fun parse_u32_loop :: "string \<Rightarrow> u32 \<Rightarrow> u32 option" where
  "parse_u32_loop [] v = Some v"
| "parse_u32_loop (c # s) v = (if \<not> is_digit c then None else parse_u32_loop s (v * 10 + digit_of c))"

definition parse_u32 :: "string ptr \<Rightarrow> u32 option" where
  "parse_u32 str = (case str of None \<Rightarrow> None | Some s \<Rightarrow> if s = [] then None else parse_u32_loop s 0)"

fun parse_mode_loop :: "string \<Rightarrow> u32 \<Rightarrow> u32 option" where
  "parse_mode_loop [] v = Some v"
| "parse_mode_loop (c # s) v =
     (if \<not> is_octal_digit c then None
      else let v' = push_bit 3 v + digit_of c in if v' > 0x1FF then None else parse_mode_loop s v')"

definition parse_mode_octal :: "string ptr \<Rightarrow> u16 option" where
  "parse_mode_octal str = (case str of None \<Rightarrow> None
     | Some s \<Rightarrow> if s = [] then None else map_option ucast (parse_mode_loop s 0))"

definition parse_uid :: "string ptr \<Rightarrow> u16 option" where
  "parse_uid nm = (case nm of None \<Rightarrow> None
     | Some n \<Rightarrow> if streq n ''root'' then Some SHELL_UID_ROOT
         else if streq n ''debian'' then Some SHELL_UID_DEBIAN
         else case parse_u32 (Some n) of None \<Rightarrow> None
           | Some numeric \<Rightarrow> if numeric > 65535 then None else Some (ucast numeric))"

definition require_root :: "u16 \<Rightarrow> 'h shell \<Rightarrow> (int \<times> 'h shell) option" where
  "require_root uid s =
     (if uid \<noteq> SHELL_UID_ROOT
      then do { s \<leftarrow> shell_println ''permission denied (requires root, use sudo)'' s; Some (-1, s) }
      else Some (0, s))"

text \<open>Decimal digits, least significant first, into a buffer of 12 bytes.\<close>

function uint_digits :: "u32 \<Rightarrow> char list \<Rightarrow> nat \<Rightarrow> (char list \<times> nat) option" where
  "uint_digits v buf i =
     (if v > 0 \<and> i < 11
      then do { buf \<leftarrow> wr buf i (char_of (code CHR ''0'' + unat (v mod 10))); uint_digits (v div 10) buf (i + 1) }
      else Some (buf, i))"
  by pat_completeness auto
termination by (relation "measure (\<lambda>(v, buf, i). 11 - i)") auto

declare uint_digits.simps [simp del]

fun print_digits :: "nat list \<Rightarrow> char list \<Rightarrow> 'h shell \<Rightarrow> 'h shell option" where
  "print_digits [] buf s = Some s"
| "print_digits (j # js) buf s = do { c \<leftarrow> rd buf j; s \<leftarrow> put_char c s; print_digits js buf s }"

definition shell_print_uint :: "u32 \<Rightarrow> 'h shell \<Rightarrow> 'h shell option" where
  "shell_print_uint v s =
     (if v = 0 then put_char (CHR ''0'') s
      else do { (buf, i) \<leftarrow> uint_digits v (replicate 12 NUL) 0; print_digits (rev [0..<i]) buf s })"

end
