(* ===== verification/ShellCmds.thy ===== *)
theory ShellCmds
  imports Shell
begin

text \<open>
  kernel/shell.c: the commands on files and users, and on the disk.
\<close>

subsection \<open>Parents of paths\<close>

text \<open>The result None is \<open>return -1\<close>, Some the value stored through \<open>parent_out\<close> with \<open>return 0\<close>.\<close>

definition resolve_parent_path :: "string ptr \<Rightarrow> 'h shell \<Rightarrow> int option option" where
  "resolve_parent_path path s =
     (case path of
        None \<Rightarrow> Some None
      | Some p \<Rightarrow> do {
          len \<leftarrow> kstrlen (Some (c_str p));
          if len = 0 then Some None
          else case last_slash p 0 None of
            None \<Rightarrow> Some (Some (shell_cwd s))
          | Some slash \<Rightarrow>
              if slash = len - 1 then Some None
              else if slash = 0 then Some (Some fs_get_root)
              else if slash \<ge> 128 then Some None
              else do {
                parent_path \<leftarrow> kmemcpy (replicate 128 NUL) (c_str p) slash;
                parent_path \<leftarrow> wr parent_path slash NUL;
                parent \<leftarrow> fs_resolve (sh_fs s) (shell_cwd s) (Some (cstr parent_path));
                if parent \<ge> 0 then do {
                  d \<leftarrow> fs_is_dir (sh_fs s) parent;
                  Some (if d then Some parent else None) }
                else Some None } })"

definition ensure_parent_writable :: "string ptr \<Rightarrow> u16 \<Rightarrow> 'h shell \<Rightarrow> (int \<times> 'h shell) option" where
  "ensure_parent_writable path uid s = do {
     r \<leftarrow> resolve_parent_path path s;
     case r of
       None \<Rightarrow> do { s \<leftarrow> shell_println ''path: invalid parent'' s; Some (-1, s) }
     | Some parent \<Rightarrow> do {
         ok \<leftarrow> fs_check_access (sh_fs s) parent uid (FS_ACCESS_WRITE OR FS_ACCESS_EXEC);
         if \<not> ok then do { s \<leftarrow> shell_println ''permission denied'' s; Some (-1, s) }
         else Some (0, s) } }"

text \<open>Returns the result of \<open>fs_make_path\<close> and the buffer.\<close>

definition shell_build_path :: "int \<Rightarrow> char list \<Rightarrow> 'h shell \<Rightarrow> (int \<times> char list) option" where
  "shell_build_path node out s = do {
     (r, out) \<leftarrow> fs_make_path (sh_fs s) node (Some out) (length out);
     if r \<noteq> 0 then Some (-1, out) else Some (0, out) }"

definition shell_prompt :: "'h shell \<Rightarrow> 'h shell option" where
  "shell_prompt s = do {
     (r, path) \<leftarrow> shell_build_path (shell_cwd s) (replicate 128 NUL) s;
     path \<leftarrow> (if r \<noteq> 0 then kstrcpy path (c_str ''/'') else Some path);
     s \<leftarrow> write_string (uid_to_name (shell_uid s)) s;
     s \<leftarrow> write_string ''@furos:'' s;
     p \<leftarrow> c_string path;
     s \<leftarrow> write_string p s;
     write_string (if shell_uid s = SHELL_UID_ROOT then '' # '' else '' $ '') s }"

subsection \<open>Files and directories\<close>

definition cmd_help :: "'h shell \<Rightarrow> 'h shell option" where
  "cmd_help s = println_all
     [''FurOS 1.0 (Debian-based) -- available commands:'',
      '''',
      ''  File system:'',
      ''    pwd                     print working directory'',
      ''    ls [path]               list directory contents'',
      ''    cd <path>               change directory'',
      ''    mkdir <path>            create directory'',
      ''    touch <path>            create empty file'',
      ''    cat <file>              print file contents'',
      ''    write <file> <text>     write text to file'',
      ''    nano <file>             edit file (Ctrl+S save, Ctrl+X exit)'',
      ''    rm <path>               remove file or empty directory'',
      ''    chmod <mode> <path>     change permissions (octal, e.g. 755)'',
      ''    chown <user> <path>     change file owner (root only)'',
      '''',
      ''  Users:'',
      ''    whoami                  print current user name'',
      ''    id                      print uid/gid/groups'',
      ''    sudo <command>          run command as root'',
      '''',
      ''  System:'',
      ''    help                    show this help'',
      ''    clear                   clear the screen'',
      ''    logout / exit           return to the desktop'',
      ''    install                 install FurOS to disk'',
      ''    disk info|load|save|format'',
      ''    sync                    save filesystem to disk'',
      '''',
      ''  Packages:'',
      ''    apt update              refresh package index'',
      ''    apt list                list all packages'',
      ''    apt install <pkg>       install a package'',
      ''    apt remove <pkg>        remove a package'',
      '''',
      ''  Network:'',
      ''    networkmanager status|start|stop|restart'',
      ''    nmcli general|device|connection|radio|networking ...'',
      ''    ifconfig                show network interfaces''] s"

fun print_entries :: "int list \<Rightarrow> 'h shell \<Rightarrow> 'h shell option" where
  "print_entries [] s = Some s"
| "print_entries (e # es) s = do {
     nm \<leftarrow> fs_get_name (sh_fs s) e;
     case nm of
       None \<Rightarrow> print_entries es s
     | Some name_buf \<Rightarrow> do {
         name \<leftarrow> c_string name_buf;
         s \<leftarrow> write_string name s;
         d \<leftarrow> fs_is_dir (sh_fs s) e;
         s \<leftarrow> (if d then write_string ''/'' s else Some s);
         s \<leftarrow> write_string [LF] s;
         print_entries es s } }"

definition cmd_ls :: "string list \<Rightarrow> u16 \<Rightarrow> 'h shell \<Rightarrow> 'h shell option" where
  "cmd_ls argv uid s = do {
     target \<leftarrow> (if length argv > 1 then fs_resolve (sh_fs s) (shell_cwd s) (Some (argv ! 1)) else Some (shell_cwd s));
     if target < 0 then shell_println ''ls: path not found'' s
     else do {
       d \<leftarrow> fs_is_dir (sh_fs s) target;
       if \<not> d then shell_println ''ls: not a directory'' s
       else do {
         ok \<leftarrow> fs_check_access (sh_fs s) target uid (FS_ACCESS_READ OR FS_ACCESS_EXEC);
         if \<not> ok then shell_println ''ls: permission denied'' s
         else do {
           (count, entries) \<leftarrow> fs_list (sh_fs s) target (replicate FS_MAX_NODES 0) FS_MAX_NODES;
           if count \<le> 0 then shell_println ''(empty)'' s
           else do {
             es \<leftarrow> slice entries 0 (nat count);
             print_entries es s } } } } }"

definition cmd_pwd :: "'h shell \<Rightarrow> 'h shell option" where
  "cmd_pwd s = do {
     (r, path) \<leftarrow> shell_build_path (shell_cwd s) (replicate 128 NUL) s;
     if r \<noteq> 0 then shell_println ''/'' s
     else do { p \<leftarrow> c_string path; shell_println p s } }"

definition cmd_cd :: "string list \<Rightarrow> u16 \<Rightarrow> 'h shell \<Rightarrow> 'h shell option" where
  "cmd_cd argv uid s =
     (if length argv < 2 then Some (s\<lparr>shell_cwd := fs_get_root\<rparr>)
      else do {
        target \<leftarrow> fs_resolve (sh_fs s) (shell_cwd s) (Some (argv ! 1));
        d \<leftarrow> (if target < 0 then Some False else fs_is_dir (sh_fs s) target);
        if \<not> d then shell_println ''cd: directory not found'' s
        else do {
          ok \<leftarrow> fs_check_access (sh_fs s) target uid FS_ACCESS_EXEC;
          if \<not> ok then shell_println ''cd: permission denied'' s
          else Some (s\<lparr>shell_cwd := target\<rparr>) } })"

definition cmd_mkdir :: "string list \<Rightarrow> u16 \<Rightarrow> 'h shell \<Rightarrow> 'h shell option" where
  "cmd_mkdir argv uid s =
     (if length argv < 2 then shell_println ''mkdir: missing operand'' s
      else do {
        existing \<leftarrow> fs_resolve (sh_fs s) (shell_cwd s) (Some (argv ! 1));
        if existing \<ge> 0 then do {
          d \<leftarrow> fs_is_dir (sh_fs s) existing;
          if d then Some s else shell_println ''mkdir: path exists as file'' s }
        else do {
          (r, s) \<leftarrow> ensure_parent_writable (Some (argv ! 1)) uid s;
          if r \<noteq> 0 then Some s
          else do {
            (r, s) \<leftarrow> on_fs (\<lambda>ns. fs_mkdir_as ns (shell_cwd s) (Some (argv ! 1)) uid FS_DEFAULT_DIR_MODE) s;
            if r \<noteq> 0 then shell_println ''mkdir: failed'' s else Some s } } })"

definition cmd_touch :: "string list \<Rightarrow> u16 \<Rightarrow> 'h shell \<Rightarrow> 'h shell option" where
  "cmd_touch argv uid s =
     (if length argv < 2 then shell_println ''touch: missing operand'' s
      else do {
        node \<leftarrow> fs_resolve (sh_fs s) (shell_cwd s) (Some (argv ! 1));
        if node \<ge> 0 then do {
          d \<leftarrow> fs_is_dir (sh_fs s) node;
          if d then shell_println ''touch: is a directory'' s
          else do {
            ok \<leftarrow> fs_check_access (sh_fs s) node uid FS_ACCESS_WRITE;
            if \<not> ok then shell_println ''touch: permission denied'' s else Some s } }
        else do {
          (r, s) \<leftarrow> ensure_parent_writable (Some (argv ! 1)) uid s;
          if r \<noteq> 0 then Some s
          else do {
            (r, s) \<leftarrow> on_fs (\<lambda>ns. fs_touch_as ns (shell_cwd s) (Some (argv ! 1)) uid FS_DEFAULT_FILE_MODE) s;
            if r \<noteq> 0 then shell_println ''touch: failed'' s else Some s } } })"

definition cmd_cat :: "string list \<Rightarrow> u16 \<Rightarrow> 'h shell \<Rightarrow> 'h shell option" where
  "cmd_cat argv uid s =
     (if length argv < 2 then shell_println ''cat: missing operand'' s
      else do {
        node \<leftarrow> fs_resolve (sh_fs s) (shell_cwd s) (Some (argv ! 1));
        d \<leftarrow> (if node < 0 then Some True else fs_is_dir (sh_fs s) node);
        if d then shell_println ''cat: file not found'' s
        else do {
          ok \<leftarrow> fs_check_access (sh_fs s) node uid FS_ACCESS_READ;
          if \<not> ok then shell_println ''cat: permission denied'' s
          else do {
            f \<leftarrow> fs_read_file (sh_fs s) (shell_cwd s) (Some (argv ! 1));
            case f of
              None \<Rightarrow> shell_println ''cat: file not found'' s
            | Some (data, sz) \<Rightarrow>
                if sz = 0 then shell_println ''(empty file)'' s
                else do {
                  t \<leftarrow> c_string data;
                  s \<leftarrow> write_string t s;
                  c \<leftarrow> rd data (sz - 1);
                  if c \<noteq> LF then write_string [LF] s else Some s } } } })"

text \<open>The loop of \<open>cmd_write\<close>: the arguments from the third on, joined by spaces in the buffer.\<close>

fun join_args :: "string list \<Rightarrow> char list \<Rightarrow> nat \<Rightarrow> (char list \<times> nat) option" where
  "join_args [] buf pos = Some (buf, pos)"
| "join_args (a # as) buf pos = do {
     len \<leftarrow> kstrlen (Some (c_str a));
     if pos + len + 2 \<ge> FS_MAX_FILE_SIZE then Some (buf, pos)
     else do {
       buf \<leftarrow> kmemcpy_at buf pos (c_str a) len;
       if as \<noteq> [] then do { buf \<leftarrow> wr buf (pos + len) (CHR '' ''); join_args as buf (pos + len + 1) }
       else join_args as buf (pos + len) } }"

definition cmd_write :: "string list \<Rightarrow> 'h shell \<Rightarrow> 'h shell option" where
  "cmd_write argv s =
     (if length argv < 3 then shell_println ''write: usage write <file> <text>'' s
      else do {
        (buf, pos) \<leftarrow> join_args (drop 2 argv) (replicate FS_MAX_FILE_SIZE NUL) 0;
        buf \<leftarrow> wr buf pos NUL;
        (r, s) \<leftarrow> on_fs (\<lambda>ns. fs_write_file ns (shell_cwd s) (Some (argv ! 1)) (Some buf) pos) s;
        if r \<noteq> 0 then shell_println ''write: failed'' s else Some s })"

definition cmd_rm :: "string list \<Rightarrow> 'h shell \<Rightarrow> 'h shell option" where
  "cmd_rm argv s =
     (if length argv < 2 then shell_println ''rm: missing operand'' s
      else do {
        (r, s) \<leftarrow> on_fs (\<lambda>ns. fs_remove ns (shell_cwd s) (Some (argv ! 1))) s;
        if r \<noteq> 0 then shell_println ''rm: failed (path missing or directory not empty)'' s else Some s })"

subsection \<open>Users\<close>

definition cmd_whoami :: "'h shell \<Rightarrow> 'h shell option" where
  "cmd_whoami s = shell_println (uid_to_name (shell_uid s)) s"

definition cmd_id :: "'h shell \<Rightarrow> 'h shell option" where
  "cmd_id s = do {
     let uid = shell_uid s;
     let name = uid_to_name uid;
     s \<leftarrow> write_string ''uid='' s;
     s \<leftarrow> shell_print_uint (ucast uid) s;
     s \<leftarrow> write_string ''('' s;
     s \<leftarrow> write_string name s;
     s \<leftarrow> write_string '') gid='' s;
     s \<leftarrow> shell_print_uint (ucast uid) s;
     s \<leftarrow> write_string ''('' s;
     s \<leftarrow> write_string name s;
     s \<leftarrow> write_string '') groups='' s;
     s \<leftarrow> shell_print_uint (ucast uid) s;
     s \<leftarrow> write_string ''('' s;
     s \<leftarrow> write_string name s;
     s \<leftarrow> write_string '')'' s;
     s \<leftarrow> (if uid \<noteq> SHELL_UID_ROOT then write_string '',27(sudo)'' s else Some s);
     write_string [LF] s }"

text \<open>\<open>fs_get_owner\<close> returns an \<open>int\<close>, which \<open>cmd_chmod\<close> casts to 16 bits.\<close>

definition cmd_chmod :: "string list \<Rightarrow> u16 \<Rightarrow> 'h shell \<Rightarrow> 'h shell option" where
  "cmd_chmod argv uid s =
     (if length argv < 3 then shell_println ''chmod: usage chmod <mode> <path>'' s
      else case parse_mode_octal (Some (argv ! 1)) of
        None \<Rightarrow> shell_println ''chmod: invalid mode (use octal, e.g. 755)'' s
      | Some mode \<Rightarrow> do {
          node \<leftarrow> fs_resolve (sh_fs s) (shell_cwd s) (Some (argv ! 2));
          if node < 0 then shell_println ''chmod: path not found'' s
          else do {
            owner \<leftarrow> fs_get_owner (sh_fs s) node;
            if uid \<noteq> SHELL_UID_ROOT \<and> word_of_int owner \<noteq> uid then shell_println ''chmod: permission denied'' s
            else do { (_, s) \<leftarrow> on_fs (\<lambda>ns. fs_set_mode ns node mode) s; Some s } } })"

definition cmd_chown :: "string list \<Rightarrow> u16 \<Rightarrow> 'h shell \<Rightarrow> 'h shell option" where
  "cmd_chown argv uid s =
     (if length argv < 3 then shell_println ''chown: usage chown <user> <path>'' s
      else do {
        (r, s) \<leftarrow> require_root uid s;
        if r \<noteq> 0 then Some s
        else case parse_uid (Some (argv ! 1)) of
          None \<Rightarrow> shell_println ''chown: invalid user (use root, debian, or numeric uid)'' s
        | Some new_owner \<Rightarrow> do {
            node \<leftarrow> fs_resolve (sh_fs s) (shell_cwd s) (Some (argv ! 2));
            if node < 0 then shell_println ''chown: path not found'' s
            else do { (_, s) \<leftarrow> on_fs (\<lambda>ns. fs_set_owner ns node new_owner) s; Some s } } })"

end
