(* ===== verification/ShellNet.thy ===== *)
theory ShellNet
  imports Shell
begin

text \<open>
  kernel/shell.c: the packages and the simulated network.
\<close>

subsection \<open>Packages\<close>

text \<open>\<open>package_find\<close> returns a pointer into the repository, here the index.\<close>

fun package_find_loop :: "package list \<Rightarrow> nat \<Rightarrow> string \<Rightarrow> nat ptr" where
  "package_find_loop [] i nm = None"
| "package_find_loop (p # ps) i nm = (if streq (pk_name p) nm then Some i else package_find_loop ps (i + 1) nm)"

definition package_find :: "string \<Rightarrow> 'h shell \<Rightarrow> nat ptr" where
  "package_find nm s = package_find_loop (package_repo s) 0 nm"

fun installed_loop :: "package list \<Rightarrow> string \<Rightarrow> bool" where
  "installed_loop [] nm = False"
| "installed_loop (p # ps) nm = (if streq (pk_name p) nm then pk_installed p else installed_loop ps nm)"

definition package_is_installed :: "string \<Rightarrow> 'h shell \<Rightarrow> bool" where
  "package_is_installed nm s = installed_loop (package_repo s) nm"

fun find_ap_loop :: "wifi_ap list \<Rightarrow> string \<Rightarrow> wifi_ap ptr" where
  "find_ap_loop [] ssid = None"
| "find_ap_loop (a # as) ssid = (if streq (ap_ssid a) ssid then Some a else find_ap_loop as ssid)"

definition find_wifi_ap :: "string \<Rightarrow> wifi_ap ptr" where
  "find_wifi_ap ssid = find_ap_loop wifi_aps ssid"

definition network_ready :: "'h shell \<Rightarrow> bool" where
  "network_ready s \<longleftrightarrow> package_is_installed ''network-manager'' s \<and> network_manager_running s
     \<and> wifi_enabled s \<and> wifi_connected s"

definition sync_state_with_packages :: "'h shell \<Rightarrow> 'h shell option" where
  "sync_state_with_packages s =
     (if \<not> package_is_installed ''network-manager'' s then do {
        ssid \<leftarrow> wr (wifi_ssid s) 0 NUL;
        Some (s\<lparr>network_manager_running := False, wifi_enabled := False, wifi_connected := False, wifi_ssid := ssid\<rparr>) }
      else Some s)"

fun print_packages :: "package list \<Rightarrow> 'h shell \<Rightarrow> 'h shell option" where
  "print_packages [] s = Some s"
| "print_packages (p # ps) s = do {
     s \<leftarrow> write_string ''  '' s;
     s \<leftarrow> write_string (pk_name p) s;
     s \<leftarrow> write_string ''/bookworm  '' s;
     s \<leftarrow> write_string (if pk_installed p then ''[installed]'' else ''[available]'') s;
     s \<leftarrow> (if pk_essential p then write_string '' [essential]'' s else Some s);
     s \<leftarrow> write_string [LF] s;
     print_packages ps s }"

definition apt_update :: "'h shell \<Rightarrow> 'h shell option" where
  "apt_update s = do {
     s \<leftarrow> println_all
       [''Get:1 http://deb.furos.org/furos bookworm InRelease'',
        ''Get:2 http://deb.debian.org/debian bookworm InRelease'',
        ''Get:3 http://deb.debian.org/debian bookworm-updates InRelease'',
        ''Get:4 http://security.debian.org bookworm-security InRelease'',
        ''Reading package lists... Done'',
        ''Building dependency tree... Done''] s;
     Some (s\<lparr>apt_index_ready := True\<rparr>) }"

definition apt_install :: "string \<Rightarrow> 'h shell \<Rightarrow> 'h shell option" where
  "apt_install nm s =
     (case package_find nm s of
        None \<Rightarrow> do {
          s \<leftarrow> write_string (''apt: package '' @ [CHR 0x27]) s;
          s \<leftarrow> write_string nm s;
          write_string (CHR 0x27 # '' not found in sources'' @ [LF]) s }
      | Some i \<Rightarrow> do {
          pkg \<leftarrow> rd (package_repo s) i;
          if pk_installed pkg then do {
            s \<leftarrow> write_string (pk_name pkg) s;
            shell_println '' is already the newest version.'' s }
          else do {
            s \<leftarrow> write_string ''Selecting previously unselected package '' s;
            s \<leftarrow> write_string (pk_name pkg) s;
            s \<leftarrow> write_string (''.'' @ [LF]) s;
            s \<leftarrow> shell_println ''Unpacking ... Setting up ... Done.'' s;
            repo \<leftarrow> wr (package_repo s) i (pkg\<lparr>pk_installed := True\<rparr>);
            sync_state_with_packages (s\<lparr>package_repo := repo\<rparr>) } })"

definition apt_remove :: "string \<Rightarrow> 'h shell \<Rightarrow> 'h shell option" where
  "apt_remove nm s =
     (case package_find nm s of
        None \<Rightarrow> do {
          s \<leftarrow> write_string (''apt: package '' @ [CHR 0x27]) s;
          s \<leftarrow> write_string nm s;
          write_string (CHR 0x27 # '' not found'' @ [LF]) s }
      | Some i \<Rightarrow> do {
          pkg \<leftarrow> rd (package_repo s) i;
          if pk_essential pkg then do {
            s \<leftarrow> write_string (''apt: refusing to remove essential package '' @ [CHR 0x27]) s;
            s \<leftarrow> write_string (pk_name pkg) s;
            write_string [CHR 0x27, LF] s }
          else if \<not> pk_installed pkg then do {
            s \<leftarrow> write_string (pk_name pkg) s;
            shell_println '' is not installed.'' s }
          else do {
            s \<leftarrow> write_string ''Removing '' s;
            s \<leftarrow> write_string (pk_name pkg) s;
            s \<leftarrow> write_string ('' ... Done.'' @ [LF]) s;
            repo \<leftarrow> wr (package_repo s) i (pkg\<lparr>pk_installed := False\<rparr>);
            sync_state_with_packages (s\<lparr>package_repo := repo\<rparr>) } })"

definition cmd_apt :: "string list \<Rightarrow> 'h shell \<Rightarrow> 'h shell option" where
  "cmd_apt argv s =
     (if length argv < 2 then shell_println ''apt: usage apt update|list|install|remove <pkg>'' s
      else if streq (argv ! 1) ''update'' then apt_update s
      else if streq (argv ! 1) ''list'' then do {
        s \<leftarrow> shell_println ''Listing packages:'' s;
        print_packages (package_repo s) s }
      else if length argv < 3 then shell_println ''apt: package name required'' s
      else if streq (argv ! 1) ''install'' then apt_install (argv ! 2) s
      else if streq (argv ! 1) ''remove'' then apt_remove (argv ! 2) s
      else do {
        s \<leftarrow> write_string (''apt: unknown subcommand '' @ [CHR 0x27]) s;
        s \<leftarrow> write_string (argv ! 1) s;
        write_string (CHR 0x27 # '' (update|list|install|remove)'' @ [LF]) s })"

subsection \<open>The network manager\<close>

definition cmd_networkmanager :: "string list \<Rightarrow> 'h shell \<Rightarrow> 'h shell option" where
  "cmd_networkmanager argv s =
     (if length argv < 2 then shell_println ''networkmanager: usage networkmanager status|start|stop|restart'' s
      else if \<not> package_is_installed ''network-manager'' s
      then shell_println ''networkmanager: not installed (try: sudo apt install network-manager)'' s
      else if streq (argv ! 1) ''status'' then do {
        s \<leftarrow> write_string ''NetworkManager: '' s;
        shell_println (if network_manager_running s then ''active (running)'' else ''inactive (stopped)'') s }
      else if streq (argv ! 1) ''start'' then shell_println ''Started NetworkManager'' (s\<lparr>network_manager_running := True\<rparr>)
      else if streq (argv ! 1) ''stop''
      then shell_println ''Stopped NetworkManager'' (s\<lparr>network_manager_running := False, wifi_connected := False\<rparr>)
      else if streq (argv ! 1) ''restart''
      then shell_println ''Restarted NetworkManager'' (s\<lparr>network_manager_running := True\<rparr>)
      else shell_println ''networkmanager: unknown subcommand (status|start|stop|restart)'' s)"

definition nmcli_general :: "'h shell \<Rightarrow> 'h shell option" where
  "nmcli_general s = do {
     s \<leftarrow> shell_println ''STATE      CONNECTIVITY  WIFI-HW  WIFI     WWAN-HW  WWAN'' s;
     if wifi_connected s then write_string (''connected  full          enabled  enabled  enabled  enabled'' @ [LF]) s
     else do {
       s \<leftarrow> write_string ''disconnected  none       enabled  '' s;
       s \<leftarrow> write_string (if wifi_enabled s then ''enabled  '' else ''disabled '') s;
       write_string (''enabled  enabled'' @ [LF]) s } }"

definition nmcli_device_status :: "'h shell \<Rightarrow> 'h shell option" where
  "nmcli_device_status s = do {
     s \<leftarrow> shell_println ''DEVICE  TYPE      STATE         CONNECTION'' s;
     s \<leftarrow> write_string ''wlan0   wifi      '' s;
     s \<leftarrow> (if wifi_connected s then do {
             s \<leftarrow> write_string ''connected     '' s;
             ssid \<leftarrow> c_string (wifi_ssid s);
             write_string ssid s }
           else if wifi_enabled s then write_string ''disconnected  --'' s
           else write_string ''unavailable   --'' s);
     s \<leftarrow> write_string [LF] s;
     shell_println ''lo      loopback  unmanaged     --'' s }"

fun print_aps :: "wifi_ap list \<Rightarrow> 'h shell \<Rightarrow> 'h shell option" where
  "print_aps [] s = Some s"
| "print_aps (a # as) s = do {
     active \<leftarrow> (if wifi_connected s then do { ssid \<leftarrow> c_string (wifi_ssid s); Some (streq ssid (ap_ssid a)) } else Some False);
     s \<leftarrow> write_string (if active then ''*  '' else ''   '') s;
     s \<leftarrow> write_string (ap_ssid a) s;
     s \<leftarrow> write_string ''  Infra  6     54 Mbit/s  75      ***   '' s;
     s \<leftarrow> write_string (if ap_password a \<noteq> None then ''WPA2'' else ''--'') s;
     s \<leftarrow> write_string [LF] s;
     print_aps as s }"

definition nmcli_connect :: "string list \<Rightarrow> 'h shell \<Rightarrow> 'h shell option" where
  "nmcli_connect argv s =
     (if length argv < 5 then shell_println ''nmcli: usage nmcli device wifi connect <ssid> [password <pw>]'' s
      else case find_wifi_ap (argv ! 4) of
        None \<Rightarrow> shell_println ''Error: No network with SSID found.'' s
      | Some ap \<Rightarrow>
          if \<not> wifi_enabled s then shell_println ''Error: wifi radio is disabled.'' s
          else if ap_password ap \<noteq> None \<and> (length argv < 7 \<or> \<not> streq (argv ! 5) ''password'')
          then shell_println ''Error: 802-11-wireless-security.psk: password required.'' s
          else if ap_password ap \<noteq> None \<and> \<not> streq (argv ! 6) (the (ap_password ap))
          then shell_println ''Error: Secrets were required, but not provided.'' s
          else do {
            ssid \<leftarrow> kstrncpy (wifi_ssid s) (c_str (argv ! 4)) FS_MAX_NAME;
            ssid \<leftarrow> wr ssid FS_MAX_NAME NUL;
            let s = s\<lparr>wifi_connected := True, wifi_ssid := ssid\<rparr>;
            s \<leftarrow> write_string (''Device '' @ CHR 0x27 # ''wlan0'' @ CHR 0x27 # '' successfully activated with network '' @ [CHR 0x27]) s;
            t \<leftarrow> c_string ssid;
            s \<leftarrow> write_string t s;
            write_string [CHR 0x27, LF] s })"

definition nmcli_device :: "string list \<Rightarrow> 'h shell \<Rightarrow> 'h shell option" where
  "nmcli_device argv s =
     (if length argv < 3 \<or> streq (argv ! 2) ''status'' then nmcli_device_status s
      else if streq (argv ! 2) ''wifi'' then
        if length argv < 4 \<or> streq (argv ! 3) ''list'' then do {
          s \<leftarrow> shell_println ''IN-USE  SSID         MODE   CHAN  RATE       SIGNAL  BARS  SECURITY'' s;
          print_aps wifi_aps s }
        else if streq (argv ! 3) ''connect'' then nmcli_connect argv s
        else shell_println ''nmcli device wifi: unknown subcommand (list|connect)'' s
      else shell_println ''nmcli device: unknown subcommand (status|wifi)'' s)"

definition nmcli_connection :: "'h shell \<Rightarrow> 'h shell option" where
  "nmcli_connection s =
     (if wifi_connected s then do {
        s \<leftarrow> shell_println ''NAME     UUID                                  TYPE  DEVICE'' s;
        ssid \<leftarrow> c_string (wifi_ssid s);
        s \<leftarrow> write_string ssid s;
        write_string (''  a1b2c3d4-e5f6-7890-abcd-ef1234567890  wifi  wlan0'' @ [LF]) s }
      else shell_println ''(no active connections)'' s)"

definition nmcli_radio :: "string list \<Rightarrow> 'h shell \<Rightarrow> 'h shell option" where
  "nmcli_radio argv s =
     (if length argv < 3 then do {
        s \<leftarrow> shell_println ''WIFI-HW  WIFI     WWAN-HW  WWAN'' s;
        s \<leftarrow> write_string ''enabled  '' s;
        s \<leftarrow> write_string (if wifi_enabled s then ''enabled  '' else ''disabled '') s;
        write_string (''enabled  enabled'' @ [LF]) s }
      else if streq (argv ! 2) ''wifi'' then
        if length argv < 4 then do {
          s \<leftarrow> write_string ''wifi: '' s;
          shell_println (if wifi_enabled s then ''enabled'' else ''disabled'') s }
        else if streq (argv ! 3) ''on'' then shell_println ''wifi radio enabled'' (s\<lparr>wifi_enabled := True\<rparr>)
        else if streq (argv ! 3) ''off''
        then shell_println ''wifi radio disabled'' (s\<lparr>wifi_enabled := False, wifi_connected := False\<rparr>)
        else shell_println ''nmcli radio wifi: usage on|off'' s
      else shell_println ''nmcli radio: unknown subcommand (wifi)'' s)"

definition nmcli_networking :: "string list \<Rightarrow> 'h shell \<Rightarrow> 'h shell option" where
  "nmcli_networking argv s =
     (if length argv < 3 then do {
        s \<leftarrow> write_string ''networking: '' s;
        shell_println (if network_manager_running s then ''enabled'' else ''disabled'') s }
      else if streq (argv ! 2) ''on'' then shell_println ''Networking enabled'' (s\<lparr>network_manager_running := True\<rparr>)
      else if streq (argv ! 2) ''off''
      then shell_println ''Networking disabled'' (s\<lparr>network_manager_running := False, wifi_connected := False\<rparr>)
      else shell_println ''nmcli networking: usage on|off'' s)"

definition cmd_nmcli :: "string list \<Rightarrow> 'h shell \<Rightarrow> 'h shell option" where
  "cmd_nmcli argv s =
     (if length argv < 2 then shell_println ''nmcli: usage nmcli general|device|connection|radio|networking ...'' s
      else if \<not> package_is_installed ''network-manager'' s then shell_println ''nmcli: NetworkManager not installed'' s
      else if \<not> network_manager_running s then shell_println ''Error: NetworkManager is not running.'' s
      else if streq (argv ! 1) ''general'' then nmcli_general s
      else if streq (argv ! 1) ''device'' then nmcli_device argv s
      else if streq (argv ! 1) ''connection'' then nmcli_connection s
      else if streq (argv ! 1) ''radio'' then nmcli_radio argv s
      else if streq (argv ! 1) ''networking'' then nmcli_networking argv s
      else shell_println ''nmcli: unknown subcommand (general|device|connection|radio|networking)'' s)"

definition cmd_ifconfig :: "'h shell \<Rightarrow> 'h shell option" where
  "cmd_ifconfig s =
     (if \<not> package_is_installed ''net-tools'' s
      then shell_println ''ifconfig: command not found (try: sudo apt install net-tools)'' s
      else do {
        s \<leftarrow> println_all
          [''lo: flags=73<UP,LOOPBACK,RUNNING>  mtu 65536'',
           ''        inet 127.0.0.1  netmask 255.0.0.0'',
           ''        loop  txqueuelen 1000  (Local Loopback)'',
           ''''] s;
        s \<leftarrow> (if network_ready s then println_all
            [''wlan0: flags=4163<UP,BROADCAST,RUNNING,MULTICAST>  mtu 1500'',
             ''        inet 192.168.1.100  netmask 255.255.255.0  broadcast 192.168.1.255'',
             ''        ether 02:00:00:00:00:01  txqueuelen 1000  (Ethernet)''] s
          else println_all
            [''wlan0: flags=4099<UP,BROADCAST,MULTICAST>  mtu 1500'',
             ''        ether 02:00:00:00:00:01  txqueuelen 1000  (Ethernet)''] s);
        shell_println '''' s })"

end
