(* ===== verification/ShellRun.thy ===== *)
theory ShellRun
  imports ShellCmds ShellNet
begin

text \<open>
  kernel/shell.c: the commands on the disk, the editor, the first contents of the file system, reading and
  parsing a line, and the shell itself. What reads the keyboard ends as \<open>Waiting\<close> when the polls
  of the keyboard run out; \<open>Got\<close> is a return.
\<close>

datatype ('w, 'a) input = Waiting 'w | Got 'a

subsection \<open>Disk commands\<close>

definition mkdir_at :: "int \<Rightarrow> string \<Rightarrow> u16 \<Rightarrow> u16 \<Rightarrow> 'h shell \<Rightarrow> 'h shell option" where
  "mkdir_at node p owner mode s = do { (_, s) \<leftarrow> on_fs (\<lambda>ns. fs_mkdir_as ns node (Some p) owner mode) s; Some s }"

definition write_at :: "int \<Rightarrow> string \<Rightarrow> string \<Rightarrow> 'h shell \<Rightarrow> 'h shell option" where
  "write_at node p text s = do {
     len \<leftarrow> kstrlen (Some (c_str text));
     (_, s) \<leftarrow> on_fs (\<lambda>ns. fs_write_file ns node (Some p) (Some (c_str text)) len) s;
     Some s }"

text \<open>The directories that \<open>cmd_install\<close> and \<open>shell_seed_filesystem\<close> both create; 0755 is 0x1ED.\<close>

definition make_directories :: "'h shell \<Rightarrow> 'h shell option" where
  "make_directories s = do {
     s \<leftarrow> mkdir_at fs_get_root ''bin'' SHELL_UID_ROOT 0x1ED s;
     s \<leftarrow> mkdir_at fs_get_root ''etc'' SHELL_UID_ROOT 0x1ED s;
     s \<leftarrow> mkdir_at fs_get_root ''home'' SHELL_UID_ROOT 0x1ED s;
     s \<leftarrow> mkdir_at fs_get_root ''var'' SHELL_UID_ROOT 0x1ED s;
     s \<leftarrow> mkdir_at fs_get_root ''tmp'' SHELL_UID_ROOT 0x1ED s;
     mkdir_at fs_get_root ''usr'' SHELL_UID_ROOT 0x1ED s }"

definition os_release :: string where
  "os_release =
     ''PRETTY_NAME='' @ CHR 0x22 # ''FurOS 1.0 (Bookworm)'' @ [CHR 0x22, LF] @
     ''NAME='' @ CHR 0x22 # ''FurOS'' @ [CHR 0x22, LF] @
     ''VERSION_ID='' @ CHR 0x22 # ''1.0'' @ [CHR 0x22, LF] @
     ''VERSION='' @ CHR 0x22 # ''1.0 (Bookworm)'' @ [CHR 0x22, LF] @
     ''VERSION_CODENAME=bookworm'' @ [LF] @
     ''ID=furos'' @ [LF] @
     ''ID_LIKE=debian'' @ [LF]"

definition os_release_urls :: string where
  "os_release_urls =
     ''HOME_URL='' @ CHR 0x22 # ''https://furos.org/'' @ [CHR 0x22, LF] @
     ''SUPPORT_URL='' @ CHR 0x22 # ''https://furos.org/support'' @ [CHR 0x22, LF] @
     ''BUG_REPORT_URL='' @ CHR 0x22 # ''https://furos.org/bugs'' @ [CHR 0x22, LF]"

definition passwd_text :: string where
  "passwd_text = ''root:x:0:0:root:/root:/bin/sh'' @ LF #
     ''debian:x:1000:1000:Debian User,,,:/home/debian:/bin/sh'' @ [LF]"

definition group_text :: string where
  "group_text = ''root:x:0:'' @ LF # ''sudo:x:27:debian'' @ LF # ''debian:x:1000:'' @ [LF]"

definition motd_text :: string where
  "motd_text =
     LF # ''  ______           ____  ____'' @
     LF # '' |  ____|         / __ '' @ CHR 0x5C # ''/ ___|'' @
     LF # '' | |__ _   _ _ __| |  | '' @ CHR 0x5C # ''___ '' @ CHR 0x5C #
     LF # '' |  __| | | | '' @ CHR 0x27 # ''__| |  | |___) |'' @
     LF # '' | |  | |_| | |  | |__| |____/'' @
     LF # '' |_|   '' @ CHR 0x5C # ''__,_|_|   '' @ CHR 0x5C # ''____/'' @
     LF # LF # '' FurOS 1.0 (based on Debian GNU/Linux 12 Bookworm)'' @
     LF # '' Type '' @ CHR 0x27 # ''help'' @ CHR 0x27 # '' for available commands.'' @ [LF, LF]"

definition bashrc_text :: string where
  "bashrc_text =
     ''# ~/.bashrc: executed by bash for non-login shells'' @
     LF # ''PS1='' @ CHR 0x27 # CHR 0x5C # ''u@furos:'' @ CHR 0x5C # ''w'' @ CHR 0x5C # ''$ '' @ CHR 0x27 #
     LF # ''alias ls='' @ CHR 0x27 # ''ls --color=auto'' @ CHR 0x27 #
     LF # ''alias ll='' @ CHR 0x27 # ''ls -la'' @ [CHR 0x27, LF]"

definition write_etc :: "string \<Rightarrow> string \<Rightarrow> 'h shell \<Rightarrow> 'h shell option" where
  "write_etc release motd s = do {
     s \<leftarrow> write_at fs_get_root ''etc/os-release'' release s;
     s \<leftarrow> write_at fs_get_root ''etc/hostname'' (''furos'' @ [LF]) s;
     s \<leftarrow> (if motd \<noteq> [] then write_at fs_get_root ''etc/motd'' motd s else Some s);
     s \<leftarrow> write_at fs_get_root ''etc/passwd'' passwd_text s;
     write_at fs_get_root ''etc/group'' group_text s }"

definition cmd_install :: "'h hw \<Rightarrow> 'h shell \<Rightarrow> 'h shell option" where
  "cmd_install hw s = do {
     s \<leftarrow> shell_println ''FurOS 1.0 installer (terminal mode)'' s;
     if \<not> disk_available (sh_disk s) then println_all
       [''install: no supported ATA disk detected'', ''  Use QEMU with -hda <disk.img> to attach an IDE disk.''] s
     else do {
       s \<leftarrow> shell_println ''Formatting disk filesystem...'' s;
       (r, s) \<leftarrow> on_disk (disk_format_fs hw) s;
       if r \<noteq> 0 then println_all [''install: disk format failed'', disk_last_error (sh_disk s)] s
       else do {
         s \<leftarrow> shell_println ''Creating directory hierarchy...'' s;
         s \<leftarrow> make_directories s;
         home_node \<leftarrow> fs_resolve (sh_fs s) fs_get_root (Some ''home'');
         s \<leftarrow> (if home_node \<ge> 0 then mkdir_at home_node ''debian'' SHELL_UID_DEBIAN 0x1ED s else Some s);
         s \<leftarrow> shell_println ''Writing configuration files...'' s;
         s \<leftarrow> write_etc os_release [] s;
         (r, s) \<leftarrow> on_disk (disk_save_fs hw) s;
         if r \<noteq> 0 then println_all [''install: write failed'', disk_last_error (sh_disk s)] s
         else shell_println ''Install complete. Reboot to start FurOS from disk.'' (s\<lparr>shell_cwd := fs_get_root\<rparr>) } } }"

definition cmd_logout :: "'h shell \<Rightarrow> 'h shell" where
  "cmd_logout s = s\<lparr>shell_exit := True\<rparr>"

definition cmd_sync :: "'h hw \<Rightarrow> 'h shell \<Rightarrow> 'h shell option" where
  "cmd_sync hw s = do {
     (r, s) \<leftarrow> on_disk (disk_save_fs hw) s;
     if r \<noteq> 0 then println_all [''sync: failed'', disk_last_error (sh_disk s)] s
     else shell_println ''sync: saved to disk'' s }"

definition cmd_disk :: "'h hw \<Rightarrow> string list \<Rightarrow> 'h shell \<Rightarrow> 'h shell option" where
  "cmd_disk hw argv s =
     (if length argv < 2 then shell_println ''disk: usage disk info|load|save|format'' s
      else if streq (argv ! 1) ''info'' then do {
        s \<leftarrow> shell_println (if disk_available (sh_disk s) then ''disk: available'' else ''disk: unavailable'') s;
        s \<leftarrow> write_string ''status: '' s;
        s \<leftarrow> write_string (disk_last_error (sh_disk s)) s;
        write_string [LF] s }
      else if streq (argv ! 1) ''load'' then do {
        (r, s) \<leftarrow> on_disk (disk_load_fs hw) s;
        if r \<noteq> 0 then println_all [''disk load: failed'', disk_last_error (sh_disk s)] s
        else shell_println ''disk load: ok'' (s\<lparr>shell_cwd := fs_get_root\<rparr>) }
      else if streq (argv ! 1) ''save'' then cmd_sync hw s
      else if streq (argv ! 1) ''format'' then do {
        (r, s) \<leftarrow> on_disk (disk_format_fs hw) s;
        if r \<noteq> 0 then println_all [''disk format: failed'', disk_last_error (sh_disk s)] s
        else shell_println ''disk format: ok'' (s\<lparr>shell_cwd := fs_get_root\<rparr>) }
      else shell_println ''disk: unknown subcommand'' s)"

definition shell_seed_filesystem :: "'h shell \<Rightarrow> 'h shell option" where
  "shell_seed_filesystem s = do {
     s \<leftarrow> make_directories s;
     home_node \<leftarrow> fs_resolve (sh_fs s) fs_get_root (Some ''home'');
     s \<leftarrow> (if home_node \<ge> 0 then do {
             s \<leftarrow> mkdir_at home_node ''debian'' SHELL_UID_DEBIAN 0x1ED s;
             deb \<leftarrow> fs_resolve (sh_fs s) home_node (Some ''debian'');
             if deb \<ge> 0 then write_at deb ''.bashrc'' bashrc_text s else Some s }
           else Some s);
     write_etc (os_release @ os_release_urls) motd_text s }"

subsection \<open>Reading a line\<close>

lemma keyboard_getchar_shorter:
  "keyboard_getchar k polls = Some (c, k', rest) \<Longrightarrow> length rest < length polls"
proof (induction k polls rule: keyboard_getchar.induct)
  case (1 k polls)
  show ?case
    using 1(2) 1(1) keyboard_get_key_shorter [of k polls]
    by (subst (asm) keyboard_getchar.simps) (fastforce split: option.splits if_splits prod.splits dest: less_trans)
qed

function read_line_loop ::
  "char list \<Rightarrow> nat \<Rightarrow> nat \<Rightarrow> keyboard \<Rightarrow> (u8 \<times> u8) list \<Rightarrow> vga
   \<Rightarrow> (vga, char list \<times> nat \<times> keyboard \<times> (u8 \<times> u8) list \<times> vga) input option" where
  "read_line_loop buf len max_len k polls v =
     (case keyboard_getchar k polls of
        None \<Rightarrow> Some (Waiting v)
      | Some (c, k', rest) \<Rightarrow>
          if c = LF \<or> c = CR then do {
            buf \<leftarrow> wr buf len NUL;
            v \<leftarrow> vga_putchar v LF;
            Some (Got (buf, len, k', rest, v)) }
          else if c = BS then
            if len > 0 then do { v \<leftarrow> vga_backspace v; read_line_loop buf (len - 1) max_len k' rest v }
            else read_line_loop buf len max_len k' rest v
          else if is_printable c \<and> len + 1 < max_len then do {
            buf \<leftarrow> wr buf len c;
            v \<leftarrow> vga_putchar v c;
            read_line_loop buf (len + 1) max_len k' rest v }
          else read_line_loop buf len max_len k' rest v)"
  by pat_completeness auto
termination
  by (relation "measure (\<lambda>(buf, len, max_len, k, polls, v). length polls)") (auto dest: keyboard_getchar_shorter)

declare read_line_loop.simps [simp del]

definition shell_read_line ::
  "char list \<Rightarrow> 'h shell \<Rightarrow> ('h shell, char list \<times> nat \<times> 'h shell) input option" where
  "shell_read_line buf s = do {
     r \<leftarrow> read_line_loop buf 0 (length buf) (sh_kbd s) (sh_polls s) (sh_vga s);
     case r of
       Waiting v \<Rightarrow> Some (Waiting (s\<lparr>sh_vga := v\<rparr>))
     | Got (buf, len, k, polls, v) \<Rightarrow> Some (Got (buf, len, s\<lparr>sh_vga := v, sh_kbd := k, sh_polls := polls\<rparr>)) }"

text \<open>The loops over the characters of the line; \<open>argv\<close> holds the offsets of the arguments.\<close>

function skip_spaces :: "char list \<Rightarrow> nat \<Rightarrow> nat option" where
  "skip_spaces line p = (if p < length line then if is_space (line ! p) then skip_spaces line (p + 1) else Some p else None)"
  by pat_completeness auto
termination by (relation "measure (\<lambda>(line, p). length line - p)") auto

function skip_word :: "char list \<Rightarrow> nat \<Rightarrow> nat option" where
  "skip_word line p = (if p < length line then
     if line ! p \<noteq> NUL \<and> \<not> is_space (line ! p) then skip_word line (p + 1) else Some p else None)"
  by pat_completeness auto
termination by (relation "measure (\<lambda>(line, p). length line - p)") auto

function parse_loop :: "char list \<Rightarrow> nat \<Rightarrow> nat list \<Rightarrow> nat \<Rightarrow> (nat list \<times> char list) option" where
  "parse_loop line p argv max_argv = do {
     c \<leftarrow> rd line p;
     if c \<noteq> NUL \<and> length argv < max_argv then do {
       p \<leftarrow> skip_spaces line p;
       c \<leftarrow> rd line p;
       if c = NUL then Some (argv, line)
       else do {
         q \<leftarrow> skip_word line p;
         c \<leftarrow> rd line q;
         if c = NUL then Some (argv @ [p], line)
         else do { line \<leftarrow> wr line q NUL; parse_loop line (q + 1) (argv @ [p]) max_argv } } }
     else Some (argv, line) }"
  by pat_completeness auto
termination by (relation "measure (\<lambda>(line, p, argv, max_argv). max_argv - length argv)") auto

declare skip_spaces.simps [simp del] skip_word.simps [simp del] parse_loop.simps [simp del]

definition shell_parse :: "char list \<Rightarrow> nat \<Rightarrow> (nat list \<times> char list) option" where
  "shell_parse line max_argv = parse_loop line 0 [] max_argv"

text \<open>The strings that the offsets point to.\<close>

fun arg_strings :: "char list \<Rightarrow> nat list \<Rightarrow> string list option" where
  "arg_strings line [] = Some []"
| "arg_strings line (p # ps) = do { a \<leftarrow> c_string (drop p line); as \<leftarrow> arg_strings line ps; Some (a # as) }"

end
