(* ===== verification/ShellMain.thy ===== *)
theory ShellMain
  imports ShellRun
begin

text \<open>
  kernel/shell.c: the editor, the dispatch of a command line, and \<open>shell_run\<close>.
\<close>

subsection \<open>The editor\<close>

text \<open>
  The loop of \<open>cmd_nano\<close>: \<open>buf\<close> holds \<open>len\<close> bytes of text and a terminator. Ctrl+S and Ctrl+X are
  the characters 19 and 24.
\<close>

definition save_file :: "string \<Rightarrow> char list \<Rightarrow> nat \<Rightarrow> 'h shell \<Rightarrow> 'h shell option" where
  "save_file path buf len s = do {
     (_, s) \<leftarrow> on_fs (\<lambda>ns. fs_write_file ns (shell_cwd s) (Some path) (Some buf) len) s;
     Some s }"

definition erase_char :: "'h shell \<Rightarrow> 'h shell option" where
  "erase_char s = do { v \<leftarrow> vga_backspace (sh_vga s); Some (s\<lparr>sh_vga := v\<rparr>) }"

function nano_loop ::
  "string \<Rightarrow> char list \<Rightarrow> nat \<Rightarrow> bool \<Rightarrow> keyboard \<Rightarrow> (u8 \<times> u8) list \<Rightarrow> 'h shell \<Rightarrow> ('h shell, 'h shell) input option" where
  "nano_loop path buf len dirty k polls s =
     (case keyboard_getchar k polls of
        None \<Rightarrow> Some (Waiting s)
      | Some (c, k', rest) \<Rightarrow>
          if code c = 19 then do {
            s \<leftarrow> save_file path buf len s;
            s \<leftarrow> shell_println (LF # ''[saved]'') s;
            nano_loop path buf len False k' rest s }
          else if code c = 24 then do {
            s \<leftarrow> (if dirty then save_file path buf len s else Some s);
            s \<leftarrow> shell_println (LF # ''[exit nano]'') s;
            Some (Got (s\<lparr>sh_kbd := k', sh_polls := rest\<rparr>)) }
          else if c = BS then
            if len > 0 then do {
              buf \<leftarrow> wr buf (len - 1) NUL;
              s \<leftarrow> erase_char s;
              nano_loop path buf (len - 1) True k' rest s }
            else nano_loop path buf len dirty k' rest s
          else if c = LF \<or> c = CR then
            if len + 1 < FS_MAX_FILE_SIZE then do {
              buf \<leftarrow> wr buf len LF;
              buf \<leftarrow> wr buf (len + 1) NUL;
              s \<leftarrow> put_char LF s;
              nano_loop path buf (len + 1) True k' rest s }
            else nano_loop path buf len dirty k' rest s
          else if is_printable c \<and> len + 1 < FS_MAX_FILE_SIZE then do {
            buf \<leftarrow> wr buf len c;
            buf \<leftarrow> wr buf (len + 1) NUL;
            s \<leftarrow> put_char c s;
            nano_loop path buf (len + 1) True k' rest s }
          else nano_loop path buf len dirty k' rest s)"
  by pat_completeness auto
termination
  by (relation "measure (\<lambda>(path, buf, len, dirty, k, polls, s). length polls)") (auto dest: keyboard_getchar_shorter)

declare nano_loop.simps [simp del]

definition cmd_nano :: "string list \<Rightarrow> 'h shell \<Rightarrow> ('h shell, 'h shell) input option" where
  "cmd_nano argv s =
     (if length argv < 2 then map_option Got (shell_println ''nano: usage nano <file>'' s)
      else do {
        (r, s) \<leftarrow> on_fs (\<lambda>ns. fs_touch ns (shell_cwd s) (Some (argv ! 1))) s;
        f \<leftarrow> (if r \<noteq> 0 then Some None else fs_read_file (sh_fs s) (shell_cwd s) (Some (argv ! 1)));
        case f of
          None \<Rightarrow> map_option Got (shell_println ''nano: unable to open file'' s)
        | Some (data, sz) \<Rightarrow> do {
            let len = (if sz \<ge> FS_MAX_FILE_SIZE then FS_MAX_FILE_SIZE - 1 else sz);
            buf \<leftarrow> kmemcpy (replicate FS_MAX_FILE_SIZE NUL) data len;
            buf \<leftarrow> wr buf len NUL;
            s \<leftarrow> println_all [''--- FurNano ---'', ''Ctrl+S save, Ctrl+X save+exit'', ''---------------''] s;
            s \<leftarrow> (if len > 0 then do { t \<leftarrow> c_string buf; write_string t s } else Some s);
            nano_loop (argv ! 1) buf len False (sh_kbd s) (sh_polls s) s } })"

subsection \<open>Running a command\<close>

text \<open>\<open>return_of\<close> is a command that never reads the keyboard.\<close>

definition return_of :: "'h shell option \<Rightarrow> ('h shell, 'h shell) input option" where
  "return_of r = map_option Got r"

function shell_dispatch :: "'h hw \<Rightarrow> string list \<Rightarrow> 'h shell \<Rightarrow> ('h shell, 'h shell) input option"
  and cmd_sudo :: "'h hw \<Rightarrow> string list \<Rightarrow> 'h shell \<Rightarrow> ('h shell, 'h shell) input option" where
  "shell_dispatch hw argv s =
     (if length argv = 0 then Some (Got s)
      else if streq (argv ! 0) ''help'' then return_of (cmd_help s)
      else if streq (argv ! 0) ''clear'' then return_of (do { v \<leftarrow> vga_clear (sh_vga s); Some (s\<lparr>sh_vga := v\<rparr>) })
      else if streq (argv ! 0) ''whoami'' then return_of (cmd_whoami s)
      else if streq (argv ! 0) ''id'' then return_of (cmd_id s)
      else if streq (argv ! 0) ''pwd'' then return_of (cmd_pwd s)
      else if streq (argv ! 0) ''ls'' then return_of (cmd_ls argv (shell_uid s) s)
      else if streq (argv ! 0) ''cd'' then return_of (cmd_cd argv (shell_uid s) s)
      else if streq (argv ! 0) ''mkdir'' then return_of (cmd_mkdir argv (shell_uid s) s)
      else if streq (argv ! 0) ''touch'' then return_of (cmd_touch argv (shell_uid s) s)
      else if streq (argv ! 0) ''cat'' then return_of (cmd_cat argv (shell_uid s) s)
      else if streq (argv ! 0) ''write'' then return_of (cmd_write argv s)
      else if streq (argv ! 0) ''nano'' then cmd_nano argv s
      else if streq (argv ! 0) ''rm'' then return_of (cmd_rm argv s)
      else if streq (argv ! 0) ''chmod'' then return_of (cmd_chmod argv (shell_uid s) s)
      else if streq (argv ! 0) ''chown'' then return_of (cmd_chown argv (shell_uid s) s)
      else if streq (argv ! 0) ''sudo'' then cmd_sudo hw argv s
      else if streq (argv ! 0) ''install'' then return_of (cmd_install hw s)
      else if streq (argv ! 0) ''logout'' \<or> streq (argv ! 0) ''exit'' then Some (Got (cmd_logout s))
      else if streq (argv ! 0) ''disk'' then return_of (cmd_disk hw argv s)
      else if streq (argv ! 0) ''sync'' then return_of (cmd_sync hw s)
      else if streq (argv ! 0) ''apt'' then return_of (cmd_apt argv s)
      else if streq (argv ! 0) ''networkmanager'' then return_of (cmd_networkmanager argv s)
      else if streq (argv ! 0) ''nmcli'' then return_of (cmd_nmcli argv s)
      else if streq (argv ! 0) ''ifconfig'' then return_of (cmd_ifconfig s)
      else return_of (do {
        s \<leftarrow> write_string (argv ! 0) s;
        shell_println '': command not found (type 'help' for available commands)'' s }))"
| "cmd_sudo hw argv s =
     (if length argv < 2 then return_of (shell_println ''sudo: usage sudo <command> [args]'' s)
      else do {
        let saved_uid = shell_uid s;
        r \<leftarrow> shell_dispatch hw (tl argv) (s\<lparr>shell_uid := SHELL_UID_ROOT\<rparr>);
        case r of Waiting t \<Rightarrow> Some (Waiting t) | Got t \<Rightarrow> Some (Got (t\<lparr>shell_uid := saved_uid\<rparr>)) })"
  by pat_completeness auto
termination
  by (relation "measure (\<lambda>x. case x of Inl (hw, argv, s) \<Rightarrow> 2 * length argv + 1 | Inr (hw, argv, s) \<Rightarrow> 2 * length argv)") auto

declare shell_dispatch.simps [simp del] cmd_sudo.simps [simp del]

subsection \<open>The shell\<close>

definition prompt_colored :: "'h shell \<Rightarrow> 'h shell option" where
  "prompt_colored s = do {
     let s = (if shell_uid s = SHELL_UID_ROOT then set_color 12 0 s else set_color 10 0 s);
     s \<leftarrow> shell_prompt s;
     Some (set_color 7 0 s) }"

partial_function (option) shell_loop :: "'h hw \<Rightarrow> char list \<Rightarrow> 'h shell \<Rightarrow> ('h shell, 'h shell) input option" where
  "shell_loop hw line s =
     (if shell_exit s then Some (Got s)
      else do {
        s \<leftarrow> prompt_colored s;
        r \<leftarrow> shell_read_line line s;
        case r of
          Waiting t \<Rightarrow> Some (Waiting t)
        | Got (line, len, s) \<Rightarrow> do {
            (ps, line) \<leftarrow> shell_parse line SHELL_ARGV_MAX;
            argv \<leftarrow> arg_strings line ps;
            if argv = [] then shell_loop hw line s
            else do {
              r \<leftarrow> shell_dispatch hw argv s;
              case r of Waiting t \<Rightarrow> Some (Waiting t) | Got s \<Rightarrow> shell_loop hw line s } } })"

text \<open>The message of the day, if the file is there and not empty.\<close>

definition show_motd :: "'h shell \<Rightarrow> 'h shell option" where
  "show_motd s = do {
     f \<leftarrow> fs_read_file (sh_fs s) fs_get_root (Some ''etc/motd'');
     case f of
       None \<Rightarrow> Some s
     | Some (data, sz) \<Rightarrow>
         if sz > 0 then do {
           t \<leftarrow> c_string data;
           s \<leftarrow> write_string t (set_color 11 0 s);
           Some (set_color 7 0 s) }
         else Some s }"

definition shell_start :: "'h hw \<Rightarrow> 'h shell \<Rightarrow> 'h shell option" where
  "shell_start hw s = do {
     ns \<leftarrow> fs_init;
     d \<leftarrow> disk_init hw ((sh_disk s)\<lparr>d_nodes := ns\<rparr>);
     let s = s\<lparr>shell_exit := False, sh_kbd := keyboard_init, sh_disk := d\<rparr>;
     (r, s) \<leftarrow> (if disk_available d then on_disk (disk_load_fs hw) s else Some (-1, s));
     s \<leftarrow> (if r = 0 then Some s
           else do {
             s \<leftarrow> shell_seed_filesystem s;
             if \<not> disk_available (sh_disk s)
             then write_string (''[  OK  ] No disk found '' @ [CHR 0xE2, CHR 0x80, CHR 0x94] @ '' running in live mode'' @ [LF]) s
             else write_string (''[  OK  ] No installed filesystem '' @ [CHR 0xE2, CHR 0x80, CHR 0x94] @ '' running in live mode'' @ [LF]) s });
     show_motd (s\<lparr>shell_cwd := fs_get_root, shell_uid := SHELL_UID_DEBIAN\<rparr>) }"

text \<open>The array \<open>line\<close> has no initial value in C; here it is filled with NUL.\<close>

definition shell_run :: "'h hw \<Rightarrow> 'h shell \<Rightarrow> ('h shell, 'h shell) input option" where
  "shell_run hw s = do {
     s \<leftarrow> shell_start hw s;
     r \<leftarrow> shell_loop hw (replicate SHELL_LINE_MAX NUL) s;
     case r of
       Waiting t \<Rightarrow> Some (Waiting t)
     | Got s \<Rightarrow>
         if disk_available (sh_disk s) then do { (_, s) \<leftarrow> on_disk (disk_save_fs hw) s; Some (Got s) }
         else Some (Got s) }"

end
