(* ===== verification/ShellSafe.thy ===== *)
theory ShellSafe
  imports ShellMain DiskSafe VgaSpec KeyboardSpec
begin

text \<open>
  The shell is safe: whatever is typed, and whatever is on the disk, no command of kernel/shell.c is
  undefined. \<^theory_text>\<open>shell_ok\<close> is what holds between commands, \<^theory_text>\<open>sh_step\<close> what
  every command keeps; \<^theory_text>\<open>runs\<close> is the judgement that a command is defined and is such a
  step, with one rule for each way the commands are put together.
\<close>

subsection \<open>The invariant and the judgement\<close>

definition shell_ok :: "'h shell \<Rightarrow> bool" where
  "shell_ok s \<longleftrightarrow> disk_ok (sh_disk s) \<and> vga_ok (sh_vga s) \<and> in_viewport (sh_vga s)
     \<and> 0 \<le> shell_cwd s \<and> in_table (sh_fs s) (nat (shell_cwd s)) \<and> own_parent (sh_fs s)
     \<and> length (wifi_ssid s) = FS_MAX_NAME + 1 \<and> NUL \<in> set (wifi_ssid s)"

definition sh_step :: "'h shell \<Rightarrow> 'h shell \<Rightarrow> bool" where
  "sh_step s t \<longleftrightarrow> shell_ok t \<and> shell_uid t = shell_uid s \<and> sh_polls t = sh_polls s \<and> sh_kbd t = sh_kbd s
     \<and> text_step (sh_vga s) (sh_vga t)"

definition runs :: "'h shell option \<Rightarrow> 'h shell \<Rightarrow> bool" where
  "runs r s \<longleftrightarrow> (\<exists>t. r = Some t \<and> sh_step s t)"

definition runs_val :: "('v \<times> 'h shell) option \<Rightarrow> 'h shell \<Rightarrow> bool" where
  "runs_val r s \<longleftrightarrow> (\<exists>v t. r = Some (v, t) \<and> sh_step s t)"

definition known :: "'a option \<Rightarrow> bool" where
  "known q \<longleftrightarrow> q \<noteq> None"

lemma sh_step_refl [simp]: "sh_step s s \<longleftrightarrow> shell_ok s"
  by (auto simp: sh_step_def shell_ok_def text_step_refl)

lemma sh_step_trans: "sh_step s t \<Longrightarrow> sh_step t u \<Longrightarrow> sh_step s u"
  using text_step_trans by (fastforce simp: sh_step_def)

lemma sh_step_ok: "sh_step s t \<Longrightarrow> shell_ok t"
  by (simp add: sh_step_def)

lemma shell_ok_updates [simp]:
  "shell_ok (s\<lparr>shell_exit := b\<rparr>) = shell_ok s" "shell_ok (s\<lparr>apt_index_ready := b\<rparr>) = shell_ok s"
  "shell_ok (s\<lparr>network_manager_running := b\<rparr>) = shell_ok s" "shell_ok (s\<lparr>wifi_enabled := b\<rparr>) = shell_ok s"
  "shell_ok (s\<lparr>wifi_connected := b\<rparr>) = shell_ok s" "shell_ok (s\<lparr>package_repo := ps\<rparr>) = shell_ok s"
  "shell_ok (s\<lparr>shell_uid := u\<rparr>) = shell_ok s" "shell_ok (s\<lparr>sh_kbd := k\<rparr>) = shell_ok s"
  "shell_ok (s\<lparr>sh_polls := p\<rparr>) = shell_ok s"
  by (simp_all add: shell_ok_def)

lemma sh_step_updates [simp]:
  "sh_step s (t\<lparr>shell_exit := b\<rparr>) = sh_step s t" "sh_step s (t\<lparr>apt_index_ready := b\<rparr>) = sh_step s t"
  "sh_step s (t\<lparr>network_manager_running := b\<rparr>) = sh_step s t" "sh_step s (t\<lparr>wifi_enabled := b\<rparr>) = sh_step s t"
  "sh_step s (t\<lparr>wifi_connected := b\<rparr>) = sh_step s t" "sh_step s (t\<lparr>package_repo := ps\<rparr>) = sh_step s t"
  by (simp_all add: sh_step_def)

lemma runs_Some [simp]: "runs (Some t) s \<longleftrightarrow> sh_step s t"
  by (simp add: runs_def)

lemma runs_val_Some [simp]: "runs_val (Some (v, t)) s \<longleftrightarrow> sh_step s t"
  by (simp add: runs_val_def)

lemma runs_from: "runs r t \<Longrightarrow> sh_step s t \<Longrightarrow> runs r s"
  using sh_step_trans by (auto simp: runs_def)

lemma runs_val_from: "runs_val r t \<Longrightarrow> sh_step s t \<Longrightarrow> runs_val r s"
  using sh_step_trans by (auto simp: runs_val_def)

lemma runs_bind: "runs q s \<Longrightarrow> (\<And>t. shell_ok t \<Longrightarrow> sh_step s t \<Longrightarrow> runs (f t) t) \<Longrightarrow> runs (q \<bind> f) s"
  unfolding runs_def using sh_step_trans sh_step_ok by fastforce

lemma runs_bind_val:
  "runs_val q s \<Longrightarrow> (\<And>v t. q = Some (v, t) \<Longrightarrow> shell_ok t \<Longrightarrow> sh_step s t \<Longrightarrow> runs (f v t) t) \<Longrightarrow>
    runs (q \<bind> (\<lambda>(v, t). f v t)) s"
  unfolding runs_def runs_val_def using sh_step_trans sh_step_ok by fastforce

lemma runs_val_bind: "runs q s \<Longrightarrow> (\<And>t. shell_ok t \<Longrightarrow> sh_step s t \<Longrightarrow> runs_val (f t) t) \<Longrightarrow> runs_val (q \<bind> f) s"
  unfolding runs_def runs_val_def using sh_step_trans sh_step_ok by fastforce

lemma runs_query: "known q \<Longrightarrow> (\<And>x. q = Some x \<Longrightarrow> runs (f x) s) \<Longrightarrow> runs (q \<bind> f) s"
  by (cases q) (simp_all add: known_def)

lemma runs_val_query: "known q \<Longrightarrow> (\<And>x. q = Some x \<Longrightarrow> runs_val (f x) s) \<Longrightarrow> runs_val (q \<bind> f) s"
  by (cases q) (simp_all add: known_def)

lemma runs_if: "(b \<Longrightarrow> runs p s) \<Longrightarrow> (\<not> b \<Longrightarrow> runs q s) \<Longrightarrow> runs (if b then p else q) s"
  by simp

lemma runs_val_if: "(b \<Longrightarrow> runs_val p s) \<Longrightarrow> (\<not> b \<Longrightarrow> runs_val q s) \<Longrightarrow> runs_val (if b then p else q) s"
  by simp

lemma runs_option:
  "(x = None \<Longrightarrow> runs p s) \<Longrightarrow> (\<And>v. x = Some v \<Longrightarrow> runs (q v) s) \<Longrightarrow> runs (case x of None \<Rightarrow> p | Some v \<Rightarrow> q v) s"
  by (cases x) simp_all

lemma runs_val_option:
  "(x = None \<Longrightarrow> runs_val p s) \<Longrightarrow> (\<And>v. x = Some v \<Longrightarrow> runs_val (q v) s) \<Longrightarrow>
    runs_val (case x of None \<Rightarrow> p | Some v \<Rightarrow> q v) s"
  by (cases x) simp_all

lemma runs_prod: "(\<And>a b. x = (a, b) \<Longrightarrow> runs (f a b) s) \<Longrightarrow> runs (case x of (a, b) \<Rightarrow> f a b) s"
  by (cases x) simp

lemma known_if: "(b \<Longrightarrow> known p) \<Longrightarrow> (\<not> b \<Longrightarrow> known q) \<Longrightarrow> known (if b then p else q)"
  by simp

lemma known_Some [simp]: "known (Some x)"
  by (simp add: known_def)

lemma known_ex: "known q \<longleftrightarrow> (\<exists>x. q = Some x)"
  by (auto simp: known_def)

subsection \<open>Output\<close>

lemma shell_ok_vga: "shell_ok s \<Longrightarrow> text_step (sh_vga s) v \<Longrightarrow> sh_step s (s\<lparr>sh_vga := v\<rparr>)"
  by (auto simp: shell_ok_def sh_step_def text_step_def)

lemma runs_write: "sh_step s t \<Longrightarrow> runs (write_string x t) s"
proof (rule runs_from [of _ t])
  assume "sh_step s t"
  then have ok: "shell_ok t" by (rule sh_step_ok)
  then have "vga_ok (sh_vga t)" by (simp add: shell_ok_def)
  from vga_write_loop_step [OF this, of x] obtain v where "vga_write_loop x (sh_vga t) = Some v" "text_step (sh_vga t) v" by blast
  with shell_ok_vga [OF ok] show "runs (write_string x t) t" by (simp add: write_string_def vga_write_string_def)
qed

lemma runs_put_char: "sh_step s t \<Longrightarrow> runs (put_char c t) s"
proof (rule runs_from [of _ t])
  assume "sh_step s t"
  then have ok: "shell_ok t" by (rule sh_step_ok)
  then have "vga_ok (sh_vga t)" by (simp add: shell_ok_def)
  from vga_putchar_step [OF this, of c] obtain v where "vga_putchar (sh_vga t) c = Some v" "text_step (sh_vga t) v" by blast
  with shell_ok_vga [OF ok] show "runs (put_char c t) t" by (simp add: put_char_def)
qed

lemma runs_println: "sh_step s t \<Longrightarrow> runs (shell_println x t) s"
  unfolding shell_println_def by (rule runs_bind [OF runs_write]) (simp_all add: runs_write)

lemma runs_println_all: "sh_step s t \<Longrightarrow> runs (println_all xs t) s"
proof (induction xs arbitrary: s t)
  case (Cons x xs)
  then show ?case by (auto intro!: runs_bind runs_println)
qed simp

lemma set_color_step [simp]: "sh_step s (set_color fg bg t) = sh_step s t"
  by (simp add: set_color_def sh_step_def shell_ok_def vga_set_color_def vga_ok_def in_viewport_def text_step_def)

lemmas runs_output = runs_write runs_put_char runs_println runs_println_all

text \<open>The rules in the order in which they are tried: a query is whatever is no command.\<close>

lemmas runs_rules = runs_if runs_val_if runs_option runs_val_option runs_prod runs_bind runs_bind_val runs_val_bind
  runs_query runs_val_query runs_output

lemma known_c_string: "NUL \<in> set b \<Longrightarrow> known (c_string b)"
  by (simp add: c_string_def)

subsection \<open>The file system under the shell\<close>

definition args_ok :: "string list \<Rightarrow> bool" where
  "args_ok argv \<longleftrightarrow> (\<forall>a \<in> set argv. nul_free a)"

lemma args_okD: "args_ok argv \<Longrightarrow> i < length argv \<Longrightarrow> nul_free (argv ! i)"
  by (simp add: args_ok_def)

lemma args_ok_tl: "args_ok argv \<Longrightarrow> args_ok (tl argv)"
  by (cases argv) (simp_all add: args_ok_def)

lemma shell_fs:
  assumes "shell_ok s"
  shows "fs_mem (sh_fs s)" "in_table (sh_fs s) (nat (shell_cwd s))" "int (nat (shell_cwd s)) = shell_cwd s"
  using assms by (simp_all add: shell_ok_def disk_ok_def)

lemma resolve_shell:
  assumes "shell_ok s" "nul_free p"
  shows "\<exists>r. fs_resolve (sh_fs s) (shell_cwd s) (Some p) = Some r \<and> (0 \<le> r \<longrightarrow> in_table (sh_fs s) (nat r))"
  using intab.fs_resolve_in [OF shell_fs(1,2) [OF assms(1)] assms(2)] unfolding shell_fs(3) [OF assms(1)]
  by (metis node_code_nonneg node_code_simps(2) nat_int not_None_eq)

lemma known_resolve: "shell_ok s \<Longrightarrow> nul_free p \<Longrightarrow> known (fs_resolve (sh_fs s) (shell_cwd s) (Some p))"
  using resolve_shell [of s p] by (auto simp: known_def)

lemma known_checks:
  assumes "shell_ok s"
  shows "known (fs_is_dir (sh_fs s) k)" "known (fs_check_access (sh_fs s) k uid acc)" "known (fs_get_owner (sh_fs s) k)"
    "known (fs_get_name (sh_fs s) k)"
  using fs_checks_total [OF shell_fs(1) [OF assms], of k] by (simp_all add: known_ex) blast+

lemma on_fs_runs:
  assumes "shell_ok s" "\<exists>r ns. f (sh_fs s) = Some (r, ns) \<and> fs_keeps (sh_fs s) ns"
  shows "runs_val (on_fs f s) s"
  using assms by (auto simp: on_fs_def sh_step_def shell_ok_def disk_ok_def disk_sized_def fs_keeps_def text_step_refl)

lemma on_fs_cwd:
  assumes "shell_ok s" "nul_free p"
  shows "runs_val (on_fs (\<lambda>ns. fs_mkdir_as ns (shell_cwd s) (Some p) owner mode) s) s"
    "runs_val (on_fs (\<lambda>ns. fs_touch_as ns (shell_cwd s) (Some p) owner mode) s) s"
    "runs_val (on_fs (\<lambda>ns. fs_touch ns (shell_cwd s) (Some p)) s) s"
    "runs_val (on_fs (\<lambda>ns. fs_remove ns (shell_cwd s) (Some p)) s) s"
    "buffer_ok data sz \<Longrightarrow> runs_val (on_fs (\<lambda>ns. fs_write_file ns (shell_cwd s) (Some p) data sz) s) s"
proof -
  note fs = shell_fs(1,2) [OF assms(1)] and cwd = shell_fs(3) [OF assms(1)]
  note calls = fs_create_in [OF fs assms(2), unfolded cwd] fs_remove_in [OF fs assms(2), unfolded cwd]
  show "runs_val (on_fs (\<lambda>ns. fs_mkdir_as ns (shell_cwd s) (Some p) owner mode) s) s"
    "runs_val (on_fs (\<lambda>ns. fs_touch_as ns (shell_cwd s) (Some p) owner mode) s) s"
    "runs_val (on_fs (\<lambda>ns. fs_touch ns (shell_cwd s) (Some p)) s) s"
    "runs_val (on_fs (\<lambda>ns. fs_remove ns (shell_cwd s) (Some p)) s) s"
    unfolding fs_touch_def by (rule on_fs_runs [OF assms(1)], rule calls)+
  show "runs_val (on_fs (\<lambda>ns. fs_write_file ns (shell_cwd s) (Some p) data sz) s) s" if "buffer_ok data sz"
    by (rule on_fs_runs [OF assms(1)], rule fs_write_file_in [OF fs assms(2) that, unfolded cwd])
qed

lemma on_fs_attr:
  assumes "shell_ok s"
  shows "runs_val (on_fs (\<lambda>ns. fs_set_mode ns k mode) s) s" "runs_val (on_fs (\<lambda>ns. fs_set_owner ns k owner) s) s"
  using fs_attr_in [OF shell_fs(1) [OF assms]] by (auto intro!: on_fs_runs [OF assms])

lemma read_file_shell:
  assumes "shell_ok s" "nul_free p"
  shows "\<exists>r. fs_read_file (sh_fs s) (shell_cwd s) (Some p) = Some r
    \<and> (\<forall>data sz. r = Some (data, sz) \<longrightarrow> NUL \<in> set data \<and> length data = FS_MAX_FILE_SIZE \<and> sz < FS_MAX_FILE_SIZE)"
  using fs_read_file_in [OF shell_fs(1,2) [OF assms(1)] assms(2)] unfolding shell_fs(3) [OF assms(1)] .

lemma known_read_file: "shell_ok s \<Longrightarrow> nul_free p \<Longrightarrow> known (fs_read_file (sh_fs s) (shell_cwd s) (Some p))"
  using read_file_shell [of s p] by (auto simp: known_def)

subsection \<open>Files and directories\<close>

lemma runs_cd: "shell_ok s \<Longrightarrow> args_ok argv \<Longrightarrow> runs (cmd_cd argv uid s) s"
proof -
  assume ok: "shell_ok s" and args: "args_ok argv"
  have go: "sh_step s (s\<lparr>shell_cwd := k\<rparr>)" if "0 \<le> k" "in_table (sh_fs s) (nat k)" for k
    using ok that by (simp add: sh_step_def shell_ok_def text_step_refl)
  have "sh_step s (s\<lparr>shell_cwd := target\<rparr>)"
    if "fs_resolve (sh_fs s) (shell_cwd s) (Some (argv ! 1)) = Some target" "\<not> target < 0" "\<not> length argv < 2" for target
    using resolve_shell [OF ok args_okD [OF args, of 1]] that by (intro go) auto
  then show ?thesis
    unfolding cmd_cd_def
    by (intro runs_rules) (use ok args_okD [OF args, of 1] in \<open>auto intro!: known_if go known_resolve known_checks simp: fs_get_root_def at_root split: if_splits\<close>)
qed

end
