(* ===== verification/ShellCmdSafe.thy ===== *)
theory ShellCmdSafe
  imports ShellSafe
begin

text \<open>Every command of the shell that does not read the keyboard is defined and keeps the invariant.\<close>

lemma args_ok_nth:
  "args_ok argv \<Longrightarrow> \<not> length argv < 2 \<Longrightarrow> nul_free (argv ! Suc 0)"
  "args_ok argv \<Longrightarrow> Suc 0 < length argv \<Longrightarrow> nul_free (argv ! Suc 0)"
  "args_ok argv \<Longrightarrow> \<not> length argv < 3 \<Longrightarrow> nul_free (argv ! Suc 0)"
  "args_ok argv \<Longrightarrow> \<not> length argv < 3 \<Longrightarrow> nul_free (argv ! 2)"
  by (simp_all add: args_okD)

lemmas runs_known = known_if known_resolve known_checks known_read_file args_ok_nth on_fs_cwd on_fs_attr

lemma runs_parent_writable:
  assumes "shell_ok s" "nul_free p"
  shows "runs_val (ensure_parent_writable (Some p) uid s) s"
proof -
  have "known (resolve_parent_path (Some p) s)"
  proof (cases "last_slash p 0 None")
    case None
    with assms(2) show ?thesis by (simp add: resolve_parent_path_def)
  next
    case (Some slash)
    show ?thesis
    proof (cases "length p = 0 \<or> slash = length p - 1 \<or> slash = 0 \<or> slash \<ge> 128")
      case True
      with Some assms(2) show ?thesis by (auto simp: resolve_parent_path_def)
    next
      case False
      then obtain b b' where b: "kmemcpy (replicate 128 NUL) (c_str p) slash = Some b" "wr b slash NUL = Some b'"
        "cstr b' = take slash p"
        using prefix_copy [OF assms(2) less_imp_le [OF last_slash_less [OF Some]]] by auto
      obtain r where "fs_resolve (sh_fs s) (shell_cwd s) (Some (take slash p)) = Some r"
        using resolve_shell [OF assms(1) nul_free_take [OF assms(2)]] by blast
      moreover obtain d where "fs_is_dir (sh_fs s) r = Some d"
        using known_checks(1) [OF assms(1)] unfolding known_ex by blast
      ultimately show ?thesis using False Some assms(2) b by (simp add: resolve_parent_path_def)
    qed
  qed
  then show ?thesis
    unfolding ensure_parent_writable_def by (intro runs_rules) (use assms(1) in \<open>auto intro: known_checks\<close>)
qed

lemma build_path_shell:
  assumes "shell_ok s" "length out = 128"
  shows "\<exists>r p. shell_build_path (shell_cwd s) out s = Some (r, p) \<and> length p = 128 \<and> (r = 0 \<longrightarrow> NUL \<in> set p)"
proof -
  have "2 \<le> length out" using assms(2) by simp
  from fs_make_path_in [OF shell_fs(1,2) [OF assms(1)] this] show ?thesis
    unfolding shell_fs(3) [OF assms(1)] using assms(2) by (auto simp: shell_build_path_def)
qed

lemma runs_prompt:
  assumes "shell_ok s"
  shows "runs (shell_prompt s) s"
proof -
  obtain r p where 1: "shell_build_path (shell_cwd s) (replicate 128 NUL) s = Some (r, p)" "length p = 128" "r = 0 \<longrightarrow> NUL \<in> set p"
    using build_path_shell [OF assms length_replicate] by blast
  obtain q where 2: "(if r \<noteq> 0 then kstrcpy p (c_str ''/'') else Some p) = Some q" "known (c_string q)"
    using 1(2,3) known_c_string by (cases "r = 0") (auto simp: loop_simps known_c_string)
  have "runs (do {
      s \<leftarrow> write_string (uid_to_name (shell_uid s)) s;
      s \<leftarrow> write_string ''@furos:'' s;
      p \<leftarrow> c_string q;
      s \<leftarrow> write_string p s;
      write_string (if shell_uid s = SHELL_UID_ROOT then '' # '' else '' $ '') s }) s"
    by (intro runs_rules) (use assms 2(2) in auto)
  with 1(1) 2(1) show ?thesis by (simp add: shell_prompt_def)
qed

lemma runs_help: "shell_ok s \<Longrightarrow> runs (cmd_help s) s"
  unfolding cmd_help_def by (rule runs_println_all) simp

lemma runs_entries: "shell_ok s \<Longrightarrow> runs (print_entries es s) s"
proof (induction es arbitrary: s)
  case (Cons e es)
  have "known (c_string b)" if "fs_get_name (sh_fs s) e = Some (Some b)" for b
    using fs_checks_total(4) [OF shell_fs(1) [OF Cons.prems], of e] that by (auto intro: known_c_string)
  with Cons show ?case
    unfolding print_entries.simps by (intro runs_rules) (auto intro: known_checks)
qed simp

lemma runs_ls: "shell_ok s \<Longrightarrow> args_ok argv \<Longrightarrow> runs (cmd_ls argv uid s) s"
proof -
  assume ok: "shell_ok s" and args: "args_ok argv"
  have list: "\<exists>n out. fs_list (sh_fs s) k (replicate FS_MAX_NODES 0) FS_MAX_NODES = Some (n, out) \<and> length out = FS_MAX_NODES \<and> n \<le> 128" for k
    by (rule fs_list_in [OF shell_fs(1) [OF ok]])
  have sl: "known (slice out 0 (nat n))" if "fs_list (sh_fs s) k (replicate FS_MAX_NODES 0) FS_MAX_NODES = Some (n, out)" for k n out
    using list [of k] that by (auto simp: slice_def)
  have "known (fs_list (sh_fs s) k (replicate FS_MAX_NODES 0) FS_MAX_NODES)" for k using list [of k] by (auto simp: known_def)
  then show ?thesis
    unfolding cmd_ls_def
    by (intro runs_rules) (use ok args in \<open>auto intro: runs_known runs_entries sl\<close>)
qed

lemma runs_pwd:
  assumes "shell_ok s"
  shows "runs (cmd_pwd s) s"
proof -
  obtain r p where "shell_build_path (shell_cwd s) (replicate 128 NUL) s = Some (r, p)" "r = 0 \<longrightarrow> NUL \<in> set p"
    using build_path_shell [OF assms length_replicate] by blast
  with assms show ?thesis
    unfolding cmd_pwd_def by (intro runs_rules) (auto intro: known_c_string)
qed

lemma runs_mkdir: "shell_ok s \<Longrightarrow> args_ok argv \<Longrightarrow> runs (cmd_mkdir argv uid s) s"
  unfolding cmd_mkdir_def
  by (intro runs_rules runs_parent_writable) (auto intro: runs_known)

lemma runs_touch: "shell_ok s \<Longrightarrow> args_ok argv \<Longrightarrow> runs (cmd_touch argv uid s) s"
  unfolding cmd_touch_def
  by (intro runs_rules runs_parent_writable) (auto intro: runs_known)

lemma runs_cat: "shell_ok s \<Longrightarrow> args_ok argv \<Longrightarrow> runs (cmd_cat argv uid s) s"
proof -
  assume ok: "shell_ok s" and args: "args_ok argv"
  have contents: "known (c_string data) \<and> known (rd data (sz - Suc 0))"
    if "fs_read_file (sh_fs s) (shell_cwd s) (Some (argv ! 1)) = Some (Some (data, sz))" "\<not> length argv < 2" for data sz
    using read_file_shell [OF ok args_okD [OF args, of 1]] that by (auto simp: rd_def intro: known_c_string)
  show ?thesis
    unfolding cmd_cat_def
    by (intro runs_rules) (use ok args contents in \<open>auto intro: runs_known\<close>)
qed

lemma join_args_total:
  "args_ok as \<Longrightarrow> pos < FS_MAX_FILE_SIZE \<Longrightarrow> length buf = FS_MAX_FILE_SIZE \<Longrightarrow>
    \<exists>buf' pos'. join_args as buf pos = Some (buf', pos') \<and> length buf' = FS_MAX_FILE_SIZE \<and> pos' < FS_MAX_FILE_SIZE"
proof (induction "as" arbitrary: pos buf)
  case (Cons a "as")
  then have a: "nul_free a" "args_ok as" by (simp_all add: args_ok_def)
  have la: "length (c_str a) = length a + 1" by (simp add: c_str_def)
  show ?case
  proof (cases "pos + length a + 2 \<ge> FS_MAX_FILE_SIZE")
    case True
    with Cons.prems a show ?thesis by simp
  next
    case False
    define b where "b = take pos buf @ take (length a) (c_str a) @ drop (pos + length a) buf"
    have b: "kmemcpy_at buf pos (c_str a) (length a) = Some b" "length b = FS_MAX_FILE_SIZE"
      using False Cons.prems(3) la by (simp_all add: kmemcpy_at_eq b_def)
    then have w: "wr b (pos + length a) (CHR '' '') = Some (b[pos + length a := CHR '' ''])"
      using False unfolding wr_def by simp
    have "length (b[pos + length a := CHR '' '']) = FS_MAX_FILE_SIZE" using b(2) by simp
    from Cons.IH [OF a(2) _ this, of "pos + length a + 1"] Cons.IH [OF a(2) _ b(2), of "pos + length a"] False a(1) b w
    show ?thesis by simp
  qed
qed simp

lemma runs_cmd_write: "shell_ok s \<Longrightarrow> args_ok argv \<Longrightarrow> runs (cmd_write argv s) s"
proof -
  assume ok: "shell_ok s" and args: "args_ok argv"
  have "args_ok (drop 2 argv)" using args by (auto simp: args_ok_def dest: in_set_dropD)
  from join_args_total [OF this, of 0 "replicate FS_MAX_FILE_SIZE NUL"] obtain buf pos where
    j: "join_args (drop 2 argv) (replicate FS_MAX_FILE_SIZE NUL) 0 = Some (buf, pos)" "length buf = FS_MAX_FILE_SIZE" "pos < FS_MAX_FILE_SIZE"
    by auto
  have "runs (do {
        (r, s) \<leftarrow> on_fs (\<lambda>ns. fs_write_file ns (shell_cwd s) (Some (argv ! 1)) (Some (buf[pos := NUL])) pos) s;
        if r \<noteq> 0 then shell_println ''write: failed'' s else Some s }) s" if "\<not> length argv < 3"
    by (intro runs_rules on_fs_cwd) (use ok args_okD [OF args, of 1] that j(2,3) in \<open>auto simp: buffer_ok_def\<close>)
  then show ?thesis
    unfolding cmd_write_def using j ok by (simp add: runs_println)
qed

lemma runs_rm: "shell_ok s \<Longrightarrow> args_ok argv \<Longrightarrow> runs (cmd_rm argv s) s"
  unfolding cmd_rm_def by (intro runs_rules) (auto intro: runs_known)

subsection \<open>Users\<close>

lemma runs_print_digits: "shell_ok s \<Longrightarrow> \<forall>j \<in> set js. j < length buf \<Longrightarrow> runs (print_digits js buf s) s"
proof (induction js arbitrary: s)
  case (Cons j js)
  then show ?case unfolding print_digits.simps by (intro runs_rules) (auto simp: rd_def)
qed simp

lemma uint_digits_total:
  "i \<le> 11 \<Longrightarrow> length buf = 12 \<Longrightarrow> \<exists>buf' n. uint_digits v buf i = Some (buf', n) \<and> length buf' = 12 \<and> n \<le> 11"
proof (induction "11 - i" arbitrary: v buf i)
  case 0
  then show ?case by (subst uint_digits.simps) simp
next
  case (Suc k)
  then have "i < 11" by simp
  with Suc.hyps(1) [of "i + 1" "buf[i := c]" "v div 10" for c] Suc.hyps(2) Suc.prems show ?case
    by (subst uint_digits.simps) (simp add: wr_def)
qed

lemma runs_print_uint: "sh_step s t \<Longrightarrow> runs (shell_print_uint v t) s"
proof (rule runs_from [of _ t])
  assume "sh_step s t"
  then have ok: "shell_ok t" by (rule sh_step_ok)
  obtain buf n where "uint_digits v (replicate 12 NUL) 0 = Some (buf, n)" "length buf = 12" "n \<le> 11"
    using uint_digits_total [of 0 "replicate 12 NUL" v] by auto
  then show "runs (shell_print_uint v t) t"
    unfolding shell_print_uint_def using ok by (auto intro!: runs_print_digits runs_put_char)
qed

lemma runs_whoami: "shell_ok s \<Longrightarrow> runs (cmd_whoami s) s"
  unfolding cmd_whoami_def by (intro runs_rules) simp

lemma runs_id: "shell_ok s \<Longrightarrow> runs (cmd_id s) s"
  unfolding cmd_id_def Let_def by (intro runs_rules runs_print_uint) simp_all

lemma runs_chmod: "shell_ok s \<Longrightarrow> args_ok argv \<Longrightarrow> runs (cmd_chmod argv uid s) s"
  unfolding cmd_chmod_def by (intro runs_rules) (auto intro: runs_known)

lemma runs_require_root: "shell_ok s \<Longrightarrow> runs_val (require_root uid s) s"
  unfolding require_root_def by (intro runs_rules) auto

lemma runs_chown: "shell_ok s \<Longrightarrow> args_ok argv \<Longrightarrow> runs (cmd_chown argv uid s) s"
  unfolding cmd_chown_def by (intro runs_rules runs_require_root) (auto intro: runs_known)

end
