(* ===== verification/ShellNetSafe.thy ===== *)
theory ShellNetSafe
  imports ShellCmdSafe
begin

text \<open>The commands on packages and the network are defined and keep the invariant.\<close>

lemma ssid_known: "shell_ok s \<Longrightarrow> known (c_string (wifi_ssid s))"
  by (simp add: shell_ok_def known_c_string)

lemma sh_step_ssid:
  assumes "sh_step s t" "length ssid = FS_MAX_NAME + 1" "NUL \<in> set ssid"
  shows "sh_step s (t\<lparr>wifi_ssid := ssid\<rparr>)"
  using assms by (simp add: sh_step_def shell_ok_def)

lemma runs_sync: "sh_step s t \<Longrightarrow> runs (sync_state_with_packages t) s"
proof -
  assume step: "sh_step s t"
  then have len: "length (wifi_ssid t) = 32" by (simp add: sh_step_def shell_ok_def)
  then have "sh_step s (t\<lparr>wifi_ssid := (wifi_ssid t)[0 := NUL]\<rparr>)"
    by (intro sh_step_ssid [OF step]) (simp_all add: set_update_memI)
  then have "sh_step s (t\<lparr>wifi_ssid := (wifi_ssid t)[0 := NUL], network_manager_running := False, wifi_enabled := False,
      wifi_connected := False\<rparr>)" by simp
  moreover have "t\<lparr>wifi_ssid := x, network_manager_running := False, wifi_enabled := False, wifi_connected := False\<rparr>
      = t\<lparr>network_manager_running := False, wifi_enabled := False, wifi_connected := False, wifi_ssid := x\<rparr>" for x by simp
  ultimately show ?thesis
    using step len by (simp add: sync_state_with_packages_def wr_def)
qed

lemma find_loop_range: "package_find_loop ps i nm = Some j \<Longrightarrow> i \<le> j \<and> j < i + length ps"
  by (induction ps i nm rule: package_find_loop.induct) (auto split: if_splits)

lemma package_find_range: "package_find nm s = Some j \<Longrightarrow> j < length (package_repo s)"
  using find_loop_range [of "package_repo s" 0 nm j] by (simp add: package_find_def)

lemma runs_print_packages: "sh_step s t \<Longrightarrow> runs (print_packages ps t) s"
proof (induction ps arbitrary: s t)
  case (Cons p ps)
  then show ?case unfolding print_packages.simps by (intro runs_rules Cons.IH) simp_all
qed simp

lemma runs_apt_update: "shell_ok s \<Longrightarrow> runs (apt_update s) s"
  unfolding apt_update_def by (intro runs_rules) simp_all

text \<open>Output does not change the packages.\<close>

lemma output_repo:
  "write_string x s = Some t \<Longrightarrow> package_repo t = package_repo s"
  "shell_println x s = Some t \<Longrightarrow> package_repo t = package_repo s"
  by (auto simp: shell_println_def write_string_def bind_eq_Some_conv)

lemma runs_put_package:
  assumes "sh_step s t" "i < length (package_repo t)"
  shows "runs (do { repo \<leftarrow> wr (package_repo t) i p; sync_state_with_packages (t\<lparr>package_repo := repo\<rparr>) }) s"
  using assms by (simp add: wr_def runs_sync)

lemma runs_seq:
  "runs q s \<Longrightarrow> (\<And>t. q = Some t \<Longrightarrow> shell_ok t \<Longrightarrow> sh_step s t \<Longrightarrow> runs (f t) t) \<Longrightarrow> runs (q \<bind> f) s"
  unfolding runs_def using sh_step_trans sh_step_ok by fastforce

lemma runs_apt_change: "shell_ok s \<Longrightarrow> runs (apt_install nm s) s" "shell_ok s \<Longrightarrow> runs (apt_remove nm s) s"
proof -
  assume ok: "shell_ok s"
  have rd: "known (rd (package_repo s) i)" if "package_find nm s = Some i" for i
    using package_find_range [OF that] by (simp add: rd_def)
  show "runs (apt_install nm s) s"
    unfolding apt_install_def
    by (intro runs_if runs_option runs_output runs_query [OF rd] runs_seq runs_put_package)
      (use ok in \<open>auto dest!: output_repo package_find_range\<close>)
  show "runs (apt_remove nm s) s"
    unfolding apt_remove_def
    by (intro runs_if runs_option runs_output runs_query [OF rd] runs_seq runs_put_package)
      (use ok in \<open>auto dest!: output_repo package_find_range\<close>)
qed

lemma runs_apt: "shell_ok s \<Longrightarrow> runs (cmd_apt argv s) s"
  unfolding cmd_apt_def
  by (intro runs_if runs_apt_update runs_apt_change runs_bind runs_output runs_print_packages) simp_all

lemma runs_networkmanager: "shell_ok s \<Longrightarrow> runs (cmd_networkmanager argv s) s"
  unfolding cmd_networkmanager_def by (intro runs_rules) simp_all

lemma runs_nmcli_general: "shell_ok s \<Longrightarrow> runs (nmcli_general s) s"
  unfolding nmcli_general_def by (intro runs_rules) simp_all

lemma runs_nmcli_status: "shell_ok s \<Longrightarrow> runs (nmcli_device_status s) s"
  unfolding nmcli_device_status_def by (intro runs_rules ssid_known) simp_all

lemma runs_print_aps: "shell_ok s \<Longrightarrow> runs (print_aps as s) s"
proof (induction "as" arbitrary: s)
  case (Cons a "as")
  have "known (if wifi_connected s then do { ssid \<leftarrow> c_string (wifi_ssid s); Some (streq ssid (ap_ssid a)) } else Some False)"
    using ssid_known [OF Cons.prems] by (auto simp: known_ex)
  with Cons show ?case unfolding print_aps.simps by (intro runs_rules Cons.IH) simp_all
qed simp

lemma runs_connect:
  assumes ok: "shell_ok s" and args: "args_ok argv"
  shows "runs (nmcli_connect argv s) s"
proof -
  let ?ssid = "\<lambda>nm. (take 31 nm @ replicate (31 - length nm) NUL @ drop 31 (wifi_ssid s))[31 := NUL]"
  have len: "length (wifi_ssid s) = 32" using ok by (simp add: shell_ok_def)
  have copy: "kstrncpy (wifi_ssid s) (c_str nm) 31 = Some (take 31 nm @ replicate (31 - length nm) NUL @ drop 31 (wifi_ssid s))"
    if "nul_free nm" for nm
    using kstrncpy_eq [OF that, of 31 "wifi_ssid s" "[]"] len by (simp add: c_str_def)
  have "runs (do {
      s \<leftarrow> write_string x (s\<lparr>wifi_connected := True, wifi_ssid := ?ssid nm\<rparr>);
      t \<leftarrow> c_string (?ssid nm);
      s \<leftarrow> write_string t s;
      write_string [CHR 0x27, LF] s }) s" for x nm
  proof -
    have l: "length (?ssid nm) = 32" "31 < length (take 31 nm @ replicate (31 - length nm) NUL @ drop 31 (wifi_ssid s))"
      using len by (simp_all add: min_def)
    then have n: "NUL \<in> set (?ssid nm)" by (simp add: set_update_memI)
    have "sh_step s (s\<lparr>wifi_connected := True, wifi_ssid := ?ssid nm\<rparr>)"
      using ok l n by (intro sh_step_ssid) simp_all
    then show ?thesis by (intro runs_rules known_c_string [OF n]) simp_all
  qed
  then have go: "runs (do {
      ssid \<leftarrow> kstrncpy (wifi_ssid s) (c_str nm) FS_MAX_NAME;
      ssid \<leftarrow> wr ssid FS_MAX_NAME NUL;
      let s = s\<lparr>wifi_connected := True, wifi_ssid := ssid\<rparr>;
      s \<leftarrow> write_string x s;
      t \<leftarrow> c_string ssid;
      s \<leftarrow> write_string t s;
      write_string [CHR 0x27, LF] s }) s" if "nul_free nm" for x nm
    using copy [OF that] len by (simp add: wr_def Let_def min_def)
  show ?thesis
    unfolding nmcli_connect_def
    by (intro runs_if runs_option runs_println go) (use ok args in \<open>auto intro: args_okD\<close>)
qed

lemma runs_nmcli_rest:
  assumes "shell_ok s" "args_ok argv"
  shows "runs (nmcli_device argv s) s" "runs (nmcli_connection s) s" "runs (nmcli_radio argv s) s"
    "runs (nmcli_networking argv s) s"
proof -
  show "runs (nmcli_device argv s) s"
    unfolding nmcli_device_def
    by (intro runs_if runs_nmcli_status runs_connect runs_bind runs_println runs_print_aps) (use assms in simp_all)
  show "runs (nmcli_connection s) s"
    unfolding nmcli_connection_def by (intro runs_rules ssid_known) (use assms in simp_all)
  show "runs (nmcli_radio argv s) s"
    unfolding nmcli_radio_def by (intro runs_rules) (use assms in simp_all)
  show "runs (nmcli_networking argv s) s"
    unfolding nmcli_networking_def by (intro runs_rules) (use assms in simp_all)
qed

lemma runs_nmcli: "shell_ok s \<Longrightarrow> args_ok argv \<Longrightarrow> runs (cmd_nmcli argv s) s"
  unfolding cmd_nmcli_def by (intro runs_if runs_println runs_nmcli_general runs_nmcli_rest) simp_all

lemma runs_ifconfig: "shell_ok s \<Longrightarrow> runs (cmd_ifconfig s) s"
  unfolding cmd_ifconfig_def by (intro runs_rules) simp_all

end
