(* ===== verification/ShellParse.thy ===== *)
theory ShellParse
  imports ShellRun
begin

text \<open>
  What the parsers of kernel/shell.c compute: a command line is cut into its words, the numbers are
  the value of their digits, modulo \<open>2 ^ 32\<close> where the code does not check.
\<close>

subsection \<open>Words\<close>

text \<open>The words of a line, as a specification.\<close>

function line_words :: "string \<Rightarrow> string list" where
  "line_words s = (let t = dropWhile is_space s in
     if t = [] then [] else takeWhile (\<lambda>c. \<not> is_space c) t # line_words (dropWhile (\<lambda>c. \<not> is_space c) t))"
  by pat_completeness auto
termination
proof (relation "measure length")
  fix s t assume t: "t = dropWhile is_space s" "t \<noteq> []"
  then have "\<not> is_space (hd t)" using hd_dropWhile by blast
  then have "length (dropWhile (\<lambda>c. \<not> is_space c) t) < length t"
    using t(2) by (cases t) (simp_all add: le_imp_less_Suc length_dropWhile_le)
  also have "length t \<le> length s" unfolding t(1) by (rule length_dropWhile_le)
  finally show "(dropWhile (\<lambda>c. \<not> is_space c) t, s) \<in> measure length" by simp
qed simp

declare line_words.simps [simp del]

lemma line_words_space: "is_space c \<Longrightarrow> line_words (c # s) = line_words s"
  by (subst (1 2) line_words.simps) simp

lemma NUL_no_space [simp]: "\<not> is_space NUL"
  by (simp add: is_space_def)

lemma skip_spaces_eq:
  "skip_spaces (pre @ w @ NUL # post) (length pre) = Some (length pre + length (takeWhile is_space w))"
proof (induction w arbitrary: pre)
  case Nil
  show ?case by (subst skip_spaces.simps) (simp add: nth_append)
next
  case (Cons c w)
  then show ?case using Cons.IH [of "pre @ [c]"] by (subst skip_spaces.simps) (simp add: nth_append)
qed

lemma skip_word_eq:
  "nul_free w \<Longrightarrow> skip_word (pre @ w @ NUL # post) (length pre) = Some (length pre + length (takeWhile (\<lambda>c. \<not> is_space c) w))"
proof (induction w arbitrary: pre)
  case Nil
  show ?case by (subst skip_word.simps) (simp add: nth_append)
next
  case (Cons c w)
  then show ?case using Cons.IH [of "pre @ [c]"] by (subst skip_word.simps) (simp add: nth_append)
qed

lemma cstr_append_left: "NUL \<in> set x \<Longrightarrow> cstr (x @ y) = cstr x"
  by (induction x) (auto simp: cstr_Cons)

lemma drop_has_NUL: "NUL \<in> set (drop a pre) \<Longrightarrow> drop a (pre @ x) = drop a pre @ x \<and> NUL \<in> set (drop a (pre @ x))"
  by (cases "a \<le> length pre") auto

lemma parse_loop_words:
  assumes "nul_free w" "\<forall>a \<in> set argv. NUL \<in> set (drop a pre)" "length argv \<le> mx"
  shows "\<exists>argv' line'. parse_loop (pre @ w @ NUL # post) (length pre) argv mx = Some (argv', line')
    \<and> length line' = length (pre @ w @ NUL # post) \<and> (\<forall>a \<in> set argv'. NUL \<in> set (drop a line'))
    \<and> map (\<lambda>a. cstr (drop a line')) argv' = map (\<lambda>a. cstr (drop a pre)) argv @ take (mx - length argv) (line_words w)"
  using assms
proof (induction "mx - length argv" arbitrary: pre w argv)
  case 0
  then have "parse_loop (pre @ w @ NUL # post) (length pre) argv mx = Some (argv, pre @ w @ NUL # post)"
    by (subst parse_loop.simps) (simp add: rd_def)
  moreover have "map (\<lambda>a. cstr (drop a (pre @ w @ NUL # post))) argv = map (\<lambda>a. cstr (drop a pre)) argv"
    using 0(3) drop_has_NUL cstr_append_left by fastforce
  ultimately show ?case using 0(1,3) drop_has_NUL by auto
next
  case (Suc k)
  let ?line = "pre @ w @ NUL # post"
  have more: "length argv < mx" using Suc.hyps(2) by simp
  have old: "map (\<lambda>a. cstr (drop a (pre @ x))) argv = map (\<lambda>a. cstr (drop a pre)) argv"
    "\<forall>a \<in> set argv. NUL \<in> set (drop a (pre @ x))" for x
    using Suc.prems(2) drop_has_NUL cstr_append_left by fastforce+
  define sp where "sp = takeWhile is_space w"
  define w1 where "w1 = dropWhile is_space w"
  have w: "w = sp @ w1" by (simp add: sp_def w1_def)
  have nf: "nul_free w1" "nul_free sp" using Suc.prems(1) w by simp_all
  have ss: "skip_spaces ?line (length pre) = Some (length (pre @ sp))"
    using skip_spaces_eq [of pre w post] by (simp add: sp_def)
  have line1: "?line = (pre @ sp) @ w1 @ NUL # post" by (simp add: w)
  show ?case
  proof (cases "w1 = []")
    case True
    then have "line_words w = []" by (subst line_words.simps) (simp add: w1_def)
    moreover have "parse_loop ?line (length pre) argv mx = Some (argv, ?line)"
      using ss True by (subst parse_loop.simps) (auto simp: rd_def w nth_append)
    ultimately show ?thesis using old [of "w @ NUL # post"] by simp
  next
    case False
    define wd where "wd = takeWhile (\<lambda>c. \<not> is_space c) w1"
    define rest where "rest = dropWhile (\<lambda>c. \<not> is_space c) w1"
    have w1: "w1 = wd @ rest" by (simp add: wd_def rest_def)
    have words: "line_words w = wd # line_words rest"
      using False by (subst line_words.simps) (simp add: w1_def [symmetric] wd_def rest_def)
    have sw: "skip_word ?line (length (pre @ sp)) = Some (length (pre @ sp @ wd))"
      using skip_word_eq [OF nf(1), of "pre @ sp" post] unfolding line1 by (simp add: wd_def)
    have c0: "rd ?line (length pre) = Some (hd (w @ [NUL]))" "hd (w @ [NUL]) \<noteq> NUL"
      using False Suc.prems(1) by (cases w; simp add: rd_def w1_def nth_append)+
    have c1: "rd ?line (length (pre @ sp)) = Some (hd w1)" "hd w1 \<noteq> NUL"
      using False nf(1) unfolding line1 by (cases w1; simp add: rd_def nth_append)+
    have wdn: "nul_free wd" using nf(1) w1 by simp
    have c2: "rd ?line (length (pre @ sp @ wd)) = Some (hd (rest @ [NUL]))"
      unfolding line1 w1 by (cases rest) (simp_all add: rd_def nth_append)
    show ?thesis
    proof (cases rest)
      case Nil
      have "parse_loop ?line (length pre) argv mx = Some (argv @ [length (pre @ sp)], ?line)"
        using ss sw c0 c1 c2 more Nil by (subst parse_loop.simps) simp
      moreover have "line_words rest = []" unfolding Nil by (subst line_words.simps) simp
      moreover have "drop (length (pre @ sp)) ?line = wd @ NUL # post" unfolding line1 w1 Nil by simp
      ultimately show ?thesis
        using old [of "w @ NUL # post"] words wdn more by (simp add: take_Cons' del: drop_append)
    next
      case (Cons c w2)
      have "is_space (hd rest)"
        using Cons hd_dropWhile [of "\<lambda>c. \<not> is_space c" w1] unfolding rest_def by simp
      with Cons nf(1) w1 have c: "is_space c" "nul_free w2" "c \<noteq> NUL" by simp_all
      let ?pre = "pre @ sp @ wd @ [NUL]" and ?argv = "argv @ [length (pre @ sp)]"
      have upd: "wr ?line (length (pre @ sp @ wd)) NUL = Some (?pre @ w2 @ NUL # post)"
        unfolding line1 w1 Cons by (simp add: wr_def list_update_append)
      have new: "drop (length (pre @ sp)) ?pre = wd @ [NUL]" by simp
      have "\<forall>a \<in> set ?argv. NUL \<in> set (drop a ?pre)" using old(2) [of "sp @ wd @ [NUL]"] new by simp
      moreover have "k = mx - length ?argv" "length ?argv \<le> mx" using Suc.hyps(2) more by simp_all
      ultimately obtain argv' line' where ih:
        "parse_loop (?pre @ w2 @ NUL # post) (length ?pre) ?argv mx = Some (argv', line')"
        "length line' = length (?pre @ w2 @ NUL # post)" "\<forall>a \<in> set argv'. NUL \<in> set (drop a line')"
        "map (\<lambda>a. cstr (drop a line')) argv' = map (\<lambda>a. cstr (drop a ?pre)) ?argv @ take (mx - length ?argv) (line_words w2)"
        using Suc.hyps(1) [of ?argv w2 ?pre] c(2) by blast
      have "parse_loop ?line (length pre) argv mx = Some (argv', line')"
        using ss sw c0 c1 c2 more Cons c upd ih(1) by (subst parse_loop.simps) simp
      moreover have "line_words rest = line_words w2" using line_words_space [OF c(1)] Cons by simp
      moreover have "length line' = length ?line" using ih(2) w w1 Cons by simp
      ultimately show ?thesis
        using ih(3,4) old(1) [of "sp @ wd @ [NUL]"] new words wdn more
        by (intro exI [of _ argv'] exI [of _ line']) (simp add: take_Cons' cstr_append_left)
    qed
  qed
qed

lemma arg_strings_eq: "\<forall>a \<in> set ps. NUL \<in> set (drop a line) \<Longrightarrow> arg_strings line ps = Some (map (\<lambda>a. cstr (drop a line)) ps)"
  by (induction ps) (simp_all add: c_string_def)

lemma shell_parse_words:
  assumes "NUL \<in> set line"
  shows "\<exists>ps line'. shell_parse line mx = Some (ps, line') \<and> length line' = length line
    \<and> arg_strings line' ps = Some (take mx (line_words (cstr line)))"
proof -
  obtain post where line: "line = cstr line @ NUL # post" using cstr_split [OF assms] by blast
  with parse_loop_words [of "cstr line" "[]" "[]" mx post] arg_strings_eq show ?thesis
    by (auto simp: shell_parse_def)
qed

subsection \<open>Numbers\<close>

definition digits_value :: "nat \<Rightarrow> string \<Rightarrow> nat \<Rightarrow> nat" where
  "digits_value b s v = foldl (\<lambda>v c. v * b + (code c - code CHR ''0'')) v s"

lemma digits_value_Cons: "digits_value b (c # s) v = digits_value b s (v * b + (code c - code CHR ''0''))"
  by (simp add: digits_value_def)

lemma digits_value_mono: "0 < b \<Longrightarrow> v \<le> digits_value b s v"
proof (induction s arbitrary: v)
  case (Cons c s)
  have "v \<le> v * b + (code c - code CHR ''0'')" using Cons.prems by (simp add: trans_le_add1)
  with Cons.IH [OF Cons.prems] show ?case unfolding digits_value_Cons by (meson order_trans)
qed (simp add: digits_value_def)

lemma parse_u32_loop_eq:
  "parse_u32_loop s (word_of_nat v) = (if \<forall>c \<in> set s. is_digit c then Some (word_of_nat (digits_value 10 s v)) else None)"
proof (induction s arbitrary: v)
  case (Cons c s)
  have "(word_of_nat v * 10 + digit_of c :: u32) = word_of_nat (v * 10 + (code c - code CHR ''0''))"
    by (simp add: digit_of_def)
  with Cons.IH [of "v * 10 + (code c - code CHR ''0'')"] show ?case
    by (simp add: digits_value_Cons del: of_nat_add of_nat_mult)
qed (simp add: digits_value_def)

lemma parse_u32_eq:
  "parse_u32 (Some s) = (if s \<noteq> [] \<and> (\<forall>c \<in> set s. is_digit c) then Some (word_of_nat (digits_value 10 s 0)) else None)"
  using parse_u32_loop_eq [of s 0] by (simp add: parse_u32_def)

lemma parse_mode_loop_eq:
  assumes "v \<le> 511"
  shows "parse_mode_loop s (word_of_nat v) = (if (\<forall>c \<in> set s. is_octal_digit c) \<and> digits_value 8 s v \<le> 511
    then Some (word_of_nat (digits_value 8 s v)) else None)"
  using assms
proof (induction s arbitrary: v)
  case (Cons c s)
  let ?v = "v * 8 + (code c - code CHR ''0'')"
  show ?case
  proof (cases "is_octal_digit c")
    case True
    then have d: "code c - code CHR ''0'' \<le> 7" unfolding is_octal_digit_def by simp linarith
    have w: "(push_bit 3 (word_of_nat v) + digit_of c :: u32) = word_of_nat ?v"
      by (simp add: digit_of_def push_bit_eq_mult)
    have "?v < 2 ^ 32" using Cons.prems d by simp
    then have "unat (word_of_nat ?v :: u32) = ?v" by (simp add: unat_of_nat take_bit_nat_eq_self del: of_nat_add of_nat_mult)
    then have gt: "(0x1FF :: u32) < word_of_nat ?v \<longleftrightarrow> 511 < ?v" by (simp add: word_less_nat_alt del: of_nat_add of_nat_mult)
    show ?thesis
    proof (cases "?v \<le> 511")
      case False
      then have "\<not> digits_value 8 (c # s) v \<le> 511"
        unfolding digits_value_Cons using digits_value_mono [of 8 ?v s] by simp
      with True False gt w show ?thesis by (simp add: Let_def del: of_nat_add of_nat_mult)
    next
      case le: True
      with Cons.IH [of ?v] True gt w show ?thesis
        by (simp add: Let_def digits_value_Cons del: of_nat_add of_nat_mult)
    qed
  qed simp
qed (simp add: digits_value_def)

lemma parse_mode_octal_eq:
  "parse_mode_octal (Some s) = (if s \<noteq> [] \<and> (\<forall>c \<in> set s. is_octal_digit c) \<and> digits_value 8 s 0 \<le> 511
    then Some (word_of_nat (digits_value 8 s 0)) else None)"
proof -
  have "ucast (word_of_nat n :: u32) = (word_of_nat n :: u16)" if "n \<le> 511" for n
    using that by (simp add: word_unat_eq_iff unsigned_ucast_eq unat_of_nat take_bit_nat_eq_self)
  then show ?thesis using parse_mode_loop_eq [of 0 s] by (simp add: parse_mode_octal_def)
qed

lemma parse_uid_eq:
  assumes "nul_free s"
  shows "parse_uid (Some s) = (if s = ''root'' then Some 0 else if s = ''debian'' then Some 1000
    else if s \<noteq> [] \<and> (\<forall>c \<in> set s. is_digit c) \<and> digits_value 10 s 0 mod 2 ^ 32 \<le> 65535
    then Some (word_of_nat (digits_value 10 s 0 mod 2 ^ 32)) else None)"
proof -
  let ?n = "digits_value 10 s 0"
  have u: "unat (word_of_nat ?n :: u32) = ?n mod 2 ^ 32" by (simp add: unat_of_nat take_bit_eq_mod)
  then have "(65535 :: u32) < word_of_nat ?n \<longleftrightarrow> 65535 < ?n mod 2 ^ 32" by (simp add: word_less_nat_alt)
  moreover have "ucast (word_of_nat ?n :: u32) = (word_of_nat (?n mod 2 ^ 32) :: u16)"
    using u by (simp add: word_unat_eq_iff unsigned_ucast_eq unat_of_nat take_bit_eq_mod)
  ultimately show ?thesis
    using assms by (auto simp: parse_uid_def parse_u32_eq)
qed

end
