(* ===== verification/ShellRunSafe.thy ===== *)
theory ShellRunSafe
  imports ShellNetSafe ShellParse
begin

text \<open>
  The rest of the shell: the disk commands, reading a line, the editor, the dispatch and the loop. Only here
  does the position in the keyboard input move, so the judgement is \<^theory_text>\<open>ends\<close>: the
  code either returns with a good state or is waiting for a key in one.
\<close>

subsection \<open>Disk commands\<close>

lemma on_disk_runs:
  assumes "shell_ok s" "\<exists>r d. f (sh_disk s) = Some (r, d) \<and> disk_keeps (sh_disk s) d"
  shows "runs_val (on_disk f s) s"
  using assms by (auto simp: on_disk_def sh_step_def shell_ok_def disk_keeps_def text_step_refl)

lemma runs_save: "shell_ok s \<Longrightarrow> runs_val (on_disk (disk_save_fs hw) s) s"
  using disk_save_safe [of "sh_disk s" hw]
  by (intro on_disk_runs) (auto simp: shell_ok_def disk_keeps_def)

lemma runs_format: "shell_ok s \<Longrightarrow> runs_val (on_disk (disk_format_fs hw) s) s"
  using disk_format_safe [of "sh_disk s" hw] by (intro on_disk_runs) (auto simp: shell_ok_def)

text \<open>After a successful load the working directory must be reset, as the code does.\<close>

lemma load_shell:
  assumes "shell_ok s" "ram_exact hw"
  shows "\<exists>r t. on_disk (disk_load_fs hw) s = Some (r, t) \<and> sh_step s (t\<lparr>shell_cwd := 0\<rparr>) \<and> (r \<noteq> 0 \<longrightarrow> sh_step s t)"
proof -
  have "disk_ok (sh_disk s)" using assms(1) by (simp add: shell_ok_def)
  from disk_load_safe [OF this assms(2)] assms(1) show ?thesis
    by (auto simp: on_disk_def sh_step_def shell_ok_def disk_keeps_def text_step_refl at_root)
qed

lemma cwd_root: "sh_step s t \<Longrightarrow> sh_step s (t\<lparr>shell_cwd := fs_get_root\<rparr>)"
  by (simp add: sh_step_def shell_ok_def fs_get_root_def at_root)

lemma runs_mkdir_at:
  assumes "shell_ok s" "0 \<le> node" "in_table (sh_fs s) (nat node)" "nul_free p"
  shows "runs (mkdir_at node p owner mode s) s"
proof -
  have "\<exists>r ns. fs_mkdir_as (sh_fs s) node (Some p) owner mode = Some (r, ns) \<and> fs_keeps (sh_fs s) ns"
    using fs_create_in(1) [OF shell_fs(1) [OF assms(1)] assms(3,4)] assms(2) by simp
  with on_fs_runs [OF assms(1), of "\<lambda>ns. fs_mkdir_as ns node (Some p) owner mode"] show ?thesis
    unfolding mkdir_at_def by (intro runs_bind_val) auto
qed

lemma runs_write_at:
  assumes "shell_ok s" "0 \<le> node" "in_table (sh_fs s) (nat node)" "nul_free p" "nul_free text"
  shows "runs (write_at node p text s) s"
proof -
  have "buffer_ok (Some (c_str text)) (length text)" by (simp add: buffer_ok_def c_str_def)
  then have "\<exists>r ns. fs_write_file (sh_fs s) node (Some p) (Some (c_str text)) (length text) = Some (r, ns) \<and> fs_keeps (sh_fs s) ns"
    using fs_write_file_in [OF shell_fs(1) [OF assms(1)] assms(3,4)] assms(2) by simp
  then have "runs_val (on_fs (\<lambda>ns. fs_write_file ns node (Some p) (Some (c_str text)) (length text)) s) s"
    by (intro on_fs_runs [OF assms(1)])
  then have "runs (do { (_, s) \<leftarrow> on_fs (\<lambda>ns. fs_write_file ns node (Some p) (Some (c_str text)) (length text)) s; Some s }) s"
    by (intro runs_bind_val) auto
  with assms(5) show ?thesis by (simp add: write_at_def)
qed

lemmas runs_at_root = runs_mkdir_at [where node = fs_get_root] runs_write_at [where node = fs_get_root]

lemma runs_directories: "shell_ok s \<Longrightarrow> runs (make_directories s) s"
  unfolding make_directories_def by (intro runs_bind runs_at_root) (simp_all add: fs_get_root_def at_root)

lemma texts_nul_free [simp]:
  "nul_free os_release" "nul_free os_release_urls" "nul_free passwd_text" "nul_free group_text" "nul_free motd_text"
  "nul_free bashrc_text"
  by (simp_all add: os_release_def os_release_urls_def passwd_text_def group_text_def motd_text_def bashrc_text_def)

lemma runs_etc: "shell_ok s \<Longrightarrow> nul_free release \<Longrightarrow> nul_free motd \<Longrightarrow> runs (write_etc release motd s) s"
  unfolding write_etc_def by (intro runs_bind runs_if runs_at_root) (simp_all add: fs_get_root_def at_root)

lemma resolve_root:
  assumes "shell_ok s" "nul_free p" "0 \<le> node" "in_table (sh_fs s) (nat node)"
  shows "\<exists>r. fs_resolve (sh_fs s) node (Some p) = Some r \<and> (0 \<le> r \<longrightarrow> in_table (sh_fs s) (nat r))"
  using resolve_shell [of "s\<lparr>shell_cwd := node\<rparr>" p] assms by (simp add: shell_ok_def)

lemma known_resolve_root: "shell_ok s \<Longrightarrow> nul_free p \<Longrightarrow> known (fs_resolve (sh_fs s) fs_get_root (Some p))"
  using resolve_root [of s p fs_get_root] by (auto simp: known_def fs_get_root_def at_root)

lemma home_in:
  "shell_ok s \<Longrightarrow> fs_resolve (sh_fs s) fs_get_root (Some ''home'') = Some r \<Longrightarrow> 0 \<le> r \<Longrightarrow> in_table (sh_fs s) (nat r)"
  using resolve_root [of s "''home''" fs_get_root] by (auto simp: fs_get_root_def at_root)

lemma runs_install: "shell_ok s \<Longrightarrow> runs (cmd_install hw s) s"
  unfolding cmd_install_def
  by (intro runs_if runs_bind runs_bind_val runs_output runs_format runs_save runs_directories runs_etc runs_mkdir_at
        runs_query [OF known_resolve_root])
    (auto intro: cwd_root home_in)

lemma keep_in: "mkdir_at node p owner mode s = Some t \<Longrightarrow> shell_ok s \<Longrightarrow> 0 \<le> node \<Longrightarrow> in_table (sh_fs s) (nat node) \<Longrightarrow>
    nul_free p \<Longrightarrow> in_table (sh_fs t) (nat node)"
  using fs_create_in(1) [OF shell_fs(1), of s "nat node" p owner mode]
  by (auto simp: mkdir_at_def on_fs_def bind_eq_Some_conv fs_keeps_def)

lemma runs_seed: "shell_ok s \<Longrightarrow> runs (shell_seed_filesystem s) s"
proof -
  assume ok: "shell_ok s"
  have deb: "runs (do {
             s \<leftarrow> mkdir_at home_node ''debian'' SHELL_UID_DEBIAN 0x1ED s;
             deb \<leftarrow> fs_resolve (sh_fs s) home_node (Some ''debian'');
             if deb \<ge> 0 then write_at deb ''.bashrc'' bashrc_text s else Some s }) s"
    if s: "shell_ok s" "0 \<le> home_node" "in_table (sh_fs s) (nat home_node)" for s :: "'a shell" and home_node
  proof (rule runs_seq)
    show "runs (mkdir_at home_node ''debian'' SHELL_UID_DEBIAN 0x1ED s) s" by (rule runs_mkdir_at) (use s in simp_all)
    fix t assume t: "mkdir_at home_node ''debian'' SHELL_UID_DEBIAN 0x1ED s = Some t" "shell_ok t"
    from keep_in [OF t(1) s] have h: "in_table (sh_fs t) (nat home_node)" by simp
    obtain r where r: "fs_resolve (sh_fs t) home_node (Some ''debian'') = Some r" "0 \<le> r \<longrightarrow> in_table (sh_fs t) (nat r)"
      using resolve_root [OF t(2) _ s(2) h, of "''debian''"] by auto
    then show "runs (do { deb \<leftarrow> fs_resolve (sh_fs t) home_node (Some ''debian'');
        if deb \<ge> 0 then write_at deb ''.bashrc'' bashrc_text t else Some t }) t"
      using t(2) by (auto intro: runs_write_at)
  qed
  show ?thesis
    unfolding shell_seed_filesystem_def
    by (intro runs_bind runs_if runs_directories runs_etc deb runs_query [OF known_resolve_root])
      (use ok in \<open>auto intro: home_in\<close>)
qed

lemma runs_sync_cmd: "shell_ok s \<Longrightarrow> runs (cmd_sync hw s) s"
  unfolding cmd_sync_def by (intro runs_if runs_bind_val runs_output runs_save) simp_all

lemma runs_disk:
  assumes "shell_ok s" "ram_exact hw"
  shows "runs (cmd_disk hw argv s) s"
proof -
  obtain r t where l: "on_disk (disk_load_fs hw) s = Some (r, t)" "sh_step s (t\<lparr>shell_cwd := 0\<rparr>)" "r \<noteq> 0 \<longrightarrow> sh_step s t"
    using load_shell [OF assms] by blast
  then have load: "runs (do {
        (r, s) \<leftarrow> on_disk (disk_load_fs hw) s;
        if r \<noteq> 0 then println_all [''disk load: failed'', disk_last_error (sh_disk s)] s
        else shell_println ''disk load: ok'' (s\<lparr>shell_cwd := fs_get_root\<rparr>) }) s"
    by (auto intro!: runs_println_all runs_println simp: fs_get_root_def simp del: println_all.simps)
  show ?thesis
    unfolding cmd_disk_def
    by (intro runs_if load runs_bind runs_bind_val runs_output runs_format runs_sync_cmd)
      (use assms(1) in \<open>auto intro: cwd_root\<close>)
qed

end
