(* ===== verification/LineEdit.thy ===== *)
theory LineEdit
  imports ShellRun VgaSpec
begin

text \<open>
  What \<open>shell_read_line\<close> of kernel/shell.c computes. \<^theory_text>\<open>typed_line\<close> takes the characters
  up to the next Enter from the keyboard, \<^theory_text>\<open>edit_line\<close> is the effect of typing them:
  a backspace takes the last character back, a printable one is added while there is room, and all others do
  nothing. The buffer of the code is the array that holds the line so far.
\<close>

fun edit_char :: "nat \<Rightarrow> string \<Rightarrow> char \<Rightarrow> string" where
  "edit_char mx s c = (if c = BS then butlast s else if is_printable c \<and> length s + 1 < mx then s @ [c] else s)"

definition edit_line :: "nat \<Rightarrow> string \<Rightarrow> string \<Rightarrow> string" where
  "edit_line mx s cs = foldl (edit_char mx) s cs"

lemma edit_line_simps [simp]:
  "edit_line mx s [] = s" "edit_line mx s (c # cs) = edit_line mx (edit_char mx s c) cs"
  by (simp_all add: edit_line_def)

lemma printable_nz: "is_printable c \<Longrightarrow> c \<noteq> NUL"
  by (auto simp: is_printable_def)

lemma edit_char_inv:
  "length s < mx \<Longrightarrow> list_all is_printable s \<Longrightarrow> length (edit_char mx s c) < mx \<and> list_all is_printable (edit_char mx s c)"
  by (auto simp: list_all_iff dest: in_set_butlastD)

lemma edit_line_inv:
  "length s < mx \<Longrightarrow> list_all is_printable s \<Longrightarrow> length (edit_line mx s cs) < mx \<and> list_all is_printable (edit_line mx s cs)"
proof (induction cs arbitrary: s)
  case (Cons c cs)
  with edit_char_inv [of s mx c] show ?case by (simp del: edit_char.simps)
qed simp

lemma edit_line_nul_free: "list_all is_printable s \<Longrightarrow> nul_free s"
  using printable_nz by (auto simp: nul_free_def list_all_iff)

text \<open>Without a backspace a printable line is what was typed, cut to the length of the buffer.\<close>

lemma edit_line_plain: "list_all (\<lambda>c. c \<noteq> BS \<and> is_printable c) cs \<Longrightarrow> length s < mx \<Longrightarrow> edit_line mx s cs = take (mx - 1) (s @ cs)"
proof (induction cs arbitrary: s)
  case (Cons c cs)
  show ?case
  proof (cases "length s + 1 < mx")
    case True
    with Cons show ?thesis by (simp add: take_Cons')
  next
    case False
    then have "edit_line mx s (c # cs) = edit_line mx s cs" "length s = mx - 1" using Cons.prems by simp_all
    with Cons.IH [of s] Cons.prems show ?thesis by simp
  qed
qed simp

function typed_line :: "keyboard \<Rightarrow> (u8 \<times> u8) list \<Rightarrow> (string \<times> keyboard \<times> (u8 \<times> u8) list) option" where
  "typed_line k polls = do {
     (c, k', rest) \<leftarrow> keyboard_getchar k polls;
     if c = LF \<or> c = CR then Some ([], k', rest)
     else do { (cs, k'', rest) \<leftarrow> typed_line k' rest; Some (c # cs, k'', rest) } }"
  by pat_completeness auto
termination by (relation "measure (\<lambda>(k, polls). length polls)") (auto dest: keyboard_getchar_shorter)

declare typed_line.simps [simp del]

lemma typed_line_None: "keyboard_getchar k polls = None \<Longrightarrow> typed_line k polls = None"
  by (subst typed_line.simps) simp

lemma typed_line_enter: "keyboard_getchar k polls = Some (c, k', rest) \<Longrightarrow> c = LF \<or> c = CR \<Longrightarrow> typed_line k polls = Some ([], k', rest)"
  by (subst typed_line.simps) auto

lemma typed_line_char: "keyboard_getchar k polls = Some (c, k', rest) \<Longrightarrow> c \<noteq> LF \<Longrightarrow> c \<noteq> CR \<Longrightarrow>
    typed_line k polls = map_option (\<lambda>(cs, r). (c # cs, r)) (typed_line k' rest)"
  by (subst typed_line.simps) (auto split: bind_splits)

lemma typed_line_shorter: "typed_line k polls = Some (cs, k', rest) \<Longrightarrow> length rest < length polls"
proof (induction k polls arbitrary: cs rule: typed_line.induct)
  case (1 k polls)
  show ?case
  proof (cases "keyboard_getchar k polls")
    case None
    with 1 show ?thesis by (simp add: typed_line_None)
  next
    case (Some a)
    obtain c k1 r1 where a: "a = (c, k1, r1)" using prod_cases3 by blast
    note g = Some [unfolded a] and short = keyboard_getchar_shorter [OF Some [unfolded a]]
    show ?thesis
    proof (cases "c = LF \<or> c = CR")
      case True
      with g short 1(2) show ?thesis by (simp add: typed_line_enter)
    next
      case False
      with g short 1(2) 1(1) [OF g refl refl] show ?thesis by (auto simp: typed_line_char)
    qed
  qed
qed

definition line_result ::
  "char list \<Rightarrow> string \<Rightarrow> nat \<Rightarrow> (string \<times> keyboard \<times> (u8 \<times> u8) list) option \<Rightarrow> vga
    \<Rightarrow> (vga, char list \<times> nat \<times> keyboard \<times> (u8 \<times> u8) list \<times> vga) input option \<Rightarrow> bool" where
  "line_result buf s mx typed v r \<longleftrightarrow> (case typed of
     None \<Rightarrow> \<exists>v'. r = Some (Waiting v') \<and> text_step v v'
   | Some (cs, k, rest) \<Rightarrow> \<exists>b v'. r = Some (Got (edit_line mx s cs @ NUL # b, length (edit_line mx s cs), k, rest, v'))
       \<and> text_step v v' \<and> length (edit_line mx s cs @ NUL # b) = mx)"

lemma line_result_step:
  assumes "line_result buf' s' mx typed v' r" "text_step v v'"
    "\<And>cs. edit_line mx s' cs = edit_line mx s (c # cs)"
  shows "line_result buf s mx (map_option (\<lambda>(cs, r). (c # cs, r)) typed) v r"
proof (cases typed)
  case None
  with assms show ?thesis by (auto simp: line_result_def intro: text_step_trans)
next
  case (Some a)
  with assms show ?thesis
    by (cases a) (auto simp: line_result_def simp del: edit_line_simps intro: text_step_trans)
qed

lemma take_write: "take n b = s \<Longrightarrow> length s = n \<Longrightarrow> n < length b \<Longrightarrow> take (n + 1) (b[n := c]) = s @ [c]"
  by (auto simp: take_Suc_conv_app_nth)

lemma read_line_loop_edit:
  assumes "vga_ok v" "in_viewport v" "take (length s) buf = s" "length s < length buf" "list_all is_printable s"
  shows "line_result buf s (length buf) (typed_line k polls) v (read_line_loop buf (length s) (length buf) k polls v)"
  using assms
proof (induction k polls arbitrary: buf s v rule: typed_line.induct)
  case (1 k polls)
  note vok = 1(2,3) and pre = 1(4,5,6)
  let ?mx = "length buf"
  show ?case
  proof (cases "keyboard_getchar k polls")
    case None
    then show ?thesis
      using vok text_step_refl
      by (subst read_line_loop.simps) (simp add: typed_line_None line_result_def)
  next
    case (Some a)
    obtain c k1 r1 where "a = (c, k1, r1)" using prod_cases3 by blast
    with Some have g: "keyboard_getchar k polls = Some (c, k1, r1)" by simp
    have put: "\<exists>v'. vga_putchar v c = Some v' \<and> text_step v v' \<and> vga_ok v' \<and> in_viewport v'" for c
      using vga_putchar_step [OF vok(1), of c] vok(2) by (auto simp: text_step_def)
    show ?thesis
    proof (cases "c = LF \<or> c = CR")
      case True
      obtain v' where v': "vga_putchar v LF = Some v'" "text_step v v'" using put by blast
      have "buf[length s := NUL] = s @ NUL # drop (Suc (length s)) buf"
        using pre(1,2) by (simp add: upd_conv_take_nth_drop)
      then show ?thesis
        using True v' pre g
        by (subst read_line_loop.simps) (auto simp: typed_line_enter [OF g True] line_result_def)
    next
      case False
      note ih = 1(1) [OF g refl refl False]
      show ?thesis
      proof (cases "c = BS")
        case BS: True
        show ?thesis
        proof (cases "s = []")
          case True
          from True BS line_result_step [OF ih [OF vok pre] text_step_refl [OF vok(1)], of s BS buf]
          show ?thesis using g by (subst read_line_loop.simps) (simp add: typed_line_char)
        next
          case ne: False
          have "\<not> (v_row v = 0 \<and> v_col v = 0 \<and> v_top v \<noteq> 0)" using vok by (auto simp: in_viewport_def vga_ok_def)
          from vga_backspace_step [OF vok(1) this] vok(2) obtain v' where
            v': "vga_backspace v = Some v'" "text_step v v'" "vga_ok v'" "in_viewport v'" by (auto simp: text_step_def)
          have "take (length s - 1) buf = butlast s" using pre(1,2) by (metis butlast_take less_imp_le)
          moreover have "list_all is_printable (butlast s)" using pre(3) by (auto simp: list_all_iff dest: in_set_butlastD)
          ultimately have "line_result buf (butlast s) ?mx (typed_line k1 r1) v' (read_line_loop buf (length (butlast s)) ?mx k1 r1 v')"
            using pre(2) v'(3,4) by (intro ih) simp_all
          with BS False g ne v' show ?thesis
            by (subst read_line_loop.simps) (auto simp: typed_line_char intro: line_result_step)
        qed
      next
        case nBS: False
        show ?thesis
        proof (cases "is_printable c \<and> length s + 1 < ?mx")
          case True
          obtain v' where v': "vga_putchar v c = Some v'" "text_step v v'" "vga_ok v'" "in_viewport v'" using put by blast
          have "take (length (s @ [c])) (buf[length s := c]) = s @ [c]"
            using take_write [of "length s" buf s c] pre(1,2) by simp
          then have "line_result (buf[length s := c]) (s @ [c]) (length (buf[length s := c])) (typed_line k1 r1) v'
              (read_line_loop (buf[length s := c]) (length (s @ [c])) (length (buf[length s := c])) k1 r1 v')"
            using True pre v'(3,4) by (intro ih) simp_all
          with True False nBS g v' pre(2) show ?thesis
            by (subst read_line_loop.simps) (auto simp: typed_line_char intro: line_result_step)
        next
          case no: False
          with nBS line_result_step [OF ih [OF vok pre] text_step_refl [OF vok(1)], of s c buf] False g show ?thesis
            by (subst read_line_loop.simps) (auto simp: typed_line_char)
        qed
      qed
    qed
  qed
qed

end
