(* ===== verification/ShellLoopSafe.thy ===== *)
theory ShellLoopSafe
  imports ShellRunSafe LineEdit
begin

text \<open>
  The parts of kernel/shell.c that read the keyboard: the editor, the dispatch of a command and the loop.
  Their judgement is \<^theory_text>\<open>ends\<close>: the code is defined, and either waits for a key in a good
  state or returns one with at most as many polls left.
\<close>

subsection \<open>The judgement\<close>

definition sh_moves :: "'h shell \<Rightarrow> 'h shell \<Rightarrow> bool" where
  "sh_moves s t \<longleftrightarrow> shell_ok t \<and> shell_uid t = shell_uid s \<and> length (sh_polls t) \<le> length (sh_polls s)
     \<and> text_step (sh_vga s) (sh_vga t)"

definition waits :: "'h shell \<Rightarrow> 'h shell \<Rightarrow> bool" where
  "waits s t \<longleftrightarrow> shell_ok t \<and> text_step (sh_vga s) (sh_vga t)"

definition ends :: "('h shell, 'h shell) input option \<Rightarrow> 'h shell \<Rightarrow> bool" where
  "ends r s \<longleftrightarrow> (case r of None \<Rightarrow> False | Some (Waiting t) \<Rightarrow> waits s t | Some (Got t) \<Rightarrow> sh_moves s t)"

lemma ends_simps [simp]:
  "\<not> ends None s" "ends (Some (Waiting t)) s \<longleftrightarrow> waits s t" "ends (Some (Got t)) s \<longleftrightarrow> sh_moves s t"
  by (simp_all add: ends_def)

lemma sh_step_moves: "sh_step s t \<Longrightarrow> sh_moves s t"
  by (simp add: sh_step_def sh_moves_def)

lemma sh_moves_trans: "sh_moves s t \<Longrightarrow> sh_moves t u \<Longrightarrow> sh_moves s u"
  using text_step_trans by (fastforce simp: sh_moves_def)

lemma waits_trans: "sh_moves s t \<Longrightarrow> waits t u \<Longrightarrow> waits s u"
  using text_step_trans by (fastforce simp: sh_moves_def waits_def)

lemma ends_from: "ends r t \<Longrightarrow> sh_moves s t \<Longrightarrow> ends r s"
  using sh_moves_trans waits_trans by (auto simp: ends_def split: option.splits input.splits)

lemma ends_cases: "ends r s \<Longrightarrow> (\<exists>t. r = Some (Waiting t) \<and> waits s t) \<or> (\<exists>t. r = Some (Got t) \<and> sh_moves s t)"
  by (auto simp: ends_def split: option.splits input.splits)

lemma ends_bind: "runs q s \<Longrightarrow> (\<And>t. shell_ok t \<Longrightarrow> sh_step s t \<Longrightarrow> ends (f t) t) \<Longrightarrow> ends (q \<bind> f) s"
  unfolding runs_def using ends_from sh_step_moves sh_step_ok by fastforce

lemma ends_bind_val:
  "runs_val q s \<Longrightarrow> (\<And>v t. q = Some (v, t) \<Longrightarrow> shell_ok t \<Longrightarrow> sh_step s t \<Longrightarrow> ends (f v t) t) \<Longrightarrow>
    ends (q \<bind> (\<lambda>(v, t). f v t)) s"
  unfolding runs_val_def using ends_from sh_step_moves sh_step_ok by fastforce

lemma ends_query: "known q \<Longrightarrow> (\<And>x. q = Some x \<Longrightarrow> ends (f x) s) \<Longrightarrow> ends (q \<bind> f) s"
  by (cases q) (simp_all add: known_def)

lemma ends_if: "(b \<Longrightarrow> ends p s) \<Longrightarrow> (\<not> b \<Longrightarrow> ends q s) \<Longrightarrow> ends (if b then p else q) s"
  by simp

lemma ends_option:
  "(x = None \<Longrightarrow> ends p s) \<Longrightarrow> (\<And>v. x = Some v \<Longrightarrow> ends (q v) s) \<Longrightarrow> ends (case x of None \<Rightarrow> p | Some v \<Rightarrow> q v) s"
  by (cases x) simp_all

lemma ends_prod: "(\<And>a b. x = (a, b) \<Longrightarrow> ends (f a b) s) \<Longrightarrow> ends (case x of (a, b) \<Rightarrow> f a b) s"
  by (cases x) simp

lemma ends_Got: "runs r s \<Longrightarrow> ends (map_option Got r) s" "runs r s \<Longrightarrow> ends (return_of r) s"
  using sh_step_moves by (auto simp: runs_def return_of_def)

lemmas ends_rules = ends_if ends_option ends_prod ends_bind ends_bind_val ends_query

subsection \<open>The editor\<close>

lemma runs_erase: "shell_ok s \<Longrightarrow> runs (erase_char s) s"
proof -
  assume ok: "shell_ok s"
  then have "\<not> (v_row (sh_vga s) = 0 \<and> v_col (sh_vga s) = 0 \<and> v_top (sh_vga s) \<noteq> 0)" "vga_ok (sh_vga s)"
    by (auto simp: shell_ok_def in_viewport_def vga_ok_def)
  from vga_backspace_step [OF this(2,1)] shell_ok_vga [OF ok] show ?thesis by (auto simp: erase_char_def)
qed

lemma runs_save_file:
  assumes "shell_ok s" "nul_free path" "len \<le> length buf"
  shows "runs (save_file path buf len s) s"
proof -
  have "buffer_ok (Some buf) len" using assms(3) by (simp add: buffer_ok_def)
  from on_fs_cwd(5) [OF assms(1,2) this] show ?thesis unfolding save_file_def by (intro runs_bind_val) auto
qed

lemma ends_nano_loop:
  assumes "shell_ok s" "nul_free path" "length buf = FS_MAX_FILE_SIZE" "len < FS_MAX_FILE_SIZE"
    "length polls \<le> length (sh_polls s)"
  shows "ends (nano_loop path buf len dirty k polls s) s"
  using assms
proof (induction "length polls" arbitrary: buf len dirty k polls s rule: less_induct)
  case less
  note ok = less(2) and path = less(3) and size = less(4,5) and polls = less(6)
  show ?case
  proof (cases "keyboard_getchar k polls")
    case None
    with ok show ?thesis by (subst nano_loop.simps) (simp add: waits_def shell_ok_def text_step_refl)
  next
    case (Some a)
    obtain c k1 r1 where "a = (c, k1, r1)" using prod_cases3 by blast
    with Some have g: "keyboard_getchar k polls = Some (c, k1, r1)" by simp
    note short = keyboard_getchar_shorter [OF g]
    have again: "ends (nano_loop path b n d k1 r1 t) t"
      if "sh_step s t" "length b = FS_MAX_FILE_SIZE" "n < FS_MAX_FILE_SIZE" for b n d t
      using that short polls path by (intro less(1)) (auto simp: sh_step_def)
    have same: "ends (nano_loop path buf len dirty k1 r1 s) s" using ok size by (intro again) simp_all
    have exit: "ends (Some (Got (t\<lparr>sh_kbd := k1, sh_polls := r1\<rparr>))) t" if "sh_step s t" for t
      using that short polls by (simp add: sh_step_def sh_moves_def shell_ok_def text_step_refl)
    show ?thesis
      using size path ok
      by (subst nano_loop.simps)
        (auto simp: g intro!: ends_bind runs_save_file runs_println runs_put_char runs_erase again exit same
          intro: sh_step_trans)
  qed
qed

lemma runs_clear: "shell_ok s \<Longrightarrow> runs (do { v \<leftarrow> vga_clear (sh_vga s); Some (s\<lparr>sh_vga := v\<rparr>) }) s"
proof -
  assume ok: "shell_ok s"
  then have "vga_ok (sh_vga s)" by (simp add: shell_ok_def)
  from vga_clear_step [OF this] shell_ok_vga [OF ok] show ?thesis by auto
qed

lemma ends_nano:
  assumes "shell_ok s" "args_ok argv"
  shows "ends (cmd_nano argv s) s"
proof -
  have known: "known (if r \<noteq> 0 then Some None else fs_read_file (sh_fs t) (shell_cwd t) (Some (argv ! 1)))"
    if "shell_ok t" "\<not> length argv < 2" for r :: int and t :: "'a shell"
    using that assms(2) by (intro known_if known_read_file) (simp_all add: args_ok_nth)
  have edit: "ends (do {
      buf \<leftarrow> kmemcpy (replicate FS_MAX_FILE_SIZE NUL) data (if sz \<ge> FS_MAX_FILE_SIZE then FS_MAX_FILE_SIZE - 1 else sz);
      buf \<leftarrow> wr buf (if sz \<ge> FS_MAX_FILE_SIZE then FS_MAX_FILE_SIZE - 1 else sz) NUL;
      s \<leftarrow> println_all [''--- FurNano ---'', ''Ctrl+S save, Ctrl+X save+exit'', ''---------------''] s;
      s \<leftarrow> (if (if sz \<ge> FS_MAX_FILE_SIZE then FS_MAX_FILE_SIZE - 1 else sz) > 0 then do { t \<leftarrow> c_string buf; write_string t s } else Some s);
      nano_loop (argv ! 1) buf (if sz \<ge> FS_MAX_FILE_SIZE then FS_MAX_FILE_SIZE - 1 else sz) False (sh_kbd s) (sh_polls s) s }) s"
    if "shell_ok s" "\<not> length argv < 2"
      "(if r \<noteq> 0 then Some None else fs_read_file (sh_fs s) (shell_cwd s) (Some (argv ! 1))) = Some (Some (data, sz))"
    for r :: int and s :: "'a shell" and data sz
  proof -
    have p: "nul_free (argv ! 1)" using assms(2) that(2) by (simp add: args_ok_nth)
    have d: "length data = FS_MAX_FILE_SIZE" "sz < FS_MAX_FILE_SIZE"
      using read_file_shell [OF that(1) p] that(3) by (auto split: if_splits)
    have n: "(if sz \<ge> FS_MAX_FILE_SIZE then FS_MAX_FILE_SIZE - 1 else sz) = sz" using d(2) by simp
    define b where "b = (take sz data @ drop sz (replicate FS_MAX_FILE_SIZE NUL))[sz := NUL]"
    have "length b = FS_MAX_FILE_SIZE" using d by (simp add: b_def)
    moreover have "NUL \<in> set b" using d unfolding b_def by (intro set_update_memI) simp
    moreover have "kmemcpy (replicate FS_MAX_FILE_SIZE NUL) data sz = Some (take sz data @ drop sz (replicate FS_MAX_FILE_SIZE NUL))"
      unfolding kmemcpy_eq using d by simp
    moreover have "wr (take sz data @ drop sz (replicate FS_MAX_FILE_SIZE NUL)) sz NUL = Some b"
      using d unfolding b_def by (intro wr_Some) simp
    ultimately show ?thesis
      unfolding n using that(1) p d(2)
      by (auto intro!: ends_bind runs_query runs_println_all runs_if runs_write known_c_string ends_nano_loop
          simp del: println_all.simps split del: if_split)
  qed
  show ?thesis
    unfolding cmd_nano_def Let_def
    by (intro ends_if ends_bind_val ends_query [OF known] ends_option ends_prod ends_Got edit)
      (use assms in \<open>auto intro: runs_println on_fs_cwd args_ok_nth\<close>)
qed

end
