(* ===== verification/ShellRunning.thy ===== *)
theory ShellRunning
  imports ShellLoopSafe
begin

text \<open>
  A whole session of the shell: running a command, with or without \<open>sudo\<close>, the loop over the lines and
  \<open>shell_run\<close>.
\<close>

subsection \<open>Running a command\<close>

text \<open>With \<open>sudo\<close> the command runs as root and the user is set back when it returns.\<close>

lemma ends_sudo:
  assumes "shell_ok s" "\<And>t. shell_ok t \<Longrightarrow> 2 \<le> length argv \<Longrightarrow> ends (shell_dispatch hw (tl argv) t) t"
  shows "ends (cmd_sudo hw argv s) s"
proof (cases "length argv < 2")
  case True
  with assms(1) show ?thesis by (subst cmd_sudo.simps) (auto intro!: ends_Got runs_println)
next
  case False
  let ?r = "s\<lparr>shell_uid := SHELL_UID_ROOT\<rparr>"
  have "ends (shell_dispatch hw (tl argv) ?r) ?r" using assms(1) False by (intro assms(2)) simp_all
  then consider t where "shell_dispatch hw (tl argv) ?r = Some (Waiting t)" "waits ?r t"
    | t where "shell_dispatch hw (tl argv) ?r = Some (Got t)" "sh_moves ?r t"
    using ends_cases by blast
  then show ?thesis
    using False by cases (subst cmd_sudo.simps, simp add: waits_def sh_moves_def)+
qed

lemma ends_dispatch:
  assumes "ram_exact hw"
  shows "shell_ok s \<Longrightarrow> args_ok argv \<Longrightarrow> ends (shell_dispatch hw argv s) s"
proof (induction "length argv" arbitrary: argv s rule: less_induct)
  case less
  have sudo: "ends (cmd_sudo hw argv s) s"
    using less.prems(2) by (intro ends_sudo less.prems(1) less.hyps) (simp_all add: args_ok_tl)
  note cmds = runs_help runs_clear runs_whoami runs_id runs_pwd runs_ls runs_cd runs_mkdir runs_touch runs_cat runs_cmd_write
    runs_rm runs_chmod runs_chown runs_install runs_disk runs_sync_cmd runs_apt runs_networkmanager runs_nmcli runs_ifconfig
  have unknown: "runs (do { s \<leftarrow> write_string (argv ! 0) s; shell_println m s }) s" for m
    using less.prems(1) by (intro runs_bind runs_output) simp_all
  have "sh_moves s s" "sh_moves s (cmd_logout s)"
    using less.prems(1) by (auto intro: sh_step_moves simp: cmd_logout_def)
  then show ?case
    by (subst shell_dispatch.simps)
      (intro ends_if ends_Got(2) cmds unknown sudo ends_nano assms less.prems; simp add: less.prems)
qed

subsection \<open>Reading a line\<close>

lemma shell_read_line_edit:
  assumes "shell_ok s" "0 < length buf"
  shows "case typed_line (sh_kbd s) (sh_polls s) of
      None \<Rightarrow> \<exists>t. shell_read_line buf s = Some (Waiting t) \<and> waits s t
    | Some (cs, k, rest) \<Rightarrow> \<exists>b v. shell_read_line buf s = Some (Got (edit_line (length buf) [] cs @ NUL # b,
          length (edit_line (length buf) [] cs), s\<lparr>sh_vga := v, sh_kbd := k, sh_polls := rest\<rparr>))
        \<and> length (edit_line (length buf) [] cs @ NUL # b) = length buf \<and> nul_free (edit_line (length buf) [] cs)
        \<and> text_step (sh_vga s) v \<and> shell_ok (s\<lparr>sh_vga := v, sh_kbd := k, sh_polls := rest\<rparr>)"
proof -
  have "vga_ok (sh_vga s)" "in_viewport (sh_vga s)" using assms(1) by (simp_all add: shell_ok_def)
  from read_line_loop_edit [OF this, of "[]" buf "sh_kbd s" "sh_polls s"] assms(2)
  have r: "line_result buf [] (length buf) (typed_line (sh_kbd s) (sh_polls s)) (sh_vga s)
    (read_line_loop buf 0 (length buf) (sh_kbd s) (sh_polls s) (sh_vga s))" by simp
  have ok: "shell_ok (s\<lparr>sh_vga := v\<rparr>)" if "text_step (sh_vga s) v" for v
    using shell_ok_vga [OF assms(1) that] by (rule sh_step_ok)
  have ok': "shell_ok (s\<lparr>sh_vga := v, sh_kbd := k, sh_polls := p\<rparr>)" if "text_step (sh_vga s) v" for v k p
    using ok [OF that] by simp
  have nf: "nul_free (edit_line (length buf) [] cs)" for cs
    using edit_line_inv [of "[]" "length buf" cs] assms(2) by (intro edit_line_nul_free) simp
  show ?thesis
  proof (cases "typed_line (sh_kbd s) (sh_polls s)")
    case None
    with r obtain v where "read_line_loop buf 0 (length buf) (sh_kbd s) (sh_polls s) (sh_vga s) = Some (Waiting v)"
      "text_step (sh_vga s) v" by (auto simp: line_result_def)
    with None ok [of v] show ?thesis by (simp add: shell_read_line_def waits_def)
  next
    case (Some a)
    obtain cs k rest where "a = (cs, k, rest)" using prod_cases3 by blast
    with r Some obtain b v where b: "read_line_loop buf 0 (length buf) (sh_kbd s) (sh_polls s) (sh_vga s) =
        Some (Got (edit_line (length buf) [] cs @ NUL # b, length (edit_line (length buf) [] cs), k, rest, v))"
      "text_step (sh_vga s) v" "length (edit_line (length buf) [] cs @ NUL # b) = length buf"
      unfolding line_result_def by auto
    with Some \<open>a = _\<close> nf [of cs] ok' [of v rest k] show ?thesis
      by (auto simp: shell_read_line_def)
  qed
qed

subsection \<open>The loop\<close>

lemma set_color_ok [intro]: "shell_ok s \<Longrightarrow> shell_ok (set_color fg bg s)"
  using sh_step_ok [of s "set_color fg bg s"] by simp

lemma runs_prompt_colored: "shell_ok s \<Longrightarrow> runs (prompt_colored s) s"
  unfolding prompt_colored_def Let_def
  by (intro runs_bind) (auto intro!: runs_from [OF runs_prompt] dest: set_color_ok)

definition after_line :: "'h hw \<Rightarrow> string list \<Rightarrow> char list \<Rightarrow> 'h shell \<Rightarrow> ('h shell, 'h shell) input option" where
  "after_line hw argv line s =
     (if argv = [] then shell_loop hw line s
      else do {
        r \<leftarrow> shell_dispatch hw argv s;
        case r of Waiting t \<Rightarrow> Some (Waiting t) | Got s \<Rightarrow> shell_loop hw line s })"

text \<open>One line: the loop waits, or goes on with what the words of the edited line say.\<close>

lemma shell_loop_line:
  assumes "shell_ok s" "\<not> shell_exit s" "length line = SHELL_LINE_MAX"
  shows "case typed_line (sh_kbd s) (sh_polls s) of
      None \<Rightarrow> \<exists>t. shell_loop hw line s = Some (Waiting t) \<and> waits s t
    | Some (cs, k, rest) \<Rightarrow> \<exists>line' t. sh_moves s t \<and> sh_kbd t = k \<and> sh_polls t = rest \<and> length line' = SHELL_LINE_MAX
        \<and> shell_loop hw line s =
          after_line hw (take SHELL_ARGV_MAX (line_words (edit_line SHELL_LINE_MAX [] cs))) line' t"
proof -
  obtain s1 where s1: "prompt_colored s = Some s1" "sh_step s s1"
    using runs_prompt_colored [OF assms(1)] by (auto simp: runs_def)
  note ok = sh_step_ok [OF s1(2)] and moves = sh_step_moves [OF s1(2)]
  have same: "sh_kbd s1 = sh_kbd s" "sh_polls s1 = sh_polls s" using s1(2) by (simp_all add: sh_step_def)
  have "0 < length line" using assms(3) by simp
  from shell_read_line_edit [OF ok this] have r: "case typed_line (sh_kbd s) (sh_polls s) of
      None \<Rightarrow> \<exists>t. shell_read_line line s1 = Some (Waiting t) \<and> waits s1 t
    | Some (cs, k, rest) \<Rightarrow> \<exists>b v. shell_read_line line s1 = Some (Got (edit_line SHELL_LINE_MAX [] cs @ NUL # b,
          length (edit_line SHELL_LINE_MAX [] cs), s1\<lparr>sh_vga := v, sh_kbd := k, sh_polls := rest\<rparr>))
        \<and> length (edit_line SHELL_LINE_MAX [] cs @ NUL # b) = SHELL_LINE_MAX \<and> nul_free (edit_line SHELL_LINE_MAX [] cs)
        \<and> text_step (sh_vga s1) v \<and> shell_ok (s1\<lparr>sh_vga := v, sh_kbd := k, sh_polls := rest\<rparr>)"
    unfolding assms(3) same .
  show ?thesis
  proof (cases "typed_line (sh_kbd s) (sh_polls s)")
    case None
    with r obtain t where "shell_read_line line s1 = Some (Waiting t)" "waits s1 t" by auto
    with None s1(1) assms(2) waits_trans [OF moves] show ?thesis by (subst shell_loop.simps) simp
  next
    case (Some a)
    obtain cs k rest where a: "a = (cs, k, rest)" using prod_cases3 by blast
    define ln where "ln = edit_line SHELL_LINE_MAX [] cs"
    from r Some a obtain b v where b: "shell_read_line line s1 = Some (Got (ln @ NUL # b, length ln,
        s1\<lparr>sh_vga := v, sh_kbd := k, sh_polls := rest\<rparr>))"
      "length (ln @ NUL # b) = SHELL_LINE_MAX" "nul_free ln"
      "text_step (sh_vga s1) v" "shell_ok (s1\<lparr>sh_vga := v, sh_kbd := k, sh_polls := rest\<rparr>)"
      unfolding ln_def by auto
    let ?t = "s1\<lparr>sh_vga := v, sh_kbd := k, sh_polls := rest\<rparr>"
    have "length rest \<le> length (sh_polls s)" using typed_line_shorter [OF Some [unfolded a]] by simp
    with b(4,5) same have "sh_moves s1 ?t" by (simp add: sh_moves_def)
    with moves have m: "sh_moves s ?t" by (rule sh_moves_trans)
    obtain ps line' where p: "shell_parse (ln @ NUL # b) SHELL_ARGV_MAX = Some (ps, line')"
      "length line' = SHELL_LINE_MAX" "arg_strings line' ps = Some (take SHELL_ARGV_MAX (line_words ln))"
      using shell_parse_words [of "ln @ NUL # b" SHELL_ARGV_MAX] b(2,3) by auto
    have "shell_loop hw line s = after_line hw (take SHELL_ARGV_MAX (line_words ln)) line' ?t"
      unfolding after_line_def
      by (subst shell_loop.simps) (simp only: assms(2) if_False s1(1) b(1) p bind.bind_lunit input.case prod.case)
    with m p(2) Some a show ?thesis
      unfolding ln_def by (auto intro!: exI [of _ line'] exI [of _ ?t])
  qed
qed

lemma line_words_nul_free: "nul_free s \<Longrightarrow> \<forall>w \<in> set (line_words s). nul_free w"
proof (induction s rule: line_words.induct)
  case (1 s)
  define t where "t = dropWhile is_space s"
  have t: "nul_free t" using 1(2) unfolding t_def nul_free_def by (auto dest: set_dropWhileD)
  then have *: "nul_free (takeWhile (\<lambda>c. \<not> is_space c) t)" "nul_free (dropWhile (\<lambda>c. \<not> is_space c) t)"
    unfolding nul_free_def by (auto dest: set_takeWhileD set_dropWhileD)
  show ?case
    using 1(1) [OF t_def _ *(2)] *(1) by (subst line_words.simps) (simp add: Let_def t_def [symmetric])
qed

lemma words_ok: "nul_free s \<Longrightarrow> args_ok (take n (line_words s))"
  using line_words_nul_free [of s] by (auto simp: args_ok_def dest: in_set_takeD)

lemma edited_nul_free: "0 < mx \<Longrightarrow> nul_free (edit_line mx [] cs)"
  using edit_line_inv [of "[]" mx cs] by (intro edit_line_nul_free) simp

lemma ends_loop:
  assumes "ram_exact hw"
  shows "shell_ok s \<Longrightarrow> length line = SHELL_LINE_MAX \<Longrightarrow> ends (shell_loop hw line s) s"
proof (induction "length (sh_polls s)" arbitrary: s line rule: less_induct)
  case less
  show ?case
  proof (cases "shell_exit s")
    case True
    with less.prems show ?thesis by (subst shell_loop.simps) (simp add: sh_step_moves)
  next
    case False
    note line = shell_loop_line [OF less.prems(1) False less.prems(2), of hw]
    show ?thesis
    proof (cases "typed_line (sh_kbd s) (sh_polls s)")
      case None
      with line show ?thesis by auto
    next
      case (Some a)
      obtain cs k rest where a: "a = (cs, k, rest)" using prod_cases3 by blast
      let ?argv = "take SHELL_ARGV_MAX (line_words (edit_line SHELL_LINE_MAX [] cs))"
      obtain line' t where t: "sh_moves s t" "sh_polls t = rest" "length line' = SHELL_LINE_MAX"
        "shell_loop hw line s = after_line hw ?argv line' t"
        using line Some a by auto
      have short: "length rest < length (sh_polls s)" using typed_line_shorter [OF Some [unfolded a]] .
      have again: "ends (shell_loop hw line' u) t" if "sh_moves t u" for u
      proof (rule ends_from [OF less.hyps that])
        show "length (sh_polls u) < length (sh_polls s)" using that short t(2) by (simp add: sh_moves_def)
        show "shell_ok u" using that by (simp add: sh_moves_def)
      qed (rule t(3))
      have ok: "shell_ok t" using t(1) by (simp add: sh_moves_def)
      have "args_ok ?argv" by (intro words_ok edited_nul_free) simp
      from ends_cases [OF ends_dispatch [OF assms ok this]] have "ends (after_line hw ?argv line' t) t"
        using again [of t] again ok sh_step_moves [of t t] unfolding after_line_def by (auto simp del: take_eq_Nil)
      with t(1,4) show ?thesis using ends_from by simp
    qed
  qed
qed

text \<open>A line with the word \<open>exit\<close> ends the loop.\<close>

lemma shell_loop_exit:
  assumes "shell_ok s" "length line = SHELL_LINE_MAX" "typed_line (sh_kbd s) (sh_polls s) = Some (cs, k, rest)"
    "line_words (edit_line SHELL_LINE_MAX [] cs) = [''exit'']"
  shows "\<exists>t. shell_loop hw line s = Some (Got t)"
proof (cases "shell_exit s")
  case True
  then show ?thesis by (subst shell_loop.simps) simp
next
  case False
  have "shell_dispatch hw [''exit''] t = Some (Got (cmd_logout t))" for t
    by (subst shell_dispatch.simps) simp
  moreover have "shell_loop hw l (cmd_logout t) = Some (Got (cmd_logout t))" for l t
    by (subst shell_loop.simps) (simp add: cmd_logout_def)
  ultimately show ?thesis
    using shell_loop_line [OF assms(1) False assms(2), of hw] assms(3,4) by (auto simp: after_line_def)
qed

subsection \<open>Starting and ending\<close>

lemma runs_motd: "shell_ok s \<Longrightarrow> runs (show_motd s) s"
proof -
  assume ok: "shell_ok s"
  let ?s = "s\<lparr>shell_cwd := fs_get_root\<rparr>"
  have ok': "shell_ok ?s" using cwd_root [of s s] ok by (simp add: sh_step_def)
  have p: "nul_free ''etc/motd''" by simp
  obtain f where f: "fs_read_file (sh_fs s) fs_get_root (Some ''etc/motd'') = Some f"
    "\<And>data sz. f = Some (data, sz) \<Longrightarrow> NUL \<in> set data"
    using read_file_shell [OF ok' p] by auto
  have "runs (do { t \<leftarrow> c_string data; s \<leftarrow> write_string t (set_color 11 0 s); Some (set_color 7 0 s) }) s"
    if "f = Some (data, sz)" for data sz
    using f(2) [OF that] ok
    by (intro runs_query [OF known_c_string] runs_bind [OF runs_write]) simp_all
  then show ?thesis unfolding show_motd_def f(1) using ok by (auto split: option.split)
qed

lemma shell_start_ok:
  assumes "shell_ok s" "busy_ends hw" "ram_exact hw"
  shows "\<exists>t. shell_start hw s = Some t \<and> shell_ok t \<and> shell_uid t = SHELL_UID_DEBIAN
    \<and> sh_kbd t = keyboard_init \<and> sh_polls t = sh_polls s \<and> text_step (sh_vga s) (sh_vga t)"
proof -
  have "disk_ok ((sh_disk s)\<lparr>d_nodes := init_table\<rparr>)"
    using assms(1) init_table_wf by (simp add: shell_ok_def disk_ok_def disk_sized_def)
  from disk_init_safe [OF this assms(2)] obtain d where
    d: "disk_init hw ((sh_disk s)\<lparr>d_nodes := init_table\<rparr>) = Some d" "disk_ok d" "d_nodes d = init_table" by auto
  define s1 where "s1 = s\<lparr>shell_exit := False, sh_kbd := keyboard_init, sh_disk := d\<rparr>"
  have ok1: "shell_ok s1" using assms(1) d(2,3) in_table_init by (auto simp: s1_def shell_ok_def)
  let ?load = "if disk_available d then on_disk (disk_load_fs hw) s1 else Some (-1, s1)"
  obtain r s2 where s2: "?load = Some (r, s2)" "sh_step s1 (s2\<lparr>shell_cwd := 0\<rparr>)" "r \<noteq> 0 \<longrightarrow> sh_step s1 s2"
    using load_shell [OF ok1 assms(3)] cwd_root [of s1 s1] ok1 unfolding fs_get_root_def by (cases "disk_available d") auto
  have "\<exists>s3. (if r = 0 then Some s2
           else do {
             s \<leftarrow> shell_seed_filesystem s2;
             if \<not> disk_available (sh_disk s)
             then write_string (''[  OK  ] No disk found '' @ [CHR 0xE2, CHR 0x80, CHR 0x94] @ '' running in live mode'' @ [LF]) s
             else write_string (''[  OK  ] No installed filesystem '' @ [CHR 0xE2, CHR 0x80, CHR 0x94] @ '' running in live mode'' @ [LF]) s })
      = Some s3 \<and> sh_step s1 (s3\<lparr>shell_cwd := 0\<rparr>)"
  proof (cases "r = 0")
    case True
    with s2(2) show ?thesis by simp
  next
    case False
    then have st: "sh_step s1 s2" using s2(3) by simp
    have "runs (do {
             s \<leftarrow> shell_seed_filesystem s2;
             if \<not> disk_available (sh_disk s)
             then write_string (''[  OK  ] No disk found '' @ [CHR 0xE2, CHR 0x80, CHR 0x94] @ '' running in live mode'' @ [LF]) s
             else write_string (''[  OK  ] No installed filesystem '' @ [CHR 0xE2, CHR 0x80, CHR 0x94] @ '' running in live mode'' @ [LF]) s }) s2"
      using sh_step_ok [OF st] by (intro runs_bind runs_seed runs_if runs_write) simp_all
    with False sh_step_trans [OF st] cwd_root show ?thesis
      unfolding runs_def fs_get_root_def by (auto simp del: append.simps)
  qed
  then obtain s3 where s3: "(if r = 0 then Some s2
           else do {
             s \<leftarrow> shell_seed_filesystem s2;
             if \<not> disk_available (sh_disk s)
             then write_string (''[  OK  ] No disk found '' @ [CHR 0xE2, CHR 0x80, CHR 0x94] @ '' running in live mode'' @ [LF]) s
             else write_string (''[  OK  ] No installed filesystem '' @ [CHR 0xE2, CHR 0x80, CHR 0x94] @ '' running in live mode'' @ [LF]) s })
      = Some s3" "sh_step s1 (s3\<lparr>shell_cwd := 0\<rparr>)" by blast
  let ?s4 = "s3\<lparr>shell_cwd := fs_get_root, shell_uid := SHELL_UID_DEBIAN\<rparr>"
  have ok4: "shell_ok ?s4" "text_step (sh_vga s) (sh_vga ?s4)" "sh_kbd ?s4 = keyboard_init" "sh_polls ?s4 = sh_polls s"
    using s3(2) by (simp_all add: sh_step_def fs_get_root_def s1_def)
  obtain t where t: "show_motd ?s4 = Some t" "sh_step ?s4 t" using runs_motd [OF ok4(1)] by (auto simp: runs_def)
  have "shell_start hw s = Some t"
    unfolding shell_start_def Let_def
    by (simp only: fs_init_eq bind.bind_lunit d(1) s1_def [symmetric] s2(1) prod.case s3(1) t(1))
  then show ?thesis using t(2) ok4 text_step_trans by (auto simp: sh_step_def)
qed

text \<open>A session is defined, ends as \<open>debian\<close> and writes only inside the viewport.\<close>

lemma ends_run:
  assumes "shell_ok s" "busy_ends hw" "ram_exact hw"
  shows "ends (shell_run hw s) (s\<lparr>shell_uid := SHELL_UID_DEBIAN\<rparr>)"
proof -
  obtain t where t: "shell_start hw s = Some t" "sh_moves (s\<lparr>shell_uid := SHELL_UID_DEBIAN\<rparr>) t"
    using shell_start_ok [OF assms] by (auto simp: sh_moves_def)
  then have "ends (shell_loop hw (replicate SHELL_LINE_MAX NUL) t) t"
    by (intro ends_loop [OF assms(3)] length_replicate) (simp add: sh_moves_def)
  from ends_cases [OF this] show ?thesis
  proof (elim disjE exE conjE)
    fix u assume "shell_loop hw (replicate SHELL_LINE_MAX NUL) t = Some (Waiting u)" "waits t u"
    with t waits_trans show ?thesis by (auto simp: shell_run_def)
  next
    fix u assume u: "shell_loop hw (replicate SHELL_LINE_MAX NUL) t = Some (Got u)" "sh_moves t u"
    then have ok: "shell_ok u" by (simp add: sh_moves_def)
    have "ends (if disk_available (sh_disk u) then do { (_, s) \<leftarrow> on_disk (disk_save_fs hw) u; Some (Got s) } else Some (Got u)) u"
      using ok by (intro ends_if ends_bind_val runs_save) (auto intro!: sh_step_moves)
    from ends_from [OF this sh_moves_trans [OF t(2) u(2)]] show ?thesis
      using t(1) u(1) by (simp add: shell_run_def)
  qed
qed

lemma shell_run_exit:
  assumes "shell_ok s" "busy_ends hw" "ram_exact hw" "typed_line keyboard_init (sh_polls s) = Some (cs, k, rest)"
    "line_words (edit_line SHELL_LINE_MAX [] cs) = [''exit'']"
  shows "\<exists>t. shell_run hw s = Some (Got t)"
proof -
  obtain t where t: "shell_start hw s = Some t" "shell_ok t" "sh_kbd t = keyboard_init" "sh_polls t = sh_polls s"
    using shell_start_ok [OF assms(1-3)] by blast
  have "length (replicate SHELL_LINE_MAX NUL) = SHELL_LINE_MAX" by (rule length_replicate)
  from shell_loop_exit [OF t(2) this] t(3,4) assms(4,5) obtain u where
    "shell_loop hw (replicate SHELL_LINE_MAX NUL) t = Some (Got u)" by metis
  with t(1) have run: "shell_run hw s = (if disk_available (sh_disk u) then do { (_, s) \<leftarrow> on_disk (disk_save_fs hw) u; Some (Got s) } else Some (Got u))"
    by (simp add: shell_run_def)
  from ends_run [OF assms(1-3)] run show ?thesis
    by (auto simp: ends_def split: option.splits input.splits if_splits bind_splits)
qed

end
