(* ===== verification/ShellProps.thy ===== *)
theory ShellProps
  imports ShellRunning DiskRun
begin

text \<open>
  The properties of kernel/shell.c: a session is safe and ends when the user leaves, what is typed is what
  runs, and \<open>sudo\<close> is undone.
\<close>

subsection \<open>Sessions\<close>

lemma shell_boot_ok:
  assumes "vga_ok v" "in_viewport v"
  shows "shell_ok (shell_boot (disk_boot h init_table) v k polls)"
proof -
  have "fs_mem init_table" using init_table_wf by blast
  from disk_boot_ok [OF this, of h] assms at_root [of init_table] show ?thesis
    by (simp add: shell_ok_def shell_boot_def disk_boot_def)
qed

text \<open>The table of files at boot does not matter: \<open>shell_run\<close> starts with \<open>fs_init\<close>.\<close>

lemma shell_run_boot:
  "shell_run hw (shell_boot (disk_boot h ns) v k polls) = shell_run hw (shell_boot (disk_boot h init_table) v k polls)"
  by (simp add: shell_run_def shell_start_def shell_boot_def disk_boot_def fs_init_eq)

text \<open>C3. A session of the shell never leaves a buffer, a table or the viewport of the screen, and never
  waits for anything but a key: whatever bytes the disk holds and whatever the user types, \<open>shell_run\<close>
  either is waiting for input or has returned, the latter as the user \<open>debian\<close>, and outside the viewport
  the screen is as it was. The hardware may answer anything as long as no device stays busy for ever and
  reading memory gives as many bytes as asked for.\<close>

theorem shell_run_safe:
  assumes "busy_ends hw" "ram_exact hw" "vga_ok v" "in_viewport v"
  shows "\<exists>r t. shell_run hw (shell_boot (disk_boot h ns) v k polls) = Some r
    \<and> (r = Waiting t \<or> r = Got t \<and> shell_uid t = SHELL_UID_DEBIAN) \<and> shell_ok t
    \<and> (\<forall>x y. on_screen x y \<and> (y < v_top v \<or> v_bot v < y) \<longrightarrow> cell (v_mem (sh_vga t)) x y = cell (v_mem v) x y)"
proof -
  let ?s = "shell_boot (disk_boot h init_table) v k polls"
  have v: "sh_vga (?s\<lparr>shell_uid := SHELL_UID_DEBIAN\<rparr>) = v" by (simp add: shell_boot_def)
  from ends_cases [OF ends_run [OF shell_boot_ok [OF assms(3,4)] assms(1,2)], of h k polls] assms(4) show ?thesis
    unfolding shell_run_boot [of hw h ns] waits_def sh_moves_def text_step_def v by auto
qed

lemma bare_ram: "ram_exact bare_hw"
  by (simp add: ram_exact_def bare_hw_def)

lemma screen_ok: "vga_ok (vga_set_viewport vga_init 2 22)" "in_viewport (vga_set_viewport vga_init 2 22)"
  by (simp_all add: vga_set_viewport_def vga_init_def vga_ok_def in_viewport_def on_screen_def)

theorem shell_run_safe_witness:
  "\<exists>r t. shell_run bare_hw (shell_boot (disk_boot () init_table) (vga_set_viewport vga_init 2 22) keyboard_init
        (ready (type_string (''rm ../..'' @ LF # ''sudo nano x'' @ [LF])))) = Some r
    \<and> (r = Waiting t \<or> r = Got t \<and> shell_uid t = SHELL_UID_DEBIAN) \<and> shell_ok t"
  using shell_run_safe [OF bare_busy_ends bare_ram screen_ok] by blast

lemma typed_line_read:
  "read_chars (length cs + 1) k polls = Some (cs @ [LF]) \<Longrightarrow> LF \<notin> set cs \<Longrightarrow> CR \<notin> set cs \<Longrightarrow>
    \<exists>k' rest. typed_line k polls = Some (cs, k', rest)"
proof (induction cs arbitrary: k polls)
  case Nil
  then show ?case by (auto simp: bind_eq_Some_conv intro: typed_line_enter)
next
  case (Cons c cs)
  then obtain k1 r1 where 1: "keyboard_getchar k polls = Some (c, k1, r1)" "read_chars (length cs + 1) k1 r1 = Some (cs @ [LF])"
    by (auto simp: bind_eq_Some_conv)
  from Cons.IH [OF 1(2)] Cons.prems(2,3) obtain k' rest where "typed_line k1 r1 = Some (cs, k', rest)" by auto
  with typed_line_char [OF 1(1)] Cons.prems(2,3) show ?case by auto
qed

text \<open>C18. The user can always leave: if the first line typed, after the editing of \<open>shell_read_line\<close>, is the
  word \<open>exit\<close> with any blanks around it, \<open>shell_run\<close> returns, on any hardware and any disk as above.\<close>

theorem shell_exit_returns:
  assumes "busy_ends hw" "ram_exact hw" "vga_ok v" "in_viewport v"
    "read_chars (length cs + 1) keyboard_init polls = Some (cs @ [LF])" "LF \<notin> set cs" "CR \<notin> set cs"
    "line_words (edit_line SHELL_LINE_MAX [] cs) = [''exit'']"
  shows "\<exists>t. shell_run hw (shell_boot (disk_boot h ns) v k polls) = Some (Got t)"
proof -
  obtain k' rest where "typed_line keyboard_init polls = Some (cs, k', rest)"
    using typed_line_read [OF assms(5-7)] by blast
  then show ?thesis
    using shell_run_exit [OF shell_boot_ok [OF assms(3,4)] assms(1,2)] assms(8)
    unfolding shell_run_boot [of hw h ns] by (simp add: shell_boot_def)
qed

theorem shell_exit_returns_witness:
  "\<exists>t. shell_run bare_hw (shell_boot (disk_boot () init_table) (vga_set_viewport vga_init 2 22) shifted
        (ready (type_string ('' exot'' @ [BS, BS] @ ''it '' @ [LF])))) = Some (Got t)"
proof -
  let ?cs = "'' exot'' @ [BS, BS] @ ''it ''"
  have "list_all typeable (?cs @ [LF])"
    by code_simp
  from read_typed_text [OF this]
  have 1: "read_chars (length ?cs + 1) keyboard_init (ready (type_string (?cs @ [LF]))) = Some (?cs @ [LF])" by simp
  have "edit_line SHELL_LINE_MAX [] ?cs = '' exit ''" by (simp add: is_printable_def)
  moreover have "line_words '' exit '' = [''exit'']"
    by (simp add: line_words.simps [of "'' exit ''"] line_words.simps [of "'' ''"] is_space_def Let_def)
  ultimately have 2: "line_words (edit_line SHELL_LINE_MAX [] ?cs) = [''exit'']" by simp
  show ?thesis using shell_exit_returns [OF bare_busy_ends bare_ram screen_ok 1 _ _ 2] by simp
qed

subsection \<open>Command lines\<close>

text \<open>C19. What is typed is what runs: when the keys up to the next Enter give the characters \<open>cs\<close>,
  \<open>shell_read_line\<close> and \<open>shell_parse\<close> give the first 16 words of the line that editing \<open>cs\<close> leaves (a
  backspace takes a character back, a line keeps at most 255), and as long as \<open>cs\<close> is short and printable that
  line is \<open>cs\<close> itself. The keys after Enter are kept for the next reader.\<close>

theorem shell_line_words:
  assumes "shell_ok s" "length line = SHELL_LINE_MAX" "typed_line (sh_kbd s) (sh_polls s) = Some (cs, k, rest)"
  shows "\<exists>line' n t ps line''. shell_read_line line s = Some (Got (line', n, t)) \<and> shell_ok t \<and> sh_kbd t = k \<and> sh_polls t = rest
    \<and> shell_parse line' SHELL_ARGV_MAX = Some (ps, line'')
    \<and> arg_strings line'' ps = Some (take SHELL_ARGV_MAX (line_words (edit_line SHELL_LINE_MAX [] cs)))
    \<and> (list_all is_printable cs \<and> length cs < SHELL_LINE_MAX \<longrightarrow> edit_line SHELL_LINE_MAX [] cs = cs)"
proof -
  define ln where "ln = edit_line SHELL_LINE_MAX [] cs"
  have "0 < length line" using assms(2) by simp
  from shell_read_line_edit [OF assms(1) this] assms(3) obtain b v where b:
    "shell_read_line line s = Some (Got (ln @ NUL # b, length ln, s\<lparr>sh_vga := v, sh_kbd := k, sh_polls := rest\<rparr>))"
    "nul_free ln" "shell_ok (s\<lparr>sh_vga := v, sh_kbd := k, sh_polls := rest\<rparr>)"
    unfolding assms(2) ln_def by auto
  obtain ps line'' where "shell_parse (ln @ NUL # b) SHELL_ARGV_MAX = Some (ps, line'')"
    "arg_strings line'' ps = Some (take SHELL_ARGV_MAX (line_words ln))"
    using shell_parse_words [of "ln @ NUL # b" SHELL_ARGV_MAX] b(2) by auto
  moreover have "edit_line SHELL_LINE_MAX [] cs = cs" if "list_all is_printable cs" "length cs < SHELL_LINE_MAX"
  proof -
    have "list_all (\<lambda>c. c \<noteq> BS \<and> is_printable c) cs" using that(1) by (auto simp: list_all_iff is_printable_def)
    from edit_line_plain [OF this, of "[]" SHELL_LINE_MAX] that(2) show ?thesis by simp
  qed
  ultimately show ?thesis using b(1,3) unfolding ln_def [symmetric] by fastforce
qed

lemma boot_screen_ok: "shell_ok (shell_boot (disk_boot () init_table) (vga_set_viewport vga_init 2 22) keyboard_init polls)"
  by (intro shell_boot_ok screen_ok)

theorem shell_line_words_witness:
  "\<exists>line' n t ps line''. shell_read_line (replicate SHELL_LINE_MAX NUL) (shell_boot (disk_boot () init_table)
        (vga_set_viewport vga_init 2 22) keyboard_init (ready (type_string (''cd  ..'' @ [LF])))) = Some (Got (line', n, t))
    \<and> shell_parse line' SHELL_ARGV_MAX = Some (ps, line'') \<and> arg_strings line'' ps = Some [''cd'', ''..'']"
proof -
  let ?cs = "''cd  ..''"
  have "list_all typeable (?cs @ [LF])"
    by code_simp
  from read_typed_text [OF this]
  have "read_chars (length ?cs + 1) keyboard_init (ready (type_string (?cs @ [LF]))) = Some (?cs @ [LF])" by simp
  then obtain k rest where 1: "typed_line keyboard_init (ready (type_string (?cs @ [LF]))) = Some (?cs, k, rest)"
    using typed_line_read by fastforce
  let ?s = "shell_boot (disk_boot () init_table) (vga_set_viewport vga_init 2 22) keyboard_init (ready (type_string (?cs @ [LF])))"
  have 2: "typed_line (sh_kbd ?s) (sh_polls ?s) = Some (?cs, k, rest)" using 1 by (simp add: shell_boot_def)
  have "line_words ''cd  ..'' = [''cd'', ''..'']"
    by (simp add: line_words.simps [of "''cd  ..''"] line_words.simps [of "''  ..''"] line_words.simps [of "[]"] is_space_def Let_def)
  moreover have "list_all is_printable ?cs" by (simp add: is_printable_def)
  moreover have len: "length (replicate SHELL_LINE_MAX NUL) = SHELL_LINE_MAX" by (rule length_replicate)
  ultimately show ?thesis using shell_line_words [OF boot_screen_ok len 2] by fastforce
qed

subsection \<open>Users\<close>

text \<open>C21. \<open>sudo\<close> runs the rest of the line as root and nothing else changes: what the command does, be it
  to wait for a key or to return, is what it does for root, and when it returns the user is the one before.\<close>

theorem shell_sudo_root:
  assumes "ram_exact hw" "shell_ok s" "args_ok argv" "argv \<noteq> []"
  shows "(\<exists>t. shell_dispatch hw argv (s\<lparr>shell_uid := SHELL_UID_ROOT\<rparr>) = Some (Waiting t)
        \<and> shell_dispatch hw (''sudo'' # argv) s = Some (Waiting t))
    \<or> (\<exists>t. shell_dispatch hw argv (s\<lparr>shell_uid := SHELL_UID_ROOT\<rparr>) = Some (Got t) \<and> shell_uid t = SHELL_UID_ROOT
        \<and> shell_dispatch hw (''sudo'' # argv) s = Some (Got (t\<lparr>shell_uid := shell_uid s\<rparr>)))"
proof -
  let ?r = "s\<lparr>shell_uid := SHELL_UID_ROOT\<rparr>"
  have "shell_dispatch hw (''sudo'' # argv) s = cmd_sudo hw (''sudo'' # argv) s"
    by (subst shell_dispatch.simps) simp
  also have "\<dots> = (do { r \<leftarrow> shell_dispatch hw argv ?r;
      case r of Waiting t \<Rightarrow> Some (Waiting t) | Got t \<Rightarrow> Some (Got (t\<lparr>shell_uid := shell_uid s\<rparr>)) })"
    using assms(4) by (cases argv) (simp_all add: cmd_sudo.simps)
  finally have sudo: "shell_dispatch hw (''sudo'' # argv) s = \<dots>" .
  have "shell_ok ?r" using assms(2) by simp
  from ends_cases [OF ends_dispatch [OF assms(1) this assms(3)]] show ?thesis
    unfolding sudo by (auto simp: sh_moves_def)
qed

theorem shell_sudo_root_witness:
  "\<exists>t. shell_dispatch bare_hw [''sudo'', ''whoami''] (shell_boot (disk_boot () init_table) (vga_set_viewport vga_init 2 22)
      keyboard_init []) = Some t"
proof -
  have "args_ok [''whoami'']" by (simp add: args_ok_def)
  from shell_sudo_root [OF bare_ram boot_screen_ok this] show ?thesis by blast
qed

subsection \<open>Numbers\<close>

text \<open>C39. The number parsers: a mode is the value of its octal digits if it is at most 0777 and otherwise refused,
  without overflow however long it is; a user is one of the two names or a decimal number, but the number is taken modulo
  \<open>2 ^ 32\<close> before it is compared with 65535, so that 4294967296 is root.\<close>

theorem shell_numbers:
  assumes "nul_free str"
  shows "parse_mode_octal (Some str) = (if str \<noteq> [] \<and> (\<forall>c \<in> set str. is_octal_digit c) \<and> digits_value 8 str 0 \<le> 511
      then Some (word_of_nat (digits_value 8 str 0)) else None)
    \<and> parse_uid (Some str) = (if str = ''root'' then Some 0 else if str = ''debian'' then Some 1000
      else if str \<noteq> [] \<and> (\<forall>c \<in> set str. is_digit c) \<and> digits_value 10 str 0 mod 2 ^ 32 \<le> 65535
      then Some (word_of_nat (digits_value 10 str 0 mod 2 ^ 32)) else None)"
  using parse_mode_octal_eq [of str] parse_uid_eq [OF assms] by blast

theorem shell_numbers_witness:
  "parse_uid (Some ''4294967296'') = Some 0 \<and> parse_mode_octal (Some ''755'') = Some 0x1ED"
proof -
  have "digits_value 10 ''4294967296'' 0 = 2 ^ 32" "digits_value 8 ''755'' 0 = 0x1ED" by (simp_all add: digits_value_def)
  moreover have "\<forall>c \<in> set ''4294967296''. is_digit c" "\<forall>c \<in> set ''755''. is_octal_digit c"
    by (simp_all add: is_digit_def is_octal_digit_def)
  ultimately show ?thesis using shell_numbers [of "''4294967296''"] shell_numbers [of "''755''"] by simp
qed

end
