(* ===== verification/ShellUsers.thy ===== *)
theory ShellUsers
  imports ShellProps
begin

text \<open>
  What the commands of kernel/shell.c do to the file system for which user: \<^theory_text>\<open>table_after\<close> says what
  table every command leaves that neither asks for a key nor works on the disk, and \<^theory_text>\<open>twin\<close> relates
  two runs of a command for two users.
\<close>

subsection \<open>Commands that leave the table alone\<close>

definition leaves_fs :: "fs \<Rightarrow> 'h shell option \<Rightarrow> bool" where
  "leaves_fs ns m \<longleftrightarrow> (\<forall>t. m = Some t \<longrightarrow> sh_fs t = ns)"

lemma leaves_fsD: "m = Some t \<Longrightarrow> leaves_fs ns m \<Longrightarrow> sh_fs t = ns"
  by (simp add: leaves_fs_def)

lemma leaves_some: "sh_fs t = ns \<Longrightarrow> leaves_fs ns (Some t)"
  by (simp add: leaves_fs_def)

lemma leaves_write: "sh_fs s = ns \<Longrightarrow> leaves_fs ns (write_string x s)"
  by (auto simp: leaves_fs_def write_string_def bind_eq_Some_conv)

lemma leaves_put: "sh_fs s = ns \<Longrightarrow> leaves_fs ns (put_char c s)"
  by (auto simp: leaves_fs_def put_char_def bind_eq_Some_conv)

lemma leaves_bind: "leaves_fs ns m \<Longrightarrow> (\<And>t. sh_fs t = ns \<Longrightarrow> leaves_fs ns (f t)) \<Longrightarrow> leaves_fs ns (m \<bind> f)"
  by (cases m) (simp_all add: leaves_fs_def)

lemma leaves_query: "(\<And>x. leaves_fs ns (f x)) \<Longrightarrow> leaves_fs ns (q \<bind> f)"
  by (cases q) (simp_all add: leaves_fs_def)

lemma leaves_if: "leaves_fs ns m \<Longrightarrow> leaves_fs ns m' \<Longrightarrow> leaves_fs ns (if b then m else m')"
  by simp

lemma leaves_case_option: "leaves_fs ns m \<Longrightarrow> (\<And>x. leaves_fs ns (f x)) \<Longrightarrow> leaves_fs ns (case r of None \<Rightarrow> m | Some x \<Rightarrow> f x)"
  by (cases r) simp_all

lemma leaves_case_prod: "(\<And>x y. leaves_fs ns (f x y)) \<Longrightarrow> leaves_fs ns (case p of (x, y) \<Rightarrow> f x y)"
  by (cases p) simp

lemma leaves_println: "sh_fs s = ns \<Longrightarrow> leaves_fs ns (shell_println x s)"
  unfolding shell_println_def by (intro leaves_bind leaves_write)

lemma leaves_println_all: "sh_fs s = ns \<Longrightarrow> leaves_fs ns (println_all ts s)"
  by (induction ts arbitrary: s) (auto intro: leaves_some leaves_bind leaves_println)

lemmas leaves_rules = leaves_some leaves_write leaves_put leaves_println leaves_println_all leaves_if leaves_case_option
  leaves_case_prod leaves_bind leaves_query

lemma leaves_print_entries: "sh_fs s = ns \<Longrightarrow> leaves_fs ns (print_entries es s)"
proof (induction es arbitrary: s)
  case (Cons e es)
  show ?case unfolding print_entries.simps by (intro leaves_rules Cons.IH) (use Cons.prems in simp_all)
qed (simp add: leaves_some)

lemma leaves_print_packages: "sh_fs s = ns \<Longrightarrow> leaves_fs ns (print_packages ps s)"
proof (induction ps arbitrary: s)
  case (Cons p ps)
  show ?case unfolding print_packages.simps by (intro leaves_rules Cons.IH) (use Cons.prems in simp_all)
qed (simp add: leaves_some)

lemma leaves_print_aps: "sh_fs s = ns \<Longrightarrow> leaves_fs ns (print_aps as s)"
proof (induction "as" arbitrary: s)
  case (Cons a "as")
  show ?case unfolding print_aps.simps by (intro leaves_rules Cons.IH) (use Cons.prems in simp_all)
qed (simp add: leaves_some)

lemma leaves_print_digits: "sh_fs s = ns \<Longrightarrow> leaves_fs ns (print_digits js buf s)"
proof (induction js arbitrary: s)
  case (Cons j js)
  show ?case unfolding print_digits.simps by (intro leaves_rules Cons.IH) (use Cons.prems in simp_all)
qed (simp add: leaves_some)

lemma leaves_print_uint: "sh_fs s = ns \<Longrightarrow> leaves_fs ns (shell_print_uint n s)"
  unfolding shell_print_uint_def by (intro leaves_rules leaves_print_digits)

lemma leaves_clear: "leaves_fs (sh_fs s) (do { v \<leftarrow> vga_clear (sh_vga s); Some (s\<lparr>sh_vga := v\<rparr>) })"
  by (intro leaves_rules) simp

lemma leaves_printing:
  "leaves_fs (sh_fs s) (cmd_help s)" "leaves_fs (sh_fs s) (cmd_whoami s)" "leaves_fs (sh_fs s) (cmd_id s)"
  "leaves_fs (sh_fs s) (cmd_pwd s)" "leaves_fs (sh_fs s) (cmd_ls argv uid s)" "leaves_fs (sh_fs s) (cmd_cd argv uid s)"
  "leaves_fs (sh_fs s) (cmd_cat argv uid s)" "leaves_fs (sh_fs s) (cmd_ifconfig s)" "leaves_fs (sh_fs s) (cmd_networkmanager argv s)"
  unfolding cmd_help_def cmd_whoami_def cmd_id_def cmd_pwd_def cmd_ls_def cmd_cd_def cmd_cat_def cmd_ifconfig_def
    cmd_networkmanager_def Let_def
  by (intro leaves_rules leaves_print_entries leaves_print_uint; simp)+

lemma leaves_sync_packages: "sh_fs s = ns \<Longrightarrow> leaves_fs ns (sync_state_with_packages s)"
  unfolding sync_state_with_packages_def by (intro leaves_rules) simp_all

lemma leaves_apt: "leaves_fs (sh_fs s) (cmd_apt argv s)"
  unfolding cmd_apt_def apt_update_def apt_install_def apt_remove_def
  by (intro leaves_rules leaves_print_packages leaves_sync_packages; simp)

lemma leaves_nmcli: "leaves_fs (sh_fs s) (cmd_nmcli argv s)"
  unfolding cmd_nmcli_def nmcli_general_def nmcli_device_def nmcli_device_status_def nmcli_connect_def nmcli_connection_def
    nmcli_radio_def nmcli_networking_def Let_def
  by (intro leaves_rules leaves_print_aps; simp)

lemma leaves_sync: "shell_ok s \<Longrightarrow> leaves_fs (sh_fs s) (cmd_sync hw s)"
proof -
  assume "shell_ok s"
  then obtain r d where "disk_save_fs hw (sh_disk s) = Some (r, d)" "d_nodes d = sh_fs s"
    using disk_save_safe [of "sh_disk s" hw] by (auto simp: shell_ok_def)
  then show ?thesis unfolding cmd_sync_def on_disk_def by simp (intro leaves_rules impI conjI; simp)
qed

subsection \<open>What a command leaves\<close>

text \<open>Changing a node that is in use.\<close>

definition set_node :: "(fs_node \<Rightarrow> fs_node) \<Rightarrow> int \<Rightarrow> fs \<Rightarrow> fs" where
  "set_node f node ns = (if 0 \<le> node \<and> node < int FS_MAX_NODES \<and> nd_used (ns ! nat node) then ns[nat node := f (ns ! nat node)] else ns)"

definition parent_grants :: "u16 \<Rightarrow> string \<Rightarrow> 'h shell \<Rightarrow> bool" where
  "parent_grants uid p s \<longleftrightarrow> (\<exists>d. resolve_parent_path (Some p) s = Some (Some d)
     \<and> fs_check_access (sh_fs s) d uid (FS_ACCESS_WRITE OR FS_ACCESS_EXEC) = Some True)"

text \<open>The tables that the command line may leave for the user \<open>uid\<close>; there is never more than one.\<close>

definition table_after :: "u16 \<Rightarrow> string list \<Rightarrow> 'h shell \<Rightarrow> fs \<Rightarrow> bool" where
  "table_after uid argv s ns \<longleftrightarrow>
     (let old = sh_fs s; cwd = shell_cwd s; at = (\<lambda>p. fs_resolve old cwd (Some p)) in
      if argv ! 0 = ''chmod'' \<and> 3 \<le> length argv then
        (case parse_mode_octal (Some (argv ! 1)) of
           None \<Rightarrow> ns = old
         | Some mode \<Rightarrow> (\<exists>node. at (argv ! 2) = Some node \<and>
             ns = (if uid = SHELL_UID_ROOT \<or> nd_owner (old ! nat node) = uid then set_node (nd_mode_update (\<lambda>_. mode AND MODE_MASK)) node old else old)))
      else if argv ! 0 = ''chown'' \<and> 3 \<le> length argv \<and> uid = SHELL_UID_ROOT then
        (case parse_uid (Some (argv ! 1)) of
           None \<Rightarrow> ns = old
         | Some owner \<Rightarrow> (\<exists>node. at (argv ! 2) = Some node \<and> ns = set_node (nd_owner_update (\<lambda>_. owner)) node old))
      else if argv ! 0 = ''mkdir'' \<and> 2 \<le> length argv then
        (\<exists>node r. at (argv ! 1) = Some node \<and>
           (if node < 0 \<and> parent_grants uid (argv ! 1) s
            then fs_mkdir_as old cwd (Some (argv ! 1)) uid FS_DEFAULT_DIR_MODE = Some (r, ns) else ns = old))
      else if argv ! 0 = ''touch'' \<and> 2 \<le> length argv then
        (\<exists>node r. at (argv ! 1) = Some node \<and>
           (if node < 0 \<and> parent_grants uid (argv ! 1) s
            then fs_touch_as old cwd (Some (argv ! 1)) uid FS_DEFAULT_FILE_MODE = Some (r, ns) else ns = old))
      else if argv ! 0 = ''write'' \<and> 3 \<le> length argv then
        (\<exists>buf n r. join_args (drop 2 argv) (replicate FS_MAX_FILE_SIZE NUL) 0 = Some (buf, n) \<and>
           fs_write_file old cwd (Some (argv ! 1)) (Some (buf[n := NUL])) n = Some (r, ns))
      else if argv ! 0 = ''rm'' \<and> 2 \<le> length argv then (\<exists>r. fs_remove old cwd (Some (argv ! 1)) = Some (r, ns))
      else ns = old)"

lemma same_fs_println: "shell_println x s = Some t \<Longrightarrow> sh_fs t = sh_fs s"
  using leaves_println [of s "sh_fs s" x] by (simp add: leaves_fs_def)

lemma set_node_eq:
  assumes "length ns = FS_MAX_NODES" "\<And>n. f (n :: fs_node) = g n"
  shows "(do { live \<leftarrow> fs_live ns node; if \<not> live then Some (-1 :: int, ns)
      else do { n \<leftarrow> nd_at ns node; ns' \<leftarrow> nd_put ns node (f n); Some (0, ns') } }) = Some (r, ns') \<Longrightarrow> ns' = set_node g node ns"
  using assms by (auto simp: fs_live_def nd_at_def nd_put_def rd_def wr_def set_node_def split: if_splits)

lemma set_mode_after: "length ns = FS_MAX_NODES \<Longrightarrow> fs_set_mode ns node mode = Some (r, ns') \<Longrightarrow>
    ns' = set_node (nd_mode_update (\<lambda>_. mode AND MODE_MASK)) node ns"
  unfolding fs_set_mode_def by (erule set_node_eq [rotated 2]) simp_all

lemma set_owner_after: "length ns = FS_MAX_NODES \<Longrightarrow> fs_set_owner ns node owner = Some (r, ns') \<Longrightarrow>
    ns' = set_node (nd_owner_update (\<lambda>_. owner)) node ns"
  unfolding fs_set_owner_def by (erule set_node_eq [rotated 2]) simp_all

lemma owner_word:
  assumes "length ns = FS_MAX_NODES" "fs_get_owner ns node = Some owner"
  shows "word_of_int owner = nd_owner (ns ! nat node) \<or> set_node f node ns = ns"
  using assms by (auto simp: fs_get_owner_def fs_live_def nd_at_def rd_def set_node_def split: if_splits)

lemma chmod_after:
  assumes "length (sh_fs s) = FS_MAX_NODES" "cmd_chmod argv uid s = Some t" "argv ! 0 = ''chmod''"
  shows "table_after uid argv s (sh_fs t)"
proof (cases "3 \<le> length argv \<and> parse_mode_octal (Some (argv ! 1)) \<noteq> None")
  case False
  then have "sh_fs t = sh_fs s" using assms(2) by (auto simp: cmd_chmod_def dest: same_fs_println split: if_splits)
  with False assms(3) show ?thesis by (auto simp: table_after_def Let_def)
next
  case True
  then obtain mode where mode: "3 \<le> length argv" "parse_mode_octal (Some (argv ! 1)) = Some mode" by auto
  let ?f = "nd_mode_update (\<lambda>_. mode AND MODE_MASK)"
  obtain node where node: "fs_resolve (sh_fs s) (shell_cwd s) (Some (argv ! 2)) = Some node"
    using assms(2) mode by (auto simp: cmd_chmod_def bind_eq_Some_conv)
  have "sh_fs t = (if uid = SHELL_UID_ROOT \<or> nd_owner (sh_fs s ! nat node) = uid then set_node ?f node (sh_fs s) else sh_fs s)"
  proof (cases "node < 0")
    case True
    then show ?thesis using assms(2) mode node by (auto simp: cmd_chmod_def set_node_def dest: same_fs_println)
  next
    case False
    then obtain owner where owner: "fs_get_owner (sh_fs s) node = Some owner"
      using assms(2) mode node by (auto simp: cmd_chmod_def bind_eq_Some_conv)
    note w = owner_word [OF assms(1) owner, of ?f]
    show ?thesis
    proof (cases "uid \<noteq> SHELL_UID_ROOT \<and> word_of_int owner \<noteq> uid")
      case True
      then have "sh_fs t = sh_fs s" using assms(2) mode node owner False by (auto simp: cmd_chmod_def dest: same_fs_println)
      with w True show ?thesis by auto
    next
      case deny: False
      then have "sh_fs t = set_node ?f node (sh_fs s)"
        using assms(2) mode node owner False
        by (auto simp: cmd_chmod_def on_fs_def bind_eq_Some_conv dest!: set_mode_after [OF assms(1)])
      with w deny show ?thesis by auto
    qed
  qed
  with mode node assms(3) show ?thesis by (simp add: table_after_def)
qed

lemma chown_after:
  assumes "length (sh_fs s) = FS_MAX_NODES" "cmd_chown argv uid s = Some t" "argv ! 0 = ''chown''"
  shows "table_after uid argv s (sh_fs t)"
proof (cases "3 \<le> length argv \<and> uid = SHELL_UID_ROOT \<and> parse_uid (Some (argv ! 1)) \<noteq> None")
  case False
  then have "sh_fs t = sh_fs s"
    using assms(2) by (auto simp: cmd_chown_def require_root_def bind_eq_Some_conv dest: same_fs_println split: if_splits)
  with False assms(3) show ?thesis by (auto simp: table_after_def Let_def)
next
  case True
  then obtain owner where o: "3 \<le> length argv" "uid = SHELL_UID_ROOT" "parse_uid (Some (argv ! 1)) = Some owner" by auto
  obtain node where node: "fs_resolve (sh_fs s) (shell_cwd s) (Some (argv ! 2)) = Some node"
    using assms(2) o by (auto simp: cmd_chown_def require_root_def bind_eq_Some_conv)
  have "sh_fs t = set_node (nd_owner_update (\<lambda>_. owner)) node (sh_fs s)"
  proof (cases "node < 0")
    case True
    then show ?thesis using assms(2) o node by (auto simp: cmd_chown_def require_root_def set_node_def dest: same_fs_println)
  next
    case False
    then show ?thesis
      using assms(2) o node
      by (auto simp: cmd_chown_def require_root_def on_fs_def bind_eq_Some_conv dest!: set_owner_after [OF assms(1)])
  qed
  with o node assms(3) show ?thesis by (simp add: table_after_def)
qed

lemma parent_writable_after:
  assumes "ensure_parent_writable (Some p) uid s = Some (r, t)"
  shows "if r = 0 then t = s \<and> parent_grants uid p s else sh_fs t = sh_fs s \<and> \<not> parent_grants uid p s"
  using assms
  by (auto simp: ensure_parent_writable_def parent_grants_def bind_eq_Some_conv dest: same_fs_println split: option.splits if_splits)

lemma mkdir_after:
  assumes "cmd_mkdir argv uid s = Some t" "argv ! 0 = ''mkdir''"
  shows "table_after uid argv s (sh_fs t)"
proof (cases "2 \<le> length argv")
  case False
  then show ?thesis using assms by (auto simp: cmd_mkdir_def table_after_def Let_def dest: same_fs_println)
next
  case True
  then obtain node where node: "fs_resolve (sh_fs s) (shell_cwd s) (Some (argv ! 1)) = Some node"
    using assms by (auto simp: cmd_mkdir_def bind_eq_Some_conv)
  show ?thesis
  proof (cases "node < 0")
    case False
    then have "sh_fs t = sh_fs s"
      using assms(1) True node by (auto simp: cmd_mkdir_def bind_eq_Some_conv dest: same_fs_println split: if_splits)
    with False True node assms(2) show ?thesis by (simp add: table_after_def)
  next
    case neg: True
    then obtain r u where "ensure_parent_writable (Some (argv ! 1)) uid s = Some (r, u)"
      using assms(1) True node by (auto simp: cmd_mkdir_def bind_eq_Some_conv)
    with assms True node neg parent_writable_after [OF this] show ?thesis
      by (auto simp: cmd_mkdir_def table_after_def on_fs_def bind_eq_Some_conv dest!: same_fs_println split: if_splits)
  qed
qed

lemma touch_after:
  assumes "cmd_touch argv uid s = Some t" "argv ! 0 = ''touch''"
  shows "table_after uid argv s (sh_fs t)"
proof (cases "2 \<le> length argv")
  case False
  then show ?thesis using assms by (auto simp: cmd_touch_def table_after_def Let_def dest: same_fs_println)
next
  case True
  then obtain node where node: "fs_resolve (sh_fs s) (shell_cwd s) (Some (argv ! 1)) = Some node"
    using assms by (auto simp: cmd_touch_def bind_eq_Some_conv)
  show ?thesis
  proof (cases "node < 0")
    case False
    then have "sh_fs t = sh_fs s"
      using assms(1) True node by (auto simp: cmd_touch_def bind_eq_Some_conv dest: same_fs_println split: if_splits)
    with False True node assms(2) show ?thesis by (simp add: table_after_def)
  next
    case neg: True
    then obtain r u where "ensure_parent_writable (Some (argv ! 1)) uid s = Some (r, u)"
      using assms(1) True node by (auto simp: cmd_touch_def bind_eq_Some_conv)
    with assms True node neg parent_writable_after [OF this] show ?thesis
      by (auto simp: cmd_touch_def table_after_def on_fs_def bind_eq_Some_conv dest!: same_fs_println split: if_splits)
  qed
qed

lemma write_after:
  assumes "cmd_write argv s = Some t" "argv ! 0 = ''write''"
  shows "table_after uid argv s (sh_fs t)"
  using assms
  by (auto simp: cmd_write_def table_after_def on_fs_def wr_def bind_eq_Some_conv Let_def dest!: same_fs_println split: if_splits)

lemma rm_after:
  assumes "cmd_rm argv s = Some t" "argv ! 0 = ''rm''"
  shows "table_after uid argv s (sh_fs t)"
  using assms
  by (auto simp: cmd_rm_def table_after_def on_fs_def bind_eq_Some_conv Let_def dest!: same_fs_println split: if_splits)

subsection \<open>Two users\<close>

text \<open>The second run of \<open>twin g\<close> gives what \<open>g\<close> makes of the result of the first.\<close>

definition twin :: "('a \<Rightarrow> 'b) \<Rightarrow> 'a option \<Rightarrow> 'b option \<Rightarrow> bool" where
  "twin g m m' \<longleftrightarrow> m' = map_option g m"

abbreviation as_user :: "u16 \<Rightarrow> 'h shell \<Rightarrow> 'h shell" where
  "as_user u s \<equiv> s\<lparr>shell_uid := u\<rparr>"

fun input_as :: "u16 \<Rightarrow> ('h shell, 'h shell) input \<Rightarrow> ('h shell, 'h shell) input" where
  "input_as u (Waiting t) = Waiting (as_user u t)"
| "input_as u (Got t) = Got (as_user u t)"

abbreviation pair_as :: "u16 \<Rightarrow> int \<times> 'h shell \<Rightarrow> int \<times> 'h shell" where
  "pair_as u \<equiv> map_prod id (as_user u)"

lemma twin_some: "t' = as_user u t \<Longrightarrow> twin (as_user u) (Some t) (Some t')"
  by (simp add: twin_def)

lemma twin_bind: "twin (as_user u) m m' \<Longrightarrow> (\<And>t. twin g (f t) (f' (as_user u t))) \<Longrightarrow> twin g (m \<bind> f) (m' \<bind> f')"
  by (cases m) (simp_all add: twin_def)

lemma twin_bind_pair: "twin (pair_as u) m m' \<Longrightarrow> (\<And>r t. twin g (f r t) (f' r (as_user u t))) \<Longrightarrow>
    twin g (m \<bind> (\<lambda>(r, t). f r t)) (m' \<bind> (\<lambda>(r, t). f' r t))"
  by (cases m) (auto simp: twin_def)

lemma twin_query: "q = q' \<Longrightarrow> (\<And>x. twin g (f x) (f' x)) \<Longrightarrow> twin g (q \<bind> f) (q' \<bind> f')"
  by (cases q) (auto simp: twin_def)

lemma twin_if: "b = b' \<Longrightarrow> twin g m m' \<Longrightarrow> twin g n n' \<Longrightarrow> twin g (if b then m else n) (if b' then m' else n')"
  by simp

lemma twin_case_option: "r = r' \<Longrightarrow> twin g m m' \<Longrightarrow> (\<And>x. twin g (f x) (f' x)) \<Longrightarrow>
    twin g (case r of None \<Rightarrow> m | Some x \<Rightarrow> f x) (case r' of None \<Rightarrow> m' | Some x \<Rightarrow> f' x)"
  by (cases r) auto

lemma twin_case_prod: "(\<And>x y. twin g (f x y) (f' x y)) \<Longrightarrow> twin g (case p of (x, y) \<Rightarrow> f x y) (case p of (x, y) \<Rightarrow> f' x y)"
  by (cases p) simp

lemma twin_got: "twin (as_user u) m m' \<Longrightarrow> twin (input_as u) (map_option Got m) (map_option Got m')"
  by (cases m) (auto simp: twin_def)

lemma twin_write: "s' = as_user u s \<Longrightarrow> x = x' \<Longrightarrow> twin (as_user u) (write_string x s) (write_string x' s')"
  by (cases "vga_write_string (sh_vga s) (Some x)") (simp_all add: twin_def write_string_def)

lemma twin_put: "s' = as_user u s \<Longrightarrow> twin (as_user u) (put_char c s) (put_char c s')"
  by (cases "vga_putchar (sh_vga s) c") (simp_all add: twin_def put_char_def)

lemma twin_erase: "s' = as_user u s \<Longrightarrow> twin (as_user u) (erase_char s) (erase_char s')"
  by (cases "vga_backspace (sh_vga s)") (simp_all add: twin_def erase_char_def)

lemma twin_on_fs: "s' = as_user u s \<Longrightarrow> f = f' \<Longrightarrow> twin (pair_as u) (on_fs f s) (on_fs f' s')"
  by (cases "f (sh_fs s)") (auto simp: twin_def on_fs_def)

lemma twin_on_disk: "s' = as_user u s \<Longrightarrow> twin (pair_as u) (on_disk f s) (on_disk f s')"
  by (cases "f (sh_disk s)") (auto simp: twin_def on_disk_def)

lemma twin_println: "s' = as_user u s \<Longrightarrow> x = x' \<Longrightarrow> twin (as_user u) (shell_println x s) (shell_println x' s')"
  unfolding shell_println_def by (intro twin_bind twin_write) simp_all

lemma twin_println_all: "s' = as_user u s \<Longrightarrow> ts = ts' \<Longrightarrow> twin (as_user u) (println_all ts s) (println_all ts' s')"
proof (induction ts arbitrary: s s' ts')
  case (Cons x ts)
  show ?case unfolding Cons.prems(2) [symmetric] println_all.simps
    by (intro twin_bind twin_println Cons.IH) (use Cons.prems in simp_all)
qed (auto intro: twin_some)

lemmas twin_rules = twin_some twin_write twin_put twin_erase twin_println twin_println_all twin_on_fs twin_on_disk twin_if
  twin_case_option twin_case_prod twin_bind twin_bind_pair twin_query

lemma twin_writes: "s' = as_user u s \<Longrightarrow> twin (as_user u) (mkdir_at node p owner mode s) (mkdir_at node p owner mode s')"
  "s' = as_user u s \<Longrightarrow> twin (as_user u) (write_at node p x s) (write_at node p x s')"
  "s' = as_user u s \<Longrightarrow> twin (as_user u) (save_file path buf len s) (save_file path buf len s')"
  unfolding mkdir_at_def write_at_def save_file_def by (intro twin_rules; simp)+

lemma twin_trees: "s' = as_user u s \<Longrightarrow> twin (as_user u) (make_directories s) (make_directories s')"
  "s' = as_user u s \<Longrightarrow> twin (as_user u) (write_etc release motd s) (write_etc release motd s')"
  unfolding make_directories_def write_etc_def by (intro twin_rules twin_writes; simp)+

lemma twin_write_rm: "twin (as_user u) (cmd_write argv s) (cmd_write argv (as_user u s))" "twin (as_user u) (cmd_rm argv s) (cmd_rm argv (as_user u s))"
  unfolding cmd_write_def cmd_rm_def by (intro twin_rules; simp)+

lemma user_updates: "(as_user u s)\<lparr>shell_cwd := c\<rparr> = as_user u (s\<lparr>shell_cwd := c\<rparr>)"
  "(as_user u s)\<lparr>sh_kbd := k, sh_polls := polls\<rparr> = as_user u (s\<lparr>sh_kbd := k, sh_polls := polls\<rparr>)"
  by (cases s; simp)+

lemma twin_install: "twin (as_user u) (cmd_install hw s) (cmd_install hw (as_user u s))"
  unfolding cmd_install_def by (intro twin_rules twin_writes twin_trees; simp add: user_updates)

lemma twin_disk: "twin (as_user u) (cmd_disk hw argv s) (cmd_disk hw argv (as_user u s))"
  unfolding cmd_disk_def cmd_sync_def by (intro twin_rules; simp add: user_updates)

lemma twin_nano_loop:
  fixes s :: "'h shell"
  shows "s' = as_user u s \<Longrightarrow> twin (input_as u) (nano_loop path buf len dirty k polls s) (nano_loop path buf len dirty k polls s')"
proof (induction "length polls" arbitrary: buf len dirty k polls s s' rule: less_induct)
  case less
  show ?case
  proof (cases "keyboard_getchar k polls")
    case None
    then show ?thesis using less.prems by (subst (1 2) nano_loop.simps) (simp add: twin_def)
  next
    case (Some a)
    obtain c k' rest where a: "a = (c, k', rest)" using prod_cases3 by blast
    have IH: "t' = as_user u t \<Longrightarrow> twin (input_as u) (nano_loop path b l d k' rest t) (nano_loop path b l d k' rest t')" for b l d and t t' :: "'h shell"
      by (rule less.hyps [OF keyboard_getchar_shorter [OF Some [unfolded a]]])
    have got: "t' = as_user u t \<Longrightarrow> twin (input_as u) (Some (Got t)) (Some (Got t'))" for t t' :: "'h shell" by (simp add: twin_def)
    show ?thesis
      unfolding nano_loop.simps [of path buf len dirty k polls] Some a option.case prod.case
      by (intro got IH twin_rules twin_writes) (use less.prems in \<open>simp_all add: user_updates\<close>)
  qed
qed

lemma twin_nano_start: "s' = as_user u s \<Longrightarrow> len = len' \<Longrightarrow> k = k' \<Longrightarrow> polls = polls' \<Longrightarrow>
    twin (input_as u) (nano_loop path buf len dirty k polls s) (nano_loop path buf len' dirty k' polls' s')"
  using twin_nano_loop by blast

lemma twin_nano: "twin (input_as u) (cmd_nano argv s) (cmd_nano argv (as_user u s))"
  unfolding cmd_nano_def Let_def by (intro twin_got twin_rules twin_nano_start; simp)

subsection \<open>Permissions\<close>

text \<open>The commands that work on the disk or ask for a key, and \<open>sudo\<close>.\<close>

definition after :: "string list \<Rightarrow> 'h shell \<Rightarrow> ('h shell, 'h shell) input option \<Rightarrow> bool" where
  "after argv s m \<longleftrightarrow> (\<forall>r. m = Some r \<longrightarrow> (\<exists>t. r = Got t \<and> table_after (shell_uid s) argv s (sh_fs t)))"

lemma after_if: "(b \<Longrightarrow> after argv s m) \<Longrightarrow> (\<not> b \<Longrightarrow> after argv s m') \<Longrightarrow> after argv s (if b then m else m')"
  by simp

lemma after_return: "(\<And>t. m = Some t \<Longrightarrow> table_after (shell_uid s) argv s (sh_fs t)) \<Longrightarrow> after argv s (return_of m)"
  by (auto simp: after_def return_of_def)

lemma after_leaves:
  assumes "argv ! 0 \<notin> {''chmod'', ''chown'', ''mkdir'', ''touch'', ''write'', ''rm''}" "leaves_fs (sh_fs s) m"
  shows "after argv s (return_of m)"
  using assms by (intro after_return) (auto simp: table_after_def leaves_fs_def)

lemma after_changes:
  assumes "shell_ok s"
  shows "argv ! 0 = ''chmod'' \<Longrightarrow> after argv s (return_of (cmd_chmod argv (shell_uid s) s))"
    "argv ! 0 = ''chown'' \<Longrightarrow> after argv s (return_of (cmd_chown argv (shell_uid s) s))"
    "argv ! 0 = ''mkdir'' \<Longrightarrow> after argv s (return_of (cmd_mkdir argv (shell_uid s) s))"
    "argv ! 0 = ''touch'' \<Longrightarrow> after argv s (return_of (cmd_touch argv (shell_uid s) s))"
    "argv ! 0 = ''write'' \<Longrightarrow> after argv s (return_of (cmd_write argv s))"
    "argv ! 0 = ''rm'' \<Longrightarrow> after argv s (return_of (cmd_rm argv s))"
proof -
  have len: "length (sh_fs s) = FS_MAX_NODES" using assms fs_mem_length by (auto simp: shell_ok_def disk_ok_def)
  show "argv ! 0 = ''chmod'' \<Longrightarrow> after argv s (return_of (cmd_chmod argv (shell_uid s) s))"
    by (rule after_return) (rule chmod_after [OF len])
  show "argv ! 0 = ''chown'' \<Longrightarrow> after argv s (return_of (cmd_chown argv (shell_uid s) s))"
    by (rule after_return) (rule chown_after [OF len])
  show "argv ! 0 = ''mkdir'' \<Longrightarrow> after argv s (return_of (cmd_mkdir argv (shell_uid s) s))"
    by (rule after_return) (rule mkdir_after)
  show "argv ! 0 = ''touch'' \<Longrightarrow> after argv s (return_of (cmd_touch argv (shell_uid s) s))"
    by (rule after_return) (rule touch_after)
  show "argv ! 0 = ''write'' \<Longrightarrow> after argv s (return_of (cmd_write argv s))"
    by (rule after_return) (rule write_after)
  show "argv ! 0 = ''rm'' \<Longrightarrow> after argv s (return_of (cmd_rm argv s))"
    by (rule after_return) (rule rm_after)
qed

lemma leaves_unknown: "leaves_fs (sh_fs s) (do { s \<leftarrow> write_string x s; shell_println m s })"
  by (intro leaves_rules; simp)

lemma dispatch_after:
  assumes "shell_ok s" "argv \<noteq> []" "nul_free (argv ! 0)" "argv ! 0 \<notin> {''nano'', ''install'', ''disk'', ''sudo''}"
  shows "after argv s (shell_dispatch hw argv s)"
proof -
  have logout: "after argv s (Some (Got (cmd_logout s)))" if "argv ! 0 = ''logout'' \<or> argv ! 0 = ''exit''"
    using that by (auto simp: after_def cmd_logout_def table_after_def)
  note leaves = leaves_printing leaves_clear leaves_apt leaves_nmcli leaves_sync [OF assms(1)] leaves_unknown
  show ?thesis
    unfolding shell_dispatch.simps [of hw argv s]
    by (intro after_if) (use assms(2-4) logout after_changes [OF assms(1)] in \<open>simp_all add: after_leaves leaves\<close>)
qed

lemma dispatch_twin:
  assumes "argv \<noteq> []" "nul_free (argv ! 0)" "argv ! 0 \<in> {''write'', ''rm'', ''nano'', ''install'', ''disk''}"
  shows "twin (input_as u) (shell_dispatch hw argv s) (shell_dispatch hw argv (as_user u s))"
  using assms twin_got [OF twin_write_rm(1)] twin_got [OF twin_write_rm(2)] twin_got [OF twin_install] twin_got [OF twin_disk]
    twin_nano
  by (subst (1 2) shell_dispatch.simps) (auto simp: return_of_def)

text \<open>C20. Permissions, for every command line but \<open>sudo\<close>. A command that asks for no key and does not work on the disk returns,
  and leaves exactly the table that the user may make: \<open>chmod\<close> sets the mode of the node that the path resolves to if the user owns it
  or is root, \<open>chown\<close> its owner if the user is root, \<open>mkdir\<close> and \<open>touch\<close> make a node of that user if there is none and the parent
  grants writing and searching, and in all other cases these and all commands that only show something leave the table
  as it is. \<open>write\<close> and \<open>rm\<close> write and remove without asking for the user; and they, the editor \<open>nano\<close>, \<open>install\<close> and
  the disk commands do for every user what they do for any other, so that an ordinary user can replace, empty or
  remove every file, and the whole file system.\<close>

theorem shell_permissions:
  assumes "ram_exact hw" "shell_ok s" "args_ok argv" "argv \<noteq> []"
  shows "(argv ! 0 \<notin> {''nano'', ''install'', ''disk'', ''sudo''} \<longrightarrow>
      (\<exists>t. shell_dispatch hw argv s = Some (Got t) \<and> table_after (shell_uid s) argv s (sh_fs t)))
    \<and> (argv ! 0 \<in> {''write'', ''rm'', ''nano'', ''install'', ''disk''} \<longrightarrow>
      shell_dispatch hw argv (s\<lparr>shell_uid := u\<rparr>) = map_option (input_as u) (shell_dispatch hw argv s))"
proof -
  have nf: "nul_free (argv ! 0)" using assms(3,4) by (cases argv) (auto simp: args_ok_def)
  have "shell_dispatch hw argv s \<noteq> None" using ends_cases [OF ends_dispatch [OF assms(1-3)]] by auto
  then show ?thesis
    using dispatch_after [OF assms(2,4) nf, of hw] dispatch_twin [OF assms(4) nf, of u hw s]
    by (auto simp: after_def twin_def)
qed

text \<open>As \<open>debian\<close>: \<open>chown\<close> has no effect, and \<open>rm\<close> does what it does for root.\<close>

theorem shell_permissions_witness:
  "(\<exists>t. shell_dispatch bare_hw [''chown'', ''debian'', ''..''] (shell_boot (disk_boot () init_table) (vga_set_viewport vga_init 2 22)
      keyboard_init []) = Some (Got t) \<and> sh_fs t = init_table)
   \<and> shell_dispatch bare_hw [''rm'', ''x''] ((shell_boot (disk_boot () init_table) (vga_set_viewport vga_init 2 22) keyboard_init [])
        \<lparr>shell_uid := SHELL_UID_ROOT\<rparr>) = map_option (input_as SHELL_UID_ROOT)
       (shell_dispatch bare_hw [''rm'', ''x''] (shell_boot (disk_boot () init_table) (vga_set_viewport vga_init 2 22) keyboard_init []))"
proof -
  let ?s = "shell_boot (disk_boot () init_table) (vga_set_viewport vga_init 2 22) keyboard_init []"
  have a: "args_ok [''chown'', ''debian'', ''..'']" "args_ok [''rm'', ''x'']" by (simp_all add: args_ok_def)
  have s: "shell_uid ?s = SHELL_UID_DEBIAN" "sh_fs ?s = init_table" by (simp_all add: shell_boot_def disk_boot_def)
  show ?thesis
    using shell_permissions [OF bare_ram boot_screen_ok [of "[]"] a(1), of SHELL_UID_ROOT]
      shell_permissions [OF bare_ram boot_screen_ok [of "[]"] a(2), of SHELL_UID_ROOT] s
    by (auto simp: table_after_def)
qed

end
