(* ===== verification/FsProps.thy ===== *)
theory FsProps
  imports FsLoad
begin

text \<open>
  The properties of the file system and of its image. They are stated on the operations of
  kernel/fs.c; the proofs go through the closed forms of FsPath, FsOps, FsService, FsPathname and
  FsImageSpec and the interpretation of the call interface. \<^theory_text>\<open>sample_table\<close> is
  a directory with a file in it, made by two calls from the initial table; the witnesses use it.
\<close>

subsection \<open>A table with a directory and a file\<close>

definition etc_node :: fs_node where
  "etc_node = new_node True zero_node 0 ''etc'' 0 FS_DEFAULT_DIR_MODE"

definition motd_node :: fs_node where
  "motd_node = new_node False zero_node 1 ''motd'' 1000 0x1A0"

definition etc_table :: fs where
  "etc_table = init_table[1 := etc_node]"

definition sample_table :: fs where
  "sample_table = etc_table[2 := motd_node]"

lemma init_table_nth: "i < FS_MAX_NODES \<Longrightarrow> i \<noteq> 0 \<Longrightarrow> init_table ! i = zero_node"
  by (simp add: init_table_def nth_Cons')

lemma init_table_length [simp]: "length init_table = FS_MAX_NODES"
  by (simp add: init_table_def)

lemma free_slot_eqI:
  assumes "k < FS_MAX_NODES" "\<not> nd_used (ns ! k)" "\<And>i. 0 < i \<Longrightarrow> i < k \<Longrightarrow> nd_used (ns ! i)" "k \<noteq> 0"
  shows "free_slot ns = Some k"
  using assms by (auto simp: free_slot_def find_Some_iff intro!: exI [of _ "k - 1"])

lemma zero_node_unused [simp]: "\<not> nd_used zero_node"
  by (simp add: zero_node_def)

lemma sample_names [simp]:
  "cstr (nd_name etc_node) = ''etc''" "cstr (nd_name motd_node) = ''motd''"
  "cstr (nd_name root_node) = ''/''"
  by (simp_all add: etc_node_def motd_node_def new_node_def root_node_def cstr_def)

lemma etc_table_nth:
  "etc_table ! 0 = root_node" "etc_table ! 1 = etc_node" "etc_table ! Suc 0 = etc_node"
  "i < FS_MAX_NODES \<Longrightarrow> i \<noteq> 0 \<Longrightarrow> i \<noteq> 1 \<Longrightarrow> etc_table ! i = zero_node"
  by (simp_all add: etc_table_def init_table_nth)

lemma sample_table_nth:
  "sample_table ! 0 = root_node" "sample_table ! 1 = etc_node" "sample_table ! Suc 0 = etc_node"
  "sample_table ! 2 = motd_node"
  "i < FS_MAX_NODES \<Longrightarrow> i \<noteq> 0 \<Longrightarrow> i \<noteq> 1 \<Longrightarrow> i \<noteq> 2 \<Longrightarrow> sample_table ! i = zero_node"
  by (simp_all add: sample_table_def etc_table_nth)
    (simp_all add: etc_table_def)

lemma sample_nodes [simp]:
  "nd_used root_node" "nd_is_dir root_node" "nd_parent root_node = 0"
  "nd_used etc_node" "nd_is_dir etc_node" "nd_parent etc_node = 0"
  "nd_used motd_node" "\<not> nd_is_dir motd_node" "nd_parent motd_node = 1"
  "nd_owner motd_node = 1000" "nd_mode motd_node = 0x1A0" "nd_size motd_node = 0"
  "nd_owner root_node = 0" "nd_mode root_node = FS_DEFAULT_DIR_MODE"
  by (simp_all add: root_node_def etc_node_def motd_node_def new_node_def)

lemma etc_table_used: "used_node etc_table i \<longleftrightarrow> i = 0 \<or> i = 1"
  by (cases "i = 0 \<or> i = 1") (auto simp: used_node_def etc_table_nth)

lemma sample_table_used: "used_node sample_table i \<longleftrightarrow> i = 0 \<or> i = 1 \<or> i = 2"
  by (cases "i = 0 \<or> i = 1 \<or> i = 2") (auto simp: used_node_def sample_table_nth)

lemma mkdir_etc:
  "fs_mkdir_as init_table 0 (Some ''etc'') 0 FS_DEFAULT_DIR_MODE = Some (0, etc_table)"
proof -
  have d: "dir_node init_table 0" by (simp add: dir_node_def)
  have "lookup init_table 0 ''etc'' = None"
    using lookup_SomeD [of init_table 0 "''etc''"] init_table_used
    by (cases "lookup init_table 0 ''etc''") auto
  moreover have "free_slot init_table = Some 1"
    by (rule free_slot_eqI) (simp_all add: init_table_nth)
  moreover have "parent_leaf init_table 0 ''etc'' = Some (0, ''etc'')"
    by (simp add: parent_leaf_def valid_name_def)
  ultimately show ?thesis
    using fs_mkdir_as_eq [OF init_table_wf d, of "''etc''" 0 FS_DEFAULT_DIR_MODE]
    by (simp add: create_spec_def etc_table_def etc_node_def init_table_nth)
qed

lemma etc_table_reachable: "fs_reachable etc_table"
proof (rule fs_reachable.call)
  show "fs_reachable init_table" using fs_init_eq by (rule fs_reachable.init)
  show "fs_call_ok (Mkdir_as 0 ''etc'' 0 FS_DEFAULT_DIR_MODE) init_table" by (simp add: dir_node_def)
  show "fs_exec (Mkdir_as 0 ''etc'' 0 FS_DEFAULT_DIR_MODE) init_table = Some (0, etc_table)"
    using mkdir_etc by simp
qed

lemma touch_motd:
  "fs_touch_as etc_table 0 (Some ''/etc/motd'') 1000 0x1A0 = Some (0, sample_table)"
proof -
  note wf = fs_reachable_inv [OF etc_table_reachable]
  have d: "dir_node etc_table 0" by (simp add: dir_node_def etc_table_nth)
  have e: "lookup etc_table 0 ''etc'' = Some 1"
    by (simp add: lookup_Some_iff [OF wf] etc_table_used etc_table_nth)
  have "nd_parent (etc_table ! i) = 0" if "used_node etc_table i" for i
    using that by (elim etc_table_used [THEN iffD1, elim_format] disjE) (simp_all add: etc_table_nth)
  then have "lookup etc_table 1 ''motd'' = None"
    using lookup_SomeD(1,2) [of etc_table 1 "''motd''"] by (metis not_None_eq of_nat_1 zero_neq_one)
  moreover have "free_slot etc_table = Some 2"
    by (rule free_slot_eqI) (simp_all add: etc_table_nth less_2_cases_iff)
  moreover have "parent_leaf etc_table 0 ''/etc/motd'' = Some (1, ''motd'')"
    using e by (simp add: parent_leaf_def valid_name_def dirpart_def leafpart_def resolve_spec_def
        walk_step_def etc_table_nth)
  ultimately show ?thesis
    using fs_touch_as_eq [OF wf d, of "''/etc/motd''" 1000 "0x1A0"]
    by (simp add: create_spec_def sample_table_def motd_node_def etc_table_nth)
qed

lemma sample_table_reachable: "fs_reachable sample_table"
proof (rule fs_reachable.call [OF etc_table_reachable])
  show "fs_call_ok (Touch_as 0 ''/etc/motd'' 1000 0x1A0) etc_table"
    by (simp add: dir_node_def etc_table_nth)
  show "fs_exec (Touch_as 0 ''/etc/motd'' 1000 0x1A0) etc_table = Some (0, sample_table)"
    using touch_motd by simp
qed

lemmas sample_table_wf = fs_reachable_inv [OF sample_table_reachable]

lemma sample_table_dirs [simp]: "dir_node sample_table 0" "dir_node sample_table 1"
  by (simp_all add: dir_node_def sample_table_nth)

lemma sample_lookup:
  "lookup sample_table 0 ''etc'' = Some 1" "lookup sample_table 1 ''motd'' = Some 2"
  by (simp_all add: lookup_Some_iff [OF sample_table_wf] sample_table_used sample_table_nth)

lemma sample_resolve:
  "resolve_spec sample_table c ''/etc/motd'' = Some 2" "resolve_spec sample_table 0 ''etc'' = Some 1"
  "resolve_spec sample_table c ''/etc'' = Some 1"
  by (simp_all add: resolve_spec_def walk_step_def sample_lookup del: One_nat_def)

subsection \<open>The calls\<close>

text \<open>C6. Any sequence of file system calls made from the initial table, each with a working
  directory that is a directory at that moment and a data buffer as long as the bytes it is said to
  hold, runs without undefined behaviour and ends in a table whose parent pointers form a tree of
  directories under the root with unique, valid names, and whose name and data buffers are
  terminated.\<close>

theorem fs_run_safe:
  assumes "fs_init = Some ns" "guarded fs_exec fs_call_ok calls ns"
  shows "\<exists>rs ns'. run fs_exec calls ns = Some (rs, ns') \<and> fs_wf ns'"
  using fsm.run_inv [OF _ assms(2)] assms(1) by (simp add: fs_init_eq init_table_wf)

theorem fs_run_safe_witness:
  "\<exists>rs ns'. run fs_exec [Mkdir_as 0 ''home'' 0 0x1ED, Remove 0 ''/tmp'', Touch_as 0 ''/home/notes'' 1000 0x1A4]
     init_table = Some (rs, ns') \<and> fs_wf ns'"
proof (rule fs_run_safe [OF fs_init_eq])
  show "guarded fs_exec fs_call_ok [Mkdir_as 0 ''home'' 0 0x1ED, Remove 0 ''/tmp'',
      Touch_as 0 ''/home/notes'' 1000 0x1A4] init_table"
    by (rule fsm.guarded_always [OF init_table_wf]) (auto dest: fs_wf_root intro: used_nodeI(1) [OF fs_wf_root])
qed

text \<open>C9. On every table the calls can produce, the character loop of \<open>fs_resolve\<close> with its 31
  byte token buffer returns exactly the node reached by splitting the path at its slashes and
  walking the components (empty ones and a single dot stay, two dots go to the parent, a name goes to
  the child of that name), or -1 if the walk fails.\<close>

theorem fs_resolve_walks:
  assumes "fs_reachable ns" "used_node ns c" "nul_free p"
  shows "fs_resolve ns (int c) (Some p) = Some (node_code (resolve_spec ns c p))"
  using fs_resolve_eq [OF fs_reachable_inv [OF assms(1)] assms(2,3)] .

theorem fs_resolve_walks_witness:
  "fs_resolve sample_table (int 0) (Some ''etc//../etc/./motd'') = Some 2"
  using fs_resolve_walks [OF sample_table_reachable, of 0 "''etc//../etc/./motd''"]
  by (simp add: sample_table_used resolve_spec_def walk_step_def sample_lookup sample_table_nth
      del: One_nat_def)

lemma leafpart_whole: "CHR ''/'' \<notin> set p \<Longrightarrow> leafpart p = p"
proof -
  assume "CHR ''/'' \<notin> set p"
  then have "takeWhile (\<lambda>c. c \<noteq> CHR ''/'') (rev p) = rev p"
    by (subst takeWhile_eq_all_conv) auto
  then show ?thesis by (simp only: leafpart_def rev_rev_ident)
qed

lemma create_spec_new:
  assumes wf: "fs_wf ns" and c: "dir_node ns c" and p: "nul_free p"
    and new: "create_spec d ns c p owner mode = (0, ns')"
    and fails: "resolve_spec ns c p = None"
  shows "\<exists>i q. resolve_spec ns' c p = Some i \<and> i < FS_MAX_NODES \<and> \<not> used_node ns i
    \<and> ns' = ns[i := new_node d (ns ! i) q (leafpart p) owner mode]"
proof -
  obtain q s where qs: "parent_leaf ns c p = Some (q, s)"
    using new by (auto simp: create_spec_def split: option.splits)
  have "resolve_spec ns c p = walk_step ns q s"
    using parent_leaf_resolve [OF qs, of ns] qs
    by (auto simp: parent_leaf_def split: if_splits option.splits)
  then have ls: "lookup ns q s = None" and s: "s \<noteq> ''.'' \<and> s \<noteq> ''..''"
    using fails parent_leafD(2) [OF wf c p qs] by (auto simp: walk_step_def valid_name_def split: if_splits)
  have leaf: "s = leafpart p"
    using qs by (auto simp: parent_leaf_def leafpart_whole split: if_splits option.splits)
  from ls new qs obtain i where i: "free_slot ns = Some i"
    and ns': "ns' = ns[i := new_node d (ns ! i) q s owner mode]"
    by (auto simp: create_spec_def split: option.splits)
  have u: "\<not> used_node ns i" "i < FS_MAX_NODES" using free_slot_SomeD [OF i] by (auto simp: used_node_def)
  obtain j where j: "resolve_spec ns' c p = Some j" "used_node ns' j"
    using create_spec_resolves [OF wf c p new] s qs by auto
  have "j = i"
  proof (rule ccontr)
    assume "j \<noteq> i"
    have wf': "fs_wf ns'" using create_spec_wf [OF wf c p new] .
    have uc: "used_node ns c" using c by blast
    note le = create_spec_shape [OF new]
    have "(if CHR ''/'' \<notin> set p then Some c
        else if dirpart p = [] then Some 0 else resolve_spec ns' c (dirpart p)) = Some q"
      using qs resolve_mono [OF wf wf' le uc, of "dirpart p"]
      by (auto simp: parent_leaf_def split: if_splits option.splits)
    then have "lookup ns' q s = Some j"
      using parent_leaf_resolve [OF qs, of ns'] j s parent_leafD(2) [OF wf c p qs]
      by (simp add: walk_step_def valid_name_def)
    with \<open>j \<noteq> i\<close> ns' have "used_node ns j \<and> nd_parent (ns ! j) = int q \<and> node_name ns j = s"
      using lookup_SomeD [of ns' q s j] by (auto simp: used_node_def)
    with ls show False using lookup_NoneD by blast
  qed
  with j(1) u ns' leaf show ?thesis by auto
qed

text \<open>C28. When \<open>fs_mkdir_as\<close> returns 0 for a path that did not resolve, the path resolves in the new
  table to a node that was free before, which is a directory with the given owner, the permission
  bits of the given mode, and the last component as its name; every path that resolved before still
  resolves to the same node.\<close>

theorem fs_mkdir_as_creates:
  assumes "fs_reachable ns" "dir_node ns c" "nul_free p"
    and "fs_resolve ns (int c) (Some p) = Some (-1)"
    and "fs_mkdir_as ns (int c) (Some p) owner mode = Some (0, ns')"
  shows "\<exists>i. fs_resolve ns' (int c) (Some p) = Some (int i) \<and> \<not> used_node ns i
    \<and> fs_is_dir ns' (int i) = Some True \<and> fs_get_owner ns' (int i) = Some (uint owner)
    \<and> fs_get_mode ns' (int i) = Some (mode AND MODE_MASK) \<and> node_name ns' i = leafpart p
    \<and> (\<forall>c' q k. used_node ns c' \<and> nul_free q \<and> 0 \<le> k \<and> fs_resolve ns (int c') (Some q) = Some k \<longrightarrow>
        fs_resolve ns' (int c') (Some q) = Some k)"
proof -
  note wf = fs_reachable_inv [OF assms(1)]
  have u: "used_node ns c" using assms(2) by blast
  have cs: "create_spec True ns c p owner mode = (0, ns')"
    using assms(5) fs_mkdir_as_eq [OF wf assms(2,3)] by simp
  have wf': "fs_wf ns'" using create_spec_wf [OF wf assms(2,3) cs] .
  have none: "resolve_spec ns c p = None"
    using assms(4) fs_resolve_eq [OF wf u assms(3)] by (cases "resolve_spec ns c p") auto
  obtain i q where i: "resolve_spec ns' c p = Some i" "i < FS_MAX_NODES" "\<not> used_node ns i"
    "ns' = ns[i := new_node True (ns ! i) q (leafpart p) owner mode]"
    using create_spec_new [OF wf assms(2,3) cs none] by blast
  note le = create_spec_shape [OF cs]
  have at: "ns' ! i = new_node True (ns ! i) q (leafpart p) owner mode" "i < length ns'"
    using i wf by simp_all
  have "\<exists>s. parent_leaf ns c p = Some s"
    using cs by (auto simp: create_spec_def split: option.splits)
  then have "nul_free (leafpart p)"
    using assms(3) by (metis path_parts nul_free_append nul_free_Cons leafpart_def nul_free_def
        set_rev set_takeWhileD)
  then have name: "node_name ns' i = leafpart p" using at by (simp add: new_node_def)
  have keep: "fs_resolve ns' (int c') (Some r) = Some k"
    if "used_node ns c'" "nul_free r" "0 \<le> k" "fs_resolve ns (int c') (Some r) = Some k" for c' r k
  proof -
    have "used_node ns' c'" using shape_leD(1) [OF le that(1)] .
    with that show ?thesis
      using resolve_mono [OF wf wf' le that(1), of r] fs_resolve_eq [OF wf that(1,2)]
        fs_resolve_eq [OF wf' _ that(2)] by (cases "resolve_spec ns c' r") auto
  qed
  have "fs_resolve ns' (int c) (Some p) = Some (int i)"
    using i fs_resolve_eq [OF wf' shape_leD(1) [OF le u] assms(3)] by simp
  moreover have "fs_live ns' (int i) = Some True"
    using at i(2) by (simp add: fs_live_def nd_at_def)
  ultimately show ?thesis
    using at i(3) name keep
    by (auto simp: fs_is_dir_def fs_get_owner_def fs_get_mode_def nd_at_def intro!: exI [of _ i])
qed

theorem fs_mkdir_as_creates_witness:
  "\<exists>i. fs_resolve etc_table (int 0) (Some ''etc'') = Some (int i) \<and> \<not> used_node init_table i"
proof -
  have "dir_node init_table 0" by (simp add: dir_node_def)
  moreover have "fs_resolve init_table (int 0) (Some ''etc'') = Some (-1)"
  proof -
    have "lookup init_table 0 ''etc'' = None"
      using lookup_SomeD [of init_table 0 "''etc''"] init_table_used
      by (cases "lookup init_table 0 ''etc''") auto
    then show ?thesis
      using fs_resolve_eq [OF init_table_wf, of 0 "''etc''"]
      by (simp add: init_table_used resolve_spec_def walk_step_def)
  qed
  moreover have "fs_mkdir_as init_table (int 0) (Some ''etc'') 0 FS_DEFAULT_DIR_MODE = Some (0, etc_table)"
    using mkdir_etc by simp
  ultimately show ?thesis
    using fs_mkdir_as_creates [OF fs_reachable.init [OF fs_init_eq], of 0 "''etc''" 0
      FS_DEFAULT_DIR_MODE etc_table] by auto
qed

text \<open>C29. \<open>fs_mkdir_as\<close> and \<open>fs_touch_as\<close> fail without touching the table: a result other than 0 is
  -1 with the table unchanged, and it occurs exactly when the directory part of the path does not
  resolve to a directory or its last component is not a valid name, when the last component exists
  there as the other kind of node, or when it does not exist and the table has no free node.\<close>

theorem fs_create_errors:
  assumes "fs_reachable ns" "dir_node ns c" "nul_free p"
    and "(if d then fs_mkdir_as else fs_touch_as) ns (int c) (Some p) owner mode = Some (r, ns')"
  shows "(r = 0 \<or> r = -1 \<and> ns' = ns)
    \<and> (r \<noteq> 0 \<longleftrightarrow> (case parent_leaf ns c p of None \<Rightarrow> True | Some (q, s) \<Rightarrow>
           (case lookup ns q s of Some e \<Rightarrow> nd_is_dir (ns ! e) \<noteq> d
            | None \<Rightarrow> \<forall>i \<in> {1..<FS_MAX_NODES}. nd_used (ns ! i))))"
proof -
  note wf = fs_reachable_inv [OF assms(1)]
  have cs: "create_spec d ns c p owner mode = (r, ns')"
    using assms(4) fs_mkdir_as_eq [OF wf assms(2,3)] fs_touch_as_eq [OF wf assms(2,3)]
    by (cases d) simp_all
  have full: "free_slot ns = None \<longleftrightarrow> (\<forall>i \<in> {1..<FS_MAX_NODES}. nd_used (ns ! i))"
    using free_slot_SomeD [of ns] free_slot_NoneD [of ns] by (cases "free_slot ns") auto
  show ?thesis
    using cs full by (auto simp: create_spec_def split: option.splits prod.splits if_splits)
qed

theorem fs_create_errors_witness:
  "\<exists>r. fs_touch_as sample_table 0 (Some ''etc'') 7 0 = Some (r, sample_table) \<and> r = -1"
proof -
  obtain r ns' where t: "fs_touch_as sample_table (int 0) (Some ''etc'') 7 0 = Some (r, ns')"
    using fs_touch_as_eq [OF sample_table_wf, of 0 "''etc''" 7 0]
    by (cases "create_spec False sample_table 0 ''etc'' 7 0") simp
  have "parent_leaf sample_table 0 ''etc'' = Some (0, ''etc'')"
    by (simp add: parent_leaf_def valid_name_def)
  then show ?thesis
    using t fs_create_errors [OF sample_table_reachable, of 0 "''etc''" False 7 0 r ns']
    by (auto simp: sample_lookup sample_table_nth)
qed

subsection \<open>File contents\<close>

lemma create_spec_frame:
  assumes "create_spec d ns c p owner mode = (r, ns')" "used_node ns j"
  shows "ns' ! j = ns ! j"
proof -
  have "ns[i := n] ! j = ns ! j" if "free_slot ns = Some i" for i n
    using free_slot_SomeD(3) [OF that] assms(2) by (cases "i = j") (auto simp: used_node_def)
  with assms(1) show ?thesis by (auto simp: create_spec_def split: option.splits prod.splits)
qed

lemma write_put_resolve:
  assumes "fs_wf ns" "used_node ns c" "used_node ns i" "buffer_ok data sz"
    "write_put ns i data sz = (r, ns')"
  shows "resolve_spec ns' c q = resolve_spec ns c q"
proof (cases "nd_is_dir (ns ! i)")
  case True
  with assms(5) show ?thesis by (simp add: write_put_def)
next
  case False
  with assms(5) have "ns' = ns[i := write_node (ns ! i) data sz]" by (simp add: write_put_def)
  then show ?thesis
    using assms(2,3) resolve_same_shape [OF assms(1) write_put_wf [OF assms(1,3,4,5)]]
      shape_le_attr [OF assms(3), of "write_node (ns ! i) data sz"] assms(1)
    by (simp add: used_node_def)
qed

lemma write_spec_success:
  assumes wf: "fs_wf ns" and c: "dir_node ns c" and p: "nul_free p" and b: "buffer_ok data sz"
    and w: "write_spec ns c p data sz = (0, ns')"
  obtains ns1 i where "fs_wf ns1" "shape_le ns ns1" "resolve_spec ns1 c p = Some i" "used_node ns1 i"
    "\<not> nd_is_dir (ns1 ! i)" "ns' = ns1[i := write_node (ns1 ! i) data sz]"
    "\<And>j. used_node ns j \<Longrightarrow> ns1 ! j = ns ! j" "\<And>j q. used_node ns1 j \<Longrightarrow> resolve_spec ns' j q = resolve_spec ns1 j q"
proof (cases "resolve_spec ns c p")
  case (Some i)
  have u: "used_node ns i" using resolve_spec_used [OF wf _ Some] c by blast
  have "write_put ns i data sz = (0, ns')" using w Some by (simp add: write_spec_def)
  with that [OF wf _ Some u] write_put_resolve [OF wf _ u b] show thesis
    by (auto simp: write_put_def shape_le_def split: if_splits)
next
  case None
  obtain r1 ns1 where 1: "create_spec False ns c p 0 FS_DEFAULT_FILE_MODE = (r1, ns1)"
    by (cases "create_spec False ns c p 0 FS_DEFAULT_FILE_MODE")
  with w None obtain i where i: "resolve_spec ns1 c p = Some i" "write_put ns1 i data sz = (0, ns')"
    by (auto simp: write_spec_def split: if_splits option.splits)
  have wf1: "fs_wf ns1" using create_spec_wf [OF wf c p 1] .
  note le = create_spec_shape [OF 1]
  have u: "used_node ns1 i"
    using resolve_spec_used [OF wf1 shape_leD(1) [OF le] i(1)] c by blast
  with that [OF wf1 le i(1) u] i(2) create_spec_frame [OF 1] write_put_resolve [OF wf1 _ u b]
  show thesis by (auto simp: write_put_def split: if_splits)
qed

lemma fs_read_file_eq:
  assumes "fs_wf ns" "used_node ns c" "nul_free p"
  shows "fs_read_file ns (int c) (Some p) = Some (case resolve_spec ns c p of None \<Rightarrow> None
    | Some i \<Rightarrow> if nd_is_dir (ns ! i) then None else Some (nd_data (ns ! i), nd_size (ns ! i)))"
  using resolve_spec_used [OF assms(1,2)] assms
  by (auto simp: fs_read_file_def fs_resolve_eq nd_at_def used_node_def split: option.splits)

lemma write_read:
  assumes "fs_reachable ns" "dir_node ns c" "nul_free p" "buffer_ok (Some d) sz"
    and "fs_write_file ns (int c) (Some p) (Some d) sz = Some (0, ns')"
  shows "(\<exists>dt. fs_read_file ns' (int c) (Some p) = Some (Some (dt, min sz 4095))
      \<and> take (min sz 4095) dt = take (min sz 4095) d \<and> dt ! min sz 4095 = NUL)
    \<and> (\<forall>c' q x. used_node ns c' \<and> nul_free q \<and> fs_read_file ns (int c') (Some q) = Some (Some x)
        \<and> fs_resolve ns (int c') (Some q) \<noteq> fs_resolve ns' (int c) (Some p) \<longrightarrow>
        fs_read_file ns' (int c') (Some q) = Some (Some x))"
proof -
  note wf = fs_reachable_inv [OF assms(1)]
  have uc: "used_node ns c" using assms(2) by blast
  have w: "write_spec ns c p (Some d) sz = (0, ns')"
    using assms(5) fs_write_file_eq [OF wf assms(2,3,4)] by simp
  obtain ns1 i where 1: "fs_wf ns1" "shape_le ns ns1" "resolve_spec ns1 c p = Some i" "used_node ns1 i"
    "\<not> nd_is_dir (ns1 ! i)" "ns' = ns1[i := write_node (ns1 ! i) (Some d) sz]"
    "\<And>j. used_node ns j \<Longrightarrow> ns1 ! j = ns ! j" "\<And>j q. used_node ns1 j \<Longrightarrow> resolve_spec ns' j q = resolve_spec ns1 j q"
    using write_spec_success [OF wf assms(2,3,4) w] by blast
  have wf': "fs_wf ns'" using write_spec_wf [OF wf assms(2,3,4) w] .
  have used: "used_node ns' j" if "used_node ns1 j" for j
    using that 1(6) fs_wf_length [OF 1(1)] by (cases "j = i") (auto simp: used_node_def)
  have at: "ns' ! i = write_node (ns1 ! i) (Some d) sz" "node_ok (ns' ! i)"
    using 1(1,4,6) fs_wf_node_ok [OF wf' used [OF 1(4)]] by (auto simp: used_node_def)
  have uc': "used_node ns' c" using used shape_leD(1) [OF 1(2) uc] by blast
  have res: "resolve_spec ns' c p = Some i" using 1(3,8) shape_leD(1) [OF 1(2) uc] by simp
  have rd: "fs_read_file ns' (int c) (Some p) = Some (Some (nd_data (ns' ! i), min sz 4095))"
    using at 1(5) by (simp add: fs_read_file_eq [OF wf' uc' assms(3)] res)
  have "take (min sz 4095) (nd_data (ns' ! i)) = take (min sz 4095) d"
    using write_node_data [OF fs_wf_node_ok [OF 1(1,4)] assms(4)] at(1) by simp
  moreover have "nd_data (ns' ! i) ! min sz 4095 = NUL" using at by (simp add: node_ok_def)
  moreover have "fs_read_file ns' (int c') (Some q) = Some (Some x)"
    if q: "used_node ns c'" "nul_free q" "fs_read_file ns (int c') (Some q) = Some (Some x)"
      "fs_resolve ns (int c') (Some q) \<noteq> fs_resolve ns' (int c) (Some p)" for c' q x
  proof -
    obtain j where j: "resolve_spec ns c' q = Some j" "\<not> nd_is_dir (ns ! j)"
      "x = (nd_data (ns ! j), nd_size (ns ! j))"
      using q(3) by (auto simp: fs_read_file_eq [OF wf q(1,2)] split: option.splits if_splits)
    have uj: "used_node ns j" using resolve_spec_used [OF wf q(1) j(1)] .
    have "j \<noteq> i" using q(4) j(1) res fs_resolve_eq [OF wf q(1,2)] fs_resolve_eq [OF wf' uc' assms(3)] by auto
    then have "ns' ! j = ns ! j" using 1(6,7) uj by simp
    moreover have u1: "used_node ns1 c'" using shape_leD(1) [OF 1(2) q(1)] .
    moreover have "resolve_spec ns' c' q = Some j"
      using resolve_mono [OF wf 1(1,2) q(1) j(1)] 1(8) [OF u1] by simp
    ultimately show ?thesis using j used [OF u1] by (simp add: fs_read_file_eq [OF wf' _ q(2)])
  qed
  ultimately show ?thesis using rd by blast
qed

text \<open>C10. After \<open>fs_write_file\<close> returns 0, \<open>fs_read_file\<close> on the same path succeeds: the size is the
  written one cut to 4095, the data starts with that many bytes of the buffer and is followed by a
  NUL. Every other file that could be read before reads the same, whatever path leads to it.\<close>

theorem fs_write_then_read:
  assumes "fs_reachable ns" "dir_node ns c" "nul_free p" "buffer_ok (Some d) sz"
    and "fs_write_file ns (int c) (Some p) (Some d) sz = Some (0, ns')"
  shows "(\<exists>dt. fs_read_file ns' (int c) (Some p) = Some (Some (dt, min sz 4095))
      \<and> take (min sz 4095) dt = take (min sz 4095) d \<and> dt ! min sz 4095 = NUL)
    \<and> (\<forall>c' q x. used_node ns c' \<and> nul_free q \<and> fs_read_file ns (int c') (Some q) = Some (Some x)
        \<and> fs_resolve ns (int c') (Some q) \<noteq> fs_resolve ns' (int c) (Some p) \<longrightarrow>
        fs_read_file ns' (int c') (Some q) = Some (Some x))"
  by (rule write_read [OF assms])

theorem fs_write_then_read_witness:
  "\<exists>ns' dt. fs_write_file sample_table 1 (Some ''motd'') (Some ''hi'') 2 = Some (0, ns')
     \<and> fs_read_file ns' 1 (Some ''motd'') = Some (Some (dt, 2)) \<and> take 2 dt = ''hi''"
proof -
  have b: "buffer_ok (Some ''hi'') 2" by (simp add: buffer_ok_def)
  have "resolve_spec sample_table 1 ''motd'' = Some 2"
    by (simp add: resolve_spec_def walk_step_def sample_lookup del: One_nat_def)
  then have "fs_write_file sample_table (int 1) (Some ''motd'') (Some ''hi'') 2 =
      Some (0, sample_table[2 := write_node motd_node (Some ''hi'') 2])"
    using fs_write_file_eq [OF sample_table_wf sample_table_dirs(2), of "''motd''"] b
    by (simp add: write_spec_def write_put_def sample_table_nth)
  with fs_write_then_read [OF sample_table_reachable sample_table_dirs(2) _ b, of "''motd''"]
  show ?thesis by (auto simp: numeral_2_eq_2)
qed

subsection \<open>Removal and listing\<close>

text \<open>C30. \<open>fs_remove\<close> returns 0 only for a node other than the root without children; it then clears
  that node's \<open>used\<close> flag and nothing else, its slot can be allocated again, and unless it was the
  working directory itself the path no longer resolves. In every other case it returns -1 and
  leaves the table unchanged.\<close>

theorem fs_remove_unlinks:
  assumes "fs_reachable ns" "used_node ns c" "nul_free p"
    and "fs_remove ns (int c) (Some p) = Some (r, ns')"
  shows "if r = 0
    then \<exists>i. fs_resolve ns (int c) (Some p) = Some (int i) \<and> i \<noteq> 0
      \<and> (\<forall>j. used_node ns j \<longrightarrow> nd_parent (ns ! j) \<noteq> int i)
      \<and> ns' = ns[i := (ns ! i)\<lparr>nd_used := False\<rparr>] \<and> free_slot ns' \<noteq> None
      \<and> (i \<noteq> c \<longrightarrow> fs_resolve ns' (int c) (Some p) = Some (-1))
    else r = -1 \<and> ns' = ns \<and> (\<forall>i. fs_resolve ns (int c) (Some p) = Some (int i) \<longrightarrow>
      i = 0 \<or> nd_is_dir (ns ! i) \<and> (\<exists>j. used_node ns j \<and> nd_parent (ns ! j) = int i))"
proof -
  note wf = fs_reachable_inv [OF assms(1)]
  have rs: "remove_spec ns c p = (r, ns')"
    using assms(4) fs_remove_eq [OF wf assms(2,3)] by simp
  note res = fs_resolve_eq [OF wf assms(2,3)]
  show ?thesis
  proof (cases "r = 0")
    case False
    with rs show ?thesis
      by (auto simp: remove_spec_def res used_node_def split: option.splits if_splits)
  next
    case True
    with rs obtain i where i: "resolve_spec ns c p = Some i" "used_node ns i" "i \<noteq> 0"
      "\<And>j. used_node ns j \<Longrightarrow> nd_parent (ns ! j) \<noteq> int i"
      "ns' = ns[i := (ns ! i)\<lparr>nd_used := False\<rparr>]"
      using remove_spec_success [OF wf assms(2)] by metis
    have wf': "fs_wf ns'" using remove_spec_wf [OF wf assms(2) rs] .
    have off: "\<not> used_node ns' i" "\<not> nd_used (ns' ! i)"
      using i(2,5) wf by (auto simp: used_node_def)
    have "free_slot ns' \<noteq> None"
      using free_slot_NoneD [of ns' i] off i(2,3) by (auto simp: used_node_def)
    moreover have "fs_resolve ns' (int c) (Some p) = Some (-1)" if "i \<noteq> c"
    proof -
      have c': "used_node ns' c" using that assms(2) i(5) by (simp add: used_node_def)
      have "shape_le ns' ns" using shape_le_drop [of "(ns ! i)\<lparr>nd_used := False\<rparr>" ns i] i(5) wf by simp
      then have "resolve_spec ns' c p = None"
        using resolve_mono [OF wf' wf _ c', of p] resolve_spec_used [OF wf' c', of p] i(1) off(1)
        by (cases "resolve_spec ns' c p") auto
      then show ?thesis using fs_resolve_eq [OF wf' c' assms(3)] by simp
    qed
    ultimately show ?thesis using True i res by auto
  qed
qed

theorem fs_remove_unlinks_witness:
  "fs_remove sample_table 0 (Some ''/etc'') = Some (-1, sample_table)
   \<and> (\<exists>ns'. fs_remove sample_table 0 (Some ''/etc/motd'') = Some (0, ns')
        \<and> fs_resolve ns' 0 (Some ''/etc/motd'') = Some (-1))"
proof
  have u: "used_node sample_table 0" "used_node sample_table 2" by (simp_all add: sample_table_used)
  have child: "nd_used (sample_table ! 2)" "nd_parent (sample_table ! 2) = 1" "2 < FS_MAX_NODES"
    by (simp_all add: sample_table_nth)
  obtain r ns' where e: "fs_remove sample_table (int 0) (Some ''/etc'') = Some (r, ns')"
    using fs_remove_eq [OF sample_table_wf u(1), of "''/etc''"]
    by (cases "remove_spec sample_table 0 ''/etc''") simp
  have "fs_resolve sample_table (int 0) (Some ''/etc'') = Some (int 1)"
    using fs_resolve_eq [OF sample_table_wf u(1), of "''/etc''"] sample_resolve(3) by simp
  with fs_remove_unlinks [OF sample_table_reachable u(1) _ e] child u
  show "fs_remove sample_table 0 (Some ''/etc'') = Some (-1, sample_table)"
    using e by (auto split: if_splits)
  have "nd_parent (sample_table ! j) \<noteq> 2" if "used_node sample_table j" for j
    using that by (elim sample_table_used [THEN iffD1, elim_format] disjE) (simp_all add: sample_table_nth)
  then have "fs_remove sample_table (int 0) (Some ''/etc/motd'')
      = Some (0, sample_table[2 := motd_node\<lparr>nd_used := False\<rparr>])"
    using fs_remove_eq [OF sample_table_wf u(1), of "''/etc/motd''"] sample_resolve(1)
    by (simp add: remove_spec_def sample_table_nth)
  with fs_remove_unlinks [OF sample_table_reachable u(1) _ this]
    fs_resolve_eq [OF sample_table_wf u(1), of "''/etc/motd''"] sample_resolve(1)
  show "\<exists>ns'. fs_remove sample_table 0 (Some ''/etc/motd'') = Some (0, ns')
        \<and> fs_resolve ns' 0 (Some ''/etc/motd'') = Some (-1)" by auto
qed

lemma fs_list_loop_eq:
  assumes "length ns = FS_MAX_NODES" "max_out \<le> length out"
  shows "set is \<subseteq> {..<FS_MAX_NODES} \<Longrightarrow> length acc = min max_out n \<Longrightarrow>
    fs_list_loop is ns dir (acc @ drop (length acc) out) max_out n =
      (let kids = filter (\<lambda>i. nd_used (ns ! i) \<and> nd_parent (ns ! i) = dir \<and> int i \<noteq> dir) is;
           new = take (max_out - n) (map int kids)
       in Some (n + length kids, acc @ new @ drop (length acc + length new) out))"
  using assms
proof (induction "is" arbitrary: acc n)
  case Nil
  then show ?case by simp
next
  case (Cons i "is")
  let ?P = "nd_used (ns ! i) \<and> nd_parent (ns ! i) = dir \<and> int i \<noteq> dir"
  have rd: "rd ns i = Some (ns ! i)" using Cons.prems by simp
  show ?case
  proof (cases "?P \<and> n < max_out")
    case True
    have room: "length acc < length out" using True Cons.prems by linarith
    then have "drop (length acc) out = out ! length acc # drop (Suc (length acc)) out"
      by (simp add: Cons_nth_drop_Suc)
    then have "wr (acc @ drop (length acc) out) (length acc) (int i) = Some ((acc @ [int i]) @ drop (Suc (length acc)) out)"
      using room by (simp add: wr_def list_update_append)
    moreover have "length acc = n" using True Cons.prems by simp
    moreover have "max_out - n = Suc (max_out - Suc n)" using True by linarith
    ultimately show ?thesis
      using True rd Cons.IH [of "acc @ [int i]" "Suc n"] Cons.prems
      by (simp add: Let_def)
  next
    case False
    have "fs_list_loop (i # is) ns dir (acc @ drop (length acc) out) max_out n =
        fs_list_loop is ns dir (acc @ drop (length acc) out) max_out (if ?P then Suc n else n)"
      using False rd by auto
    also have "\<dots> = (let kids = filter (\<lambda>i. nd_used (ns ! i) \<and> nd_parent (ns ! i) = dir \<and> int i \<noteq> dir) is;
           new = take (max_out - (if ?P then Suc n else n)) (map int kids)
       in Some ((if ?P then Suc n else n) + length kids,
            acc @ new @ drop (length acc + length new) out))"
      by (rule Cons.IH) (use Cons.prems False in auto)
    finally show ?thesis using False by (auto simp: Let_def)
  qed
qed

definition children :: "fs \<Rightarrow> int \<Rightarrow> nat list" where
  "children ns dir =
     filter (\<lambda>i. nd_used (ns ! i) \<and> nd_parent (ns ! i) = dir \<and> int i \<noteq> dir) [0..<FS_MAX_NODES]"

text \<open>\<open>fs_list\<close> of a directory returns the number of its children (the root is not its own
  child), stores the first \<open>max_out\<close> of them in the caller's array in increasing order and leaves the
  rest of the array alone; for anything but a directory in use it returns -1 and stores nothing.\<close>

theorem fs_list_children:
  assumes "fs_reachable ns" "max_out \<le> length out"
  shows "fs_list ns dir out max_out =
    (if 0 \<le> dir \<and> dir_node ns (nat dir)
     then Some (int (length (children ns dir)),
       map int (take max_out (children ns dir)) @ drop (min max_out (length (children ns dir))) out)
     else Some (-1, out))"
proof -
  note wf = fs_reachable_inv [OF assms(1)]
  have loop: "fs_list_loop [0..<FS_MAX_NODES] ns dir out max_out 0 = Some (length (children ns dir),
      map int (take max_out (children ns dir)) @ drop (min max_out (length (children ns dir))) out)"
    using fs_list_loop_eq [of ns max_out out "[0..<FS_MAX_NODES]" "[]" 0 dir] wf assms(2)
    by (simp add: Let_def take_map min.commute atLeast0LessThan flip: children_def)
  have "length (children ns dir) \<le> FS_MAX_NODES"
    unfolding children_def by (rule order_trans [OF length_filter_le]) simp
  with loop wf show ?thesis
    by (auto simp: fs_list_def fs_live_total dir_node_def nd_at_def used_node_def)
qed

theorem fs_list_children_witness:
  "fs_list sample_table 1 [9, 9] 2 = Some (1, [2, 9])"
proof -
  have "children sample_table 1 = filter (\<lambda>i. i = 2) [0..<FS_MAX_NODES]"
    unfolding children_def
  proof (rule filter_cong [OF refl])
    fix i assume "i \<in> set [0..<FS_MAX_NODES]"
    then show "(nd_used (sample_table ! i) \<and> nd_parent (sample_table ! i) = 1 \<and> int i \<noteq> 1) = (i = 2)"
      using sample_table_used [of i] by (cases "i = 0 \<or> i = 1 \<or> i = 2")
        (auto simp: used_node_def sample_table_nth)
  qed
  also have "[0..<FS_MAX_NODES] = 0 # 1 # 2 # [3..<FS_MAX_NODES]" by (simp add: upt_conv_Cons)
  finally have "children sample_table 1 = [2]" by (simp add: filter_empty_conv)
  then show ?thesis
    using fs_list_children [OF sample_table_reachable, of 2 "[9, 9]" 1] sample_table_dirs(2) by simp
qed

subsection \<open>Path names\<close>

lemma sample_chain: "chain sample_table 2 = [2, 1]"
proof -
  have "is_chain sample_table 1 [1]"
    by (rule is_chain.up [OF _ _ _ is_chain.root]) (simp_all add: sample_table_used sample_table_nth)
  then have "is_chain sample_table 2 [2, 1]"
    by (rule is_chain.up [rotated 3]) (simp_all add: sample_table_used sample_table_nth)
  then show ?thesis using up_chain_eq by (simp add: chain_def)
qed

text \<open>\<open>fs_make_path\<close> never writes at or past \<open>out_size\<close>, for any node number. It returns 0 exactly
  when the node is in use and its absolute path, the terminator and, except for the root, one more
  byte fit; the buffer then holds that path. The node's depth never exceeds the 128 entry stack.\<close>

theorem fs_make_path_bounds:
  assumes "fs_reachable ns" "out_size \<le> length out"
  shows "\<exists>r out'. fs_make_path ns node (Some out) out_size = Some (r, out')
    \<and> length out' = length out \<and> drop out_size out' = drop out_size out
    \<and> (r = 0 \<longleftrightarrow> 0 \<le> node \<and> used_node ns (nat node)
         \<and> length (abs_path ns (nat node)) + (if node = 0 then 0 else 1) < out_size)
    \<and> (r = 0 \<longrightarrow> cstr out' = abs_path ns (nat node))
    \<and> (r = 0 \<or> r = -1)"
proof -
  note wf = fs_reachable_inv [OF assms(1)]
  show ?thesis
  proof (cases "0 \<le> node \<and> used_node ns (nat node)")
    case False
    then have "fs_live ns node = Some False" using wf by (auto simp: fs_live_total used_node_def)
    with False show ?thesis by (auto simp: fs_make_path_def)
  next
    case True
    then obtain i where i: "node = int i" "used_node ns i" by (metis nat_0_le)
    let ?p = "abs_path ns i"
    show ?thesis
    proof (cases "length ?p + (if i = 0 then 0 else 1) < out_size")
      case fits: True
      then have "fs_make_path ns (int i) (Some out) out_size = Some (0, ?p @ NUL # drop (length ?p + 1) out)"
        using fs_make_path_eq [OF wf i(2) assms(2)] by simp
      moreover have "length ?p + 1 \<le> out_size" using fits by (simp split: if_splits)
      then have "length (?p @ NUL # drop (length ?p + 1) out) = length out"
        "drop out_size (?p @ NUL # drop (length ?p + 1) out) = drop out_size out"
        using assms(2) by (auto simp: drop_Cons' )
      moreover have "cstr (?p @ NUL # drop (length ?p + 1) out) = ?p"
        by (simp add: nul_free_abs_path)
      ultimately show ?thesis using i fits by auto
    next
      case False
      with fs_make_path_eq [OF wf i(2) assms(2)] i show ?thesis by auto
    qed
  qed
qed

theorem fs_make_path_bounds_witness:
  "\<exists>r out'. fs_make_path sample_table 2 (Some (replicate 4 NUL)) 4 = Some (r, out') \<and> r = -1 \<and> length out' = 4"
proof -
  have "abs_path sample_table 2 = ''/etc/motd''"
    by (simp add: abs_path_def sample_table_nth sample_chain)
  then show ?thesis
    using fs_make_path_bounds [OF sample_table_reachable, of 4 "replicate 4 NUL" 2] by auto
qed

text \<open>C31. Printing and resolving are inverse: the string that a successful \<open>fs_make_path\<close> leaves in
  the buffer resolves, from any working node, to the node it was made from, if no node above it is
  named with one or two dots.\<close>

theorem fs_make_path_resolves:
  assumes "fs_reachable ns" "used_node ns i" "used_node ns c" "plain_path ns i" "out_size \<le> length out"
    and "fs_make_path ns (int i) (Some out) out_size = Some (0, out')"
  shows "fs_resolve ns (int c) (Some (cstr out')) = Some (int i)"
proof -
  note wf = fs_reachable_inv [OF assms(1)]
  have "cstr out' = abs_path ns i"
    using fs_make_path_eq [OF wf assms(2,5)] assms(6) nul_free_abs_path by (auto split: if_splits)
  then show ?thesis
    using fs_resolve_eq [OF wf assms(3) nul_free_abs_path, of ns i] abs_path_resolves [OF wf assms(2,4)]
    by simp
qed

theorem fs_make_path_resolves_witness:
  "\<exists>out'. fs_make_path sample_table 2 (Some (replicate 64 NUL)) 64 = Some (0, out')
     \<and> fs_resolve sample_table 1 (Some (cstr out')) = Some 2"
proof -
  have u: "used_node sample_table 2" "used_node sample_table 1" by (simp_all add: sample_table_used)
  have pl: "plain_path sample_table 2" by (simp add: plain_path_def sample_table_nth sample_chain)
  have "abs_path sample_table 2 = ''/etc/motd''" by (simp add: abs_path_def sample_table_nth sample_chain)
  then have "fs_make_path sample_table (int 2) (Some (replicate 64 NUL)) 64
      = Some (0, ''/etc/motd'' @ NUL # drop 10 (replicate 64 NUL))"
    using fs_make_path_eq [OF sample_table_wf u(1), of 64 "replicate 64 NUL"] by simp
  then show ?thesis
    using fs_make_path_resolves [OF sample_table_reachable u pl, of 64 "replicate 64 NUL"
      "''/etc/motd'' @ NUL # drop 10 (replicate 64 NUL)"]
    by (intro exI [of _ "''/etc/motd'' @ NUL # drop 10 (replicate 64 NUL)"] conjI)
      (simp_all only: of_nat_numeral of_nat_1 length_replicate order_refl)
qed

subsection \<open>Permissions\<close>

lemma subset_bits:
  fixes a b :: u8
  shows "a AND b = b \<longleftrightarrow> (\<forall>k < 8. bit b k \<longrightarrow> bit a k)"
  by (auto simp: bit_eq_iff bit_simps)

lemma bit_low_masks: "bit (511 :: int) k \<longleftrightarrow> k < 9" "bit (7 :: int) k \<longleftrightarrow> k < 3"
proof -
  have "(511 :: int) = Bit_Operations.mask 9" "(7 :: int) = Bit_Operations.mask 3"
    by (simp_all add: mask_eq_exp_minus_1)
  then show "bit (511 :: int) k \<longleftrightarrow> k < 9" "bit (7 :: int) k \<longleftrightarrow> k < 3"
    by (auto simp only: bit_mask_iff) simp_all
qed

text \<open>\<open>fs_check_access\<close> grants exactly what the permission bits say: a dead node nothing; a live
  one everything to the super user and to an empty request; otherwise each requested bit must be one
  of the three low bits and be set in the owner's triple of the mode if the user owns the node, in
  the triple of the others if not.\<close>

theorem fs_check_access_bits:
  assumes "fs_reachable ns"
  shows "fs_check_access ns node user acc = Some (0 \<le> node \<and> used_node ns (nat node) \<and>
    (acc = 0 \<or> user = 0 \<or> (\<forall>k < 8. bit acc k \<longrightarrow> k < 3 \<and>
       bit (nd_mode (ns ! nat node)) (k + (if user = nd_owner (ns ! nat node) then 6 else 0)))))"
proof -
  note wf = fs_reachable_inv [OF assms]
  have owner: "ucast (drop_bit 6 m AND 7) AND acc = acc \<longleftrightarrow>
      (\<forall>k < 8. bit acc k \<longrightarrow> k < 3 \<and> bit m (k + 6))" for m :: u16
    unfolding subset_bits by (auto simp: bit_simps bit_low_masks add.commute)
  have other: "ucast ((m AND MODE_MASK) AND 7) AND acc = acc \<longleftrightarrow>
      (\<forall>k < 8. bit acc k \<longrightarrow> k < 3 \<and> bit m k)" for m :: u16
    unfolding subset_bits by (auto simp: bit_simps bit_low_masks)
  show ?thesis
    using wf by (auto simp: fs_check_access_def fs_live_total used_node_def nd_at_def Let_def owner other)
qed

theorem fs_check_access_bits_witness:
  "fs_check_access sample_table 2 1000 6 = Some True \<and> fs_check_access sample_table 2 1001 4 = Some False"
proof -
  have "(6 :: u8) \<noteq> 0" "(4 :: u8) \<noteq> 0" "(1000 :: u16) \<noteq> 0" "(1001 :: u16) \<noteq> 0" "(1001 :: u16) \<noteq> 1000"
    by simp_all
  moreover have "k < 3 \<and> bit (0x1A0 :: u16) (k + 6)" if "bit (6 :: u8) k" "k < 8" for k
  proof -
    have "k = 0 \<or> k = 1 \<or> k = 2 \<or> k = 3 \<or> k = 4 \<or> k = 5 \<or> k = 6 \<or> k = 7" using that(2) by auto
    then show ?thesis using that(1) by (elim disjE) simp_all
  qed
  moreover have "bit (4 :: u8) 2" "\<not> bit (0x1A0 :: u16) 2" by simp_all
  ultimately show ?thesis
    using fs_check_access_bits [OF sample_table_reachable, of 2]
    by (auto simp: sample_table_used sample_table_nth intro!: exI [of _ 2])
qed

subsection \<open>The disk image\<close>

text \<open>C7. Serialising any table the calls can produce and loading the bytes gives the table back, up
  to the owner and mode of the root: \<open>fs_serialize\<close> fills exactly the first 530192 bytes of the
  buffer and returns that number, \<open>fs_deserialize\<close> of those bytes returns 0 whatever the table held
  before, and every path resolves to the same node as before.\<close>

theorem fs_image_roundtrip:
  assumes "fs_reachable ns" "IMAGE_SIZE \<le> max_len" "max_len \<le> length buf"
  shows "\<exists>buf'. fs_serialize ns (Some buf) max_len = Some (IMAGE_SIZE, Some buf')
    \<and> length buf' = length buf \<and> drop IMAGE_SIZE buf' = drop IMAGE_SIZE buf
    \<and> (\<forall>ns0 len. IMAGE_SIZE \<le> len \<and> len \<le> length buf' \<longrightarrow>
        fs_deserialize ns0 (Some buf') len = Some (0, root_attr_reset ns))
    \<and> (\<forall>c p. used_node ns c \<and> nul_free p \<longrightarrow>
        fs_resolve (root_attr_reset ns) (int c) (Some p) = fs_resolve ns (int c) (Some p))"
proof -
  note wf = fs_reachable_inv [OF assms(1)]
  let ?b = "image ns @ drop IMAGE_SIZE buf"
  have len: "length (image ns) = IMAGE_SIZE" using wf by (simp add: image_length)
  have ser: "fs_serialize ns (Some buf) max_len = Some (IMAGE_SIZE, Some ?b)"
    using wf assms(2,3) by (intro fs_serialize_eq) auto
  have load: "fs_deserialize ns0 (Some ?b) n = Some (0, root_attr_reset ns)"
    if "IMAGE_SIZE \<le> n" "n \<le> length ?b" for ns0 n
    using fs_deserialize_eq [OF that(2)] load_image [OF wf fs_reachable_parents [OF assms(1)] that(1)] by simp
  have res: "fs_resolve (root_attr_reset ns) (int c) (Some p) = fs_resolve ns (int c) (Some p)"
    if "used_node ns c" "nul_free p" for c p
  proof -
    have "used_node (root_attr_reset ns) c"
      using that(1) wf by (cases "c = 0") (simp_all add: used_node_def root_attr_reset_def)
    then show ?thesis
      using fs_resolve_eq [OF root_attr_reset_wf [OF wf] _ that(2)] fs_resolve_eq [OF wf that]
        root_attr_reset_resolve [OF wf that(1)] by simp
  qed
  show ?thesis
    using ser load res assms(2,3) len by (intro exI [of _ ?b]) (simp add: min_def)
qed

theorem fs_image_roundtrip_witness:
  "\<exists>buf'. fs_serialize sample_table (Some (replicate 530200 0)) 530192 = Some (530192, Some buf')
     \<and> fs_deserialize init_table (Some buf') 530192 = Some (0, root_attr_reset sample_table)"
proof -
  have "IMAGE_SIZE \<le> (530192 :: nat)" "530192 \<le> length (replicate 530200 (0 :: u8))"
    "IMAGE_SIZE \<le> length (replicate 530200 (0 :: u8))" by simp_all
  with fs_image_roundtrip [OF sample_table_reachable this(1,2)] show ?thesis by metis
qed

text \<open>C26. \<open>fs_deserialize\<close> is safe on any bytes: for a length that the buffer has, it always
  returns, 0 or -1, and never reads past the length. When it returns 0 all 128 nodes have terminated
  names and data and sizes below 4096 and the root is a directory; when it returns -1 the table is
  unchanged, or is the initial table if the stored root was not a directory.\<close>

theorem fs_deserialize_safe:
  assumes "len \<le> length inb"
  shows "\<exists>r ns'. fs_deserialize ns (Some inb) len = Some (r, ns') \<and>
    (r = 0 \<and> fs_mem ns' \<and> root_ok ns' \<or> r = -1 \<and> (ns' = ns \<or> fs_init = Some ns'))"
  using load_spec_cases [OF assms, of ns] fs_deserialize_eq [OF assms, of ns]
  by (cases "load_spec ns inb len") (auto simp: fs_init_eq)

theorem fs_deserialize_safe_witness:
  "\<exists>r ns'. fs_deserialize sample_table (Some (replicate 20 255)) 20 = Some (r, ns') \<and>
    (r = 0 \<and> fs_mem ns' \<and> root_ok ns' \<or> r = -1 \<and> (ns' = sample_table \<or> fs_init = Some ns'))"
  by (rule fs_deserialize_safe) simp

text \<open>C27. Path resolution in a table loaded from untrusted bytes is safe: if \<open>fs_deserialize\<close> returns
  0, resolving any path from the root never indexes outside the table, whatever parent indices the
  image contains, and the node it returns is connected to the root; resolution can go on from it.\<close>

theorem fs_resolve_after_load:
  assumes "len \<le> length inb" "fs_deserialize ns (Some inb) len = Some (0, ns')"
    and "anchored ns' c" "nul_free p"
  shows "\<exists>r. fs_resolve ns' (int c) (Some p) = Some r \<and>
    (r = -1 \<or> (\<exists>d < FS_MAX_NODES. r = int d \<and> anchored ns' d))"
proof -
  have "fs_mem ns'"
    using load_spec_cases [OF assms(1), of ns 0 ns'] fs_deserialize_eq [OF assms(1), of ns] assms(2) by simp
  then obtain r where r: "fs_resolve ns' (int c) (Some p) = Some (node_code r)"
    "\<And>d. r = Some d \<Longrightarrow> anchored ns' d"
    using anch.fs_resolve_in [OF _ assms(3,4)] by blast
  moreover have "d < FS_MAX_NODES" if "anchored ns' d" for d
    using anchored_cases [OF that] by (cases "d = 0") auto
  ultimately show ?thesis by (cases r) auto
qed

theorem fs_resolve_after_load_witness:
  "\<exists>buf ns'. fs_deserialize init_table (Some buf) 530192 = Some (0, ns')
    \<and> (\<exists>r. fs_resolve ns' 0 (Some ''../x/../..'') = Some r \<and>
         (r = -1 \<or> (\<exists>d < FS_MAX_NODES. r = int d \<and> anchored ns' d)))"
proof -
  have len: "530192 \<le> length (image sample_table)"
    using sample_table_wf by (simp add: image_length)
  then have "fs_deserialize init_table (Some (image sample_table)) 530192
      = Some (0, root_attr_reset sample_table)"
    using fs_deserialize_eq [OF len] load_image [OF sample_table_wf
        fs_reachable_parents [OF sample_table_reachable], of 530192 _ "[]"] by simp
  with fs_resolve_after_load [OF len this anchored.root, of "''../x/../..''"] show ?thesis by fastforce
qed

end
