(* ===== verification/FsContents.thy ===== *)
theory FsContents
  imports FsProps
begin

text \<open>
  What a table holds, as a list. \<^theory_text>\<open>lays\<close> says that the nodes in use are the first ones and are,
  in this order, the entries of a list: directories with their owner and mode, files with their text. Making a
  directory or writing a file that is not there appends an entry, and reading finds the text of the entry.
\<close>

subsection \<open>Entries\<close>

datatype entry = Dir nat string u16 u16 | File nat string string

fun e_parent :: "entry \<Rightarrow> nat" where
  "e_parent (Dir q s owner mode) = q"
| "e_parent (File q s t) = q"

fun e_name :: "entry \<Rightarrow> string" where
  "e_name (Dir q s owner mode) = s"
| "e_name (File q s t) = s"

fun e_node :: "entry \<Rightarrow> fs_node \<Rightarrow> bool" where
  "e_node (Dir q s owner mode) n \<longleftrightarrow> nd_is_dir n \<and> nd_owner n = owner \<and> nd_mode n = mode"
| "e_node (File q s t) n \<longleftrightarrow> \<not> nd_is_dir n \<and> nd_owner n = 0 \<and> nd_mode n = FS_DEFAULT_FILE_MODE
     \<and> nd_size n = length t \<and> take (length t) (nd_data n) = t"

definition is_entry :: "fs_node \<Rightarrow> entry \<Rightarrow> bool" where
  "is_entry n e \<longleftrightarrow> nd_used n \<and> nd_parent n = int (e_parent e) \<and> cstr (nd_name n) = e_name e \<and> e_node e n"

definition lays :: "fs \<Rightarrow> entry list \<Rightarrow> bool" where
  "lays ns es \<longleftrightarrow> fs_reachable ns \<and> es \<noteq> [] \<and> length es \<le> FS_MAX_NODES
     \<and> (\<forall>i < FS_MAX_NODES. if i < length es then is_entry (ns ! i) (es ! i) else \<not> nd_used (ns ! i))"

abbreviation e_key :: "entry \<Rightarrow> nat \<times> string" where "e_key e \<equiv> (e_parent e, e_name e)"

lemma laysD:
  assumes "lays ns es"
  shows "fs_reachable ns" "fs_wf ns" "0 < length es" "length es \<le> FS_MAX_NODES" "i < length es \<Longrightarrow> is_entry (ns ! i) (es ! i)"
    "i < FS_MAX_NODES \<Longrightarrow> length es \<le> i \<Longrightarrow> \<not> nd_used (ns ! i)" "i < FS_MAX_NODES \<Longrightarrow> nd_used (ns ! i) \<longleftrightarrow> i < length es"
  using assms by (auto simp: lays_def is_entry_def dest: fs_reachable_inv split: if_splits)

lemma lays_lookup:
  assumes "lays ns es"
  shows "lookup ns q s = Some i \<longleftrightarrow> i < length es \<and> e_key (es ! i) = (q, s)"
  using laysD(2,4) [OF assms] laysD(5,7) [OF assms, of i] by (auto simp: lookup_Some_iff used_node_def is_entry_def)

lemma lays_no_lookup:
  assumes "lays ns es"
  shows "lookup ns q s = None \<longleftrightarrow> (q, s) \<notin> e_key ` set es"
  using lays_lookup [OF assms, of q s] by (metis (no_types, lifting) image_iff in_set_conv_nth not_None_eq)

lemma lays_dir: "lays ns es \<Longrightarrow> i < length es \<Longrightarrow> es ! i = Dir q s owner mode \<Longrightarrow> dir_node ns i"
  using laysD(4) [of ns es] laysD(5) [of ns es i] by (auto simp: dir_node_def is_entry_def)

lemma lays_slot: "lays ns es \<Longrightarrow> length es < FS_MAX_NODES \<Longrightarrow> free_slot ns = Some (length es)"
  using laysD(3) [of ns es] laysD(7) [of ns es] by (auto intro!: free_slot_eqI)

lemma lays_append:
  assumes "lays ns es" "fs_reachable (ns[length es := n])" "length es < FS_MAX_NODES" "is_entry n e"
  shows "lays (ns[length es := n]) (es @ [e])"
proof -
  have l: "length ns = FS_MAX_NODES" using laysD(2) [OF assms(1)] by simp
  have "if i < length (es @ [e]) then is_entry (ns[length es := n] ! i) ((es @ [e]) ! i) else \<not> nd_used (ns[length es := n] ! i)"
    if "i < FS_MAX_NODES" for i
    using laysD(5,6) [OF assms(1), of i] that assms(3,4) l by (cases "i = length es") (auto simp: nth_append)
  then show ?thesis unfolding lays_def using assms(2,3) by (intro conjI, simp, simp, simp, blast)
qed

lemma lays_init: "lays init_table [Dir 0 ''/'' 0 FS_DEFAULT_DIR_MODE]"
  by (auto simp: lays_def fs_reachable.init [OF fs_init_eq] is_entry_def root_node_def cstr_def init_table_nth nth_Cons')

subsection \<open>The place of a path\<close>

lemma parent_leaf_plain: "valid_name s \<Longrightarrow> parent_leaf ns c s = Some (c, s)"
  by (simp add: parent_leaf_def valid_name_def)

lemma parent_leaf_below:
  assumes "valid_name d" "d \<noteq> ''.''" "d \<noteq> ''..''" "valid_name s" "lookup ns c d = Some q" "nd_is_dir (ns ! q)"
  shows "parent_leaf ns c (d @ CHR ''/'' # s) = Some (q, s)"
proof -
  have v: "CHR ''/'' \<notin> set s" "CHR ''/'' \<notin> set d" "d \<noteq> []" "s \<noteq> []" "length d < 128"
    using assms(1,4) by (simp_all add: valid_name_def)
  have "takeWhile (\<lambda>c. c \<noteq> CHR ''/'') (rev s @ CHR ''/'' # rev d) = rev s" "dropWhile (\<lambda>c. c \<noteq> CHR ''/'') (rev s @ CHR ''/'' # rev d) = CHR ''/'' # rev d"
    using v(1) by (simp_all add: takeWhile_append dropWhile_append)
  then have "leafpart (d @ CHR ''/'' # s) = s" "dirpart (d @ CHR ''/'' # s) = d" by (simp_all add: leafpart_def dirpart_def)
  moreover have "hd d \<noteq> CHR ''/''" using v(2) hd_in_set [OF v(3)] by auto
  then have "resolve_spec ns c d = Some q" using v(2,3) assms(2,3,5) by (simp add: resolve_spec_def walk_step_def)
  ultimately show ?thesis using v assms(4,6) by (simp add: parent_leaf_def)
qed

subsection \<open>The calls\<close>

lemma create_new:
  assumes "lays ns es" "dir_node ns c" "nul_free p" "parent_leaf ns c p = Some (q, s)" "(q, s) \<notin> e_key ` set es" "length es < FS_MAX_NODES"
  obtains n where "create_spec d ns c p owner mode = (0, ns[length es := n])" "fs_wf (ns[length es := n])"
    "nd_used n" "nd_parent n = int q" "cstr (nd_name n) = s" "nd_is_dir n = d" "nd_owner n = owner" "nd_mode n = mode AND MODE_MASK"
proof -
  note wf = laysD(2) [OF assms(1)]
  note pl = parent_leafD [OF wf assms(2-4)]
  let ?n = "new_node d (ns ! length es) q s owner mode"
  have c: "create_spec d ns c p owner mode = (0, ns[length es := ?n])"
    using assms(4,5) lays_slot [OF assms(1,6)] lays_no_lookup [OF assms(1), of q s] by (simp add: create_spec_def)
  show thesis using that [OF c create_spec_wf [OF wf assms(2,3) c]] pl by simp
qed

lemma lays_mkdir:
  assumes "lays ns es" "dir_node ns c" "nul_free p" "parent_leaf ns c p = Some (q, s)" "(q, s) \<notin> e_key ` set es" "length es < FS_MAX_NODES"
  shows "\<exists>ns'. fs_mkdir_as ns (int c) (Some p) owner mode = Some (0, ns') \<and> lays ns' (es @ [Dir q s owner (mode AND MODE_MASK)])"
proof -
  obtain n where "create_spec True ns c p owner mode = (0, ns[length es := n])" "fs_wf (ns[length es := n])"
    "is_entry n (Dir q s owner (mode AND MODE_MASK))"
    using create_new [OF assms, of True owner mode] by (auto simp: is_entry_def)
  moreover from this have m: "fs_mkdir_as ns (int c) (Some p) owner mode = Some (0, ns[length es := n])"
    using fs_mkdir_as_eq [OF laysD(2) [OF assms(1)] assms(2,3)] by simp
  moreover have "fs_reachable (ns[length es := n])"
    using fs_reachable.call [OF laysD(1) [OF assms(1)], of "Mkdir_as c p owner mode"] m assms(2,3) by simp
  ultimately show ?thesis using lays_append [OF assms(1)] assms(6) by blast
qed

lemma lays_write:
  assumes "lays ns es" "dir_node ns c" "nul_free p" "parent_leaf ns c p = Some (q, s)" "(q, s) \<notin> e_key ` set es" "length es < FS_MAX_NODES"
    "s \<noteq> ''.''" "s \<noteq> ''..''" "length t \<le> 4095" "take (length t) b = t"
  shows "\<exists>ns'. fs_write_file ns (int c) (Some p) (Some b) (length t) = Some (0, ns') \<and> lays ns' (es @ [File q s t])"
proof -
  note wf = laysD(2) [OF assms(1)]
  let ?i = "length es"
  have len: "length t \<le> length b" using assms(10) by (metis length_take min.cobounded1 min.commute)
  then have buf: "buffer_ok (Some b) (length t)" by (simp add: buffer_ok_def min.coboundedI1)
  have s: "walk_step m r s = lookup m r s" for m r
    using assms(7,8) parent_leafD(2) [OF wf assms(2-4)] by (auto simp: walk_step_def valid_name_def)
  have "lookup ns q s = None" using assms(5) by (simp add: lays_no_lookup [OF assms(1)])
  then have none: "resolve_spec ns c p = None"
    using parent_leaf_resolve [OF assms(4), of ns] assms(4) s by (auto simp: parent_leaf_def split: if_splits option.splits)
  obtain n where 1: "create_spec False ns c p 0 FS_DEFAULT_FILE_MODE = (0, ns[?i := n])" "fs_wf (ns[?i := n])"
    and n: "nd_used n" "nd_parent n = int q" "cstr (nd_name n) = s" "\<not> nd_is_dir n" "nd_owner n = 0" "nd_mode n = FS_DEFAULT_FILE_MODE AND MODE_MASK"
    using create_new [OF assms(1-6), of False 0 FS_DEFAULT_FILE_MODE] by metis
  let ?m = "ns[?i := n]" and ?n = "write_node n (Some b) (length t)"
  have at: "?m ! ?i = n" "used_node ?m ?i" using assms(6) n(1) wf by (simp_all add: used_node_def)
  have res: "resolve_spec ?m c p = Some ?i"
  proof -
    have "(if CHR ''/'' \<notin> set p then Some c else if dirpart p = [] then Some 0 else resolve_spec ns c (dirpart p)) = Some q"
      using assms(4) by (auto simp: parent_leaf_def split: if_splits option.splits)
    moreover have "resolve_spec ?m c x = Some r" if "resolve_spec ns c x = Some r" for x r
      using resolve_mono [OF wf 1(2) create_spec_shape [OF 1(1)] _ that] assms(2) by blast
    moreover have "lookup ?m q s = Some ?i" using at n by (simp add: lookup_Some_iff [OF 1(2)])
    ultimately show ?thesis using parent_leaf_resolve [OF assms(4), of ?m] s by (auto split: if_splits)
  qed
  have put: "write_put ?m ?i (Some b) (length t) = (0, ns[?i := ?n])" using at n(4) by (simp add: write_put_def)
  have "is_entry ?n (File q s t)"
    using n write_node_data [OF _ buf, of n] fs_wf_node_ok [OF 1(2) at(2)] at(1) assms(9,10) by (simp add: is_entry_def)
  moreover have "write_spec ns c p (Some b) (length t) = (0, ns[?i := ?n])"
    using none 1(1) res put by (simp add: write_spec_def)
  then have w: "fs_write_file ns (int c) (Some p) (Some b) (length t) = Some (0, ns[?i := ?n])"
    using fs_write_file_eq [OF wf assms(2,3) buf] by simp
  moreover have "fs_reachable (ns[?i := ?n])"
    using fs_reachable.call [OF laysD(1) [OF assms(1)], of "Write_file c p (Some b) (length t)"] w assms(2,3) buf by simp
  ultimately show ?thesis using lays_append [OF assms(1) _ assms(6)] by blast
qed

lemma lays_touch:
  assumes "lays ns es" "dir_node ns c" "nul_free p" "parent_leaf ns c p = Some (q, s)" "(q, s) \<notin> e_key ` set es" "length es < FS_MAX_NODES"
  shows "\<exists>ns'. fs_touch ns (int c) (Some p) = Some (0, ns') \<and> lays ns' (es @ [File q s []])"
proof -
  note wf = laysD(2) [OF assms(1)]
  have "lookup ns q s = None" using assms(5) by (simp add: lays_no_lookup [OF assms(1)])
  let ?n = "new_node False (ns ! length es) q s 0 FS_DEFAULT_FILE_MODE"
  have "create_spec False ns c p 0 FS_DEFAULT_FILE_MODE = (0, ns[length es := ?n])"
    using assms(4) \<open>lookup ns q s = None\<close> lays_slot [OF assms(1,6)] by (simp add: create_spec_def)
  then have t: "fs_touch ns (int c) (Some p) = Some (0, ns[length es := ?n])"
    by (simp add: fs_touch_def fs_touch_as_eq [OF wf assms(2,3)])
  have "fs_reachable (ns[length es := ?n])"
    using fs_reachable.call [OF laysD(1) [OF assms(1)], of "Touch_as c p 0 FS_DEFAULT_FILE_MODE"] t assms(2,3) by (simp add: fs_touch_def)
  moreover have "is_entry ?n (File q s [])" using parent_leafD [OF wf assms(2-4)] by (simp add: is_entry_def)
  ultimately show ?thesis using t lays_append [OF assms(1)] assms(6) by blast
qed

text \<open>Files that are there: finding, reading and writing again.\<close>

lemma lays_resolve:
  assumes "lays ns es" "i < length es" "e_key (es ! i) = (q, s)" "s \<noteq> ''.''" "s \<noteq> ''..''" "parent_leaf ns c p = Some (q, s)"
  shows "resolve_spec ns c p = Some i"
proof -
  have "lookup ns q s = Some i" using assms(2,3) by (simp add: lays_lookup [OF assms(1)])
  moreover have "s \<noteq> []" using assms(6) by (auto simp: parent_leaf_def valid_name_def split: if_splits option.splits)
  moreover have "(if CHR ''/'' \<notin> set p then Some c else if dirpart p = [] then Some 0 else resolve_spec ns c (dirpart p)) = Some q"
    using assms(6) by (auto simp: parent_leaf_def split: if_splits option.splits)
  ultimately show ?thesis using parent_leaf_resolve [OF assms(6), of ns] assms(4,5) by (simp add: walk_step_def)
qed

lemma lays_read:
  assumes "lays ns es" "i < length es" "es ! i = File q s t" "s \<noteq> ''.''" "s \<noteq> ''..''"
    "nul_free p" "used_node ns c" "parent_leaf ns c p = Some (q, s)"
  shows "\<exists>d. fs_read_file ns (int c) (Some p) = Some (Some (d, length t)) \<and> take (length t) d = t \<and> length d = 4096 \<and> d ! length t = NUL"
proof -
  have e: "is_entry (ns ! i) (File q s t)" using laysD(5) [OF assms(1,2)] assms(3) by simp
  have "used_node ns i" using laysD(4,7) [OF assms(1)] assms(2) by (simp add: used_node_def)
  from fs_wf_node_ok [OF laysD(2) [OF assms(1)] this] have n: "node_ok (ns ! i)" .
  have "resolve_spec ns c p = Some i" by (rule lays_resolve [OF assms(1,2) _ assms(4,5,8)]) (simp add: assms(3))
  with e n show ?thesis
    using fs_read_file_eq [OF laysD(2) [OF assms(1)] assms(7,6)] by (auto simp: is_entry_def node_ok_def)
qed

lemma lays_rewrite:
  assumes "lays ns es" "i < length es" "es ! i = File q s x" "s \<noteq> ''.''" "s \<noteq> ''..''"
    "nul_free p" "dir_node ns c" "parent_leaf ns c p = Some (q, s)" "length t \<le> 4095" "take (length t) b = t"
  shows "\<exists>ns'. fs_write_file ns (int c) (Some p) (Some b) (length t) = Some (0, ns') \<and> lays ns' (es[i := File q s t])"
proof -
  note wf = laysD(2) [OF assms(1)]
  have e: "is_entry (ns ! i) (File q s x)" using laysD(5) [OF assms(1,2)] assms(3) by simp
  have l: "i < FS_MAX_NODES" "length ns = FS_MAX_NODES" using laysD(4) [OF assms(1)] assms(2) wf by simp_all
  have u: "used_node ns i" using laysD(7) [OF assms(1) l(1)] l(1) assms(2) by (simp add: used_node_def)
  have "length t \<le> length b" using assms(10) by (metis length_take min.cobounded1 min.commute)
  then have buf: "buffer_ok (Some b) (length t)" by (simp add: buffer_ok_def min.coboundedI1)
  let ?n = "write_node (ns ! i) (Some b) (length t)"
  have "resolve_spec ns c p = Some i" by (rule lays_resolve [OF assms(1,2) _ assms(4,5,8)]) (simp add: assms(3))
  then have w: "fs_write_file ns (int c) (Some p) (Some b) (length t) = Some (0, ns[i := ?n])"
    using fs_write_file_eq [OF wf assms(7,6) buf] e by (simp add: write_spec_def write_put_def is_entry_def)
  have r: "fs_reachable (ns[i := ?n])"
    using fs_reachable.call [OF laysD(1) [OF assms(1)], of "Write_file c p (Some b) (length t)"] w assms(6,7) buf by simp
  have new: "is_entry ?n (File q s t)"
    using e write_node_data [OF fs_wf_node_ok [OF wf u] buf] assms(9,10) by (simp add: is_entry_def)
  have "if k < length es then is_entry (ns[i := ?n] ! k) (es[i := File q s t] ! k) else \<not> nd_used (ns[i := ?n] ! k)"
    if "k < FS_MAX_NODES" for k
    using laysD(5,6) [OF assms(1), of k] that new l assms(2) by (cases "k = i") auto
  then have "lays (ns[i := ?n]) (es[i := File q s t])"
    unfolding lays_def using laysD(3,4) [OF assms(1)] r by (intro conjI, simp, simp, simp, simp)
  with w show ?thesis by blast
qed

end
