(* ===== verification/Ui.thy ===== *)
theory Ui
  imports ShellMain
begin

text \<open>
  What kernel/installer.c and kernel/desktop.c have in common: the state they work on, drawing, waiting for
  a key, and the string helpers. What a key starts either waits for another key, halts the machine or is done;
  \<^theory_text>\<open>andthen\<close> goes on with what is done.
\<close>

subsection \<open>State and results\<close>

text \<open>
  \<open>u_junk\<close> is what uninitialised memory of the stack holds, which the code reads in some places: it may be
  different after each key, and each array has its own place.
\<close>

record 'h ui =
  u_disk :: "'h disk"
  u_vga :: vga
  u_kbd :: keyboard
  u_polls :: "(u8 \<times> u8) list"
  u_junk :: "nat \<Rightarrow> nat \<Rightarrow> char"

datatype ('s, 'a) outcome = Waits 's | Halts 's | Done 'a 's

definition andthen :: "('s, 'a) outcome option \<Rightarrow> ('a \<Rightarrow> 's \<Rightarrow> ('s, 'b) outcome option) \<Rightarrow> ('s, 'b) outcome option" where
  "andthen m f = (case m of None \<Rightarrow> None | Some (Waits t) \<Rightarrow> Some (Waits t) | Some (Halts t) \<Rightarrow> Some (Halts t)
     | Some (Done a t) \<Rightarrow> f a t)"

lemma andthen_simps [simp]:
  "andthen None f = None" "andthen (Some (Waits t)) f = Some (Waits t)" "andthen (Some (Halts t)) f = Some (Halts t)"
  "andthen (Some (Done a t)) f = f a t"
  by (simp_all add: andthen_def)

lemma andthen_cong [fundef_cong]:
  "m = m' \<Longrightarrow> (\<And>a t. m' = Some (Done a t) \<Longrightarrow> f a t = g a t) \<Longrightarrow> andthen m f = andthen m' g"
  by (auto simp: andthen_def split: option.split outcome.split)

lemma andthen_mono [partial_function_mono]:
  assumes "mono_option B" "\<And>a t. mono_option (\<lambda>f. C a t f)"
  shows "mono_option (\<lambda>f. andthen (B f) (\<lambda>a t. C a t f))"
proof (rule monotoneI)
  fix f g :: "'a \<Rightarrow> 'b option"
  assume fg: "fun_ord option_ord f g"
  from assms have B: "B f = None \<or> B f = B g" and C: "\<And>a t. C a t f = None \<or> C a t f = C a t g"
    using fg monotoneD [OF assms(1)] monotoneD [OF assms(2)] by (auto simp: flat_ord_def)
  show "option_ord (andthen (B f) (\<lambda>a t. C a t f)) (andthen (B g) (\<lambda>a t. C a t g))"
  proof (cases "B f")
    case (Some x)
    with B have "B g = Some x" by simp
    with Some C show ?thesis by (cases x) (auto simp: flat_ord_def)
  qed (simp add: flat_ord_def)
qed

definition next_key :: "('h, 'z) ui_scheme \<Rightarrow> (int \<times> ('h, 'z) ui_scheme) option" where
  "next_key s = (case keyboard_get_key (u_kbd s) (u_polls s) of None \<Rightarrow> None
     | Some (key, k, rest) \<Rightarrow> Some (key, s\<lparr>u_kbd := k, u_polls := rest\<rparr>))"

lemma next_key_shorter: "next_key s = Some (key, t) \<Longrightarrow> length (u_polls t) < length (u_polls s)"
  by (auto simp: next_key_def split: option.splits dest: keyboard_get_key_shorter)

text \<open>Wait for any key.\<close>

definition any_key :: "('h, 'z) ui_scheme \<Rightarrow> (('h, 'z) ui_scheme, int) outcome option" where
  "any_key s = (case next_key s of None \<Rightarrow> Some (Waits s) | Some (k, t) \<Rightarrow> Some (Done k t))"

definition uninit :: "('h, 'z) ui_scheme \<Rightarrow> nat \<Rightarrow> nat \<Rightarrow> char list" where
  "uninit s place n = map (\<lambda>i. u_junk s (length (u_polls s)) (place + i)) [0..<n]"

definition ui_fs :: "(fs \<Rightarrow> (int \<times> fs) option) \<Rightarrow> ('h, 'z) ui_scheme \<Rightarrow> (int \<times> ('h, 'z) ui_scheme) option" where
  "ui_fs f s = do { (r, ns) \<leftarrow> f (d_nodes (u_disk s)); Some (r, s\<lparr>u_disk := (u_disk s)\<lparr>d_nodes := ns\<rparr>\<rparr>) }"

definition ui_dsk :: "('h disk \<Rightarrow> (int \<times> 'h disk) option) \<Rightarrow> ('h, 'z) ui_scheme \<Rightarrow> (int \<times> ('h, 'z) ui_scheme) option" where
  "ui_dsk f s = do { (r, d) \<leftarrow> f (u_disk s); Some (r, s\<lparr>u_disk := d\<rparr>) }"

abbreviation ui_nodes :: "('h, 'z) ui_scheme \<Rightarrow> fs" where "ui_nodes s \<equiv> d_nodes (u_disk s)"

definition ui_mkdir :: "int \<Rightarrow> string \<Rightarrow> u16 \<Rightarrow> u16 \<Rightarrow> ('h, 'z) ui_scheme \<Rightarrow> ('h, 'z) ui_scheme option" where
  "ui_mkdir node p owner mode s = do { (_, s) \<leftarrow> ui_fs (\<lambda>ns. fs_mkdir_as ns node (Some p) owner mode) s; Some s }"

text \<open>\<open>fs_write_file\<close> of a string, and of the first \<open>n\<close> bytes of a buffer.\<close>

definition ui_write :: "int \<Rightarrow> string \<Rightarrow> char list \<Rightarrow> nat \<Rightarrow> ('h, 'z) ui_scheme \<Rightarrow> ('h, 'z) ui_scheme option" where
  "ui_write node p buf n s = do { (_, s) \<leftarrow> ui_fs (\<lambda>ns. fs_write_file ns node (Some p) (Some buf) n) s; Some s }"

definition ui_write_string :: "int \<Rightarrow> string \<Rightarrow> string \<Rightarrow> ('h, 'z) ui_scheme \<Rightarrow> ('h, 'z) ui_scheme option" where
  "ui_write_string node p text s = do { n \<leftarrow> kstrlen (Some (c_str text)); ui_write node p (c_str text) n s }"

subsection \<open>Drawing\<close>

text \<open>A drawing function is the list of calls it makes.\<close>

abbreviation Str :: "int \<Rightarrow> int \<Rightarrow> string \<Rightarrow> u8 \<Rightarrow> u8 \<Rightarrow> vga_call" where
  "Str x y t fg bg \<equiv> Write_str_at x y (Some t) fg bg"

abbreviation (input) BLANK :: u8 where "BLANK \<equiv> 0x20"

definition paint :: "vga_call list \<Rightarrow> ('h, 'z) ui_scheme \<Rightarrow> ('h, 'z) ui_scheme option" where
  "paint calls s = do { (_, v) \<leftarrow> run vga_exec calls (u_vga s); Some (s\<lparr>u_vga := v\<rparr>) }"

subsection \<open>Strings\<close>

text \<open>\<open>slen\<close> of a C string, and the copying loops \<open>while (src[j] && p < lim) { buf[p++] = src[j++]; }\<close>.\<close>

definition slen :: "string \<Rightarrow> int" where
  "slen s = int (length s)"

fun append_str :: "char list \<Rightarrow> nat \<Rightarrow> nat \<Rightarrow> string \<Rightarrow> (char list \<times> nat) option" where
  "append_str buf p lim [] = Some (buf, p)"
| "append_str buf p lim (c # cs) =
     (if p < lim then do { buf \<leftarrow> wr buf p c; append_str buf (p + 1) lim cs } else Some (buf, p))"

text \<open>Assignments to consecutive cells, \<open>buf[p++] = c\<close>.\<close>

fun put_chars :: "char list \<Rightarrow> nat \<Rightarrow> string \<Rightarrow> (char list \<times> nat) option" where
  "put_chars buf p [] = Some (buf, p)"
| "put_chars buf p (c # cs) = do { buf \<leftarrow> wr buf p c; put_chars buf (p + 1) cs }"

end
