(* ===== verification/Installer.thy ===== *)
theory Installer
  imports Ui Codec
begin

text \<open>
  kernel/installer.c: the text helpers, the drawing, the menu, the input field and the stages in which the
  wizard asks. Colours are the numbers of vga.h: 15/5 is the header, 7/0 the content, 15/8 the boxes, 15/13 the
  selection, 12 warnings, 10 success, 11 accents.
\<close>

abbreviation (input) SCR_W :: int where "SCR_W \<equiv> 80"
abbreviation (input) HDR_ROW :: int where "HDR_ROW \<equiv> 0"
abbreviation (input) CONT_TOP :: int where "CONT_TOP \<equiv> 2"
abbreviation (input) CONT_BOT :: int where "CONT_BOT \<equiv> 20"
abbreviation (input) SEP_ROW :: int where "SEP_ROW \<equiv> 21"
abbreviation (input) HINT_ROW :: int where "HINT_ROW \<equiv> 22"
abbreviation (input) STAT_ROW :: int where "STAT_ROW \<equiv> 24"

record wiz =
  w_disk_index :: int
  w_hostname :: "char list"
  w_timezone :: "char list"
  w_root_pw :: "char list"
  w_username :: "char list"
  w_user_pw :: "char list"

subsection \<open>Utility\<close>

definition is_print :: "char \<Rightarrow> bool" where
  "is_print c \<longleftrightarrow> 32 \<le> code c \<and> code c < 127"

fun rev_copy :: "char list \<Rightarrow> nat \<Rightarrow> char list \<Rightarrow> nat \<Rightarrow> (char list \<times> nat) option" where
  "rev_copy tmp 0 buf p = Some (buf, p)"
| "rev_copy tmp (Suc ti) buf p =
     (if int p < int (length buf) - 1 then do { c \<leftarrow> rd tmp ti; buf \<leftarrow> wr buf p c; rev_copy tmp ti buf (p + 1) }
      else Some (buf, p))"

text \<open>The size that every caller passes is that of the buffer. The digits are those of \<open>shell_print_uint\<close>.\<close>

definition u32_to_str :: "u32 \<Rightarrow> char list \<Rightarrow> char list option" where
  "u32_to_str v buf = do {
     (buf, p) \<leftarrow> (if v = 0 then do { buf \<leftarrow> wr buf 0 (CHR ''0''); Some (buf, 1) } else Some (buf, 0));
     (tmp, ti) \<leftarrow> uint_digits v (replicate 12 NUL) 0;
     (buf, p) \<leftarrow> rev_copy tmp ti buf p;
     wr buf p NUL }"

definition hex_digit :: "u32 \<Rightarrow> char" where
  "hex_digit d = ''0123456789ABCDEF'' ! unat (d AND 0xF)"

definition hex16_to_str :: "u16 \<Rightarrow> char list \<Rightarrow> char list option" where
  "hex16_to_str v buf = do {
     (buf, _) \<leftarrow> put_chars buf 0 [CHR ''0'', CHR ''x'', hex_digit (ucast (drop_bit 12 v)), hex_digit (ucast (drop_bit 8 v)),
       hex_digit (ucast (drop_bit 4 v)), hex_digit (ucast v), NUL];
     Some buf }"

definition hex32_to_str :: "u32 \<Rightarrow> char list \<Rightarrow> char list option" where
  "hex32_to_str v buf = do {
     (buf, _) \<leftarrow> put_chars buf 0 (''0x'' @ map (\<lambda>i. hex_digit (drop_bit (28 - i * 4) v)) [0..<8] @ [NUL]);
     Some buf }"

definition str_cat :: "char list \<Rightarrow> string \<Rightarrow> char list option" where
  "str_cat dst src = do {
     d \<leftarrow> c_string dst;
     (dst, p) \<leftarrow> append_str dst (length d) (length dst - 1) src;
     wr dst p NUL }"

text \<open>A number in a buffer of its own, as it is then used.\<close>

definition u32_string :: "u32 \<Rightarrow> nat \<Rightarrow> string option" where
  "u32_string v n = do { b \<leftarrow> u32_to_str v (replicate n NUL); c_string b }"

subsection \<open>Drawing\<close>

abbreviation (input) CH_TL :: u8 where "CH_TL \<equiv> 0xDA"
abbreviation (input) CH_TR :: u8 where "CH_TR \<equiv> 0xBF"
abbreviation (input) CH_BL :: u8 where "CH_BL \<equiv> 0xC0"
abbreviation (input) CH_BR :: u8 where "CH_BR \<equiv> 0xD9"
abbreviation (input) CH_H :: u8 where "CH_H \<equiv> 0xC4"
abbreviation (input) CH_V :: u8 where "CH_V \<equiv> 0xB3"
abbreviation (input) CH_BLK :: u8 where "CH_BLK \<equiv> 0xDB"
abbreviation (input) CH_SHD :: u8 where "CH_SHD \<equiv> 0xB2"

definition draw_header :: "int \<Rightarrow> int \<Rightarrow> string \<Rightarrow> vga_call list option" where
  "draw_header step steps nm = do {
     right \<leftarrow> wr (replicate 48 NUL) 0 NUL;
     right \<leftarrow> str_cat right ''Step '';
     n \<leftarrow> u32_string (word_of_int step) 4;
     right \<leftarrow> str_cat right n;
     right \<leftarrow> str_cat right ''/'';
     n \<leftarrow> u32_string (word_of_int steps) 4;
     right \<leftarrow> str_cat right n;
     right \<leftarrow> str_cat right '': '';
     right \<leftarrow> str_cat right nm;
     t \<leftarrow> c_string right;
     let i = SCR_W - slen t - 2;
     let i = (if i < 25 then 25 else i);
     Some [Fill_rect 0 HDR_ROW SCR_W 1 BLANK 15 5,
       Fill_rect 0 (HDR_ROW + 1) SCR_W 1 BLANK 15 8,
       Str 2 HDR_ROW '' FurOS 1.0 Installer '' 15 5,
       Str i HDR_ROW t 15 5] }"

definition clear_content :: "vga_call list" where
  "clear_content = [Fill_rect 0 CONT_TOP SCR_W (CONT_BOT - CONT_TOP + 1) BLANK 7 0]"

definition draw_bottom :: "string ptr \<Rightarrow> vga_call list" where
  "draw_bottom hint =
     [Fill_rect 0 SEP_ROW SCR_W 1 CH_H 15 8, Fill_rect 0 HINT_ROW SCR_W 1 BLANK 15 8, Fill_rect 0 STAT_ROW SCR_W 1 BLANK 15 8]
     @ (case hint of None \<Rightarrow> [] | Some h \<Rightarrow> [Str 2 HINT_ROW h 15 8])
     @ [Str 2 STAT_ROW (''FurOS Installer 1.0  '' @ CHR 0xB3 # ''  Based on Debian GNU/Linux 12 Bookworm'') 15 8]"

definition box_top :: "int \<Rightarrow> int \<Rightarrow> int \<Rightarrow> vga_call list" where
  "box_top x y w = Put_at x y CH_TL 15 8 # map (\<lambda>i. Put_at (x + i) y CH_H 15 8) [1..w - 2] @ [Put_at (x + w - 1) y CH_TR 15 8]"

definition box_row :: "int \<Rightarrow> int \<Rightarrow> int \<Rightarrow> string ptr \<Rightarrow> u8 \<Rightarrow> u8 \<Rightarrow> vga_call list" where
  "box_row x y w txt fg bg = (let inner = w - 2 in
     [Put_at x y CH_V 15 8, Fill_rect (x + 1) y inner 1 BLANK fg bg]
     @ (case txt of None \<Rightarrow> []
        | Some t \<Rightarrow> (let tlen = (if slen t > inner then inner else slen t)
            in map (\<lambda>i. Put_at (x + 1 + i) y (byte_of_char (t ! nat i)) fg bg) [0..tlen - 1]))
     @ [Put_at (x + w - 1) y CH_V 15 8])"

definition box_bot :: "int \<Rightarrow> int \<Rightarrow> int \<Rightarrow> vga_call list" where
  "box_bot x y w = Put_at x y CH_BL 15 8 # map (\<lambda>i. Put_at (x + i) y CH_H 15 8) [1..w - 2] @ [Put_at (x + w - 1) y CH_BR 15 8]"

definition draw_progress :: "int \<Rightarrow> int \<Rightarrow> vga_call list option" where
  "draw_progress y pct = do {
     let bar_w = SCR_W - 18;
     let filled = (pct * bar_w) div 100;
     pstr \<leftarrow> u32_to_str (word_of_int pct) (replicate 8 NUL);
     pstr \<leftarrow> str_cat pstr ''%'';
     t \<leftarrow> c_string pstr;
     Some (Str 2 y ''Progress ['' 7 0
       # map (\<lambda>i. if i < filled then Put_at (12 + i) y CH_BLK 10 0 else Put_at (12 + i) y CH_SHD 15 0) [0..bar_w - 1]
       @ [Put_at (12 + bar_w) y (byte_of_char (CHR '']'')) 7 0, Str (13 + bar_w + 1) y t 10 0]) }"

subsection \<open>The menu\<close>

text \<open>One line of the menu in the buffer \<open>buf\<close> of \<open>SCR_W + 1\<close> characters.\<close>

definition menu_line :: "int \<Rightarrow> bool \<Rightarrow> string \<Rightarrow> string option" where
  "menu_line w selected item = do {
     (buf, p) \<leftarrow> put_chars (replicate 81 NUL) 0 (if selected then [CHR '' '', CHR 0x10, CHR '' ''] else ''   '');
     (buf, p) \<leftarrow> append_str buf p (nat (w - 2)) item;
     buf \<leftarrow> wr buf p NUL;
     c_string buf }"

fun menu_rows :: "int \<Rightarrow> int \<Rightarrow> int \<Rightarrow> int \<Rightarrow> int \<Rightarrow> string list \<Rightarrow> vga_call list option" where
  "menu_rows x y_top w sel i [] = Some []"
| "menu_rows x y_top w sel i (item # items) = do {
     t \<leftarrow> menu_line w (i = sel) item;
     rest \<leftarrow> menu_rows x y_top w sel (i + 1) items;
     Some ((if i = sel then box_row x (y_top + 1 + i) w (Some t) 15 13 else box_row x (y_top + 1 + i) w (Some t) 15 8) @ rest) }"

definition menu_calls :: "int \<Rightarrow> int \<Rightarrow> int \<Rightarrow> string list \<Rightarrow> int \<Rightarrow> vga_call list option" where
  "menu_calls x y_top w items sel = do {
     rows \<leftarrow> menu_rows x y_top w sel 0 items;
     Some (box_top x y_top w @ rows @ box_bot x (y_top + int (length items) + 1) w @ [Set_cursor_pos (x + 3) (y_top + 1 + sel)]) }"

function menu_loop ::
  "int \<Rightarrow> int \<Rightarrow> int \<Rightarrow> string list \<Rightarrow> int \<Rightarrow> ('h, 'z) ui_scheme \<Rightarrow> (('h, 'z) ui_scheme, int) outcome option" where
  "menu_loop x y_top w items sel s = do {
     calls \<leftarrow> menu_calls x y_top w items sel;
     s \<leftarrow> paint calls s;
     case next_key s of
       None \<Rightarrow> Some (Waits s)
     | Some (key, s) \<Rightarrow>
         if key = KEY_UP \<and> sel > 0 then menu_loop x y_top w items (sel - 1) s
         else if key = KEY_DOWN \<and> sel < int (length items) - 1 then menu_loop x y_top w items (sel + 1) s
         else if key = 10 \<or> key = 13 then Some (Done sel s)
         else if key = 27 \<or> key = 113 \<or> key = 81 then Some (Done (-1) s)
         else menu_loop x y_top w items sel s }"
  by pat_completeness auto

lemma paint_frame: "paint calls s = Some t \<Longrightarrow> \<exists>v. t = s\<lparr>u_vga := v\<rparr>"
  by (auto simp: paint_def bind_eq_Some_conv)

lemma paint_polls: "paint calls s = Some t \<Longrightarrow> u_polls t = u_polls s"
  by (auto dest: paint_frame)

termination menu_loop
  by (relation "measure (\<lambda>(x, y, w, items, sel, s). length (u_polls s))")
    (auto dest!: next_key_shorter paint_polls)

declare menu_loop.simps [simp del]

definition run_menu ::
  "int \<Rightarrow> int \<Rightarrow> int \<Rightarrow> string list \<Rightarrow> int \<Rightarrow> ('h, 'z) ui_scheme \<Rightarrow> (('h, 'z) ui_scheme, int) outcome option" where
  "run_menu x y_top w items init_sel s = (
     let sel = (if init_sel < 0 then 0 else init_sel);
         sel = (if sel \<ge> int (length items) then int (length items) - 1 else sel)
     in menu_loop x y_top w items sel s)"

subsection \<open>The input field\<close>

text \<open>The value is the return value and the buffer; its size is the parameter \<open>max_len\<close> of every caller.\<close>

definition field_calls :: "int \<Rightarrow> int \<Rightarrow> int \<Rightarrow> char list \<Rightarrow> nat \<Rightarrow> bool \<Rightarrow> vga_call list option" where
  "field_calls x y w buf len masked = do {
     let inner = w - 2;
     t \<leftarrow> slice buf 0 (min (nat inner) len);
     Some (box_top x (y - 1) w @ [Put_at x y CH_V 15 8, Fill_rect (x + 1) y inner 1 BLANK 15 8]
       @ concat (map (\<lambda>i. if i < int len
             then [Put_at (x + 1 + i) y (byte_of_char (if masked then CHR ''*'' else t ! nat i)) 15 8]
             else if i = int len then [Put_at (x + 1 + i) y (byte_of_char (CHR ''_'')) 15 8] else []) [0..inner - 1])
       @ [Put_at (x + w - 1) y CH_V 15 8] @ box_bot x (y + 1) w @ [Set_cursor_pos (x + 1 + int len) y]) }"

function input_loop ::
  "int \<Rightarrow> int \<Rightarrow> int \<Rightarrow> bool \<Rightarrow> char list \<Rightarrow> nat \<Rightarrow> ('h, 'z) ui_scheme
   \<Rightarrow> (('h, 'z) ui_scheme, int \<times> char list) outcome option" where
  "input_loop x y w masked buf len s = do {
     calls \<leftarrow> field_calls x y w buf len masked;
     s \<leftarrow> paint calls s;
     case next_key s of
       None \<Rightarrow> Some (Waits s)
     | Some (key, s) \<Rightarrow>
         let c = char_of (nat (key mod 256)) in
         if key = 10 \<or> key = 13 then do { buf \<leftarrow> wr buf len NUL; Some (Done (0, buf) s) }
         else if key = 27 then Some (Done (-1, buf) s)
         else if key = 8 \<and> len > 0 then do { buf \<leftarrow> wr buf (len - 1) NUL; input_loop x y w masked buf (len - 1) s }
         else if is_print c \<and> int len < int (length buf) - 1 then do {
           buf \<leftarrow> wr buf len c;
           buf \<leftarrow> wr buf (len + 1) NUL;
           input_loop x y w masked buf (len + 1) s }
         else input_loop x y w masked buf len s }"
  by pat_completeness auto

termination
  by (relation "measure (\<lambda>(x, y, w, masked, buf, len, s). length (u_polls s))")
    (auto dest!: next_key_shorter paint_polls)

declare input_loop.simps [simp del]

definition run_input ::
  "int \<Rightarrow> int \<Rightarrow> int \<Rightarrow> char list \<Rightarrow> bool \<Rightarrow> ('h, 'z) ui_scheme \<Rightarrow> (('h, 'z) ui_scheme, int \<times> char list) outcome option" where
  "run_input x y w buf masked s = do { t \<leftarrow> c_string buf; input_loop x y w masked buf (length t) s }"

end
