(* ===== verification/UiSafe.thy ===== *)
theory UiSafe
  imports Installer ShellCmdSafe
begin

text \<open>
  What makes the screens of kernel/installer.c and kernel/desktop.c safe. \<^theory_text>\<open>goes\<close> is the
  judgement that code is defined, keeps the invariant wherever it waits or halts, and ends with \<open>P\<close> where it
  is done; \<^theory_text>\<open>gives\<close> is that of code without a state. \<^theory_text>\<open>ui_machine\<close> is the
  interface: an invariant that the drivers, the file system and the keyboard can change the state under.
\<close>

subsection \<open>The judgements\<close>

definition moves :: "(('h, 'z) ui_scheme \<Rightarrow> bool) \<Rightarrow> ('h, 'z) ui_scheme \<Rightarrow> ('h, 'z) ui_scheme \<Rightarrow> bool" where
  "moves ok s t \<longleftrightarrow> ok t \<and> length (u_polls t) \<le> length (u_polls s)"

definition goes ::
  "(('h, 'z) ui_scheme \<Rightarrow> bool) \<Rightarrow> ('a \<Rightarrow> ('h, 'z) ui_scheme \<Rightarrow> bool) \<Rightarrow> (('h, 'z) ui_scheme, 'a) outcome option
   \<Rightarrow> ('h, 'z) ui_scheme \<Rightarrow> bool" where
  "goes ok P r s \<longleftrightarrow> (case r of None \<Rightarrow> False | Some (Waits t) \<Rightarrow> ok t | Some (Halts t) \<Rightarrow> ok t
     | Some (Done a t) \<Rightarrow> moves ok s t \<and> P a t)"

text \<open>Code that only changes the state.\<close>

definition steps :: "(('h, 'z) ui_scheme \<Rightarrow> bool) \<Rightarrow> ('h, 'z) ui_scheme option \<Rightarrow> ('h, 'z) ui_scheme \<Rightarrow> bool" where
  "steps ok r s \<longleftrightarrow> (\<exists>t. r = Some t \<and> moves ok s t)"

definition gives :: "('a \<Rightarrow> bool) \<Rightarrow> 'a option \<Rightarrow> bool" where
  "gives P q \<longleftrightarrow> (\<exists>x. q = Some x \<and> P x)"

lemma moves_refl [simp]: "moves ok s s \<longleftrightarrow> ok s"
  by (simp add: moves_def)

lemma moves_trans: "moves ok s t \<Longrightarrow> moves ok t u \<Longrightarrow> moves ok s u"
  by (simp add: moves_def)

lemma moves_ok: "moves ok s t \<Longrightarrow> ok t"
  by (simp add: moves_def)

lemma goes_simps [simp]:
  "\<not> goes ok P None s" "goes ok P (Some (Waits t)) s \<longleftrightarrow> ok t" "goes ok P (Some (Halts t)) s \<longleftrightarrow> ok t"
  "goes ok P (Some (Done a t)) s \<longleftrightarrow> moves ok s t \<and> P a t"
  by (simp_all add: goes_def)

lemma steps_Some [simp]: "steps ok (Some t) s \<longleftrightarrow> moves ok s t"
  by (simp add: steps_def)

lemma gives_simps [simp]: "\<not> gives P None" "gives P (Some x) \<longleftrightarrow> P x"
  by (simp_all add: gives_def)

lemma goes_weaken:
  "goes ok P r t \<Longrightarrow> moves ok s t \<Longrightarrow> (\<And>a u. moves ok t u \<Longrightarrow> P a u \<Longrightarrow> Q a u) \<Longrightarrow> goes ok Q r s"
  by (auto simp: goes_def split: option.splits outcome.splits intro: moves_trans)

lemma goes_from: "goes ok P r t \<Longrightarrow> moves ok s t \<Longrightarrow> goes ok P r s"
  by (rule goes_weaken)

lemma goes_andthen:
  "goes ok P m s \<Longrightarrow> (\<And>a t. moves ok s t \<Longrightarrow> P a t \<Longrightarrow> goes ok Q (f a t) t) \<Longrightarrow> goes ok Q (andthen m f) s"
  by (auto simp: goes_def [of ok P] split: option.splits outcome.splits intro: goes_from)

lemma goes_andthen_pair:
  "goes ok P m s \<Longrightarrow> (\<And>x y t. moves ok s t \<Longrightarrow> P (x, y) t \<Longrightarrow> goes ok Q (f x y t) t) \<Longrightarrow> goes ok Q (andthen m (\<lambda>(x, y). f x y)) s"
  by (erule goes_andthen) auto

lemma goes_steps:
  "steps ok r s \<Longrightarrow> (\<And>t. moves ok s t \<Longrightarrow> goes ok Q (f t) t) \<Longrightarrow> goes ok Q (r \<bind> f) s"
  using goes_from by (fastforce simp: steps_def)

lemma goes_gives: "gives P q \<Longrightarrow> (\<And>x. P x \<Longrightarrow> goes ok Q (f x) s) \<Longrightarrow> goes ok Q (q \<bind> f) s"
  by (auto simp: gives_def)

lemma goes_gives_pair:
  "gives P q \<Longrightarrow> (\<And>x y. P (x, y) \<Longrightarrow> goes ok Q (f x y) s) \<Longrightarrow> goes ok Q (q \<bind> (\<lambda>(x, y). f x y)) s"
  by (auto simp: gives_def)

lemma goes_if: "(b \<Longrightarrow> goes ok P p s) \<Longrightarrow> (\<not> b \<Longrightarrow> goes ok P q s) \<Longrightarrow> goes ok P (if b then p else q) s"
  by simp

lemma steps_from: "steps ok r t \<Longrightarrow> moves ok s t \<Longrightarrow> steps ok r s"
  by (auto simp: steps_def intro: moves_trans)

lemma steps_bind: "steps ok r s \<Longrightarrow> (\<And>t. r = Some t \<Longrightarrow> moves ok s t \<Longrightarrow> steps ok (f t) t) \<Longrightarrow> steps ok (r \<bind> f) s"
  using steps_from by (fastforce simp: steps_def [of ok r])

lemma steps_gives: "gives P q \<Longrightarrow> (\<And>x. P x \<Longrightarrow> steps ok (f x) s) \<Longrightarrow> steps ok (q \<bind> f) s"
  by (auto simp: gives_def)

lemma steps_gives_pair:
  "gives P q \<Longrightarrow> (\<And>x y. P (x, y) \<Longrightarrow> steps ok (f x y) s) \<Longrightarrow> steps ok (q \<bind> (\<lambda>(x, y). f x y)) s"
  by (auto simp: gives_def)

lemma steps_if: "(b \<Longrightarrow> steps ok p s) \<Longrightarrow> (\<not> b \<Longrightarrow> steps ok q s) \<Longrightarrow> steps ok (if b then p else q) s"
  by simp

lemma gives_bind: "gives P q \<Longrightarrow> (\<And>x. P x \<Longrightarrow> gives Q (f x)) \<Longrightarrow> gives Q (q \<bind> f)"
  by (auto simp: gives_def)

lemma gives_bind_pair: "gives P q \<Longrightarrow> (\<And>x y. P (x, y) \<Longrightarrow> gives Q (f x y)) \<Longrightarrow> gives Q (q \<bind> (\<lambda>(x, y). f x y))"
  by (auto simp: gives_def)

lemma gives_if: "(b \<Longrightarrow> gives P p) \<Longrightarrow> (\<not> b \<Longrightarrow> gives P q) \<Longrightarrow> gives P (if b then p else q)"
  by simp

lemma gives_mono: "gives P q \<Longrightarrow> (\<And>x. P x \<Longrightarrow> Q x) \<Longrightarrow> gives Q q"
  by (auto simp: gives_def)

subsection \<open>Buffers\<close>

text \<open>A C string in a buffer of \<open>n\<close> characters.\<close>

definition text_in :: "nat \<Rightarrow> char list \<Rightarrow> bool" where
  "text_in n b \<longleftrightarrow> length b = n \<and> NUL \<in> set b"

text \<open>The terminator is the first NUL.\<close>

lemma cstr_first:
  assumes "NUL \<in> set b"
  shows "b ! length (cstr b) = NUL" "i < length b \<Longrightarrow> b ! i = NUL \<Longrightarrow> length (cstr b) \<le> i"
proof -
  obtain t where b: "b = cstr b @ NUL # t" using cstr_split [OF assms] by blast
  then show "b ! length (cstr b) = NUL" by (metis nth_append_length)
  have "cstr b ! i \<noteq> NUL" if "i < length (cstr b)" for i
    using that nul_free_cstr [of b] unfolding nul_free_def by (metis nth_mem)
  then show "length (cstr b) \<le> i" if "i < length b" "b ! i = NUL"
    using that b by (metis nth_append not_less)
qed

lemma gives_c_string: "text_in n b \<Longrightarrow> gives (\<lambda>t. t = cstr b \<and> length t < n \<and> nul_free t) (c_string b)"
  using length_cstr_less [of b] by (simp add: text_in_def c_string_def)

lemma text_in_put: "i < n \<Longrightarrow> length b = n \<Longrightarrow> text_in n (b[i := NUL])"
  by (simp add: text_in_def set_update_memI)

lemma gives_wr: "i < length b \<Longrightarrow> gives (\<lambda>b'. b' = b[i := c]) (wr b i c)"
  by simp

lemma gives_rd: "text_in n b \<Longrightarrow> 0 < n \<Longrightarrow> gives (\<lambda>c. c = b ! 0) (rd b 0)"
  by (auto simp: text_in_def)

lemma append_str_total:
  "lim \<le> length b \<Longrightarrow>
    gives (\<lambda>(b', p'). length b' = length b \<and> p \<le> p' \<and> (p' \<le> p \<or> p' \<le> lim) \<and> p' \<le> p + length t) (append_str b p lim t)"
proof (induction t arbitrary: b p)
  case (Cons c t)
  show ?case
  proof (cases "p < lim")
    case True
    with Cons.prems have "wr b p c = Some (b[p := c])" by simp
    with True Cons.IH [where b = "b[p := c]" and p = "p + 1"] Cons.prems show ?thesis by (auto simp: gives_def)
  qed simp
qed simp

lemma put_chars_total:
  "p + length t \<le> length b \<Longrightarrow> gives (\<lambda>(b', p'). length b' = length b \<and> p' = p + length t) (put_chars b p t)"
proof (induction t arbitrary: b p)
  case (Cons c t)
  then have "wr b p c = Some (b[p := c])" by simp
  with Cons.IH [where b = "b[p := c]" and p = "p + 1"] Cons.prems show ?case by (auto simp: gives_def)
qed simp

text \<open>What the two write.\<close>

lemma put_chars_eq:
  "p + length t \<le> length b \<Longrightarrow> put_chars b p t = Some (take p b @ t @ drop (p + length t) b, p + length t)"
proof (induction t arbitrary: b p)
  case (Cons c t)
  then have "wr b p c = Some (b[p := c])" by simp
  with Cons.IH [where b = "b[p := c]" and p = "p + 1"] Cons.prems show ?case by (simp add: take_Suc_conv_app_nth)
qed simp

lemma append_str_eq:
  "p \<le> lim \<Longrightarrow> lim \<le> length b \<Longrightarrow>
    append_str b p lim t = Some (take p b @ take (lim - p) t @ drop (min lim (p + length t)) b, min lim (p + length t))"
proof (induction t arbitrary: b p)
  case (Cons c t)
  show ?case
  proof (cases "p < lim")
    case True
    with Cons.prems have "wr b p c = Some (b[p := c])" by simp
    moreover have "lim - p = Suc (lim - Suc p)" using True by simp
    ultimately show ?thesis
      using True Cons.IH [where b = "b[p := c]" and p = "p + 1"] Cons.prems by (simp add: take_Suc_conv_app_nth)
  qed (use Cons.prems in simp)
qed simp

text \<open>The same with the length of the buffer and the bounds of the position in view.\<close>

lemma gives_append1:
  "length b = n \<Longrightarrow> lim \<le> n \<Longrightarrow> p \<le> lim \<Longrightarrow>
    gives (\<lambda>(b', p'). length b' = n \<and> p' \<le> p + length t \<and> p' \<le> lim) (append_str b p lim t)"
  by (rule gives_mono, rule append_str_total) auto

lemma gives_put1:
  "length b = n \<Longrightarrow> p + length t \<le> n \<Longrightarrow> gives (\<lambda>(b', p'). length b' = n \<and> p' = p + length t) (put_chars b p t)"
  by (rule gives_mono, rule put_chars_total) auto

lemma gives_append:
  "length b = n \<Longrightarrow> lim \<le> n \<Longrightarrow> p \<le> k \<Longrightarrow> lim \<le> k \<Longrightarrow> gives (\<lambda>(b', p'). length b' = n \<and> p' \<le> k) (append_str b p lim t)"
  by (rule gives_mono, rule append_str_total) auto

lemma gives_put:
  "length b = n \<Longrightarrow> p + length t \<le> k \<Longrightarrow> k \<le> n \<Longrightarrow> gives (\<lambda>(b', p'). length b' = n \<and> p' \<le> k) (put_chars b p t)"
  by (rule gives_mono, rule put_chars_total) auto

lemma gives_put_end: "length b = n \<Longrightarrow> p + length t \<le> n \<Longrightarrow> NUL \<in> set t \<Longrightarrow> gives (\<lambda>(b', p'). text_in n b') (put_chars b p t)"
  by (simp add: put_chars_eq text_in_def)

lemma gives_strcpy:
  assumes "text_in n d" "nul_free t" "length t < n"
  shows "gives (text_in n) (kstrcpy d (c_str t))"
proof -
  have "kstrcpy d (c_str t) = Some (t @ NUL # drop (Suc (length t)) d)"
    using kstrcpy_c_str [OF assms(2), of d] assms by (simp add: text_in_def)
  then show ?thesis using assms by (simp add: text_in_def)
qed

lemma text_in_first: "0 < n \<Longrightarrow> text_in n b \<Longrightarrow> text_in n (b[0 := NUL])"
  by (rule text_in_put) (auto simp: text_in_def)

lemma text_in_replicate: "0 < n \<Longrightarrow> text_in n (replicate n NUL)"
  by (simp add: text_in_def)

lemma gives_wr_first: "text_in n b \<Longrightarrow> 0 < n \<Longrightarrow> gives (text_in n) (wr b 0 NUL)"
  by (rule gives_mono, rule gives_wr) (auto simp: text_in_first, simp add: text_in_def)

lemma gives_default: "text_in n b \<Longrightarrow> nul_free t \<Longrightarrow> length t < n \<Longrightarrow> gives (text_in n) (if c then kstrcpy b (c_str t) else Some b)"
  by (simp add: gives_strcpy)

lemma gives_strcmp: "text_in n a \<Longrightarrow> text_in m b \<Longrightarrow> gives (\<lambda>_. True) (kstrcmp a b)"
  using kstrcmp_total by (auto simp: gives_def text_in_def)

lemma text_in_c_str: "n = Suc (length t) \<Longrightarrow> text_in n (c_str t)"
  by (simp add: text_in_def c_str_def)

lemma rev_copy_total: "k \<le> length tmp \<Longrightarrow> 0 < length b \<Longrightarrow> p < length b \<Longrightarrow>
    gives (\<lambda>(b', p'). length b' = length b \<and> p' < length b) (rev_copy tmp k b p)"
proof (induction k arbitrary: b p)
  case (Suc k)
  show ?case
  proof (cases "int p < int (length b) - 1")
    case True
    with Suc.IH [of "b[p := tmp ! k]" "p + 1"] Suc.prems show ?thesis by (auto simp: gives_def)
  qed (use Suc.prems in simp)
qed simp

lemma gives_u32: "1 < n \<Longrightarrow> length b = n \<Longrightarrow> gives (text_in n) (u32_to_str v b)"
proof -
  assume n: "1 < n" "length b = n"
  obtain tmp k where t: "uint_digits v (replicate 12 NUL) 0 = Some (tmp, k)" "length tmp = 12" "k \<le> 11"
    using uint_digits_total [of 0 "replicate 12 NUL" v] by auto
  obtain b1 p1 where b1: "(if v = 0 then do { buf \<leftarrow> wr b 0 (CHR ''0''); Some (buf, 1) } else Some (b, 0)) = Some (b1, p1)"
      "length b1 = n" "p1 < n"
    using n by (cases "v = 0") auto
  obtain b2 p2 where b2: "rev_copy tmp k b1 p1 = Some (b2, p2)" "length b2 = n" "p2 < n"
    using rev_copy_total [of k tmp b1 p1] t b1 n by (auto simp: gives_def)
  then show ?thesis by (simp add: u32_to_str_def b1(1) t(1) text_in_put)
qed

lemma gives_u32_string: "1 < n \<Longrightarrow> gives (\<lambda>t. nul_free t \<and> length t < n) (u32_string v n)"
  unfolding u32_string_def
  by (intro gives_bind [OF gives_u32] gives_mono [OF gives_c_string]) auto

lemma gives_str_cat:
  assumes "text_in n d"
  shows "gives (text_in n) (str_cat d t)"
proof -
  have n: "length d = n" "length (cstr d) < n" "0 < n" using assms length_cstr_less [of d] by (auto simp: text_in_def)
  show ?thesis
    unfolding str_cat_def
    by (rule gives_bind [OF gives_c_string [OF assms]], rule gives_bind_pair [OF gives_append [of _ n _ _ "n - 1"]])
      (use n in \<open>auto simp: text_in_put\<close>)
qed

subsection \<open>Drawing\<close>

definition call_safe :: "vga_call \<Rightarrow> bool" where
  "call_safe c \<longleftrightarrow> (case c of Backspace \<Rightarrow> False | Fill_rect x y w h ch fg bg \<Rightarrow> int_range (x + w) \<and> int_range (y + h)
     | Set_viewport t b \<Rightarrow> 0 \<le> b | _ \<Rightarrow> True)"

abbreviation calls_safe :: "vga_call list \<Rightarrow> bool" where
  "calls_safe cs \<equiv> (\<forall>c \<in> set cs. call_safe c)"

lemma call_safe_simps [simp]:
  "call_safe (Set_color fg bg)" "call_safe Clear" "call_safe (Putchar ch)" "\<not> call_safe Backspace" "call_safe (Write_string s)"
  "call_safe (Put_at x y u fg bg)" "call_safe (Write_str_at x y s fg bg)" "call_safe (Set_cursor_pos x y)"
  "call_safe Reset_viewport" "call_safe (Set_viewport t b) \<longleftrightarrow> 0 \<le> b"
  "call_safe (Fill_rect x y w h u fg bg) \<longleftrightarrow> int_range (x + w) \<and> int_range (y + h)"
  by (simp_all add: call_safe_def)

lemma call_safe_ok: "call_safe c \<Longrightarrow> vga_call_ok c v"
  by (cases c) simp_all

lemma paint_total:
  assumes "vga_ok (u_vga s)" "calls_safe cs"
  shows "\<exists>v. paint cs s = Some (s\<lparr>u_vga := v\<rparr>) \<and> vga_ok v"
proof -
  have "guarded vga_exec vga_call_ok cs (u_vga s)"
    using assms by (intro vgam.guarded_always) (auto intro: call_safe_ok)
  from vgam.run_inv [OF assms(1) this] show ?thesis by (auto simp: paint_def)
qed

subsection \<open>The interface\<close>

text \<open>\<open>ui_machine\<close> is about the screen and the keyboard, \<open>ui_system\<close> also about the disk.\<close>

locale ui_machine =
  fixes ok :: "('h, 'z) ui_scheme \<Rightarrow> bool"
  assumes ok_screen: "ok s \<Longrightarrow> vga_ok (u_vga s)"
    and ok_vga: "ok s \<Longrightarrow> vga_ok v \<Longrightarrow> ok (s\<lparr>u_vga := v\<rparr>)"
    and ok_keys: "ok s \<Longrightarrow> ok (s\<lparr>u_kbd := k, u_polls := ps\<rparr>)"
begin

lemma steps_paint: "ok s \<Longrightarrow> calls_safe cs \<Longrightarrow> steps ok (paint cs s) s"
  using paint_total [of s cs] ok_screen [of s] ok_vga by (auto simp: steps_def moves_def)

lemma next_key_moves:
  assumes "ok s" "next_key s = Some (key, t)"
  shows "moves ok s t" "length (u_polls t) < length (u_polls s)"
proof -
  show "length (u_polls t) < length (u_polls s)" by (rule next_key_shorter [OF assms(2)])
  then show "moves ok s t"
    using assms ok_keys by (auto simp: moves_def next_key_def split: option.splits)
qed

lemma goes_any_key: "ok s \<Longrightarrow> goes ok (\<lambda>_ t. length (u_polls t) < length (u_polls s)) (any_key s) s"
  using next_key_moves by (auto simp: any_key_def split: option.split)

lemma goes_key:
  assumes "ok s" "\<And>key t. next_key s = Some (key, t) \<Longrightarrow> moves ok s t \<Longrightarrow> length (u_polls t) < length (u_polls s) \<Longrightarrow> goes ok P (f key t) t"
  shows "goes ok P (case next_key s of None \<Rightarrow> Some (Waits s) | Some (key, t) \<Rightarrow> f key t) s"
  using assms next_key_moves by (auto split: option.split intro: goes_from)

end

locale ui_system = ui_machine ok for ok :: "('h, 'z) ui_scheme \<Rightarrow> bool" +
  assumes ok_storage: "ok s \<Longrightarrow> disk_ok (u_disk s)"
    and ok_disk: "ok s \<Longrightarrow> disk_keeps (u_disk s) d \<Longrightarrow> ok (s\<lparr>u_disk := d\<rparr>)"
begin

lemma ui_dsk_steps:
  assumes "ok s" "\<exists>r d. f (u_disk s) = Some (r, d) \<and> disk_keeps (u_disk s) d"
  shows "gives (\<lambda>(r, t). moves ok s t) (ui_dsk f s)"
  using assms ok_disk by (auto simp: ui_dsk_def moves_def)

lemma goes_dsk:
  assumes "ok s" "\<exists>r d. f (u_disk s) = Some (r, d) \<and> disk_keeps (u_disk s) d"
    "\<And>r t. moves ok s t \<Longrightarrow> goes ok P (g r t) t"
  shows "goes ok P (ui_dsk f s \<bind> (\<lambda>(r, t). g r t)) s"
  using ui_dsk_steps [where f = f, OF assms(1,2)] goes_from [OF assms(3)] by (fastforce simp: gives_def)

lemma ui_fs_steps:
  assumes "ok s" "\<exists>r ns. f (ui_nodes s) = Some (r, ns) \<and> fs_keeps (ui_nodes s) ns"
  shows "gives (\<lambda>(r, t). moves ok s t) (ui_fs f s)"
proof -
  obtain r ns where f: "f (ui_nodes s) = Some (r, ns)" "fs_keeps (ui_nodes s) ns" using assms(2) by blast
  have "disk_keeps (u_disk s) ((u_disk s)\<lparr>d_nodes := ns\<rparr>)"
    using f(2) ok_storage [OF assms(1)] by (auto simp: disk_keeps_def disk_ok_def disk_sized_def fs_keeps_def)
  with f(1) ok_disk [OF assms(1)] show ?thesis by (simp add: ui_fs_def moves_def)
qed

lemma ok_mem: "ok s \<Longrightarrow> fs_mem (ui_nodes s)"
  using ok_storage [of s] by (simp add: disk_ok_def)

lemma steps_fs:
  assumes "ok s" "\<exists>r ns. f (ui_nodes s) = Some (r, ns) \<and> fs_keeps (ui_nodes s) ns"
  shows "\<exists>r ns. ui_fs f s = Some (r, s\<lparr>u_disk := (u_disk s)\<lparr>d_nodes := ns\<rparr>\<rparr>) \<and> moves ok s (s\<lparr>u_disk := (u_disk s)\<lparr>d_nodes := ns\<rparr>\<rparr>)
    \<and> fs_keeps (ui_nodes s) ns"
proof -
  obtain r ns where f: "f (ui_nodes s) = Some (r, ns)" "fs_keeps (ui_nodes s) ns" using assms(2) by blast
  then have "ui_fs f s = Some (r, s\<lparr>u_disk := (u_disk s)\<lparr>d_nodes := ns\<rparr>\<rparr>)" by (simp add: ui_fs_def)
  with ui_fs_steps [where f = f, OF assms] f(2) show ?thesis by (auto simp: gives_def)
qed

lemma steps_mkdir:
  assumes "ok s" "0 \<le> node" "in_table (ui_nodes s) (nat node)" "nul_free p"
  shows "steps ok (ui_mkdir node p owner mode s) s"
  using steps_fs [where f = "\<lambda>ns. fs_mkdir_as ns node (Some p) owner mode", OF assms(1)]
    fs_create_in(1) [OF ok_mem [OF assms(1)] assms(3,4), of owner mode] assms(2)
  by (auto simp: ui_mkdir_def)

lemma steps_write:
  assumes "ok s" "0 \<le> node" "in_table (ui_nodes s) (nat node)" "nul_free p" "n \<le> length buf"
  shows "steps ok (ui_write node p buf n s) s"
proof -
  have "buffer_ok (Some buf) n" using assms(5) by (simp add: buffer_ok_def)
  from fs_write_file_in [OF ok_mem [OF assms(1)] assms(3,4) this] assms(2)
    steps_fs [where f = "\<lambda>ns. fs_write_file ns node (Some p) (Some buf) n", OF assms(1)]
  show ?thesis by (auto simp: ui_write_def)
qed

lemma steps_write_string:
  assumes "ok s" "0 \<le> node" "in_table (ui_nodes s) (nat node)" "nul_free p" "nul_free t"
  shows "steps ok (ui_write_string node p t s) s"
proof -
  have "length t \<le> length (c_str t)" by (simp add: c_str_def)
  from steps_write [OF assms(1-4) this] assms(5) show ?thesis by (simp add: ui_write_string_def)
qed

lemmas steps_root = steps_mkdir [where node = fs_get_root, unfolded fs_get_root_def]
  steps_write [where node = fs_get_root, unfolded fs_get_root_def] steps_write_string [where node = fs_get_root, unfolded fs_get_root_def]

lemma gives_resolve:
  assumes "ok s" "0 \<le> node" "in_table (ui_nodes s) (nat node)" "nul_free p"
  shows "gives (\<lambda>r. 0 \<le> r \<longrightarrow> in_table (ui_nodes s) (nat r)) (fs_resolve (ui_nodes s) node (Some p))"
proof -
  from intab.fs_resolve_in [OF ok_mem [OF assms(1)] assms(3,4)] assms(2) obtain r where
    "fs_resolve (ui_nodes s) node (Some p) = Some (node_code r)" "\<forall>d. r = Some d \<longrightarrow> in_table (ui_nodes s) d" by auto
  then show ?thesis by (cases r) auto
qed

end

end
