(* ===== verification/InstallerStages.thy ===== *)
theory InstallerStages
  imports Installer
begin

text \<open>
  kernel/installer.c: the stages of the wizard that ask for the settings. A stage returns 1 to go on, 0 to go back
  and -1 to cancel, with the settings.
\<close>

definition logo :: "string list" where
  "logo = [''  ______           ____  ____'',
     '' |  ____|         / __ '' @ CHR 0x5C # ''/ ___|'',
     '' | |__ _   _ _ __| |  | '' @ CHR 0x5C # ''___ '' @ [CHR 0x5C],
     '' |  __| | | | '' @ CHR 0x27 # ''__| |  | |___) |'',
     '' | |  | |_| | |  | |__| |____/'',
     '' |_|   '' @ CHR 0x5C # ''__,_|_|   '' @ CHR 0x5C # ''____/'']"

definition move_hint :: string where
  "move_hint = ''  '' @ CHR 0x18 # CHR 0x19 # '': Move   ENTER: Select   ESC/Q: Back''"

subsection \<open>Welcome\<close>

function welcome_loop :: "int \<Rightarrow> ('h, 'z) ui_scheme \<Rightarrow> (('h, 'z) ui_scheme, int) outcome option" where
  "welcome_loop n s = (case next_key s of
     None \<Rightarrow> Some (Waits s)
   | Some (k, s) \<Rightarrow>
       if (k = 10 \<or> k = 13) \<and> n > 0 then Some (Done 1 s)
       else if k = 113 \<or> k = 81 \<or> k = 27 then Some (Done (-1) s)
       else welcome_loop n s)"
  by pat_completeness auto
termination
  by (relation "measure (\<lambda>(n, s). length (u_polls s))") (auto dest!: next_key_shorter)

declare welcome_loop.simps [simp del]

definition stage_welcome :: "('h, 'z) ui_scheme \<Rightarrow> (('h, 'z) ui_scheme, int) outcome option" where
  "stage_welcome s = do {
     let n = disk_count (u_disk s);
     header \<leftarrow> draw_header 1 7 ''Welcome'';
     nbuf \<leftarrow> u32_string (word_of_int n) 8;
     s \<leftarrow> paint (header @ clear_content
       @ [Str 22 4 (logo ! 0) 11 0, Str 22 5 (logo ! 1) 11 0, Str 22 6 (logo ! 2) 11 0,
          Str 22 7 (logo ! 3) 11 0, Str 22 8 (logo ! 4) 11 0, Str 22 9 (logo ! 5) 11 0,
          Str 2 11 ''Welcome to the FurOS 1.0 Installation Wizard'' 7 0,
          Str 2 12 ''Based on Debian GNU/Linux 12 (Bookworm)'' 15 0,
          Str 2 14 ''This wizard will install FurOS to a disk and set up your system.'' 15 0,
          Str 2 15 ''All data on the chosen disk will be permanently erased.'' 12 0,
          Str 2 17 ''Disk interface support: IDE (legacy) and AHCI SATA'' 15 0,
          Str 2 18 ''Disks detected: '' 7 0,
          Str 18 18 nbuf (if n > 0 then 10 else 12) 0]
       @ (if n = 0 then [Str 2 19 ''No disks found! Cannot install. Check disk connection.'' 12 0] else [])
       @ draw_bottom (Some (if n > 0 then ''  ENTER: Start Wizard    Q/ESC: Quit Installer''
           else ''  No disks detected. Q/ESC: Quit''))) s;
     welcome_loop n s }"

subsection \<open>Disk selection\<close>

text \<open>The line of disk \<open>i\<close> in its buffer of 64 characters; \<open>di\<close> has no initial value in C.\<close>

definition disk_line :: "'h disk \<Rightarrow> int \<Rightarrow> string option" where
  "disk_line d i = do {
     (r, out) \<leftarrow> disk_get_info d i (Some zero_info);
     let di = the out;
     if r \<noteq> 0 \<or> \<not> in_present di then do {
       (ln, _) \<leftarrow> put_chars (replicate 64 NUL) 0 [CHR ''?'', NUL];
       c_string ln }
     else do {
       (ln, p) \<leftarrow> put_chars (replicate 64 NUL) 0 ''['';
       sbuf \<leftarrow> u32_string (word_of_int i) 12;
       (ln, p) \<leftarrow> append_str ln p 62 sbuf;
       (ln, p) \<leftarrow> put_chars ln p '']  '';
       (ln, p) \<leftarrow> (if in_interface_type di = 1 then append_str ln p 62 ''AHCI  ''
         else do {
           (ln, p) \<leftarrow> append_str ln p 62 (if in_slave di \<noteq> 0 then ''IDE Slave  io='' else ''IDE Master io='');
           hbuf \<leftarrow> hex16_to_str (in_io_base di) (replicate 8 NUL);
           h \<leftarrow> c_string hbuf;
           (ln, p) \<leftarrow> append_str ln p 62 h;
           put_chars ln p ''  '' });
       sbuf \<leftarrow> u32_string (in_sectors28 di) 12;
       (ln, p) \<leftarrow> append_str ln p 62 sbuf;
       (ln, p) \<leftarrow> append_str ln p 62 '' sectors  '';
       m \<leftarrow> c_string (in_model di);
       (ln, p) \<leftarrow> append_str ln p 62 m;
       ln \<leftarrow> wr ln p NUL;
       c_string ln } }"

fun disk_lines :: "'h disk \<Rightarrow> int list \<Rightarrow> string list option" where
  "disk_lines d [] = Some []"
| "disk_lines d (i # is) = do { ln \<leftarrow> disk_line d i; lns \<leftarrow> disk_lines d is; Some (ln # lns) }"

definition stage_disk :: "wiz \<Rightarrow> ('h, 'z) ui_scheme \<Rightarrow> (('h, 'z) ui_scheme, int \<times> wiz) outcome option" where
  "stage_disk w s = (
     let cnt = disk_count (u_disk s) in
     if cnt \<le> 0 \<or> cnt > 16 then Some (Done (-1, w) s)
     else do {
       items \<leftarrow> disk_lines (u_disk s) [0..cnt - 1];
       header \<leftarrow> draw_header 2 7 ''Select Disk'';
       s \<leftarrow> paint (header @ clear_content
         @ [Str 2 CONT_TOP ''Select the disk to install FurOS on:'' 7 0,
            Str 2 (CONT_TOP + 1) (CHR 0xFE # '' WARNING: All data on the chosen disk will be erased!'') 12 0]
         @ draw_bottom (Some move_hint)) s;
       let sel = (if w_disk_index w \<ge> 0 \<and> w_disk_index w < cnt then w_disk_index w else 0);
       andthen (run_menu 2 (CONT_TOP + 3) (SCR_W - 4) items sel s) (\<lambda>sel s.
         if sel < 0 then Some (Done (0, w) s)
         else do {
           (r, s) \<leftarrow> ui_dsk (\<lambda>d. disk_select d sel) s;
           if r \<noteq> 0 then do {
             s \<leftarrow> paint [Str 2 (CONT_TOP + 3 + cnt + 3) ''Cannot select disk! Press any key.'' 12 0] s;
             andthen (any_key s) (\<lambda>_ s. Some (Done (0, w) s)) }
           else Some (Done (1, w\<lparr>w_disk_index := sel\<rparr>) s) }) })"

subsection \<open>Host name and time zone\<close>

definition stage_hostname :: "wiz \<Rightarrow> ('h, 'z) ui_scheme \<Rightarrow> (('h, 'z) ui_scheme, int \<times> wiz) outcome option" where
  "stage_hostname w s = do {
     header \<leftarrow> draw_header 3 7 ''Hostname'';
     s \<leftarrow> paint (header @ clear_content
       @ [Str 2 CONT_TOP ''Enter the hostname for this computer:'' 7 0,
          Str 2 (CONT_TOP + 1) ''Use lowercase letters, digits, and hyphens only.'' 15 0,
          Str 2 (CONT_TOP + 2) ''Examples: furos-pc  my-laptop  workstation'' 15 0,
          Str 2 (CONT_TOP + 4) ''Hostname:'' 7 0]
       @ draw_bottom (Some ''  ENTER: Confirm   ESC/Q: Back'')) s;
     c \<leftarrow> rd (w_hostname w) 0;
     host \<leftarrow> (if c = NUL then kstrcpy (w_hostname w) (c_str ''furos'') else Some (w_hostname w));
     andthen (run_input 2 (CONT_TOP + 6) 40 host False s) (\<lambda>(rc, host) s.
       if rc < 0 then Some (Done (0, w\<lparr>w_hostname := host\<rparr>) s)
       else do {
         c \<leftarrow> rd host 0;
         host \<leftarrow> (if c = NUL then kstrcpy host (c_str ''furos'') else Some host);
         Some (Done (1, w\<lparr>w_hostname := host\<rparr>) s) }) }"

definition tzones :: "string list" where
  "tzones = [''UTC'', ''America/New_York'', ''America/Chicago'', ''America/Denver'', ''America/Los_Angeles'',
     ''America/Sao_Paulo'', ''Europe/London'', ''Europe/Paris'', ''Europe/Berlin'', ''Europe/Moscow'', ''Asia/Dubai'',
     ''Asia/Kolkata'', ''Asia/Tokyo'', ''Asia/Shanghai'', ''Australia/Sydney'']"

text \<open>The index of the first zone that is the current one, otherwise 0.\<close>

fun find_zone :: "string list \<Rightarrow> int \<Rightarrow> char list \<Rightarrow> int option" where
  "find_zone [] i tz = Some 0"
| "find_zone (z # zs) i tz = do {
     r \<leftarrow> kstrcmp tz (c_str z);
     if r = 0 then Some i else find_zone zs (i + 1) tz }"

definition stage_timezone :: "wiz \<Rightarrow> ('h, 'z) ui_scheme \<Rightarrow> (('h, 'z) ui_scheme, int \<times> wiz) outcome option" where
  "stage_timezone w s = do {
     init \<leftarrow> find_zone tzones 0 (w_timezone w);
     header \<leftarrow> draw_header 4 7 ''Timezone'';
     s \<leftarrow> paint (header @ clear_content @ [Str 2 CONT_TOP ''Select your timezone:'' 7 0] @ draw_bottom (Some move_hint)) s;
     andthen (run_menu 2 (CONT_TOP + 2) (SCR_W - 4) tzones init s) (\<lambda>sel s.
       if sel < 0 then Some (Done (0, w) s)
       else do {
         z \<leftarrow> rd tzones (nat sel);
         tz \<leftarrow> kstrcpy (w_timezone w) (c_str z);
         Some (Done (1, w\<lparr>w_timezone := tz\<rparr>) s) }) }"

subsection \<open>Passwords and user\<close>

text \<open>
  \<open>stage_root_pw\<close> and \<open>stage_user\<close> call themselves when the passwords differ; how often depends on the
  keys, so they are partial functions here. Each round waits for keys.
\<close>

partial_function (option) stage_root_pw ::
  "wiz \<Rightarrow> ('h, 'z) ui_scheme \<Rightarrow> (('h, 'z) ui_scheme, int \<times> wiz) outcome option" where
  "stage_root_pw w s = do {
     header \<leftarrow> draw_header 5 7 ''Root Password'';
     s \<leftarrow> paint (header @ clear_content
       @ [Str 2 CONT_TOP ''Set the root (administrator) password.'' 7 0,
          Str 2 (CONT_TOP + 1) ''Root has full control over the system.'' 15 0,
          Str 2 (CONT_TOP + 3) ''Password:'' 7 0,
          Str 2 (CONT_TOP + 7) ''Confirm password:'' 7 0]
       @ draw_bottom (Some ''  ENTER: Confirm   ESC/Q: Back'')) s;
     c \<leftarrow> rd (w_root_pw w) 0;
     pw \<leftarrow> (if c = NUL then kstrcpy (w_root_pw w) (c_str []) else Some (w_root_pw w));
     andthen (run_input 2 (CONT_TOP + 5) 44 pw True s) (\<lambda>(rc, pw) s.
       let w = w\<lparr>w_root_pw := pw\<rparr> in
       if rc < 0 then Some (Done (0, w) s)
       else do {
         confirm \<leftarrow> wr (replicate 64 NUL) 0 NUL;
         andthen (run_input 2 (CONT_TOP + 9) 44 confirm True s) (\<lambda>(rc, confirm) s.
           if rc < 0 then Some (Done (0, w) s)
           else do {
             r \<leftarrow> kstrcmp (w_root_pw w) confirm;
             if r \<noteq> 0 then do {
               s \<leftarrow> paint [Fill_rect 2 (CONT_TOP + 11) 60 1 BLANK 12 0,
                 Str 2 (CONT_TOP + 11) ''Passwords do not match! Press any key to try again.'' 12 0] s;
               andthen (any_key s) (\<lambda>_ s. do {
                 pw \<leftarrow> wr (w_root_pw w) 0 NUL;
                 stage_root_pw (w\<lparr>w_root_pw := pw\<rparr>) s }) }
             else Some (Done (1, w) s) }) }) }"

partial_function (option) stage_user ::
  "wiz \<Rightarrow> ('h, 'z) ui_scheme \<Rightarrow> (('h, 'z) ui_scheme, int \<times> wiz) outcome option" where
  "stage_user w s = do {
     header \<leftarrow> draw_header 6 7 ''User Account'';
     s \<leftarrow> paint (header @ clear_content
       @ [Str 2 CONT_TOP ''Create a regular user account.'' 7 0,
          Str 2 (CONT_TOP + 1) ''Use lowercase letters and digits only. Minimum 2 characters.'' 15 0,
          Str 2 (CONT_TOP + 3) ''Username:'' 7 0,
          Str 2 (CONT_TOP + 7) ''Password:'' 7 0,
          Str 2 (CONT_TOP + 11) ''Confirm password:'' 7 0]
       @ draw_bottom (Some ''  ENTER: Confirm   ESC/Q: Back'')) s;
     c \<leftarrow> rd (w_username w) 0;
     name \<leftarrow> (if c = NUL then kstrcpy (w_username w) (c_str ''debian'') else Some (w_username w));
     andthen (run_input 2 (CONT_TOP + 5) 30 name False s) (\<lambda>(rc, name) s.
       if rc < 0 then Some (Done (0, w\<lparr>w_username := name\<rparr>) s)
       else do {
         t \<leftarrow> c_string name;
         name \<leftarrow> (if slen t < 2 then kstrcpy name (c_str ''debian'') else Some name);
         let w = w\<lparr>w_username := name\<rparr>;
         c \<leftarrow> rd (w_user_pw w) 0;
         pw \<leftarrow> (if c = NUL then kstrcpy (w_user_pw w) (c_str []) else Some (w_user_pw w));
         andthen (run_input 2 (CONT_TOP + 9) 44 pw True s) (\<lambda>(rc, pw) s.
           let w = w\<lparr>w_user_pw := pw\<rparr> in
           if rc < 0 then Some (Done (0, w) s)
           else do {
             confirm \<leftarrow> wr (replicate 64 NUL) 0 NUL;
             andthen (run_input 2 (CONT_TOP + 13) 44 confirm True s) (\<lambda>(rc, confirm) s.
               if rc < 0 then Some (Done (0, w) s)
               else do {
                 r \<leftarrow> kstrcmp (w_user_pw w) confirm;
                 if r \<noteq> 0 then do {
                   s \<leftarrow> paint [Fill_rect 2 (CONT_TOP + 15) 60 1 BLANK 12 0,
                     Str 2 (CONT_TOP + 15) ''Passwords do not match! Press any key to try again.'' 12 0] s;
                   andthen (any_key s) (\<lambda>_ s. do {
                     pw \<leftarrow> wr (w_user_pw w) 0 NUL;
                     stage_user (w\<lparr>w_user_pw := pw\<rparr>) s }) }
                 else Some (Done (1, w) s) }) }) }) }"

subsection \<open>Summary\<close>

text \<open>The description of the chosen disk in its buffer of 48 characters.\<close>

definition summary_disk :: "ata_device_info \<Rightarrow> int \<Rightarrow> string option" where
  "summary_disk di index = do {
     nbuf \<leftarrow> u32_string (word_of_int index) 12;
     (dline, p) \<leftarrow> put_chars (replicate 48 NUL) 0 ''['';
     (dline, p) \<leftarrow> append_str dline p 46 nbuf;
     (dline, p) \<leftarrow> put_chars dline p ''] '';
     sec \<leftarrow> u32_string (in_sectors28 di) 12;
     (dline, p) \<leftarrow> append_str dline p 46 sec;
     (dline, p) \<leftarrow> append_str dline p 46 '' sectors'';
     m \<leftarrow> c_string (in_model di);
     (dline, p) \<leftarrow> (if m \<noteq> [] then do { (dline, p) \<leftarrow> put_chars dline p '' ''; append_str dline p 46 m } else Some (dline, p));
     dline \<leftarrow> wr dline p NUL;
     c_string dline }"

text \<open>\<open>[set]\<close> in green, \<open>[empty]\<close> in red.\<close>

definition pw_field :: "int \<Rightarrow> char list \<Rightarrow> vga_call list option" where
  "pw_field y pw = do {
     c \<leftarrow> rd pw 0;
     Some [Str 20 y (if c \<noteq> NUL then ''[set]'' else ''[empty]'') (if c \<noteq> NUL then 10 else 12) 0] }"

definition stage_summary :: "wiz \<Rightarrow> ('h, 'z) ui_scheme \<Rightarrow> (('h, 'z) ui_scheme, int) outcome option" where
  "stage_summary w s = do {
     header \<leftarrow> draw_header 7 7 ''Summary'';
     (r, out) \<leftarrow> disk_get_info (u_disk s) (w_disk_index w) (Some zero_info);
     disk \<leftarrow> (if r = 0 \<and> in_present (the out)
       then do { t \<leftarrow> summary_disk (the out) (w_disk_index w); Some [Str 20 (CONT_TOP + 3) t 10 0] } else Some []);
     host \<leftarrow> c_string (w_hostname w);
     zone \<leftarrow> c_string (w_timezone w);
     root \<leftarrow> pw_field (CONT_TOP + 6) (w_root_pw w);
     user \<leftarrow> c_string (w_username w);
     upw \<leftarrow> pw_field (CONT_TOP + 8) (w_user_pw w);
     s \<leftarrow> paint (header @ clear_content
       @ [Str 2 CONT_TOP ''Installation Summary'' 7 0, Fill_rect 2 (CONT_TOP + 1) 40 1 CH_H 15 0,
          Str 4 (CONT_TOP + 3) ''Target disk :'' 15 0]
       @ disk
       @ [Str 4 (CONT_TOP + 4) ''Hostname    :'' 15 0, Str 20 (CONT_TOP + 4) host 10 0,
          Str 4 (CONT_TOP + 5) ''Timezone    :'' 15 0, Str 20 (CONT_TOP + 5) zone 10 0,
          Str 4 (CONT_TOP + 6) ''Root pass   :'' 15 0]
       @ root
       @ [Str 4 (CONT_TOP + 7) ''Username    :'' 15 0, Str 20 (CONT_TOP + 7) user 10 0,
          Str 4 (CONT_TOP + 8) ''User pass   :'' 15 0]
       @ upw
       @ [Fill_rect 2 (CONT_TOP + 10) 40 1 CH_H 15 0,
          Str 2 (CONT_TOP + 11) (CHR 0xFE # '' Type YES and press ENTER to begin installation:'') 12 0]
       @ draw_bottom (Some ''  Type YES to confirm   ESC/Q: Go back'')) s;
     confirm \<leftarrow> wr (replicate 8 NUL) 0 NUL;
     andthen (run_input 2 (CONT_TOP + 13) 12 confirm False s) (\<lambda>(rc, confirm) s.
       if rc < 0 then Some (Done 0 s)
       else do {
         r1 \<leftarrow> kstrcmp confirm (c_str ''YES'');
         r2 \<leftarrow> kstrcmp confirm (c_str ''yes'');
         if r1 \<noteq> 0 \<and> r2 \<noteq> 0 then Some (Done 0 s) else Some (Done 1 s) }) }"

end
