(* ===== verification/InstallerRun.thy ===== *)
theory InstallerRun
  imports InstallerStages
begin

text \<open>
  kernel/installer.c: the installation itself, the last pages, and \<open>installer_run\<close>, which never returns: it ends by
  halting the machine.
\<close>

subsection \<open>Steps\<close>

definition step_labels :: "string list" where
  "step_labels = [''Writing bootloader and kernel to disk...'', ''Formatting filesystem area...'',
     ''Creating directory structure...'', ''Writing configuration files...'', ''Saving filesystem to disk...'']"

definition step_pcts :: "int list" where
  "step_pcts = [0, 20, 40, 65, 85]"

definition mark_step :: "int \<Rightarrow> string \<Rightarrow> u8 \<Rightarrow> vga_call list option" where
  "mark_step y label col = do {
     (line, p) \<leftarrow> put_chars (replicate 81 NUL) 0
       [CHR '' '', CHR ''['', if col = 10 then CHR ''*'' else if col = 11 then CHR ''~'' else CHR '' '', CHR '']'', CHR '' ''];
     (line, p) \<leftarrow> append_str line p 79 label;
     line \<leftarrow> wr line p NUL;
     t \<leftarrow> c_string line;
     Some [Fill_rect 0 y SCR_W 1 BLANK 7 0, Str 2 y t col 0] }"

definition paint_step :: "nat \<Rightarrow> u8 \<Rightarrow> ('h, 'z) ui_scheme \<Rightarrow> ('h, 'z) ui_scheme option" where
  "paint_step idx col s = do { m \<leftarrow> mark_step (CONT_TOP + 2 + int idx) (step_labels ! idx) col; paint m s }"

definition paint_progress :: "int \<Rightarrow> ('h, 'z) ui_scheme \<Rightarrow> ('h, 'z) ui_scheme option" where
  "paint_progress pct s = do { m \<leftarrow> draw_progress (CONT_TOP + 8) pct; paint m s }"

text \<open>The macro \<open>DO_STEP\<close>.\<close>

definition do_step ::
  "nat \<Rightarrow> ('h disk \<Rightarrow> (int \<times> 'h disk) option) \<Rightarrow> ('h, 'z) ui_scheme \<Rightarrow> (('h, 'z) ui_scheme, unit) outcome option" where
  "do_step idx f s = do {
     s \<leftarrow> paint_step idx 11 s;
     s \<leftarrow> paint_progress (step_pcts ! idx) s;
     (r, s) \<leftarrow> ui_dsk f s;
     if r \<noteq> 0 then do {
       s \<leftarrow> paint_step idx 12 s;
       s \<leftarrow> paint ([Str 2 (CONT_TOP + 10) ''Installation failed!'' 12 0,
         Str 2 (CONT_TOP + 11) (disk_last_error (u_disk s)) 12 0] @ draw_bottom (Some ''  Press any key to halt.'')) s;
       andthen (any_key s) (\<lambda>_ s. Some (Halts s)) }
     else do { s \<leftarrow> paint_step idx 10 s; Some (Done () s) } }"

subsection \<open>Directories and files\<close>

definition install_directories :: "wiz \<Rightarrow> ('h, 'z) ui_scheme \<Rightarrow> ('h, 'z) ui_scheme option" where
  "install_directories w s = do {
     s \<leftarrow> ui_mkdir fs_get_root ''bin'' 0 0x1ED s;
     s \<leftarrow> ui_mkdir fs_get_root ''etc'' 0 0x1ED s;
     s \<leftarrow> ui_mkdir fs_get_root ''home'' 0 0x1ED s;
     s \<leftarrow> ui_mkdir fs_get_root ''var'' 0 0x1ED s;
     s \<leftarrow> ui_mkdir fs_get_root ''tmp'' 0 0x3FF s;
     s \<leftarrow> ui_mkdir fs_get_root ''usr'' 0 0x1ED s;
     s \<leftarrow> ui_mkdir fs_get_root ''run'' 0 0x1ED s;
     home_node \<leftarrow> fs_resolve (ui_nodes s) fs_get_root (Some ''home'');
     home_path \<leftarrow> kstrcpy (replicate 48 NUL) (w_username w);
     p \<leftarrow> c_string home_path;
     if home_node \<ge> 0 then ui_mkdir home_node p 1000 0x1ED s else Some s }"

text \<open>
  The first buffer of the host name, which is not used: the terminator is overwritten before its place is asked
  for again, so the second \<open>slen\<close> runs on into what the array held before.
\<close>

definition hostname_scratch :: "char list \<Rightarrow> char list \<Rightarrow> char list option" where
  "hostname_scratch hn host = do {
     hn \<leftarrow> kstrcpy hn host;
     t \<leftarrow> c_string hn;
     hn \<leftarrow> wr hn (length t) LF;
     t \<leftarrow> c_string hn;
     wr hn (length t + 1) NUL }"

text \<open>A line of its own in a buffer of 34 characters, as for the host name and the time zone.\<close>

definition line_of :: "char list \<Rightarrow> (char list \<times> nat) option" where
  "line_of text = do {
     t \<leftarrow> c_string text;
     (b, p) \<leftarrow> put_chars (replicate 34 NUL) 0 t;
     (b, p) \<leftarrow> put_chars b p [LF];
     b \<leftarrow> wr b p NUL;
     Some (b, p) }"

definition installer_os_release :: string where
  "installer_os_release = os_release @ ''HOME_URL='' @ CHR 0x22 # ''https://furos.org/'' @ [CHR 0x22, LF]"

definition passwd_line :: "char list \<Rightarrow> (char list \<times> nat) option" where
  "passwd_line username = do {
     u \<leftarrow> c_string username;
     (b, p) \<leftarrow> put_chars (replicate 128 NUL) 0 (''root:x:0:0:root:/root:/bin/sh'' @ [LF]);
     (b, p) \<leftarrow> append_str b p 120 u;
     (b, p) \<leftarrow> append_str b p 120 '':x:1000:1000::/home/'';
     (b, p) \<leftarrow> append_str b p 120 u;
     (b, p) \<leftarrow> append_str b p 120 ('':/bin/sh'' @ [LF]);
     b \<leftarrow> wr b p NUL;
     Some (b, p) }"

definition group_line :: "char list \<Rightarrow> (char list \<times> nat) option" where
  "group_line username = do {
     u \<leftarrow> c_string username;
     (b, p) \<leftarrow> append_str (replicate 128 NUL) 0 120 (''root:x:0:'' @ LF # ''sudo:x:27:'');
     (b, p) \<leftarrow> append_str b p 120 u;
     (b, p) \<leftarrow> put_chars b p [LF];
     (b, p) \<leftarrow> append_str b p 120 u;
     (b, p) \<leftarrow> append_str b p 120 ('':x:1000:'' @ [LF]);
     b \<leftarrow> wr b p NUL;
     Some (b, p) }"

definition installer_motd :: string where
  "installer_motd =
     LF # concat (map (\<lambda>l. l @ [LF]) logo) @
     LF # '' FurOS 1.0  '' @ CHR 0xB3 # ''  Debian GNU/Linux 12 Bookworm'' @
     LF # '' Type '' @ CHR 0x27 # ''help'' @ CHR 0x27 # '' for available commands.'' @
     LF # '' Type '' @ CHR 0x27 # ''logout'' @ CHR 0x27 # '' to return to the desktop.'' @ [LF, LF]"

definition installer_bashrc :: string where
  "installer_bashrc = ''# FurOS ~/.bashrc'' @ LF # ''alias ls='' @ CHR 0x27 # ''ls'' @ CHR 0x27 #
     LF # ''alias ll='' @ CHR 0x27 # ''ls'' @ [CHR 0x27, LF]"

definition install_files :: "wiz \<Rightarrow> ('h, 'z) ui_scheme \<Rightarrow> ('h, 'z) ui_scheme option" where
  "install_files w s = do {
     _ \<leftarrow> hostname_scratch (uninit s 0 34) (w_hostname w);
     (b, n) \<leftarrow> line_of (w_hostname w);
     s \<leftarrow> ui_write fs_get_root ''etc/hostname'' b n s;
     (b, n) \<leftarrow> line_of (w_timezone w);
     s \<leftarrow> ui_write fs_get_root ''etc/timezone'' b n s;
     s \<leftarrow> ui_write_string fs_get_root ''etc/os-release'' installer_os_release s;
     (b, n) \<leftarrow> passwd_line (w_username w);
     s \<leftarrow> ui_write fs_get_root ''etc/passwd'' b n s;
     (b, n) \<leftarrow> group_line (w_username w);
     s \<leftarrow> ui_write fs_get_root ''etc/group'' b n s;
     s \<leftarrow> ui_write_string fs_get_root ''etc/motd'' installer_motd s;
     home_node \<leftarrow> fs_resolve (ui_nodes s) fs_get_root (Some ''home'');
     if home_node \<ge> 0 then do {
       u \<leftarrow> c_string (w_username w);
       hn \<leftarrow> fs_resolve (ui_nodes s) home_node (Some u);
       if hn \<ge> 0 then ui_write_string hn ''.bashrc'' installer_bashrc s else Some s }
     else Some s }"

subsection \<open>The installation\<close>

fun paint_pending :: "nat list \<Rightarrow> ('h, 'z) ui_scheme \<Rightarrow> ('h, 'z) ui_scheme option" where
  "paint_pending [] s = Some s"
| "paint_pending (i # is) s = do { s \<leftarrow> paint_step i 15 s; paint_pending is s }"

text \<open>The hint is UTF-8 in the source: a dash of three bytes.\<close>

definition stage_install ::
  "'h hw \<Rightarrow> blobs \<Rightarrow> wiz \<Rightarrow> ('h, 'z) ui_scheme \<Rightarrow> (('h, 'z) ui_scheme, int) outcome option" where
  "stage_install hw bl w s = do {
     header \<leftarrow> draw_header 7 7 ''Installing'';
     s \<leftarrow> paint (header @ clear_content @ [Str 2 CONT_TOP ''Installing FurOS 1.0...'' 7 0]
       @ draw_bottom (Some (''  Please wait '' @ [CHR 0xE2, CHR 0x80, CHR 0x94] @ '' do not power off.''))) s;
     s \<leftarrow> paint_pending [0..<5] s;
     s \<leftarrow> paint_progress 0 s;
     andthen (do_step 0 (disk_install_system hw bl) s) (\<lambda>_ s.
     andthen (do_step 1 (disk_format_fs hw) s) (\<lambda>_ s. do {
       s \<leftarrow> paint_step 2 11 s;
       s \<leftarrow> paint_progress 40 s;
       s \<leftarrow> install_directories w s;
       s \<leftarrow> paint_step 2 10 s;
       s \<leftarrow> paint_step 3 11 s;
       s \<leftarrow> paint_progress 65 s;
       s \<leftarrow> install_files w s;
       s \<leftarrow> paint_step 3 10 s;
       andthen (do_step 4 (disk_save_fs hw) s) (\<lambda>_ s. do {
         s \<leftarrow> paint_progress 100 s;
         Some (Done 1 s) }) })) }"

definition stage_complete :: "wiz \<Rightarrow> ('h, 'z) ui_scheme \<Rightarrow> (('h, 'z) ui_scheme, unit) outcome option" where
  "stage_complete w s = do {
     header \<leftarrow> draw_header 7 7 ''Complete'';
     host \<leftarrow> c_string (w_hostname w);
     user \<leftarrow> c_string (w_username w);
     zone \<leftarrow> c_string (w_timezone w);
     s \<leftarrow> paint (header @ clear_content
       @ [Fill_rect 2 CONT_TOP 76 1 CH_BLK 10 0, Str 4 CONT_TOP ''  Installation Complete!  '' 10 0,
          Fill_rect 2 (CONT_TOP + 1) 76 1 CH_BLK 10 0,
          Str 2 (CONT_TOP + 3) ''FurOS 1.0 has been installed successfully.'' 10 0,
          Str 2 (CONT_TOP + 5) ''To start using FurOS:'' 7 0,
          Str 4 (CONT_TOP + 6) ''1. Power off this computer'' 15 0,
          Str 4 (CONT_TOP + 7) ''2. Remove the installer ISO or USB drive'' 15 0,
          Str 4 (CONT_TOP + 8) (''3. Power on '' @ [CHR 0xE2, CHR 0x80, CHR 0x94] @ '' FurOS will boot from disk'') 15 0,
          Str 2 (CONT_TOP + 10) ''Installed as:'' 7 0,
          Str 4 (CONT_TOP + 11) ''Hostname : '' 15 0, Str 15 (CONT_TOP + 11) host 10 0,
          Str 4 (CONT_TOP + 12) ''Username : '' 15 0, Str 15 (CONT_TOP + 12) user 10 0,
          Str 4 (CONT_TOP + 13) ''Timezone : '' 15 0, Str 15 (CONT_TOP + 13) zone 10 0]
       @ draw_bottom (Some ''  ENTER: Halt system'')) s;
     andthen (any_key s) (\<lambda>_ s. Some (Done () s)) }"

text \<open>The line with the two numbers of the AHCI scan, in a buffer of 24 characters.\<close>

definition no_disk_counts :: "ata_debug \<Rightarrow> string option" where
  "no_disk_counts dbg = do {
     n1 \<leftarrow> u32_string (word_of_int (db_ahci_controllers_seen dbg)) 8;
     n2 \<leftarrow> u32_string (word_of_int (db_ahci_ports_considered dbg)) 8;
     (tmp, p) \<leftarrow> append_str (replicate 24 NUL) 0 22 n1;
     (tmp, p) \<leftarrow> put_chars tmp p ''/'';
     (tmp, p) \<leftarrow> append_str tmp p 22 n2;
     tmp \<leftarrow> wr tmp p NUL;
     c_string tmp }"

definition show_no_disk :: "('h, 'z) ui_scheme \<Rightarrow> (('h, 'z) ui_scheme, unit) outcome option" where
  "show_no_disk s = do {
     dbg \<leftarrow> ata_debug_state (d_ata (u_disk s)) (Some \<lparr>db_pci_host_id = 0, db_pci_ahci_slot_id = 0, db_pci_ahci_slot_class = 0,
       db_pci_ahci_slot_bar5 = 0, db_ahci_controllers_seen = 0, db_ahci_ports_considered = 0, db_ahci_devices_found = 0\<rparr>);
     header \<leftarrow> draw_header 0 0 ''Error'';
     h \<leftarrow> hex32_to_str (db_pci_host_id dbg) (replicate 12 NUL);
     host \<leftarrow> c_string h;
     h \<leftarrow> hex32_to_str (db_pci_ahci_slot_id dbg) h;
     slot \<leftarrow> c_string h;
     counts \<leftarrow> no_disk_counts dbg;
     s \<leftarrow> paint (header @ clear_content
       @ [Str 2 CONT_TOP ''No supported disk found!'' 12 0, Str 2 (CONT_TOP + 1) (disk_last_error (u_disk s)) 15 0,
          Str 2 (CONT_TOP + 3) ''PCI host bridge :'' 15 0, Str 21 (CONT_TOP + 3) host 11 0,
          Str 2 (CONT_TOP + 4) ''PCI 00:13.0 id  :'' 15 0, Str 21 (CONT_TOP + 4) slot 11 0,
          Str 2 (CONT_TOP + 5) ''AHCI seen/ports :'' 15 0, Str 21 (CONT_TOP + 5) counts 11 0,
          Str 2 (CONT_TOP + 7) ''Attach an ATA/SATA disk and restart the installer.'' 15 0]
       @ draw_bottom (Some ''  Press any key to halt.'')) s;
     andthen (any_key s) (\<lambda>_ s. Some (Halts s)) }"

subsection \<open>The wizard\<close>

text \<open>One stage of the loop of \<open>installer_run\<close>.\<close>

definition wizard_stage ::
  "'h hw \<Rightarrow> blobs \<Rightarrow> int \<Rightarrow> wiz \<Rightarrow> ('h, 'z) ui_scheme \<Rightarrow> (('h, 'z) ui_scheme, int \<times> wiz) outcome option" where
  "wizard_stage hw bl stage w s =
     (if stage = 0 then andthen (stage_welcome s) (\<lambda>r s. Some (Done (r, w) s))
      else if stage = 1 then stage_disk w s
      else if stage = 2 then stage_hostname w s
      else if stage = 3 then stage_timezone w s
      else if stage = 4 then stage_root_pw w s
      else if stage = 5 then stage_user w s
      else if stage = 6 then andthen (stage_summary w s) (\<lambda>r s. Some (Done (r, w) s))
      else if stage = 7 then andthen (stage_install hw bl w s) (\<lambda>r s. Some (Done (r, w) s))
      else Some (Done (-1, w) s))"

definition cancelled :: "('h, 'z) ui_scheme \<Rightarrow> (('h, 'z) ui_scheme, 'a) outcome option" where
  "cancelled s = do {
     s \<leftarrow> paint [Reset_viewport, Set_color 7 0, Clear, Write_string (Some (''Installer cancelled.'' @ [LF])),
       Write_string (Some (''Press any key to halt.'' @ [LF]))] s;
     case keyboard_getchar (u_kbd s) (u_polls s) of
       None \<Rightarrow> Some (Waits s)
     | Some (c, k, rest) \<Rightarrow> Some (Halts (s\<lparr>u_kbd := k, u_polls := rest\<rparr>)) }"

partial_function (option) wizard_loop ::
  "'h hw \<Rightarrow> blobs \<Rightarrow> int \<Rightarrow> wiz \<Rightarrow> ('h, 'z) ui_scheme \<Rightarrow> (('h, 'z) ui_scheme, unit) outcome option" where
  "wizard_loop hw bl stage w s =
     (if \<not> (stage \<ge> 0 \<and> stage \<le> 7) then andthen (stage_complete w s) (\<lambda>_ s. Some (Halts s))
      else andthen (wizard_stage hw bl stage w s) (\<lambda>(result, w) s.
        if result > 0 then wizard_loop hw bl (stage + 1) w s
        else if result = 0 then wizard_loop hw bl (if stage > 0 then stage - 1 else stage) w s
        else cancelled s))"

definition wiz_init :: "wiz option" where
  "wiz_init = do {
     host \<leftarrow> kstrcpy (replicate 32 NUL) (c_str ''furos'');
     zone \<leftarrow> kstrcpy (replicate 32 NUL) (c_str ''UTC'');
     user \<leftarrow> kstrcpy (replicate 32 NUL) (c_str ''debian'');
     Some \<lparr>w_disk_index = -1, w_hostname = host, w_timezone = zone, w_root_pw = replicate 64 NUL, w_username = user,
       w_user_pw = replicate 64 NUL\<rparr> }"

definition installer_run :: "'h hw \<Rightarrow> blobs \<Rightarrow> ('h, 'z) ui_scheme \<Rightarrow> (('h, 'z) ui_scheme, unit) outcome option" where
  "installer_run hw bl s = do {
     ns \<leftarrow> fs_init;
     d \<leftarrow> disk_init hw ((u_disk s)\<lparr>d_nodes := ns\<rparr>);
     s \<leftarrow> paint [Reset_viewport, Set_color 7 0, Clear] (s\<lparr>u_kbd := keyboard_init, u_disk := d\<rparr>);
     andthen (if disk_count (u_disk s) \<le> 0 then show_no_disk s else Some (Done () s)) (\<lambda>_ s. do {
       w \<leftarrow> wiz_init;
       wizard_loop hw bl 0 w s }) }"

end
