(* ===== verification/InstallerSafe.thy ===== *)
theory InstallerSafe
  imports UiSafe InstallerRun
begin

text \<open>
  The installer is safe: the drawing, the menu, the input field and the stages, under the interface
  \<^theory_text>\<open>ui_machine\<close>.
\<close>

subsection \<open>Drawing\<close>

lemma int_range_small: "- 100000 \<le> x \<Longrightarrow> x \<le> 100000 \<Longrightarrow> int_range x"
  by (simp add: int_range_def)

definition small :: "int \<Rightarrow> bool" where
  "small x \<longleftrightarrow> - 1000 \<le> x \<and> x \<le> 1000"

lemma box_safe: "calls_safe (box_top x y w)" "calls_safe (box_bot x y w)"
  by (auto simp: box_top_def box_bot_def)

lemma box_row_safe: "small x \<Longrightarrow> small y \<Longrightarrow> small w \<Longrightarrow> calls_safe (box_row x y w t fg bg)"
  by (auto simp: box_row_def Let_def small_def split: option.splits intro!: int_range_small)

lemma frame_safe [simp]: "calls_safe clear_content" "calls_safe (draw_bottom h)"
  by (auto simp: clear_content_def draw_bottom_def int_range_small split: option.splits)

lemma gives_header: "gives calls_safe (draw_header i n nm)"
proof -
  have b: "text_in 48 ((replicate 48 NUL)[0 := NUL])" by (rule text_in_put) (simp_all only: length_replicate)
  show ?thesis
    unfolding draw_header_def Let_def
    by (rule gives_bind [OF gives_wr], simp, (rule gives_bind [OF gives_str_cat] gives_bind [OF gives_u32_string] gives_bind [OF gives_c_string],
        use b in force)+) (auto simp: int_range_small)
qed

lemma gives_progress: "gives calls_safe (draw_progress y pct)"
  unfolding draw_progress_def Let_def
  by (rule gives_bind [OF gives_u32 [of 8]] gives_bind [OF gives_str_cat] gives_bind [OF gives_c_string] | simp | assumption)+ auto

subsection \<open>The menu\<close>

lemma gives_menu_line:
  assumes "5 \<le> w" "w \<le> 82"
  shows "gives nul_free (menu_line w b item)"
proof -
  have "nat (w - 2) \<le> 80" "3 \<le> nat (w - 2)" using assms by simp_all
  then show ?thesis
    unfolding menu_line_def
    by (intro gives_bind_pair [OF gives_put [of _ 81 _ _ 3]] gives_bind_pair [OF gives_append [of _ 81 _ _ 80]] gives_bind [OF gives_wr]
        gives_mono [OF gives_c_string [of 81]]) (auto simp: text_in_put)
qed

lemma gives_menu_rows:
  "5 \<le> w \<Longrightarrow> w \<le> 82 \<Longrightarrow> small x \<Longrightarrow> 0 \<le> y_top \<Longrightarrow> 0 \<le> i \<Longrightarrow> y_top + i + int (length items) < 1000 \<Longrightarrow>
    gives calls_safe (menu_rows x y_top w sel i items)"
proof (induction items arbitrary: i)
  case (Cons t items)
  have "small w" "small (y_top + 1 + i)" using Cons.prems by (simp_all add: small_def)
  with Cons.prems have "calls_safe (box_row x (y_top + 1 + i) w t fg bg)" for t fg bg by (intro box_row_safe)
  with Cons show ?case
    by (auto intro!: gives_bind [OF gives_menu_line] gives_bind [OF Cons.IH])
qed simp

definition menu_fits :: "int \<Rightarrow> int \<Rightarrow> int \<Rightarrow> string list \<Rightarrow> bool" where
  "menu_fits x y_top w items \<longleftrightarrow> 5 \<le> w \<and> w \<le> 82 \<and> small x \<and> 0 \<le> y_top \<and> y_top + int (length items) < 1000 \<and> items \<noteq> []"

lemma gives_menu: "menu_fits x y_top w items \<Longrightarrow> gives calls_safe (menu_calls x y_top w items sel)"
  unfolding menu_calls_def menu_fits_def
  by (rule gives_bind [OF gives_menu_rows]) (auto dest: box_safe(1)[THEN bspec] box_safe(2)[THEN bspec])

lemma gives_field:
  assumes "text_in n b" "len < n" "small x" "small y" "small w"
  shows "gives calls_safe (field_calls x y w b len masked)"
proof -
  have "gives (\<lambda>t. True) (slice b 0 (min (nat (w - 2)) len))"
    using assms(1,2) by (auto simp: text_in_def slice_def)
  then show ?thesis
    unfolding field_calls_def Let_def
    by (rule gives_bind) (use assms(3-5) in \<open>auto simp: small_def intro!: int_range_small dest: box_safe(1)[THEN bspec] box_safe(2)[THEN bspec]\<close>)
qed

context ui_machine
begin

lemma goes_menu_loop:
  assumes "menu_fits x y_top w items" "0 \<le> sel" "sel < int (length items)" "ok s"
  shows "goes ok (\<lambda>r t. -1 \<le> r \<and> r < int (length items) \<and> length (u_polls t) < length (u_polls s)) (menu_loop x y_top w items sel s) s"
  using assms(2-4)
proof (induction "length (u_polls s)" arbitrary: sel s rule: less_induct)
  case less
  let ?P = "\<lambda>r t. -1 \<le> r \<and> r < int (length items) \<and> length (u_polls t) < length (u_polls s)"
  have again: "goes ok ?P (menu_loop x y_top w items k u) u"
    if "length (u_polls u) < length (u_polls s)" "ok u" "0 \<le> k" "k < int (length items)" for u k
    using that by (intro goes_weaken [OF less(1)]) auto
  have key: "goes ok ?P (if key = KEY_UP \<and> sel > 0 then menu_loop x y_top w items (sel - 1) u
         else if key = KEY_DOWN \<and> sel < int (length items) - 1 then menu_loop x y_top w items (sel + 1) u
         else if key = 10 \<or> key = 13 then Some (Done sel u)
         else if key = 27 \<or> key = 113 \<or> key = 81 then Some (Done (-1) u)
         else menu_loop x y_top w items sel u) u"
    if "ok u" "length (u_polls u) < length (u_polls s)" for key u
    using that less(2,3) by (intro goes_if again) auto
  show ?case
    by (subst menu_loop.simps, rule goes_gives [OF gives_menu [OF assms(1)]], rule goes_steps [OF steps_paint [OF less(4)]],
        assumption, rule goes_key, erule moves_ok, rule key, erule moves_ok, simp add: moves_def)
qed

lemma goes_run_menu:
  assumes "menu_fits x y_top w items" "ok s"
  shows "goes ok (\<lambda>r t. -1 \<le> r \<and> r < int (length items) \<and> length (u_polls t) < length (u_polls s)) (run_menu x y_top w items i s) s"
proof -
  have "0 < int (length items)" using assms(1) by (simp add: menu_fits_def)
  then show ?thesis unfolding run_menu_def Let_def by (intro goes_menu_loop assms) auto
qed

lemma goes_input_loop:
  assumes "text_in n b" "len < n" "small x" "small y" "small w" "ok s"
  shows "goes ok (\<lambda>(rc, b) t. text_in n b \<and> length (u_polls t) < length (u_polls s)) (input_loop x y w masked b len s) s"
  using assms(1,2,6)
proof (induction "length (u_polls s)" arbitrary: b len s rule: less_induct)
  case less
  let ?P = "\<lambda>(rc :: int, b) t. text_in n b \<and> length (u_polls t) < length (u_polls s)"
  have again: "goes ok ?P (input_loop x y w masked b' k u) u"
    if "length (u_polls u) < length (u_polls s)" "ok u" "text_in n b'" "k < n" for u b' k
    using that by (intro goes_weaken [OF less(1)]) auto
  have wr: "wr b i c = Some (b[i := c])" "wr (b[j := d]) i c = Some (b[j := d, i := c])" if "i < n" for i c j d
    using that less(2) by (simp_all add: text_in_def)
  have put: "text_in n (b[i := NUL])" "text_in n (b[j := c, i := NUL])" if "i < n" for i j c
    using that less(2) by (auto intro!: text_in_put simp: text_in_def [of _ b])
  have n: "int (length b) = int n" using less(2) by (simp add: text_in_def)
  have key: "goes ok ?P (let c = char_of (nat (key mod 256)) in
         if key = 10 \<or> key = 13 then do { buf \<leftarrow> wr b len NUL; Some (Done (0, buf) u) }
         else if key = 27 then Some (Done (-1, b) u)
         else if key = 8 \<and> len > 0 then do { buf \<leftarrow> wr b (len - 1) NUL; input_loop x y w masked buf (len - 1) u }
         else if is_print c \<and> int len < int (length b) - 1 then do {
           buf \<leftarrow> wr b len c;
           buf \<leftarrow> wr buf (len + 1) NUL;
           input_loop x y w masked buf (len + 1) u }
         else input_loop x y w masked b len u) u"
    if "ok u" "length (u_polls u) < length (u_polls s)" for key u
    unfolding Let_def n using that less(2,3) put
    by (intro goes_if) (auto simp: wr less_imp_diff_less intro: again)
  show ?case
    by (subst input_loop.simps, rule goes_gives [OF gives_field [OF less(2,3) assms(3-5)]],
        rule goes_steps [OF steps_paint [OF less(4)]], assumption, rule goes_key, erule moves_ok, rule key, erule moves_ok, simp add: moves_def)
qed

lemma goes_run_input:
  assumes "text_in n b" "small x" "small y" "small w" "ok s"
  shows "goes ok (\<lambda>(rc, b) t. text_in n b \<and> length (u_polls t) < length (u_polls s)) (run_input x y w b masked s) s"
  unfolding run_input_def by (rule goes_gives [OF gives_c_string [OF assms(1)]]) (use assms in \<open>auto intro: goes_input_loop\<close>)

end

end
