(* ===== verification/InstallerStageSafe.thy ===== *)
theory InstallerStageSafe
  imports InstallerSafe
begin

text \<open>
  The stages of the installer that ask, under the invariant \<^theory_text>\<open>wizard_ok\<close>, with
  \<^theory_text>\<open>wiz_ok\<close> for the settings. Every one of them reads a key or cancels, which is why the wizard ends.
\<close>

subsection \<open>The invariant\<close>

text \<open>
  The last clause is about uninitialised memory: the array in which \<open>stage_install\<close> first puts the host name
  has a terminator beyond the longest host name; see \<^theory_text>\<open>hostname_scratch\<close>.
\<close>

definition wizard_ok :: "('h, 'z) ui_scheme \<Rightarrow> bool" where
  "wizard_ok s \<longleftrightarrow> disk_ok (u_disk s) \<and> vga_ok (u_vga s) \<and> (\<forall>m. u_junk s m 32 = NUL)"

interpretation wz: ui_system wizard_ok
  by unfold_locales (simp_all add: wizard_ok_def disk_keeps_def)

definition wiz_ok :: "wiz \<Rightarrow> bool" where
  "wiz_ok w \<longleftrightarrow> text_in 32 (w_hostname w) \<and> text_in 32 (w_timezone w) \<and> text_in 32 (w_username w)
     \<and> text_in 64 (w_root_pw w) \<and> text_in 64 (w_user_pw w)"

text \<open>What a stage does: it goes on or back having read a key, or cancels.\<close>

definition asked :: "('h, 'z) ui_scheme \<Rightarrow> int \<Rightarrow> ('h, 'z) ui_scheme \<Rightarrow> bool" where
  "asked s r t \<longleftrightarrow> r < 0 \<or> length (u_polls t) < length (u_polls s)"

abbreviation stage_goes :: "(('h, 'z) ui_scheme, int \<times> wiz) outcome option \<Rightarrow> ('h, 'z) ui_scheme \<Rightarrow> bool" where
  "stage_goes r s \<equiv> goes wizard_ok (\<lambda>(r, w) t. wiz_ok w \<and> asked s r t) r s"

lemma goes_asked: "goes wizard_ok (asked t) r t \<Longrightarrow> moves wizard_ok s t \<Longrightarrow> goes wizard_ok (asked s) r t"
  by (erule goes_weaken) (auto simp: asked_def moves_def)

lemma gives_info:
  assumes "disk_ok d"
  shows "gives (\<lambda>(r, out). text_in 41 (in_model (the out))) (disk_get_info d k (Some zero_info))"
proof -
  have "ata_ok (d_ata d)" using assms by (simp add: disk_ok_def)
  from ata_get_info_model [OF this zero_info_model, of k] obtain r j where
    j: "ata_get_info (d_ata d) k (Some zero_info) = Some (r, Some j)" "model_ok (in_model j)" by blast
  then have "text_in 41 (in_model j)" "text_in 41 (in_model zero_info)" "length (in_model zero_info) = 41"
    using zero_info_model by (auto simp: model_ok_def text_in_def)
  with j(1) show ?thesis by (simp add: disk_get_info_def kmemcpy_eq text_in_def)
qed

subsection \<open>Welcome\<close>

lemma goes_welcome_loop: "wizard_ok s \<Longrightarrow> goes wizard_ok (asked s) (welcome_loop n s) s"
proof (induction "length (u_polls s)" arbitrary: s rule: less_induct)
  case less
  have again: "goes wizard_ok (asked s) (welcome_loop n u) u"
    if "moves wizard_ok s u" "length (u_polls u) < length (u_polls s)" for u
    using that by (intro goes_weaken [OF less(1)]) (auto simp: asked_def moves_def)
  show ?case
    by (subst welcome_loop.simps, rule wz.goes_key [OF less(2)]) (auto simp: asked_def intro!: goes_if again dest: moves_ok)
qed

lemma goes_welcome: "wizard_ok s \<Longrightarrow> goes wizard_ok (asked s) (stage_welcome s) s"
  unfolding stage_welcome_def Let_def
  by (rule goes_gives [OF gives_header], rule goes_gives [OF gives_u32_string], simp, rule goes_steps [OF wz.steps_paint])
    (auto simp: int_range_small intro: goes_asked goes_welcome_loop moves_ok [where ok = wizard_ok])

subsection \<open>Disk selection\<close>

lemma gives_hex16: "gives (text_in 8) (hex16_to_str v (replicate 8 NUL))"
  unfolding hex16_to_str_def
  by (rule gives_bind_pair [OF gives_put_end [where n = 8]]) (simp_all del: put_chars.simps)

text \<open>The part that names the interface fits 45 characters.\<close>

lemma gives_interface:
  assumes "length ln = 64" "p \<le> 20"
  shows "gives (\<lambda>(b, p). length b = 64 \<and> p \<le> 45)
    (if in_interface_type di = 1 then append_str ln p 62 ''AHCI  ''
         else do {
           (ln, p) \<leftarrow> append_str ln p 62 (if in_slave di \<noteq> 0 then ''IDE Slave  io='' else ''IDE Master io='');
           hbuf \<leftarrow> hex16_to_str (in_io_base di) (replicate 8 NUL);
           h \<leftarrow> c_string hbuf;
           (ln, p) \<leftarrow> append_str ln p 62 h;
           put_chars ln p ''  '' })"
proof (rule gives_if)
  show "gives (\<lambda>(b, p). length b = 64 \<and> p \<le> 45) (append_str ln p 62 ''AHCI  '')"
    by (rule gives_mono, rule gives_append1 [OF assms(1)]) (use assms(2) in auto)
  have "length (if in_slave di \<noteq> 0 then ''IDE Slave  io='' else ''IDE Master io='') = 14" by simp
  then show "gives (\<lambda>(b, p). length b = 64 \<and> p \<le> 45)
     (do { (ln, p) \<leftarrow> append_str ln p 62 (if in_slave di \<noteq> 0 then ''IDE Slave  io='' else ''IDE Master io='');
           hbuf \<leftarrow> hex16_to_str (in_io_base di) (replicate 8 NUL);
           h \<leftarrow> c_string hbuf;
           (ln, p) \<leftarrow> append_str ln p 62 h;
           put_chars ln p ''  '' })"
    using assms(2)
    by (intro gives_bind_pair [OF gives_append1 [where n = 64]] gives_bind [OF gives_hex16] gives_bind [OF gives_c_string]
        gives_mono [OF gives_put1 [where n = 64]]) (auto simp: assms(1) simp del: append_str.simps)
qed

lemma gives_disk_line:
  assumes "disk_ok d"
  shows "gives nul_free (disk_line d i)"
proof -
  have unknown: "gives nul_free (do { (ln, _) \<leftarrow> put_chars (replicate 64 NUL) 0 [CHR ''?'', NUL]; c_string ln })"
    by (rule gives_bind_pair [OF gives_put_end [where n = 64]])
      (auto intro: gives_mono [OF gives_c_string [where n = 64]] simp del: put_chars.simps)
  show ?thesis
    unfolding disk_line_def Let_def
    by (rule gives_bind_pair [OF gives_info [OF assms]], rule gives_if, rule unknown,
        rule gives_bind_pair [OF gives_put1 [where n = 64]], rule length_replicate, simp,
        rule gives_bind [OF gives_u32_string], simp, rule gives_bind_pair [OF gives_append1 [where n = 64]], simp, simp, simp,
        rule gives_bind_pair [OF gives_put1 [where n = 64]], simp, simp, rule gives_bind_pair [OF gives_interface], simp, simp,
        rule gives_bind [OF gives_u32_string], simp,
        rule gives_bind_pair [OF gives_append1 [where n = 64]], simp, simp, simp,
        rule gives_bind_pair [OF gives_append1 [where n = 64]], simp, simp, simp,
        rule gives_bind [OF gives_c_string], simp,
        rule gives_bind_pair [OF gives_append1 [where n = 64]], simp, simp, simp,
        rule gives_bind [OF gives_wr], simp, rule gives_mono [OF gives_c_string [where n = 64]]) (simp_all add: text_in_put)
qed

lemma gives_disk_lines: "disk_ok d \<Longrightarrow> gives (\<lambda>ls. length ls = length is) (disk_lines d is)"
  by (induction "is") (auto intro!: gives_bind [OF gives_disk_line] elim!: gives_bind)

lemma select_keeps: "disk_ok d \<Longrightarrow> \<exists>r d'. disk_select d k = Some (r, d') \<and> disk_keeps d d'"
  using disk_select_safe [of d k] by (auto simp: disk_keeps_def)

text \<open>What follows the menu of disks.\<close>

lemma goes_selected:
  assumes "wizard_ok s" "wiz_ok w" "length (u_polls s) < length (u_polls s0)"
  shows "goes wizard_ok (\<lambda>(r, w) t. wiz_ok w \<and> asked s0 r t)
    (do {
           (r, s) \<leftarrow> ui_dsk (\<lambda>d. disk_select d sel) s;
           if r \<noteq> 0 then do {
             s \<leftarrow> paint [Str 2 y ''Cannot select disk! Press any key.'' 12 0] s;
             andthen (any_key s) (\<lambda>_ s. Some (Done (0, w) s)) }
           else Some (Done (1, w\<lparr>w_disk_index := sel\<rparr>) s) }) s"
proof (rule wz.goes_dsk [OF assms(1)])
  show "\<exists>r d. disk_select (u_disk s) sel = Some (r, d) \<and> disk_keeps (u_disk s) d"
    using assms(1) by (intro select_keeps) (simp add: wizard_ok_def)
  fix r t assume t: "moves wizard_ok s t"
  then show "goes wizard_ok (\<lambda>(r, w) t. wiz_ok w \<and> asked s0 r t)
     (if r \<noteq> (0 :: int) then do {
             s \<leftarrow> paint [Str 2 y ''Cannot select disk! Press any key.'' 12 0] t;
             andthen (any_key s) (\<lambda>_ s. Some (Done (0, w) s)) }
           else Some (Done (1, w\<lparr>w_disk_index := sel\<rparr>) t)) t"
    using assms(2,3)
    by (intro goes_if goes_steps [OF wz.steps_paint] goes_andthen [OF wz.goes_any_key]) (auto simp: wiz_ok_def asked_def moves_def)
qed

lemma goes_disk:
  assumes "wizard_ok s" "wiz_ok w"
  shows "stage_goes (stage_disk w s) s"
proof (cases "disk_count (u_disk s) \<le> 0 \<or> disk_count (u_disk s) > 16")
  case True
  with assms show ?thesis by (simp add: stage_disk_def asked_def Let_def)
next
  case False
  define n where "n = disk_count (u_disk s)"
  have fits: "menu_fits 2 (CONT_TOP + 3) (SCR_W - 4) items" if "length items = length [0..n - 1]" for items :: "string list"
    using that False by (auto simp: menu_fits_def small_def n_def)
  have ok: "disk_ok (u_disk s)" using assms(1) by (simp add: wizard_ok_def)
  have asked: "asked s 0 t" if "length (u_polls t) < length (u_polls u)" "moves wizard_ok s u" for t u :: "('a, 'b) ui_scheme"
    using that by (simp add: asked_def moves_def)
  show ?thesis
    unfolding stage_disk_def Let_def n_def [symmetric]
    by (rule goes_if, use False in \<open>simp add: n_def\<close>, rule goes_gives [OF gives_disk_lines [OF ok]], rule goes_gives [OF gives_header],
        rule goes_steps [OF wz.steps_paint [OF assms(1)]], (auto simp: int_range_small)[1], rule goes_andthen [OF wz.goes_run_menu [OF fits]],
        assumption, erule moves_ok, rule goes_if)
      (use assms(2) in \<open>auto intro: moves_ok [where ok = wizard_ok] asked intro!: goes_selected simp: moves_def\<close>)
qed

subsection \<open>Host name and time zone\<close>

lemma goes_hostname:
  assumes "wizard_ok s" "wiz_ok w"
  shows "stage_goes (stage_hostname w s) s"
  unfolding stage_hostname_def
  by (rule goes_gives [OF gives_header], rule goes_steps [OF wz.steps_paint [OF assms(1)]], (auto simp: int_range_small)[1],
      rule goes_gives [OF gives_rd [where n = 32]], use assms(2) in \<open>simp add: wiz_ok_def\<close>, simp,
      rule goes_gives [OF gives_default [where n = 32]], use assms(2) in \<open>simp add: wiz_ok_def\<close>, simp, simp,
      rule goes_andthen_pair [OF wz.goes_run_input [where n = 32]], assumption, simp add: small_def, simp add: small_def,
      simp add: small_def, erule moves_ok, rule goes_if)
    (use assms(2) in \<open>auto simp: wiz_ok_def asked_def moves_def
      intro!: goes_gives [OF gives_rd [where n = 32]] goes_gives [OF gives_default [where n = 32]]\<close>)

lemma gives_find_zone:
  "text_in 32 tz \<Longrightarrow> \<forall>z \<in> set zs. nul_free z \<Longrightarrow> gives (\<lambda>_. True) (find_zone zs i tz)"
  by (induction zs arbitrary: i) (auto intro!: gives_bind [OF gives_strcmp [where m = "Suc (length z)" for z]] gives_if text_in_c_str)

lemma tzones_fit: "\<forall>z \<in> set tzones. nul_free z \<and> length z < 32"
  by (simp add: tzones_def)

lemma goes_timezone:
  assumes "wizard_ok s" "wiz_ok w"
  shows "stage_goes (stage_timezone w s) s"
proof -
  have "menu_fits 2 (CONT_TOP + 2) (SCR_W - 4) tzones" by (simp add: menu_fits_def small_def tzones_def)
  note menu = wz.goes_run_menu [OF this]
  have zone: "gives (\<lambda>z. nul_free z \<and> length z < 32) (rd tzones (nat sel))" if "sel < int (length tzones)" "\<not> sel < 0" for sel
    using that tzones_fit by (auto simp: gives_def rd_def)
  have w: "text_in 32 (w_timezone w)" using assms(2) by (simp add: wiz_ok_def)
  show ?thesis
    unfolding stage_timezone_def
    by (rule goes_gives [OF gives_find_zone [OF w]], use tzones_fit in blast, rule goes_gives [OF gives_header],
        rule goes_steps [OF wz.steps_paint [OF assms(1)]], (auto simp: int_range_small)[1],
        rule goes_andthen [OF menu], erule moves_ok, rule goes_if)
      (use assms(2) in \<open>auto simp: wiz_ok_def asked_def moves_def w
        intro!: goes_gives [OF zone] goes_gives [OF gives_strcpy [where n = 32]]\<close>)
qed

subsection \<open>Passwords and user\<close>

text \<open>An input field that gets the value back, as the two stages use it.\<close>

lemma goes_field:
  assumes "text_in n b" "0 < n" "small x" "small y" "small v" "wizard_ok s"
    "\<And>rc b t. moves wizard_ok s t \<Longrightarrow> length (u_polls t) < length (u_polls s) \<Longrightarrow> text_in n b \<Longrightarrow> goes wizard_ok Q (f rc b t) t"
  shows "goes wizard_ok Q (andthen (run_input x y v b m s) (\<lambda>(rc, b). f rc b)) s"
  by (rule goes_andthen_pair [OF wz.goes_run_input [OF assms(1,3-6)]]) (auto intro: assms(7))

lemma goes_retry:
  assumes "wizard_ok s" "calls_safe calls" "text_in 64 pw"
    "\<And>t b. moves wizard_ok s t \<Longrightarrow> length (u_polls t) < length (u_polls s) \<Longrightarrow> text_in 64 b \<Longrightarrow> goes wizard_ok Q (f b t) t"
  shows "goes wizard_ok Q (do {
      s \<leftarrow> paint calls s;
      andthen (any_key s) (\<lambda>_ s. do { b \<leftarrow> wr pw 0 NUL; f b s }) }) s"
  by (rule goes_steps [OF wz.steps_paint [OF assms(1,2)]], rule goes_andthen [OF wz.goes_any_key], erule moves_ok,
      rule goes_gives [OF gives_wr_first [OF assms(3)]]) (auto intro!: assms(4) simp: moves_def)

text \<open>The confirmation that ends both stages.\<close>

lemma goes_confirm:
  assumes "wizard_ok s" "small y" "text_in 64 pw" "calls_safe calls"
    "\<And>t b. moves wizard_ok s t \<Longrightarrow> length (u_polls t) < length (u_polls s) \<Longrightarrow> text_in 64 b \<Longrightarrow> goes wizard_ok P (f b t) t"
    "\<And>r t. r = 0 \<or> r = 1 \<Longrightarrow> moves wizard_ok s t \<Longrightarrow> length (u_polls t) < length (u_polls s) \<Longrightarrow> P (r, w) t"
  shows "goes wizard_ok P (do {
         confirm \<leftarrow> wr (replicate 64 NUL) 0 NUL;
         andthen (run_input 2 y 44 confirm True s) (\<lambda>(rc, confirm) s.
           if rc < 0 then Some (Done (0, w) s)
           else do {
             r \<leftarrow> kstrcmp pw confirm;
             if r \<noteq> 0 then do {
               s \<leftarrow> paint calls s;
               andthen (any_key s) (\<lambda>_ s. do { pw \<leftarrow> wr pw 0 NUL; f pw s }) }
             else Some (Done (1, w) s) }) }) s"
  by (rule goes_gives [OF gives_wr_first [OF text_in_replicate]], simp, simp, rule goes_field, assumption, simp,
      simp add: small_def, rule assms(2), simp add: small_def, rule assms(1), rule goes_if, simp add: assms(6) moves_ok,
      rule goes_gives [OF gives_strcmp [OF assms(3)]], assumption, rule goes_if, rule goes_retry [OF _ assms(4,3)], erule moves_ok,
      rule assms(5)) (auto intro: assms(6) moves_trans simp: moves_def)

lemma goes_root_pw: "wizard_ok s \<Longrightarrow> wiz_ok w \<Longrightarrow> stage_goes (stage_root_pw w s) s"
proof (induction "length (u_polls s)" arbitrary: s w rule: less_induct)
  case less
  have again: "goes wizard_ok (\<lambda>(r, w) t. wiz_ok w \<and> (r < 0 \<or> length (u_polls t) < length (u_polls s))) (stage_root_pw w' u) u"
    if "wizard_ok u" "length (u_polls u) < length (u_polls s)" "wiz_ok w'" for u :: "('a, 'b) ui_scheme" and w'
    using that by (intro goes_weaken [OF less(1)]) (auto simp: asked_def moves_def)
  have w: "text_in 64 (w_root_pw w)" "wiz_ok (w\<lparr>w_root_pw := pw\<rparr>) \<longleftrightarrow> text_in 64 pw" for pw
    using less(3) by (simp_all add: wiz_ok_def)
  show ?case
    unfolding stage_root_pw.simps [of w s] Let_def
    by (rule goes_gives [OF gives_header], rule goes_steps [OF wz.steps_paint [OF less(2)]], (auto simp: int_range_small)[1],
        rule goes_gives [OF gives_rd [where n = 64]], rule w(1), simp, rule goes_gives [OF gives_default [where n = 64]], rule w(1), simp, simp,
        rule goes_field [where n = 64], assumption, simp, simp add: small_def, simp add: small_def, simp add: small_def, erule moves_ok,
        rule goes_if, simp add: w asked_def moves_def, rule goes_confirm [where w = "w\<lparr>w_root_pw := pw\<rparr>" for pw])
      (auto simp: w asked_def moves_def int_range_small small_def intro: again)
qed

text \<open>The second half of \<open>stage_user\<close>, after the user name.\<close>

lemma goes_user_pw:
  assumes "wizard_ok s" "wiz_ok w" "length (u_polls s) < length (u_polls s0)"
    "\<And>(u :: ('a, 'b) ui_scheme) w'. wizard_ok u \<Longrightarrow> length (u_polls u) < length (u_polls s) \<Longrightarrow> wiz_ok w' \<Longrightarrow>
      goes wizard_ok (\<lambda>(r, w) t. wiz_ok w \<and> asked s0 r t) (f w' u) u"
  shows "goes wizard_ok (\<lambda>(r, w) t. wiz_ok w \<and> asked s0 r t) (do {
         c \<leftarrow> rd (w_user_pw w) 0;
         pw \<leftarrow> (if c = NUL then kstrcpy (w_user_pw w) (c_str []) else Some (w_user_pw w));
         andthen (run_input 2 (CONT_TOP + 9) 44 pw True s) (\<lambda>(rc, pw) s.
           let w = w\<lparr>w_user_pw := pw\<rparr> in
           if rc < 0 then Some (Done (0, w) s)
           else do {
             confirm \<leftarrow> wr (replicate 64 NUL) 0 NUL;
             andthen (run_input 2 (CONT_TOP + 13) 44 confirm True s) (\<lambda>(rc, confirm) s.
               if rc < 0 then Some (Done (0, w) s)
               else do {
                 r \<leftarrow> kstrcmp (w_user_pw w) confirm;
                 if r \<noteq> 0 then do {
                   s \<leftarrow> paint [Fill_rect 2 (CONT_TOP + 15) 60 1 BLANK 12 0,
                     Str 2 (CONT_TOP + 15) ''Passwords do not match! Press any key to try again.'' 12 0] s;
                   andthen (any_key s) (\<lambda>_ s. do {
                     pw \<leftarrow> wr (w_user_pw w) 0 NUL;
                     f (w\<lparr>w_user_pw := pw\<rparr>) s }) }
                 else Some (Done (1, w) s) }) }) }) s"
proof -
  have w: "text_in 64 (w_user_pw w)" "wiz_ok (w\<lparr>w_user_pw := pw\<rparr>) \<longleftrightarrow> text_in 64 pw" for pw
    using assms(2) by (simp_all add: wiz_ok_def)
  show ?thesis
    unfolding Let_def
    by (rule goes_gives [OF gives_rd [where n = 64]], rule w(1), simp, rule goes_gives [OF gives_default [where n = 64]], rule w(1), simp, simp,
        rule goes_field [where n = 64], assumption, simp, simp add: small_def, simp add: small_def, simp add: small_def, rule assms(1),
        rule goes_if, use assms(3) in \<open>simp add: w asked_def moves_def\<close>, rule goes_confirm [where w = "w\<lparr>w_user_pw := pw\<rparr>" for pw])
      (use assms(3) in \<open>auto simp: w asked_def moves_def int_range_small small_def intro: assms(4) [unfolded asked_def]\<close>)
qed

lemma goes_user: "wizard_ok s \<Longrightarrow> wiz_ok w \<Longrightarrow> stage_goes (stage_user w s) s"
proof (induction "length (u_polls s)" arbitrary: s w rule: less_induct)
  case less
  have again: "goes wizard_ok (\<lambda>(r, w) t. wiz_ok w \<and> asked s r t) (stage_user w' u) u"
    if "wizard_ok u" "length (u_polls u) < length (u_polls s)" "wiz_ok w'" for u :: "('a, 'b) ui_scheme" and w'
    using that by (intro goes_weaken [OF less(1)]) (auto simp: asked_def moves_def)
  have w: "text_in 32 (w_username w)" "wiz_ok (w\<lparr>w_username := b\<rparr>) \<longleftrightarrow> text_in 32 b" for b
    using less(3) by (simp_all add: wiz_ok_def)
  show ?case
    unfolding stage_user.simps [of w s] Let_def
    by (rule goes_gives [OF gives_header], rule goes_steps [OF wz.steps_paint [OF less(2)]], (auto simp: int_range_small)[1],
        rule goes_gives [OF gives_rd [where n = 32]], rule w(1), simp, rule goes_gives [OF gives_default [where n = 32]], rule w(1), simp, simp,
        rule goes_field [where n = 32], assumption, simp, simp add: small_def, simp add: small_def, simp add: small_def, erule moves_ok,
        rule goes_if, simp add: w asked_def moves_def, rule goes_gives [OF gives_c_string [where n = 32]], assumption,
        rule goes_gives [OF gives_default [where n = 32]], assumption, simp, simp, rule goes_user_pw [unfolded Let_def])
      (auto simp: w asked_def [of _ "-1"] moves_def intro: again)
qed

subsection \<open>Summary\<close>

lemma gives_summary_disk:
  assumes "text_in 41 (in_model di)"
  shows "gives (\<lambda>_. True) (summary_disk di i)"
  unfolding summary_disk_def
  by (rule gives_bind [OF gives_u32_string], simp, rule gives_bind_pair [OF gives_put1 [where n = 48]], rule length_replicate, simp,
      rule gives_bind_pair [OF gives_append1 [where n = 48]], simp, simp, simp,
      rule gives_bind_pair [OF gives_put1 [where n = 48]], simp, simp, rule gives_bind [OF gives_u32_string], simp,
      rule gives_bind_pair [OF gives_append1 [where n = 48]], simp, simp, simp,
      rule gives_bind_pair [OF gives_append1 [where n = 48]], simp, simp, simp,
      rule gives_bind [OF gives_c_string [OF assms]], rule gives_bind_pair [where P = "\<lambda>(b, p). length b = 48 \<and> p \<le> 46"], rule gives_if,
      rule gives_bind_pair [OF gives_put1 [where n = 48]], simp, simp, rule gives_mono [OF gives_append1 [where n = 48]], simp, simp, simp,
      force, simp, rule gives_bind [OF gives_wr], simp, rule gives_mono [OF gives_c_string [where n = 48]])
    (simp_all add: text_in_put)

lemma gives_pw_field: "text_in 64 pw \<Longrightarrow> gives calls_safe (pw_field y pw)"
  unfolding pw_field_def by (rule gives_bind [OF gives_rd [where n = 64]]) auto

lemma goes_summary:
  assumes "wizard_ok s" "wiz_ok w"
  shows "goes wizard_ok (asked s) (stage_summary w s) s"
proof -
  have w: "text_in 32 (w_hostname w)" "text_in 32 (w_timezone w)" "text_in 32 (w_username w)" "text_in 64 (w_root_pw w)"
      "text_in 64 (w_user_pw w)" and ok: "disk_ok (u_disk s)"
    using assms by (simp_all add: wiz_ok_def wizard_ok_def)
  have disk: "gives calls_safe (if r = 0 \<and> in_present (the out)
       then do { t \<leftarrow> summary_disk (the out) (w_disk_index w); Some [Str 20 (CONT_TOP + 3) t 10 0] } else Some [])"
    if "text_in 41 (in_model (the out))" for r :: int and out
    using gives_summary_disk [OF that, of "w_disk_index w"] by (auto simp: gives_def)
  show ?thesis
    unfolding stage_summary_def
    by (rule goes_gives [OF gives_header], rule goes_gives_pair [OF gives_info [OF ok]], rule goes_gives [OF disk], simp,
        rule goes_gives [OF gives_c_string [OF w(1)]], rule goes_gives [OF gives_c_string [OF w(2)]],
        rule goes_gives [OF gives_pw_field [OF w(4)]], rule goes_gives [OF gives_c_string [OF w(3)]],
        rule goes_gives [OF gives_pw_field [OF w(5)]], rule goes_steps [OF wz.steps_paint [OF assms(1)]],
        (auto simp: int_range_small)[1], rule goes_gives [OF gives_wr_first [OF text_in_replicate [where n = 8]]], simp, simp,
        rule goes_field [where n = 8], assumption, simp, simp add: small_def, simp add: small_def, simp add: small_def, erule moves_ok,
        rule goes_if, simp add: asked_def moves_def, rule goes_gives [OF gives_strcmp [OF _ text_in_c_str [OF refl]]], assumption,
        rule goes_gives [OF gives_strcmp [OF _ text_in_c_str [OF refl]]], assumption)
      (auto simp: asked_def moves_def)
qed

end
