(* ===== verification/InstallerRunSafe.thy ===== *)
theory InstallerRunSafe
  imports InstallerStageSafe ShellRunSafe
begin

text \<open>
  The installation and the wizard: writing the system, the directories and the files of
  \<open>stage_install\<close>, and the loop over the stages.
\<close>

subsection \<open>Steps of the installation\<close>

lemma step_labels_length: "length step_labels = 5"
  by (simp add: step_labels_def)

lemma gives_mark: "gives calls_safe (mark_step y label col)" if "small y" for label
  unfolding mark_step_def
  by (rule gives_bind_pair [OF gives_put1 [where n = 81]], rule length_replicate, simp,
      rule gives_bind_pair [OF gives_append1 [where n = 81]], simp, simp, simp,
      rule gives_bind [OF gives_wr], simp, rule gives_bind [OF gives_c_string [where n = 81]], simp add: text_in_put)
    (use that in \<open>auto simp: small_def intro: int_range_small\<close>)

lemma steps_mark: "wizard_ok s \<Longrightarrow> idx < 5 \<Longrightarrow> steps wizard_ok (paint_step idx col s) s"
  unfolding paint_step_def by (rule steps_gives [OF gives_mark]) (auto simp: small_def intro: wz.steps_paint)

lemma steps_progress: "wizard_ok s \<Longrightarrow> steps wizard_ok (paint_progress pct s) s"
  unfolding paint_progress_def by (rule steps_gives [OF gives_progress]) (auto intro: wz.steps_paint)

lemma steps_pending: "wizard_ok s \<Longrightarrow> \<forall>i \<in> set is. i < 5 \<Longrightarrow> steps wizard_ok (paint_pending is s) s"
  by (induction "is" arbitrary: s) (auto intro!: steps_bind steps_mark dest: moves_ok)

lemma goes_do_step:
  assumes "wizard_ok s" "idx < 5" "\<And>d. disk_ok d \<Longrightarrow> \<exists>r d'. f d = Some (r, d') \<and> disk_keeps d d'"
  shows "goes wizard_ok (\<lambda>_ _. True) (do_step idx f s) s"
  unfolding do_step_def
  by (rule goes_steps [OF steps_mark [OF assms(1,2)]], rule goes_steps [OF steps_progress], erule moves_ok,
      rule wz.goes_dsk, erule moves_ok, rule assms(3), simp add: moves_def wizard_ok_def, rule goes_if,
      rule goes_steps [OF steps_mark [OF _ assms(2)]], erule moves_ok, rule goes_steps [OF wz.steps_paint], erule moves_ok,
      (auto)[1], rule goes_andthen [OF wz.goes_any_key], erule moves_ok, simp add: moves_def,
      rule goes_steps [OF steps_mark [OF _ assms(2)]], erule moves_ok)
    (simp_all add: moves_def)

lemma disk_steps:
  assumes "disk_ok d"
  shows "\<exists>r d'. disk_install_system hw bl d = Some (r, d') \<and> disk_keeps d d'"
    "\<exists>r d'. disk_format_fs hw d = Some (r, d') \<and> disk_keeps d d'"
    "\<exists>r d'. disk_save_fs hw d = Some (r, d') \<and> disk_keeps d d'"
  using disk_install_safe [OF assms, of hw bl] disk_format_safe [OF assms, of hw] disk_save_safe [OF assms, of hw] disk_keeps_same
  by blast+

subsection \<open>Directories and files\<close>

lemma text_nul_free [simp]: "nul_free installer_os_release" "nul_free installer_motd" "nul_free installer_bashrc"
  by (simp_all add: installer_os_release_def installer_motd_def installer_bashrc_def logo_def)

lemma steps_directories:
  assumes "wizard_ok s" "wiz_ok w"
  shows "steps wizard_ok (install_directories w s) s"
proof -
  have mk: "steps wizard_ok (ui_mkdir 0 p owner mode t \<bind> f) t"
    if "wizard_ok t" "nul_free p" "\<And>u. wizard_ok u \<Longrightarrow> steps wizard_ok (f u) u" for t :: "('a, 'b) ui_scheme" and p owner mode f
    using that by (intro steps_bind wz.steps_root) (auto simp: at_root dest: moves_ok)
  have w: "text_in 32 (w_username w)" using assms(2) by (simp add: wiz_ok_def)
  then have "gives (text_in 48) (kstrcpy (replicate 48 NUL) (w_username w))"
  proof -
    have c: "NUL \<in> set (w_username w)" "length (w_username w) = 32" using w by (simp_all add: text_in_def)
    obtain t where "w_username w = cstr (w_username w) @ NUL # t" using cstr_split [OF c(1)] by blast
    moreover have "length (cstr (w_username w)) < length (replicate 48 NUL)" using length_cstr_less [OF c(1)] c(2) by simp
    ultimately show ?thesis
      using kstrcpy_eq [of "cstr (w_username w)" "replicate 48 NUL" t] by (auto simp: gives_def text_in_def)
  qed
  note home = this
  show ?thesis
    unfolding install_directories_def fs_get_root_def
    by (rule mk, rule assms(1), simp)
      (rule mk steps_gives [OF wz.gives_resolve] steps_gives [OF home] steps_gives [OF gives_c_string [where n = 48]] steps_if
        wz.steps_mkdir | assumption | simp add: at_root)+
qed

text \<open>The first buffer of the host name is defined exactly if one of its unused cells holds a terminator.\<close>

lemma hostname_scratch_iff:
  assumes "text_in 32 host" "length hn = 34"
  shows "hostname_scratch hn host \<noteq> None \<longleftrightarrow> (\<exists>i. length (cstr host) < i \<and> i \<le> 32 \<and> hn ! i = NUL)"
proof -
  define h r where "h = cstr host" and "r = drop (Suc (length h)) hn"
  have c: "NUL \<in> set host" "length host = 32" using assms(1) by (simp_all add: text_in_def)
  obtain t where t: "host = h @ NUL # t" using cstr_split [OF c(1)] unfolding h_def by blast
  have h: "length h < 32" "nul_free h" using length_cstr_less [OF c(1)] c(2) by (simp_all add: h_def)
  have r: "length r = 33 - length h" using assms(2) h(1) by (simp add: r_def)
  have at: "r ! (i - Suc (length h)) = hn ! i" if "length h < i" "i < 34" for i
    using that assms(2) by (simp add: r_def)
  have copy: "kstrcpy hn host = Some (h @ NUL # r)"
    using kstrcpy_eq [OF h(2), of hn t] h(1) assms(2) t by (simp add: r_def)
  have full: "hostname_scratch hn host = do { t \<leftarrow> c_string (h @ LF # r); wr (h @ LF # r) (length t + 1) NUL }"
    using h copy by (simp add: hostname_scratch_def c_string_def nul_free_def)
  show ?thesis
  proof (cases "NUL \<in> set r")
    case True
    obtain t' where t': "r = cstr r @ NUL # t'" using cstr_split [OF True] by blast
    have "nul_free (h @ LF # cstr r)" using h(2) by simp
    from cstr_append_NUL [OF this, of t'] t' have "cstr (h @ LF # r) = h @ LF # cstr r" by simp
    then have cs: "c_string (h @ LF # r) = Some (h @ LF # cstr r)" using True by (simp add: c_string_def)
    have "hostname_scratch hn host \<noteq> None \<longleftrightarrow> length h + 2 + length (cstr r) < 34"
      using full cs r h(1) by (simp add: wr_def)
    also have "\<dots> \<longleftrightarrow> (\<exists>i. length h < i \<and> i \<le> 32 \<and> hn ! i = NUL)"
    proof
      assume l: "length h + 2 + length (cstr r) < 34"
      have "hn ! (Suc (length h) + length (cstr r)) = NUL"
        using cstr_first(1) [OF True] at [of "Suc (length h) + length (cstr r)"] l by simp
      with l show "\<exists>i. length h < i \<and> i \<le> 32 \<and> hn ! i = NUL" by (intro exI [of _ "Suc (length h) + length (cstr r)"]) simp
    next
      assume "\<exists>i. length h < i \<and> i \<le> 32 \<and> hn ! i = NUL"
      then obtain i where i: "length h < i" "i \<le> 32" "hn ! i = NUL" by blast
      then have "length (cstr r) \<le> i - Suc (length h)"
        using cstr_first(2) [OF True, of "i - Suc (length h)"] at [of i] r by simp
      with i show "length h + 2 + length (cstr r) < 34" by simp
    qed
    finally show ?thesis by (simp add: h_def)
  next
    case False
    then have none: "c_string (h @ LF # r) = None" using h(2) by (auto simp: c_string_def nul_free_def)
    have "hn ! i \<noteq> NUL" if "length h < i" "i \<le> 32" for i
    proof -
      have "i - Suc (length h) < length r" using that r by linarith
      from nth_mem [OF this] False show ?thesis using at [of i] that by auto
    qed
    with full none show ?thesis by (auto simp: h_def)
  qed
qed

lemma gives_scratch:
  assumes "wizard_ok s" "text_in 32 host"
  shows "gives (\<lambda>_. True) (hostname_scratch (uninit s 0 34) host)"
proof -
  have "length (uninit s 0 34) = 34" "uninit s 0 34 ! 32 = NUL" using assms(1) by (simp_all add: uninit_def wizard_ok_def)
  moreover have "length (cstr host) < 32" using assms(2) length_cstr_less [of host] by (simp add: text_in_def)
  ultimately have "hostname_scratch (uninit s 0 34) host \<noteq> None"
    unfolding hostname_scratch_iff [OF assms(2) \<open>length (uninit s 0 34) = 34\<close>] by blast
  then show ?thesis by (auto simp: gives_def)
qed

text \<open>The lines written into files; what is asked of them is that the size is within the buffer.\<close>

lemma gives_line_of: "text_in 32 t \<Longrightarrow> gives (\<lambda>(b, n). n \<le> length b) (line_of t)"
  unfolding line_of_def
  by (rule gives_bind [OF gives_c_string], assumption, rule gives_bind_pair [OF gives_put1 [where n = 34]], simp, simp,
      rule gives_bind_pair [OF gives_put1 [where n = 34]], simp, simp, rule gives_bind [OF gives_wr])
    simp_all

lemma gives_passwd_line: "text_in 32 u \<Longrightarrow> gives (\<lambda>(b, n). n \<le> length b) (passwd_line u)"
  unfolding passwd_line_def
  by (rule gives_bind [OF gives_c_string], assumption, rule gives_bind_pair [OF gives_put1 [where n = 128]], rule length_replicate, simp,
      rule gives_bind_pair [OF gives_append1 [where n = 128]], simp, simp, simp,
      rule gives_bind_pair [OF gives_append1 [where n = 128]], simp, simp, simp,
      rule gives_bind_pair [OF gives_append1 [where n = 128]], simp, simp, simp,
      rule gives_bind_pair [OF gives_append1 [where n = 128]], simp, simp, simp, rule gives_bind [OF gives_wr])
    simp_all

lemma gives_group_line: "text_in 32 u \<Longrightarrow> gives (\<lambda>(b, n). n \<le> length b) (group_line u)"
  unfolding group_line_def
  by (rule gives_bind [OF gives_c_string], assumption,
      rule gives_bind_pair [OF gives_append1 [where n = 128]], rule length_replicate, simp, simp,
      rule gives_bind_pair [OF gives_append1 [where n = 128]], simp, simp, simp,
      rule gives_bind_pair [OF gives_put1 [where n = 128]], simp, simp,
      rule gives_bind_pair [OF gives_append1 [where n = 128]], simp, simp, simp,
      rule gives_bind_pair [OF gives_append1 [where n = 128]], simp, simp, simp, rule gives_bind [OF gives_wr])
    simp_all

lemma steps_files:
  assumes "wizard_ok s" "wiz_ok w"
  shows "steps wizard_ok (install_files w s) s"
proof -
  have w: "text_in 32 (w_hostname w)" "text_in 32 (w_timezone w)" "text_in 32 (w_username w)"
    using assms(2) by (simp_all add: wiz_ok_def)
  have wr: "steps wizard_ok (ui_write 0 p b n t \<bind> f) t"
    if "wizard_ok t" "nul_free p" "n \<le> length b" "\<And>u. wizard_ok u \<Longrightarrow> steps wizard_ok (f u) u" for t :: "('a, 'b) ui_scheme" and p b n f
    using that by (intro steps_bind wz.steps_root) (auto simp: at_root dest: moves_ok)
  have ws: "steps wizard_ok (ui_write_string 0 p x t \<bind> f) t"
    if "wizard_ok t" "nul_free p" "nul_free x" "\<And>u. wizard_ok u \<Longrightarrow> steps wizard_ok (f u) u" for t :: "('a, 'b) ui_scheme" and p x f
    using that by (intro steps_bind wz.steps_root) (auto simp: at_root dest: moves_ok)
  show ?thesis
    unfolding install_files_def fs_get_root_def
    by (rule steps_gives [OF gives_scratch [OF assms(1) w(1)]], rule steps_gives_pair [OF gives_line_of [OF w(1)]], rule wr, rule assms(1),
        simp, simp, rule steps_gives_pair [OF gives_line_of [OF w(2)]], rule wr, assumption, simp, simp, rule ws, assumption, simp, simp,
        rule steps_gives_pair [OF gives_passwd_line [OF w(3)]], rule wr, assumption, simp, simp,
        rule steps_gives_pair [OF gives_group_line [OF w(3)]], rule wr, assumption, simp, simp, rule ws, assumption, simp, simp,
        rule steps_gives [OF wz.gives_resolve], assumption, simp, simp add: at_root, simp, rule steps_if,
        rule steps_gives [OF gives_c_string [OF w(3)]], rule steps_gives [OF wz.gives_resolve], assumption, assumption, simp, simp,
        rule steps_if, rule wz.steps_write_string)
      simp_all
qed

subsection \<open>The installation\<close>

lemma goes_install:
  assumes "wizard_ok s" "wiz_ok w"
  shows "goes wizard_ok (\<lambda>r t. r = 1) (stage_install hw bl w s) s"
  unfolding stage_install_def
  by (rule goes_gives [OF gives_header], rule goes_steps [OF wz.steps_paint [OF assms(1)]], (auto simp: int_range_small)[1],
      rule goes_steps [OF steps_pending], erule moves_ok, simp, rule goes_steps [OF steps_progress], erule moves_ok,
      rule goes_andthen [OF goes_do_step], erule moves_ok, simp, erule disk_steps(1),
      rule goes_andthen [OF goes_do_step], erule moves_ok, simp, erule disk_steps(2),
      rule goes_steps [OF steps_mark], erule moves_ok, simp, rule goes_steps [OF steps_progress], erule moves_ok,
      rule goes_steps [OF steps_directories [OF _ assms(2)]], erule moves_ok, rule goes_steps [OF steps_mark], erule moves_ok, simp,
      rule goes_steps [OF steps_mark], erule moves_ok, simp, rule goes_steps [OF steps_progress], erule moves_ok,
      rule goes_steps [OF steps_files [OF _ assms(2)]], erule moves_ok, rule goes_steps [OF steps_mark], erule moves_ok, simp,
      rule goes_andthen [OF goes_do_step], erule moves_ok, simp, erule disk_steps(3), rule goes_steps [OF steps_progress], erule moves_ok)
    (simp add: moves_def)

lemma goes_complete:
  assumes "wizard_ok s" "wiz_ok w"
  shows "goes wizard_ok (\<lambda>_ _. True) (stage_complete w s) s"
proof -
  have w: "text_in 32 (w_hostname w)" "text_in 32 (w_timezone w)" "text_in 32 (w_username w)"
    using assms(2) by (simp_all add: wiz_ok_def)
  show ?thesis
    unfolding stage_complete_def
    by (rule goes_gives [OF gives_header], rule goes_gives [OF gives_c_string [OF w(1)]], rule goes_gives [OF gives_c_string [OF w(3)]],
        rule goes_gives [OF gives_c_string [OF w(2)]], rule goes_steps [OF wz.steps_paint [OF assms(1)]], (auto simp: int_range_small)[1],
        rule goes_andthen [OF wz.goes_any_key], erule moves_ok)
      (simp add: moves_def)
qed

lemma gives_hex32: "length b = 12 \<Longrightarrow> gives (text_in 12) (hex32_to_str v b)"
  unfolding hex32_to_str_def by (rule gives_bind_pair [OF gives_put_end [where n = 12]]) (simp_all del: put_chars.simps)

lemma gives_counts: "gives (\<lambda>_. True) (no_disk_counts dbg)"
  unfolding no_disk_counts_def
  by (rule gives_bind [OF gives_u32_string], simp, rule gives_bind [OF gives_u32_string], simp,
      rule gives_bind_pair [OF gives_append1 [where n = 24]], simp, simp, simp,
      rule gives_bind_pair [OF gives_put1 [where n = 24]], simp, simp,
      rule gives_bind_pair [OF gives_append1 [where n = 24]], simp, simp, simp,
      rule gives_bind [OF gives_wr], simp, rule gives_mono [OF gives_c_string [where n = 24]])
    (simp_all add: text_in_put)

lemma goes_no_disk:
  assumes "wizard_ok s"
  shows "goes wizard_ok (\<lambda>_ _. False) (show_no_disk s) s"
proof -
  have dbg: "gives (\<lambda>_. True) (ata_debug_state (d_ata (u_disk s)) (Some o0))" for o0
    by (simp add: ata_debug_state_def)
  show ?thesis
    unfolding show_no_disk_def
    by (rule goes_gives [OF dbg], rule goes_gives [OF gives_header], rule goes_gives [OF gives_hex32], rule length_replicate,
        rule goes_gives [OF gives_c_string], assumption, rule goes_gives [OF gives_hex32], simp add: text_in_def,
        rule goes_gives [OF gives_c_string], assumption, rule goes_gives [OF gives_counts], rule goes_steps [OF wz.steps_paint [OF assms]],
        (auto simp: int_range_small)[1], rule goes_andthen [OF wz.goes_any_key], erule moves_ok)
      (simp add: moves_def)
qed

subsection \<open>The wizard\<close>

lemma goes_wizard_stage:
  assumes "wizard_ok s" "wiz_ok w" "0 \<le> stage" "stage \<le> 7"
  shows "goes wizard_ok (\<lambda>(r, w) t. wiz_ok w \<and> (if stage = 7 then r = 1 else asked s r t)) (wizard_stage hw bl stage w s) s"
proof -
  have one: "goes wizard_ok (\<lambda>(r, w) t. wiz_ok w \<and> asked s r t) (andthen q (\<lambda>r s. Some (Done (r, w) s))) s"
    if "goes wizard_ok (asked s) q s" for q
    by (rule goes_andthen [OF that]) (use assms(2) in \<open>auto dest: moves_ok\<close>)
  have seven: "goes wizard_ok (\<lambda>(r, w) t. wiz_ok w \<and> r = 1) (andthen (stage_install hw bl w s) (\<lambda>r s. Some (Done (r, w) s))) s"
    by (rule goes_andthen [OF goes_install [OF assms(1,2)]]) (use assms(2) in \<open>auto dest: moves_ok\<close>)
  show ?thesis
    unfolding wizard_stage_def
    using one [OF goes_welcome [OF assms(1)]] goes_disk [OF assms(1,2)] goes_hostname [OF assms(1,2)] goes_timezone [OF assms(1,2)]
      goes_root_pw [OF assms(1,2)] goes_user [OF assms(1,2)] one [OF goes_summary [OF assms(1,2)]] seven assms(3,4)
    by (intro goes_if) simp_all
qed

lemma goes_cancelled: "wizard_ok s \<Longrightarrow> goes wizard_ok (\<lambda>_ _. False) (cancelled s) s"
  unfolding cancelled_def
  by (rule goes_steps [OF wz.steps_paint]) (auto simp: moves_def split: option.split intro: wz.ok_keys)

text \<open>A stage that is not the last one reads a key or cancels, and the last one goes on to the end.\<close>

lemma goes_wizard_loop:
  "wizard_ok s \<Longrightarrow> wiz_ok w \<Longrightarrow> goes wizard_ok (\<lambda>_ _. False) (wizard_loop hw bl stage w s) s"
proof (induction "2 * length (u_polls s) + (if stage = 7 then 1 else 0)" arbitrary: stage w s rule: less_induct)
  case less
  have finish: "goes wizard_ok (\<lambda>_ _. False) (andthen (stage_complete w' t) (\<lambda>_ s. Some (Halts s))) t"
    if "wizard_ok t" "wiz_ok w'" for t :: "('a, 'b) ui_scheme" and w'
    by (rule goes_andthen [OF goes_complete [OF that]]) (simp add: moves_def)
  show ?case
  proof (cases "stage \<ge> 0 \<and> stage \<le> 7")
    case False
    with finish [OF less(2,3)] show ?thesis by (subst wizard_loop.simps) simp
  next
    case True
    have next_stage: "goes wizard_ok (\<lambda>_ _. False) (wizard_loop hw bl k w' t) t"
      if "wizard_ok t" "wiz_ok w'" "length (u_polls t) < length (u_polls s)" for t :: "('a, 'b) ui_scheme" and w' k
      using that by (intro less(1)) auto
    have last: "goes wizard_ok (\<lambda>_ _. False) (wizard_loop hw bl 8 w' t) t"
      if "wizard_ok t" "wiz_ok w'" for t :: "('a, 'b) ui_scheme" and w'
      using finish [OF that] by (subst wizard_loop.simps) simp
    show ?thesis
      using True
      by (subst wizard_loop.simps, intro goes_if, simp, intro goes_andthen_pair [OF goes_wizard_stage [OF less(2,3)]])
        (auto simp: moves_def asked_def intro: next_stage last goes_cancelled split: if_splits)
  qed
qed

lemma gives_init: "gives wiz_ok wiz_init"
proof -
  have "gives (text_in 32) (kstrcpy (replicate 32 NUL) (c_str t))" if "nul_free t" "length t < 32" for t
    by (rule gives_strcpy) (use that in \<open>simp_all add: text_in_replicate\<close>)
  note copy = this
  show ?thesis
    unfolding wiz_init_def
    by (rule gives_bind [OF copy], simp, simp, rule gives_bind [OF copy], simp, simp, rule gives_bind [OF copy], simp, simp)
      (simp add: wiz_ok_def text_in_def)
qed

lemma goes_installer:
  assumes "wizard_ok s" "busy_ends hw"
  shows "goes wizard_ok (\<lambda>_ _. False) (installer_run hw bl s) s"
proof -
  have "disk_ok ((u_disk s)\<lparr>d_nodes := init_table\<rparr>)"
    using assms(1) init_table_wf by (simp add: wizard_ok_def disk_ok_def disk_sized_def)
  from disk_init_safe [OF this assms(2)] obtain d where
    d: "disk_init hw ((u_disk s)\<lparr>d_nodes := init_table\<rparr>) = Some d" "disk_ok d" by blast
  let ?s = "s\<lparr>u_kbd := keyboard_init, u_disk := d\<rparr>"
  have ok: "wizard_ok ?s" using assms(1) d(2) by (simp add: wizard_ok_def)
  have none: "goes wizard_ok (\<lambda>_ _. True) (if b then show_no_disk t else Some (Done () t)) t" if "wizard_ok t" for b and t :: "('a, 'b) ui_scheme"
    using that by (auto intro: goes_weaken [OF goes_no_disk])
  have "goes wizard_ok (\<lambda>_ _. False) (do {
     s \<leftarrow> paint [Reset_viewport, Set_color 7 0, Clear] ?s;
     andthen (if disk_count (u_disk s) \<le> 0 then show_no_disk s else Some (Done () s)) (\<lambda>_ s. do {
       w \<leftarrow> wiz_init;
       wizard_loop hw bl 0 w s }) }) ?s"
    by (rule goes_steps [OF wz.steps_paint [OF ok]], simp, rule goes_andthen [OF none], erule moves_ok, rule goes_gives [OF gives_init],
        rule goes_wizard_loop, erule moves_ok)
  then show ?thesis
    by (simp add: installer_run_def fs_init_eq d(1) goes_def moves_def split: option.splits outcome.splits)
qed

end
