(* ===== verification/InstallerFiles.thy ===== *)
theory InstallerFiles
  imports FsContents InstallerRunSafe
begin

text \<open>
  What the installer writes: the lines of its configuration files, and the file system that
  \<open>install_directories\<close> and \<open>install_files\<close> build in an empty table, as the list of its entries.
\<close>

subsection \<open>Lines\<close>

text \<open>A buffer of \<open>n\<close> characters of which the first \<open>p\<close> are a text.\<close>

definition filled :: "nat \<Rightarrow> string \<Rightarrow> char list \<times> nat \<Rightarrow> bool" where
  "filled n x = (\<lambda>(b, p). length b = n \<and> p = length x \<and> take p b = x)"

lemma filled_put: "filled n x (b, p) \<Longrightarrow> length x + length t \<le> n \<Longrightarrow> gives (filled n (x @ t)) (put_chars b p t)"
  by (auto simp: filled_def put_chars_eq)

lemma filled_append:
  assumes "filled n x (b, p)" "length x \<le> lim" "lim \<le> n"
  shows "gives (filled n (take lim (x @ t))) (append_str b p lim t)"
proof -
  have b: "length b = n" "p = length x" "take p b = x" using assms(1) by (auto simp: filled_def)
  let ?y = "take (lim - p) t"
  have "append_str b p lim t = Some (x @ ?y @ drop (min lim (p + length t)) b, min lim (p + length t))"
    using append_str_eq [of p lim b t] assms(2,3) b by simp
  moreover have "min lim (p + length t) = length (x @ ?y)" "take lim (x @ t) = x @ ?y" using assms(2) b(2) by simp_all
  moreover have "take (min (length t) k) t = take k t" for k by (simp add: min_def)
  ultimately show ?thesis using assms(2,3) b by (simp add: filled_def)
qed

lemma filled_end: "filled n x (b, p) \<Longrightarrow> length x < n \<Longrightarrow> gives (\<lambda>b'. filled n x (b', p)) (wr b p NUL)"
  by (auto simp: filled_def)

lemma filled_start: "filled n [] (replicate n NUL, 0)"
  by (simp add: filled_def)

lemma filled_take: "take m (take m x @ y) = take m (x @ y)"
  by (cases "length x \<le> m") (simp_all add: min_def)

definition passwd_lines :: "string \<Rightarrow> string" where
  "passwd_lines u = ''root:x:0:0:root:/root:/bin/sh'' @ LF # u @ '':x:1000:1000::/home/'' @ u @ '':/bin/sh'' @ [LF]"

definition group_lines :: "string \<Rightarrow> string" where
  "group_lines u = ''root:x:0:'' @ LF # ''sudo:x:27:'' @ u @ LF # u @ '':x:1000:'' @ [LF]"

lemma line_of_filled:
  assumes "text_in 32 t"
  shows "gives (filled 34 (cstr t @ [LF])) (line_of t)"
proof -
  have l: "length (cstr t) < 32" using assms length_cstr_less [of t] by (simp add: text_in_def)
  show ?thesis
    unfolding line_of_def
    by (rule gives_bind [OF gives_c_string [OF assms]], elim conjE, rule gives_bind_pair [OF filled_put [OF filled_start]], use l in simp,
        rule gives_bind_pair [OF filled_put], assumption, use l in simp, rule gives_bind [OF filled_end], assumption, use l in simp)
      simp
qed

lemma passwd_line_filled:
  assumes "text_in 32 u"
  shows "gives (filled 128 (take 120 (passwd_lines (cstr u)))) (passwd_line u)"
  unfolding passwd_line_def
  by (rule gives_bind [OF gives_c_string [OF assms]], elim conjE, rule gives_bind_pair [OF filled_put [OF filled_start]], simp,
      rule gives_bind_pair [OF filled_append], assumption, simp, simp, rule gives_bind_pair [OF filled_append], assumption, simp, simp,
      rule gives_bind_pair [OF filled_append], assumption, simp, simp, rule gives_bind_pair [OF filled_append], assumption, simp, simp,
      rule gives_bind [OF filled_end], assumption, simp)
    (simp only: filled_take gives_simps passwd_lines_def append_assoc append_Nil append_Cons)

lemma group_line_filled:
  assumes "text_in 32 u"
  shows "gives (filled 128 (group_lines (cstr u))) (group_line u)"
proof -
  have l: "length (cstr u) < 32" using assms length_cstr_less [of u] by (simp add: text_in_def)
  then have t: "take 120 (''root:x:0:'' @ LF # ''sudo:x:27:'') = ''root:x:0:'' @ LF # ''sudo:x:27:''"
    "take 120 (''root:x:0:'' @ LF # ''sudo:x:27:'' @ cstr u) = ''root:x:0:'' @ LF # ''sudo:x:27:'' @ cstr u"
    "take 120 (''root:x:0:'' @ LF # ''sudo:x:27:'' @ cstr u @ LF # cstr u) = ''root:x:0:'' @ LF # ''sudo:x:27:'' @ cstr u @ LF # cstr u"
    "take 120 (group_lines (cstr u)) = group_lines (cstr u)"
    by (simp_all add: group_lines_def)
  show ?thesis
    unfolding group_line_def
    by (rule gives_bind [OF gives_c_string [OF assms]], elim conjE, rule gives_bind_pair [OF filled_append [OF filled_start]], simp, simp,
        rule gives_bind_pair [OF filled_append], assumption, simp, simp, rule gives_bind_pair [OF filled_put], assumption, simp,
        rule gives_bind_pair [OF filled_append], assumption, use l in simp, simp, rule gives_bind_pair [OF filled_append], assumption, simp, simp,
        rule gives_bind [OF filled_end], assumption, simp)
      (use t in \<open>simp only: filled_take gives_simps group_lines_def append_assoc append_Nil append_Cons\<close>)
qed

subsection \<open>The calls on the state\<close>

definition plain_name :: "string \<Rightarrow> bool" where
  "plain_name s \<longleftrightarrow> valid_name s \<and> nul_free s \<and> s \<noteq> ''.'' \<and> s \<noteq> ''..''"

abbreviation holding :: "entry list \<Rightarrow> ('h, 'z) ui_scheme \<Rightarrow> bool" where
  "holding es \<equiv> \<lambda>s. lays (ui_nodes s) es"

lemma gives_mkdir:
  assumes "holding es s" "c < length es" "es ! c = Dir q x o1 m1" "plain_name p" "(c, p) \<notin> e_key ` set es" "length es < FS_MAX_NODES"
  shows "gives (holding (es @ [Dir c p owner (mode AND MODE_MASK)])) (ui_mkdir (int c) p owner mode s)"
proof -
  have p: "valid_name p" "nul_free p" using assms(4) by (simp_all add: plain_name_def)
  from lays_mkdir [OF assms(1) lays_dir [OF assms(1-3)] p(2) parent_leaf_plain [OF p(1)] assms(5,6), of owner mode]
  show ?thesis by (auto simp: ui_mkdir_def ui_fs_def)
qed

lemma gives_write:
  assumes "holding es s" "c < length es" "es ! c = Dir q x o1 m1" "plain_name p" "(c, p) \<notin> e_key ` set es" "length es < FS_MAX_NODES"
    "length t \<le> 4095" "take (length t) b = t"
  shows "gives (holding (es @ [File c p t])) (ui_write (int c) p b (length t) s)"
proof -
  have p: "valid_name p" "nul_free p" "p \<noteq> ''.''" "p \<noteq> ''..''" using assms(4) by (simp_all add: plain_name_def)
  from lays_write [OF assms(1) lays_dir [OF assms(1-3)] p(2) parent_leaf_plain [OF p(1)] assms(5,6) p(3,4) assms(7,8)]
  show ?thesis by (auto simp: ui_write_def ui_fs_def)
qed

text \<open>A file in a directory of the root.\<close>

lemma gives_write_below:
  assumes "holding es s" "0 < length es" "es ! 0 = Dir q x o1 m1" "c < length es" "es ! c = Dir 0 d o2 m2" "plain_name d" "plain_name p"
    "(c, p) \<notin> e_key ` set es" "length es < FS_MAX_NODES" "length t \<le> 4095" "take (length t) b = t"
  shows "gives (holding (es @ [File c p t])) (ui_write 0 (d @ CHR ''/'' # p) b (length t) s)"
proof -
  have p: "valid_name p" "nul_free p" "p \<noteq> ''.''" "p \<noteq> ''..''" "valid_name d" "nul_free d" "d \<noteq> ''.''" "d \<noteq> ''..''"
    using assms(6,7) by (simp_all add: plain_name_def)
  have l: "lookup (ui_nodes s) 0 d = Some c" using assms(4,5) by (simp add: lays_lookup [OF assms(1)])
  have "nd_is_dir (ui_nodes s ! c)" using lays_dir [OF assms(1,4,5)] by (simp add: dir_node_def)
  then have "parent_leaf (ui_nodes s) 0 (d @ CHR ''/'' # p) = Some (c, p)" using parent_leaf_below p l by simp
  moreover have "nul_free (d @ CHR ''/'' # p)" using p by simp
  ultimately show ?thesis
    using lays_write [OF assms(1) lays_dir [OF assms(1-3)] _ _ assms(8,9) p(3,4) assms(10,11), of "d @ CHR ''/'' # p"]
    by (auto simp: ui_write_def ui_fs_def)
qed

lemma gives_write_string_below:
  assumes "holding es s" "0 < length es" "es ! 0 = Dir q x o1 m1" "c < length es" "es ! c = Dir 0 d o2 m2" "plain_name d" "plain_name p"
    "(c, p) \<notin> e_key ` set es" "length es < FS_MAX_NODES" "length t \<le> 4095" "nul_free t"
  shows "gives (holding (es @ [File c p t])) (ui_write_string 0 (d @ CHR ''/'' # p) t s)"
proof -
  have "take (length t) (c_str t) = t" by (simp add: c_str_def)
  from gives_write_below [OF assms(1-10) this] assms(11) show ?thesis by (simp add: ui_write_string_def)
qed

lemma gives_write_string:
  assumes "holding es s" "c < length es" "es ! c = Dir q x o1 m1" "plain_name p" "(c, p) \<notin> e_key ` set es" "length es < FS_MAX_NODES"
    "length t \<le> 4095" "nul_free t"
  shows "gives (holding (es @ [File c p t])) (ui_write_string (int c) p t s)"
proof -
  have "take (length t) (c_str t) = t" by (simp add: c_str_def)
  from gives_write [OF assms(1-7) this] assms(8) show ?thesis by (simp add: ui_write_string_def)
qed

lemma resolve_name:
  assumes "lays ns es" "c < length es" "es ! c = Dir q x o1 m1" "i < length es" "e_key (es ! i) = (c, p)" "plain_name p"
  shows "fs_resolve ns (int c) (Some p) = Some (int i)"
proof -
  have p: "CHR ''/'' \<notin> set p" "p \<noteq> []" "p \<noteq> ''.''" "p \<noteq> ''..''" "nul_free p" using assms(6) by (simp_all add: plain_name_def valid_name_def)
  have "hd p \<noteq> CHR ''/''" using hd_in_set [OF p(2)] p(1) by auto
  moreover have "lookup ns c p = Some i" using assms(4,5) by (simp add: lays_lookup [OF assms(1)])
  ultimately have "resolve_spec ns c p = Some i" using p by (simp add: resolve_spec_def walk_step_def)
  moreover have "used_node ns c" using lays_dir [OF assms(1-3)] by blast
  ultimately show ?thesis using fs_resolve_eq [OF laysD(2) [OF assms(1)] _ p(5)] by simp
qed

subsection \<open>The tree\<close>

definition system_dirs :: "entry list" where
  "system_dirs = [Dir 0 ''/'' 0 FS_DEFAULT_DIR_MODE, Dir 0 ''bin'' 0 0x1ED, Dir 0 ''etc'' 0 0x1ED, Dir 0 ''home'' 0 0x1ED,
     Dir 0 ''var'' 0 0x1ED, Dir 0 ''tmp'' 0 0x1FF, Dir 0 ''usr'' 0 0x1ED, Dir 0 ''run'' 0 0x1ED]"

definition installed_dirs :: "string \<Rightarrow> entry list" where
  "installed_dirs user = system_dirs @ [Dir 3 user 1000 0x1ED]"

definition installed_files :: "string \<Rightarrow> string \<Rightarrow> string \<Rightarrow> entry list" where
  "installed_files host zone user = [File 2 ''hostname'' (host @ [LF]), File 2 ''timezone'' (zone @ [LF]),
     File 2 ''os-release'' installer_os_release, File 2 ''passwd'' (take 120 (passwd_lines user)), File 2 ''group'' (group_lines user),
     File 2 ''motd'' installer_motd, File 8 ''.bashrc'' installer_bashrc]"

text \<open>The user name is a path: the directory of its own is made where the path leads from \<open>/home\<close>.\<close>

lemma gives_directories_at:
  assumes "ui_nodes s = init_table" "text_in 32 (w_username w)" "(q, x) \<notin> e_key ` set system_dirs"
    "\<And>ns. lays ns system_dirs \<Longrightarrow> parent_leaf ns 3 (cstr (w_username w)) = Some (q, x)"
  shows "gives (holding (system_dirs @ [Dir q x 1000 0x1ED])) (install_directories w s)"
proof -
  let ?u = "cstr (w_username w)"
  have start: "holding [Dir 0 ''/'' 0 FS_DEFAULT_DIR_MODE] s" using lays_init assms(1) by simp
  have mk: "gives P (ui_mkdir 0 p 0 mode t \<bind> f)"
    if "holding es t" "0 < length es" "es ! 0 = Dir 0 ''/'' 0 FS_DEFAULT_DIR_MODE" "plain_name p" "(0, p) \<notin> e_key ` set es" "length es < FS_MAX_NODES"
      "\<And>u. holding (es @ [Dir 0 p 0 (mode AND MODE_MASK)]) u \<Longrightarrow> gives P (f u)" for t :: "('a, 'b) ui_scheme" and P :: "('a, 'b) ui_scheme \<Rightarrow> bool" and f p mode es
    by (rule gives_bind [OF gives_mkdir [where c = 0, simplified]]) (use that in simp_all)
  have home: "gives (\<lambda>r. r = int 3) (fs_resolve (ui_nodes t) 0 (Some ''home''))"
    if "holding es t" "length es = 8" "es ! 0 = Dir 0 ''/'' 0 FS_DEFAULT_DIR_MODE" "e_key (es ! 3) = (0, ''home'')" for t :: "('a, 'b) ui_scheme" and es
    using resolve_name [OF that(1), of 0 0 "''/''" 0 FS_DEFAULT_DIR_MODE 3 "''home''"] that(2-4)
    by (simp add: plain_name_def valid_name_def)
  have path: "gives (\<lambda>b. text_in 48 b \<and> cstr b = ?u) (kstrcpy (replicate 48 NUL) (w_username w))"
  proof -
    have c: "NUL \<in> set (w_username w)" "length (w_username w) = 32" using assms(2) by (simp_all add: text_in_def)
    obtain t where "w_username w = ?u @ NUL # t" using cstr_split [OF c(1)] by blast
    moreover have "length ?u < length (replicate 48 NUL)" using length_cstr_less [OF c(1)] c(2) by simp
    ultimately show ?thesis
      using kstrcpy_eq [of ?u "replicate 48 NUL" t] cstr_append_NUL [of ?u] by (auto simp: gives_def text_in_def)
  qed
  have user: "gives (holding (system_dirs @ [Dir q x 1000 0x1ED])) (ui_mkdir (int 3) ?u 1000 0x1ED t)"
    if "holding es t" "es = system_dirs" for t :: "('a, 'b) ui_scheme" and es
  proof -
    have t: "lays (ui_nodes t) system_dirs" using that by simp
    have "dir_node (ui_nodes t) 3" by (rule lays_dir [OF t]) (simp_all add: system_dirs_def)
    from lays_mkdir [OF t this nul_free_cstr assms(4) [OF t] assms(3), of 1000 "0x1ED"] show ?thesis
      by (auto simp: system_dirs_def ui_mkdir_def ui_fs_def)
  qed
  show ?thesis
    unfolding install_directories_def fs_get_root_def
    by ((rule mk, (rule start | assumption), simp, simp, simp add: plain_name_def valid_name_def, simp, simp)+,
        rule gives_bind, rule home, assumption, simp, simp, simp, rule gives_bind [OF path], elim conjE, rule gives_bind [OF gives_c_string], assumption,
        simp only: if_True of_nat_0_le_iff, rule user, assumption)
      (simp add: system_dirs_def)
qed

lemma gives_directories:
  assumes "ui_nodes s = init_table" "plain_name (cstr (w_username w))" "text_in 32 (w_username w)"
  shows "gives (holding (installed_dirs (cstr (w_username w)))) (install_directories w s)"
  unfolding installed_dirs_def
  by (rule gives_directories_at [OF assms(1,3)])
    (use assms(2) in \<open>auto simp: plain_name_def parent_leaf_plain system_dirs_def\<close>)

lemma text_lengths [simp]: "length installer_os_release \<le> 4095" "length installer_motd \<le> 4095" "length installer_bashrc \<le> 4095"
  by (simp_all add: installer_os_release_def os_release_def installer_motd_def logo_def installer_bashrc_def)

lemma gives_files:
  assumes "wizard_ok s" "wiz_ok w" "holding (installed_dirs (cstr (w_username w))) s" "plain_name (cstr (w_username w))"
  shows "gives (holding (installed_dirs (cstr (w_username w)) @ installed_files (cstr (w_hostname w)) (cstr (w_timezone w)) (cstr (w_username w))))
    (install_files w s)"
proof -
  let ?u = "cstr (w_username w)" and ?d = "installed_dirs (cstr (w_username w))"
  have w: "text_in 32 (w_hostname w)" "text_in 32 (w_timezone w)" "text_in 32 (w_username w)"
    using assms(2) by (simp_all add: wiz_ok_def)
  note short = length_cstr_less [of "w_hostname w"] length_cstr_less [of "w_timezone w"] length_cstr_less [of "w_username w"] w [unfolded text_in_def]
  have body: "gives P (ui_write 0 (''etc'' @ CHR ''/'' # p) b n t \<bind> f)"
    if "filled m x (b, n)" "holding (?d @ es) t" "plain_name p" "(2, p) \<notin> e_key ` set (?d @ es)" "length es < 100" "length x \<le> 4095"
      "\<And>u. holding (?d @ es @ [File 2 p x]) u \<Longrightarrow> gives P (f u)"
    for t :: "('a, 'b) ui_scheme" and P :: "('a, 'b) ui_scheme \<Rightarrow> bool" and f p b n m x es
  proof -
    have x: "n = length x" "take (length x) b = x" using that(1) by (auto simp: filled_def)
    show ?thesis unfolding x(1)
      by (rule gives_bind [OF gives_write_below [OF that(2), where c = 2]])
        (use that x(2) in \<open>simp_all add: installed_dirs_def system_dirs_def plain_name_def valid_name_def\<close>)
  qed
  have ws: "gives P (ui_write_string 0 (''etc'' @ CHR ''/'' # p) x t \<bind> f)"
    if "nul_free x" "holding (?d @ es) t" "plain_name p" "(2, p) \<notin> e_key ` set (?d @ es)" "length es < 100" "length x \<le> 4095"
      "\<And>u. holding (?d @ es @ [File 2 p x]) u \<Longrightarrow> gives P (f u)"
    for t :: "('a, 'b) ui_scheme" and P :: "('a, 'b) ui_scheme \<Rightarrow> bool" and f p x es
    by (rule gives_bind [OF gives_write_string_below [OF that(2), where c = 2]])
      (use that in \<open>simp_all add: installed_dirs_def system_dirs_def plain_name_def valid_name_def\<close>)
  have home: "gives (\<lambda>r. r = int 3) (fs_resolve (ui_nodes t) 0 (Some ''home''))" if "holding (?d @ es) t" for t :: "('a, 'b) ui_scheme" and es
    using resolve_name [OF that, of 0 0 "''/''" 0 FS_DEFAULT_DIR_MODE 3 "''home''"]
    by (simp add: installed_dirs_def system_dirs_def plain_name_def valid_name_def)
  have user: "gives (\<lambda>r. r = int 8) (fs_resolve (ui_nodes t) (int 3) (Some ?u))" if "holding (?d @ es) t" for t :: "('a, 'b) ui_scheme" and es
    using resolve_name [OF that, of 3 0 "''home''" 0 FS_DEFAULT_DIR_MODE 8 ?u] assms(4)
    by (simp add: installed_dirs_def system_dirs_def)
  have bashrc: "gives (holding (?d @ es @ [File 8 ''.bashrc'' installer_bashrc])) (ui_write_string (int 8) ''.bashrc'' installer_bashrc t)"
    if "holding (?d @ es) t" "(8, ''.bashrc'') \<notin> e_key ` set (?d @ es)" "length es < 100" for t :: "('a, 'b) ui_scheme" and es
    using gives_write_string [OF that(1), of 8 3 ?u 1000 FS_DEFAULT_DIR_MODE "''.bashrc''" installer_bashrc] that(2,3)
    by (simp add: installed_dirs_def system_dirs_def plain_name_def valid_name_def)
  have start: "holding (?d @ []) s" using assms(3) by simp
  have paths: "''etc/hostname'' = ''etc'' @ CHR ''/'' # ''hostname''" "''etc/timezone'' = ''etc'' @ CHR ''/'' # ''timezone''"
    "''etc/os-release'' = ''etc'' @ CHR ''/'' # ''os-release''" "''etc/passwd'' = ''etc'' @ CHR ''/'' # ''passwd''"
    "''etc/group'' = ''etc'' @ CHR ''/'' # ''group''" "''etc/motd'' = ''etc'' @ CHR ''/'' # ''motd''" by simp_all
  show ?thesis
    unfolding install_files_def fs_get_root_def paths
    by (rule gives_bind [OF gives_scratch [OF assms(1) w(1)]], rule gives_bind_pair [OF line_of_filled [OF w(1)]],
        rule body, assumption, rule start, simp add: plain_name_def valid_name_def, simp add: installed_dirs_def system_dirs_def, simp, insert short, simp,
        rule gives_bind_pair [OF line_of_filled [OF w(2)]], rule body, assumption, assumption, simp add: plain_name_def valid_name_def, simp add: installed_dirs_def system_dirs_def, simp, insert short, simp,
        rule ws, simp, assumption, simp add: plain_name_def valid_name_def, simp add: installed_dirs_def system_dirs_def, simp, simp,
        rule gives_bind_pair [OF passwd_line_filled [OF w(3)]], rule body, assumption, assumption, simp add: plain_name_def valid_name_def, simp add: installed_dirs_def system_dirs_def, simp, simp,
        rule gives_bind_pair [OF group_line_filled [OF w(3)]], rule body, assumption, assumption, simp add: plain_name_def valid_name_def, simp add: installed_dirs_def system_dirs_def, simp, insert short, simp add: group_lines_def,
        rule ws, simp, assumption, simp add: plain_name_def valid_name_def, simp add: installed_dirs_def system_dirs_def, simp, simp,
        rule gives_bind, rule home, assumption, simp only: if_True of_nat_0_le_iff, rule gives_bind [OF gives_c_string [OF w(3)]], elim conjE,
        simp only: of_nat_0_le_iff, rule gives_bind, rule user, assumption, simp only: if_True of_nat_0_le_iff, rule gives_mono, rule bashrc, assumption,
        simp add: installed_dirs_def system_dirs_def, simp)
      (simp add: installed_files_def)
qed

end
