(* ===== verification/DiskProps.thy ===== *)
theory DiskProps
  imports DiskSpec FsProps PioScan
begin

text \<open>
  Properties of kernel/disk.c on a machine with one ATA drive: the interpretation of
  \<^theory_text>\<open>disk_device\<close> on the drive of \<^theory_text>\<open>Pio\<close>, and with it saving,
  loading, formatting and installing end to end, from the calls of the shell down to the drive's ports.
\<close>

interpretation pdisk: disk_device "pio_hw lat ident" "pio_ready lat" pio_sector "2 ^ 28" for lat ident
  by unfold_locales simp

text \<open>The buffers of disk.c have their size, a disk is selected, and the driver is ready.\<close>

definition disk_ready :: "nat \<Rightarrow> drive disk \<Rightarrow> bool" where
  "disk_ready lat s \<longleftrightarrow> disk_sized s \<and> 0 \<le> d_selected s \<and> pio_ready lat (d_ata s)"

abbreviation disk_sector :: "drive disk \<Rightarrow> nat \<Rightarrow> u8 list" where
  "disk_sector s \<equiv> pio_sector (d_ata s)"

lemma ready_disk_eq: "pdisk.ready_disk lat = disk_ready lat"
  by (simp add: fun_eq_iff pdisk.ready_disk_def disk_ready_def)

lemmas pdisk_load = pdisk.disk_load_eq [unfolded ready_disk_eq]
lemmas pdisk_save = pdisk.disk_save_eq [unfolded ready_disk_eq]
lemmas pdisk_install = pdisk.disk_install_eq [unfolded ready_disk_eq]

text \<open>A drive that the driver has found, with a file system table in memory.\<close>

definition found_drive :: "drive ata" where
  "found_drive = (ata_boot blank_drive)\<lparr>
     g_ide_devices := [(zero_ide 0x1F0 0)\<lparr>id_present := True\<rparr>, zero_ide 0x1F0 1, zero_ide 0x170 0, zero_ide 0x170 1],
     g_devices := zero_map\<lparr>dm_present := True, dm_kind := 1\<rparr> # replicate 15 zero_map,
     g_device_count := 1, g_selected_device := 0\<rparr>"

lemma found_drive_ready: "pio_ready 7 found_drive"
proof -
  have "ata_ok found_drive"
    by (simp add: ata_ok_def found_drive_def zero_ide_def zero_map_def model_ok_def map_entry_ok_def ata_boot_def
        zero_ahci_def)
  then show ?thesis
    by (simp add: pio_ready_def found_drive_def zero_ide_def zero_map_def ata_boot_def blank_drive_def idle_def drive_drq_def
        ATA_POLL_ATTEMPTS_def)
qed

definition found_disk :: "fs \<Rightarrow> drive disk" where
  "found_disk ns = (disk_boot blank_drive ns)\<lparr>d_count := 1, d_selected := 0, d_ata := found_drive\<rparr>"

lemma found_disk_ready: "disk_ready 7 (found_disk ns)"
  by (simp add: disk_ready_def found_disk_def disk_sized_def disk_boot_def found_drive_ready)

lemma found_disk_simps [simp]: "d_nodes (found_disk ns) = ns" "d_selected (found_disk ns) = 0"
  by (simp_all add: found_disk_def disk_boot_def)

lemma found_disk_info:
  "disk_get_info (found_disk ns) (disk_selected (found_disk ns)) (Some zero_info) = Some (0, Some (zero_info\<lparr>in_present := True\<rparr>))"
proof -
  have "kstrcpy (replicate 41 NUL) ([] @ NUL # replicate 40 NUL) = Some (replicate 41 NUL)"
    by (subst kstrcpy_eq) (simp_all add: numeral_eq_Suc)
  then have "kstrcpy (replicate 41 NUL) (replicate 41 NUL) = Some (replicate 41 NUL)" by (simp add: numeral_eq_Suc)
  then show ?thesis
    by (simp add: disk_get_info_def ata_get_info_def found_disk_def disk_boot_def disk_selected_def found_drive_def
        zero_info_def zero_map_def loop_simps rd_def)
qed

subsection \<open>Finding the disk\<close>

lemma init_finds_drive:
  assumes "length ident = 256" "lat < ATA_POLL_ATTEMPTS" "\<forall>n. length (dr_disk d n) = 512" "resting d"
  shows "\<exists>s. disk_init (pio_hw lat ident) (disk_boot d ns) = Some s \<and> disk_ready lat s \<and> disk_available s
    \<and> disk_count s = 1 \<and> disk_selected s = 0 \<and> disk_last_error s = ''ok'' \<and> disk_sector s = dr_disk d \<and> d_nodes s = ns"
proof -
  obtain a where a: "ata_scan (pio_hw lat ident) (ata_boot d) = Some (1, a)" "pio_ready lat a" "pio_sector a = dr_disk d"
    "g_selected_device a = 0" using scan_finds_drive [OF assms] by blast
  then show ?thesis
    by (simp add: disk_init_def disk_boot_def disk_ready_def disk_sized_def ata_selected_device_def disk_count_def
        disk_available_def disk_selected_def disk_last_error_def)
qed

text \<open>Start-up: on a machine with one ATA drive that has finished its reset, \<open>disk_init\<close> from the initial state finds it and selects
  it, with the drive's sectors unchanged, no error, and the file system table as it was.\<close>

theorem disk_init_finds_drive:
  assumes "length ident = 256" "lat < ATA_POLL_ATTEMPTS" "\<forall>n. length (dr_disk d n) = 512" "resting d"
  shows "\<exists>s. disk_init (pio_hw lat ident) (disk_boot d ns) = Some s \<and> disk_ready lat s \<and> disk_available s
    \<and> disk_count s = 1 \<and> disk_selected s = 0 \<and> disk_last_error s = ''ok'' \<and> disk_sector s = dr_disk d \<and> d_nodes s = ns"
  by (rule init_finds_drive [OF assms])

theorem disk_init_finds_drive_witness:
  "\<exists>s. disk_init (pio_hw 7 (replicate 256 0x4141)) (disk_boot blank_drive init_table) = Some s \<and> disk_ready 7 s
    \<and> disk_count s = 1 \<and> disk_sector s = (\<lambda>n. replicate 512 0)"
proof -
  have "length (replicate 256 (0x4141 :: u16)) = 256" "7 < ATA_POLL_ATTEMPTS" "\<forall>n. length (dr_disk blank_drive n) = 512"
    "dr_disk blank_drive = (\<lambda>n. replicate 512 0)"
    by (simp_all add: ATA_POLL_ATTEMPTS_def blank_drive_def)
  with disk_init_finds_drive [OF this(1-3) blank_resting, of init_table] show ?thesis by metis
qed

subsection \<open>Saving and loading\<close>

text \<open>C4. A saved file system survives: saving any table the calls of the file system can produce succeeds, and
  from then on \<open>disk_load_fs\<close>, in any later state of the machine in which the drive holds the same sectors
  and whatever table is in memory, returns 0 and brings the table back, up to the owner and mode of the
  root. Saving writes the sectors 2048 to 3084 and no other.\<close>

theorem disk_save_then_load:
  assumes "disk_ready lat s" "fs_reachable (d_nodes s)"
  shows "\<exists>s1. disk_save_fs (pio_hw lat ident) s = Some (0, s1) \<and> disk_ready lat s1 \<and> d_nodes s1 = d_nodes s
    \<and> (\<forall>l. l < 2048 \<or> 3085 \<le> l \<longrightarrow> disk_sector s1 l = disk_sector s l)
    \<and> (\<forall>t. disk_ready lat t \<and> disk_sector t = disk_sector s1 \<longrightarrow> (\<exists>t'. disk_load_fs (pio_hw lat ident) t = Some (0, t')
         \<and> d_nodes t' = root_attr_reset (d_nodes s) \<and> disk_last_error t' = ''ok'' \<and> disk_sector t' = disk_sector t))"
proof -
  note wf = fs_reachable_inv [OF assms(2)]
  let ?P = "image (d_nodes s) @ drop IMAGE_SIZE (d_payload s)"
  have rest: "length (drop IMAGE_SIZE (d_payload s)) = 1566448"
    using assms(1) by (simp add: disk_ready_def disk_sized_def)
  obtain s1 where 1: "disk_save_fs (pio_hw lat ident) s = Some (0, s1)" "disk_ready lat s1" "d_nodes s1 = d_nodes s"
    "disk_sector s1 = saved_sectors (image (d_nodes s)) ?P (disk_sector s)"
    using pdisk_save [OF assms(1), of ident] wf by (auto simp: fs_wf_def)
  have "\<exists>t'. disk_load_fs (pio_hw lat ident) t = Some (0, t') \<and> d_nodes t' = root_attr_reset (d_nodes s)
      \<and> disk_last_error t' = ''ok'' \<and> disk_sector t' = disk_sector t"
    if t: "disk_ready lat t" "disk_sector t = disk_sector s1" for t
  proof -
    have "load_outcome (disk_sector t) (d_nodes t) = (0, ''ok'', root_attr_reset (d_nodes s))"
      unfolding t(2) 1(4) by (rule load_saved [OF wf fs_reachable_parents [OF assms(2)] rest])
    with pdisk_load [OF t(1), of ident] show ?thesis by (auto simp: disk_last_error_def)
  qed
  moreover have "disk_sector s1 l = disk_sector s l" if "l < 2048 \<or> 3085 \<le> l" for l
    using that by (auto simp: 1(4) saved_sectors_def)
  ultimately show ?thesis using 1 by blast
qed

theorem disk_save_then_load_witness:
  "\<exists>s1 t'. disk_save_fs (pio_hw 7 []) (found_disk sample_table) = Some (0, s1)
     \<and> disk_load_fs (pio_hw 7 []) s1 = Some (0, t') \<and> d_nodes t' = root_attr_reset sample_table"
proof -
  have "fs_reachable (d_nodes (found_disk sample_table))" by (simp add: sample_table_reachable)
  from disk_save_then_load [OF found_disk_ready this, of "[]"] obtain s1 where
    "disk_save_fs (pio_hw 7 []) (found_disk sample_table) = Some (0, s1)" "disk_ready 7 s1"
    "\<forall>t. disk_ready 7 t \<and> disk_sector t = disk_sector s1 \<longrightarrow> (\<exists>t'. disk_load_fs (pio_hw 7 []) t = Some (0, t')
         \<and> d_nodes t' = root_attr_reset (d_nodes (found_disk sample_table)) \<and> disk_last_error t' = ''ok''
         \<and> disk_sector t' = disk_sector t)"
    by blast
  then show ?thesis by fastforce
qed

text \<open>C12. Loading, for every content of the disk, is exactly \<open>load_outcome\<close>: without the header's magic or
  version the error is "not installed", a payload size of 0 or above 2096640 is refused before any payload
  sector is read, then a wrong checksum, then bytes that \<open>fs_deserialize\<close> refuses. An error leaves the
  table in memory as it was, or the initial table if the stored root is no directory; success gives a
  table whose names and data are terminated; and the sectors are never changed.\<close>

theorem disk_load_fs_outcome:
  assumes "disk_ready lat s"
  shows "\<exists>r s'. disk_load_fs (pio_hw lat ident) s = Some (r, s') \<and> disk_ready lat s' \<and> disk_sector s' = disk_sector s
    \<and> (r, disk_last_error s', d_nodes s') = load_outcome (disk_sector s) (d_nodes s)
    \<and> (r = 0 \<and> fs_mem (d_nodes s') \<and> root_ok (d_nodes s') \<or> r = -1 \<and> d_nodes s' \<in> {d_nodes s, init_table})"
proof -
  let ?sec = "disk_sector s"
  obtain r e ns s' where 1: "load_outcome ?sec (d_nodes s) = (r, e, ns)" "disk_load_fs (pio_hw lat ident) s = Some (r, s')"
    "d_error s' = e" "d_nodes s' = ns" "disk_ready lat s'" "disk_sector s' = ?sec"
    using pdisk_load [OF assms, of ident] by blast
  define n where "n = unat (dh_payload_size (dec_disk_header (take 20 (?sec 2048))))"
  have len: "length (?sec l) = 512" for l
    using assms by (auto simp: disk_ready_def intro: pio.sector_length)
  have "n \<le> (n + 511) div 512 * 512" by simp
  then have "n \<le> length (stored_payload ?sec n)"
    by (simp add: stored_payload_def length_concat len o_def sum_list_triv)
  note c = load_spec_cases [OF this, of "d_nodes s"]
  have "r = 0 \<and> fs_mem ns \<and> root_ok ns \<or> r = -1 \<and> ns \<in> {d_nodes s, init_table}"
    using 1(1) c unfolding load_outcome_def n_def [symmetric] Let_def
    by (auto split: if_splits prod.splits)
  with 1 show ?thesis by (metis disk_last_error_def)
qed

theorem disk_load_fs_outcome_witness:
  "\<exists>r s'. disk_load_fs (pio_hw 7 []) (found_disk sample_table) = Some (r, s') \<and> disk_ready 7 s'
    \<and> disk_sector s' = disk_sector (found_disk sample_table)
    \<and> (r, disk_last_error s', d_nodes s') = (-1, ''not installed'', sample_table)"
proof -
  have sec: "disk_sector (found_disk sample_table) = (\<lambda>l. replicate 512 0)"
    by (simp add: found_disk_def found_drive_def pio_sector_def blank_drive_def ata_boot_def fun_eq_iff)
  have "take 7 (dh_magic (dec_disk_header (take 20 (replicate 512 0)))) \<noteq> disk_magic"
    by (simp add: dec_disk_header_def disk_magic_def numeral_eq_Suc)
  then have "load_outcome (disk_sector (found_disk sample_table)) sample_table = (-1, ''not installed'', sample_table)"
    unfolding sec by (simp add: load_outcome_def Let_def del: take_replicate)
  with disk_load_fs_outcome [OF found_disk_ready, of "[]" sample_table] show ?thesis by fastforce
qed

text \<open>A new disk: \<open>disk_format_fs\<close> writes a file system with only the root and leaves it in memory,
  and loading the formatted disk gives it back.\<close>

theorem disk_format_then_load:
  assumes "disk_ready lat s"
  shows "\<exists>s1. disk_format_fs (pio_hw lat ident) s = Some (0, s1) \<and> disk_ready lat s1 \<and> fs_init = Some (d_nodes s1)
    \<and> (\<exists>t. disk_load_fs (pio_hw lat ident) s1 = Some (0, t) \<and> d_nodes t = d_nodes s1 \<and> disk_sector t = disk_sector s1)"
proof -
  let ?s = "s\<lparr>d_nodes := init_table\<rparr>"
  have r: "fs_reachable init_table" by (rule fs_reachable.init [OF fs_init_eq])
  note wf = fs_reachable_inv [OF r]
  have reset: "root_attr_reset init_table = init_table"
    by (simp add: root_attr_reset_def root_node_def init_table_def)
  have s: "disk_ready lat ?s" using assms by (simp add: disk_ready_def disk_sized_def)
  let ?P = "image init_table @ drop IMAGE_SIZE (d_payload s)"
  have rest: "length (drop IMAGE_SIZE (d_payload s)) = 1566448" using assms by (simp add: disk_ready_def disk_sized_def)
  obtain s1 where 1: "disk_save_fs (pio_hw lat ident) ?s = Some (0, s1)" "disk_ready lat s1" "d_nodes s1 = init_table"
    "d_error s1 = ''ok''" "disk_sector s1 = saved_sectors (image init_table) ?P (disk_sector s)"
    using pdisk_save [OF s, of ident] wf by (auto simp: fs_wf_def)
  have same: "s1\<lparr>d_error := ''ok''\<rparr> = s1" using 1(4) by simp
  have "load_outcome (disk_sector s1) (d_nodes s1) = (0, ''ok'', init_table)"
    unfolding 1(5) using load_saved [OF wf fs_reachable_parents [OF r] rest] reset by simp
  with pdisk_load [OF 1(2), of ident] 1 show ?thesis
    by (auto simp: disk_format_fs_def fs_init_eq same)
qed

theorem disk_format_then_load_witness:
  "\<exists>s1 t. disk_format_fs (pio_hw 7 []) (found_disk sample_table) = Some (0, s1)
     \<and> disk_load_fs (pio_hw 7 []) s1 = Some (0, t) \<and> fs_init = Some (d_nodes t)"
proof -
  from disk_format_then_load [OF found_disk_ready, of "[]" sample_table] show ?thesis by metis
qed

subsection \<open>Installing\<close>

text \<open>C14. Installing writes the boot sector to sector 0, the description of the kernel that the boot loader
  reads to sector 1, and the kernel, padded with zeros, to the sectors from 2 on; nothing else. The file system
  area is not touched, so \<open>disk_load_fs\<close> gives after it what it gave before.\<close>

theorem disk_install_layout:
  assumes "disk_ready lat s" "disk_get_info s (disk_selected s) (Some zero_info) = Some (0, Some i)"
    "in_sectors28 i = 0 \<or> 6144 \<le> in_sectors28 i"
    and "512 \<le> length (bl_bootsect bl)" "length (bl_kernel bl) \<le> 1920 * 512" "bl_entry bl < length (bl_kernel bl)"
  shows "\<exists>s'. disk_install_system (pio_hw lat ident) bl s = Some (0, s') \<and> disk_ready lat s'
    \<and> disk_last_error s' = ''ok'' \<and> disk_sector s' = installed_sectors bl (disk_sector s)
    \<and> load_outcome (disk_sector s') = load_outcome (disk_sector s)"
proof -
  have info: "\<not> (0 = (0::int) \<and> in_sectors28 (the (Some i)) > 0 \<and> in_sectors28 (the (Some i)) < 6144)"
    using assms(3) by (auto simp: linorder_not_less)
  obtain s' where 1: "disk_install_system (pio_hw lat ident) bl s = Some (0, s')" "disk_ready lat s'" "d_error s' = ''ok''"
    "disk_sector s' = installed_sectors bl (disk_sector s)"
    using pdisk_install [OF assms(1) assms(2) [unfolded disk_selected_def] info assms(4-6), of ident] by auto
  have "installed_sectors bl (disk_sector s) l = disk_sector s l" if "2048 \<le> l" for l
    using that assms(5) by (auto simp: installed_sectors_def)
  then have "load_outcome (installed_sectors bl (disk_sector s)) = load_outcome (disk_sector s)"
    by (simp add: load_outcome_def stored_payload_def fun_eq_iff)
  with 1 show ?thesis by (auto simp: disk_last_error_def)
qed

definition tiny_blobs :: blobs where
  "tiny_blobs = \<lparr>bl_kernel = [0xFA, 0xF4], bl_entry = 1, bl_bootsect = replicate 512 0x90\<rparr>"

theorem disk_install_layout_witness:
  "\<exists>s'. disk_install_system (pio_hw 7 []) tiny_blobs (found_disk init_table) = Some (0, s')
     \<and> disk_sector s' 0 = replicate 512 0x90 \<and> disk_sector s' 2 = [0xFA, 0xF4] @ replicate 510 0
     \<and> disk_sector s' 3 = replicate 512 0"
proof -
  let ?s = "found_disk init_table"
  from disk_install_layout [OF found_disk_ready found_disk_info, of tiny_blobs "[]"] obtain s' where
    "disk_install_system (pio_hw 7 []) tiny_blobs ?s = Some (0, s')"
    "disk_sector s' = installed_sectors tiny_blobs (disk_sector ?s)"
    by (auto simp: zero_info_def tiny_blobs_def)
  moreover have "disk_sector ?s = (\<lambda>l. replicate 512 0)"
    by (simp add: found_disk_def found_drive_def pio_sector_def blank_drive_def ata_boot_def fun_eq_iff)
  ultimately show ?thesis
    by (auto simp: installed_sectors_def tiny_blobs_def padded_block_def block_def)
qed

subsection \<open>Damage\<close>

lemma concat_blocks_nth:
  assumes "\<And>i. length (f i) = 512" "k < m * 512"
  shows "concat (map f [0..<m]) ! k = f (k div 512) ! (k mod 512)"
  using assms(2)
proof (induction m)
  case (Suc m)
  have l: "length (concat (map f [0..<m])) = m * 512"
    by (simp add: length_concat assms(1) o_def sum_list_triv)
  show ?case
  proof (cases "k < m * 512")
    case True
    with Suc l show ?thesis by (simp add: nth_append)
  next
    case False
    then have "k div 512 = m" using Suc.prems by (simp add: div_nat_eqI)
    moreover from this have "k - m * 512 = k mod 512" using minus_div_mult_eq_mod [of k 512] by simp
    ultimately show ?thesis using False l by (simp add: nth_append)
  qed
qed simp

lemma stored_payload_damage:
  assumes len: "\<And>l. length (sec l) = 512" and k: "k < n"
  shows "stored_payload (sec(2049 + k div 512 := (sec (2049 + k div 512))[k mod 512 := b])) n = (stored_payload sec n)[k := b]"
proof -
  let ?m = "(n + 511) div 512" and ?sec = "sec(2049 + k div 512 := (sec (2049 + k div 512))[k mod 512 := b])"
  have len': "length (?sec l) = 512" for l by (simp add: len)
  have m: "n \<le> ?m * 512" by simp
  have nth: "stored_payload t n ! j = t (2049 + j div 512) ! (j mod 512)" if "\<And>l. length (t l) = 512" "j < n" for t j
    using that m concat_blocks_nth [of "\<lambda>i. t (2049 + i)" j ?m] by (simp add: stored_payload_def)
  have l: "length (stored_payload t n) = n" if "\<And>l. length (t l) = 512" for t
    using m by (simp add: stored_payload_def length_concat that o_def sum_list_triv)
  have l': "length (stored_payload ?sec n) = n" by (rule l [OF len'])
  show ?thesis
  proof (rule nth_equalityI)
    show "length (stored_payload ?sec n) = length ((stored_payload sec n)[k := b])" unfolding l' by (simp add: l len)
    fix j assume "j < length (stored_payload ?sec n)"
    then have j: "j < n" unfolding l' .
    have same: "j = k" if "j div 512 = k div 512" "j mod 512 = k mod 512" using that by (metis div_mult_mod_eq)
    show "stored_payload ?sec n ! j = (stored_payload sec n)[k := b] ! j"
      using j k same by (auto simp: nth [OF len'] nth [OF len] l [OF len] len nth_list_update)
  qed
qed

lemma checksum_update:
  assumes "k < length bs" "b \<noteq> bs ! k"
  shows "checksum (bs[k := b]) \<noteq> checksum bs"
proof -
  have e: "checksum (xs @ y # ys) = checksum xs + ucast y + checksum ys" for xs ys and y :: u8
    by (simp add: checksum_def)
  have "unat (ucast x :: u32) = unat x" for x :: u8
  proof -
    have "unat x < 2 ^ LENGTH(8)" by (rule unsigned_less)
    then show ?thesis by (simp add: unsigned_ucast_eq take_bit_nat_eq_self)
  qed
  then have "ucast b \<noteq> (ucast (bs ! k) :: u32)" using assms(2) by (simp add: word_unat_eq_iff)
  then show ?thesis
    using e [of "take k bs" b "drop (Suc k) bs"] e [of "take k bs" "bs ! k" "drop (Suc k) bs"] assms(1)
    by (simp add: upd_conv_take_nth_drop id_take_nth_drop [symmetric])
qed

text \<open>C13. Damage to the stored file system is noticed: if any one byte of the payload on the disk differs from
  what was saved, \<open>disk_load_fs\<close> returns -1 with "checksum mismatch" and leaves the table in memory alone.\<close>

theorem disk_load_detects_damage:
  assumes "disk_ready lat s" "fs_reachable (d_nodes s)" "disk_save_fs (pio_hw lat ident) s = Some (0, s1)"
    and "disk_ready lat t" "k < 530192" "b \<noteq> disk_sector s1 (2049 + k div 512) ! (k mod 512)"
    and "disk_sector t = (disk_sector s1)(2049 + k div 512 := (disk_sector s1 (2049 + k div 512))[k mod 512 := b])"
  shows "\<exists>t'. disk_load_fs (pio_hw lat ident) t = Some (-1, t') \<and> disk_last_error t' = ''checksum mismatch''
    \<and> d_nodes t' = d_nodes t"
proof -
  note wf = fs_reachable_inv [OF assms(2)]
  let ?P = "image (d_nodes s) @ drop IMAGE_SIZE (d_payload s)"
  have rest: "length (drop IMAGE_SIZE (d_payload s)) = 1566448"
    using assms(1) by (simp add: disk_ready_def disk_sized_def)
  have il: "length (image (d_nodes s)) = IMAGE_SIZE" using wf by (simp add: image_length)
  have s1: "disk_ready lat s1" "disk_sector s1 = saved_sectors (image (d_nodes s)) ?P (disk_sector s)"
    using pdisk_save [OF assms(1), of ident] wf assms(3) by (auto simp: fs_wf_def)
  have len: "length (disk_sector s1 l) = 512" for l using s1(1) by (auto simp: disk_ready_def intro: pio.sector_length)
  have p: "stored_payload (disk_sector s1) IMAGE_SIZE = image (d_nodes s)"
    unfolding s1(2) by (rule saved_payload [OF il rest])
  have h: "dec_disk_header (take 20 (disk_sector t 2048)) = fs_header (word_of_nat IMAGE_SIZE) (image (d_nodes s))"
    unfolding assms(7) s1(2) using saved_header [OF il] by simp
  have old: "image (d_nodes s) ! k = disk_sector s1 (2049 + k div 512) ! (k mod 512)"
    using concat_blocks_nth [of "\<lambda>i. disk_sector s1 (2049 + i)" k 1036] len assms(5) p [symmetric]
    by (simp add: stored_payload_def)
  have q: "stored_payload (disk_sector t) IMAGE_SIZE = (image (d_nodes s))[k := b]"
    unfolding assms(7) p [symmetric] by (rule stored_payload_damage [OF len assms(5)])
  have "checksum (stored_payload (disk_sector t) IMAGE_SIZE) \<noteq> checksum (image (d_nodes s))"
    unfolding q by (rule checksum_update) (use assms(5,6) il old in simp_all)
  then have "load_outcome (disk_sector t) (d_nodes t) = (-1, ''checksum mismatch'', d_nodes t)"
    unfolding load_outcome_def h Let_def by (simp add: fs_header_def disk_magic_def)
  with pdisk_load [OF assms(4), of ident] show ?thesis by (auto simp: disk_last_error_def)
qed

theorem disk_load_detects_damage_witness:
  "\<exists>s1 t t'. disk_save_fs (pio_hw 7 []) (found_disk sample_table) = Some (0, s1)
     \<and> disk_sector t 2049 \<noteq> disk_sector s1 2049 \<and> (\<forall>l. l \<noteq> 2049 \<longrightarrow> disk_sector t l = disk_sector s1 l)
     \<and> disk_load_fs (pio_hw 7 []) t = Some (-1, t') \<and> disk_last_error t' = ''checksum mismatch''"
proof -
  let ?s = "found_disk sample_table"
  have r: "fs_reachable (d_nodes ?s)" "fs_mem (d_nodes ?s)"
    using sample_table_reachable sample_table_wf by (simp_all add: fs_wf_def)
  obtain s1 where s1: "disk_save_fs (pio_hw 7 []) ?s = Some (0, s1)" "disk_ready 7 s1"
    using pdisk_save [OF found_disk_ready r(2), of "[]"] by blast
  let ?b = "disk_sector s1 2049 ! 0 + 1" and ?a = "d_ata s1"
  let ?bs = "(disk_sector s1 2049)[0 := ?b]"
  have ready: "pio_ready 7 ?a" using s1(2) by (simp add: disk_ready_def)
  then have len: "length (disk_sector s1 2049) = 512" by (rule pio.sector_length)
  obtain a where a: "pio_ready 7 a" "pio_sector a = (pio_sector ?a)(2049 := take 512 ?bs)"
    using pio.write_ok [OF ready, of 2049 ?bs "[]" 0] len by auto
  define t where "t = s1\<lparr>d_ata := a\<rparr>"
  have t: "disk_ready 7 t" "disk_sector t = (disk_sector s1)(2049 := ?bs)"
    using s1(2) a len by (simp_all add: t_def disk_ready_def disk_sized_def)
  obtain t' where t': "disk_load_fs (pio_hw 7 []) t = Some (-1, t')" "disk_last_error t' = ''checksum mismatch''"
    using disk_load_detects_damage [OF found_disk_ready r(1) s1(1) t(1), of 0 ?b] t(2) by auto
  have "?bs ! 0 = ?b" using len by simp
  then have "?bs \<noteq> disk_sector s1 2049" by (metis add_cancel_left_right one_neq_zero)
  with t s1(1) t' show ?thesis by (intro exI [of _ s1] exI [of _ t] exI [of _ t']) simp
qed

end
