(* ===== verification/InstallerProps.thy ===== *)
theory InstallerProps
  imports InstallerFiles DiskProps
begin

text \<open>
  Properties of kernel/installer.c: what an installation leaves on the disk, and what loading finds there; and the defects of the text that it writes.
\<close>

subsection \<open>Painting leaves the disk alone\<close>

definition still :: "('h, 'z) ui_scheme \<Rightarrow> ('h, 'z) ui_scheme \<Rightarrow> bool" where
  "still s t \<longleftrightarrow> wizard_ok t \<and> u_disk t = u_disk s"

lemma paint_disk: "paint calls s = Some t \<Longrightarrow> u_disk t = u_disk s"
  by (auto simp: paint_def bind_eq_Some_conv)

lemma paint_step_disk: "paint_step i col s = Some t \<Longrightarrow> u_disk t = u_disk s"
  by (auto simp: paint_step_def bind_eq_Some_conv dest: paint_disk)

lemma paint_pending_disk: "paint_pending is s = Some t \<Longrightarrow> u_disk t = u_disk s"
  by (induction "is" arbitrary: s) (auto simp: bind_eq_Some_conv dest: paint_step_disk)

lemma paint_progress_disk: "paint_progress pct s = Some t \<Longrightarrow> u_disk t = u_disk s"
  by (auto simp: paint_progress_def bind_eq_Some_conv dest: paint_disk)

lemma gives_still: "steps wizard_ok m s \<Longrightarrow> (\<And>t. m = Some t \<Longrightarrow> u_disk t = u_disk s) \<Longrightarrow> gives (still s) m"
  by (auto simp: steps_def still_def moves_def)

lemma still_paint: "wizard_ok s \<Longrightarrow> calls_safe calls \<Longrightarrow> gives (still s) (paint calls s)"
  by (rule gives_still [OF wz.steps_paint]) (auto dest: paint_disk)

lemma still_step: "wizard_ok s \<Longrightarrow> i < 5 \<Longrightarrow> gives (still s) (paint_step i col s)"
  by (rule gives_still [OF steps_mark]) (auto dest: paint_step_disk)

lemma still_progress: "wizard_ok s \<Longrightarrow> gives (still s) (paint_progress pct s)"
  by (rule gives_still [OF steps_progress]) (auto dest: paint_progress_disk)

lemma still_pending: "wizard_ok s \<Longrightarrow> \<forall>i \<in> set is. i < 5 \<Longrightarrow> gives (still s) (paint_pending is s)"
  by (rule gives_still [OF steps_pending]) (auto dest: paint_pending_disk)

text \<open>A step of the installation that succeeds.\<close>

lemma do_step_done:
  assumes "wizard_ok s" "idx < 5" "f (u_disk s) = Some (0, d)" "disk_keeps (u_disk s) d"
  shows "gives (\<lambda>r. \<exists>t. r = Done () t \<and> wizard_ok t \<and> u_disk t = d) (do_step idx f s)"
proof -
  have ok: "wizard_ok (t\<lparr>u_disk := d\<rparr>)" if "still s t" for t
    using that assms(4) by (simp add: still_def wizard_ok_def disk_keeps_def)
  have dsk: "gives (\<lambda>(r, u). r = 0 \<and> wizard_ok u \<and> u_disk u = d) (ui_dsk f t)" if "still s t" for t
    using ok [OF that] assms(3) that by (simp add: ui_dsk_def still_def)
  show ?thesis
    unfolding do_step_def
    by (rule gives_bind [OF still_step [OF assms(1,2)]], rule gives_bind [OF still_progress], simp add: still_def,
        rule gives_bind_pair [OF dsk], simp add: still_def, simp only: prod.case, elim conjE, simp only: if_False simp_thms,
        rule gives_bind [OF still_step [OF _ assms(2)]], assumption)
      (simp add: still_def)
qed

subsection \<open>The file system calls leave the rest of the disk alone\<close>

abbreviation bare :: "('h, 'z) ui_scheme \<Rightarrow> 'h disk" where
  "bare s \<equiv> (u_disk s)\<lparr>d_nodes := []\<rparr>"

lemma ui_calls_bare:
  "ui_mkdir n p owner mode s = Some t \<Longrightarrow> bare t = bare s" "ui_write n p b k s = Some t \<Longrightarrow> bare t = bare s"
  "ui_write_string n p x s = Some t \<Longrightarrow> bare t = bare s"
  by (auto simp: ui_mkdir_def ui_write_def ui_write_string_def ui_fs_def bind_eq_Some_conv)

lemma install_directories_bare: "install_directories w s = Some t \<Longrightarrow> bare t = bare s"
  by (auto simp: install_directories_def bind_eq_Some_conv dest!: ui_calls_bare split: if_splits)

lemma install_files_bare: "install_files w s = Some t \<Longrightarrow> bare t = bare s"
  by (auto simp: install_files_def bind_eq_Some_conv dest!: ui_calls_bare split: if_splits)

lemma bare_ready: "bare t = bare s \<Longrightarrow> disk_ready lat (u_disk t) \<longleftrightarrow> disk_ready lat (u_disk s)"
  by (cases "u_disk t"; cases "u_disk s") (simp add: disk_ready_def disk_sized_def)

lemma bare_same: "bare t = bare s \<Longrightarrow> d_ata (u_disk t) = d_ata (u_disk s) \<and> d_payload (u_disk t) = d_payload (u_disk s)"
  by (cases "u_disk t"; cases "u_disk s") simp

subsection \<open>The installation\<close>

definition installed :: "wiz \<Rightarrow> entry list" where
  "installed w = installed_dirs (cstr (w_username w)) @ installed_files (cstr (w_hostname w)) (cstr (w_timezone w)) (cstr (w_username w))"

lemma gives_built:
  "steps wizard_ok m s \<Longrightarrow> gives (holding es) m \<Longrightarrow> (\<And>t. m = Some t \<Longrightarrow> bare t = bare s)
     \<Longrightarrow> gives (\<lambda>t. wizard_ok t \<and> holding es t \<and> bare t = bare s) m"
  by (auto simp: steps_def gives_def moves_def)

lemma directories_built:
  assumes "wizard_ok s" "wiz_ok w" "plain_name (cstr (w_username w))" "ui_nodes s = init_table"
  shows "gives (\<lambda>t. wizard_ok t \<and> holding (installed_dirs (cstr (w_username w))) t \<and> bare t = bare s) (install_directories w s)"
  by (rule gives_built [OF steps_directories [OF assms(1,2)] gives_directories [OF assms(4,3)]])
    (use assms(2) in \<open>auto simp: wiz_ok_def dest: install_directories_bare\<close>)

lemma files_built:
  assumes "wizard_ok s" "wiz_ok w" "plain_name (cstr (w_username w))" "holding (installed_dirs (cstr (w_username w))) s"
  shows "gives (\<lambda>t. wizard_ok t \<and> holding (installed w) t \<and> bare t = bare s) (install_files w s)"
  unfolding installed_def
  by (rule gives_built [OF steps_files [OF assms(1,2)] gives_files [OF assms(1,2,4,3)]]) (auto dest: install_files_bare)

lemma gives_andthen:
  "gives (\<lambda>r. \<exists>t. r = Done a t \<and> wizard_ok t \<and> u_disk t = d) m
     \<Longrightarrow> (\<And>t. wizard_ok t \<Longrightarrow> u_disk t = d \<Longrightarrow> gives P (f a t)) \<Longrightarrow> gives P (andthen m f)"
  by (auto simp: gives_def)

lemma format_ready:
  assumes "disk_ready lat s"
  shows "\<exists>s1. disk_format_fs (pio_hw lat ident) s = Some (0, s1) \<and> disk_ready lat s1 \<and> d_nodes s1 = init_table
    \<and> (\<forall>l. l < 2048 \<or> 3085 \<le> l \<longrightarrow> disk_sector s1 l = disk_sector s l)"
proof -
  have s: "disk_ready lat (s\<lparr>d_nodes := init_table\<rparr>)" using assms by (simp add: disk_ready_def disk_sized_def)
  obtain s1 where 1: "disk_save_fs (pio_hw lat ident) (s\<lparr>d_nodes := init_table\<rparr>) = Some (0, s1)" "disk_ready lat s1"
    "d_nodes s1 = init_table" "d_error s1 = ''ok''"
    "disk_sector s1 = saved_sectors (image init_table) (image init_table @ drop IMAGE_SIZE (d_payload s)) (disk_sector s)"
    using pdisk_save [OF s, of ident] init_table_wf by (auto simp: fs_wf_def)
  have "s1\<lparr>d_error := ''ok''\<rparr> = s1" using 1(4) by simp
  with 1 show ?thesis by (auto simp: disk_format_fs_def fs_init_eq saved_sectors_def disk_ready_def disk_sized_def)
qed

lemma save_ready:
  assumes "disk_ready lat s" "lays (d_nodes s) (Dir 0 ''/'' 0 FS_DEFAULT_DIR_MODE # es)"
  shows "\<exists>s1. disk_save_fs (pio_hw lat ident) s = Some (0, s1) \<and> disk_ready lat s1
    \<and> (\<forall>l. l < 2048 \<or> 3085 \<le> l \<longrightarrow> disk_sector s1 l = disk_sector s l)
    \<and> (\<forall>d. disk_ready lat d \<longrightarrow> disk_sector d = disk_sector s1 \<longrightarrow> (\<exists>d'. disk_load_fs (pio_hw lat ident) d = Some (0, d')
         \<and> d_nodes d' = d_nodes s))"
proof -
  let ?P = "image (d_nodes s) @ drop IMAGE_SIZE (d_payload s)"
  note wf = laysD(2) [OF assms(2)]
  have rest: "length (drop IMAGE_SIZE (d_payload s)) = 1566448" using assms(1) by (simp add: disk_ready_def disk_sized_def)
  obtain s1 where 1: "disk_save_fs (pio_hw lat ident) s = Some (0, s1)" "disk_ready lat s1"
    "disk_sector s1 = saved_sectors (image (d_nodes s)) ?P (disk_sector s)"
    using pdisk_save [OF assms(1), of ident] wf by (auto simp: fs_wf_def)
  have "is_entry (d_nodes s ! 0) (Dir 0 ''/'' 0 FS_DEFAULT_DIR_MODE)" using laysD(5) [OF assms(2), of 0] by simp
  then have reset: "root_attr_reset (d_nodes s) = d_nodes s"
    by (cases "d_nodes s ! 0") (simp add: is_entry_def root_attr_reset_def, metis list_update_id)
  have "load_outcome (disk_sector s1) ns = (0, ''ok'', d_nodes s)" for ns
    unfolding 1(3) using load_saved [OF wf fs_reachable_parents [OF laysD(1) [OF assms(2)]] rest] reset by simp
  then have "\<exists>d'. disk_load_fs (pio_hw lat ident) d = Some (0, d') \<and> d_nodes d' = d_nodes s"
    if "disk_ready lat d" "disk_sector d = disk_sector s1" for d
    using pdisk_load [OF that(1), of ident] that(2) by auto
  with 1 show ?thesis by (auto simp: saved_sectors_def)
qed

definition loads_tree :: "nat \<Rightarrow> u16 list \<Rightarrow> wiz \<Rightarrow> drive disk \<Rightarrow> bool" where
  "loads_tree lat ident w s \<longleftrightarrow> (\<forall>d. disk_ready lat d \<longrightarrow> disk_sector d = disk_sector s \<longrightarrow>
     (\<exists>d'. disk_load_fs (pio_hw lat ident) d = Some (0, d') \<and> lays (d_nodes d') (installed w)))"

lemma save_done:
  fixes u :: "(drive, 'z) ui_scheme"
  assumes "wizard_ok u" "holding (installed w) u" "disk_ready lat (u_disk u)"
  shows "gives (\<lambda>r. \<exists>t. r = Done 1 t \<and> disk_ready lat (u_disk t)
      \<and> (\<forall>l. l < 2048 \<or> 3085 \<le> l \<longrightarrow> disk_sector (u_disk t) l = disk_sector (u_disk u) l) \<and> loads_tree lat ident w (u_disk t))
    (andthen (do_step 4 (disk_save_fs (pio_hw lat ident)) u) (\<lambda>_ v. do { v \<leftarrow> paint_progress 100 v; Some (Done (1 :: int) v) }))"
proof -
  let ?hw = "pio_hw lat ident"
  obtain es where "installed w = Dir 0 ''/'' 0 FS_DEFAULT_DIR_MODE # es" by (simp add: installed_def installed_dirs_def system_dirs_def)
  with save_ready [OF assms(3), of es] assms(2) obtain d3 where 3: "disk_save_fs ?hw (u_disk u) = Some (0, d3)" "disk_ready lat d3"
    "\<forall>l. l < 2048 \<or> 3085 \<le> l \<longrightarrow> disk_sector d3 l = disk_sector (u_disk u) l" "loads_tree lat ident w d3"
    by (metis loads_tree_def)
  have "disk_keeps (u_disk u) d3" using disk_steps(3) [of "u_disk u" ?hw] assms(1) 3(1) by (auto simp: wizard_ok_def)
  from do_step_done [where f = "disk_save_fs ?hw", OF assms(1) _ 3(1) this] show ?thesis
    by (rule gives_andthen) (simp, rule gives_bind [OF still_progress], assumption, use 3 in \<open>simp add: still_def\<close>)
qed

lemma install_then_load:
  assumes "wizard_ok s" "wiz_ok w" "plain_name (cstr (w_username w))" "disk_ready lat (u_disk s)"
    and "disk_get_info (u_disk s) (disk_selected (u_disk s)) (Some zero_info) = Some (0, Some i)"
    and "in_sectors28 i = 0 \<or> 6144 \<le> in_sectors28 i"
    and "512 \<le> length (bl_bootsect bl)" "length (bl_kernel bl) \<le> 1920 * 512" "bl_entry bl < length (bl_kernel bl)"
  shows "\<exists>t. stage_install (pio_hw lat ident) bl w s = Some (Done 1 t) \<and> disk_ready lat (u_disk t)
    \<and> (\<forall>l. l < 2048 \<or> 3085 \<le> l \<longrightarrow> disk_sector (u_disk t) l = installed_sectors bl (disk_sector (u_disk s)) l)
    \<and> loads_tree lat ident w (u_disk t)"
proof -
  let ?hw = "pio_hw lat ident" and ?keep = "\<lambda>l. l < 2048 \<or> 3085 \<le> l"
  have info: "\<not> (0 = (0::int) \<and> in_sectors28 (the (Some i)) > 0 \<and> in_sectors28 (the (Some i)) < 6144)"
    using assms(6) by (auto simp: linorder_not_less)
  have ok: "disk_ok (u_disk s)" using assms(1) by (simp add: wizard_ok_def)
  obtain d1 where 1: "disk_install_system ?hw bl (u_disk s) = Some (0, d1)" "disk_ready lat d1"
    "disk_sector d1 = installed_sectors bl (disk_sector (u_disk s))"
    using pdisk_install [OF assms(4) assms(5) [unfolded disk_selected_def] info assms(7-9), of ident] by auto
  have k1: "disk_keeps (u_disk s) d1" using disk_steps(1) [OF ok, of ?hw bl] 1(1) by auto
  obtain d2 where 2: "disk_format_fs ?hw d1 = Some (0, d2)" "disk_ready lat d2" "d_nodes d2 = init_table"
    "\<forall>l. ?keep l \<longrightarrow> disk_sector d2 l = disk_sector d1 l" using format_ready [OF 1(2)] by blast
  have k2: "disk_keeps d1 d2" using disk_steps(2) [of d1 ?hw] k1 2(1) by (auto simp: disk_keeps_def)
  let ?Q = "\<lambda>t. disk_ready lat (u_disk t) \<and> (\<forall>l. ?keep l \<longrightarrow> disk_sector (u_disk t) l = installed_sectors bl (disk_sector (u_disk s)) l)
    \<and> loads_tree lat ident w (u_disk t)"
  have save: "gives (\<lambda>r. \<exists>t. r = Done (1 :: int) t \<and> ?Q t) (andthen (do_step 4 (disk_save_fs ?hw) u) (\<lambda>_ v. do { v \<leftarrow> paint_progress 100 v; Some (Done 1 v) }))"
    if u: "wizard_ok u" "holding (installed w) u" "bare u = d2\<lparr>d_nodes := []\<rparr>" for u :: "(drive, 'z) ui_scheme"
  proof -
    have "d_ata (u_disk u) = d_ata d2" "disk_ready lat (u_disk u)"
      using u(3) 2(2) by (cases "u_disk u"; cases d2; simp add: disk_ready_def disk_sized_def)+
    note d = this
    from save_done [OF u(1,2) d(2), of ident] show ?thesis by (rule gives_mono) (use d(1) 2(4) 1(3) in auto)
  qed
  have "gives (\<lambda>r. \<exists>t. r = Done 1 t \<and> ?Q t) (stage_install ?hw bl w s)"
    unfolding stage_install_def
    by (rule gives_bind [OF gives_header], rule gives_bind [OF still_paint [OF assms(1)]], (auto simp: int_range_small)[1],
        rule gives_bind [OF still_pending], simp add: still_def, simp, rule gives_bind [OF still_progress], simp add: still_def,
        rule gives_andthen [OF do_step_done [where d = d1]], simp add: still_def, simp, simp add: still_def 1(1), simp add: still_def k1,
        rule gives_andthen [OF do_step_done [where d = d2]], assumption, simp, simp add: 2(1), simp add: k2,
        rule gives_bind [OF still_step], assumption, simp, rule gives_bind [OF still_progress], simp add: still_def,
        rule gives_bind [OF directories_built [OF _ assms(2,3)]], simp add: still_def, simp add: still_def 2(3),
        rule gives_bind [OF still_step], simp, simp, rule gives_bind [OF still_step], simp add: still_def, simp,
        rule gives_bind [OF still_progress], simp add: still_def,
        rule gives_bind [OF files_built [OF _ assms(2,3)]], simp add: still_def, simp add: still_def,
        rule gives_bind [OF still_step], simp, simp, rule save)
      (simp_all add: still_def)
  then show ?thesis by (auto simp: gives_def)
qed

definition sample_wiz :: wiz where
  "sample_wiz = \<lparr>w_disk_index = 0, w_hostname = ''furos'' @ replicate 27 NUL, w_timezone = ''UTC'' @ replicate 29 NUL,
     w_root_pw = replicate 64 NUL, w_username = ''debian'' @ replicate 26 NUL, w_user_pw = replicate 64 NUL\<rparr>"

lemma cstr_padded [simp]: "nul_free t \<Longrightarrow> cstr (t @ replicate (Suc n) NUL) = t"
  by simp

lemma sample_wiz_texts: "cstr (w_hostname sample_wiz) = ''furos''" "cstr (w_timezone sample_wiz) = ''UTC''" "cstr (w_username sample_wiz) = ''debian''"
  by (simp_all add: sample_wiz_def numeral_eq_Suc cstr_def)

lemma sample_wiz_ok: "wiz_ok sample_wiz" "plain_name (cstr (w_username sample_wiz))"
  by (simp_all add: wiz_ok_def sample_wiz_def text_in_def plain_name_def valid_name_def cstr_def numeral_eq_Suc)

definition sample_ui :: "drive ui" where
  "sample_ui = \<lparr>u_disk = found_disk init_table, u_vga = vga_init, u_kbd = keyboard_init, u_polls = [], u_junk = \<lambda>m i. NUL\<rparr>"

lemma sample_ui_ok: "wizard_ok sample_ui"
proof -
  have "pio_ready 7 found_drive" by (rule found_drive_ready)
  then have "disk_ok (found_disk init_table)"
    using found_disk_ready [of init_table] init_table_wf by (simp add: disk_ok_def disk_ready_def pio_ready_def found_disk_def disk_boot_def)
  then show ?thesis by (simp add: wizard_ok_def sample_ui_def vga_init_def vga_ok_def on_screen_def)
qed

subsection \<open>The host name\<close>

text \<open>C23. The installer's first buffer for the host name: it ends the string, overwrites the end with a line feed and then asks for
  the length again, which runs on into memory that nothing has been written to. The code stays within its buffer exactly if
  that memory happens to hold a zero byte behind the name.\<close>

theorem hostname_unterminated:
  assumes "text_in 32 host" "length hn = 34"
  shows "hostname_scratch hn host \<noteq> None \<longleftrightarrow> (\<exists>i. length (cstr host) < i \<and> i \<le> 32 \<and> hn ! i = NUL)"
  by (rule hostname_scratch_iff [OF assms])

theorem hostname_unterminated_witness:
  "hostname_scratch (replicate 34 CHR ''x'') (w_hostname sample_wiz) = None"
proof -
  have "text_in 32 (w_hostname sample_wiz)" by (simp add: sample_wiz_def text_in_def)
  from hostname_unterminated [OF this, of "replicate 34 CHR ''x''"] show ?thesis by auto
qed

subsection \<open>The user name\<close>

text \<open>C25. The account lines: the file /etc/passwd gets the line of root and the line of the user. The buffer is filled up to 120
  characters, which is enough for user names of up to 30 characters; the longest one, of 31, loses the line feed at the end.\<close>

theorem passwd_line_text:
  assumes "text_in 32 user"
  shows "\<exists>b n. passwd_line user = Some (b, n)
    \<and> take n b = (if length (cstr user) \<le> 30 then passwd_lines (cstr user) else butlast (passwd_lines (cstr user)))"
proof -
  obtain b n where 1: "passwd_line user = Some (b, n)" "take n b = take 120 (passwd_lines (cstr user))"
    using passwd_line_filled [OF assms] by (auto simp: gives_def filled_def)
  have l: "length (passwd_lines (cstr user)) = 59 + 2 * length (cstr user)" by (simp add: passwd_lines_def)
  have "length (cstr user) \<le> 31" using assms length_cstr_less [of user] by (simp add: text_in_def)
  then have "length (cstr user) \<le> 30 \<or> length (passwd_lines (cstr user)) = 121" using l by auto
  then have "take 120 (passwd_lines (cstr user)) = (if length (cstr user) \<le> 30 then passwd_lines (cstr user) else butlast (passwd_lines (cstr user)))"
    using l by (auto simp: butlast_conv_take)
  with 1 show ?thesis by simp
qed

theorem passwd_line_text_witness:
  "\<exists>b n. passwd_line (w_username sample_wiz) = Some (b, n) \<and> take n b = ''root:x:0:0:root:/root:/bin/sh'' @ LF #
     ''debian:x:1000:1000::/home/debian:/bin/sh'' @ [LF]"
proof -
  have "text_in 32 (w_username sample_wiz)" by (simp add: sample_wiz_def text_in_def)
  from passwd_line_text [OF this] show ?thesis by (simp add: sample_wiz_texts passwd_lines_def)
qed

text \<open>C24. The characters of the user name are not checked, and the name is used as a path: with the user name
  ../etc/hostname the installer makes no home directory but a directory /etc/hostname that belongs to user 1000,
  in the place of the file for the host name.\<close>

theorem username_is_path:
  assumes "ui_nodes s = init_table" "text_in 32 (w_username w)" "cstr (w_username w) = ''../etc/hostname''"
  shows "\<exists>t. install_directories w s = Some t \<and> lays (ui_nodes t) (system_dirs @ [Dir 2 ''hostname'' 1000 0x1ED])"
proof -
  have "parent_leaf ns 3 ''../etc/hostname'' = Some (2, ''hostname'')" if l: "lays ns system_dirs" for ns
  proof -
    have "leafpart ''../etc/hostname'' = ''hostname''" "dirpart ''../etc/hostname'' = ''../etc''" by (simp_all add: leafpart_def dirpart_def)
    moreover have "nd_parent (ns ! 3) = 0" using laysD(5) [OF l, of 3] by (simp add: system_dirs_def is_entry_def)
    moreover have "lookup ns 0 ''etc'' = Some 2" by (simp add: lays_lookup [OF l]) (simp add: system_dirs_def)
    moreover have "nd_is_dir (ns ! 2)" using laysD(5) [OF l, of 2] by (simp add: system_dirs_def is_entry_def)
    ultimately show ?thesis by (simp add: parent_leaf_def resolve_spec_def walk_step_def valid_name_def)
  qed
  then have "gives (holding (system_dirs @ [Dir 2 ''hostname'' 1000 0x1ED])) (install_directories w s)"
    using gives_directories_at [OF assms(1,2), of 2 "''hostname''"] assms(3) by (simp add: system_dirs_def)
  then show ?thesis by (simp add: gives_def)
qed

theorem username_is_path_witness:
  "\<exists>t. install_directories (sample_wiz\<lparr>w_username := ''../etc/hostname'' @ replicate 17 NUL\<rparr>) sample_ui = Some t
     \<and> lays (ui_nodes t) (system_dirs @ [Dir 2 ''hostname'' 1000 0x1ED])"
  by (rule username_is_path) (simp_all add: sample_ui_def text_in_def cstr_def numeral_eq_Suc)

end
