(* ===== verification/BootProps.thy ===== *)
theory BootProps
  imports InstallerProps ShellProps
begin

text \<open>
  The installer, the disk and the shell together: a machine on which FurOS has been installed starts from the
  installed file system.
\<close>

lemma write_disk: "write_string x s = Some t \<Longrightarrow> sh_disk t = sh_disk s"
  by (auto simp: write_string_def bind_eq_Some_conv)

lemma motd_disk:
  assumes "show_motd s = Some t"
  shows "sh_disk t = sh_disk s"
proof -
  obtain f where "fs_read_file (sh_fs s) fs_get_root (Some ''etc/motd'') = Some f"
    using assms by (auto simp: show_motd_def bind_eq_Some_conv)
  with assms show ?thesis
    by (cases f) (auto simp: show_motd_def set_color_def bind_eq_Some_conv dest!: write_disk split: if_splits)
qed

lemma ready_disk_ok: "disk_ready lat s \<Longrightarrow> fs_mem (d_nodes s) \<Longrightarrow> disk_ok s"
  by (simp add: disk_ok_def disk_ready_def pio_ready_def)

text \<open>Starting the shell on a drive whose sectors hold an installed tree.\<close>

lemma start_installed:
  assumes "length ident = 256" "lat < ATA_POLL_ATTEMPTS" "vga_ok v" "in_viewport v" "disk_ready lat s" "loads_tree lat ident w s"
    "dr_disk d = disk_sector s" "resting d"
  shows "\<exists>u. shell_start (pio_hw lat ident) (shell_boot (disk_boot d ns) v k polls) = Some u
    \<and> lays (sh_fs u) (installed w) \<and> shell_uid u = SHELL_UID_DEBIAN \<and> shell_ok u"
proof -
  let ?hw = "pio_hw lat ident" and ?s = "shell_boot (disk_boot d ns) v k polls"
  have "length (disk_sector s l) = 512" for l using assms(5) by (auto simp: disk_ready_def intro: pio.sector_length)
  then obtain d1 where 1: "disk_init ?hw (disk_boot d init_table) = Some d1" "disk_ready lat d1" "disk_available d1"
    "disk_sector d1 = dr_disk d" "d_nodes d1 = init_table"
    using init_finds_drive [OF assms(1,2) _ assms(8), of init_table] assms(7) by auto
  obtain d2 where 2: "disk_load_fs ?hw d1 = Some (0, d2)" "lays (d_nodes d2) (installed w)"
    using assms(6,7) 1(2,4) by (auto simp: loads_tree_def)
  have "disk_ready lat d2" using pdisk_load [OF 1(2), of ident] 2(1) by auto
  then have ok2: "disk_ok d2" using laysD(2) [OF 2(2)] by (simp add: ready_disk_ok fs_wf_def)
  define t where "t = ?s\<lparr>shell_exit := False, sh_kbd := keyboard_init, sh_disk := d2, shell_cwd := 0, shell_uid := SHELL_UID_DEBIAN\<rparr>"
  have wf: "fs_wf (d_nodes d2)" by (rule laysD(2) [OF 2(2)])
  have "shell_ok t"
    using ok2 wf assms(3,4) at_root [of "d_nodes d2"]
    by (simp add: shell_ok_def t_def shell_boot_def fs_wf_def tree_ok_def root_ok_def own_parent_def)
  from runs_motd [OF this] obtain u where u: "show_motd t = Some u" "sh_step t u" by (auto simp: runs_def)
  have "shell_start ?hw ?s = Some u"
    using 1(1,3) 2(1) u(1)
    by (simp add: shell_start_def fs_init_eq shell_boot_def disk_boot_def on_disk_def t_def fs_get_root_def)
  then show ?thesis using u(2) motd_disk [OF u(1)] 2(2) by (simp add: sh_step_def t_def)
qed

text \<open>C2. From the installer to the shell: with a working drive that is large enough, images that fit, a user name that is a plain
  file name, and a zero in the uninitialised byte that the page of the host name reads (a part of \<open>wizard_ok\<close>), the
  installation succeeds, writes the boot sector, the boot information and the kernel where the boot loader expects them,
  and a machine that is switched on later with a drive that has these sectors and has finished its reset, whatever else its
  memory holds, starts the shell as the user debian with exactly the installed tree: the directories, and the files with
  the host name, the time zone and the accounts that were asked for.\<close>

theorem installed_system_boots:
  assumes "wizard_ok s" "wiz_ok w" "plain_name (cstr (w_username w))" "disk_ready lat (u_disk s)"
    and "disk_get_info (u_disk s) (disk_selected (u_disk s)) (Some zero_info) = Some (0, Some i)"
    and "in_sectors28 i = 0 \<or> 6144 \<le> in_sectors28 i"
    and "512 \<le> length (bl_bootsect bl)" "length (bl_kernel bl) \<le> 1920 * 512" "bl_entry bl < length (bl_kernel bl)"
    and "length ident = 256" "lat < ATA_POLL_ATTEMPTS"
  shows "\<exists>t. stage_install (pio_hw lat ident) bl w s = Some (Done 1 t)
    \<and> (\<forall>l. l < 2048 \<or> 3085 \<le> l \<longrightarrow> disk_sector (u_disk t) l = installed_sectors bl (disk_sector (u_disk s)) l)
    \<and> (\<forall>d ns v k polls. dr_disk d = disk_sector (u_disk t) \<longrightarrow> resting d \<longrightarrow> vga_ok v \<longrightarrow> in_viewport v \<longrightarrow>
        (\<exists>u. shell_start (pio_hw lat ident) (shell_boot (disk_boot d ns) v k polls) = Some u
           \<and> lays (sh_fs u) (installed w) \<and> shell_uid u = SHELL_UID_DEBIAN \<and> shell_ok u))"
  using install_then_load [OF assms(1-9), of ident] start_installed [OF assms(10,11)] by metis

theorem installed_system_boots_witness:
  "\<exists>t. stage_install (pio_hw 7 (replicate 256 0x4141)) tiny_blobs sample_wiz sample_ui = Some (Done 1 t)
    \<and> (\<exists>u. shell_start (pio_hw 7 (replicate 256 0x4141)) (shell_boot (disk_boot (blank_drive\<lparr>dr_disk := disk_sector (u_disk t)\<rparr>) [])
          (vga_set_viewport vga_init 2 22) keyboard_init []) = Some u
        \<and> lays (sh_fs u) (installed sample_wiz) \<and> shell_uid u = SHELL_UID_DEBIAN)"
proof -
  have d: "u_disk sample_ui = found_disk init_table" by (simp add: sample_ui_def)
  have "length (replicate 256 (0x4141 :: u16)) = 256" "7 < ATA_POLL_ATTEMPTS" by (simp_all add: ATA_POLL_ATTEMPTS_def)
  note c = installed_system_boots [OF sample_ui_ok sample_wiz_ok, unfolded d, OF found_disk_ready found_disk_info, of tiny_blobs, OF _ _ _ _ this]
  obtain t where t: "stage_install (pio_hw 7 (replicate 256 0x4141)) tiny_blobs sample_wiz sample_ui = Some (Done 1 t)"
    "\<And>d ns v k polls. dr_disk d = disk_sector (u_disk t) \<Longrightarrow> resting d \<Longrightarrow> vga_ok v \<Longrightarrow> in_viewport v \<Longrightarrow>
        (\<exists>u. shell_start (pio_hw 7 (replicate 256 0x4141)) (shell_boot (disk_boot d ns) v k polls) = Some u
           \<and> lays (sh_fs u) (installed sample_wiz) \<and> shell_uid u = SHELL_UID_DEBIAN \<and> shell_ok u)"
    using c by (auto simp: zero_info_def tiny_blobs_def)
  have "dr_disk (blank_drive\<lparr>dr_disk := disk_sector (u_disk t)\<rparr>) = disk_sector (u_disk t)"
    "resting (blank_drive\<lparr>dr_disk := disk_sector (u_disk t)\<rparr>)"
    using blank_resting by (simp_all add: resting_def drive_drq_def)
  from t(2) [OF this screen_ok] t(1) show ?thesis by blast
qed

end
