(* ===== verification/DesktopDraw.thy ===== *)
theory DesktopDraw
  imports Ui
begin

text \<open>
  kernel/desktop.c: the state of the desktop, the text helpers, the window frame, the panel and the wallpaper.
  A drawing function is the list of the calls it makes. Colours have the names of the source.
\<close>

abbreviation (input) BLK :: u8 where "BLK \<equiv> 0"
abbreviation (input) BLU :: u8 where "BLU \<equiv> 1"
abbreviation (input) RED :: u8 where "RED \<equiv> 4"
abbreviation (input) MAG :: u8 where "MAG \<equiv> 5"
abbreviation (input) LGR :: u8 where "LGR \<equiv> 7"
abbreviation (input) DGR :: u8 where "DGR \<equiv> 8"
abbreviation (input) LGN :: u8 where "LGN \<equiv> 10"
abbreviation (input) LCN :: u8 where "LCN \<equiv> 11"
abbreviation (input) LRD :: u8 where "LRD \<equiv> 12"
abbreviation (input) WHT :: u8 where "WHT \<equiv> 15"

abbreviation (input) WIDTH :: int where "WIDTH \<equiv> 80"
abbreviation (input) TITLEROW :: int where "TITLEROW \<equiv> 0"
abbreviation (input) CTOP :: int where "CTOP \<equiv> 1"
abbreviation (input) CBOT :: int where "CBOT \<equiv> 22"
abbreviation (input) STATROW :: int where "STATROW \<equiv> 23"
abbreviation (input) PANROW :: int where "PANROW \<equiv> 24"

abbreviation (input) EM_DASH :: string where "EM_DASH \<equiv> [CHR 0xE2, CHR 0x80, CHR 0x94]"

subsection \<open>State\<close>

record kate =
  k_buf :: "char list"
  k_len :: nat
  k_pos :: nat
  k_vscroll :: nat
  k_mod :: bool
  k_fname :: "char list"
  k_node :: int
  k_cwd :: int

record settings =
  set_page :: int
  set_field :: int
  set_editing :: bool
  set_input :: "char list"
  set_ilen :: nat
  set_hostname :: "char list"
  set_timezone :: "char list"
  set_username :: "char list"
  set_changed :: bool

text \<open>The globals of desktop.c, the state below it, and what the shell keeps between two terminals.\<close>

record 'h desk = "'h ui" +
  g_ws :: int
  g_app :: int
  fm_entries :: "int list"
  fm_nent :: int
  fm_cwd :: int
  fm_sel :: int
  fm_scroll :: int
  dk_kate :: kate
  dk_set :: settings
  dk_shell :: "'h shell"

definition g_appnames :: "string list" where
  "g_appnames = [''Konsole'', ''Dolphin'', ''KSysGuard'']"

subsection \<open>Strings\<close>

definition spad :: "char list \<Rightarrow> string \<Rightarrow> nat \<Rightarrow> char list option" where
  "spad b s w = do {
     (b, i) \<leftarrow> put_chars b 0 (map (\<lambda>i. if i < length s then s ! i else CHR '' '') [0..<w]);
     wr b w NUL }"

definition scenter :: "int \<Rightarrow> string \<Rightarrow> u8 \<Rightarrow> u8 \<Rightarrow> vga_call" where
  "scenter y s fg bg = (let x = (WIDTH - slen s) div 2 in Str (if x < 0 then 0 else x) y s fg bg)"

text \<open>
  The digits of \<open>u2s\<close> end before place 14, which only \<open>v = 0\<close> sets: the string goes on with what the
  caller's array held there. The result is the array and the index of the first digit.
\<close>

function u2s_digits :: "u32 \<Rightarrow> nat \<Rightarrow> char list \<Rightarrow> (char list \<times> nat) option" where
  "u2s_digits v i buf =
     (if v \<noteq> 0 \<and> i > 0 then do {
        buf \<leftarrow> wr buf (i - 1) (char_of (48 + unat (v mod 10)));
        u2s_digits (v div 10) (i - 1) buf }
      else Some (buf, i))"
  by pat_completeness auto
termination by (relation "measure (\<lambda>(v, i, buf). i)") auto

declare u2s_digits.simps [simp del]

definition u2s :: "u32 \<Rightarrow> char list \<Rightarrow> (char list \<times> nat) option" where
  "u2s v buf = do {
     buf \<leftarrow> wr buf 15 NUL;
     if v = 0 then do { buf \<leftarrow> wr buf 14 (CHR ''0''); Some (buf, 14) }
     else u2s_digits v 14 buf }"

text \<open>The string that the returned pointer points at.\<close>

definition u2s_string :: "u32 \<Rightarrow> char list \<Rightarrow> string option" where
  "u2s_string v buf = do { (buf, i) \<leftarrow> u2s v buf; c_string (drop i buf) }"

subsection \<open>Lines and boxes\<close>

definition hline :: "int \<Rightarrow> int \<Rightarrow> int \<Rightarrow> u8 \<Rightarrow> u8 \<Rightarrow> vga_call list" where
  "hline x y w fg bg = map (\<lambda>i. Put_at (x + i) y 0xC4 fg bg) [0..w - 1]"

definition bbox :: "int \<Rightarrow> int \<Rightarrow> int \<Rightarrow> int \<Rightarrow> u8 \<Rightarrow> u8 \<Rightarrow> vga_call list" where
  "bbox x y w h fg bg =
     [Put_at x y 0xDA fg bg, Put_at (x + w - 1) y 0xBF fg bg, Put_at x (y + h - 1) 0xC0 fg bg, Put_at (x + w - 1) (y + h - 1) 0xD9 fg bg]
     @ concat (map (\<lambda>i. [Put_at (x + i) y 0xC4 fg bg, Put_at (x + i) (y + h - 1) 0xC4 fg bg]) [1..w - 2])
     @ concat (map (\<lambda>j. [Put_at x (y + j) 0xB3 fg bg, Put_at (x + w - 1) (y + j) 0xB3 fg bg,
         Fill_rect (x + 1) (y + j) (w - 2) 1 BLANK fg bg]) [1..h - 2])"

definition titbox :: "int \<Rightarrow> int \<Rightarrow> int \<Rightarrow> int \<Rightarrow> string \<Rightarrow> u8 \<Rightarrow> u8 \<Rightarrow> vga_call list" where
  "titbox x y w h title fg bg = (let tl = slen title; tx = x + 2 in
     bbox x y w h fg bg @ [Put_at tx y 0xC3 fg bg, Str (tx + 1) y title fg bg, Put_at (tx + 1 + tl) y 0xB4 fg bg])"

definition draw_bar :: "int \<Rightarrow> int \<Rightarrow> int \<Rightarrow> int \<Rightarrow> u8 \<Rightarrow> u8 \<Rightarrow> u8 \<Rightarrow> u8 \<Rightarrow> vga_call list" where
  "draw_bar x y barw pct ffg fbg efg ebg = (let filled = (barw * pct) div 100 in
     map (\<lambda>i. if i < filled then Put_at (x + i) y 0xDB ffg fbg else Put_at (x + i) y 0xB0 efg ebg) [0..barw - 1])"

subsection \<open>Panel and windows\<close>

fun task_buttons :: "int \<Rightarrow> char list \<Rightarrow> int \<Rightarrow> string list \<Rightarrow> vga_call list option" where
  "task_buttons app tb i [] = Some []"
| "task_buttons app tb i (nm # nms) = do {
     let bx = 10 + i * 11;
     let fg = (if app = i then WHT else LGR);
     let bg = (if app = i then BLU else DGR);
     tb \<leftarrow> spad tb nm 9;
     t \<leftarrow> c_string tb;
     rest \<leftarrow> task_buttons app tb (i + 1) nms;
     Some ([Put_at bx PANROW (byte_of_char (CHR ''['')) fg bg, Str (bx + 1) PANROW t fg bg,
       Put_at (bx + 10) PANROW (byte_of_char (CHR '']'')) fg bg] @ rest) }"

definition pager_button :: "int \<Rightarrow> int \<Rightarrow> vga_call list" where
  "pager_button ws i = (let px = 44 + i * 3; fg = (if ws = i then WHT else DGR); bg = (if ws = i then LGR else DGR) in
     [Put_at px PANROW (byte_of_char (CHR ''['')) fg bg, Put_at (px + 1) PANROW (word_of_int (49 + i)) fg bg,
      Put_at (px + 2) PANROW (byte_of_char (CHR '']'')) fg bg])"

definition draw_panel :: "'h desk \<Rightarrow> vga_call list option" where
  "draw_panel s = do {
     tasks \<leftarrow> task_buttons (g_app s) (replicate 10 NUL) 0 g_appnames;
     Some ([Fill_rect 0 PANROW WIDTH 1 BLANK WHT DGR,
         Str 0 PANROW ('' '' @ CHR 0x10 # '' FurOS '') WHT MAG, Put_at 9 PANROW 0xB3 WHT DGR]
       @ tasks @ [Put_at 43 PANROW 0xB3 WHT DGR]
       @ concat (map (pager_button (g_ws s)) [0..3])
       @ [Put_at 56 PANROW 0xB3 WHT DGR, Str 57 PANROW '' FurOS 1.0 '' LCN DGR, Put_at 68 PANROW 0x04 LCN DGR,
          Str 69 PANROW ''     '' LCN DGR, Put_at 74 PANROW 0xB3 WHT DGR, Str 75 PANROW ''[OFF]'' LRD DGR]) }"

text \<open>The title, in its array of 72 characters.\<close>

definition window_title :: "string \<Rightarrow> string ptr \<Rightarrow> string option" where
  "window_title appname sub = do {
     (title, pos) \<leftarrow> put_chars (replicate 72 NUL) 0 [CHR '' '', CHR 0x04, CHR '' ''];
     (title, pos) \<leftarrow> append_str title pos 66 appname;
     (title, pos) \<leftarrow> (case sub of None \<Rightarrow> Some (title, pos)
        | Some t \<Rightarrow> if t = [] then Some (title, pos)
            else do {
              (title, pos) \<leftarrow> (if pos < 65 then put_chars title pos [CHR '' '', CHR 0xB3, CHR '' ''] else Some (title, pos));
              append_str title pos 66 t });
     (title, pos) \<leftarrow> put_chars title pos (replicate (68 - pos) (CHR '' ''));
     title \<leftarrow> wr title 68 NUL;
     c_string title }"

definition open_window :: "string \<Rightarrow> string ptr \<Rightarrow> vga_call list option" where
  "open_window appname sub = do {
     title \<leftarrow> window_title appname sub;
     Some [Fill_rect 0 TITLEROW 68 1 BLANK WHT MAG, Str 0 TITLEROW title WHT MAG,
       Put_at 68 TITLEROW 0xB3 LGR DGR, Str 69 TITLEROW ''[^]'' LGR DGR, Str 72 TITLEROW ''[O]'' LGR DGR,
       Put_at 75 TITLEROW 0xB3 LGR DGR, Str 76 TITLEROW ''[X]'' WHT RED, Put_at 79 TITLEROW BLANK WHT RED,
       Fill_rect 0 STATROW WIDTH 1 BLANK LGR DGR, Str 1 STATROW '' FurOS Plasma Edition'' LGR DGR,
       Str (WIDTH - 13) STATROW '' ESC: Close '' LGR DGR] }"

definition set_statusbar :: "string \<Rightarrow> vga_call list" where
  "set_statusbar msg = [Fill_rect 1 STATROW (WIDTH - 14) 1 BLANK LGR DGR, Str 1 STATROW msg LGR DGR]"

subsection \<open>Desktop\<close>

definition draw_wallpaper :: "vga_call list" where
  "draw_wallpaper = concat (map (\<lambda>y. map (\<lambda>x.
     if x mod 4 = 0 \<and> y mod 2 = 0 then Put_at x y 0xFA DGR BLU else Put_at x y BLANK LGR BLU) [0..WIDTH - 1]) [0..STATROW - 1])"

definition logo_lines :: "string list" where
  "logo_lines = [''  ______           ____  ____'',
     '' |  ____|         / __ '' @ CHR 0x5C # ''/ ___|'',
     '' | |__ _   _ _ __| |  | '' @ CHR 0x5C # ''___ '' @ [CHR 0x5C],
     '' |  __| | | | '' @ CHR 0x27 # ''__| |  | |___) |'',
     '' | |  | |_| | |  | |__| |____/'',
     '' |_|   '' @ CHR 0x5C # ''__,_|_|   '' @ CHR 0x5C # ''____/'']"

definition draw_logo :: "vga_call list" where
  "draw_logo = [scenter 2 (logo_lines ! 0) LCN BLU, scenter 3 (logo_lines ! 1) LCN BLU, scenter 4 (logo_lines ! 2) LCN BLU,
     scenter 5 (logo_lines ! 3) LCN BLU, scenter 6 (logo_lines ! 4) LCN BLU, scenter 7 (logo_lines ! 5) LCN BLU,
     scenter 9 (''FurOS 1.0  '' @ CHR 0xB3 # ''  Plasma Edition'') WHT BLU,
     scenter 10 ''Based on Debian GNU/Linux 12 Bookworm'' DGR BLU]"

definition draw_syswidget :: "'h disk \<Rightarrow> vga_call list option" where
  "draw_syswidget d = do {
     have_disk \<leftarrow> (if disk_count d > 0 then do {
         (r, out) \<leftarrow> disk_get_info d 0 (Some zero_info);
         Some (r = 0 \<and> in_present (the out)) }
       else Some False);
     Some (titbox 54 1 25 6 '' System '' LGR DGR
       @ [Str 56 2 ''FurOS 1.0 Plasma   '' LCN DGR, Str 56 3 ''Arch: x86_64       '' LGR DGR,
          Str 56 4 (''VGA:  80'' @ CHR 0xD7 # ''25 16col '') LGR DGR,
          if have_disk then Str 56 5 ''Disk: Available    '' LGN DGR else Str 56 5 ''Disk: None         '' LRD DGR]) }"

definition draw_desk_hints :: "vga_call list" where
  "draw_desk_hints = [Fill_rect 0 STATROW WIDTH 1 BLANK LGR DGR,
     Str 1 STATROW (''[ '' @ CHR 0x10 # '' FurOS ]: Apps   [1-4]: Workspaces   [OFF]: Shutdown'') LGR DGR]"

definition draw_desktop :: "'h desk \<Rightarrow> vga_call list option" where
  "draw_desktop s = do {
     widget \<leftarrow> draw_syswidget (u_disk s);
     panel \<leftarrow> draw_panel s;
     Some (draw_wallpaper @ draw_logo @ widget @ draw_desk_hints @ panel) }"

text \<open>\<open>open_window\<close> and \<open>draw_panel\<close>, as they are called together.\<close>

definition paint_window :: "string \<Rightarrow> string ptr \<Rightarrow> 'h desk \<Rightarrow> 'h desk option" where
  "paint_window appname sub s = do {
     win \<leftarrow> open_window appname sub;
     panel \<leftarrow> draw_panel s;
     paint (win @ panel) s }"

definition paint_panel :: "'h desk \<Rightarrow> 'h desk option" where
  "paint_panel s = do { panel \<leftarrow> draw_panel s; paint panel s }"

end
