(* ===== verification/DesktopDialogs.thy ===== *)
theory DesktopDialogs
  imports DesktopDraw
begin

text \<open>
  kernel/desktop.c: the application launcher, the dialogs, the context menu and the system monitor. The loops end
  by consuming keyboard polls.
\<close>

lemma paint_shorter: "next_key t = Some (k, u) \<Longrightarrow> paint calls s = Some t \<Longrightarrow> length (u_polls u) < length (u_polls s)"
  by (auto dest: next_key_shorter simp: paint_def bind_eq_Some_conv)

lemma paint_then: "next_key s = Some (k, t) \<Longrightarrow> paint calls t = Some u \<Longrightarrow> length (u_polls u) < length (u_polls s)"
  by (auto dest: next_key_shorter simp: paint_def bind_eq_Some_conv)

subsection \<open>Application launcher\<close>

abbreviation (input) KO_X :: int where "KO_X \<equiv> 0"
abbreviation (input) KO_Y :: int where "KO_Y \<equiv> 8"
abbreviation (input) KO_W :: int where "KO_W \<equiv> 32"
abbreviation (input) KO_H :: int where "KO_H \<equiv> 16"
abbreviation (input) KO_NITEMS :: int where "KO_NITEMS \<equiv> 7"

definition ko_item_labels :: "string list" where
  "ko_item_labels = map (\<lambda>t. ''  '' @ CHR 0x10 # t)
     ['' Konsole (Terminal)   '', '' Dolphin (Files)      '', '' KSysGuard            '', '' Kate (Text Editor)   '',
      '' System Settings      '', '' About FurOS          '', '' Shut Down...         '']"

definition ko_item_rows :: "int list" where
  "ko_item_rows = [11, 12, 13, 15, 16, 18, 19]"

text \<open>Items \<open>i\<close> and the following.\<close>

fun kickoff_items :: "int \<Rightarrow> char list \<Rightarrow> int \<Rightarrow> (string \<times> int) list \<Rightarrow> vga_call list option" where
  "kickoff_items sel ibuf i [] = Some []"
| "kickoff_items sel ibuf i ((label, row) # items) = do {
     let fg = (if sel = i then WHT else LGR);
     let bg = (if sel = i then BLU else BLK);
     ibuf \<leftarrow> spad ibuf label 30;
     t \<leftarrow> c_string ibuf;
     rest \<leftarrow> kickoff_items sel ibuf (i + 1) items;
     Some (Str (KO_X + 1) row t fg bg
       # (if i = 2 \<or> i = 4 \<or> i = 6 then
            Put_at KO_X (row + 1) 0xC3 LGR BLK # hline (KO_X + 1) (row + 1) (KO_W - 2) DGR BLK
            @ [Put_at (KO_X + KO_W - 1) (row + 1) 0xB4 LGR BLK]
          else [])
       @ rest) }"

definition draw_kickoff :: "int \<Rightarrow> vga_call list option" where
  "draw_kickoff sel = do {
     items \<leftarrow> kickoff_items sel (replicate 31 NUL) 0 (zip ko_item_labels ko_item_rows);
     Some (bbox KO_X KO_Y KO_W KO_H LGR BLK
       @ [Fill_rect (KO_X + 1) KO_Y (KO_W - 2) 1 BLANK WHT MAG,
          Str (KO_X + 2) KO_Y ('' '' @ CHR 0x10 # '' FurOS Applications '') WHT MAG,
          Str (KO_X + 2) (KO_Y + 1) ''FurOS 1.0 Plasma Edition'' LGR BLK,
          Put_at KO_X (KO_Y + 2) 0xC3 LGR BLK]
       @ hline (KO_X + 1) (KO_Y + 2) (KO_W - 2) DGR BLK @ [Put_at (KO_X + KO_W - 1) (KO_Y + 2) 0xB4 LGR BLK]
       @ items @ [Str (KO_X + 2) (KO_Y + KO_H - 2) ''  ESC: Close launcher   '' DGR BLK]) }"

definition paint_kickoff :: "int \<Rightarrow> ('h, 'z) ui_scheme \<Rightarrow> ('h, 'z) ui_scheme option" where
  "paint_kickoff sel s = do { calls \<leftarrow> draw_kickoff sel; paint calls s }"

lemma paint_kickoff_then: "next_key s = Some (k, t) \<Longrightarrow> paint_kickoff sel t = Some u \<Longrightarrow> length (u_polls u) < length (u_polls s)"
  by (auto simp: paint_kickoff_def bind_eq_Some_conv intro: paint_then)

function kickoff_loop :: "int \<Rightarrow> ('h, 'z) ui_scheme \<Rightarrow> (('h, 'z) ui_scheme, int) outcome option" where
  "kickoff_loop sel s = (case next_key s of
     None \<Rightarrow> Some (Waits s)
   | Some (k, s) \<Rightarrow>
       if k = KEY_UP then do {
         let sel = (if sel > 0 then sel - 1 else sel);
         s \<leftarrow> paint_kickoff sel s;
         kickoff_loop sel s }
       else if k = KEY_DOWN then do {
         let sel = (if sel < KO_NITEMS - 1 then sel + 1 else sel);
         s \<leftarrow> paint_kickoff sel s;
         kickoff_loop sel s }
       else if k = 10 \<or> k = 13 \<or> k = 32 then Some (Done sel s)
       else if k = 27 then Some (Done (-1) s)
       else kickoff_loop sel s)"
  by pat_completeness auto
termination
  by (relation "measure (\<lambda>(sel, s). length (u_polls s))") (auto dest: next_key_shorter paint_kickoff_then)

declare kickoff_loop.simps [simp del]

definition run_kickoff :: "('h, 'z) ui_scheme \<Rightarrow> (('h, 'z) ui_scheme, int) outcome option" where
  "run_kickoff s = do { s \<leftarrow> paint_kickoff 0 s; kickoff_loop 0 s }"

subsection \<open>About and shutdown\<close>

definition run_about :: "('h, 'z) ui_scheme \<Rightarrow> (('h, 'z) ui_scheme, int) outcome option" where
  "run_about s = (let bx = 10; by = 5; bw = 60; bh = 14 in do {
     s \<leftarrow> paint (titbox bx by bw bh '' About FurOS '' LGR BLK
       @ [Str (bx + 2) (by + 1) (logo_lines ! 0) LCN BLK, Str (bx + 2) (by + 2) (logo_lines ! 1) LCN BLK,
          Str (bx + 2) (by + 3) (logo_lines ! 2) LCN BLK, Str (bx + 2) (by + 4) (logo_lines ! 3) LCN BLK,
          Str (bx + 2) (by + 5) (logo_lines ! 4) LCN BLK, Str (bx + 2) (by + 6) (logo_lines ! 5) LCN BLK,
          scenter (by + 7) ''FurOS 1.0  Plasma Edition'' WHT BLK,
          scenter (by + 8) ''Based on Debian GNU/Linux 12 Bookworm'' LGR BLK,
          scenter (by + 9) (''Kernel: FurOS 1.0  |  VGA: 80'' @ CHR 0xD7 # ''25  |  x86_64'') LGR BLK]
       @ hline (bx + 1) (by + 10) (bw - 2) DGR BLK
       @ [scenter (by + 11) ''[ Close ]'' WHT DGR, scenter (by + 12) ''Press any key to close'' DGR BLK,
          Fill_rect (bx + (bw - 11) div 2) (by + 11) 9 1 BLANK WHT DGR, Str (bx + (bw - 11) div 2) (by + 11) ''[ Close ]'' WHT DGR]) s;
     any_key s })"

definition shutdown_calls :: "int \<Rightarrow> vga_call list" where
  "shutdown_calls sel = (let bx = 18; by = 8; bw = 44; bh = 9 in
     titbox bx by bw bh '' Shut Down FurOS '' LGR BLK
     @ [Str (bx + 4) (by + 2) ''Do you want to shut down FurOS?'' WHT BLK,
        Str (bx + 4) (by + 3) ''Any unsaved data will be lost.'' LGR BLK,
        Str (bx + 5) (by + 5) ''[ Shut Down ]'' WHT (if sel = 0 then BLU else DGR),
        Str (bx + 22) (by + 5) ''[ Cancel ]'' WHT (if sel = 1 then BLU else DGR),
        Str (bx + 4) (by + 7) ('' '' @ CHR 0x1B # ''/'' @ CHR 0x1A # '': Select   ENTER: Confirm '') DGR BLK])"

text \<open>\<open>sel ^= 1\<close> on 0 and 1.\<close>

function shutdown_loop :: "int \<Rightarrow> ('h, 'z) ui_scheme \<Rightarrow> (('h, 'z) ui_scheme, bool) outcome option" where
  "shutdown_loop sel s = do {
     s \<leftarrow> paint (shutdown_calls sel) s;
     case next_key s of
       None \<Rightarrow> Some (Waits s)
     | Some (k, s) \<Rightarrow>
         let sel = (if k = KEY_LEFT \<or> k = KEY_RIGHT then 1 - sel else sel);
             sel = (if k = 9 then 1 - sel else sel)
         in if k = 10 \<or> k = 13 then Some (Done (sel = 0) s)
            else if k = 27 then Some (Done False s)
            else shutdown_loop sel s }"
  by pat_completeness auto
termination
  by (relation "measure (\<lambda>(sel, s). length (u_polls s))") (auto intro: paint_shorter)

declare shutdown_loop.simps [simp del]

definition run_shutdown :: "('h, 'z) ui_scheme \<Rightarrow> (('h, 'z) ui_scheme, bool) outcome option" where
  "run_shutdown s = shutdown_loop 1 s"

subsection \<open>Context menu\<close>

abbreviation (input) CTX_X :: int where "CTX_X \<equiv> 25"
abbreviation (input) CTX_Y :: int where "CTX_Y \<equiv> 10"
abbreviation (input) CTX_W :: int where "CTX_W \<equiv> 30"
abbreviation (input) CTX_N :: int where "CTX_N \<equiv> 5"

definition ctx_items :: "string list" where
  "ctx_items = map (\<lambda>t. ''  '' @ CHR 0x10 # t)
     ['' Open Terminal       '', '' Open Files          '', '' Open Text Editor    '', '' System Settings     '', '' Refresh Desktop     '']"

fun ctx_rows :: "int \<Rightarrow> char list \<Rightarrow> int \<Rightarrow> string list \<Rightarrow> vga_call list option" where
  "ctx_rows sel ibuf i [] = Some []"
| "ctx_rows sel ibuf i (item # items) = do {
     ibuf \<leftarrow> spad ibuf item 28;
     t \<leftarrow> c_string ibuf;
     rest \<leftarrow> ctx_rows sel ibuf (i + 1) items;
     Some (Str (CTX_X + 1) (CTX_Y + 1 + i) t (if i = sel then WHT else LGR) (if i = sel then BLU else BLK) # rest) }"

definition ctx_calls :: "int \<Rightarrow> vga_call list option" where
  "ctx_calls sel = do {
     rows \<leftarrow> ctx_rows sel (replicate 29 NUL) 0 ctx_items;
     Some (bbox CTX_X CTX_Y CTX_W (CTX_N + 4) LGR BLK
       @ [Fill_rect (CTX_X + 1) CTX_Y (CTX_W - 2) 1 BLANK WHT MAG, Str (CTX_X + 2) CTX_Y ('' '' @ CHR 0x10 # '' Desktop Menu'') WHT MAG]
       @ hline (CTX_X + 1) (CTX_Y + CTX_N + 2) (CTX_W - 2) DGR BLK
       @ [Str (CTX_X + 2) (CTX_Y + CTX_N + 3) ''ESC: Cancel'' DGR BLK] @ rows) }"

function ctx_loop :: "int \<Rightarrow> ('h, 'z) ui_scheme \<Rightarrow> (('h, 'z) ui_scheme, int) outcome option" where
  "ctx_loop sel s = do {
     calls \<leftarrow> ctx_calls sel;
     s \<leftarrow> paint calls s;
     case next_key s of
       None \<Rightarrow> Some (Waits s)
     | Some (k, s) \<Rightarrow>
         if k = KEY_UP \<and> sel > 0 then ctx_loop (sel - 1) s
         else if k = KEY_DOWN \<and> sel < CTX_N - 1 then ctx_loop (sel + 1) s
         else if k = 10 \<or> k = 13 then Some (Done sel s)
         else if k = 27 then Some (Done (-1) s)
         else ctx_loop sel s }"
  by pat_completeness auto
termination
  by (relation "measure (\<lambda>(sel, s). length (u_polls s))") (auto intro: paint_shorter)

declare ctx_loop.simps [simp del]

definition run_context_menu :: "('h, 'z) ui_scheme \<Rightarrow> (('h, 'z) ui_scheme, int) outcome option" where
  "run_context_menu s = ctx_loop 0 s"

subsection \<open>Run dialog\<close>

definition run_names :: "string list" where
  "run_names = [''konsole'', ''terminal'', ''dolphin'', ''files'', ''kate'', ''editor'', ''settings'', ''sysguard'',
     ''monitor'', ''about'', ''shutdown'']"

definition run_ids :: "int list" where
  "run_ids = [0, 0, 1, 1, 3, 3, 4, 2, 2, 5, 6]"

fun find_app :: "(string \<times> int) list \<Rightarrow> char list \<Rightarrow> int option option" where
  "find_app [] input = Some None"
| "find_app ((nm, i) # apps) input = do {
     r \<leftarrow> kstrcmp input (c_str nm);
     if r = 0 then Some (Some i) else find_app apps input }"

definition dialog_calls :: "char list \<Rightarrow> vga_call list option" where
  "dialog_calls input = do {
     t \<leftarrow> c_string input;
     ibuf \<leftarrow> spad (replicate 23 NUL) t 22;
     field \<leftarrow> c_string ibuf;
     Some (bbox 20 11 40 5 LGR BLK
       @ [Fill_rect 21 11 38 1 BLANK WHT MAG, Str 22 11 ('' '' @ CHR 0x10 # '' Run Application'') WHT MAG,
          Fill_rect 21 12 38 1 BLANK LGR BLK, Str 22 12 ''Run: '' LGR BLK, Str 27 12 field WHT BLU,
          Fill_rect 21 13 38 1 BLANK DGR BLK, Str 22 13 ''konsole dolphin kate settings'' DGR BLK,
          Str 22 14 ''ENTER: Run   ESC: Cancel'' DGR BLK]) }"

function dialog_loop :: "char list \<Rightarrow> nat \<Rightarrow> ('h, 'z) ui_scheme \<Rightarrow> (('h, 'z) ui_scheme, int) outcome option" where
  "dialog_loop input ilen s = do {
     calls \<leftarrow> dialog_calls input;
     s \<leftarrow> paint calls s;
     case next_key s of
       None \<Rightarrow> Some (Waits s)
     | Some (k, s) \<Rightarrow>
         if k = 27 then Some (Done (-1) s)
         else if k = 10 \<or> k = 13 then do {
           app \<leftarrow> find_app (zip run_names run_ids) input;
           case app of
             Some i \<Rightarrow> Some (Done i s)
           | None \<Rightarrow> do {
               s \<leftarrow> paint [Str 22 14 ''Unknown app. Try again. '' LRD BLK] s;
               case next_key s of
                 None \<Rightarrow> Some (Waits s)
               | Some (_, s) \<Rightarrow> dialog_loop input ilen s } }
         else if (k = 8 \<or> k = 127) \<and> ilen > 0 then do {
           input \<leftarrow> wr input (ilen - 1) NUL;
           dialog_loop input (ilen - 1) s }
         else if k \<ge> 32 \<and> k < 127 \<and> ilen < 22 then do {
           input \<leftarrow> wr input ilen (char_of (nat k));
           input \<leftarrow> wr input (ilen + 1) NUL;
           dialog_loop input (ilen + 1) s }
         else dialog_loop input ilen s }"
  by pat_completeness auto
termination
proof (relation "measure (\<lambda>(input, ilen, s). length (u_polls s))", goal_cases)
  case 1
  show ?case by simp
qed (auto intro: paint_shorter dest: paint_shorter less_trans [OF paint_shorter])

declare dialog_loop.simps [simp del]

definition run_dialog :: "('h, 'z) ui_scheme \<Rightarrow> (('h, 'z) ui_scheme, int) outcome option" where
  "run_dialog s = do { input \<leftarrow> wr (replicate 24 NUL) 0 NUL; dialog_loop input 0 s }"

end
