(* ===== verification/DesktopFiles.thy ===== *)
theory DesktopFiles
  imports DesktopDialogs
begin

text \<open>
  kernel/desktop.c: the system monitor and the file manager. Uninitialised arrays are \<^theory_text>\<open>uninit\<close>
  at places of their own.
\<close>

subsection \<open>System monitor\<close>

text \<open>The rows of disks \<open>i\<close> and the following; \<open>sbuf\<close> is the array of the number.\<close>

fun sysmon_disks :: "'h disk \<Rightarrow> char list \<Rightarrow> int list \<Rightarrow> vga_call list option" where
  "sysmon_disks d sbuf [] = Some []"
| "sysmon_disks d sbuf (i # is) = do {
     let row = CTOP + 7 + i;
     (r, out) \<leftarrow> disk_get_info d i (Some zero_info);
     let di = the out;
     calls \<leftarrow> (if r = 0 \<and> in_present di then do {
         sz \<leftarrow> u2s_string (in_sectors28 di div 2048) sbuf;
         m \<leftarrow> c_string (in_model di);
         Some [Str 3 row ''Disk '' LGR BLK, Put_at 8 row (word_of_int (48 + i)) LCN BLK, Str 9 row '': '' LGR BLK,
           Str 11 row m LGR BLK, Str 52 row sz LCN BLK, Str (52 + slen sz) row '' MB  Active'' LGN BLK] }
       else Some [Str 3 row ''Disk '' LGR BLK, Put_at 8 row (word_of_int (48 + i)) DGR BLK, Str 9 row '': Not detected'' DGR BLK]);
     rest \<leftarrow> sysmon_disks d sbuf is;
     Some (calls @ rest) }"

definition sysmon_calls :: "'h desk \<Rightarrow> vga_call list option" where
  "sysmon_calls s = do {
     disks \<leftarrow> sysmon_disks (u_disk s) (uninit s 192 16) [0..2];
     count \<leftarrow> u2s_string (word_of_int (disk_count (u_disk s))) (uninit s 208 16);
     Some ([Fill_rect 0 CTOP WIDTH (CBOT - CTOP + 1) BLANK LGR BLK]
       @ titbox 1 CTOP (WIDTH - 2) 3 '' CPU '' LGR BLK
       @ [Str 3 (CTOP + 1) ''Processor: x86_64  FurOS Kernel  |  Usage: '' LGR BLK]
       @ draw_bar 46 (CTOP + 1) 22 12 LCN BLK DGR BLK @ [Str 69 (CTOP + 1) '' 12%'' LCN BLK]
       @ titbox 1 (CTOP + 3) (WIDTH - 2) 3 '' Memory '' LGR BLK
       @ [Str 3 (CTOP + 4) ''RAM: 1024 MB total  |  Used: 256 MB   '' LGR BLK]
       @ draw_bar 40 (CTOP + 4) 28 25 LCN BLK DGR BLK @ [Str 69 (CTOP + 4) '' 25%'' LCN BLK]
       @ titbox 1 (CTOP + 6) (WIDTH - 2) 5 '' Storage '' LGR BLK @ disks
       @ titbox 1 (CTOP + 11) (WIDTH - 2) 8 '' System Information '' LGR BLK
       @ [Str 3 (CTOP + 12) ''Operating System :'' LGR BLK, Str 23 (CTOP + 12) ''FurOS 1.0 Plasma Edition'' LCN BLK,
          Str 3 (CTOP + 13) ''Kernel           :'' LGR BLK, Str 23 (CTOP + 13) ''FurOS 1.0 (x86_64, bare-metal)'' LCN BLK,
          Str 3 (CTOP + 14) ''Display          :'' LGR BLK,
          Str 23 (CTOP + 14) (''VGA Text Mode 80'' @ CHR 0xD7 # ''25 (16 colors)'') LCN BLK,
          Str 3 (CTOP + 15) ''Desktop          :'' LGR BLK, Str 23 (CTOP + 15) ''KDE Plasma (FurOS Edition)'' LCN BLK,
          Str 3 (CTOP + 16) ''Shell            :'' LGR BLK, Str 23 (CTOP + 16) ''FurSH 1.0'' LCN BLK,
          Str 3 (CTOP + 17) ''Disks detected   :'' LGR BLK, Str 23 (CTOP + 17) count LCN BLK]
       @ set_statusbar ('' KSysGuard '' @ EM_DASH @ '' System Monitor'')) }"

function until_escape :: "('h, 'z) ui_scheme \<Rightarrow> (('h, 'z) ui_scheme, unit) outcome option" where
  "until_escape s = (case next_key s of
     None \<Rightarrow> Some (Waits s)
   | Some (k, s) \<Rightarrow> if k = 27 then Some (Done () s) else until_escape s)"
  by pat_completeness auto
termination
  by (relation "measure (\<lambda>s. length (u_polls s))") (auto dest: next_key_shorter)

declare until_escape.simps [simp del]

definition run_sysmon :: "'h desk \<Rightarrow> ('h desk, unit) outcome option" where
  "run_sysmon s = do {
     s \<leftarrow> paint_window ''KSysGuard'' (Some ''System Monitor'') (s\<lparr>g_app := 2\<rparr>);
     calls \<leftarrow> sysmon_calls s;
     s \<leftarrow> paint calls s;
     andthen (until_escape s) (\<lambda>_ s. Some (Done () (s\<lparr>g_app := -1\<rparr>))) }"

subsection \<open>File manager\<close>

abbreviation (input) FM_ROWS :: int where "FM_ROWS \<equiv> 19"

definition fm_load_dir :: "'h desk \<Rightarrow> 'h desk option" where
  "fm_load_dir s = do {
     (n, out) \<leftarrow> fs_list (ui_nodes s) (fm_cwd s) (fm_entries s) 128;
     Some (s\<lparr>fm_nent := n, fm_entries := out, fm_sel := 0, fm_scroll := 0\<rparr>) }"

text \<open>The name of a node, as it is then used; \<open>fs_get_name\<close> returns the null pointer when the node is not live.\<close>

definition node_text :: "fs \<Rightarrow> int \<Rightarrow> string option" where
  "node_text ns node = do {
     p \<leftarrow> fs_get_name ns node;
     case p of None \<Rightarrow> None | Some b \<Rightarrow> c_string b }"

text \<open>A line of the listing in the array \<open>lbuf\<close> of 81 characters.\<close>

definition fm_line :: "bool \<Rightarrow> string \<Rightarrow> string option" where
  "fm_line isdir nm = do {
     lbuf \<leftarrow> spad (replicate 81 NUL) (if isdir then ''  [D] '' else ''  [F] '') 6;
     (lbuf, p) \<leftarrow> append_str lbuf 6 76 nm;
     (lbuf, p) \<leftarrow> (if isdir \<and> p < 76 then put_chars lbuf p ''/'' else Some (lbuf, p));
     (lbuf, p) \<leftarrow> put_chars lbuf p (replicate (80 - p) (CHR '' ''));
     lbuf \<leftarrow> wr lbuf 80 NUL;
     c_string lbuf }"

fun fm_lines :: "'h desk \<Rightarrow> int list \<Rightarrow> vga_call list option" where
  "fm_lines s [] = Some []"
| "fm_lines s (i # is) = (let ei = fm_scroll s + i in
     if ei \<ge> fm_nent s then Some []
     else do {
       let row = CTOP + 2 + i;
       node \<leftarrow> rd (fm_entries s) (nat ei);
       isdir \<leftarrow> fs_is_dir (ui_nodes s) node;
       let act = (ei = fm_sel s);
       nm \<leftarrow> node_text (ui_nodes s) node;
       line \<leftarrow> fm_line isdir nm;
       rest \<leftarrow> fm_lines s is;
       Some (Str 0 row line (if act then WHT else if isdir then LCN else LGR) (if act then BLU else BLK) # rest) })"

text \<open>The path buffer may stay uninitialised, and the number of entries is printed from the start of its array.\<close>

definition fm_draw :: "'h desk \<Rightarrow> vga_call list option" where
  "fm_draw s = do {
     (_, pathbuf) \<leftarrow> fs_make_path (ui_nodes s) (fm_cwd s) (Some (uninit s 0 80)) 80;
     path \<leftarrow> c_string pathbuf;
     rows \<leftarrow> fm_lines s [0..FM_ROWS - 1];
     (stbuf, _) \<leftarrow> u2s (word_of_int (fm_nent s)) (uninit s 80 32);
     st \<leftarrow> c_string stbuf;
     Some ([Fill_rect 0 CTOP WIDTH 1 BLANK WHT DGR, Str 1 CTOP '' Location: '' WHT DGR, Str 12 CTOP path LCN DGR]
       @ hline 0 (CTOP + 1) WIDTH DGR BLK @ [Fill_rect 0 (CTOP + 2) WIDTH FM_ROWS BLANK LGR BLK]
       @ rows @ hline 0 (CTOP + 2 + FM_ROWS) WIDTH DGR BLK
       @ [Fill_rect 0 (CTOP + 2 + FM_ROWS + 1) WIDTH 1 BLANK LGR DGR, Str 1 (CTOP + 2 + FM_ROWS + 1) st LCN DGR,
          Str (1 + slen st) (CTOP + 2 + FM_ROWS + 1)
            ('' items   '' @ CHR 0x18 # CHR 0x19 # '': Nav   Enter: Open   Bksp: Up   ESC: Close'') LGR DGR]) }"

subsection \<open>Viewing a file\<close>

text \<open>The two loops over the bytes; the list is that of the indices still to come.\<close>

fun skip_lines :: "char list \<Rightarrow> int \<Rightarrow> int \<Rightarrow> nat list \<Rightarrow> nat list option" where
  "skip_lines data scrolly ln [] = Some []"
| "skip_lines data scrolly ln (ci # cis) =
     (if ln < scrolly then do {
        c \<leftarrow> rd data ci;
        skip_lines data scrolly (if c = LF then ln + 1 else ln) cis }
      else Some (ci # cis))"

fun view_chars :: "char list \<Rightarrow> int \<Rightarrow> int \<Rightarrow> int \<Rightarrow> int \<Rightarrow> int \<Rightarrow> int \<Rightarrow> nat list \<Rightarrow> vga_call list option" where
  "view_chars data bx by' bw bh row col [] = Some []"
| "view_chars data bx by' bw bh row col (ci # cis) =
     (if row < bh - 2 then do {
        c \<leftarrow> rd data ci;
        if c = LF then view_chars data bx by' bw bh (row + 1) 0 cis
        else if col < bw - 2 then do {
          rest \<leftarrow> view_chars data bx by' bw bh row (col + 1) cis;
          Some (Put_at (bx + 1 + col) (by' + 1 + row) (byte_of_char c) LGR BLK # rest) }
        else view_chars data bx by' bw bh row col cis }
      else Some [])"

definition view_calls :: "string \<Rightarrow> (char list \<times> nat) option \<Rightarrow> int \<Rightarrow> vga_call list option" where
  "view_calls nm f scrolly = (let bx = 4; by' = CTOP; bw = WIDTH - 8; bh = CBOT - CTOP + 1 in do {
     body \<leftarrow> (case f of
         None \<Rightarrow> Some [Str (bx + 2) (by' + 2) ''(empty file)'' DGR BLK]
       | Some (data, sz) \<Rightarrow> do {
           cis \<leftarrow> skip_lines data scrolly 0 [0..<sz];
           view_chars data bx by' bw bh 0 0 cis });
     Some (titbox bx by' bw bh nm LGR BLK @ [Fill_rect (bx + 1) (by' + 1) (bw - 2) (bh - 2) BLANK LGR BLK] @ body) })"

function view_loop :: "string \<Rightarrow> (char list \<times> nat) option \<Rightarrow> int \<Rightarrow> 'h desk \<Rightarrow> ('h desk, unit) outcome option" where
  "view_loop nm f scrolly s = do {
     calls \<leftarrow> view_calls nm f scrolly;
     s \<leftarrow> paint calls s;
     case next_key s of
       None \<Rightarrow> Some (Waits s)
     | Some (k, s) \<Rightarrow>
         if k = 27 \<or> k = 113 \<or> k = 81 then Some (Done () s)
         else if k = KEY_UP \<and> scrolly > 0 then view_loop nm f (scrolly - 1) s
         else if k = KEY_DOWN then view_loop nm f (scrolly + 1) s
         else view_loop nm f scrolly s }"
  by pat_completeness auto
termination
  by (relation "measure (\<lambda>(nm, f, scrolly, s). length (u_polls s))") (auto intro: paint_shorter)

declare view_loop.simps [simp del]

definition fm_view_file :: "int \<Rightarrow> 'h desk \<Rightarrow> ('h desk, unit) outcome option" where
  "fm_view_file node s = do {
     nm \<leftarrow> node_text (ui_nodes s) node;
     (_, bx_buf) \<leftarrow> fs_make_path (ui_nodes s) node (Some (uninit s 112 80)) 80;
     path \<leftarrow> c_string bx_buf;
     f \<leftarrow> fs_read_file (ui_nodes s) fs_get_root (Some path);
     view_loop nm f 0 s }"

subsection \<open>The loop of the file manager\<close>

definition view_selected :: "int \<Rightarrow> 'h desk \<Rightarrow> ('h desk, bool) outcome option" where
  "view_selected node s = andthen (fm_view_file node s) (\<lambda>_ s. do {
     s \<leftarrow> paint_window ''Dolphin'' (Some ''File Manager'') s;
     Some (Done False s) })"

text \<open>What a key does; True is the \<open>break\<close>.\<close>

definition fm_key :: "int \<Rightarrow> 'h desk \<Rightarrow> ('h desk, bool) outcome option" where
  "fm_key k s =
     (if k = 27 then Some (Done True s)
      else if k = KEY_UP then
        if fm_sel s > 0 then (let sel = fm_sel s - 1 in
          Some (Done False (s\<lparr>fm_sel := sel, fm_scroll := (if sel < fm_scroll s then sel else fm_scroll s)\<rparr>)))
        else Some (Done False s)
      else if k = KEY_DOWN then
        if fm_sel s < fm_nent s - 1 then (let sel = fm_sel s + 1 in
          Some (Done False (s\<lparr>fm_sel := sel, fm_scroll := (if sel \<ge> fm_scroll s + FM_ROWS then sel - FM_ROWS + 1 else fm_scroll s)\<rparr>)))
        else Some (Done False s)
      else if k = 10 \<or> k = 13 then
        if fm_nent s > 0 then do {
          node \<leftarrow> rd (fm_entries s) (nat (fm_sel s));
          isdir \<leftarrow> fs_is_dir (ui_nodes s) node;
          if isdir then do { s \<leftarrow> fm_load_dir (s\<lparr>fm_cwd := node\<rparr>); Some (Done False s) }
          else view_selected node s }
        else Some (Done False s)
      else if k = 8 \<or> k = 127 then do {
        parent \<leftarrow> fs_get_parent (ui_nodes s) (fm_cwd s);
        if parent \<ge> 0 then do { s \<leftarrow> fm_load_dir (s\<lparr>fm_cwd := parent\<rparr>); Some (Done False s) }
        else Some (Done False s) }
      else if (k = 118 \<or> k = 86) \<and> fm_nent s > 0 then do {
        node \<leftarrow> rd (fm_entries s) (nat (fm_sel s));
        isdir \<leftarrow> fs_is_dir (ui_nodes s) node;
        if \<not> isdir then view_selected node s else Some (Done False s) }
      else Some (Done False s))"

partial_function (option) fm_loop :: "'h desk \<Rightarrow> ('h desk, unit) outcome option" where
  "fm_loop s = do {
     calls \<leftarrow> fm_draw s;
     s \<leftarrow> paint (calls @ set_statusbar ('' Dolphin '' @ EM_DASH @ '' File Manager'')) s;
     case next_key s of
       None \<Rightarrow> Some (Waits s)
     | Some (k, s) \<Rightarrow> andthen (fm_key k s) (\<lambda>quit s.
         if quit then Some (Done () (s\<lparr>g_app := -1\<rparr>)) else fm_loop s) }"

definition run_fileman :: "'h desk \<Rightarrow> ('h desk, unit) outcome option" where
  "run_fileman s = do {
     s \<leftarrow> fm_load_dir (s\<lparr>g_app := 1, fm_cwd := fs_get_root\<rparr>);
     s \<leftarrow> paint_window ''Dolphin'' (Some ''File Manager'') s;
     fm_loop s }"

end
