(* ===== verification/DesktopKate.thy ===== *)
theory DesktopKate
  imports DesktopFiles
begin

text \<open>
  kernel/desktop.c: the text editor. Its buffer of 4096 characters holds \<open>k_len\<close> bytes and the cursor is before
  the byte \<open>k_pos\<close>. Lengths and positions are never negative in C and are \<^theory_text>\<open>nat\<close> here.
\<close>

abbreviation (input) KATE_MAXBUF :: nat where "KATE_MAXBUF \<equiv> 4096"
abbreviation (input) KATE_VROWS :: nat where "KATE_VROWS \<equiv> 18"
abbreviation (input) KATE_GUTTER :: int where "KATE_GUTTER \<equiv> 4"
abbreviation (input) KATE_VCOLS :: nat where "KATE_VCOLS \<equiv> 76"

subsection \<open>Lines and columns\<close>

text \<open>The loops over the bytes; the list is that of the indices.\<close>

fun lineof_loop :: "char list \<Rightarrow> nat \<Rightarrow> nat list \<Rightarrow> nat option" where
  "lineof_loop buf n [] = Some n"
| "lineof_loop buf n (i # is) = do { c \<leftarrow> rd buf i; lineof_loop buf (if c = LF then n + 1 else n) is }"

definition kate_lineof :: "kate \<Rightarrow> nat \<Rightarrow> nat option" where
  "kate_lineof k pos = lineof_loop (k_buf k) 0 [0..<pos]"

fun colof_loop :: "char list \<Rightarrow> nat \<Rightarrow> nat list \<Rightarrow> nat option" where
  "colof_loop buf n [] = Some n"
| "colof_loop buf n (i # is) = do { c \<leftarrow> rd buf i; colof_loop buf (if c = LF then 0 else n + 1) is }"

definition kate_colof :: "kate \<Rightarrow> nat \<Rightarrow> nat option" where
  "kate_colof k pos = colof_loop (k_buf k) 0 [0..<pos]"

fun lnstart_loop :: "char list \<Rightarrow> nat \<Rightarrow> nat \<Rightarrow> nat \<Rightarrow> nat list \<Rightarrow> nat option" where
  "lnstart_loop buf len ln cur [] = Some len"
| "lnstart_loop buf len ln cur (i # is) = do {
     c \<leftarrow> rd buf i;
     if c = LF then if cur + 1 = ln then Some (i + 1) else lnstart_loop buf len ln (cur + 1) is
     else lnstart_loop buf len ln cur is }"

definition kate_lnstart :: "kate \<Rightarrow> nat \<Rightarrow> nat option" where
  "kate_lnstart k ln = (if ln = 0 then Some 0 else lnstart_loop (k_buf k) (k_len k) ln 0 [0..<k_len k])"

fun lnend_loop :: "char list \<Rightarrow> nat \<Rightarrow> nat list \<Rightarrow> nat option" where
  "lnend_loop buf len [] = Some len"
| "lnend_loop buf len (i # is) = do { c \<leftarrow> rd buf i; if c = LF then Some i else lnend_loop buf len is }"

definition kate_lnend :: "kate \<Rightarrow> nat \<Rightarrow> nat option" where
  "kate_lnend k ln = do { s \<leftarrow> kate_lnstart k ln; lnend_loop (k_buf k) (k_len k) [s..<k_len k] }"

subsection \<open>Drawing\<close>

definition kate_scroll :: "nat \<Rightarrow> kate \<Rightarrow> kate" where
  "kate_scroll ln k = (
     let k = (if ln < k_vscroll k then k\<lparr>k_vscroll := ln\<rparr> else k)
     in if ln \<ge> k_vscroll k + KATE_VROWS then k\<lparr>k_vscroll := ln - KATE_VROWS + 1\<rparr> else k)"

text \<open>The text of a line into \<open>lbuf\<close>, with the indices that are left.\<close>

fun kate_copy :: "char list \<Rightarrow> char list \<Rightarrow> nat \<Rightarrow> nat list \<Rightarrow> (char list \<times> nat list) option" where
  "kate_copy buf lbuf nc [] = Some (lbuf, [])"
| "kate_copy buf lbuf nc (bi # bis) = do {
     c \<leftarrow> rd buf bi;
     if c \<noteq> LF \<and> nc < KATE_VCOLS then do { lbuf \<leftarrow> wr lbuf nc c; kate_copy buf lbuf (nc + 1) bis }
     else Some (lbuf, bi # bis) }"

text \<open>To the end of the line, and beyond it.\<close>

fun kate_skip :: "char list \<Rightarrow> nat list \<Rightarrow> nat list option" where
  "kate_skip buf [] = Some []"
| "kate_skip buf (bi # bis) = do { c \<leftarrow> rd buf bi; if c \<noteq> LF then kate_skip buf bis else Some bis }"

fun kate_rows :: "char list \<Rightarrow> char list \<Rightarrow> nat \<Rightarrow> nat list \<Rightarrow> int list \<Rightarrow> vga_call list option" where
  "kate_rows buf nb vscroll bis [] = Some []"
| "kate_rows buf nb vscroll bis (row # rows) = do {
     let y = CTOP + 1 + row;
     p \<leftarrow> u2s_string (word_of_int (int vscroll + row + 1)) nb;
     let gx = KATE_GUTTER - 1 - slen p;
     let gx = (if gx < 0 then 0 else gx);
     lbuf \<leftarrow> kmemset (replicate 77 NUL) (CHR '' '') KATE_VCOLS;
     lbuf \<leftarrow> wr lbuf KATE_VCOLS NUL;
     (lbuf, bis) \<leftarrow> kate_copy buf lbuf 0 bis;
     bis \<leftarrow> kate_skip buf bis;
     line \<leftarrow> c_string lbuf;
     rest \<leftarrow> kate_rows buf nb vscroll bis rows;
     Some (Fill_rect 0 y KATE_GUTTER 1 BLANK DGR BLK # Str gx y p DGR BLK # Str KATE_GUTTER y line LGR BLK # rest) }"

definition kate_status :: "nat \<Rightarrow> nat \<Rightarrow> char list \<Rightarrow> char list \<Rightarrow> string option" where
  "kate_status ln col lnb clb = do {
     ls \<leftarrow> u2s_string (word_of_nat (ln + 1)) lnb;
     cs \<leftarrow> u2s_string (word_of_nat (col + 1)) clb;
     (sb, pi) \<leftarrow> put_chars (replicate 40 NUL) 0 '' Ln '';
     (sb, pi) \<leftarrow> put_chars sb pi ls;
     (sb, pi) \<leftarrow> put_chars sb pi '', Col '';
     (sb, pi) \<leftarrow> put_chars sb pi cs;
     sb \<leftarrow> wr sb pi NUL;
     c_string sb }"

definition kate_cursor :: "nat \<Rightarrow> nat \<Rightarrow> nat \<Rightarrow> vga_call" where
  "kate_cursor ln col vscroll = (
     let cx = KATE_GUTTER + int col;
         cy = CTOP + 1 + (int ln - int vscroll);
         cx = (if cx \<ge> WIDTH then WIDTH - 1 else cx);
         cy = (if cy < CTOP + 1 then CTOP + 1 else cy);
         cy = (if cy > CTOP + int KATE_VROWS then CTOP + int KATE_VROWS else cy)
     in Set_cursor_pos cx cy)"

definition kate_calls :: "nat \<Rightarrow> nat \<Rightarrow> kate \<Rightarrow> 'h desk \<Rightarrow> vga_call list option" where
  "kate_calls ln col k s = do {
     name \<leftarrow> c_string (k_fname k);
     start \<leftarrow> kate_lnstart k (k_vscroll k);
     rows \<leftarrow> kate_rows (k_buf k) (uninit s 224 16) (k_vscroll k) [start..<k_len k] [0..int KATE_VROWS - 1];
     status \<leftarrow> kate_status ln col (uninit s 240 16) (uninit s 256 16);
     Some ([Fill_rect 0 CTOP WIDTH 1 BLANK WHT DGR, Str 1 CTOP '' ['' WHT BLK, Str 3 CTOP name LCN BLK]
       @ (if k_mod k then [Put_at (3 + slen name) CTOP (byte_of_char (CHR ''*'')) LRD BLK] else [])
       @ [Str (3 + slen name + (if k_mod k then 1 else 0)) CTOP ''] '' WHT BLK,
          Str (WIDTH - 16) CTOP ('' Kate '' @ CHR 0xB3 # '' FurOS  '') LGR DGR,
          Fill_rect 0 (CTOP + 1) WIDTH (int KATE_VROWS) BLANK LGR BLK]
       @ rows @ hline 0 (CTOP + 1 + int KATE_VROWS) WIDTH DGR BLK
       @ [Fill_rect 0 (CTOP + 1 + int KATE_VROWS + 1) WIDTH 1 BLANK LGR DGR, Str 1 (CTOP + 1 + int KATE_VROWS + 1) status LGR DGR,
          Str (WIDTH - 32) (CTOP + 1 + int KATE_VROWS + 1) '' F2: Save | Del key: Del | ESC: Close '' LGR DGR,
          kate_cursor ln col (k_vscroll k)]) }"

definition kate_draw :: "'h desk \<Rightarrow> 'h desk option" where
  "kate_draw s = do {
     ln \<leftarrow> kate_lineof (dk_kate s) (k_pos (dk_kate s));
     col \<leftarrow> kate_colof (dk_kate s) (k_pos (dk_kate s));
     let k = kate_scroll ln (dk_kate s);
     calls \<leftarrow> kate_calls ln col k s;
     paint calls (s\<lparr>dk_kate := k\<rparr>) }"

subsection \<open>Editing\<close>

text \<open>\<open>for (i = kate_len; i > pos; i--) { buf[i] = buf[i - 1]; }\<close>\<close>

fun shift_loop :: "char list \<Rightarrow> nat \<Rightarrow> nat \<Rightarrow> char list option" where
  "shift_loop buf pos 0 = Some buf"
| "shift_loop buf pos (Suc i) =
     (if Suc i > pos then do { c \<leftarrow> rd buf i; buf \<leftarrow> wr buf (Suc i) c; shift_loop buf pos i } else Some buf)"

definition kate_shiftright :: "nat \<Rightarrow> kate \<Rightarrow> kate option" where
  "kate_shiftright pos k = do { buf \<leftarrow> shift_loop (k_buf k) pos (k_len k); Some (k\<lparr>k_buf := buf\<rparr>) }"

definition kate_insert :: "char \<Rightarrow> kate \<Rightarrow> kate option" where
  "kate_insert c k =
     (if k_len k \<ge> KATE_MAXBUF - 1 then Some k
      else do {
        k \<leftarrow> kate_shiftright (k_pos k) k;
        buf \<leftarrow> wr (k_buf k) (k_pos k) c;
        Some (k\<lparr>k_buf := buf, k_pos := k_pos k + 1, k_len := k_len k + 1, k_mod := True\<rparr>) })"

text \<open>\<open>kmemcpy(&buf[d], &buf[s], n)\<close>: source and destination overlap, so each byte is read from the array as it is then.\<close>

fun copy_within :: "char list \<Rightarrow> nat \<Rightarrow> nat \<Rightarrow> nat list \<Rightarrow> char list option" where
  "copy_within buf d s [] = Some buf"
| "copy_within buf d s (i # is) = do { c \<leftarrow> rd buf (s + i); buf \<leftarrow> wr buf (d + i) c; copy_within buf d s is }"

definition kate_backspace :: "kate \<Rightarrow> kate option" where
  "kate_backspace k =
     (if k_pos k = 0 then Some k
      else do {
        let pos = k_pos k - 1;
        buf \<leftarrow> copy_within (k_buf k) pos (pos + 1) [0..<k_len k - pos];
        Some (k\<lparr>k_buf := buf, k_pos := pos, k_len := k_len k - 1, k_mod := True\<rparr>) })"

definition kate_delkey :: "kate \<Rightarrow> kate option" where
  "kate_delkey k =
     (if k_pos k \<ge> k_len k then Some k
      else do {
        buf \<leftarrow> copy_within (k_buf k) (k_pos k) (k_pos k + 1) [0..<k_len k - k_pos k - 1];
        Some (k\<lparr>k_buf := buf, k_len := k_len k - 1, k_mod := True\<rparr>) })"

definition kate_move_up :: "kate \<Rightarrow> kate option" where
  "kate_move_up k = do {
     ln \<leftarrow> kate_lineof k (k_pos k);
     col \<leftarrow> kate_colof k (k_pos k);
     if ln = 0 then Some k
     else do {
       ps \<leftarrow> kate_lnstart k (ln - 1);
       ep \<leftarrow> kate_lnend k (ln - 1);
       let len = ep - ps;
       Some (k\<lparr>k_pos := ps + (if col < len then col else len)\<rparr>) } }"

definition kate_move_down :: "kate \<Rightarrow> kate option" where
  "kate_move_down k = do {
     ln \<leftarrow> kate_lineof k (k_pos k);
     col \<leftarrow> kate_colof k (k_pos k);
     ns \<leftarrow> kate_lnstart k (ln + 1);
     stay \<leftarrow> (if ns \<ge> k_len k then
         if k_len k = 0 then Some True else do { c \<leftarrow> rd (k_buf k) (k_len k - 1); Some (c \<noteq> LF) }
       else Some False);
     if stay then Some k
     else do {
       ne \<leftarrow> kate_lnend k (ln + 1);
       let nlen = ne - ns;
       Some (k\<lparr>k_pos := ns + (if col < nlen then col else nlen)\<rparr>) } }"

definition kate_home :: "kate \<Rightarrow> kate option" where
  "kate_home k = do { ln \<leftarrow> kate_lineof k (k_pos k); p \<leftarrow> kate_lnstart k ln; Some (k\<lparr>k_pos := p\<rparr>) }"

definition kate_end :: "kate \<Rightarrow> kate option" where
  "kate_end k = do { ln \<leftarrow> kate_lineof k (k_pos k); p \<leftarrow> kate_lnend k ln; Some (k\<lparr>k_pos := p\<rparr>) }"

text \<open>What a key other than escape and F2 does to the text.\<close>

definition kate_edit :: "int \<Rightarrow> kate \<Rightarrow> kate option" where
  "kate_edit key k =
     (if key = KEY_UP then kate_move_up k
      else if key = KEY_DOWN then kate_move_down k
      else if key = KEY_LEFT then Some (if k_pos k > 0 then k\<lparr>k_pos := k_pos k - 1\<rparr> else k)
      else if key = KEY_RIGHT then Some (if k_pos k < k_len k then k\<lparr>k_pos := k_pos k + 1\<rparr> else k)
      else if key = KEY_F1 then kate_home k
      else if key = KEY_F3 then kate_end k
      else if key = 8 \<or> key = 127 then kate_backspace k
      else if key = 127 \<or> key = KEY_F4 then kate_delkey k
      else if key = 10 \<or> key = 13 then kate_insert LF k
      else if key \<ge> 32 \<and> key < 127 then kate_insert (char_of (nat key)) k
      else Some k)"

subsection \<open>Saving and the loop\<close>

definition kate_save :: "'h hw \<Rightarrow> 'h desk \<Rightarrow> (int \<times> 'h desk) option" where
  "kate_save hw s = do {
     name \<leftarrow> c_string (k_fname (dk_kate s));
     (r, s) \<leftarrow> (if k_node (dk_kate s) < 0 then ui_fs (\<lambda>ns. fs_touch ns (k_cwd (dk_kate s)) (Some name)) s else Some (0, s));
     if r < 0 then Some (-1, s)
     else do {
       (r, s) \<leftarrow> ui_fs (\<lambda>ns. fs_write_file ns (k_cwd (dk_kate s)) (Some name) (Some (k_buf (dk_kate s))) (k_len (dk_kate s))) s;
       if r = 0 then do {
         let s = s\<lparr>dk_kate := (dk_kate s)\<lparr>k_mod := False\<rparr>\<rparr>;
         (_, s) \<leftarrow> (if disk_available (u_disk s) then ui_dsk (disk_save_fs hw) s else Some (0, s));
         Some (0, s) }
       else Some (-1, s) } }"

partial_function (option) prompt_loop :: "'h hw \<Rightarrow> 'h desk \<Rightarrow> ('h desk, bool) outcome option" where
  "prompt_loop hw s = (case next_key s of
     None \<Rightarrow> Some (Waits s)
   | Some (k, s) \<Rightarrow>
       if k = KEY_F2 then do { (_, s) \<leftarrow> kate_save hw s; Some (Done True s) }
       else if k = 100 \<or> k = 68 then Some (Done True s)
       else if k = 27 then Some (Done False s)
       else prompt_loop hw s)"

definition kate_unsaved_prompt :: "'h hw \<Rightarrow> 'h desk \<Rightarrow> ('h desk, bool) outcome option" where
  "kate_unsaved_prompt hw s = do {
     s \<leftarrow> paint [Fill_rect 0 (CBOT - 1) WIDTH 1 BLANK WHT RED,
       Str 1 (CBOT - 1) '' Unsaved changes!  F2=Save & Quit   D=Discard & Quit   ESC=Cancel'' WHT RED] s;
     prompt_loop hw s }"

definition kate_window :: "'h desk \<Rightarrow> 'h desk option" where
  "kate_window s = do { name \<leftarrow> c_string (k_fname (dk_kate s)); paint_window ''Kate'' (Some name) s }"

partial_function (option) kate_loop :: "'h hw \<Rightarrow> 'h desk \<Rightarrow> ('h desk, unit) outcome option" where
  "kate_loop hw s = do {
     s \<leftarrow> kate_draw s;
     case next_key s of
       None \<Rightarrow> Some (Waits s)
     | Some (k, s) \<Rightarrow>
         if k = 27 then
           andthen (if \<not> k_mod (dk_kate s) then Some (Done True s) else kate_unsaved_prompt hw s) (\<lambda>quit s.
             if quit then Some (Done () s) else do { s \<leftarrow> kate_window s; kate_loop hw s })
         else if k = KEY_F2 then do { (_, s) \<leftarrow> kate_save hw s; kate_loop hw s }
         else do { e \<leftarrow> kate_edit k (dk_kate s); kate_loop hw (s\<lparr>dk_kate := e\<rparr>) } }"

text \<open>The text of a file; without one the editor starts empty with the name of a new file.\<close>

definition kate_open :: "int \<Rightarrow> int \<Rightarrow> 'h desk \<Rightarrow> kate option" where
  "kate_open fnode cwd_nd s = do {
     let k = (dk_kate s)\<lparr>k_len := 0, k_pos := 0, k_vscroll := 0, k_mod := False, k_cwd := cwd_nd, k_node := fnode\<rparr>;
     k \<leftarrow> (if fnode \<ge> 0 then do {
         name \<leftarrow> fs_get_name (ui_nodes s) fnode;
         src \<leftarrow> name;
         fname \<leftarrow> kstrncpy (k_fname k) src 47;
         fname \<leftarrow> wr fname 47 NUL;
         (_, fpath) \<leftarrow> fs_make_path (ui_nodes s) fnode (Some (uninit s 272 80)) 80;
         path \<leftarrow> c_string fpath;
         f \<leftarrow> fs_read_file (ui_nodes s) fs_get_root (Some path);
         case f of
           None \<Rightarrow> Some (k\<lparr>k_fname := fname\<rparr>)
         | Some (fdata, fsz) \<Rightarrow> do {
             let fsz = (if fsz > KATE_MAXBUF - 1 then KATE_MAXBUF - 1 else fsz);
             buf \<leftarrow> kmemcpy (k_buf k) fdata fsz;
             Some (k\<lparr>k_fname := fname, k_buf := buf, k_len := fsz\<rparr>) } }
       else do {
         fname \<leftarrow> kstrcpy (k_fname k) (c_str ''untitled.txt'');
         Some (k\<lparr>k_fname := fname\<rparr>) });
     buf \<leftarrow> wr (k_buf k) (k_len k) NUL;
     Some (k\<lparr>k_buf := buf\<rparr>) }"

definition run_kate :: "'h hw \<Rightarrow> int \<Rightarrow> int \<Rightarrow> 'h desk \<Rightarrow> ('h desk, unit) outcome option" where
  "run_kate hw fnode cwd_nd s = do {
     k \<leftarrow> kate_open fnode cwd_nd s;
     s \<leftarrow> kate_window (s\<lparr>dk_kate := k\<rparr>);
     s \<leftarrow> paint [Fill_rect 0 CTOP WIDTH (CBOT - CTOP + 1) BLANK LGR BLK] s;
     kate_loop hw s }"

end
