(* ===== verification/DesktopSafe.thy ===== *)
theory DesktopSafe
  imports UiSafe InstallerSafe DesktopDialogs
begin

text \<open>
  The desktop is safe, first part: text, boxes, windows and the dialogs, for every invariant that is a
  \<^theory_text>\<open>ui_machine\<close>.
\<close>

subsection \<open>Text\<close>

lemma gives_spad: "length b = n \<Longrightarrow> w < n \<Longrightarrow> gives (text_in n) (spad b s w)"
  unfolding spad_def by (rule gives_bind_pair [OF gives_put1 [where n = n]]) (simp_all add: text_in_put)

text \<open>A number of at most \<open>d\<close> digits starts at most \<open>d\<close> places before its end.\<close>

lemma u2s_digits_total:
  "i \<le> 14 \<Longrightarrow> 15 < length b \<Longrightarrow> b ! 15 = NUL \<Longrightarrow> unat v < 10 ^ d \<Longrightarrow>
    gives (\<lambda>(b', j). length b' = length b \<and> b' ! 15 = NUL \<and> j \<le> i \<and> i \<le> j + d) (u2s_digits v i b)"
proof (induction i arbitrary: v b d)
  case (Suc i)
  show ?case
  proof (cases "v = 0")
    case False
    then have "d \<noteq> 0" using Suc.prems(4) by (metis less_one power_0 unat_eq_zero)
    then obtain e where e: "d = Suc e" by (cases d) auto
    have "unat (v div 10) < 10 ^ e" using Suc.prems(4) e by (simp add: unat_div less_mult_imp_div_less mult.commute)
    then have ih: "gives (\<lambda>(b', j). length b' = length b \<and> b' ! 15 = NUL \<and> j \<le> i \<and> i \<le> j + e) (u2s_digits (v div 10) i (b[i := c]))" for c
      using Suc.IH [of "b[i := c]" "v div 10" e] Suc.prems by simp
    show ?thesis
      using Suc.prems False e by (subst u2s_digits.simps) (auto intro: gives_mono [OF ih])
  qed (use Suc.prems in \<open>simp add: u2s_digits.simps\<close>)
qed (simp add: u2s_digits.simps)

lemma gives_u2s: "15 < length b \<Longrightarrow> unat v < 10 ^ d \<Longrightarrow> 1 \<le> d \<Longrightarrow>
    gives (\<lambda>(b', j). length b' = length b \<and> b' ! 15 = NUL \<and> j \<le> 14 \<and> 14 \<le> j + d) (u2s v b)"
  using u2s_digits_total [of 14 "b[15 := NUL]" v d] by (auto simp: u2s_def)

lemma gives_u2s_string:
  assumes "15 < length b" "unat v < 10 ^ d" "1 \<le> d"
  shows "gives (\<lambda>t. length t \<le> d + 1 \<and> nul_free t) (u2s_string v b)"
proof -
  obtain b' j where b: "u2s v b = Some (b', j)" "length b' = length b" "b' ! 15 = NUL" "j \<le> 14" "14 \<le> j + d"
    using gives_u2s [OF assms] by (auto simp: gives_def)
  have at: "drop j b' ! (15 - j) = NUL" "15 - j < length (drop j b')" using b assms(1) by auto
  then have nul: "NUL \<in> set (drop j b')" by (metis nth_mem)
  have "length (cstr (drop j b')) \<le> 15 - j" using cstr_first(2) [OF nul at(2,1)] .
  with b nul show ?thesis by (simp add: u2s_string_def c_string_def)
qed

lemma unat_bound: "unat (v :: u32) < 10 ^ 10"
proof -
  have "unat v < 2 ^ LENGTH(32)" by (rule unsigned_less)
  then show ?thesis by simp
qed

lemmas gives_number = gives_u2s_string [OF _ unat_bound]

subsection \<open>Boxes and windows\<close>

lemma scenter_safe [simp]: "call_safe (scenter y s fg bg)"
  by (simp add: scenter_def Let_def)

lemma hline_safe [simp]: "calls_safe (hline x y w fg bg)"
  by (auto simp: hline_def)

lemma bbox_safe: "small x \<Longrightarrow> small y \<Longrightarrow> small w \<Longrightarrow> small h \<Longrightarrow> calls_safe (bbox x y w h fg bg)"
  by (auto simp: bbox_def small_def intro!: int_range_small)

lemma titbox_safe: "small x \<Longrightarrow> small y \<Longrightarrow> small w \<Longrightarrow> small h \<Longrightarrow> calls_safe (titbox x y w h t fg bg)"
  using bbox_safe by (auto simp: titbox_def Let_def)

lemma draw_bar_safe [simp]: "calls_safe (draw_bar x y barw pct a b c d)"
  by (auto simp: draw_bar_def Let_def)

lemma statusbar_safe [simp]: "calls_safe (set_statusbar t)"
  by (simp add: set_statusbar_def int_range_small)

lemma gives_buttons: "length tb = 10 \<Longrightarrow> gives calls_safe (task_buttons app tb i nms)"
proof (induction nms arbitrary: tb i)
  case (Cons nm nms)
  show ?case
    unfolding task_buttons.simps Let_def
    by (rule gives_bind [OF gives_spad [where n = 10]], use Cons.prems in simp, simp, rule gives_bind [OF gives_c_string [where n = 10]],
        assumption, rule gives_bind [OF Cons.IH])
      (auto simp: text_in_def)
qed simp

lemma gives_panel: "gives calls_safe (draw_panel s)"
  unfolding draw_panel_def
  by (rule gives_bind [OF gives_buttons]) (auto simp: pager_button_def Let_def int_range_small)

lemma gives_window_title: "gives nul_free (window_title a sub)"
proof -
  have rest: "gives (\<lambda>(b, p). length b = 72 \<and> p \<le> 68) (case sub of None \<Rightarrow> Some (title, pos)
        | Some t \<Rightarrow> if t = [] then Some (title, pos)
            else do {
              (title, pos) \<leftarrow> (if pos < 65 then put_chars title pos [CHR '' '', CHR 0xB3, CHR '' ''] else Some (title, pos));
              append_str title pos 66 t })" if l: "length title = 72" and p: "pos \<le> 66" for title pos
  proof (cases sub)
    case (Some t)
    have sep: "gives (\<lambda>(b, p). length b = 72 \<and> p \<le> 67)
        (if pos < 65 then put_chars title pos [CHR '' '', CHR 0xB3, CHR '' ''] else Some (title, pos))"
      by (rule gives_if, rule gives_put [OF l]) (use l p in auto)
    show ?thesis
      unfolding Some option.case
      by (rule gives_if, use l p in simp, rule gives_bind_pair [OF sep], rule gives_append) simp_all
  qed (use that in simp)
  show ?thesis
    unfolding window_title_def
    by (rule gives_bind_pair [OF gives_put1 [where n = 72]], rule length_replicate, simp,
        rule gives_bind_pair [OF gives_append1 [where n = 72]], simp, simp, simp, rule gives_bind_pair [OF rest], simp, simp,
        rule gives_bind_pair [OF gives_put1 [where n = 72]], simp, simp, rule gives_bind [OF gives_wr], simp,
        rule gives_mono [OF gives_c_string [where n = 72]])
      (simp_all add: text_in_put)
qed

lemma gives_window: "gives calls_safe (open_window a sub)"
  unfolding open_window_def by (rule gives_bind [OF gives_window_title]) (simp add: int_range_small)

lemma gives_syswidget:
  assumes "disk_ok d"
  shows "gives calls_safe (draw_syswidget d)"
proof -
  have have_disk: "gives (\<lambda>_. True) (if disk_count d > 0 then do {
         (r, out) \<leftarrow> disk_get_info d 0 (Some zero_info);
         Some (r = 0 \<and> in_present (the out)) } else Some False)"
    using disk_get_info_safe [OF assms, of "Some zero_info" 0] by (auto simp: gives_def zero_info_def)
  have "calls_safe (titbox 54 1 25 6 '' System '' LGR DGR)" by (rule titbox_safe) (simp_all add: small_def)
  then show ?thesis
    unfolding draw_syswidget_def by (intro gives_bind [OF have_disk]) auto
qed

lemma gives_desktop:
  assumes "disk_ok (u_disk s)"
  shows "gives calls_safe (draw_desktop s)"
  unfolding draw_desktop_def
  by (rule gives_bind [OF gives_syswidget [OF assms]], rule gives_bind [OF gives_panel])
    (auto simp: draw_wallpaper_def draw_logo_def draw_desk_hints_def int_range_small)

subsection \<open>Dialogs\<close>

lemma gives_kickoff_items: "length ib = 31 \<Longrightarrow> gives calls_safe (kickoff_items sel ib i items)"
proof (induction items arbitrary: ib i)
  case (Cons x items)
  obtain label row where x: "x = (label, row)" by (cases x)
  show ?case
    unfolding x kickoff_items.simps Let_def
    by (rule gives_bind [OF gives_spad [where n = 31]], use Cons.prems in simp, simp, rule gives_bind [OF gives_c_string [where n = 31]],
        assumption, rule gives_bind [OF Cons.IH])
      (auto simp: text_in_def)
qed simp

lemma gives_kickoff: "gives calls_safe (draw_kickoff sel)"
proof -
  have "calls_safe (bbox 0 8 32 16 LGR BLK)" by (rule bbox_safe) (simp_all add: small_def)
  then show ?thesis
    unfolding draw_kickoff_def by (intro gives_bind [OF gives_kickoff_items]) (auto simp: int_range_small)
qed

lemma gives_ctx_rows: "length ib = 29 \<Longrightarrow> gives calls_safe (ctx_rows sel ib i items)"
proof (induction items arbitrary: ib i)
  case (Cons x items)
  show ?case
    unfolding ctx_rows.simps
    by (rule gives_bind [OF gives_spad [where n = 29]], use Cons.prems in simp, simp, rule gives_bind [OF gives_c_string [where n = 29]],
        assumption, rule gives_bind [OF Cons.IH])
      (auto simp: text_in_def)
qed simp

lemma gives_ctx: "gives calls_safe (ctx_calls sel)"
proof -
  have "calls_safe (bbox 25 10 30 9 LGR BLK)" by (rule bbox_safe) (simp_all add: small_def)
  then show ?thesis
    unfolding ctx_calls_def by (intro gives_bind [OF gives_ctx_rows]) (auto simp: int_range_small)
qed

lemma shutdown_safe: "calls_safe (shutdown_calls sel)"
proof -
  have "calls_safe (titbox 18 8 44 9 '' Shut Down FurOS '' LGR BLK)" by (rule titbox_safe) (simp_all add: small_def)
  then show ?thesis by (auto simp: shutdown_calls_def Let_def)
qed

lemma gives_dialog: "text_in 24 b \<Longrightarrow> gives calls_safe (dialog_calls b)"
proof -
  have box: "calls_safe (bbox 20 11 40 5 LGR BLK)" by (rule bbox_safe) (simp_all add: small_def)
  show "text_in 24 b \<Longrightarrow> gives calls_safe (dialog_calls b)"
    unfolding dialog_calls_def
    by (rule gives_bind [OF gives_c_string], assumption, rule gives_bind [OF gives_spad [where n = 23]], rule length_replicate, simp,
        rule gives_bind [OF gives_c_string [where n = 23]], assumption)
      (use box in \<open>auto simp: int_range_small\<close>)
qed

text \<open>The loops of the dialogs; a key brings them to a state with fewer polls left.\<close>

context ui_machine
begin

lemma steps_kickoff: "ok s \<Longrightarrow> steps ok (paint_kickoff sel s) s"
  unfolding paint_kickoff_def by (rule steps_gives [OF gives_kickoff], rule steps_paint)

lemma goes_kickoff_loop: "ok s \<Longrightarrow> goes ok (\<lambda>_ _. True) (kickoff_loop sel s) s"
proof (induction "length (u_polls s)" arbitrary: sel s rule: less_induct)
  case less
  show ?case
    by (subst kickoff_loop.simps, rule goes_key [OF less(2)])
      (auto simp: Let_def moves_def intro!: goes_if goes_steps [OF steps_kickoff] less(1))
qed

lemma goes_run_kickoff: "ok s \<Longrightarrow> goes ok (\<lambda>_ _. True) (run_kickoff s) s"
  unfolding run_kickoff_def by (rule goes_steps [OF steps_kickoff], assumption, rule goes_kickoff_loop) (erule moves_ok)

lemma goes_about: "ok s \<Longrightarrow> goes ok (\<lambda>_ _. True) (run_about s) s"
proof -
  assume ok: "ok s"
  have box: "calls_safe (titbox 10 5 60 14 '' About FurOS '' LGR BLK)" by (rule titbox_safe) (simp_all add: small_def)
  show ?thesis
    unfolding run_about_def Let_def
    by (rule goes_steps [OF steps_paint [OF ok]], (use box in \<open>auto simp: int_range_small\<close>)[1], rule goes_weaken [OF goes_any_key])
      (auto dest: moves_ok)
qed

lemma goes_shutdown_loop: "ok s \<Longrightarrow> goes ok (\<lambda>_ _. True) (shutdown_loop sel s) s"
proof (induction "length (u_polls s)" arbitrary: sel s rule: less_induct)
  case less
  show ?case
    by (subst shutdown_loop.simps, rule goes_steps [OF steps_paint [OF less(2)]], rule shutdown_safe, rule goes_key, erule moves_ok)
      (auto simp: Let_def moves_def intro!: goes_if less(1))
qed

lemma goes_ctx_loop: "ok s \<Longrightarrow> goes ok (\<lambda>_ _. True) (ctx_loop sel s) s"
proof (induction "length (u_polls s)" arbitrary: sel s rule: less_induct)
  case less
  show ?case
    by (subst ctx_loop.simps, rule goes_gives [OF gives_ctx], rule goes_steps [OF steps_paint [OF less(2)]], assumption,
        rule goes_key, erule moves_ok)
      (auto simp: moves_def intro!: goes_if less(1))
qed

lemma gives_find_app: "text_in n input \<Longrightarrow> gives (\<lambda>_. True) (find_app apps input)"
proof (induction apps)
  case (Cons a apps)
  obtain nm i where "a = (nm, i)" by (cases a)
  moreover have "\<exists>r. kstrcmp input (c_str nm) = Some r"
    using Cons.prems by (intro kstrcmp_total) (simp_all add: text_in_def c_str_def)
  ultimately show ?case using Cons by auto
qed simp

lemma goes_dialog_loop: "text_in 24 input \<Longrightarrow> ilen < 23 \<Longrightarrow> ok s \<Longrightarrow> goes ok (\<lambda>_ _. True) (dialog_loop input ilen s) s"
proof (induction "length (u_polls s)" arbitrary: input ilen s rule: less_induct)
  case less
  have again: "goes ok (\<lambda>_ _. True) (dialog_loop b k u) u"
    if "moves ok s u" "length (u_polls u) < length (u_polls s)" "text_in 24 b" "k < 23" for b k u
    using that by (intro less(1)) (auto simp: moves_def)
  have wr: "wr input i c = Some (input[i := c])" "wr (input[j := d]) i c = Some (input[j := d, i := c])" if "i < 24" for i c j d
    using that less(2) by (simp_all add: text_in_def)
  have put: "text_in 24 (input[i := NUL])" "text_in 24 (input[j := c, i := NUL])" if "i < 24" for i j c
    using that less(2) by (auto intro!: text_in_put simp: text_in_def [of _ input])
  have unknown: "goes ok (\<lambda>_ _. True) (do {
               s \<leftarrow> paint [Str 22 14 ''Unknown app. Try again. '' LRD BLK] u;
               case next_key s of
                 None \<Rightarrow> Some (Waits s)
               | Some (_, s) \<Rightarrow> dialog_loop input ilen s }) u"
    if "moves ok s u" "length (u_polls u) < length (u_polls s)" for u
    by (rule goes_steps [OF steps_paint], rule moves_ok [OF that(1)], simp, rule goes_key, erule moves_ok)
      (use that less(2,3) in \<open>auto simp: moves_def intro!: again\<close>)
  show ?case
    by (subst dialog_loop.simps, rule goes_gives [OF gives_dialog [OF less(2)]], rule goes_steps [OF steps_paint [OF less(4)]], assumption,
        rule goes_key, erule moves_ok, intro goes_if goes_gives [OF gives_find_app [OF less(2)]])
      (use less(2,3) in \<open>auto simp: wr put less_imp_diff_less moves_def intro!: again unknown split: option.split\<close>)
qed

lemma goes_run_dialog: "ok s \<Longrightarrow> goes ok (\<lambda>_ _. True) (run_dialog s) s"
  unfolding run_dialog_def by (rule goes_gives [OF gives_wr_first [OF text_in_replicate [where n = 24]]]) (simp_all add: goes_dialog_loop)

end

end
