(* ===== verification/DesktopFileSafe.thy ===== *)
theory DesktopFileSafe
  imports DesktopSafe DesktopFiles InstallerStageSafe
begin

text \<open>
  The desktop is safe, second part: the invariant \<^theory_text>\<open>desk_ok\<close>, the system monitor and the file
  manager, whose listing stays a listing of live nodes because nothing changes the table while it is open.
\<close>

subsection \<open>The invariant\<close>

definition kate_ok :: "kate \<Rightarrow> bool" where
  "kate_ok k \<longleftrightarrow> length (k_buf k) = 4096 \<and> k_len k < 4096 \<and> k_pos k \<le> k_len k \<and> text_in 48 (k_fname k) \<and> k_cwd k = 0"

definition settings_ok :: "settings \<Rightarrow> bool" where
  "settings_ok p \<longleftrightarrow> text_in 64 (set_input p) \<and> text_in 32 (set_hostname p) \<and> text_in 32 (set_timezone p)
     \<and> text_in 32 (set_username p) \<and> set_ilen p < 64"

text \<open>
  The clause about \<open>u_junk\<close> is about the last bytes of the two path buffers: they stay uninitialised when
  \<open>fs_make_path\<close> fails, and are printed nevertheless.
\<close>

definition desk_ok :: "'h desk \<Rightarrow> bool" where
  "desk_ok s \<longleftrightarrow> disk_ok (u_disk s) \<and> vga_ok (u_vga s) \<and> (\<forall>m. u_junk s m 79 = NUL \<and> u_junk s m 191 = NUL)
     \<and> length (fm_entries s) = 128 \<and> kate_ok (dk_kate s) \<and> settings_ok (dk_set s) \<and> own_parent (ui_nodes s)
     \<and> 0 \<le> shell_cwd (dk_shell s) \<and> in_table (ui_nodes s) (nat (shell_cwd (dk_shell s)))
     \<and> length (wifi_ssid (dk_shell s)) = FS_MAX_NAME + 1 \<and> NUL \<in> set (wifi_ssid (dk_shell s))"

interpretation dk: ui_system desk_ok
  by unfold_locales (simp_all add: desk_ok_def disk_keeps_def)

lemma desk_ok_updates [simp]:
  "desk_ok (s\<lparr>g_app := a\<rparr>) = desk_ok s" "desk_ok (s\<lparr>g_ws := a\<rparr>) = desk_ok s" "desk_ok (s\<lparr>fm_cwd := k\<rparr>) = desk_ok s"
  "desk_ok (s\<lparr>fm_sel := k\<rparr>) = desk_ok s" "desk_ok (s\<lparr>fm_scroll := k\<rparr>) = desk_ok s" "desk_ok (s\<lparr>fm_nent := k\<rparr>) = desk_ok s"
  by (simp_all add: desk_ok_def)

lemma goes_invariant: "goes ok P r s \<Longrightarrow> (\<And>t. ok t \<Longrightarrow> ok' t) \<Longrightarrow> goes ok' P r s"
  by (auto simp: goes_def moves_def split: option.splits outcome.splits)

context ui_machine
begin

lemma goes_until_escape: "ok s \<Longrightarrow> goes ok (\<lambda>_ _. True) (until_escape s) s"
proof (induction "length (u_polls s)" arbitrary: s rule: less_induct)
  case less
  show ?case
    by (subst until_escape.simps, rule goes_key [OF less(2)]) (auto simp: moves_def intro!: goes_if less(1))
qed

end

lemma steps_window: "desk_ok s \<Longrightarrow> steps desk_ok (paint_window a b s) s"
  unfolding paint_window_def
  by (rule steps_gives [OF gives_window], rule steps_gives [OF gives_panel], rule dk.steps_paint) auto

lemma steps_panel: "desk_ok s \<Longrightarrow> steps desk_ok (paint_panel s) s"
  unfolding paint_panel_def by (rule steps_gives [OF gives_panel], rule dk.steps_paint)

subsection \<open>System monitor\<close>

lemma gives_sysmon_disks:
  assumes "disk_ok d" "15 < length sbuf"
  shows "gives calls_safe (sysmon_disks d sbuf is)"
proof (induction "is")
  case (Cons i "is")
  have row: "gives calls_safe (if r = 0 \<and> in_present (the out) then do {
         sz \<leftarrow> u2s_string (in_sectors28 (the out) div 2048) sbuf;
         m \<leftarrow> c_string (in_model (the out));
         Some [Str 3 row ''Disk '' LGR BLK, Put_at 8 row (word_of_int (48 + i)) LCN BLK, Str 9 row '': '' LGR BLK,
           Str 11 row m LGR BLK, Str 52 row sz LCN BLK, Str (52 + slen sz) row '' MB  Active'' LGN BLK] }
       else Some [Str 3 row ''Disk '' LGR BLK, Put_at 8 row (word_of_int (48 + i)) DGR BLK, Str 9 row '': Not detected'' DGR BLK])"
    if "text_in 41 (in_model (the out))" for r :: int and out row
    by (rule gives_if, rule gives_bind [OF gives_number [OF assms(2)]], simp, rule gives_bind [OF gives_c_string [OF that]]) simp_all
  show ?case
    unfolding sysmon_disks.simps Let_def
    by (rule gives_bind_pair [OF gives_info [OF assms(1)]], rule gives_bind [OF row], simp, rule gives_bind [OF Cons.IH]) auto
qed simp

lemma gives_sysmon: "disk_ok (u_disk s) \<Longrightarrow> gives calls_safe (sysmon_calls s)"
proof -
  assume ok: "disk_ok (u_disk s)"
  have box: "call_safe c" if "c \<in> set (titbox x y 78 h t LGR BLK)" "small x" "small y" "small h" for c x y h t
    using titbox_safe [OF that(2,3) _ that(4), of 78] that(1) by (simp add: small_def)
  show ?thesis
    unfolding sysmon_calls_def
    by (rule gives_bind [OF gives_sysmon_disks [OF ok]], simp add: uninit_def, rule gives_bind [OF gives_number], simp add: uninit_def, simp)
      (auto simp: small_def int_range_small intro: box)
qed

lemma goes_sysmon: "desk_ok s \<Longrightarrow> goes desk_ok (\<lambda>_ _. True) (run_sysmon s) s"
proof -
  assume ok: "desk_ok s"
  let ?s = "s\<lparr>g_app := 2\<rparr>"
  have disk: "disk_ok (u_disk t)" if "desk_ok t" for t :: "'a desk" using that by (simp add: desk_ok_def)
  have "goes desk_ok (\<lambda>_ _. True) (do {
     s \<leftarrow> paint_window ''KSysGuard'' (Some ''System Monitor'') ?s;
     calls \<leftarrow> sysmon_calls s;
     s \<leftarrow> paint calls s;
     andthen (until_escape s) (\<lambda>_ s. Some (Done () (s\<lparr>g_app := -1\<rparr>))) }) ?s"
    by (rule goes_steps [OF steps_window], use ok in simp, rule goes_gives [OF gives_sysmon], rule disk, erule moves_ok,
        rule goes_steps [OF dk.steps_paint], erule moves_ok, assumption, rule goes_andthen [OF dk.goes_until_escape], erule moves_ok)
      (auto simp: moves_def)
  then show ?thesis unfolding run_sysmon_def by (rule goes_from) (use ok in \<open>simp add: moves_def\<close>)
qed

subsection \<open>Paths and listings\<close>

lemma path_emit_last:
  "path_emit ns st out pos n = Some (r, pos', out') \<Longrightarrow> n \<le> length out \<Longrightarrow> pos < n \<Longrightarrow> out' ! (n - 1) = out ! (n - 1)"
proof (induction st arbitrary: out pos)
  case (Cons k st)
  from Cons.prems(1) obtain m l where m: "nd_at ns k = Some m" "kstrlen (Some (nd_name m)) = Some l"
    by (auto split: bind_splits)
  show ?case
  proof (cases "pos + l + 1 \<ge> n")
    case True
    with m Cons.prems(1) show ?thesis by simp
  next
    case False
    with m Cons.prems(1) obtain o1 where o1: "kmemcpy_at out pos (nd_name m) l = Some o1" by (auto split: bind_splits)
    then have e: "o1 = take pos out @ take l (nd_name m) @ drop (pos + l) out" "l \<le> length (nd_name m)"
      by (auto simp: kmemcpy_at_eq split: if_splits)
    then have len: "length o1 = length out" and at: "o1 ! (n - 1) = out ! (n - 1)"
      using False Cons.prems(2) by (auto simp: nth_append)
    show ?thesis
    proof (cases "st = []")
      case True
      with m o1 False at Cons.prems(1) show ?thesis by simp
    next
      case more: False
      have "wr o1 (pos + l) (CHR ''/'') = Some (o1[pos + l := CHR ''/''])" using False len Cons.prems(2) by simp
      with m o1 False more Cons.prems have "path_emit ns st (o1[pos + l := CHR ''/'']) (pos + l + 1) n = Some (r, pos', out')"
        by (simp add: Let_def)
      from Cons.IH [OF this] False len at Cons.prems(2) show ?thesis by simp
    qed
  qed
qed simp

lemma gives_path:
  assumes "fs_mem ns" "in_table ns c" "length out = n" "2 \<le> n" "out ! (n - 1) = NUL"
  shows "gives (\<lambda>(r, b). text_in n b) (fs_make_path ns (int c) (Some out) n)"
proof -
  obtain r b where b: "fs_make_path ns (int c) (Some out) n = Some (r, b)" "length b = n" "r = 0 \<longrightarrow> NUL \<in> set b"
    using fs_make_path_in [OF assms(1,2), of out] assms(3,4) by auto
  have "b ! (n - 1) = NUL" if "r \<noteq> 0"
    using b(1) that assms(3-5)
    by (auto simp: fs_make_path_def dest!: path_emit_last split: bind_splits if_splits)
  then have "NUL \<in> set b" using b(2,3) assms(4) nth_mem [of "n - 1" b] by fastforce
  with b show ?thesis by (simp add: text_in_def)
qed

definition listed :: "fs \<Rightarrow> int \<Rightarrow> bool" where
  "listed ns k \<longleftrightarrow> (\<exists>c. k = int c \<and> used_node ns c \<and> in_table ns c)"

lemma fs_list_loop_listed:
  assumes "length ns = FS_MAX_NODES" "in_table ns d"
  shows "set is \<subseteq> {..<FS_MAX_NODES} \<Longrightarrow> count + length is \<le> length out \<Longrightarrow> \<forall>i < count. listed ns (out ! i) \<Longrightarrow>
    gives (\<lambda>(n, out'). length out' = length out \<and> n \<le> count + length is \<and> (\<forall>i < n. listed ns (out' ! i)))
      (fs_list_loop is ns (int d) out (length out) count)"
proof (induction "is" arbitrary: out count)
  case (Cons i "is")
  then have i: "rd ns i = Some (ns ! i)" "i < FS_MAX_NODES" and c: "count < length out" using assms(1) by simp_all
  show ?case
  proof (cases "nd_used (ns ! i) \<and> nd_parent (ns ! i) = int d \<and> int i \<noteq> int d")
    case True
    then have u: "used_node ns i" using i(2) by (simp add: used_node_def)
    then have "in_table ns i" using intab.child_in [OF assms(2)] True by blast
    with u have l: "listed ns (int i)" by (auto simp: listed_def)
    have "\<forall>j < Suc count. listed ns (out[count := int i] ! j)" using Cons.prems(3) l c by (auto simp: nth_list_update less_Suc_eq)
    from Cons.IH [OF _ _ this] True i c Cons.prems show ?thesis by (auto simp: gives_def)
  next
    case False
    with Cons.IH [of count out] i Cons.prems show ?thesis by (auto simp: gives_def)
  qed
qed simp

lemma gives_list:
  assumes "fs_mem ns" "in_table ns d" "length out = 128"
  shows "gives (\<lambda>(n, out'). length out' = 128 \<and> n \<le> 128 \<and> (\<forall>i < nat n. listed ns (out' ! i))) (fs_list ns (int d) out 128)"
proof -
  note len = fs_mem_length [OF assms(1)]
  have sub: "set [0..<FS_MAX_NODES] \<subseteq> {..<FS_MAX_NODES}" and n: "0 + length [0..<FS_MAX_NODES] \<le> length out" using assms(3) by auto
  have "gives (\<lambda>(n, out'). length out' = length out \<and> n \<le> 0 + length [0..<FS_MAX_NODES] \<and> (\<forall>i < n. listed ns (out' ! i)))
      (fs_list_loop [0..<FS_MAX_NODES] ns (int d) out (length out) 0)"
    by (rule fs_list_loop_listed [OF len assms(2) sub n]) simp
  then obtain n out' where "fs_list_loop [0..<FS_MAX_NODES] ns (int d) out 128 0 = Some (n, out')" "length out' = 128" "n \<le> 128"
      "\<forall>i < n. listed ns (out' ! i)"
    using assms(3) by (auto simp: gives_def simp del: upt_rec_numeral)
  then show ?thesis
    using fs_live_total [OF len, of "int d"] len assms(3)
    by (auto simp: fs_list_def nd_at_def used_node_def simp del: upt_rec_numeral)
qed

subsection \<open>File manager\<close>

definition fm_ok :: "'h desk \<Rightarrow> bool" where
  "fm_ok s \<longleftrightarrow> desk_ok s \<and> 0 \<le> fm_cwd s \<and> in_table (ui_nodes s) (nat (fm_cwd s)) \<and> 0 \<le> fm_sel s \<and> 0 \<le> fm_scroll s
     \<and> fm_nent s \<le> 128 \<and> (0 < fm_nent s \<longrightarrow> fm_sel s < fm_nent s) \<and> (\<forall>i < nat (fm_nent s). listed (ui_nodes s) (fm_entries s ! i))"

interpretation fmm: ui_machine fm_ok
  by unfold_locales (simp_all add: fm_ok_def desk_ok_def)

lemma fm_okD:
  assumes "fm_ok s"
  shows "desk_ok s" "fs_mem (ui_nodes s)" "length (ui_nodes s) = FS_MAX_NODES" "length (fm_entries s) = 128"
  using assms fs_mem_length by (auto simp: fm_ok_def desk_ok_def disk_ok_def)

lemma gives_entry: "fm_ok s \<Longrightarrow> 0 \<le> i \<Longrightarrow> i < fm_nent s \<Longrightarrow> gives (listed (ui_nodes s)) (rd (fm_entries s) (nat i))"
  using fm_okD(4) [of s] by (auto simp: fm_ok_def gives_def rd_def)

lemma gives_is_dir: "length ns = FS_MAX_NODES \<Longrightarrow> listed ns k \<Longrightarrow> gives (\<lambda>_. True) (fs_is_dir ns k)"
  by (auto simp: listed_def fs_is_dir_def fs_live_total nd_at_def used_node_def)

lemma gives_node_text:
  assumes "fs_mem ns" "listed ns k"
  shows "gives (\<lambda>_. True) (node_text ns k)"
proof -
  obtain c where c: "k = int c" "used_node ns c" "c < FS_MAX_NODES" using assms(2) by (auto simp: listed_def used_node_def)
  have "NUL \<in> set (nd_name (ns ! c))" using node_ok_NUL fs_mem_node [OF assms(1) c(3)] by blast
  with c fs_mem_length [OF assms(1)] show ?thesis
    by (simp add: node_text_def fs_get_name_def fs_live_total nd_at_def c_string_def)
qed

lemma gives_fm_line: "gives (\<lambda>_. True) (fm_line isdir nm)"
proof -
  have dir: "gives (\<lambda>(b, p). length b = 81 \<and> p \<le> 80) (if isdir \<and> p < 76 then put_chars b p ''/'' else Some (b, p))"
    if "length b = 81" "p \<le> 76" for b p
    by (rule gives_if, rule gives_put) (use that in simp_all)
  show ?thesis
    unfolding fm_line_def
    by (rule gives_bind [OF gives_spad [where n = 81]], rule length_replicate, simp,
        rule gives_bind_pair [OF gives_append1 [where n = 81]], simp add: text_in_def, simp, simp,
        rule gives_bind_pair [OF dir], simp, simp, rule gives_bind_pair [OF gives_put1 [where n = 81]], simp, simp,
        rule gives_bind [OF gives_wr], simp, rule gives_mono [OF gives_c_string [where n = 81]])
      (simp_all add: text_in_put)
qed

lemma gives_fm_lines: "fm_ok s \<Longrightarrow> \<forall>i \<in> set is. 0 \<le> i \<Longrightarrow> gives calls_safe (fm_lines s is)"
proof (induction "is")
  case (Cons i "is")
  have sy: "0 \<le> fm_scroll s + i" using Cons.prems by (simp add: fm_ok_def)
  show ?case
    unfolding fm_lines.simps Let_def
    by (rule gives_if, simp, rule gives_bind [OF gives_entry [OF Cons.prems(1) sy]], simp, rule gives_bind [OF gives_is_dir],
        rule fm_okD(3) [OF Cons.prems(1)], assumption, rule gives_bind [OF gives_node_text], rule fm_okD(2) [OF Cons.prems(1)], assumption,
        rule gives_bind [OF gives_fm_line], rule gives_bind [OF Cons.IH])
      (use Cons.prems in auto)
qed simp

lemma gives_fm_draw:
  assumes "fm_ok s"
  shows "gives calls_safe (fm_draw s)"
proof -
  have cwd: "int (nat (fm_cwd s)) = fm_cwd s" "in_table (ui_nodes s) (nat (fm_cwd s))" using assms by (simp_all add: fm_ok_def)
  have junk: "uninit s 0 80 ! (80 - 1) = NUL" "length (uninit s 0 80) = 80" "length (uninit s 80 32) = 32"
    using assms by (simp_all add: uninit_def fm_ok_def desk_ok_def)
  have path: "gives (\<lambda>(r, b). text_in 80 b) (fs_make_path (ui_nodes s) (fm_cwd s) (Some (uninit s 0 80)) 80)"
    using gives_path [OF fm_okD(2) [OF assms] cwd(2) junk(2) _ junk(1)] cwd(1) by simp
  have num: "gives (\<lambda>(b, j). text_in 32 b) (u2s (word_of_int (fm_nent s)) (uninit s 80 32))"
    by (rule gives_mono [OF gives_u2s [OF _ unat_bound]]) (auto simp: junk(3) text_in_def in_set_conv_nth intro!: exI [of _ 15])
  show ?thesis
    unfolding fm_draw_def
    by (rule gives_bind_pair [OF path], rule gives_bind [OF gives_c_string [where n = 80]], simp, rule gives_bind [OF gives_fm_lines [OF assms]],
        simp, rule gives_bind_pair [OF num], rule gives_bind [OF gives_c_string [where n = 32]], simp)
      (auto simp: int_range_small)
qed

lemma gives_skip_lines:
  "\<forall>i \<in> set is. i < length data \<Longrightarrow> gives (\<lambda>js. set js \<subseteq> set is) (skip_lines data sy ln is)"
proof (induction "is" arbitrary: ln)
  case (Cons i "is")
  then have "gives (\<lambda>js. set js \<subseteq> set (i # is)) (skip_lines data sy n is)" for n by (auto intro: gives_mono [OF Cons.IH])
  with Cons.prems show ?case by simp
qed simp

lemma gives_view_chars: "\<forall>i \<in> set is. i < length data \<Longrightarrow> gives calls_safe (view_chars data bx y bw bh row col is)"
  by (induction data bx y bw bh row col "is" rule: view_chars.induct) (auto intro!: gives_bind simp: gives_def)

definition file_ok :: "(char list \<times> nat) option \<Rightarrow> bool" where
  "file_ok f \<longleftrightarrow> (case f of None \<Rightarrow> True | Some (data, sz) \<Rightarrow> sz \<le> length data)"

lemma gives_view:
  assumes "file_ok f"
  shows "gives calls_safe (view_calls nm f sy)"
proof -
  have body: "gives calls_safe (case f of
         None \<Rightarrow> Some [Str (4 + 2) (CTOP + 2) ''(empty file)'' DGR BLK]
       | Some (data, sz) \<Rightarrow> do {
           cis \<leftarrow> skip_lines data sy 0 [0..<sz];
           view_chars data 4 CTOP (WIDTH - 8) (CBOT - CTOP + 1) 0 0 cis })"
    using assms by (auto simp: file_ok_def split: option.split intro!: gives_bind [OF gives_skip_lines] gives_view_chars)
  have "calls_safe (titbox 4 CTOP (WIDTH - 8) (CBOT - CTOP + 1) nm LGR BLK)" by (rule titbox_safe) (simp_all add: small_def)
  then show ?thesis
    unfolding view_calls_def Let_def by (intro gives_bind [OF body]) (auto simp: int_range_small)
qed

lemma goes_view_loop: "fm_ok s \<Longrightarrow> file_ok f \<Longrightarrow> goes fm_ok (\<lambda>_ _. True) (view_loop nm f sy s) s"
proof (induction "length (u_polls s)" arbitrary: sy s rule: less_induct)
  case less
  show ?case
    by (subst view_loop.simps, rule goes_gives [OF gives_view [OF less(3)]], rule goes_steps [OF fmm.steps_paint [OF less(2)]], assumption,
        rule fmm.goes_key, erule moves_ok)
      (use less(3) in \<open>auto simp: moves_def intro!: goes_if less(1)\<close>)
qed

lemma goes_view_file:
  assumes "fm_ok s" "listed (ui_nodes s) node"
  shows "goes fm_ok (\<lambda>_ _. True) (fm_view_file node s) s"
proof -
  obtain c where c: "node = int c" "in_table (ui_nodes s) c" using assms(2) by (auto simp: listed_def)
  have junk: "uninit s 112 80 ! (80 - 1) = NUL" "length (uninit s 112 80) = 80"
    using assms(1) by (simp_all add: uninit_def fm_ok_def desk_ok_def)
  have path: "gives (\<lambda>(r, b). text_in 80 b) (fs_make_path (ui_nodes s) node (Some (uninit s 112 80)) 80)"
    using gives_path [OF fm_okD(2) [OF assms(1)] c(2) junk(2) _ junk(1)] c(1) by simp
  have read: "gives file_ok (fs_read_file (ui_nodes s) fs_get_root (Some p))" if "nul_free p" for p
    using fs_read_file_in [OF fm_okD(2) [OF assms(1)] at_root that] by (fastforce simp: gives_def file_ok_def fs_get_root_def split: option.splits)
  show ?thesis
    unfolding fm_view_file_def
    by (rule goes_gives [OF gives_node_text [OF fm_okD(2) [OF assms(1)] assms(2)]], rule goes_gives_pair [OF path],
        rule goes_gives [OF gives_c_string [where n = 80]], simp, rule goes_gives [OF read], simp, rule goes_view_loop [OF assms(1)])
qed

text \<open>Loading a directory makes the listing good, whatever it was before.\<close>

lemma steps_load:
  assumes "desk_ok s" "0 \<le> fm_cwd s" "in_table (ui_nodes s) (nat (fm_cwd s))"
  shows "steps fm_ok (fm_load_dir s) s"
proof -
  have mem: "fs_mem (ui_nodes s)" "length (fm_entries s) = 128" using assms(1) by (simp_all add: desk_ok_def disk_ok_def)
  have cwd: "int (nat (fm_cwd s)) = fm_cwd s" using assms(2) by simp
  obtain n out where l: "fs_list (ui_nodes s) (fm_cwd s) (fm_entries s) 128 = Some (n, out)" "length out = 128" "n \<le> 128"
      "\<forall>i < nat n. listed (ui_nodes s) (out ! i)"
    using gives_list [OF mem(1) assms(3) mem(2), unfolded cwd] by (auto simp: gives_def)
  have "fm_ok (s\<lparr>fm_nent := n, fm_entries := out, fm_sel := 0, fm_scroll := 0\<rparr>)"
    using assms l by (simp add: fm_ok_def desk_ok_def)
  with l(1) show ?thesis by (simp add: fm_load_dir_def moves_def)
qed

lemma steps_fm_window: "fm_ok s \<Longrightarrow> steps fm_ok (paint_window a b s) s"
  unfolding paint_window_def
  by (rule steps_gives [OF gives_window], rule steps_gives [OF gives_panel], rule fmm.steps_paint) auto

lemma goes_view_selected: "fm_ok s \<Longrightarrow> listed (ui_nodes s) node \<Longrightarrow> goes fm_ok (\<lambda>_ _. True) (view_selected node s) s"
  unfolding view_selected_def
  by (rule goes_andthen [OF goes_view_file], assumption, assumption, rule goes_steps [OF steps_fm_window], erule moves_ok)
    (simp add: moves_def)

lemma goes_load_at:
  assumes "fm_ok s" "0 \<le> k" "in_table (ui_nodes s) (nat k)"
  shows "goes fm_ok (\<lambda>_ _. True) (do { s \<leftarrow> fm_load_dir (s\<lparr>fm_cwd := k\<rparr>); Some (Done False s) }) s"
proof -
  have "steps fm_ok (fm_load_dir (s\<lparr>fm_cwd := k\<rparr>)) (s\<lparr>fm_cwd := k\<rparr>)"
    using assms fm_okD(1) [OF assms(1)] by (intro steps_load) simp_all
  then show ?thesis by (auto simp: steps_def moves_def)
qed

lemma goes_fm_key:
  assumes "fm_ok s"
  shows "goes fm_ok (\<lambda>_ _. True) (fm_key k s) s"
proof -
  note ns = fm_okD [OF assms]
  have sel: "0 \<le> fm_sel s" using assms by (simp add: fm_ok_def)
  have entry: "gives (listed (ui_nodes s)) (rd (fm_entries s) (nat (fm_sel s)))" if "fm_nent s > 0"
    using assms that by (intro gives_entry [OF assms sel]) (simp add: fm_ok_def)
  have open_dir: "goes fm_ok (\<lambda>_ _. True) (do { s \<leftarrow> fm_load_dir (s\<lparr>fm_cwd := node\<rparr>); Some (Done False s) }) s"
    if "listed (ui_nodes s) node" for node
    using that by (intro goes_load_at [OF assms]) (auto simp: listed_def)
  have parent: "gives (\<lambda>p. 0 \<le> p \<longrightarrow> in_table (ui_nodes s) (nat p)) (fs_get_parent (ui_nodes s) (fm_cwd s))"
  proof (cases "used_node (ui_nodes s) (nat (fm_cwd s))")
    case True
    define c where "c = nat (fm_cwd s)"
    have c: "fm_cwd s = int c" "in_table (ui_nodes s) c" using assms by (simp_all add: c_def fm_ok_def)
    have "in_table (ui_nodes s) (nat (nd_parent (ui_nodes s ! c)))" if "0 \<le> nd_parent (ui_nodes s ! c)"
    proof (cases "c = 0")
      case True
      with assms show ?thesis by (simp add: fm_ok_def desk_ok_def own_parent_def at_root)
    next
      case False
      with intab.parent_in [OF c(2)] show ?thesis by auto
    qed
    with True c ns(3) show ?thesis by (simp add: fs_get_parent_def fs_live_total nd_at_def used_node_def)
  next
    case False
    with ns(3) show ?thesis by (simp add: fs_get_parent_def fs_live_total)
  qed
  show ?thesis
    unfolding fm_key_def Let_def
    by (intro goes_if goes_gives [OF entry] goes_gives [OF gives_is_dir [OF ns(3)]] goes_gives [OF parent] open_dir goes_load_at [OF assms]
        goes_view_selected [OF assms])
      (use assms in \<open>auto simp: moves_def fm_ok_def\<close>)
qed

lemma goes_fm_loop: "fm_ok s \<Longrightarrow> goes fm_ok (\<lambda>_ _. True) (fm_loop s) s"
proof (induction "length (u_polls s)" arbitrary: s rule: less_induct)
  case less
  show ?case
    by (subst fm_loop.simps, rule goes_gives [OF gives_fm_draw [OF less(2)]], rule goes_steps [OF fmm.steps_paint [OF less(2)]], (auto)[1],
        rule fmm.goes_key, erule moves_ok, rule goes_andthen [OF goes_fm_key], erule moves_ok, rule goes_if)
      (auto simp: moves_def fm_ok_def intro!: less(1))
qed

lemma goes_fileman: "desk_ok s \<Longrightarrow> goes desk_ok (\<lambda>_ _. True) (run_fileman s) s"
proof -
  assume ok: "desk_ok s"
  let ?s = "s\<lparr>g_app := 1, fm_cwd := fs_get_root\<rparr>"
  have "goes fm_ok (\<lambda>_ _. True) (run_fileman s) ?s"
    unfolding run_fileman_def
    by (rule goes_steps [OF steps_load], use ok in \<open>simp_all add: fs_get_root_def at_root\<close>, rule goes_steps [OF steps_fm_window],
        erule moves_ok, rule goes_fm_loop, erule moves_ok)
  then have "goes desk_ok (\<lambda>_ _. True) (run_fileman s) ?s" by (rule goes_invariant) (rule fm_okD(1))
  then show ?thesis by (rule goes_from) (use ok in \<open>simp add: moves_def\<close>)
qed

end
