(* ===== verification/DesktopEdit.thy ===== *)
theory DesktopEdit
  imports DesktopKate DesktopFileSafe
begin

text \<open>
  The text editor: its lines and columns are those of the text, editing is editing of the two strings before and
  behind the cursor, and moving the cursor is moving in rows and columns.
\<close>

subsection \<open>Rows and columns of a text\<close>

definition rows_in :: "string \<Rightarrow> nat" where
  "rows_in t = length (filter (\<lambda>c. c = LF) t)"

definition col_of :: "string \<Rightarrow> nat" where
  "col_of t = length (takeWhile (\<lambda>c. c \<noteq> LF) (rev t))"

text \<open>Where row \<open>n\<close> starts; behind the text if there is none.\<close>

fun row_start :: "string \<Rightarrow> nat \<Rightarrow> nat" where
  "row_start t 0 = 0"
| "row_start [] (Suc n) = 0"
| "row_start (c # t) (Suc n) = Suc (row_start t (if c = LF then n else Suc n))"

text \<open>The rest of a line.\<close>

definition to_eol :: "string \<Rightarrow> nat" where
  "to_eol t = length (takeWhile (\<lambda>c. c \<noteq> LF) t)"

lemma rows_in_simps [simp]: "rows_in [] = 0" "rows_in (s @ t) = rows_in s + rows_in t"
    "rows_in (c # t) = (if c = LF then Suc (rows_in t) else rows_in t)"
  by (simp_all add: rows_in_def)

lemma col_of_simps [simp]: "col_of [] = 0" "col_of (t @ [c]) = (if c = LF then 0 else Suc (col_of t))"
  by (simp_all add: col_of_def)

lemma rows_in_zero: "LF \<notin> set t \<Longrightarrow> rows_in t = 0"
  by (auto simp: rows_in_def filter_empty_conv)

lemma col_of_append: "LF \<notin> set t \<Longrightarrow> col_of (s @ t) = col_of s + length t"
  by (induction t rule: rev_induct) (auto simp flip: append_assoc)

lemma row_start_le: "row_start t n \<le> length t"
  by (induction t n rule: row_start.induct) auto

lemma to_eol_le: "to_eol t \<le> length t"
  by (simp add: to_eol_def length_takeWhile_le)

lemma row_start_row: "n \<le> rows_in t \<Longrightarrow> rows_in (take (row_start t n) t) = n"
  by (induction t n rule: row_start.induct) (auto split: if_splits)

lemma row_start_col: "n \<le> rows_in t \<Longrightarrow> col_of (take (row_start t n) t) = 0"
proof (induction t n rule: row_start.induct)
  case (3 c t n)
  let ?u = "take (row_start t (if c = LF then n else Suc n)) t"
  have ih: "col_of ?u = 0" using 3 by (auto split: if_splits)
  have "rows_in ?u = (if c = LF then n else Suc n)" using 3(2) row_start_row by (auto split: if_splits)
  then have "?u = [] \<Longrightarrow> c = LF" by (auto split: if_splits)
  with ih show ?case by (cases ?u rule: rev_cases) (auto simp: col_of_def split: if_splits)
qed (simp_all)

text \<open>A place \<open>m\<close> characters into a row.\<close>

lemma row_col_at:
  assumes "n \<le> rows_in t" "m \<le> to_eol (drop (row_start t n) t)"
  shows "rows_in (take (row_start t n + m) t) = n" "col_of (take (row_start t n + m) t) = m"
proof -
  let ?s = "row_start t n" let ?v = "take m (drop ?s t)"
  have "take m (drop ?s t) = take m (takeWhile (\<lambda>c. c \<noteq> LF) (drop ?s t))"
    using assms(2) unfolding to_eol_def by (subst takeWhile_eq_take) (simp add: min_absorb1)
  then have no: "LF \<notin> set ?v" by (auto dest!: in_set_takeD set_takeWhileD)
  have len: "length ?v = m" using assms(2) to_eol_le [of "drop ?s t"] by simp
  have "take (?s + m) t = take ?s t @ ?v" by (simp add: take_add)
  with no len row_start_row [OF assms(1)] row_start_col [OF assms(1)]
  show "rows_in (take (?s + m) t) = n" "col_of (take (?s + m) t) = m"
    by (simp_all add: rows_in_zero col_of_append)
qed

subsection \<open>The loops\<close>

lemma take_Suc_nth: "i < length b \<Longrightarrow> take (Suc i) b = take i b @ [b ! i]"
  by (rule take_Suc_conv_app_nth)

lemma lineof_append:
  "lineof_loop b n (is @ js) = do { m \<leftarrow> lineof_loop b n is; lineof_loop b m js }"
  by (induction "is" arbitrary: n) (auto simp: bind_eq_Some_conv intro!: bind_option_cong)

lemma colof_append:
  "colof_loop b n (is @ js) = do { m \<leftarrow> colof_loop b n is; colof_loop b m js }"
  by (induction "is" arbitrary: n) (auto simp: bind_eq_Some_conv intro!: bind_option_cong)

lemma lineof_eq: "p \<le> length b \<Longrightarrow> lineof_loop b 0 [0..<p] = Some (rows_in (take p b))"
  by (induction p) (auto simp: lineof_append take_Suc_nth)

lemma colof_eq: "p \<le> length b \<Longrightarrow> colof_loop b 0 [0..<p] = Some (col_of (take p b))"
  by (induction p) (auto simp: colof_append take_Suc_nth)

lemma lnstart_eq:
  "n \<le> length b \<Longrightarrow> i \<le> n \<Longrightarrow> cur < ln \<Longrightarrow>
    lnstart_loop b n ln cur [i..<n] = Some (i + row_start (drop i (take n b)) (ln - cur))"
proof (induction "n - i" arbitrary: i cur)
  case 0
  then have "drop i (take n b) = []" by simp
  moreover obtain k where "ln - cur = Suc k" using 0(4) by (metis Suc_diff_Suc)
  ultimately show ?case using 0 by simp
next
  case (Suc k)
  then have i: "i < n" "i < length b" by simp_all
  then have d: "drop i (take n b) = b ! i # drop (Suc i) (take n b)" "[i..<n] = i # [Suc i..<n]"
    by (simp_all add: Cons_nth_drop_Suc [symmetric] upt_conv_Cons)
  obtain l where l: "ln - cur = Suc l" "ln - Suc cur = l" using Suc.prems(3) by (metis Suc_diff_Suc diff_Suc_1 diff_Suc_eq_diff_pred)
  have ih: "lnstart_loop b n ln c [Suc i..<n] = Some (Suc i + row_start (drop (Suc i) (take n b)) (ln - c))" if "c < ln" for c
    using Suc i that by (intro Suc.hyps(1)) auto
  show ?case using i d l ih [of cur] ih [of "cur + 1"] Suc.prems(3) by auto
qed

lemma lnend_eq: "n \<le> length b \<Longrightarrow> i \<le> n \<Longrightarrow> lnend_loop b n [i..<n] = Some (i + to_eol (drop i (take n b)))"
proof (induction "n - i" arbitrary: i)
  case (Suc k)
  then have i: "i < n" "i < length b" by simp_all
  then have d: "drop i (take n b) = b ! i # drop (Suc i) (take n b)" "[i..<n] = i # [Suc i..<n]"
    by (simp_all add: Cons_nth_drop_Suc [symmetric] upt_conv_Cons)
  have "lnend_loop b n [Suc i..<n] = Some (Suc i + to_eol (drop (Suc i) (take n b)))" using Suc i by (intro Suc.hyps(1)) auto
  then show ?case using i d by (simp add: to_eol_def)
qed (simp add: to_eol_def)

text \<open>The same for the editor: \<open>kate_text\<close> is the text, \<open>kate_before\<close> the part before the cursor.\<close>

definition kate_text :: "kate \<Rightarrow> string" where
  "kate_text k = take (k_len k) (k_buf k)"

definition kate_before :: "kate \<Rightarrow> string" where
  "kate_before k = take (k_pos k) (k_buf k)"

lemma kate_bounds:
  assumes "kate_ok k"
  shows "k_len k \<le> length (k_buf k)" "k_pos k \<le> length (k_buf k)" "length (kate_text k) = k_len k" "length (kate_before k) = k_pos k"
  using assms by (auto simp: kate_ok_def kate_text_def kate_before_def)

lemma kate_lines:
  assumes "kate_ok k"
  shows "kate_lineof k (k_pos k) = Some (rows_in (kate_before k))" "kate_colof k (k_pos k) = Some (col_of (kate_before k))"
    "kate_lnstart k n = Some (row_start (kate_text k) n)"
    "kate_lnend k n = Some (row_start (kate_text k) n + to_eol (drop (row_start (kate_text k) n) (kate_text k)))"
proof -
  note b = kate_bounds [OF assms]
  show "kate_lineof k (k_pos k) = Some (rows_in (kate_before k))" "kate_colof k (k_pos k) = Some (col_of (kate_before k))"
    using lineof_eq [OF b(2)] colof_eq [OF b(2)] by (simp_all add: kate_lineof_def kate_colof_def kate_before_def)
  show s: "kate_lnstart k n = Some (row_start (kate_text k) n)"
    using lnstart_eq [OF b(1), of 0 0 n] by (cases n) (simp_all add: kate_lnstart_def kate_text_def)
  have "row_start (kate_text k) n \<le> k_len k" using row_start_le [of "kate_text k" n] b(3) by simp
  from lnend_eq [OF b(1) this] s show "kate_lnend k n = Some (row_start (kate_text k) n
      + to_eol (drop (row_start (kate_text k) n) (kate_text k)))"
    by (simp add: kate_lnend_def kate_text_def)
qed

subsection \<open>Shifting the buffer\<close>

lemma shift_loop_total:
  "n < length b \<Longrightarrow> gives (\<lambda>b'. length b' = length b \<and> (\<forall>j. b' ! j = (if p < j \<and> j \<le> n then b ! (j - 1) else b ! j))) (shift_loop b p n)"
proof (induction n arbitrary: b)
  case (Suc n)
  show ?case
  proof (cases "Suc n > p")
    case True
    let ?b = "b[Suc n := b ! n]"
    have "gives (\<lambda>b'. length b' = length b \<and> (\<forall>j. b' ! j = (if p < j \<and> j \<le> n then ?b ! (j - 1) else ?b ! j))) (shift_loop ?b p n)"
      using Suc.IH [of ?b] Suc.prems by simp
    then have "gives (\<lambda>b'. length b' = length b \<and> (\<forall>j. b' ! j = (if p < j \<and> j \<le> Suc n then b ! (j - 1) else b ! j))) (shift_loop ?b p n)"
      using True Suc.prems by (elim gives_mono) (auto simp: nth_list_update le_Suc_eq)
    with True Suc.prems show ?thesis by simp
  qed (auto simp: gives_def)
qed auto

lemma copy_append:
  "copy_within b d s (is @ js) = do { b \<leftarrow> copy_within b d s is; copy_within b d s js }"
  by (induction "is" arbitrary: b) (auto simp: bind_eq_Some_conv intro!: bind_option_cong)

lemma copy_within_total:
  "d + n < length b \<Longrightarrow>
    gives (\<lambda>b'. length b' = length b \<and> (\<forall>j. b' ! j = (if d \<le> j \<and> j < d + n then b ! (j + 1) else b ! j))) (copy_within b d (d + 1) [0..<n])"
proof (induction n)
  case (Suc n)
  then obtain b' where b': "copy_within b d (d + 1) [0..<n] = Some b'" "length b' = length b"
      "\<forall>j. b' ! j = (if d \<le> j \<and> j < d + n then b ! (j + 1) else b ! j)"
    by (auto simp: gives_def)
  then have "copy_within b d (d + 1) [0..<Suc n] = Some (b'[d + n := b ! (d + n + 1)])"
    using Suc.prems by (simp add: copy_append)
  with b' Suc.prems show ?case by (auto simp: nth_list_update gives_def)
qed auto

subsection \<open>The text before and behind the cursor\<close>

definition kate_zip :: "kate \<Rightarrow> string \<times> string" where
  "kate_zip k = (kate_before k, drop (k_pos k) (kate_text k))"

lemma kate_zip_text: "kate_ok k \<Longrightarrow> kate_zip k = (l, r) \<Longrightarrow> kate_text k = l @ r"
proof -
  assume k: "kate_ok k" and z: "kate_zip k = (l, r)"
  have "take (k_pos k) (kate_text k) = take (k_pos k) (k_buf k)" using k by (simp add: kate_text_def kate_ok_def min_absorb1)
  then show "kate_text k = l @ r" using z append_take_drop_id [of "k_pos k" "kate_text k"] by (auto simp: kate_zip_def kate_before_def)
qed

definition ed_insert :: "char \<Rightarrow> string \<times> string \<Rightarrow> string \<times> string" where
  "ed_insert c = (\<lambda>(l, r). if length l + length r < 4095 then (l @ [c], r) else (l, r))"

lemma kate_zip_lengths: "kate_ok k \<Longrightarrow> length (fst (kate_zip k)) = k_pos k \<and> length (snd (kate_zip k)) = k_len k - k_pos k"
  using kate_bounds [of k] by (simp add: kate_zip_def)

lemma kate_insert_zip:
  assumes "kate_ok k"
  shows "gives (\<lambda>k'. kate_ok k' \<and> kate_zip k' = ed_insert c (kate_zip k)) (kate_insert c k)"
proof (cases "k_len k \<ge> 4095")
  case True
  have "ed_insert c (kate_zip k) = kate_zip k"
    using kate_zip_lengths [OF assms] assms True by (cases "kate_zip k") (auto simp: ed_insert_def kate_ok_def)
  with True assms show ?thesis by (simp add: kate_insert_def)
next
  case False
  have k: "length (k_buf k) = 4096" "k_pos k \<le> k_len k" "k_len k < length (k_buf k)" using assms by (simp_all add: kate_ok_def)
  obtain b where b: "shift_loop (k_buf k) (k_pos k) (k_len k) = Some b" "length b = length (k_buf k)"
      "\<And>j. b ! j = (if k_pos k < j \<and> j \<le> k_len k then k_buf k ! (j - 1) else k_buf k ! j)"
    using shift_loop_total [OF k(3), of "k_pos k"] by (auto simp: gives_def)
  let ?k = "k\<lparr>k_buf := b[k_pos k := c], k_pos := k_pos k + 1, k_len := k_len k + 1, k_mod := True\<rparr>"
  have "take (Suc (k_pos k)) (b[k_pos k := c]) = take (k_pos k) (k_buf k) @ [c]"
    using b(2,3) k by (intro nth_equalityI) (auto simp: nth_append nth_list_update less_Suc_eq)
  moreover have "drop (Suc (k_pos k)) (take (Suc (k_len k)) (b[k_pos k := c])) = drop (k_pos k) (take (k_len k) (k_buf k))"
    using b(2,3) k by (intro nth_equalityI) (auto simp: nth_append)
  ultimately have "kate_zip ?k = ed_insert c (kate_zip k)"
    using k False by (simp add: kate_zip_def ed_insert_def kate_before_def kate_text_def)
  moreover have "kate_insert c k = Some ?k" using b(1,2) k False by (simp add: kate_insert_def kate_shiftright_def)
  ultimately show ?thesis using assms False b(2) by (simp add: kate_ok_def)
qed

text \<open>The copy of the bytes behind \<open>p\<close> one place to the left drops the byte at \<open>p\<close>.\<close>

lemma drop_byte:
  assumes "length b' = length b" "\<forall>j. b' ! j = (if p \<le> j \<and> j < p + n then b ! (j + 1) else b ! j)" "len \<le> length b" "p < len" "len - 1 \<le> p + n"
  shows "take p b' = take p b" "drop p (take (len - 1) b') = drop (Suc p) (take len b)"
  using assms by (auto intro!: nth_equalityI)

lemma kate_backspace_zip:
  assumes "kate_ok k"
  shows "gives (\<lambda>k'. kate_ok k' \<and> kate_zip k' = (\<lambda>(l, r). (butlast l, r)) (kate_zip k)) (kate_backspace k)"
proof (cases "k_pos k = 0")
  case True
  with assms show ?thesis by (simp add: kate_backspace_def kate_zip_def kate_before_def)
next
  case False
  define p where "p = k_pos k - 1"
  have k: "length (k_buf k) = 4096" "k_pos k = Suc p" "p < k_len k" "k_len k < 4096" "text_in 48 (k_fname k)" "k_cwd k = 0"
    using assms False by (auto simp: kate_ok_def p_def)
  then have "p + (k_len k - p) < length (k_buf k)" by simp
  from copy_within_total [OF this] obtain b where b: "copy_within (k_buf k) p (p + 1) [0..<k_len k - p] = Some b" "length b = length (k_buf k)"
      "\<forall>j. b ! j = (if p \<le> j \<and> j < p + (k_len k - p) then k_buf k ! (j + 1) else k_buf k ! j)"
    by (auto simp: gives_def)
  have d: "take p b = take p (k_buf k)" "drop p (take (k_len k - 1) b) = drop (Suc p) (take (k_len k) (k_buf k))"
    using drop_byte [OF b(2,3), of "k_len k"] k by auto
  have "take (Suc p) (k_buf k) = take p (k_buf k) @ [k_buf k ! p]" using k by (intro take_Suc_nth) simp
  moreover have "k_len k - 1 < 4096" "p \<le> k_len k - 1" using k by simp_all
  ultimately show ?thesis
    using d k b(1,2) by (simp add: kate_backspace_def p_def [symmetric] kate_zip_def kate_before_def kate_text_def kate_ok_def Let_def)
qed

lemma kate_delkey_zip:
  assumes "kate_ok k"
  shows "gives (\<lambda>k'. kate_ok k' \<and> kate_zip k' = (\<lambda>(l, r). (l, tl r)) (kate_zip k)) (kate_delkey k)"
proof (cases "k_pos k \<ge> k_len k")
  case True
  with assms show ?thesis by (simp add: kate_delkey_def kate_zip_def kate_text_def)
next
  case False
  let ?p = "k_pos k"
  have k: "length (k_buf k) = 4096" "?p < k_len k" "k_len k < 4096" "text_in 48 (k_fname k)" "k_cwd k = 0"
    using assms False by (auto simp: kate_ok_def)
  then have "?p + (k_len k - ?p - 1) < length (k_buf k)" by simp
  from copy_within_total [OF this] obtain b where b: "copy_within (k_buf k) ?p (?p + 1) [0..<k_len k - ?p - 1] = Some b"
      "length b = length (k_buf k)"
      "\<forall>j. b ! j = (if ?p \<le> j \<and> j < ?p + (k_len k - ?p - 1) then k_buf k ! (j + 1) else k_buf k ! j)"
    by (auto simp: gives_def)
  have d: "take ?p b = take ?p (k_buf k)" "drop ?p (take (k_len k - 1) b) = drop (Suc ?p) (take (k_len k) (k_buf k))"
    using drop_byte [OF b(2,3), of "k_len k"] k by auto
  have "tl (drop ?p (take (k_len k) (k_buf k))) = drop (Suc ?p) (take (k_len k) (k_buf k))" by (simp add: drop_Suc tl_drop)
  moreover have "k_len k - 1 < 4096" "?p \<le> k_len k - 1" using k by simp_all
  ultimately show ?thesis
    using d k b(1,2) by (simp add: kate_delkey_def kate_zip_def kate_before_def kate_text_def kate_ok_def Let_def)
qed

subsection \<open>Editing\<close>

text \<open>The abstract editor: what a key does to the text before and behind the cursor.\<close>

definition ed_key :: "int \<Rightarrow> string \<times> string \<Rightarrow> string \<times> string" where
  "ed_key key z = (case z of (l, r) \<Rightarrow>
     if key = KEY_LEFT then (if l = [] then (l, r) else (butlast l, last l # r))
     else if key = KEY_RIGHT then (if r = [] then (l, r) else (l @ [hd r], tl r))
     else if key = 8 \<or> key = 127 then (butlast l, r)
     else if key = KEY_F4 then (l, tl r)
     else if key = 10 \<or> key = 13 then ed_insert LF (l, r)
     else if key \<ge> 32 \<and> key < 127 then ed_insert (char_of (nat key)) (l, r)
     else (l, r))"

lemma kate_left_zip:
  assumes "kate_ok k" "0 < k_pos k"
  shows "kate_zip (k\<lparr>k_pos := k_pos k - 1\<rparr>) = (butlast (kate_before k), last (kate_before k) # drop (k_pos k) (kate_text k))"
proof -
  obtain p where p: "k_pos k = Suc p" using assms(2) by (cases "k_pos k") auto
  have len: "p < length (kate_text k)" "kate_text k ! p = k_buf k ! p" "p < length (k_buf k)"
    using assms(1) p by (auto simp: kate_text_def kate_ok_def)
  have "drop p (kate_text k) = k_buf k ! p # drop (Suc p) (kate_text k)" using len by (metis Cons_nth_drop_Suc)
  then show ?thesis using p take_Suc_nth [OF len(3)] by (simp add: kate_zip_def kate_before_def kate_text_def)
qed

lemma kate_right_zip:
  assumes "kate_ok k" "k_pos k < k_len k"
  shows "kate_zip (k\<lparr>k_pos := k_pos k + 1\<rparr>)
    = (kate_before k @ [hd (drop (k_pos k) (kate_text k))], tl (drop (k_pos k) (kate_text k)))"
proof -
  have len: "k_pos k < length (kate_text k)" "kate_text k ! k_pos k = k_buf k ! k_pos k" "k_pos k < length (k_buf k)"
    using assms by (auto simp: kate_text_def kate_ok_def)
  have "hd (drop (k_pos k) (kate_text k)) = k_buf k ! k_pos k" using len by (simp add: hd_drop_conv_nth)
  then show ?thesis using take_Suc_nth [OF len(3)] by (simp add: kate_zip_def kate_before_def kate_text_def drop_Suc tl_drop)
qed

lemma kate_edit_zip:
  assumes "kate_ok k" "key \<notin> {KEY_UP, KEY_DOWN, KEY_F1, KEY_F3}"
  shows "gives (\<lambda>k'. kate_ok k' \<and> kate_zip k' = ed_key key (kate_zip k)) (kate_edit key k)"
proof -
  have z: "kate_zip k = (kate_before k, drop (k_pos k) (kate_text k))" by (simp add: kate_zip_def)
  have ends: "kate_before k = [] \<longleftrightarrow> k_pos k = 0" "drop (k_pos k) (kate_text k) = [] \<longleftrightarrow> k_len k \<le> k_pos k"
    using kate_bounds(3,4) [OF assms(1)] by (simp_all flip: length_0_conv)
  have keys: "KEY_LEFT \<noteq> KEY_RIGHT" "KEY_F4 \<noteq> KEY_LEFT" "KEY_F4 \<noteq> KEY_RIGHT" "KEY_LEFT > 127" "KEY_RIGHT > 127" "KEY_F4 > 127"
    by (simp_all add: KEY_LEFT_def KEY_RIGHT_def KEY_F4_def)
  have move: "kate_ok (k\<lparr>k_pos := k_pos k - 1\<rparr>)" "k_pos k < k_len k \<Longrightarrow> kate_ok (k\<lparr>k_pos := k_pos k + 1\<rparr>)"
    using assms(1) by (auto simp: kate_ok_def)
  consider "key = KEY_LEFT" | "key = KEY_RIGHT" | "key = 8 \<or> key = 127" | "key = KEY_F4" | "key = 10 \<or> key = 13"
    | "key \<noteq> KEY_LEFT" "key \<noteq> KEY_RIGHT" "key \<noteq> 8" "key \<noteq> 127" "key \<noteq> KEY_F4" "key \<noteq> 10" "key \<noteq> 13" by blast
  then show ?thesis
  proof cases
    case 1
    with assms move(1) kate_left_zip [OF assms(1)] keys z ends show ?thesis by (auto simp: kate_edit_def ed_key_def)
  next
    case 2
    with assms move(2) kate_right_zip [OF assms(1)] keys z ends show ?thesis by (auto simp: kate_edit_def ed_key_def)
  next
    case 3
    with assms keys have "kate_edit key k = kate_backspace k" "ed_key key = (\<lambda>(l, r). (butlast l, r))"
      by (auto simp: kate_edit_def ed_key_def)
    with kate_backspace_zip [OF assms(1)] show ?thesis by simp
  next
    case 4
    with assms keys have "kate_edit key k = kate_delkey k" "ed_key key = (\<lambda>(l, r). (l, tl r))"
      by (auto simp: kate_edit_def ed_key_def)
    with kate_delkey_zip [OF assms(1)] show ?thesis by simp
  next
    case 5
    with assms keys have "kate_edit key k = kate_insert LF k" "ed_key key = ed_insert LF"
      by (auto simp: kate_edit_def ed_key_def)
    with kate_insert_zip [OF assms(1), of LF] show ?thesis by simp
  next
    case 6
    with assms have "kate_edit key k = (if key \<ge> 32 \<and> key < 127 then kate_insert (char_of (nat key)) k else Some k)"
      "ed_key key z = (if key \<ge> 32 \<and> key < 127 then ed_insert (char_of (nat key)) z else z)" for z
      by (simp_all add: kate_edit_def ed_key_def split: prod.split)
    with assms(1) kate_insert_zip [OF assms(1), of "char_of (nat key)"] show ?thesis by simp
  qed
qed

subsection \<open>Moving in rows and columns\<close>

definition kate_at :: "kate \<Rightarrow> nat \<times> nat" where
  "kate_at k = (rows_in (kate_before k), col_of (kate_before k))"

definition row_len :: "string \<Rightarrow> nat \<Rightarrow> nat" where
  "row_len t n = to_eol (drop (row_start t n) t)"

definition ed_move :: "int \<Rightarrow> string \<Rightarrow> nat \<times> nat \<Rightarrow> nat \<times> nat" where
  "ed_move key t = (\<lambda>(row, col).
     if key = KEY_UP then if row = 0 then (row, col) else (row - 1, min col (row_len t (row - 1)))
     else if key = KEY_DOWN then if row = rows_in t then (row, col) else (row + 1, min col (row_len t (row + 1)))
     else if key = KEY_F1 then (row, 0)
     else (row, row_len t row))"

lemma kate_at_place:
  assumes "kate_ok k" "n \<le> rows_in (kate_text k)" "m \<le> row_len (kate_text k) n"
  shows "kate_ok (k\<lparr>k_pos := row_start (kate_text k) n + m\<rparr>)" "kate_at (k\<lparr>k_pos := row_start (kate_text k) n + m\<rparr>) = (n, m)"
proof -
  let ?t = "kate_text k" let ?p = "row_start ?t n + m"
  have "?p \<le> length ?t"
    using assms(3) to_eol_le [of "drop (row_start ?t n) ?t"] row_start_le [of ?t n] unfolding row_len_def by simp
  then have p: "?p \<le> k_len k" using kate_bounds(3) [OF assms(1)] by simp
  with assms(1) show "kate_ok (k\<lparr>k_pos := ?p\<rparr>)" by (simp add: kate_ok_def)
  have "take ?p (k_buf k) = take ?p ?t" using p by (simp add: kate_text_def min_absorb1)
  with row_col_at [OF assms(2), of m] assms(3) show "kate_at (k\<lparr>k_pos := ?p\<rparr>) = (n, m)"
    by (simp add: kate_at_def kate_before_def row_len_def)
qed

lemma rows_before:
  assumes "kate_ok k"
  shows "rows_in (kate_before k) \<le> rows_in (kate_text k)"
proof -
  have e: "kate_text k = kate_before k @ drop (k_pos k) (kate_text k)" using kate_zip_text [OF assms] by (simp add: kate_zip_def)
  show ?thesis by (subst e) simp
qed

lemma row_start_beyond: "rows_in t < n \<Longrightarrow> row_start t n = length t"
  by (induction t n rule: row_start.induct) (auto split: if_splits)

text \<open>A row that starts at the end of the text follows a line feed.\<close>

lemma row_start_end: "0 < n \<Longrightarrow> n \<le> rows_in t \<Longrightarrow> row_start t n = length t \<Longrightarrow> t \<noteq> [] \<and> last t = LF"
proof (induction t n rule: row_start.induct)
  case (3 c t n)
  show ?case
  proof (cases "c = LF \<and> n = 0")
    case False
    with 3 have "t \<noteq> [] \<and> last t = LF" by (cases "c = LF") auto
    then show ?thesis by simp
  qed (use 3 in auto)
qed simp_all

text \<open>The end of a text that ends with a line feed is the start of its last row.\<close>

lemma last_row: "t \<noteq> [] \<Longrightarrow> last t = LF \<Longrightarrow> row_start t (rows_in t) = length t \<and> 0 < rows_in t"
proof (induction t)
  case (Cons c t)
  then show ?case by (cases "t = []"; cases "rows_in t") auto
qed simp

lemma kate_at_pos:
  assumes "kate_ok k"
  shows "kate_lineof k (k_pos k) = Some (fst (kate_at k))" "kate_colof k (k_pos k) = Some (snd (kate_at k))"
    "kate_lnend k n = Some (row_start (kate_text k) n + row_len (kate_text k) n)"
  using kate_lines [OF assms] by (simp_all add: kate_at_def row_len_def)

text \<open>In the last row of a text that ends with a line feed the cursor is at the end of the text.\<close>

lemma kate_at_end:
  assumes "kate_ok k" "kate_text k \<noteq> []" "last (kate_text k) = LF" "rows_in (kate_before k) = rows_in (kate_text k)"
  shows "k_pos k = k_len k"
proof (rule ccontr)
  assume "k_pos k \<noteq> k_len k"
  then have "drop (k_pos k) (kate_text k) \<noteq> []" using assms(1) kate_bounds(3) [OF assms(1)] by (simp add: kate_ok_def)
  then have "LF \<in> set (drop (k_pos k) (kate_text k))" using assms(3) by (metis last_drop last_in_set drop_eq_Nil2 not_le)
  then have "0 < rows_in (drop (k_pos k) (kate_text k))" by (auto simp: rows_in_def filter_empty_conv)
  moreover have e: "kate_text k = kate_before k @ drop (k_pos k) (kate_text k)" using kate_zip_text [OF assms(1)] by (simp add: kate_zip_def)
  have "rows_in (kate_text k) = rows_in (kate_before k) + rows_in (drop (k_pos k) (kate_text k))" by (subst e) simp
  ultimately show False using assms(4) by simp
qed

text \<open>Moving the cursor: the text stays, the place is that of \<^theory_text>\<open>ed_move\<close>.\<close>

definition kate_moved :: "int \<Rightarrow> kate \<Rightarrow> kate \<Rightarrow> bool" where
  "kate_moved key k k' \<longleftrightarrow> kate_ok k' \<and> kate_text k' = kate_text k \<and> kate_at k' = ed_move key (kate_text k) (kate_at k)"

lemma ed_move_keys:
  "ed_move KEY_UP t (row, col) = (if row = 0 then (row, col) else (row - 1, min col (row_len t (row - 1))))"
  "ed_move KEY_DOWN t (row, col) = (if row = rows_in t then (row, col) else (row + 1, min col (row_len t (row + 1))))"
  "ed_move KEY_F1 t (row, col) = (row, 0)" "ed_move KEY_F3 t (row, col) = (row, row_len t row)"
  by (simp_all add: ed_move_def KEY_UP_def KEY_DOWN_def KEY_F1_def KEY_F3_def)

lemma kate_moved_place:
  assumes "kate_ok k" "ed_move key (kate_text k) (kate_at k) = (n, m)" "n \<le> rows_in (kate_text k)" "m \<le> row_len (kate_text k) n"
  shows "kate_moved key k (k\<lparr>k_pos := row_start (kate_text k) n + m\<rparr>)"
  using kate_at_place [OF assms(1,3,4)] assms(2) by (simp add: kate_moved_def kate_text_def)

lemma kate_up:
  assumes "kate_ok k"
  shows "gives (kate_moved KEY_UP k) (kate_move_up k)"
proof -
  obtain row col where at: "kate_at k = (row, col)" by fastforce
  have le: "row \<le> rows_in (kate_text k)" using rows_before [OF assms] at by (simp add: kate_at_def)
  show ?thesis
  proof (cases row)
    case 0
    with at assms have "kate_moved KEY_UP k k" by (simp add: kate_moved_def ed_move_keys)
    with 0 at show ?thesis by (simp add: kate_move_up_def kate_at_pos [OF assms])
  next
    case (Suc n)
    have "kate_moved KEY_UP k (k\<lparr>k_pos := row_start (kate_text k) n + min col (row_len (kate_text k) n)\<rparr>)"
      using at Suc le by (intro kate_moved_place assms) (simp_all add: ed_move_keys)
    moreover have "(if c < l then c else l) = min c l" for c l :: nat by simp
    ultimately show ?thesis using Suc at
      by (simp add: kate_move_up_def kate_at_pos [OF assms] kate_lines(3) [OF assms] Let_def)
  qed
qed

lemma kate_down:
  assumes "kate_ok k"
  shows "gives (kate_moved KEY_DOWN k) (kate_move_down k)"
proof -
  let ?t = "kate_text k"
  obtain row col where at: "kate_at k = (row, col)" by fastforce
  have le: "row \<le> rows_in ?t" using rows_before [OF assms] at by (simp add: kate_at_def)
  have len: "length ?t = k_len k" by (rule kate_bounds(3) [OF assms])
  have rd: "0 < k_len k \<Longrightarrow> rd (k_buf k) (k_len k - 1) = Some (last ?t)"
    using assms by (subst last_conv_nth) (auto simp: kate_ok_def kate_text_def min_absorb1)
  have min: "(if c < l then c else l) = min c l" for c l :: nat by simp
  define stay where "stay \<longleftrightarrow> length ?t \<le> row_start ?t (row + 1) \<and> (?t = [] \<or> last ?t \<noteq> LF)"
  have run: "kate_move_down k = Some (if stay then k
      else k\<lparr>k_pos := row_start ?t (row + 1) + min col (row_len ?t (row + 1))\<rparr>)"
    using rd at len min by (auto simp: kate_move_down_def kate_at_pos [OF assms] kate_lines(3) [OF assms] stay_def Let_def)
  show ?thesis
  proof (cases "row < rows_in ?t")
    case True
    then have "\<not> stay" using row_start_end [of "row + 1" ?t] row_start_le [of ?t "row + 1"] by (auto simp: stay_def)
    moreover have "kate_moved KEY_DOWN k (k\<lparr>k_pos := row_start ?t (row + 1) + min col (row_len ?t (row + 1))\<rparr>)"
      using at True by (intro kate_moved_place assms) (simp_all add: ed_move_keys)
    ultimately show ?thesis using run by simp
  next
    case False
    with le have row: "row = rows_in ?t" by simp
    have "k\<lparr>k_pos := row_start ?t (row + 1) + min col (row_len ?t (row + 1))\<rparr> = k" if "\<not> stay"
    proof -
      have s: "row_start ?t (row + 1) = length ?t" using row by (intro row_start_beyond) simp
      with that have "k_pos k = k_len k" using row at by (intro kate_at_end assms) (auto simp: stay_def kate_at_def)
      with s len show ?thesis by (simp add: row_len_def to_eol_def)
    qed
    moreover have "kate_moved KEY_DOWN k k" using at row assms by (simp add: kate_moved_def ed_move_keys)
    ultimately show ?thesis using run by (cases stay) simp_all
  qed
qed

lemma kate_home_end:
  assumes "kate_ok k"
  shows "gives (kate_moved KEY_F1 k) (kate_home k)" "gives (kate_moved KEY_F3 k) (kate_end k)"
proof -
  obtain row col where at: "kate_at k = (row, col)" by fastforce
  have le: "row \<le> rows_in (kate_text k)" using rows_before [OF assms] at by (simp add: kate_at_def)
  have "kate_moved KEY_F1 k (k\<lparr>k_pos := row_start (kate_text k) row + 0\<rparr>)"
    using at le by (intro kate_moved_place assms) (simp_all add: ed_move_keys)
  then show "gives (kate_moved KEY_F1 k) (kate_home k)"
    using at by (simp add: kate_home_def kate_at_pos [OF assms] kate_lines(3) [OF assms])
  have "kate_moved KEY_F3 k (k\<lparr>k_pos := row_start (kate_text k) row + row_len (kate_text k) row\<rparr>)"
    using at le by (intro kate_moved_place assms) (simp_all add: ed_move_keys)
  then show "gives (kate_moved KEY_F3 k) (kate_end k)"
    using at by (simp add: kate_end_def kate_at_pos [OF assms])
qed

lemma kate_move:
  assumes "kate_ok k" "key \<in> {KEY_UP, KEY_DOWN, KEY_F1, KEY_F3}"
  shows "gives (kate_moved key k) (kate_edit key k)"
proof -
  have "kate_edit KEY_UP k = kate_move_up k" "kate_edit KEY_DOWN k = kate_move_down k"
    "kate_edit KEY_F1 k = kate_home k" "kate_edit KEY_F3 k = kate_end k"
    by (simp_all add: kate_edit_def KEY_UP_def KEY_DOWN_def KEY_LEFT_def KEY_RIGHT_def KEY_F1_def KEY_F3_def)
  with kate_up kate_down kate_home_end assms show ?thesis by auto
qed

lemma gives_edit: "kate_ok k \<Longrightarrow> gives kate_ok (kate_edit key k)"
  using kate_move [of k key] kate_edit_zip [of k key] by (cases "key \<in> {KEY_UP, KEY_DOWN, KEY_F1, KEY_F3}")
    (auto simp: kate_moved_def elim: gives_mono)

end
