(* ===== verification/DesktopKateSafe.thy ===== *)
theory DesktopKateSafe
  imports DesktopEdit InstallerRunSafe
begin

text \<open>
  The desktop is safe, third part: drawing and saving in the text editor, and its loop.
\<close>

subsection \<open>Drawing\<close>

lemma kate_scroll_fields [simp]:
  "k_buf (kate_scroll ln k) = k_buf k" "k_len (kate_scroll ln k) = k_len k" "k_pos (kate_scroll ln k) = k_pos k"
  "k_fname (kate_scroll ln k) = k_fname k" "kate_ok (kate_scroll ln k) = kate_ok k"
  by (simp_all add: kate_scroll_def kate_ok_def Let_def)

lemma gives_kate_copy:
  "set bis \<subseteq> {..<length buf} \<Longrightarrow> length lbuf = 77 \<Longrightarrow> lbuf ! 76 = NUL \<Longrightarrow>
    gives (\<lambda>(b, js). length b = 77 \<and> b ! 76 = NUL \<and> set js \<subseteq> set bis) (kate_copy buf lbuf nc bis)"
proof (induction bis arbitrary: lbuf nc)
  case (Cons i bis)
  have ih: "gives (\<lambda>(b, js). length b = 77 \<and> b ! 76 = NUL \<and> set js \<subseteq> set bis) (kate_copy buf (lbuf[nc := c]) (nc + 1) bis)"
    if "nc < 76" for c
    using Cons.prems that by (intro Cons.IH) auto
  have "gives (\<lambda>(b, js). length b = 77 \<and> b ! 76 = NUL \<and> set js \<subseteq> insert i (set bis)) (kate_copy buf (lbuf[nc := c]) (nc + 1) bis)"
    if "nc < 76" for c
    by (rule gives_mono [OF ih [OF that]]) auto
  with Cons.prems show ?case by simp
qed simp

lemma gives_kate_skip: "set bis \<subseteq> {..<length buf} \<Longrightarrow> gives (\<lambda>js. set js \<subseteq> set bis) (kate_skip buf bis)"
  by (induction bis) (auto elim: gives_mono)

lemma gives_kate_rows:
  "\<forall>row \<in> set rows. 0 \<le> row \<and> row \<le> 100 \<Longrightarrow> set bis \<subseteq> {..<length buf} \<Longrightarrow> length nb = 16 \<Longrightarrow>
    gives calls_safe (kate_rows buf nb vs bis rows)"
proof (induction rows arbitrary: bis)
  case (Cons row rows)
  have line: "text_in 77 b" if "length b = 77" "b ! 76 = NUL" for b
    using that by (auto simp: text_in_def in_set_conv_nth intro!: exI [of _ 76])
  have copy: "gives (\<lambda>(b, js). length b = 77 \<and> b ! 76 = NUL \<and> set js \<subseteq> set bis) (kate_copy buf (l[76 := NUL]) 0 bis)"
    if "length l = 77" for l
    using Cons.prems that by (intro gives_kate_copy) auto
  have space: "gives (\<lambda>b. length b = 77) (kmemset (replicate 77 NUL) (CHR '' '') 76)" by (simp add: kmemset_eq)
  have skip: "gives (\<lambda>ks. set ks \<subseteq> {..<length buf}) (kate_skip buf js)" if "set js \<subseteq> set bis" for js
    by (rule gives_mono [OF gives_kate_skip]) (use Cons.prems that in auto)
  have rest: "gives calls_safe (kate_rows buf nb vs js rows)" if "set js \<subseteq> {..<length buf}" for js
    using that Cons.prems by (intro Cons.IH) auto
  have y: "int_range (1 + 1 + row + 1)" "int_range (0 + KATE_GUTTER)" using Cons.prems by (auto intro!: int_range_small)
  show ?case
    unfolding kate_rows.simps Let_def
    by (rule gives_bind [OF gives_number], use Cons.prems in simp, simp, rule gives_bind [OF space], rule gives_bind [OF gives_wr], simp,
        rule gives_bind_pair [where P = "\<lambda>(b, js). length b = 77 \<and> b ! 76 = NUL \<and> set js \<subseteq> set bis"], simp, rule copy, assumption, rule gives_bind [OF skip], simp,
        rule gives_bind [OF gives_c_string [OF line]], simp, simp, rule gives_bind [OF rest], assumption)
      (use y in simp)
qed simp

lemma gives_kate_status:
  assumes "length lnb = 16" "length clb = 16"
  shows "gives (\<lambda>_. True) (kate_status ln col lnb clb)"
  unfolding kate_status_def
  by (rule gives_bind [OF gives_number], use assms in simp, simp, rule gives_bind [OF gives_number], use assms in simp, simp,
      rule gives_bind_pair [OF gives_put [where n = 40 and k = 4]], simp, simp, simp,
      rule gives_bind_pair [OF gives_put [where n = 40 and k = 15]], simp, simp, simp,
      rule gives_bind_pair [OF gives_put [where n = 40 and k = 21]], simp, simp, simp,
      rule gives_bind_pair [OF gives_put [where n = 40 and k = 32]], simp, simp, simp,
      rule gives_bind [OF gives_wr], simp, rule gives_mono [OF gives_c_string [where n = 40]])
    (simp_all add: text_in_put)

lemma gives_kate_calls:
  assumes "kate_ok k"
  shows "gives calls_safe (kate_calls ln col k s)"
proof -
  note b = kate_bounds [OF assms]
  have start: "gives (\<lambda>_. True) (kate_lnstart k n)" for n by (simp add: kate_lines [OF assms])
  have rows: "gives calls_safe (kate_rows (k_buf k) (uninit s 224 16) (k_vscroll k) [p..<k_len k] [0..int KATE_VROWS - 1])" for p
    using b(1) by (intro gives_kate_rows) (auto simp: uninit_def)
  have fname: "text_in 48 (k_fname k)" using assms by (simp add: kate_ok_def)
  show ?thesis
    unfolding kate_calls_def
    by (rule gives_bind [OF gives_c_string [OF fname]], rule gives_bind [OF start], rule gives_bind [OF rows],
        rule gives_bind [OF gives_kate_status], simp add: uninit_def, simp add: uninit_def)
      (auto simp: int_range_small kate_cursor_def Let_def)
qed

lemma desk_ok_kate: "desk_ok s \<Longrightarrow> kate_ok k \<Longrightarrow> desk_ok (s\<lparr>dk_kate := k\<rparr>)"
  by (simp add: desk_ok_def)

lemma desk_kate: "desk_ok s \<Longrightarrow> kate_ok (dk_kate s)"
  by (simp add: desk_ok_def)

lemma steps_kate_draw:
  assumes "desk_ok s"
  shows "steps desk_ok (kate_draw s) s"
proof -
  let ?k = "dk_kate s"
  obtain ln col where at: "kate_lineof ?k (k_pos ?k) = Some ln" "kate_colof ?k (k_pos ?k) = Some col"
    using kate_at_pos [OF desk_kate [OF assms]] by blast
  define k where "k = kate_scroll ln ?k"
  have k: "kate_ok k" using desk_kate [OF assms] by (simp add: k_def)
  let ?s = "s\<lparr>dk_kate := k\<rparr>"
  have "moves desk_ok s ?s" using desk_ok_kate [OF assms k] by (simp add: moves_def)
  moreover have "steps desk_ok (do { calls \<leftarrow> kate_calls ln col k s; paint calls ?s }) ?s"
    by (rule steps_gives [OF gives_kate_calls [OF k]], rule dk.steps_paint [OF desk_ok_kate [OF assms k]])
  ultimately have "steps desk_ok (do { calls \<leftarrow> kate_calls ln col k s; paint calls ?s }) s" by (rule steps_from [rotated])
  then show ?thesis by (simp add: kate_draw_def at k_def Let_def)
qed

subsection \<open>Saving\<close>

lemma gives_disk_save:
  assumes "desk_ok s"
  shows "gives (\<lambda>(r, t). moves desk_ok s t) (if disk_available (u_disk s) then ui_dsk (disk_save_fs hw) s else Some (0, s))"
  by (rule gives_if, rule dk.ui_dsk_steps [where f = "disk_save_fs hw", OF assms], rule disk_steps(3))
    (use assms in \<open>simp_all add: desk_ok_def\<close>)

lemma gives_kate_save:
  assumes "desk_ok s"
  shows "gives (\<lambda>(r, t). moves desk_ok s t) (kate_save hw s)"
proof -
  have cwd: "k_cwd (dk_kate t) = int 0" if "desk_ok t" for t :: "'a desk" using that by (simp add: desk_ok_def kate_ok_def)
  have fname: "text_in 48 (k_fname (dk_kate s))" using desk_kate [OF assms] by (simp add: kate_ok_def)
  have touch: "gives (\<lambda>(r, t). moves desk_ok s t) (ui_fs (\<lambda>ns. fs_touch ns (k_cwd (dk_kate s)) (Some p)) s)" if "nul_free p" for p
    using fs_create_in(2) [OF dk.ok_mem [OF assms] at_root that] cwd [OF assms]
    by (intro dk.ui_fs_steps [OF assms]) (simp add: fs_touch_def)
  have wr: "gives (\<lambda>(r, u). moves desk_ok t u) (ui_fs (\<lambda>ns. fs_write_file ns (k_cwd (dk_kate t)) (Some p) (Some (k_buf (dk_kate t))) (k_len (dk_kate t))) t)"
    if "desk_ok t" "nul_free p" for t :: "'a desk" and p
  proof -
    have "buffer_ok (Some (k_buf (dk_kate t))) (k_len (dk_kate t))" using kate_bounds(1) [OF desk_kate [OF that(1)]] by (simp add: buffer_ok_def)
    from fs_write_file_in [OF dk.ok_mem [OF that(1)] at_root that(2) this] cwd [OF that(1)]
    show ?thesis by (intro dk.ui_fs_steps [OF that(1)]) simp
  qed
  have step: "gives (\<lambda>(r, u). moves desk_ok a u) q" if "moves desk_ok a t" "gives (\<lambda>(r, u). moves desk_ok t u) q" for q and a t :: "'a desk"
    by (rule gives_mono [OF that(2)]) (use that(1) moves_trans in auto)
  have clean: "desk_ok (t\<lparr>dk_kate := (dk_kate t)\<lparr>k_mod := False\<rparr>\<rparr>)" if "desk_ok t" for t :: "'a desk"
    using that by (simp add: desk_ok_def kate_ok_def)
  have saved: "gives (\<lambda>(r, u). moves desk_ok t u) (do { (_, s) \<leftarrow> (if disk_available (u_disk t) then ui_dsk (disk_save_fs hw) t else Some (0, t));
      Some (0 :: int, s) })" if "desk_ok t" for t :: "'a desk"
    by (rule gives_bind_pair [OF gives_disk_save [OF that]]) simp
  have body: "gives (\<lambda>(r, u). moves desk_ok t u) (do {
       (r, s) \<leftarrow> ui_fs (\<lambda>ns. fs_write_file ns (k_cwd (dk_kate t)) (Some p) (Some (k_buf (dk_kate t))) (k_len (dk_kate t))) t;
       if r = 0 then do {
         let s = s\<lparr>dk_kate := (dk_kate s)\<lparr>k_mod := False\<rparr>\<rparr>;
         (_, s) \<leftarrow> (if disk_available (u_disk s) then ui_dsk (disk_save_fs hw) s else Some (0, s));
         Some (0 :: int, s) }
       else Some (-1, s) })" if "desk_ok t" "nul_free p" for t :: "'a desk" and p
    unfolding Let_def
    by (rule gives_bind_pair [OF wr [OF that]], rule gives_if, rule step [rotated], rule saved, rule clean)
      (auto simp: moves_def clean)
  show ?thesis
    unfolding kate_save_def
    by (rule gives_bind [OF gives_c_string [OF fname]], rule gives_bind_pair [where P = "\<lambda>(r, t). moves desk_ok s t"],
        rule gives_if, rule touch, simp, use assms in simp, rule gives_if, simp, rule step [rotated], rule body)
      (auto simp: moves_def)
qed

subsection \<open>The loop\<close>

lemma goes_kate_save:
  assumes "desk_ok s" "\<And>r t. moves desk_ok s t \<Longrightarrow> goes desk_ok P (f t) t"
  shows "goes desk_ok P (kate_save hw s \<bind> (\<lambda>(_, t). f t)) s"
  using gives_kate_save [OF assms(1), of hw] goes_from [OF assms(2)] by (fastforce simp: gives_def)

lemma goes_prompt_loop: "desk_ok s \<Longrightarrow> goes desk_ok (\<lambda>_ _. True) (prompt_loop hw s) s"
proof (induction "length (u_polls s)" arbitrary: s rule: less_induct)
  case less
  show ?case
    by (subst prompt_loop.simps, rule dk.goes_key [OF less(2)], intro goes_if goes_kate_save) (auto simp: moves_def intro!: less(1))
qed

lemma goes_unsaved_prompt: "desk_ok s \<Longrightarrow> goes desk_ok (\<lambda>_ _. True) (kate_unsaved_prompt hw s) s"
  unfolding kate_unsaved_prompt_def
  by (rule goes_steps [OF dk.steps_paint], assumption, simp add: int_range_small, rule goes_prompt_loop, erule moves_ok)

lemma steps_kate_window:
  assumes "desk_ok s"
  shows "steps desk_ok (kate_window s) s"
proof -
  have "text_in 48 (k_fname (dk_kate s))" using desk_kate [OF assms] by (simp add: kate_ok_def)
  from gives_c_string [OF this] show ?thesis
    unfolding kate_window_def by (rule steps_gives) (rule steps_window [OF assms])
qed

lemma goes_kate_loop: "desk_ok s \<Longrightarrow> goes desk_ok (\<lambda>_ _. True) (kate_loop hw s) s"
proof (induction "length (u_polls s)" arbitrary: s rule: less_induct)
  case less
  have again: "goes desk_ok (\<lambda>_ _. True) (kate_loop hw u) u" if "desk_ok u" "length (u_polls u) < length (u_polls s)" for u
    using that by (intro less(1))
  have quit: "goes desk_ok (\<lambda>_ _. True) (andthen (if \<not> k_mod (dk_kate u) then Some (Done True u) else kate_unsaved_prompt hw u) (\<lambda>quit s.
             if quit then Some (Done () s) else do { s \<leftarrow> kate_window s; kate_loop hw s })) u"
    if u: "desk_ok u" "length (u_polls u) < length (u_polls s)" for u
    by (rule goes_andthen [where P = "\<lambda>_ _. True"], rule goes_if, use u(1) in simp, rule goes_unsaved_prompt [OF u(1)], rule goes_if,
        simp add: moves_def, rule goes_steps [OF steps_kate_window], erule moves_ok, rule again)
      (use u in \<open>auto simp: moves_def\<close>)
  have edit: "goes desk_ok (\<lambda>_ _. True) (do { e \<leftarrow> kate_edit k (dk_kate u); kate_loop hw (u\<lparr>dk_kate := e\<rparr>) }) u"
    if u: "desk_ok u" "length (u_polls u) < length (u_polls s)" for u k
    by (rule goes_gives [OF gives_edit [OF desk_kate [OF u(1)]]], rule goes_from, rule again)
      (use u in \<open>auto simp: desk_ok_kate moves_def\<close>)
  show ?case
    by (subst kate_loop.simps, rule goes_steps [OF steps_kate_draw [OF less(2)]], rule dk.goes_key, erule moves_ok,
        intro goes_if quit edit goes_kate_save again)
      (auto simp: moves_def)
qed

lemma gives_kate_open:
  assumes "kate_ok (dk_kate s)" "fnode < 0"
  shows "gives kate_ok (kate_open fnode 0 s)"
proof -
  have fname: "gives (text_in 48) (kstrcpy (k_fname (dk_kate s)) (c_str ''untitled.txt''))"
    using assms(1) by (intro gives_strcpy) (simp_all add: kate_ok_def)
  then show ?thesis using assms by (auto simp: kate_open_def Let_def kate_ok_def gives_def)
qed

lemma goes_kate:
  assumes "desk_ok s"
  shows "goes desk_ok (\<lambda>_ _. True) (run_kate hw (-1) fs_get_root s) s"
proof -
  have start: "goes desk_ok (\<lambda>_ _. True) (do {
     s \<leftarrow> kate_window (s\<lparr>dk_kate := k\<rparr>);
     s \<leftarrow> paint [Fill_rect 0 CTOP WIDTH (CBOT - CTOP + 1) BLANK LGR BLK] s;
     kate_loop hw s }) (s\<lparr>dk_kate := k\<rparr>)" if "kate_ok k" for k
    by (rule goes_steps [OF steps_kate_window], rule desk_ok_kate [OF assms that], rule goes_steps [OF dk.steps_paint], erule moves_ok,
        simp add: int_range_small, rule goes_kate_loop, erule moves_ok)
  show ?thesis
    unfolding run_kate_def fs_get_root_def
    by (rule goes_gives [OF gives_kate_open [OF desk_kate [OF assms]]], simp, rule goes_from [OF start], assumption)
      (simp add: moves_def desk_ok_kate assms)
qed

end
