(* ===== verification/DesktopRun.thy ===== *)
theory DesktopRun
  imports DesktopKate InstallerRun
begin

text \<open>
  kernel/desktop.c: the system settings, the terminal, starting a program and the main loop; then kernel/serial.c
  and \<open>kernel_main\<close> of kernel/kernel.c.
\<close>

subsection \<open>System settings\<close>

abbreviation (input) SET_NPAGES :: int where "SET_NPAGES \<equiv> 3"

definition set_pnames :: "string list" where
  "set_pnames = ['' System '', '' Users  '', '' Display'']"

text \<open>The loop that ends the value at the first end of line.\<close>

fun cut_line :: "char list \<Rightarrow> nat list \<Rightarrow> char list option" where
  "cut_line buf [] = None"
| "cut_line buf (i # is) = do {
     c \<leftarrow> rd buf i;
     if c = NUL then Some buf
     else if c = LF \<or> c = CHR 0x0D then wr buf i NUL
     else cut_line buf is }"

text \<open>The value of a file of \<open>/etc\<close>, or the one that \<open>buf\<close> has.\<close>

definition load_value :: "fs \<Rightarrow> int \<Rightarrow> string \<Rightarrow> char list \<Rightarrow> char list option" where
  "load_value ns etc name buf = do {
     f \<leftarrow> fs_read_file ns etc (Some name);
     case f of
       None \<Rightarrow> Some buf
     | Some (d, sz) \<Rightarrow>
         if sz > 0 then do {
           buf \<leftarrow> kstrncpy buf d 31;
           buf \<leftarrow> wr buf 31 NUL;
           cut_line buf [0..<length buf] }
         else Some buf }"

definition set_load :: "fs \<Rightarrow> settings \<Rightarrow> settings option" where
  "set_load ns p = do {
     etc \<leftarrow> fs_resolve ns fs_get_root (Some ''etc'');
     host \<leftarrow> kstrcpy (set_hostname p) (c_str ''furos'');
     zone \<leftarrow> kstrcpy (set_timezone p) (c_str ''UTC'');
     user \<leftarrow> kstrcpy (set_username p) (c_str ''user'');
     host \<leftarrow> (if etc \<ge> 0 then load_value ns etc ''hostname'' host else Some host);
     zone \<leftarrow> (if etc \<ge> 0 then load_value ns etc ''timezone'' zone else Some zone);
     Some (p\<lparr>set_hostname := host, set_timezone := zone, set_username := user\<rparr>) }"

definition write_value :: "int \<Rightarrow> string \<Rightarrow> char list \<Rightarrow> 'h desk \<Rightarrow> 'h desk option" where
  "write_value etc name buf s = do { t \<leftarrow> c_string buf; ui_write etc name buf (length t) s }"

definition set_save :: "'h hw \<Rightarrow> 'h desk \<Rightarrow> 'h desk option" where
  "set_save hw s = do {
     etc \<leftarrow> fs_resolve (ui_nodes s) fs_get_root (Some ''etc'');
     (etc, s) \<leftarrow> (if etc < 0 then do {
         (_, s) \<leftarrow> ui_fs (\<lambda>ns. fs_mkdir ns fs_get_root (Some ''etc'')) s;
         etc \<leftarrow> fs_resolve (ui_nodes s) fs_get_root (Some ''etc'');
         Some (etc, s) }
       else Some (etc, s));
     s \<leftarrow> (if etc \<ge> 0 then do {
         s \<leftarrow> write_value etc ''hostname'' (set_hostname (dk_set s)) s;
         write_value etc ''timezone'' (set_timezone (dk_set s)) s }
       else Some s);
     (_, s) \<leftarrow> (if disk_available (u_disk s) then ui_dsk (disk_save_fs hw) s else Some (0, s));
     Some (s\<lparr>dk_set := (dk_set s)\<lparr>set_changed := False\<rparr>\<rparr>) }"

fun tab_calls :: "int \<Rightarrow> int \<Rightarrow> int \<Rightarrow> string list \<Rightarrow> vga_call list" where
  "tab_calls page tx i [] = []"
| "tab_calls page tx i (nm # nms) = (let act = (i = page) in
     Str tx CTOP nm (if act then WHT else LGR) (if act then MAG else DGR) # Put_at (tx + slen nm) CTOP 0xB3 LGR DGR
     # tab_calls page (tx + slen nm + 1) (i + 1) nms)"

text \<open>The field \<open>i\<close> of the first page, in row \<open>y\<close>.\<close>

definition field_row :: "settings \<Rightarrow> int \<Rightarrow> int \<Rightarrow> char list \<Rightarrow> vga_call list option" where
  "field_row p i y value = do {
     let fsel = (set_field p = i);
     let bg = (if fsel \<and> set_editing p then BLU else if fsel then DGR else BLK);
     t \<leftarrow> c_string (if set_editing p \<and> set_field p = i then set_input p else value);
     fbuf \<leftarrow> spad (replicate 48 NUL) t 32;
     f \<leftarrow> c_string fbuf;
     Some (Str 15 y f WHT bg # (if fsel \<and> \<not> set_editing p then [Str 48 y '' [Enter: edit]'' DGR BLK] else [])) }"

definition page_system :: "settings \<Rightarrow> vga_call list option" where
  "page_system p = do {
     host \<leftarrow> field_row p 0 (CTOP + 3) (set_hostname p);
     zone \<leftarrow> field_row p 1 (CTOP + 4) (set_timezone p);
     Some (titbox 1 (CTOP + 2) (WIDTH - 2) 7 '' System '' LGR BLK @ [Str 3 (CTOP + 3) ''Hostname :'' LGR BLK] @ host
       @ [Str 3 (CTOP + 4) ''Timezone :'' LGR BLK] @ zone
       @ [Str 3 (CTOP + 5) ''OS       :'' LGR BLK, Str 15 (CTOP + 5) ''FurOS 1.0 Plasma Edition'' LCN BLK,
          Str 3 (CTOP + 6) ''Kernel   :'' LGR BLK, Str 15 (CTOP + 6) ''FurOS 1.0 (x86_64 bare-metal)'' LCN BLK,
          Str 3 (CTOP + 7) ''Arch     :'' LGR BLK, Str 15 (CTOP + 7) ''x86_64'' LCN BLK]) }"

definition page_users :: "settings \<Rightarrow> vga_call list option" where
  "page_users p = do {
     user \<leftarrow> c_string (set_username p);
     hpath \<leftarrow> kstrcpy (replicate 48 NUL) (c_str ''/home/'');
     rest \<leftarrow> kstrncpy (drop 6 hpath) (set_username p) 41;
     home \<leftarrow> c_string (take 6 hpath @ rest);
     Some (titbox 1 (CTOP + 2) (WIDTH - 2) 7 '' Users '' LGR BLK
       @ [Str 3 (CTOP + 3) ''Username :'' LGR BLK, Str 15 (CTOP + 3) user LCN BLK,
          Str 3 (CTOP + 4) ''Home Dir :'' LGR BLK, Str 15 (CTOP + 4) home LCN BLK,
          Str 3 (CTOP + 5) ''Shell    :'' LGR BLK, Str 15 (CTOP + 5) ''/bin/fursh'' LCN BLK,
          Str 3 (CTOP + 6) ''UID      :'' LGR BLK, Str 15 (CTOP + 6) ''1000'' LCN BLK]) }"

definition page_display :: "vga_call list" where
  "page_display = titbox 1 (CTOP + 2) (WIDTH - 2) 9 '' Display '' LGR BLK
     @ [Str 3 (CTOP + 3) ''Theme    :'' LGR BLK, Str 15 (CTOP + 3) ''Breeze Dark (FurOS Edition)'' LCN BLK,
        Str 3 (CTOP + 4) ''Font     :'' LGR BLK, Str 15 (CTOP + 4) ''VGA Text Mode (fixed 8x16)'' LCN BLK,
        Str 3 (CTOP + 5) ''Res      :'' LGR BLK, Str 15 (CTOP + 5) (''80'' @ CHR 0xD7 # ''25 characters, 16 colors'') LCN BLK,
        Str 3 (CTOP + 6) ''Renderer :'' LGR BLK, Str 15 (CTOP + 6) ''VGA direct framebuffer (0xB8000)'' LCN BLK,
        Str 3 (CTOP + 7) ''DE       :'' LGR BLK, Str 15 (CTOP + 7) ''KDE Plasma (FurOS Edition, text mode)'' LCN BLK,
        Str 3 (CTOP + 8) ''WM       :'' LGR BLK, Str 15 (CTOP + 8) ''FurWM 1.0 (single-window)'' LCN BLK]"

definition set_draw :: "settings \<Rightarrow> vga_call list option" where
  "set_draw p = do {
     page \<leftarrow> (if set_page p = 0 then page_system p else if set_page p = 1 then page_users p else Some page_display);
     Some ([Fill_rect 0 CTOP WIDTH 1 BLANK LGR DGR] @ tab_calls (set_page p) 1 0 set_pnames @ hline 0 (CTOP + 1) WIDTH DGR BLK
       @ [Fill_rect 0 (CTOP + 2) WIDTH (CBOT - CTOP - 2) BLANK LGR BLK] @ page @ [Fill_rect 0 CBOT WIDTH 1 BLANK LGR DGR]
       @ (if set_changed p then [Str 1 CBOT '' * Unsaved changes'' LRD DGR] else [])
       @ [Str (WIDTH - 40) CBOT ('' '' @ CHR 0x1B # CHR 0x1A # '': Tab   '' @ CHR 0x18 # CHR 0x19 # '': Field   F2: Save   ESC: Close'')
            LGR DGR]) }"

text \<open>What a key other than escape and F2 does; \<open>set_field\<close> is an unbounded integer here.\<close>

definition set_navigate :: "int \<Rightarrow> settings \<Rightarrow> settings option" where
  "set_navigate k p =
     (if k = KEY_LEFT \<and> set_page p > 0 then Some (p\<lparr>set_page := set_page p - 1, set_field := 0\<rparr>)
      else if k = KEY_RIGHT \<and> set_page p < SET_NPAGES - 1 then Some (p\<lparr>set_page := set_page p + 1, set_field := 0\<rparr>)
      else if k = KEY_UP \<and> set_field p > 0 then Some (p\<lparr>set_field := set_field p - 1\<rparr>)
      else if k = KEY_DOWN then Some (p\<lparr>set_field := set_field p + 1\<rparr>)
      else if (k = 10 \<or> k = 13) \<and> set_page p = 0 then do {
        input \<leftarrow> (if set_field p = 0 then kstrncpy (set_input p) (set_hostname p) 32
          else if set_field p = 1 then kstrncpy (set_input p) (set_timezone p) 32 else Some (set_input p));
        t \<leftarrow> c_string input;
        Some (p\<lparr>set_editing := True, set_input := input, set_ilen := length t\<rparr>) }
      else Some p)"

definition set_type :: "int \<Rightarrow> settings \<Rightarrow> settings option" where
  "set_type k p =
     (if k = 10 \<or> k = 13 then do {
        input \<leftarrow> wr (set_input p) (set_ilen p) NUL;
        host \<leftarrow> (if set_field p = 0 then do { b \<leftarrow> kstrncpy (set_hostname p) input 31; wr b 31 NUL } else Some (set_hostname p));
        zone \<leftarrow> (if set_field p = 1 then do { b \<leftarrow> kstrncpy (set_timezone p) input 31; wr b 31 NUL } else Some (set_timezone p));
        Some (p\<lparr>set_input := input, set_hostname := host, set_timezone := zone, set_editing := False, set_changed := True\<rparr>) }
      else if (k = 8 \<or> k = 127) \<and> set_ilen p > 0 then do {
        input \<leftarrow> wr (set_input p) (set_ilen p - 1) NUL;
        Some (p\<lparr>set_input := input, set_ilen := set_ilen p - 1\<rparr>) }
      else if k \<ge> 32 \<and> k < 127 \<and> set_ilen p < 31 then do {
        input \<leftarrow> wr (set_input p) (set_ilen p) (char_of (nat k));
        input \<leftarrow> wr input (set_ilen p + 1) NUL;
        Some (p\<lparr>set_input := input, set_ilen := set_ilen p + 1\<rparr>) }
      else Some p)"

definition set_key :: "int \<Rightarrow> settings \<Rightarrow> settings option" where
  "set_key k p = (if \<not> set_editing p then set_navigate k p else set_type k p)"

partial_function (option) settings_loop :: "'h hw \<Rightarrow> 'h desk \<Rightarrow> ('h desk, unit) outcome option" where
  "settings_loop hw s = do {
     calls \<leftarrow> set_draw (dk_set s);
     s \<leftarrow> paint (calls @ set_statusbar '' System Settings'') s;
     case next_key s of
       None \<Rightarrow> Some (Waits s)
     | Some (k, s) \<Rightarrow>
         if k = 27 then
           if set_editing (dk_set s) then settings_loop hw (s\<lparr>dk_set := (dk_set s)\<lparr>set_editing := False\<rparr>\<rparr>)
           else Some (Done () s)
         else if k = KEY_F2 then do {
           s \<leftarrow> set_save hw s;
           settings_loop hw (s\<lparr>dk_set := (dk_set s)\<lparr>set_changed := False\<rparr>\<rparr>) }
         else do { p \<leftarrow> set_key k (dk_set s); settings_loop hw (s\<lparr>dk_set := p\<rparr>) } }"

definition run_settings :: "'h hw \<Rightarrow> 'h desk \<Rightarrow> ('h desk, unit) outcome option" where
  "run_settings hw s = do {
     p \<leftarrow> set_load (ui_nodes s) ((dk_set s)\<lparr>set_page := 0, set_field := 0, set_editing := False, set_changed := False\<rparr>);
     s \<leftarrow> paint_window ''System Settings'' (Some ''Configure FurOS'') (s\<lparr>dk_set := p\<rparr>);
     settings_loop hw s }"

subsection \<open>Terminal\<close>

text \<open>The shell works on the disk, the screen and the keyboard of the desktop.\<close>

definition enter_shell :: "'h desk \<Rightarrow> 'h shell" where
  "enter_shell s = (dk_shell s)\<lparr>sh_disk := u_disk s, sh_vga := u_vga s, sh_kbd := u_kbd s, sh_polls := u_polls s\<rparr>"

definition leave_shell :: "'h desk \<Rightarrow> 'h shell \<Rightarrow> 'h desk" where
  "leave_shell s t = s\<lparr>u_disk := sh_disk t, u_vga := sh_vga t, u_kbd := sh_kbd t, u_polls := sh_polls t, dk_shell := t\<rparr>"

definition run_terminal :: "'h hw \<Rightarrow> 'h desk \<Rightarrow> ('h desk, unit) outcome option" where
  "run_terminal hw s = do {
     s \<leftarrow> paint_window ''Konsole'' (Some ''FurOS Terminal'') (s\<lparr>g_app := 0\<rparr>);
     s \<leftarrow> paint [Set_viewport CTOP CBOT, Set_color LGR BLK, Clear] s;
     r \<leftarrow> shell_run hw (enter_shell s);
     case r of
       Waiting t \<Rightarrow> Some (Waits (leave_shell s t))
     | Got t \<Rightarrow> do {
         s \<leftarrow> paint [Reset_viewport] (leave_shell s t);
         Some (Done () (s\<lparr>g_app := -1\<rparr>)) } }"

subsection \<open>Starting a program\<close>

definition launch :: "'h hw \<Rightarrow> int \<Rightarrow> 'h desk \<Rightarrow> ('h desk, unit) outcome option" where
  "launch hw i s =
     (if i = 0 then run_terminal hw s
      else if i = 1 then run_fileman s
      else if i = 2 then run_sysmon s
      else if i = 3 then run_kate hw (-1) fs_get_root s
      else if i = 4 then run_settings hw s
      else if i = 5 then andthen (run_about s) (\<lambda>_ s. Some (Done () s))
      else if i = 6 then andthen (run_shutdown s) (\<lambda>yes s.
        if yes then do {
          s \<leftarrow> paint [Set_color LGR BLK, Clear, scenter 12 ''FurOS has shut down.  It is now safe to power off.'' LGR BLK] s;
          Some (Halts s) }
        else Some (Done () s))
      else Some (Done () s))"

subsection \<open>The main loop\<close>

definition launch_then_draw :: "'h hw \<Rightarrow> int \<Rightarrow> 'h desk \<Rightarrow> ('h desk, bool) outcome option" where
  "launch_then_draw hw i s = andthen (launch hw i s) (\<lambda>_ s. Some (Done True s))"

text \<open>What a key does on the desktop; True is the \<open>break\<close>, after which the desktop is drawn again.\<close>

definition desktop_key :: "'h hw \<Rightarrow> int \<Rightarrow> 'h desk \<Rightarrow> ('h desk, bool) outcome option" where
  "desktop_key hw k s =
     (if k = KEY_F5 then Some (Done True s)
      else if k \<ge> KEY_F1 \<and> k \<le> KEY_F4 then do {
        s \<leftarrow> paint_panel (s\<lparr>g_ws := k - KEY_F1\<rparr>);
        Some (Done False s) }
      else if k = 107 \<or> k = 75 then andthen (run_kickoff s) (\<lambda>c s.
        if c \<ge> 0 then launch_then_draw hw c s else Some (Done True s))
      else if k = 99 \<or> k = 67 then andthen (run_context_menu s) (\<lambda>c s.
        if c = 0 then launch_then_draw hw 0 s
        else if c = 1 then launch_then_draw hw 1 s
        else if c = 2 then launch_then_draw hw 3 s
        else if c = 3 then launch_then_draw hw 4 s
        else Some (Done True s))
      else if k = 114 \<or> k = 82 then andthen (run_dialog s) (\<lambda>c s.
        if c \<ge> 0 then launch_then_draw hw c s else Some (Done True s))
      else if k = 116 \<or> k = 84 then launch_then_draw hw 0 s
      else if k = 102 \<or> k = 70 then launch_then_draw hw 1 s
      else if k = 109 \<or> k = 77 then launch_then_draw hw 2 s
      else if k = 101 \<or> k = 69 then launch_then_draw hw 3 s
      else if k = 103 \<or> k = 71 then launch_then_draw hw 4 s
      else if k = 97 \<or> k = 65 then launch_then_draw hw 5 s
      else if k = 113 \<or> k = 81 then launch_then_draw hw 6 s
      else if k = 49 then launch_then_draw hw 0 s
      else if k = 50 then launch_then_draw hw 1 s
      else if k = 51 then launch_then_draw hw 2 s
      else Some (Done False s))"

partial_function (option) desktop_loop :: "'h hw \<Rightarrow> bool \<Rightarrow> 'h desk \<Rightarrow> ('h desk, unit) outcome option" where
  "desktop_loop hw redraw s = do {
     s \<leftarrow> (if redraw then do { calls \<leftarrow> draw_desktop s; paint calls s } else Some s);
     case next_key s of
       None \<Rightarrow> Some (Waits s)
     | Some (k, s) \<Rightarrow> andthen (desktop_key hw k s) (\<lambda>redraw s. desktop_loop hw redraw s) }"

definition desktop_run :: "'h hw \<Rightarrow> 'h desk \<Rightarrow> ('h desk, unit) outcome option" where
  "desktop_run hw s = desktop_loop hw True s"

text \<open>The desktop at boot, with the globals as C initialises them.\<close>

definition desk_boot :: "'h disk \<Rightarrow> vga \<Rightarrow> keyboard \<Rightarrow> (u8 \<times> u8) list \<Rightarrow> (nat \<Rightarrow> nat \<Rightarrow> char) \<Rightarrow> 'h desk" where
  "desk_boot d v k polls junk = \<lparr>u_disk = d, u_vga = v, u_kbd = k, u_polls = polls, u_junk = junk, g_ws = 0, g_app = -1,
     fm_entries = replicate 128 0, fm_nent = 0, fm_cwd = 0, fm_sel = 0, fm_scroll = 0,
     dk_kate = \<lparr>k_buf = replicate KATE_MAXBUF NUL, k_len = 0, k_pos = 0, k_vscroll = 0, k_mod = False,
       k_fname = replicate 48 NUL, k_node = 0, k_cwd = 0\<rparr>,
     dk_set = \<lparr>set_page = 0, set_field = 0, set_editing = False, set_input = replicate 64 NUL, set_ilen = 0,
       set_hostname = replicate 32 NUL, set_timezone = replicate 32 NUL, set_username = replicate 32 NUL, set_changed = False\<rparr>,
     dk_shell = shell_boot d v k polls\<rparr>"

subsection \<open>Boot\<close>

definition MULTIBOOT2_BOOT_MAGIC :: u32 where "MULTIBOOT2_BOOT_MAGIC = 0x36D76289"

text \<open>
  \<open>kernel_main\<close> without the debug output that \<open>FUR_OS_SERIAL_DEBUG\<close> compiles in; \<open>boot_mark\<close> (the global \<open>fur_boot_magic\<close>) and
  the images in \<open>bl\<close> come from the boot code.
\<close>

definition kernel_main :: "'h hw \<Rightarrow> blobs \<Rightarrow> u32 \<Rightarrow> 'h desk \<Rightarrow> ('h desk, unit) outcome option" where
  "kernel_main hw bl boot_mark s = do {
     s \<leftarrow> paint [Set_color LGR BLK, Clear] s;
     if boot_mark = MULTIBOOT2_BOOT_MAGIC then installer_run hw bl s else desktop_run hw s }"

end
