(* ===== verification/DesktopRunSafe.thy ===== *)
theory DesktopRunSafe
  imports DesktopKateSafe DesktopRun ShellRunning
begin

text \<open>
  The desktop is safe, last part: the settings, the terminal with a whole session of the shell, the main loop and
  \<open>kernel_main\<close>.
\<close>

subsection \<open>Settings\<close>

lemma gives_strncpy:
  assumes "text_in m src" "k \<le> length d"
  shows "gives (\<lambda>b. length b = length d \<and> (length (cstr src) < k \<longrightarrow> NUL \<in> set b)) (kstrncpy d src k)"
proof -
  have nul: "NUL \<in> set src" using assms(1) by (simp add: text_in_def)
  then obtain t where t: "src = cstr src @ NUL # t" using cstr_split by blast
  from kstrncpy_eq [OF nul_free_cstr assms(2), of src t] show ?thesis
    unfolding t [symmetric] using assms(2) by simp
qed

text \<open>The copy of at most 31 characters with a terminator behind.\<close>

lemma gives_value:
  assumes "text_in m src" "length d = 32"
  shows "gives (text_in 32) (do { b \<leftarrow> kstrncpy d src 31; wr b 31 NUL })"
  by (rule gives_bind [OF gives_strncpy [OF assms(1), where k = 31]])
    (use assms(2) in \<open>auto simp: text_in_put\<close>)

lemma gives_cut_line:
  "text_in n buf \<Longrightarrow> set is \<subseteq> {..<n} \<Longrightarrow> \<exists>i \<in> set is. buf ! i = NUL \<Longrightarrow> gives (text_in n) (cut_line buf is)"
  by (induction "is") (auto simp: text_in_def set_update_memI)

lemma gives_load_value:
  assumes "fs_mem ns" "in_table ns c" "nul_free name" "text_in 32 buf"
  shows "gives (text_in 32) (load_value ns (int c) name buf)"
proof -
  obtain f where f: "fs_read_file ns (int c) (Some name) = Some f"
      "\<And>d sz. f = Some (d, sz) \<Longrightarrow> text_in 4096 d"
    using fs_read_file_in [OF assms(1-3)] by (auto simp: text_in_def)
  have cut: "gives (text_in 32) (cut_line b [0..<length b])" if "text_in 32 b" for b
    using that by (intro gives_cut_line) (auto simp: text_in_def in_set_conv_nth)
  have "gives (text_in 32) (do { buf \<leftarrow> kstrncpy buf d 31; buf \<leftarrow> wr buf 31 NUL; cut_line buf [0..<length buf] })"
    if "text_in 4096 d" for d
    using gives_value [OF that, of buf] assms(4) cut by (auto simp: gives_def text_in_def split: bind_splits)
  then show ?thesis using f assms(4) by (auto simp: load_value_def split: option.split)
qed

lemma gives_set_load:
  assumes "fs_mem ns" "settings_ok p"
  shows "gives settings_ok (set_load ns p)"
proof -
  have etc: "gives (\<lambda>r. 0 \<le> r \<longrightarrow> in_table ns (nat r)) (fs_resolve ns fs_get_root (Some ''etc''))"
  proof -
    obtain r where "fs_resolve ns (int 0) (Some ''etc'') = Some (node_code r)" "\<forall>d. r = Some d \<longrightarrow> in_table ns d"
      using intab.fs_resolve_in [OF assms(1) at_root, of "''etc''"] by auto
    then show ?thesis by (cases r) (auto simp: fs_get_root_def)
  qed
  have copy: "gives (text_in 32) (kstrcpy b (c_str t))" if "text_in 32 b" "nul_free t" "length t < 32" for b t
    using that by (rule gives_strcpy)
  have load: "gives (text_in 32) (if 0 \<le> etc then load_value ns etc name b else Some b)"
    if "0 \<le> etc \<longrightarrow> in_table ns (nat etc)" "nul_free name" "text_in 32 b" for etc name b
    using gives_load_value [OF assms(1) _ that(2,3), of "nat etc"] that by auto
  show ?thesis
    unfolding set_load_def
    by (rule gives_bind [OF etc], rule gives_bind [OF copy], use assms(2) in \<open>simp add: settings_ok_def\<close>, simp, simp,
        rule gives_bind [OF copy], use assms(2) in \<open>simp add: settings_ok_def\<close>, simp, simp,
        rule gives_bind [OF copy], use assms(2) in \<open>simp add: settings_ok_def\<close>, simp, simp,
        rule gives_bind [OF load], assumption, simp, assumption, rule gives_bind [OF load], assumption, simp, assumption)
      (use assms(2) in \<open>simp add: settings_ok_def\<close>)
qed

lemma gives_set_navigate:
  assumes "settings_ok p"
  shows "gives settings_ok (set_navigate k p)"
proof -
  have input: "gives (text_in 64) (kstrncpy (set_input p) src 32)" if "text_in 32 src" for src
    using gives_strncpy [OF that, of 32 "set_input p"] length_cstr_less [of src] assms that
    by (auto simp: settings_ok_def text_in_def gives_def)
  have field: "gives (text_in 64) (if set_field p = 0 then kstrncpy (set_input p) (set_hostname p) 32
      else if set_field p = 1 then kstrncpy (set_input p) (set_timezone p) 32 else Some (set_input p))"
    by (intro gives_if input) (use assms in \<open>simp_all add: settings_ok_def\<close>)
  show ?thesis
    unfolding set_navigate_def
    by (intro gives_if gives_bind [OF field] gives_bind [OF gives_c_string [where n = 64]])
      (use assms in \<open>auto simp: settings_ok_def\<close>)
qed

lemma gives_set_type:
  assumes "settings_ok p"
  shows "gives settings_ok (set_type k p)"
proof -
  note p = assms [unfolded settings_ok_def]
  have put: "gives (text_in 64) (wr (set_input p) i NUL)" if "i < 64" for i
    by (rule gives_mono [OF gives_wr]) (use p that in \<open>auto simp: text_in_def set_update_memI\<close>)
  have field: "gives (text_in 32) (if b then do { b \<leftarrow> kstrncpy d src 31; wr b 31 NUL } else Some d)"
    if "text_in 64 src" "text_in 32 d" for b src d
    using gives_value [OF that(1), of d] that(2) by (simp add: text_in_def)
  have char: "gives (text_in 64) (do { b \<leftarrow> wr (set_input p) (set_ilen p) c; wr b (set_ilen p + 1) NUL })" if "set_ilen p < 31" for c
    by (rule gives_bind [OF gives_wr]) (use p that in \<open>auto simp: text_in_def set_update_memI\<close>)
  have type: "gives settings_ok (do { input \<leftarrow> wr (set_input p) (set_ilen p) c; input \<leftarrow> wr input (set_ilen p + 1) NUL;
      Some (p\<lparr>set_input := input, set_ilen := set_ilen p + 1\<rparr>) })" if "set_ilen p < 31" for c
    using char [OF that, of c] p that by (auto simp: gives_def settings_ok_def split: bind_splits)
  show ?thesis
    unfolding set_type_def
    by (intro gives_if type, rule gives_bind [OF put], use p in simp, rule gives_bind [OF field], assumption, use p in simp,
        rule gives_bind [OF field], assumption, use p in simp, use p in \<open>simp add: settings_ok_def\<close>,
        rule gives_bind [OF put])
      (use p in \<open>auto simp: settings_ok_def\<close>)
qed

lemma gives_set_key: "settings_ok p \<Longrightarrow> gives settings_ok (set_key k p)"
  by (simp add: set_key_def gives_set_navigate gives_set_type)

lemma tab_calls_safe [simp]: "calls_safe (tab_calls page tx i nms)"
  by (induction page tx i nms rule: tab_calls.induct) (simp_all add: Let_def)

lemma gives_field_row:
  assumes "settings_ok p" "text_in 32 v"
  shows "gives calls_safe (field_row p i y v)"
proof -
  have t: "gives (\<lambda>_. True) (c_string (if b then set_input p else v))" for b
    using gives_c_string [of 64 "set_input p"] gives_c_string [OF assms(2)] assms(1) by (auto simp: settings_ok_def gives_def)
  show ?thesis
    unfolding field_row_def Let_def
    by (rule gives_bind [OF t], rule gives_bind [OF gives_spad [where n = 48]], rule length_replicate, simp,
        rule gives_bind [OF gives_c_string [where n = 48]], assumption)
      simp
qed

lemma gives_page_users:
  assumes "settings_ok p"
  shows "gives calls_safe (page_users p)"
proof -
  have user: "text_in 32 (set_username p)" using assms by (simp add: settings_ok_def)
  have dir: "gives (\<lambda>b. length b = 48) (kstrcpy (replicate 48 NUL) (c_str ''/home/''))"
    by (rule gives_mono [OF gives_strcpy [where n = 48]]) (simp_all add: text_in_def)
  have rest: "gives (\<lambda>b. NUL \<in> set b) (kstrncpy (drop 6 h) (set_username p) 41)" if "length h = 48" for h
    by (rule gives_mono [OF gives_strncpy [OF user]]) (use that user length_cstr_less [of "set_username p"] in \<open>auto simp: text_in_def\<close>)
  have home: "gives (\<lambda>_. True) (c_string (take 6 h @ r))" if "NUL \<in> set r" for h r
    using that by (simp add: c_string_def)
  have "calls_safe (titbox 1 (CTOP + 2) (WIDTH - 2) 7 '' Users '' LGR BLK)" by (rule titbox_safe) (simp_all add: small_def)
  then show ?thesis
    unfolding page_users_def
    by (intro gives_bind [OF gives_c_string [OF user]] gives_bind [OF dir] gives_bind [OF rest] gives_bind [OF home]) auto
qed

lemma gives_set_draw:
  assumes "settings_ok p"
  shows "gives calls_safe (set_draw p)"
proof -
  have "calls_safe (titbox 1 (CTOP + 2) (WIDTH - 2) 7 '' System '' LGR BLK)"
    "calls_safe (titbox 1 (CTOP + 2) (WIDTH - 2) 9 '' Display '' LGR BLK)"
    by (rule titbox_safe; simp add: small_def)+
  note box = this
  have system: "gives calls_safe (page_system p)"
    unfolding page_system_def
    by (intro gives_bind [OF gives_field_row [OF assms]]) (use assms box(1) in \<open>auto simp: settings_ok_def\<close>)
  have display: "calls_safe page_display" using box(2) by (auto simp: page_display_def)
  have page: "gives calls_safe (if set_page p = 0 then page_system p else if set_page p = 1 then page_users p else Some page_display)"
    by (intro gives_if system gives_page_users [OF assms]) (use display in simp)
  show ?thesis unfolding set_draw_def by (rule gives_bind [OF page]) (auto simp: int_range_small)
qed

lemma desk_ok_set: "desk_ok s \<Longrightarrow> settings_ok p \<Longrightarrow> desk_ok (s\<lparr>dk_set := p\<rparr>)"
  by (simp add: desk_ok_def)

lemma desk_set: "desk_ok s \<Longrightarrow> settings_ok (dk_set s)"
  by (simp add: desk_ok_def)

lemma settings_ok_updates [simp]:
  "settings_ok (p\<lparr>set_changed := b\<rparr>) = settings_ok p" "settings_ok (p\<lparr>set_editing := b\<rparr>) = settings_ok p"
  "settings_ok (p\<lparr>set_page := i\<rparr>) = settings_ok p" "settings_ok (p\<lparr>set_field := i\<rparr>) = settings_ok p"
  by (simp_all add: settings_ok_def)

lemma steps_write_value:
  assumes "desk_ok s" "0 \<le> etc" "in_table (ui_nodes s) (nat etc)" "nul_free name" "text_in n b"
  shows "\<exists>d. write_value etc name b s = Some (s\<lparr>u_disk := d\<rparr>) \<and> moves desk_ok s (s\<lparr>u_disk := d\<rparr>)
    \<and> in_table (d_nodes d) (nat etc)"
proof -
  have buf: "buffer_ok (Some b) (length (cstr b))" "NUL \<in> set b"
    using assms(5) length_cstr_less [of b] by (simp_all add: buffer_ok_def text_in_def)
  have "\<exists>r ns. fs_write_file (ui_nodes s) etc (Some name) (Some b) (length (cstr b)) = Some (r, ns) \<and> fs_keeps (ui_nodes s) ns"
    using fs_write_file_in [OF dk.ok_mem [OF assms(1)] assms(3,4) buf(1)] assms(2) by simp
  from dk.steps_fs [where f = "\<lambda>ns. fs_write_file ns etc (Some name) (Some b) (length (cstr b))", OF assms(1) this] assms(3) buf(2)
  show ?thesis by (auto simp: write_value_def ui_write_def c_string_def fs_keeps_def)
qed

text \<open>The parts of \<open>set_save\<close>: the directory, which is made if it is not there, the two files, and the disk.\<close>

lemma gives_settings_dir:
  assumes "desk_ok s" "0 \<le> e \<longrightarrow> in_table (ui_nodes s) (nat e)"
  shows "gives (\<lambda>(r, t). moves desk_ok s t \<and> (0 \<le> r \<longrightarrow> in_table (ui_nodes t) (nat r))) (if e < 0 then do {
         (_, s) \<leftarrow> ui_fs (\<lambda>ns. fs_mkdir ns fs_get_root (Some ''etc'')) s;
         etc \<leftarrow> fs_resolve (ui_nodes s) fs_get_root (Some ''etc'');
         Some (etc, s) }
       else Some (e, s))"
proof (cases "e < 0")
  case True
  have mk: "gives (\<lambda>(r, t). moves desk_ok s t) (ui_fs (\<lambda>ns. fs_mkdir ns fs_get_root (Some ''etc'')) s)"
    using fs_create_in(1) [OF dk.ok_mem [OF assms(1)] at_root, of "''etc''"]
    by (intro dk.ui_fs_steps [OF assms(1)]) (simp add: fs_mkdir_def fs_get_root_def)
  show ?thesis
    unfolding if_P [OF True]
    by (rule gives_bind_pair [OF mk], rule gives_bind [OF dk.gives_resolve]) (auto simp: moves_def fs_get_root_def at_root)
qed (use assms in simp)

lemma steps_settings_files:
  assumes "desk_ok s" "0 \<le> e \<longrightarrow> in_table (ui_nodes s) (nat e)"
  shows "steps desk_ok (if 0 \<le> e then do {
         t \<leftarrow> write_value e ''hostname'' (set_hostname (dk_set s)) s;
         write_value e ''timezone'' (set_timezone (dk_set t)) t } else Some s) s"
proof (cases "0 \<le> e")
  case True
  note p = desk_set [OF assms(1), unfolded settings_ok_def]
  obtain d where d: "write_value e ''hostname'' (set_hostname (dk_set s)) s = Some (s\<lparr>u_disk := d\<rparr>)" "moves desk_ok s (s\<lparr>u_disk := d\<rparr>)"
      "in_table (d_nodes d) (nat e)"
    using steps_write_value [OF assms(1) True, of "''hostname''" 32 "set_hostname (dk_set s)"] assms(2) True p by auto
  have "desk_ok (s\<lparr>u_disk := d\<rparr>)" using d(2) by (rule moves_ok)
  from steps_write_value [OF this True, of "''timezone''" 32 "set_timezone (dk_set s)"] d(3) p
  obtain d' where "write_value e ''timezone'' (set_timezone (dk_set s)) (s\<lparr>u_disk := d\<rparr>) = Some (s\<lparr>u_disk := d'\<rparr>)"
      "moves desk_ok (s\<lparr>u_disk := d\<rparr>) (s\<lparr>u_disk := d'\<rparr>)" by auto
  with d True show ?thesis by (auto simp: steps_def moves_def)
qed (use assms(1) in simp)

lemma steps_settings_disk:
  "desk_ok s \<Longrightarrow> steps desk_ok (do {
     (_, s) \<leftarrow> (if disk_available (u_disk s) then ui_dsk (disk_save_fs hw) s else Some (0, s));
     Some (s\<lparr>dk_set := (dk_set s)\<lparr>set_changed := False\<rparr>\<rparr>) }) s"
  by (rule steps_gives_pair [OF gives_disk_save]) (auto simp: moves_def desk_ok_set desk_set)

lemma steps_set_save:
  assumes "desk_ok s"
  shows "steps desk_ok (set_save hw s) s"
proof -
  have find: "gives (\<lambda>r. 0 \<le> r \<longrightarrow> in_table (ui_nodes s) (nat r)) (fs_resolve (ui_nodes s) fs_get_root (Some ''etc''))"
    using assms by (intro dk.gives_resolve) (simp_all add: fs_get_root_def at_root)
  show ?thesis
    unfolding set_save_def
    by (rule steps_gives [OF find], rule steps_gives_pair [OF gives_settings_dir [OF assms]], assumption, rule steps_from [rotated], simp,
        erule conjunct1, rule steps_bind [OF steps_settings_files], simp add: moves_def, simp, rule steps_settings_disk, erule moves_ok)
qed

lemma goes_settings_loop: "desk_ok s \<Longrightarrow> goes desk_ok (\<lambda>_ _. True) (settings_loop hw s) s"
proof (induction "length (u_polls s)" arbitrary: s rule: less_induct)
  case less
  have again: "goes desk_ok (\<lambda>_ _. True) (settings_loop hw (t\<lparr>dk_set := p\<rparr>)) t"
    if "desk_ok t" "settings_ok p" "length (u_polls t) < length (u_polls s)" for t p
    by (rule goes_from, rule less(1)) (use that in \<open>auto simp: desk_ok_set moves_def\<close>)
  have save: "goes desk_ok (\<lambda>_ _. True) (do { s \<leftarrow> set_save hw t;
      settings_loop hw (s\<lparr>dk_set := (dk_set s)\<lparr>set_changed := False\<rparr>\<rparr>) }) t"
    if "desk_ok t" "length (u_polls t) < length (u_polls s)" for t
    by (rule goes_steps [OF steps_set_save [OF that(1)]], rule again) (use that in \<open>auto simp: moves_def desk_set\<close>)
  have key: "goes desk_ok (\<lambda>_ _. True) (do { p \<leftarrow> set_key k (dk_set t); settings_loop hw (t\<lparr>dk_set := p\<rparr>) }) t"
    if "desk_ok t" "length (u_polls t) < length (u_polls s)" for t k
    by (rule goes_gives [OF gives_set_key [OF desk_set [OF that(1)]]], rule again) (use that in auto)
  show ?case
    by (subst settings_loop.simps, rule goes_gives [OF gives_set_draw [OF desk_set [OF less(2)]]],
        rule goes_steps [OF dk.steps_paint [OF less(2)]], (auto)[1], rule dk.goes_key, erule moves_ok, intro goes_if again save key)
      (auto simp: moves_def desk_set)
qed

lemma goes_settings:
  assumes "desk_ok s"
  shows "goes desk_ok (\<lambda>_ _. True) (run_settings hw s) s"
proof -
  have ok: "fs_mem (ui_nodes s)" using assms by (rule dk.ok_mem)
  have start: "goes desk_ok (\<lambda>_ _. True) (do {
     s \<leftarrow> paint_window ''System Settings'' (Some ''Configure FurOS'') (s\<lparr>dk_set := p\<rparr>);
     settings_loop hw s }) (s\<lparr>dk_set := p\<rparr>)" if "settings_ok p" for p
    by (rule goes_steps [OF steps_window], rule desk_ok_set [OF assms that], rule goes_settings_loop, erule moves_ok)
  show ?thesis
    unfolding run_settings_def
    by (rule goes_gives [OF gives_set_load [OF ok]], simp add: desk_set [OF assms], rule goes_from [OF start], assumption)
      (simp add: moves_def desk_ok_set assms)
qed

subsection \<open>Terminal\<close>

text \<open>Choosing the viewport and clearing it brings the cursor into it.\<close>

lemma paint_viewport:
  assumes "vga_ok (u_vga s)"
  shows "\<exists>v. paint [Set_viewport 1 22, Set_color fg bg, Clear] s = Some (s\<lparr>u_vga := v\<rparr>) \<and> vga_ok v \<and> in_viewport v"
proof -
  let ?v = "vga_set_color (vga_set_viewport (u_vga s) 1 22) fg bg"
  have ok: "vga_ok ?v" "v_top ?v = 1" "v_bot ?v = 22"
    using assms by (auto simp: vga_ok_def vga_set_viewport_def vga_set_color_def on_screen_def Let_def)
  obtain m where m: "vga_clear ?v = Some (?v\<lparr>v_mem := m, v_row := v_top ?v, v_col := 0\<rparr>)"
    using vga_clear_paints [OF ok(1)] by blast
  with vga_clear_step [OF ok(1)] have "vga_ok (?v\<lparr>v_mem := m, v_row := v_top ?v, v_col := 0\<rparr>)" by (auto simp: text_step_def)
  with m ok show ?thesis by (auto simp: paint_def in_viewport_def)
qed

lemma enter_shell_ok: "desk_ok s \<Longrightarrow> in_viewport (u_vga s) \<Longrightarrow> shell_ok (enter_shell s)"
  by (simp add: desk_ok_def shell_ok_def enter_shell_def)

lemma leave_shell_ok: "desk_ok s \<Longrightarrow> shell_ok t \<Longrightarrow> desk_ok (leave_shell s t)"
  by (simp add: desk_ok_def shell_ok_def leave_shell_def)

text \<open>A session of the shell, from the screen it is given on.\<close>

lemma goes_session:
  assumes "desk_ok s" "in_viewport (u_vga s)" "busy_ends hw" "ram_exact hw"
  shows "goes desk_ok (\<lambda>_ _. True) (do {
     r \<leftarrow> shell_run hw (enter_shell s);
     case r of
       Waiting t \<Rightarrow> Some (Waits (leave_shell s t))
     | Got t \<Rightarrow> do {
         s \<leftarrow> paint [Reset_viewport] (leave_shell s t);
         Some (Done () (s\<lparr>g_app := -1\<rparr>)) } }) s"
proof -
  have polls: "sh_polls (enter_shell s) = u_polls s" by (simp add: enter_shell_def)
  have reset: "\<exists>u. paint [Reset_viewport] (leave_shell s t) = Some u \<and> moves desk_ok s u"
    if "sh_moves ((enter_shell s)\<lparr>shell_uid := SHELL_UID_DEBIAN\<rparr>) t" for t
  proof -
    have l: "desk_ok (leave_shell s t)" "length (u_polls (leave_shell s t)) \<le> length (u_polls s)"
      using that leave_shell_ok [OF assms(1)] polls by (simp_all add: sh_moves_def leave_shell_def)
    from dk.steps_paint [OF l(1), of "[Reset_viewport]"] show ?thesis using l(2) by (auto simp: steps_def moves_def)
  qed
  from ends_cases [OF ends_run [OF enter_shell_ok [OF assms(1,2)] assms(3,4)]] show ?thesis
  proof (elim disjE exE conjE)
    fix t assume "shell_run hw (enter_shell s) = Some (Waiting t)" "waits ((enter_shell s)\<lparr>shell_uid := SHELL_UID_DEBIAN\<rparr>) t"
    then show ?thesis using leave_shell_ok [OF assms(1)] by (simp add: waits_def)
  next
    fix t assume t: "shell_run hw (enter_shell s) = Some (Got t)" "sh_moves ((enter_shell s)\<lparr>shell_uid := SHELL_UID_DEBIAN\<rparr>) t"
    with reset [OF t(2)] show ?thesis by (auto simp: moves_def)
  qed
qed

lemma goes_terminal:
  assumes "desk_ok s" "busy_ends hw" "ram_exact hw"
  shows "goes desk_ok (\<lambda>_ _. True) (run_terminal hw s) s"
proof -
  obtain s1 where s1: "paint_window ''Konsole'' (Some ''FurOS Terminal'') (s\<lparr>g_app := 0\<rparr>) = Some s1" "moves desk_ok s s1"
    using steps_window [of "s\<lparr>g_app := 0\<rparr>"] assms(1) by (auto simp: steps_def moves_def)
  have ok1: "desk_ok s1" using s1(2) by (rule moves_ok)
  then have "vga_ok (u_vga s1)" by (simp add: desk_ok_def)
  from paint_viewport [OF this] obtain v where
    v: "paint [Set_viewport CTOP CBOT, Set_color LGR BLK, Clear] s1 = Some (s1\<lparr>u_vga := v\<rparr>)" "vga_ok v" "in_viewport v" by blast
  define s2 where "s2 = s1\<lparr>u_vga := v\<rparr>"
  have s2: "desk_ok s2" "in_viewport (u_vga s2)" "moves desk_ok s s2" using ok1 v(2,3) s1(2) by (simp_all add: s2_def desk_ok_def moves_def)
  show ?thesis
    unfolding run_terminal_def s1(1) bind.bind_lunit v(1) s2_def [symmetric]
    by (rule goes_from [OF goes_session [OF s2(1,2) assms(2,3)] s2(3)])
qed

subsection \<open>Programs and the main loop\<close>

lemma goes_launch:
  assumes "desk_ok s" "busy_ends hw" "ram_exact hw"
  shows "goes desk_ok (\<lambda>_ _. True) (launch hw i s) s"
proof -
  have off: "goes desk_ok (\<lambda>_ _. True) (do {
       s \<leftarrow> paint [Set_color LGR BLK, Clear, scenter 12 ''FurOS has shut down.  It is now safe to power off.'' LGR BLK] t;
       Some (Halts s) }) t" if "desk_ok t" for t :: "'a desk"
    by (rule goes_steps [OF dk.steps_paint [OF that]]) (auto dest: moves_ok)
  show ?thesis
    unfolding launch_def run_shutdown_def
    by (intro goes_if goes_terminal goes_fileman goes_sysmon goes_kate goes_settings assms goes_andthen [OF dk.goes_about]
        goes_andthen [OF dk.goes_shutdown_loop] off)
      (use assms in \<open>auto simp: moves_def\<close>)
qed

lemma goes_launch_draw:
  "desk_ok s \<Longrightarrow> busy_ends hw \<Longrightarrow> ram_exact hw \<Longrightarrow> goes desk_ok (\<lambda>_ _. True) (launch_then_draw hw i s) s"
  unfolding launch_then_draw_def by (rule goes_andthen [OF goes_launch]) (auto simp: moves_def)

lemma goes_desktop_key:
  assumes "desk_ok s" "busy_ends hw" "ram_exact hw"
  shows "goes desk_ok (\<lambda>_ _. True) (desktop_key hw k s) s"
proof -
  have pager: "goes desk_ok (\<lambda>_ _. True) (do { s \<leftarrow> paint_panel (s\<lparr>g_ws := w\<rparr>); Some (Done False s) }) s" for w
    using steps_panel [of "s\<lparr>g_ws := w\<rparr>"] assms(1) by (auto simp: steps_def moves_def)
  show ?thesis
    unfolding desktop_key_def run_context_menu_def
    by (intro goes_if pager goes_launch_draw assms goes_andthen [OF dk.goes_run_kickoff] goes_andthen [OF dk.goes_run_dialog]
        goes_andthen [OF dk.goes_ctx_loop])
      (use assms in \<open>auto simp: moves_def\<close>)
qed

lemma goes_desktop_loop:
  "desk_ok s \<Longrightarrow> busy_ends hw \<Longrightarrow> ram_exact hw \<Longrightarrow> goes desk_ok (\<lambda>_ _. False) (desktop_loop hw redraw s) s"
proof (induction "length (u_polls s)" arbitrary: redraw s rule: less_induct)
  case less
  have draw: "steps desk_ok (if redraw then do { calls \<leftarrow> draw_desktop s; paint calls s } else Some s) s"
    by (rule steps_if, rule steps_gives [OF gives_desktop], use less(2) in \<open>simp add: desk_ok_def\<close>, rule dk.steps_paint [OF less(2)])
      (use less(2) in simp_all)
  show ?case
    by (subst desktop_loop.simps, rule goes_steps [OF draw], rule dk.goes_key, erule moves_ok,
        rule goes_andthen [OF goes_desktop_key], erule moves_ok, rule less(3), rule less(4), rule less(1))
      (use less(3,4) in \<open>auto simp: moves_def\<close>)
qed

end
