(* ===== verification/KernelProps.thy ===== *)
theory KernelProps
  imports DesktopRunSafe ShellProps
begin

text \<open>
  Properties of the whole kernel: booting into the installer or the desktop is safe whatever the user types and
  whatever the disks hold, and the shell in its window leaves the rest of the screen alone.
\<close>

subsection \<open>Booting\<close>

text \<open>
  The code reads three bytes of uninitialised arrays on the stack: when the installer writes the host name, and the ends of the
  paths in the file manager. What is assumed of them is that they happen to be 0.
\<close>

definition quiet_stack :: "(nat \<Rightarrow> nat \<Rightarrow> char) \<Rightarrow> bool" where
  "quiet_stack junk \<longleftrightarrow> (\<forall>m. junk m 32 = NUL \<and> junk m 79 = NUL \<and> junk m 191 = NUL)"

text \<open>The table of files before \<open>fs_init\<close>: static memory, all zero.\<close>

definition blank_table :: fs where
  "blank_table = replicate FS_MAX_NODES zero_node"

lemma blank_table_mem: "fs_mem blank_table" "own_parent blank_table"
proof -
  have "node_ok zero_node" by (simp add: node_ok_def zero_node_def)
  then show "fs_mem blank_table" by (simp add: fs_mem_def blank_table_def)
  show "own_parent blank_table" by (simp add: own_parent_def blank_table_def zero_node_def)
qed

lemma boot_ok:
  assumes "vga_ok v" "quiet_stack junk" "fs_mem ns" "own_parent ns"
  shows "desk_ok (desk_boot (disk_boot h ns) v k polls junk)" "wizard_ok (desk_boot (disk_boot h ns) v k polls junk)"
proof -
  have d: "disk_ok (disk_boot h ns)" by (rule disk_boot_ok [OF assms(3)])
  have n: "d_nodes (disk_boot h ns) = ns" by (simp add: disk_boot_def)
  show "desk_ok (desk_boot (disk_boot h ns) v k polls junk)"
    using assms d n at_root [of ns]
    by (simp add: desk_ok_def desk_boot_def quiet_stack_def kate_ok_def settings_ok_def text_in_def shell_boot_def)
  show "wizard_ok (desk_boot (disk_boot h ns) v k polls junk)"
    using assms d by (simp add: wizard_ok_def desk_boot_def quiet_stack_def)
qed

lemmas desk_boot_ok = boot_ok [OF _ _ blank_table_mem]

text \<open>C1. The kernel never leaves a buffer or a table: from \<open>kernel_main\<close> on, whatever \<open>fur_boot_magic\<close> selects, whatever
  bytes the disks hold and whatever the user types, the installer or the desktop is waiting for a key or has halted the
  machine, with the drivers, the file system and the screen in a good state. The hardware may answer anything as long as no
  device stays busy for ever and reading memory gives as many bytes as asked for; of the uninitialised stack the code reads
  three bytes, which are assumed to be 0.\<close>

theorem kernel_main_safe:
  assumes "busy_ends hw" "ram_exact hw" "vga_ok v" "quiet_stack junk"
  shows "\<exists>r t. kernel_main hw bl boot_mark (desk_boot (disk_boot h blank_table) v k polls junk) = Some r
    \<and> (r = Waits t \<or> r = Halts t) \<and> disk_ok (u_disk t) \<and> vga_ok (u_vga t)"
proof -
  let ?s = "desk_boot (disk_boot h blank_table) v k polls junk"
  let ?ok = "\<lambda>t :: 'a desk. disk_ok (u_disk t) \<and> vga_ok (u_vga t)"
  obtain u where u: "paint [Set_color LGR BLK, Clear] ?s = Some (?s\<lparr>u_vga := u\<rparr>)" "vga_ok u"
    using paint_total [of ?s "[Set_color LGR BLK, Clear]"] assms(3) by (auto simp: desk_boot_def)
  let ?t = "?s\<lparr>u_vga := u\<rparr>"
  have ok: "desk_ok ?t" "wizard_ok ?t" using desk_boot_ok [OF assms(3,4), of h k polls] u(2) by (simp_all add: desk_ok_def wizard_ok_def)
  have "goes ?ok (\<lambda>_ _. False) (if boot_mark = MULTIBOOT2_BOOT_MAGIC then installer_run hw bl ?t else desktop_run hw ?t) ?t"
    unfolding desktop_run_def
    by (intro goes_if goes_invariant [OF goes_installer [OF ok(2) assms(1)]] goes_invariant [OF goes_desktop_loop [OF ok(1) assms(1,2)]])
      (simp_all add: desk_ok_def wizard_ok_def)
  then show ?thesis
    by (auto simp: kernel_main_def u(1) goes_def split: option.splits outcome.splits)
qed

lemma quiet_NUL: "quiet_stack (\<lambda>m i. NUL)"
  by (simp add: quiet_stack_def)

theorem kernel_main_safe_witness:
  "\<exists>r t. kernel_main bare_hw \<lparr>bl_kernel = [], bl_entry = 0, bl_bootsect = []\<rparr> 0
      (desk_boot (disk_boot () blank_table) vga_init keyboard_init (ready (type_string ''fe'')) (\<lambda>m i. NUL)) = Some r
    \<and> (r = Waits t \<or> r = Halts t) \<and> disk_ok (u_disk t) \<and> vga_ok (u_vga t)"
  by (rule kernel_main_safe [OF bare_busy_ends bare_ram vga_init_ok quiet_NUL])

subsection \<open>The shell in its window\<close>

text \<open>The cells of two screens outside the window's contents are the same.\<close>

definition same_frame :: "vga \<Rightarrow> vga \<Rightarrow> bool" where
  "same_frame v w \<longleftrightarrow> (\<forall>x y. on_screen x y \<and> (y < CTOP \<or> CBOT < y) \<longrightarrow> cell (v_mem w) x y = cell (v_mem v) x y)"

lemma same_frame_trans: "same_frame u v \<Longrightarrow> same_frame v w \<Longrightarrow> same_frame u w"
  by (simp add: same_frame_def)

lemma same_frame_viewport [simp]: "same_frame u (v\<lparr>v_top := a, v_bot := b\<rparr>) = same_frame u v"
  by (simp add: same_frame_def)

lemma text_step_frame: "text_step v w \<Longrightarrow> in_viewport v \<Longrightarrow> v_top v = CTOP \<Longrightarrow> v_bot v = CBOT \<Longrightarrow> same_frame v w"
  by (simp add: text_step_def same_frame_def)

lemma paint_viewport_frame:
  assumes "vga_ok (u_vga s)"
  shows "\<exists>v. paint [Set_viewport CTOP CBOT, Set_color fg bg, Clear] s = Some (s\<lparr>u_vga := v\<rparr>) \<and> vga_ok v \<and> in_viewport v
    \<and> v_top v = CTOP \<and> v_bot v = CBOT \<and> same_frame (u_vga s) v"
proof -
  let ?v = "vga_set_color (vga_set_viewport (u_vga s) CTOP CBOT) fg bg"
  have v: "vga_ok ?v" "v_top ?v = CTOP" "v_bot ?v = CBOT" "in_viewport ?v" "v_mem ?v = v_mem (u_vga s)"
    using assms by (auto simp: vga_ok_def vga_set_viewport_def vga_set_color_def on_screen_def in_viewport_def Let_def)
  obtain w where w: "vga_clear ?v = Some w" "text_step ?v w" using vga_clear_step [OF v(1)] by blast
  have "same_frame (u_vga s) w" using text_step_frame [OF w(2) v(4,2,3)] v(5) by (simp add: same_frame_def)
  with w v(2-4) show ?thesis by (auto simp: paint_def text_step_def)
qed

text \<open>C11. The window of the terminal stays as it was drawn: during the whole session of the shell, while it waits for a key and
  after it has returned, the title bar, the status bar and the panel show what \<open>open_window\<close> and \<open>draw_panel\<close> have drawn;
  the shell writes only in the rows 1 to 22 between them.\<close>

theorem konsole_confined:
  assumes "desk_ok s" "busy_ends hw" "ram_exact hw"
  shows "\<exists>w r t. paint_window ''Konsole'' (Some ''FurOS Terminal'') (s\<lparr>g_app := 0\<rparr>) = Some w
    \<and> run_terminal hw s = Some r \<and> (r = Waits t \<or> r = Done () t) \<and> same_frame (u_vga w) (u_vga t)"
proof -
  obtain w where w: "paint_window ''Konsole'' (Some ''FurOS Terminal'') (s\<lparr>g_app := 0\<rparr>) = Some w" "desk_ok w"
    using steps_window [of "s\<lparr>g_app := 0\<rparr>"] assms(1) by (auto simp: steps_def moves_def)
  then have "vga_ok (u_vga w)" by (simp add: desk_ok_def)
  from paint_viewport_frame [OF this] obtain v where v: "paint [Set_viewport CTOP CBOT, Set_color LGR BLK, Clear] w = Some (w\<lparr>u_vga := v\<rparr>)"
      "vga_ok v" "in_viewport v" "v_top v = CTOP" "v_bot v = CBOT" "same_frame (u_vga w) v" by blast
  let ?s = "enter_shell (w\<lparr>u_vga := v\<rparr>)"
  have ok: "shell_ok ?s" using w(2) v(2,3) by (intro enter_shell_ok) (simp_all add: desk_ok_def)
  have sh: "sh_vga (?s\<lparr>shell_uid := SHELL_UID_DEBIAN\<rparr>) = v" by (simp add: enter_shell_def)
  have frame: "same_frame (u_vga w) (sh_vga t)" if "text_step v (sh_vga t)" for t
    using same_frame_trans [OF v(6) text_step_frame [OF that v(3-5)]] .
  have run: "run_terminal hw s = do {
     r \<leftarrow> shell_run hw ?s;
     case r of
       Waiting t \<Rightarrow> Some (Waits (leave_shell (w\<lparr>u_vga := v\<rparr>) t))
     | Got t \<Rightarrow> do { s \<leftarrow> paint [Reset_viewport] (leave_shell (w\<lparr>u_vga := v\<rparr>) t); Some (Done () (s\<lparr>g_app := -1\<rparr>)) } }"
    by (simp add: run_terminal_def w(1) v(1))
  from ends_cases [OF ends_run [OF ok assms(2,3)]] show ?thesis
    using w(1) run frame by (auto simp: waits_def sh_moves_def sh leave_shell_def paint_def vga_reset_viewport_def)
qed

theorem konsole_confined_witness:
  "\<exists>w r t. paint_window ''Konsole'' (Some ''FurOS Terminal'') ((desk_boot (disk_boot () blank_table) vga_init keyboard_init
        (ready (type_string (''clear'' @ [LF]))) (\<lambda>m i. NUL))\<lparr>g_app := 0\<rparr>) = Some w
    \<and> run_terminal bare_hw (desk_boot (disk_boot () blank_table) vga_init keyboard_init
        (ready (type_string (''clear'' @ [LF]))) (\<lambda>m i. NUL)) = Some r
    \<and> (r = Waits t \<or> r = Done () t) \<and> same_frame (u_vga w) (u_vga t)"
  by (rule konsole_confined [OF desk_boot_ok(1) [OF vga_init_ok quiet_NUL] bare_busy_ends bare_ram])

end
