(* ===== verification/KateProps.thy ===== *)
theory KateProps
  imports FsContents KernelProps
begin

text \<open>
  The text editor refines an editor of two strings, the text before and behind the cursor, for every sequence of keys;
  and what is saved is the text that is on the screen.
\<close>

subsection \<open>The abstract editor\<close>

text \<open>To a row and a column of the text.\<close>

definition ed_goto :: "string \<Rightarrow> nat \<times> nat \<Rightarrow> string \<times> string" where
  "ed_goto t = (\<lambda>(row, col). (take (row_start t row + col) t, drop (row_start t row + col) t))"

definition ed_step :: "int \<Rightarrow> string \<times> string \<Rightarrow> string \<times> string" where
  "ed_step key = (\<lambda>(l, r).
     if key \<in> {KEY_UP, KEY_DOWN, KEY_F1, KEY_F3} then ed_goto (l @ r) (ed_move key (l @ r) (rows_in l, col_of l))
     else ed_key key (l, r))"

text \<open>The keys one after the other, as the loop of \<open>run_kate\<close> does.\<close>

fun kate_edits :: "int list \<Rightarrow> kate \<Rightarrow> kate option" where
  "kate_edits [] k = Some k"
| "kate_edits (key # keys) k = do { k \<leftarrow> kate_edit key k; kate_edits keys k }"

subsection \<open>Rows and columns determine the place\<close>

lemma col_of_Cons: "col_of (c # u) = (if c \<noteq> LF \<and> LF \<notin> set u then Suc (length u) else col_of u)"
proof (cases "LF \<in> set u")
  case True
  then have "takeWhile (\<lambda>x. x \<noteq> LF) (rev u @ [c]) = takeWhile (\<lambda>x. x \<noteq> LF) (rev u)" by (intro takeWhile_append1) auto
  with True show ?thesis by (simp add: col_of_def)
next
  case False
  have e1: "takeWhile (\<lambda>x. x \<noteq> LF) (rev u @ [c]) = rev u @ takeWhile (\<lambda>x. x \<noteq> LF) [c]" for c
    by (rule takeWhile_append2) (use False in auto)
  have e2: "takeWhile (\<lambda>x. x \<noteq> LF) (rev u) = rev u" unfolding takeWhile_eq_all_conv using False by auto
  from False show ?thesis by (cases "c = LF") (simp_all add: col_of_def e1 e2)
qed

lemma rows_in_none: "rows_in u = 0 \<longleftrightarrow> LF \<notin> set u"
  by (auto simp: rows_in_def filter_empty_conv)

lemma place_of: "p \<le> length t \<Longrightarrow> row_start t (rows_in (take p t)) + col_of (take p t) = p"
proof (induction t arbitrary: p)
  case (Cons c t)
  show ?case
  proof (cases p)
    case (Suc q)
    then have ih: "row_start t (rows_in (take q t)) + col_of (take q t) = q" using Cons by simp
    show ?thesis
    proof (cases "c = LF")
      case True
      with Suc ih show ?thesis by (simp add: col_of_Cons)
    next
      case False
      show ?thesis
      proof (cases "rows_in (take q t)")
        case 0
        then show ?thesis using False Suc Cons.prems by (simp add: col_of_Cons rows_in_none rows_in_zero min_absorb2)
      next
        case (Suc r)
        then have "LF \<in> set (take q t)" using rows_in_none [of "take q t"] by simp
        with False Suc \<open>p = Suc q\<close> ih show ?thesis by (simp add: col_of_Cons)
      qed
    qed
  qed simp
qed simp

lemma kate_zip_eq: "kate_ok k \<Longrightarrow> kate_zip k = (take (k_pos k) (kate_text k), drop (k_pos k) (kate_text k))"
  by (simp add: kate_zip_def kate_before_def kate_text_def kate_ok_def min_absorb1)

lemma kate_moved_zip:
  assumes "kate_ok k" "kate_moved key k k'" "key \<in> {KEY_UP, KEY_DOWN, KEY_F1, KEY_F3}"
  shows "kate_zip k' = ed_step key (kate_zip k)"
proof -
  let ?t = "kate_text k" and ?p = "k_pos k'"
  have k': "kate_ok k'" "kate_text k' = ?t" "kate_at k' = ed_move key ?t (kate_at k)" using assms(2) by (simp_all add: kate_moved_def)
  have b: "kate_before k' = take ?p ?t" using kate_zip_eq [OF k'(1)] k'(2) by (simp add: kate_zip_def)
  have "?p \<le> length ?t" using kate_bounds(3) [OF k'(1)] k' by (simp add: kate_ok_def)
  from place_of [OF this] have "ed_goto ?t (kate_at k') = (take ?p ?t, drop ?p ?t)"
    by (simp add: kate_at_def b ed_goto_def)
  moreover have "kate_zip k = (kate_before k, drop (k_pos k) ?t)" by (simp add: kate_zip_def)
  moreover from kate_zip_text [OF assms(1) this] have "kate_before k @ drop (k_pos k) ?t = ?t" by simp
  ultimately show ?thesis
    using assms(3) k' kate_zip_eq [OF k'(1)] by (auto simp: ed_step_def kate_at_def)
qed

lemma kate_edit_step:
  assumes "kate_ok k"
  shows "gives (\<lambda>k'. kate_ok k' \<and> kate_zip k' = ed_step key (kate_zip k)) (kate_edit key k)"
proof (cases "key \<in> {KEY_UP, KEY_DOWN, KEY_F1, KEY_F3}")
  case True
  from kate_move [OF assms True] show ?thesis
    by (rule gives_mono) (auto simp: kate_moved_def intro: kate_moved_zip [OF assms _ True])
next
  case False
  then have "ed_step key z = ed_key key z" for z by (simp add: ed_step_def split: prod.split)
  with kate_edit_zip [OF assms False] show ?thesis by simp
qed

lemma kate_edits_steps:
  "kate_ok k \<Longrightarrow> gives (\<lambda>k'. kate_ok k' \<and> kate_zip k' = fold ed_step keys (kate_zip k)) (kate_edits keys k)"
proof (induction keys arbitrary: k)
  case (Cons key keys)
  show ?case
    unfolding kate_edits.simps
    by (rule gives_bind [OF kate_edit_step [OF Cons.prems]], elim conjE, rule gives_mono [OF Cons.IH]) simp_all
qed simp

text \<open>C5. The text editor refines the editor of two strings: from any good state and for any sequence of keys the code returns,
  its buffer, length and cursor again represent a text and a place in it, and they are the ones that the abstract editor has
  after these keys: characters and line feeds are inserted before the cursor until 4095 are there, backspace deletes the one
  before it and F4 the one behind it, left and right go to the next place, up and down to the same column of the next line or to
  its end if it is shorter, F1 and F3 to the start and the end of the line.\<close>

theorem kate_refines:
  assumes "kate_ok k"
  shows "\<exists>k'. kate_edits keys k = Some k' \<and> kate_ok k' \<and> kate_zip k' = fold ed_step keys (kate_zip k)
    \<and> kate_text k' = fst (kate_zip k') @ snd (kate_zip k')"
proof -
  obtain k' where k': "kate_edits keys k = Some k'" "kate_ok k'" "kate_zip k' = fold ed_step keys (kate_zip k)"
    using kate_edits_steps [OF assms, of keys] by (auto simp: gives_def)
  have "kate_text k' = fst (kate_zip k') @ snd (kate_zip k')" by (simp add: kate_zip_eq [OF k'(2)])
  with k' show ?thesis by blast
qed

definition blank_kate :: kate where
  "blank_kate = \<lparr>k_buf = replicate 4096 NUL, k_len = 0, k_pos = 0, k_vscroll = 0, k_mod = False,
     k_fname = ''notes.txt'' @ replicate 39 NUL, k_node = -1, k_cwd = 0\<rparr>"

lemma blank_kate_ok: "kate_ok blank_kate"
  by (simp add: kate_ok_def blank_kate_def text_in_def)

theorem kate_refines_witness:
  "\<exists>k. kate_edits [104, 105, 10, 97, KEY_UP, 33] blank_kate = Some k \<and> kate_text k = ''h!i'' @ LF # ''a''"
proof -
  have z: "kate_zip blank_kate = ([], [])" unfolding kate_zip_eq [OF blank_kate_ok] by (simp add: kate_text_def blank_kate_def)
  have "fold ed_step [104, 105, 10, 97, KEY_UP, 33] ([], []) = (''h!'', ''i'' @ LF # ''a'')"
    by code_simp
  with kate_refines [OF blank_kate_ok, of "[104, 105, 10, 97, KEY_UP, 33]"] show ?thesis unfolding z by auto
qed

subsection \<open>Saving\<close>

lemma ui_fs_nodes: "ui_fs f s = Some (r, t) \<Longrightarrow> \<exists>ns. f (ui_nodes s) = Some (r, ns) \<and> t = s\<lparr>u_disk := (u_disk s)\<lparr>d_nodes := ns\<rparr>\<rparr>"
  by (auto simp: ui_fs_def bind_eq_Some_conv)

lemma kate_save_steps:
  assumes "desk_ok s" "fs_reachable (ui_nodes s)" "kate_save hw s = Some (0, t)"
  obtains ns where "fs_reachable ns" "dir_node ns 0"
    "fs_write_file ns 0 (Some (cstr (k_fname (dk_kate s)))) (Some (k_buf (dk_kate s))) (k_len (dk_kate s)) = Some (0, ui_nodes t)"
    "dk_kate t = (dk_kate s)\<lparr>k_mod := False\<rparr>"
proof -
  let ?k = "dk_kate s" and ?name = "cstr (k_fname (dk_kate s))"
  have k: "k_cwd ?k = 0" "NUL \<in> set (k_fname ?k)" using desk_kate [OF assms(1)] by (simp_all add: kate_ok_def text_in_def)
  have root: "dir_node ns 0" if "fs_reachable ns" for ns using fs_wf_root [OF fs_reachable_inv [OF that]] .
  let ?with = "\<lambda>ns. s\<lparr>u_disk := (u_disk s)\<lparr>d_nodes := ns\<rparr>\<rparr>"
  obtain ns1 where 1: "fs_reachable ns1" "kate_save hw s = do {
       (r, s) \<leftarrow> ui_fs (\<lambda>ns. fs_write_file ns 0 (Some ?name) (Some (k_buf ?k)) (k_len ?k)) (?with ns1);
       if r = 0 then do {
         let s = s\<lparr>dk_kate := (dk_kate s)\<lparr>k_mod := False\<rparr>\<rparr>;
         (_, s) \<leftarrow> (if disk_available (u_disk s) then ui_dsk (disk_save_fs hw) s else Some (0, s));
         Some (0, s) }
       else Some (-1, s) }"
  proof (cases "k_node ?k < 0")
    case True
    obtain r ns where t: "fs_touch (ui_nodes s) 0 (Some ?name) = Some (r, ns)"
      using fs_touch_as_eq [OF fs_reachable_inv [OF assms(2)] root [OF assms(2)], of ?name 0 FS_DEFAULT_FILE_MODE]
      by (cases "create_spec False (ui_nodes s) 0 ?name 0 FS_DEFAULT_FILE_MODE") (simp add: fs_touch_def)
    have "fs_reachable ns"
      using fs_reachable.call [OF assms(2), of "Touch_as 0 ?name 0 FS_DEFAULT_FILE_MODE" r ns] t root [OF assms(2)] by (simp add: fs_touch_def)
    moreover have "\<not> r < 0" using assms(3) True t k by (auto simp: kate_save_def ui_fs_def c_string_def)
    ultimately show thesis using that [of ns] True t k by (simp add: kate_save_def ui_fs_def c_string_def)
  next
    case False
    then show thesis using that [OF assms(2)] k by (simp add: kate_save_def c_string_def)
  qed
  obtain r ns2 where 2: "fs_write_file ns1 0 (Some ?name) (Some (k_buf ?k)) (k_len ?k) = Some (r, ns2)"
    using 1(2) assms(3) by (cases "fs_write_file ns1 0 (Some ?name) (Some (k_buf ?k)) (k_len ?k)") (auto simp: ui_fs_def)
  then have r: "r = 0" using 1(2) assms(3) by (cases "r = 0") (simp_all add: ui_fs_def)
  have buf: "buffer_ok (Some (k_buf ?k)) (k_len ?k)" using kate_bounds(1) [OF desk_kate [OF assms(1)]] by (simp add: buffer_ok_def)
  have "fs_reachable ns2"
    using fs_reachable.call [OF 1(1), of "Write_file 0 ?name (Some (k_buf ?k)) (k_len ?k)"] 2 root [OF 1(1)] buf by simp
  then have "disk_ok ((u_disk s)\<lparr>d_nodes := ns2\<rparr>)"
    using assms(1) fs_reachable_inv [of ns2] by (auto simp: desk_ok_def disk_ok_def disk_sized_def)
  from disk_save_safe [OF this, of hw] obtain q d where "disk_save_fs hw ((u_disk s)\<lparr>d_nodes := ns2\<rparr>) = Some (q, d)" "d_nodes d = ns2" by auto
  then have "ui_nodes t = ns2" "dk_kate t = ?k\<lparr>k_mod := False\<rparr>"
    using assms(3) unfolding 1(2) by (auto simp: ui_fs_def 2 r Let_def ui_dsk_def split: if_splits)
  with that [OF 1(1) root [OF 1(1)]] 2 r show thesis by simp
qed

text \<open>C16. Saving in the text editor: when F2 reports success, the file of that name in the root directory holds exactly the text of the
  editor, the text in the editor is unchanged and no longer marked as modified.\<close>

theorem kate_save_writes:
  assumes "desk_ok s" "fs_reachable (ui_nodes s)" "kate_save hw s = Some (0, t)"
  shows "(\<exists>d. fs_read_file (ui_nodes t) 0 (Some (cstr (k_fname (dk_kate s)))) = Some (Some (d, length (kate_text (dk_kate s))))
      \<and> take (length (kate_text (dk_kate s))) d = kate_text (dk_kate s))
    \<and> kate_text (dk_kate t) = kate_text (dk_kate s) \<and> \<not> k_mod (dk_kate t)"
proof -
  let ?k = "dk_kate s"
  obtain ns where 1: "fs_reachable ns" "dir_node ns 0"
    "fs_write_file ns 0 (Some (cstr (k_fname ?k))) (Some (k_buf ?k)) (k_len ?k) = Some (0, ui_nodes t)" "dk_kate t = ?k\<lparr>k_mod := False\<rparr>"
    using kate_save_steps [OF assms] by blast
  have k: "k_len ?k < 4096" "length (kate_text ?k) = k_len ?k" using desk_kate [OF assms(1)] kate_bounds(3) by (auto simp: kate_ok_def)
  have buf: "buffer_ok (Some (k_buf ?k)) (k_len ?k)" using kate_bounds(1) [OF desk_kate [OF assms(1)]] by (simp add: buffer_ok_def)
  have "min (k_len ?k) 4095 = k_len ?k" using k(1) by simp
  with write_read [OF 1(1,2) nul_free_cstr buf, of "k_fname ?k"] 1(3,4) k(2) show ?thesis
    by (auto simp: kate_text_def)
qed

definition kate_desk :: "unit desk" where
  "kate_desk = (desk_boot (disk_boot () init_table) vga_init keyboard_init [] (\<lambda>m i. NUL))\<lparr>dk_kate := blank_kate\<lparr>
     k_buf := ''hi'' @ replicate 4094 NUL, k_len := 2, k_pos := 2, k_mod := True\<rparr>\<rparr>"

lemma kate_desk_ok: "desk_ok kate_desk"
proof -
  have "desk_ok (desk_boot (disk_boot () init_table) vga_init keyboard_init [] (\<lambda>m i. NUL))"
    by (rule boot_ok(1) [OF vga_init_ok quiet_NUL fs_wf_mem [OF init_table_wf] own_parent_init])
  then show ?thesis by (simp add: desk_ok_def kate_desk_def kate_ok_def blank_kate_def text_in_def)
qed

lemma kate_desk_saved: "\<exists>t. kate_save bare_hw kate_desk = Some (0, t)"
proof -
  let ?k = "dk_kate kate_desk" and ?name = "''notes.txt''" and ?root = "Dir 0 ''/'' 0 FS_DEFAULT_DIR_MODE"
  have n: "ui_nodes kate_desk = init_table" "\<not> disk_available (u_disk kate_desk)"
    by (simp_all add: kate_desk_def desk_boot_def disk_boot_def disk_available_def)
  have k: "k_cwd ?k = 0" "k_node ?k < 0" "k_buf ?k = ''hi'' @ replicate 4094 NUL" "k_len ?k = 2" "c_string (k_fname ?k) = Some ?name"
    by (simp_all add: kate_desk_def blank_kate_def c_string_def cstr_def)
  have v: "valid_name ?name" by (simp add: valid_name_def)
  have root: "dir_node ns 0" if "lays ns (?root # es)" for ns es by (rule lays_dir [OF that]) simp_all
  obtain ns1 where 1: "fs_touch init_table 0 (Some ?name) = Some (0, ns1)" "lays ns1 [?root, File 0 ?name []]"
    using lays_touch [OF lays_init root [OF lays_init] _ parent_leaf_plain [OF v]] by auto
  obtain ns2 where 2: "fs_write_file ns1 0 (Some ?name) (Some (k_buf ?k)) 2 = Some (0, ns2)"
    using lays_rewrite [OF 1(2), of 1 0 ?name "[]" ?name 0 "''hi''" "k_buf ?k"] root [OF 1(2)] parent_leaf_plain [OF v] k(3)
    by (auto simp: numeral_2_eq_2)
  show ?thesis
    using 1(1) 2 n k by (simp add: kate_save_def ui_fs_def Let_def disk_available_def)
qed

theorem kate_save_writes_witness:
  "\<exists>t d. kate_save bare_hw kate_desk = Some (0, t) \<and> fs_read_file (ui_nodes t) 0 (Some ''notes.txt'') = Some (Some (d, 2)) \<and> take 2 d = ''hi''"
proof -
  obtain t where t: "kate_save bare_hw kate_desk = Some (0, t)" using kate_desk_saved by blast
  have "ui_nodes kate_desk = init_table" by (simp add: kate_desk_def desk_boot_def disk_boot_def)
  then have "fs_reachable (ui_nodes kate_desk)" using laysD(1) [OF lays_init] by simp
  moreover have "kate_text (dk_kate kate_desk) = ''hi''" "cstr (k_fname (dk_kate kate_desk)) = ''notes.txt''"
    by (simp_all add: kate_desk_def kate_text_def blank_kate_def cstr_def)
  ultimately show ?thesis using kate_save_writes [OF kate_desk_ok _ t] t by (auto simp: numeral_2_eq_2)
qed

end
