(* ===== verification/SettingsProps.thy ===== *)
theory SettingsProps
  imports InstallerProps KernelProps
begin

text \<open>
  The host name and the time zone on their way through the system: what the installer has written into \<open>/etc\<close> the system
  settings of the desktop show, and what is changed there is found again.
\<close>

subsection \<open>Reading a value\<close>

text \<open>The value ends at the first end of line.\<close>

definition one_line :: "string \<Rightarrow> bool" where
  "one_line x \<longleftrightarrow> nul_free x \<and> LF \<notin> set x \<and> CHR 0x0D \<notin> set x"

lemma cut_line_eq:
  assumes "one_line x" "c \<in> {NUL, LF}" "k \<le> length x" "length x < n"
  shows "cut_line (x @ c # r) [k..<n] = Some (x @ NUL # r)"
  using assms(3)
proof (induction "length x - k" arbitrary: k)
  case 0
  then have "[k..<n] = k # [Suc k..<n]" "(x @ c # r) ! k = c" "k = length x" using assms(4) by (auto simp: upt_conv_Cons nth_append)
  then show ?case using assms(2) by (auto simp: rd_def wr_def list_update_append)
next
  case (Suc m)
  then have k: "k < length x" by simp
  then have u: "[k..<n] = k # [Suc k..<n]" using assms(4) by (simp add: upt_conv_Cons)
  have "(x @ c # r) ! k \<in> set x" using k by (simp add: nth_append)
  then have "(x @ c # r) ! k \<notin> {NUL, LF, CHR 0x0D}" using assms(1) by (auto simp: one_line_def nul_free_def)
  moreover have "cut_line (x @ c # r) [Suc k..<n] = Some (x @ NUL # r)" using Suc k by (intro Suc(1)) simp_all
  ultimately show ?case using k unfolding u by (simp add: rd_def)
qed

lemma value_eq:
  assumes "one_line x" "length x \<le> 31" "t = x \<or> t = x @ [LF]" "take (length t) d = t" "d ! length t = NUL" "length t < length d" "length buf = 32"
  shows "gives (\<lambda>b. text_in 32 b \<and> cstr b = x) (do { b \<leftarrow> kstrncpy buf d 31; b \<leftarrow> wr b 31 NUL; cut_line b [0..<length b] })"
proof -
  have t: "nul_free t" using assms(1,3) by (auto simp: one_line_def)
  have "d = t @ NUL # drop (Suc (length t)) d" using id_take_nth_drop [OF assms(6)] assms(4,5) by simp
  then have "kstrncpy buf d 31 = Some (take 31 t @ replicate (31 - length t) NUL @ drop 31 buf)"
    using kstrncpy_eq [OF t, of 31 buf "drop (Suc (length t)) d"] assms(7) by simp
  moreover have "length (drop 31 buf) = Suc 0" using assms(7) by simp
  then obtain z where "drop 31 buf = [z]" by (metis length_0_conv length_Suc_conv)
  ultimately have k: "kstrncpy buf d 31 = Some (take 31 t @ replicate (31 - length t) NUL @ [z])" by simp
  obtain c r where c: "(take 31 t @ replicate (31 - length t) NUL @ [z])[31 := NUL] = x @ c # r" "c \<in> {NUL, LF}" "length x + length r = 31"
  proof (cases "length x = 31")
    case True
    then show thesis using that [of NUL "[]"] assms(3) by (auto simp: list_update_append)
  next
    case False
    with assms(2,3) have l: "length t \<le> 31" "length x \<le> 30" by auto
    then have b: "(take 31 t @ replicate (31 - length t) NUL @ [z])[31 := NUL] = t @ replicate (31 - length t) NUL @ [NUL]"
      by (simp add: list_update_append)
    show thesis
    proof (cases "t = x")
      case True
      moreover have "replicate (31 - length x) NUL = NUL # replicate (30 - length x) NUL" using l(2) by (cases "31 - length x") auto
      ultimately show thesis using that [of NUL "replicate (30 - length x) NUL @ [NUL]"] b l by simp
    next
      case False
      then show thesis using that [of LF "replicate (30 - length x) NUL @ [NUL]"] assms(3) b l by simp
    qed
  qed
  have "cut_line (x @ c # r) [0..<32] = Some (x @ NUL # r)" by (rule cut_line_eq [OF assms(1) c(2)]) (use assms(2) in simp_all)
  then show ?thesis
    using k c assms(1,2,7) by (simp add: wr_def text_in_def one_line_def)
qed

text \<open>A value of a file in the directory \<open>c\<close>.\<close>

lemma load_value_eq:
  assumes "lays ns es" "c < length es" "es ! c = Dir 0 x o1 m1" "i < length es" "es ! i = File c name t" "plain_name name"
    "one_line v" "length v \<le> 31" "t = v \<or> t = v @ [LF]" "t \<noteq> []" "text_in 32 buf"
  shows "gives (\<lambda>b. text_in 32 b \<and> cstr b = v) (load_value ns (int c) name buf)"
proof -
  have p: "valid_name name" "nul_free name" "name \<noteq> ''.''" "name \<noteq> ''..''" using assms(6) by (simp_all add: plain_name_def)
  obtain d where d: "fs_read_file ns (int c) (Some name) = Some (Some (d, length t))" "take (length t) d = t" "length d = 4096" "d ! length t = NUL"
    using lays_read [OF assms(1,4,5) p(3,4,2) _ parent_leaf_plain [OF p(1)]] lays_dir [OF assms(1-3)] by blast
  have "length t < length d" using assms(8,9) d(3) by auto
  with value_eq [OF assms(7-9) d(2,4) this, of buf] d(1) assms(10,11) show ?thesis by (simp add: load_value_def text_in_def)
qed

text \<open>The two settings that have a file.\<close>

lemma set_load_eq:
  assumes "lays ns es" "0 < length es" "es ! 0 = Dir 0 y o2 m2" "c < length es" "es ! c = Dir 0 ''etc'' o1 m1"
    "i < length es" "es ! i = File c ''hostname'' t1" "j < length es" "es ! j = File c ''timezone'' t2"
    "one_line h" "length h \<le> 31" "t1 = h \<or> t1 = h @ [LF]" "t1 \<noteq> []" "one_line z" "length z \<le> 31" "t2 = z \<or> t2 = z @ [LF]" "t2 \<noteq> []"
    "settings_ok p"
  shows "gives (\<lambda>p'. settings_ok p' \<and> cstr (set_hostname p') = h \<and> cstr (set_timezone p') = z \<and> cstr (set_username p') = ''user'') (set_load ns p)"
proof -
  have etc: "gives (\<lambda>e. e = int c) (fs_resolve ns fs_get_root (Some ''etc''))"
    using resolve_name [OF assms(1-4), of "''etc''"] assms(5) by (simp add: fs_get_root_def plain_name_def valid_name_def)
  have copy: "gives (\<lambda>b. text_in 32 b \<and> cstr b = t) (kstrcpy b (c_str t))" if "text_in 32 b" "nul_free t" "length t < 32" for b t
    using that by (simp add: kstrcpy_c_str text_in_def)
  have n: "plain_name ''hostname''" "plain_name ''timezone''" by (simp_all add: plain_name_def valid_name_def)
  show ?thesis
    unfolding set_load_def
    by (rule gives_bind [OF etc], rule gives_bind [OF copy], use assms(18) in \<open>simp add: settings_ok_def\<close>, simp, simp,
        rule gives_bind [OF copy], use assms(18) in \<open>simp add: settings_ok_def\<close>, simp, simp,
        rule gives_bind [OF copy], use assms(18) in \<open>simp add: settings_ok_def\<close>, simp, simp,
        simp only: if_True of_nat_0_le_iff, rule gives_bind [OF load_value_eq [OF assms(1,4-7) n(1) assms(10-13)]], erule conjunct1,
        rule gives_bind [OF load_value_eq [OF assms(1,4,5,8,9) n(2) assms(14-17)]], erule conjunct1)
      (use assms(18) in \<open>simp add: settings_ok_def\<close>)
qed

text \<open>C17. What was asked for at the installation is what the system settings of the desktop show: loading them from an installed
  tree gives the host name and the time zone, if they are one line of text. The name of the user is not: the page
  always shows \<open>user\<close>.\<close>

theorem settings_after_install:
  assumes "lays ns (installed w)" "wiz_ok w" "one_line (cstr (w_hostname w))" "one_line (cstr (w_timezone w))" "settings_ok p"
  shows "\<exists>p'. set_load ns p = Some p' \<and> settings_ok p' \<and> cstr (set_hostname p') = cstr (w_hostname w)
    \<and> cstr (set_timezone p') = cstr (w_timezone w) \<and> cstr (set_username p') = ''user''"
proof -
  have l: "length (cstr (w_hostname w)) \<le> 31" "length (cstr (w_timezone w)) \<le> 31"
    using assms(2) length_cstr_less [of "w_hostname w"] length_cstr_less [of "w_timezone w"] by (simp_all add: wiz_ok_def text_in_def)
  have "gives (\<lambda>p'. settings_ok p' \<and> cstr (set_hostname p') = cstr (w_hostname w) \<and> cstr (set_timezone p') = cstr (w_timezone w)
      \<and> cstr (set_username p') = ''user'') (set_load ns p)"
    by (rule set_load_eq [OF assms(1), where c = 2 and i = 9 and j = 10
          and ?t1.0 = "cstr (w_hostname w) @ [LF]" and ?t2.0 = "cstr (w_timezone w) @ [LF]"])
      (use assms(3-5) l in \<open>simp_all add: installed_def installed_dirs_def installed_files_def system_dirs_def\<close>)
  then show ?thesis by (simp add: gives_def)
qed

lemma installed_sample: "\<exists>ns. lays ns (installed sample_wiz)"
proof -
  have n: "ui_nodes sample_ui = init_table" by (simp add: sample_ui_def)
  from directories_built [OF sample_ui_ok sample_wiz_ok n] obtain t :: "drive ui" where
    "wizard_ok t" "holding (installed_dirs (cstr (w_username sample_wiz))) t" by (auto simp: gives_def)
  from files_built [OF this(1) sample_wiz_ok this(2)] show ?thesis by (auto simp: gives_def)
qed

definition sample_settings :: settings where
  "sample_settings = \<lparr>set_page = 0, set_field = 0, set_editing = False, set_input = replicate 64 NUL, set_ilen = 0,
     set_hostname = replicate 32 NUL, set_timezone = replicate 32 NUL, set_username = replicate 32 NUL, set_changed = False\<rparr>"

lemma sample_settings_ok: "settings_ok sample_settings"
  by (simp add: settings_ok_def sample_settings_def text_in_def)

theorem settings_after_install_witness:
  "\<exists>ns p. lays ns (installed sample_wiz) \<and> set_load ns sample_settings = Some p
     \<and> cstr (set_hostname p) = ''furos'' \<and> cstr (set_timezone p) = ''UTC''"
proof -
  obtain ns where ns: "lays ns (installed sample_wiz)" using installed_sample by blast
  have "one_line (cstr (w_hostname sample_wiz))" "one_line (cstr (w_timezone sample_wiz))"
    by (simp_all add: sample_wiz_texts one_line_def)
  from settings_after_install [OF ns sample_wiz_ok(1) this sample_settings_ok] ns show ?thesis by (auto simp: sample_wiz_texts)
qed

subsection \<open>Saving\<close>

lemma write_value_eq:
  assumes "lays (ui_nodes s) es" "c < length es" "es ! c = Dir 0 x o1 m1" "i < length es" "es ! i = File c name t" "plain_name name" "text_in 32 b"
  shows "gives (\<lambda>u. \<exists>ns. u = s\<lparr>u_disk := (u_disk s)\<lparr>d_nodes := ns\<rparr>\<rparr> \<and> lays ns (es[i := File c name (cstr b)])) (write_value (int c) name b s)"
proof -
  have p: "valid_name name" "nul_free name" "name \<noteq> ''.''" "name \<noteq> ''..''" using assms(6) by (simp_all add: plain_name_def)
  have b: "NUL \<in> set b" "length b = 32" using assms(7) by (simp_all add: text_in_def)
  have "take (length (cstr b)) b = cstr b" using cstr_split [OF b(1)] by (metis append_eq_conv_conj)
  moreover have "length (cstr b) \<le> 4095" using length_cstr_less [OF b(1)] b(2) by simp
  ultimately show ?thesis
    using lays_rewrite [OF assms(1,4,5) p(3,4,2) lays_dir [OF assms(1-3)] parent_leaf_plain [OF p(1)], of "cstr b" b] b(1)
    by (auto simp: write_value_def c_string_def ui_write_def ui_fs_def)
qed

lemma set_save_eq:
  assumes "desk_ok s" "lays (ui_nodes s) es" "0 < length es" "es ! 0 = Dir 0 x o1 m1" "c < length es" "es ! c = Dir 0 ''etc'' o2 m2"
    "i < length es" "es ! i = File c ''hostname'' t1" "j < length es" "es ! j = File c ''timezone'' t2"
  shows "gives (\<lambda>t. dk_set t = (dk_set s)\<lparr>set_changed := False\<rparr>
    \<and> lays (ui_nodes t) (es[i := File c ''hostname'' (cstr (set_hostname (dk_set s))), j := File c ''timezone'' (cstr (set_timezone (dk_set s)))]))
    (set_save hw s)"
proof -
  have p: "text_in 32 (set_hostname (dk_set s))" "text_in 32 (set_timezone (dk_set s))"
    using desk_set [OF assms(1)] by (simp_all add: settings_ok_def)
  have ij: "i \<noteq> j" "i \<noteq> c" "j \<noteq> c" using assms(6,8,10) by auto
  have n: "plain_name ''etc''" "plain_name ''hostname''" "plain_name ''timezone''" by (simp_all add: plain_name_def valid_name_def)
  let ?e1 = "es[i := File c ''hostname'' (cstr (set_hostname (dk_set s)))]"
  obtain ns1 where 1: "write_value (int c) ''hostname'' (set_hostname (dk_set s)) s = Some (s\<lparr>u_disk := (u_disk s)\<lparr>d_nodes := ns1\<rparr>\<rparr>)" "lays ns1 ?e1"
    using write_value_eq [OF assms(2,5,6,7,8) n(2) p(1)] by (auto simp: gives_def)
  let ?s1 = "s\<lparr>u_disk := (u_disk s)\<lparr>d_nodes := ns1\<rparr>\<rparr>"
  have "lays (ui_nodes ?s1) ?e1" "c < length ?e1" "?e1 ! c = Dir 0 ''etc'' o2 m2" "j < length ?e1" "?e1 ! j = File c ''timezone'' t2"
    using 1(2) ij assms(5,6,9,10) by simp_all
  from write_value_eq [OF this n(3) p(2)] obtain ns2 where
    2: "write_value (int c) ''timezone'' (set_timezone (dk_set s)) ?s1 = Some (s\<lparr>u_disk := (u_disk s)\<lparr>d_nodes := ns2\<rparr>\<rparr>)"
      "lays ns2 (?e1[j := File c ''timezone'' (cstr (set_timezone (dk_set s)))])" by (auto simp: gives_def)
  have "disk_ok ((u_disk s)\<lparr>d_nodes := ns2\<rparr>)"
    using assms(1) laysD(2) [OF 2(2)] by (auto simp: desk_ok_def disk_ok_def disk_sized_def)
  from disk_save_safe [OF this, of hw] obtain r d where
    "disk_save_fs hw ((u_disk s)\<lparr>d_nodes := ns2\<rparr>) = Some (r, d)" "d_nodes d = ns2" by auto
  moreover have "fs_resolve (ui_nodes s) fs_get_root (Some ''etc'') = Some (int c)"
    using resolve_name [OF assms(2-5) _ n(1)] assms(6) by (simp add: fs_get_root_def)
  ultimately show ?thesis
    using 1(1) 2 by (simp add: set_save_def ui_dsk_def)
qed

text \<open>C15. F2 in the system settings: with both files there, as after an installation, saving replaces the text of the two files
  and leaves every other entry of the table as it is; and loading the settings from the table gives the host name and the
  time zone that were saved, if they are one line and not empty.\<close>

theorem settings_save_then_load:
  assumes "desk_ok s" "lays (ui_nodes s) es" "0 < length es" "es ! 0 = Dir 0 x o1 m1" "c < length es" "es ! c = Dir 0 ''etc'' o2 m2"
    "i < length es" "es ! i = File c ''hostname'' t1" "j < length es" "es ! j = File c ''timezone'' t2"
    "one_line (cstr (set_hostname (dk_set s)))" "cstr (set_hostname (dk_set s)) \<noteq> []"
    "one_line (cstr (set_timezone (dk_set s)))" "cstr (set_timezone (dk_set s)) \<noteq> []" "settings_ok p"
  shows "\<exists>t p'. set_save hw s = Some t \<and> \<not> set_changed (dk_set t)
    \<and> lays (ui_nodes t) (es[i := File c ''hostname'' (cstr (set_hostname (dk_set s))), j := File c ''timezone'' (cstr (set_timezone (dk_set s)))])
    \<and> set_load (ui_nodes t) p = Some p' \<and> cstr (set_hostname p') = cstr (set_hostname (dk_set s))
    \<and> cstr (set_timezone p') = cstr (set_timezone (dk_set s))"
proof -
  let ?h = "cstr (set_hostname (dk_set s))" and ?z = "cstr (set_timezone (dk_set s))"
  obtain t where t: "set_save hw s = Some t" "dk_set t = (dk_set s)\<lparr>set_changed := False\<rparr>"
      "lays (ui_nodes t) (es[i := File c ''hostname'' ?h, j := File c ''timezone'' ?z])"
    using set_save_eq [OF assms(1-10), of hw] by (auto simp: gives_def)
  have ij: "i \<noteq> j" "i \<noteq> c" "j \<noteq> c" "0 \<noteq> i" "0 \<noteq> j" using assms(4,6,8,10) by (auto intro: ccontr)
  have l: "length ?h \<le> 31" "length ?z \<le> 31"
    using desk_set [OF assms(1)] length_cstr_less [of "set_hostname (dk_set s)"] length_cstr_less [of "set_timezone (dk_set s)"]
    by (simp_all add: settings_ok_def text_in_def)
  have "gives (\<lambda>p'. settings_ok p' \<and> cstr (set_hostname p') = ?h \<and> cstr (set_timezone p') = ?z \<and> cstr (set_username p') = ''user'')
    (set_load (ui_nodes t) p)"
    by (rule set_load_eq [OF t(3), where c = c and i = i and j = j and ?t1.0 = ?h and ?t2.0 = ?z])
      (use assms ij l in simp_all)
  with t show ?thesis by (auto simp: gives_def)
qed

definition edited_desk :: "fs \<Rightarrow> unit desk" where
  "edited_desk ns = (desk_boot (disk_boot () ns) vga_init keyboard_init [] (\<lambda>m i. NUL))\<lparr>dk_set := sample_settings\<lparr>
     set_hostname := ''box'' @ replicate 29 NUL, set_timezone := ''CET'' @ replicate 29 NUL, set_changed := True\<rparr>\<rparr>"

theorem settings_save_then_load_witness:
  "\<exists>ns t p. lays ns (installed sample_wiz) \<and> set_save bare_hw (edited_desk ns) = Some t
     \<and> set_load (ui_nodes t) sample_settings = Some p \<and> cstr (set_hostname p) = ''box'' \<and> cstr (set_timezone p) = ''CET''"
proof -
  obtain ns where ns: "lays ns (installed sample_wiz)" using installed_sample by blast
  have wf: "fs_wf ns" using laysD(2) [OF ns] .
  have "settings_ok (dk_set (edited_desk ns))" by (simp add: edited_desk_def settings_ok_def sample_settings_def text_in_def)
  moreover have "fs_mem ns" "own_parent ns" using wf fs_wf_root_parent [OF wf] by (auto simp: own_parent_def)
  from boot_ok(1) [OF vga_init_ok quiet_NUL this, of "()" keyboard_init "[]"]
  have "desk_ok (desk_boot (disk_boot () ns) vga_init keyboard_init [] (\<lambda>m i. NUL))" .
  ultimately have ok: "desk_ok (edited_desk ns)" by (simp add: edited_desk_def desk_ok_set)
  have n: "ui_nodes (edited_desk ns) = ns" by (simp add: edited_desk_def desk_boot_def disk_boot_def)
  have h: "cstr (set_hostname (dk_set (edited_desk ns))) = ''box''" "cstr (set_timezone (dk_set (edited_desk ns))) = ''CET''"
    by (simp_all add: edited_desk_def cstr_def numeral_eq_Suc)
  let ?es = "installed sample_wiz"
  have e: "0 < length ?es" "?es ! 0 = Dir 0 ''/'' 0 FS_DEFAULT_DIR_MODE" "2 < length ?es" "?es ! 2 = Dir 0 ''etc'' 0 FS_DEFAULT_DIR_MODE"
    "9 < length ?es" "?es ! 9 = File 2 ''hostname'' (''furos'' @ [LF])" "10 < length ?es" "?es ! 10 = File 2 ''timezone'' (''UTC'' @ [LF])"
    by (simp_all add: installed_def installed_dirs_def installed_files_def system_dirs_def sample_wiz_texts)
  have v: "one_line (cstr (set_hostname (dk_set (edited_desk ns))))" "cstr (set_hostname (dk_set (edited_desk ns))) \<noteq> []"
    "one_line (cstr (set_timezone (dk_set (edited_desk ns))))" "cstr (set_timezone (dk_set (edited_desk ns))) \<noteq> []"
    unfolding h by (simp_all add: one_line_def)
  from settings_save_then_load [OF ok _ e v sample_settings_ok, of bare_hw, unfolded n h] ns
  have "\<exists>t p'. set_save bare_hw (edited_desk ns) = Some t \<and> set_load (ui_nodes t) sample_settings = Some p'
      \<and> cstr (set_hostname p') = ''box'' \<and> cstr (set_timezone p') = ''CET''" by metis
  with ns show ?thesis by blast
qed

subsection \<open>Typing\<close>

text \<open>C22. The settings keep their shape: whatever key is pressed, on any page and in any state of the editor, it is handled without
  leaving a buffer, and the host name, the time zone, the user name and the line being edited are again terminated strings in
  arrays of their size.\<close>

theorem settings_well_formed:
  assumes "settings_ok p"
  shows "\<exists>p'. set_key k p = Some p' \<and> settings_ok p'"
  using gives_set_key [OF assms, of k] by (simp add: gives_def)

theorem settings_well_formed_witness:
  "\<exists>p'. set_key 65 (sample_settings\<lparr>set_editing := True, set_ilen := 30\<rparr>) = Some p' \<and> settings_ok p'"
  by (rule settings_well_formed) (simp add: settings_ok_def sample_settings_def text_in_def)

end
