(* ===== verification/Serial.thy ===== *)
theory Serial
  imports Ata
begin

text \<open>
  kernel/serial.c: the debug output on the first serial port, and the lines of \<open>kernel_main\<close> that
  \<open>FUR_OS_SERIAL_DEBUG\<close> compiles in. The port is the hardware of the ATA driver's model; waiting for it may never end.
\<close>

subsection \<open>The driver\<close>

abbreviation COM1_PORT :: u16 where "COM1_PORT \<equiv> 0x3F8"

partial_function (option) serial_wait_tx_ready :: "'h hw \<Rightarrow> 'h \<Rightarrow> 'h option" where
  "serial_wait_tx_ready hw h =
     (if fst (hw_inb hw (COM1_PORT + 5) h) AND 0x20 = 0 then serial_wait_tx_ready hw (snd (hw_inb hw (COM1_PORT + 5) h))
      else Some (snd (hw_inb hw (COM1_PORT + 5) h)))"

definition serial_init :: "'h hw \<Rightarrow> 'h \<Rightarrow> 'h" where
  "serial_init hw h =
     (let h = hw_outb hw (COM1_PORT + 1) 0x00 h;
          h = hw_outb hw (COM1_PORT + 3) 0x80 h;
          h = hw_outb hw (COM1_PORT + 0) 0x03 h;
          h = hw_outb hw (COM1_PORT + 1) 0x00 h;
          h = hw_outb hw (COM1_PORT + 3) 0x03 h;
          h = hw_outb hw (COM1_PORT + 2) 0xC7 h
      in hw_outb hw (COM1_PORT + 4) 0x0B h)"

definition serial_send :: "'h hw \<Rightarrow> char \<Rightarrow> 'h \<Rightarrow> 'h option" where
  "serial_send hw c h = do { h \<leftarrow> serial_wait_tx_ready hw h; Some (hw_outb hw COM1_PORT (byte_of_char c) h) }"

text \<open>The recursive call is on a carriage return, which is no line feed.\<close>

definition serial_write_char :: "'h hw \<Rightarrow> char \<Rightarrow> 'h \<Rightarrow> 'h option" where
  "serial_write_char hw c h = do {
     h \<leftarrow> (if c = LF then serial_send hw CR h else Some h);
     serial_send hw c h }"

fun serial_write_loop :: "'h hw \<Rightarrow> string \<Rightarrow> 'h \<Rightarrow> 'h option" where
  "serial_write_loop hw [] h = Some h"
| "serial_write_loop hw (c # s) h = do { h \<leftarrow> serial_write_char hw c h; serial_write_loop hw s h }"

definition serial_write_string :: "'h hw \<Rightarrow> string ptr \<Rightarrow> 'h \<Rightarrow> 'h option" where
  "serial_write_string hw str h = (case str of None \<Rightarrow> Some h | Some s \<Rightarrow> serial_write_loop hw s h)"

text \<open>The debug lines of \<open>kernel_main\<close>.\<close>

definition kernel_banner :: "'h hw \<Rightarrow> 'h \<Rightarrow> 'h option" where
  "kernel_banner hw h = serial_write_string hw (Some (''FurOS 1.0 kernel initialized'' @ [LF])) (serial_init hw h)"

subsection \<open>The contract of a port\<close>

text \<open>
  What sending relies on. While the port is up, reading the line status leaves it up and loses nothing on the line;
  if bit 5 is set the transmitter has room, and otherwise the moment at which it has is nearer. A byte written to the
  data port goes on the line behind the ones before, if the port is up and the transmitter has room; nothing is
  said of a byte written at another time.
\<close>

locale serial_port =
  fixes hw :: "'h hw" and up :: "'h \<Rightarrow> bool" and room :: "'h \<Rightarrow> bool" and line :: "'h \<Rightarrow> u8 list" and left :: "'h \<Rightarrow> nat"
  assumes status: "up h \<Longrightarrow> hw_inb hw (COM1_PORT + 5) h = (v, h') \<Longrightarrow>
      up h' \<and> line h' = line h \<and> (if v AND 0x20 = 0 then left h' < left h else room h')"
    and data: "up h \<Longrightarrow> room h \<Longrightarrow> up (hw_outb hw COM1_PORT b h) \<and> line (hw_outb hw COM1_PORT b h) = line h @ [b]"

definition line_bytes :: "string \<Rightarrow> u8 list" where
  "line_bytes s = concat (map (\<lambda>c. if c = LF then [0x0D, 0x0A] else [byte_of_char c]) s)"

lemma line_end_bytes: "byte_of_char CR = 0x0D" "byte_of_char LF = 0x0A"
  by (simp_all add: byte_of_char_def)

context serial_port
begin

lemma wait_ready: "up h \<Longrightarrow> \<exists>h'. serial_wait_tx_ready hw h = Some h' \<and> up h' \<and> room h' \<and> line h' = line h"
proof (induction "left h" arbitrary: h rule: less_induct)
  case less
  obtain v h1 where 1: "hw_inb hw (COM1_PORT + 5) h = (v, h1)" by fastforce
  note s = status [OF less.prems 1]
  show ?case
  proof (cases "v AND 0x20 = 0")
    case True
    with less.hyps [of h1] 1 s show ?thesis by (subst serial_wait_tx_ready.simps) auto
  next
    case False
    with 1 s show ?thesis by (subst serial_wait_tx_ready.simps) auto
  qed
qed

lemma send: "up h \<Longrightarrow> \<exists>h'. serial_send hw c h = Some h' \<and> up h' \<and> line h' = line h @ [byte_of_char c]"
  using wait_ready [of h] data by (fastforce simp: serial_send_def)

lemma write_char: "up h \<Longrightarrow> \<exists>h'. serial_write_char hw c h = Some h' \<and> up h' \<and> line h' = line h @ line_bytes [c]"
proof (cases "c = LF")
  case True
  assume "up h"
  from send [OF this, of CR] obtain h1 where 1: "serial_send hw CR h = Some h1" "up h1" "line h1 = line h @ [0x0D]"
    by (auto simp: line_end_bytes)
  from send [OF 1(2), of LF] 1 True show ?thesis by (auto simp: serial_write_char_def line_bytes_def line_end_bytes)
next
  case False
  assume "up h"
  from send [OF this, of c] False show ?thesis by (simp add: serial_write_char_def line_bytes_def)
qed

lemma write_loop: "up h \<Longrightarrow> \<exists>h'. serial_write_loop hw s h = Some h' \<and> up h' \<and> line h' = line h @ line_bytes s"
proof (induction s arbitrary: h)
  case (Cons c s)
  obtain h1 where 1: "serial_write_char hw c h = Some h1" "up h1" "line h1 = line h @ line_bytes [c]"
    using write_char [OF Cons.prems] by blast
  with Cons.IH [OF 1(2)] show ?case by (auto simp: line_bytes_def)
qed (simp add: line_bytes_def)

lemma write_string: "up h \<Longrightarrow> \<exists>h'. serial_write_string hw (Some s) h = Some h' \<and> up h' \<and> line h' = line h @ line_bytes s"
  by (simp add: serial_write_string_def write_loop)

end

subsection \<open>A 16550\<close>

text \<open>
  The transmitter of a 16550 as its data sheet has it. The divisor latch bit of the line control register turns the first
  two ports into the divisor. The bytes to be sent wait in a queue, of one byte, or of 16 if the FIFO is enabled; writing
  to the full FIFO has no effect, writing to the full register replaces the byte. A byte takes \<open>lat\<close> reads of the line
  status to go out, on the line or, in loop mode, nowhere. Bit 5 of the line status says that the queue is empty.
\<close>

record uart =
  ua_ier :: u8
  ua_fcr :: u8
  ua_lcr :: u8
  ua_mcr :: u8
  ua_low :: u8
  ua_high :: u8
  ua_queue :: "u8 list"
  ua_wait :: nat
  ua_sent :: "u8 list"

definition uart_tick :: "nat \<Rightarrow> uart \<Rightarrow> uart" where
  "uart_tick lat u = (case ua_queue u of
     [] \<Rightarrow> u
   | b # bs \<Rightarrow>
       if ua_wait u > 0 then u\<lparr>ua_wait := ua_wait u - 1\<rparr>
       else u\<lparr>ua_queue := bs, ua_wait := lat, ua_sent := ua_sent u @ (if ua_mcr u AND 0x10 = 0 then [b] else [])\<rparr>)"

definition uart_send :: "u8 \<Rightarrow> uart \<Rightarrow> uart" where
  "uart_send v u =
     (if ua_fcr u AND 0x01 = 0 then u\<lparr>ua_queue := [v]\<rparr>
      else if length (ua_queue u) < 16 then u\<lparr>ua_queue := ua_queue u @ [v]\<rparr>
      else u)"

definition uart_inb :: "nat \<Rightarrow> u16 \<Rightarrow> uart \<Rightarrow> u8 \<times> uart" where
  "uart_inb lat port u =
     (if port = 0x3FD then (if ua_queue u = [] then 0x60 else 0, uart_tick lat u) else (0, u))"

definition uart_outb :: "u16 \<Rightarrow> u8 \<Rightarrow> uart \<Rightarrow> uart" where
  "uart_outb port v u =
     (if port = 0x3F8 then if ua_lcr u AND 0x80 \<noteq> 0 then u\<lparr>ua_low := v\<rparr> else uart_send v u
      else if port = 0x3F9 then if ua_lcr u AND 0x80 \<noteq> 0 then u\<lparr>ua_high := v\<rparr> else u\<lparr>ua_ier := v\<rparr>
      else if port = 0x3FA then if v AND 0x04 \<noteq> 0 then u\<lparr>ua_fcr := v, ua_queue := []\<rparr> else u\<lparr>ua_fcr := v\<rparr>
      else if port = 0x3FB then u\<lparr>ua_lcr := v\<rparr>
      else if port = 0x3FC then u\<lparr>ua_mcr := v\<rparr>
      else u)"

definition uart_hw :: "nat \<Rightarrow> uart hw" where
  "uart_hw lat = \<lparr>hw_inb = uart_inb lat, hw_outb = uart_outb, hw_inw = \<lambda>p h. (0, h), hw_outw = \<lambda>p v h. h,
     hw_inl = \<lambda>p h. (0, h), hw_outl = \<lambda>p v h. h, hw_mmio_read = \<lambda>a h. (0, h), hw_mmio_write = \<lambda>a v h. h,
     hw_ram_get = \<lambda>a n h. replicate n 0, hw_ram_put = \<lambda>a bs h. h, hw_ctx_addr = 0, hw_sector_addr = 0, hw_payload_addr = 0\<rparr>"

lemma uart_ports [simp]: "hw_inb (uart_hw lat) = uart_inb lat" "hw_outb (uart_hw lat) = uart_outb"
  by (simp_all add: uart_hw_def)

text \<open>The port sends what is written to its data port, and sends it on the line.\<close>

definition uart_up :: "uart \<Rightarrow> bool" where
  "uart_up u \<longleftrightarrow> ua_lcr u AND 0x80 = 0 \<and> ua_mcr u AND 0x10 = 0"

text \<open>What has gone out and what will.\<close>

definition uart_line :: "uart \<Rightarrow> u8 list" where
  "uart_line u = ua_sent u @ ua_queue u"

definition uart_setup :: "uart \<Rightarrow> u8 list" where
  "uart_setup u = [ua_ier u, ua_fcr u, ua_lcr u, ua_mcr u, ua_low u, ua_high u]"

lemma uart_tick_up: "uart_setup (uart_tick lat u) = uart_setup u" "uart_up u \<Longrightarrow> uart_line (uart_tick lat u) = uart_line u"
  by (auto simp: uart_setup_def uart_up_def uart_line_def uart_tick_def split: list.split)

lemma uart_up_setup: "uart_setup u = uart_setup w \<Longrightarrow> uart_up u = uart_up w"
  by (simp add: uart_setup_def uart_up_def)

interpretation com1: serial_port "uart_hw lat" "\<lambda>u. uart_up u \<and> uart_setup u = c" "\<lambda>u. ua_queue u = []" uart_line
  "\<lambda>u. length (ua_queue u) * (lat + 1) + ua_wait u" for lat c
proof (unfold_locales, goal_cases)
  case (1 h v h')
  then have h': "h' = uart_tick lat h" "v = (if ua_queue h = [] then 0x60 else 0)" by (auto simp: uart_inb_def)
  have "uart_up h'" using 1(1) uart_up_setup uart_tick_up(1) unfolding h' by blast
  moreover have "if v AND 0x20 = 0 then length (ua_queue h') * (lat + 1) + ua_wait h' < length (ua_queue h) * (lat + 1) + ua_wait h
      else ua_queue h' = []"
    unfolding h' by (auto simp: uart_tick_def split: list.split)
  ultimately show ?case using 1(1) uart_tick_up unfolding h' by simp
next
  case (2 h b)
  then show ?case by (auto simp: uart_outb_def uart_send_def uart_up_def uart_line_def uart_setup_def)
qed

text \<open>\<open>serial_init\<close> sets 38400 baud and eight bits without parity and empties the queue, whatever the state before.\<close>

lemma uart_init:
  "uart_up (serial_init (uart_hw lat) u)" "uart_line (serial_init (uart_hw lat) u) = ua_sent u"
  "tl (uart_setup (serial_init (uart_hw lat) u)) = [0xC7, 0x03, 0x0B, 3, 0]"
  by (cases "ua_lcr u AND 0x80 = 0"; simp add: serial_init_def uart_outb_def Let_def uart_up_def uart_line_def uart_setup_def)+

text \<open>C40. Debug output on a 16550. Writing a string to a port that is set up ends, however long the port takes for a byte, and
  puts its characters on the line in their order, with a carriage return before every line feed, behind all that
  was there; no byte is lost. A null pointer sends nothing. From any state of the port the first lines of \<open>kernel_main\<close>
  set it up (FIFOs on, eight bits without parity, no loop mode, the divisor 3) and send their text behind what has gone out.\<close>

theorem serial_sends:
  "(uart_up u \<longrightarrow> (\<exists>u'. serial_write_string (uart_hw lat) (Some s) u = Some u' \<and> uart_up u' \<and> uart_setup u' = uart_setup u
        \<and> uart_line u' = uart_line u @ line_bytes s))
   \<and> serial_write_string (uart_hw lat) None u = Some u
   \<and> (\<exists>u'. kernel_banner (uart_hw lat) u = Some u' \<and> tl (uart_setup u') = [0xC7, 0x03, 0x0B, 3, 0]
        \<and> uart_line u' = ua_sent u @ line_bytes (''FurOS 1.0 kernel initialized'' @ [LF]))"
proof (intro conjI impI)
  assume "uart_up u"
  then have "uart_up u \<and> uart_setup u = uart_setup u" by simp
  from com1.write_string [OF this, of lat s]
  show "\<exists>u'. serial_write_string (uart_hw lat) (Some s) u = Some u' \<and> uart_up u' \<and> uart_setup u' = uart_setup u
      \<and> uart_line u' = uart_line u @ line_bytes s" by blast
next
  show "serial_write_string (uart_hw lat) None u = Some u" by (simp add: serial_write_string_def)
next
  let ?u = "serial_init (uart_hw lat) u"
  have "uart_up ?u \<and> uart_setup ?u = uart_setup ?u" using uart_init(1) by simp
  from com1.write_string [OF this, of lat "''FurOS 1.0 kernel initialized'' @ [LF]"]
  show "\<exists>u'. kernel_banner (uart_hw lat) u = Some u' \<and> tl (uart_setup u') = [0xC7, 0x03, 0x0B, 3, 0]
      \<and> uart_line u' = ua_sent u @ line_bytes (''FurOS 1.0 kernel initialized'' @ [LF])"
    unfolding kernel_banner_def using uart_init(2,3) [of lat u] by metis
qed

theorem serial_sends_witness:
  "\<exists>u. serial_write_string (uart_hw 2) (Some (''ok'' @ [LF])) \<lparr>ua_ier = 0, ua_fcr = 0xC7, ua_lcr = 3, ua_mcr = 0x0B, ua_low = 3, ua_high = 0,
      ua_queue = [0x3E], ua_wait = 1, ua_sent = [0x0A]\<rparr> = Some u \<and> uart_line u = [0x0A, 0x3E, 0x6F, 0x6B, 0x0D, 0x0A]"
proof -
  let ?u = "\<lparr>ua_ier = 0, ua_fcr = 0xC7, ua_lcr = 3, ua_mcr = 0x0B, ua_low = 3, ua_high = 0,
      ua_queue = [0x3E], ua_wait = 1, ua_sent = [0x0A]\<rparr>"
  have "uart_up ?u" "uart_line ?u = [0x0A, 0x3E]" by (simp_all add: uart_up_def uart_line_def)
  then show ?thesis using serial_sends [of ?u 2 "''ok'' @ [LF]"] by (auto simp: line_bytes_def byte_of_char_def)
qed

end
