(* ===== verification/Spec2Isabelle.thy ===== *)
theory Spec2Isabelle
  imports VgaProps KeyboardSpec PioScan DiskRun ShellUsers BootProps KernelProps KateProps SettingsProps Serial
begin

text \<open>
  A verification of the FurOS kernel (src/kernel, C): string functions, the in-memory file system and its
  disk image, the text screen, the keyboard decoder, the ATA and AHCI driver, the disk layer, the shell, the installer,
  the desktop with its programs, the serial port and \<open>kernel_main\<close>.

  \<^bold>\<open>The parts and how they meet.\<close> The file system (fs.c) is a table of 128 nodes. fs.c packs it into
  an image, disk.c puts the image on a disk with a header and a checksum, and ata.c moves the sectors. vga.c
  draws on the 80 x 25 cells of the screen, keyboard.c decodes scan codes, and shell.c is the client of all of
  them. \<open>kernel_main\<close> starts either the installer (installer.c), which asks for the settings, writes the system to the disk
  and halts, or the desktop (desktop.c), whose programs are a terminal with the shell, a file manager, a system monitor, a text
  editor and the settings. In the model each part has a record of its state, and a client's record contains those of the parts
  it uses: \<^theory_text>\<open>shell\<close> and \<^theory_text>\<open>ui\<close>, the state of the installer, have the disk, the screen and the keyboard, \<^theory_text>\<open>desk\<close> extends
  \<^theory_text>\<open>ui\<close> by the variables of desktop.c, \<^theory_text>\<open>disk\<close> has the table of nodes and
  the driver, \<^theory_text>\<open>ata\<close> has the state of the hardware.

  \<^bold>\<open>Conventions\<close> (theory Prelude). Machine integers are words; \<open>int\<close> is \<^theory_text>\<open>int\<close>, with the
  ranges checked where C would overflow. An array is a list, and an access outside of it is undefined, which is
  the value None of an option; so "the result is Some" includes that no buffer is left, that no pointer to nothing
  is followed and, where the code loops, that it returns. Errors are the code's own values, as -1.

  \<^bold>\<open>Theories and the code they model.\<close>
  \<^item> Kstring: kstring.c. Every function, \<^theory_text>\<open>streq\<close> for the tests on \<open>kstrcmp\<close>.
  \<^item> Fs, Codec, FsImage: fs.c. Fs has the operations on the table, Codec and FsImage the packed structures of
    both versions of the image, \<open>fs_serialize\<close> and \<open>fs_deserialize\<close>.
  \<^item> Vga: vga.c. Every function. The colour names of vga.h are numbers.
  \<^item> Keyboard: keyboard.c. The hardware is the finite list of what polling the status and data ports
    gives; when it is used up, the code is waiting.
  \<^item> AtaModel, Ata, Ahci, AtaScan: ata.c. AtaModel has the hardware as a parameter \<^theory_text>\<open>hw\<close>: what ports,
    memory mapped registers and shared memory answer, over a state of any type. Ata has the IDE half, Ahci the
    AHCI half, AtaScan the scan of both and the calls for clients.
  \<^item> Disk: disk.c. Every function; the linked kernel image and the boot sector are a parameter.
  \<^item> Shell, ShellCmds, ShellNet, ShellRun, ShellMain: shell.c. Shell has the state and the number parsers, ShellCmds
    the commands on files and users, ShellNet packages and network, ShellRun the disk commands, the first contents
    of the file system and the line reader and parser, ShellMain the editor, the dispatch and the session.
  \<^item> Ui: what the two user interfaces share. Code that asks has the result \<^theory_text>\<open>Waits\<close>, \<^theory_text>\<open>Halts\<close> or
    \<^theory_text>\<open>Done\<close>; a function that draws is the list of calls that it makes on the screen, which \<^theory_text>\<open>paint\<close> carries out.
    Bytes of arrays that the code reads before it has written them come from \<^theory_text>\<open>u_junk\<close>.
  \<^item> Installer, InstallerStages, InstallerRun: installer.c. The number formatting, drawing, menu and input field; the pages that
    ask; the installation, the last pages and the wizard, which goes forward and back between them.
  \<^item> DesktopDraw, DesktopDialogs, DesktopFiles, DesktopKate, DesktopRun: desktop.c and kernel.c. The desktop and its windows; menus
    and dialogs; system monitor and file manager; the text editor; settings, terminal, main loop and \<open>kernel_main\<close>.
  \<^item> Serial: serial.c, and the lines of \<open>kernel_main\<close> that only a debug build has.

  \<^bold>\<open>What the lemmas show.\<close>
  \<^item> File system (FsTree, FsPath, FsPathname, FsOps, FsService, FsProps): \<^theory_text>\<open>fs_wf\<close>, that the table is a
    tree with unique names and terminated buffers, is kept by every call; paths resolve by components; what each
    call does and when it fails; printing and resolving a path are inverse. FsImageSpec and FsLoad: the image round
    trip and what loading of untrusted bytes leaves. FsSafe is the weaker invariant that loading untrusted bytes
    does give: \<^theory_text>\<open>in_table\<close>, the nodes whose chain of parents stays in the table, stated coinductively because
    such a chain may be a cycle. Its locale \<^theory_text>\<open>node_set\<close> proves path resolution once for it and for the
    well-formed case.
  \<^item> Screen (VgaSpec, VgaProps): \<^theory_text>\<open>paints\<close> says which cells a loop sets; \<^theory_text>\<open>text_step\<close> that text
    output stays in the viewport.
  \<^item> Keyboard (KeyboardSpec): the range of keys, letters under the modifiers, and that typing a text
    on a keyboard with the US layout, which is a table of its own, gives the text.
  \<^item> Driver (AtaSpec, AtaProps, Pio, PioScan): every call returns without undefined behaviour on every hardware
    on which waiting for BUSY ends; on a model of a PIO drive, with its task file, its sector count and its busy, data
    request and error bits, a scan finds the drive and sectors can be written and read back. Sectors has the locale \<^theory_text>\<open>sector_device\<close>, the contract between the driver and the disk layer.
  \<^item> Disk (DiskSpec, DiskProps, DiskSafe, DiskRun): saving and loading are inverse, damage is detected, the layout
    is as specified, and all calls are safe in any order on any hardware and any bytes.
  \<^item> Shell (ShellSafe, ShellCmdSafe, ShellNetSafe, ShellRunSafe, ShellLoopSafe, ShellRunning, ShellParse, LineEdit,
    ShellProps): \<^theory_text>\<open>runs\<close> and \<^theory_text>\<open>ends\<close> are judgements with a rule for each way of putting code together, by
    which every command keeps \<^theory_text>\<open>shell_ok\<close>; LineEdit and ShellParse specify reading and parsing of a line.
    ShellUsers says which table a command leaves for which user: \<^theory_text>\<open>leaves_fs\<close> is the judgement for commands that
    do not touch the table, \<^theory_text>\<open>twin\<close> relates the runs of a command for two users.
  \<^item> Serial port (Serial): the locale \<^theory_text>\<open>serial_port\<close> is what sending relies on, interpreted on a model of the
    transmitter of a 16550, which loses bytes that are written when it has no room.
  \<^item> User interfaces (UiSafe, InstallerSafe, InstallerStageSafe, InstallerRunSafe, DesktopSafe, DesktopFileSafe, DesktopKateSafe,
    DesktopRunSafe, KernelProps): \<^theory_text>\<open>goes\<close>, \<^theory_text>\<open>steps\<close> and \<^theory_text>\<open>gives\<close> are the judgements for code that
    asks, that changes the state and that computes; the locales of UiSafe are the interface to an invariant that the disk, the keyboard and
    the screen can change the state under, interpreted on \<^theory_text>\<open>wizard_ok\<close> for the installer and on \<^theory_text>\<open>desk_ok\<close> for
    the desktop. KernelProps puts them together from \<open>kernel_main\<close> on, and shows that the shell in its window keeps the rest
    of the screen.
  \<^item> Contents (FsContents, InstallerFiles, InstallerProps, BootProps, SettingsProps): \<^theory_text>\<open>lays\<close> gives the contents of a table as a
    list of entries, with a rule for each call. By it the tree that the installer builds is known exactly; InstallerProps
    follows it onto the disk and back into memory, BootProps into the shell of the machine started from that disk,
    SettingsProps to the settings of the desktop, which are saved and loaded again.
  \<^item> Text editor (DesktopEdit, KateProps): every key acts on the buffer as on the text before and behind the cursor; what is saved
    is the text.

  \<^bold>\<open>Loops and bounds.\<close> Loops over indices recurse over the list of indices, all others have a measure. The polls of the
  driver are bounded by ATA_POLL_ATTEMPTS, as in the code, except for waiting for BUSY in the scan, which has
  no bound in the code: it is a \<^theory_text>\<open>partial_function\<close>, and \<^theory_text>\<open>busy_ends\<close> is the hypothesis that it ends.
  The session of the shell is a \<^theory_text>\<open>partial_function\<close> too, and is proved to end, or to wait, for every finite list
  of polls.

  Menus, input fields, the text editor and the wizard recurse by the polls that are left, of which each key takes at least one;
  where this does not show in the function it is a \<^theory_text>\<open>partial_function\<close>, and KernelProps proves that the whole kernel
  returns a result, waiting or halted, for every finite list of polls.

  \<^bold>\<open>Assumptions on memory.\<close> Three bytes of uninitialised arrays are read by installer.c and desktop.c; the safety of the
  kernel is stated for a stack on which they happen to be zero (\<^theory_text>\<open>quiet_stack\<close>), and hostname_unterminated of InstallerProps says exactly
  when the first of them matters.

  \<^bold>\<open>Not modelled.\<close> boot.S, bootsect.S and the linker script are not C; what they hand over, the boot magic and the images
  to install, are parameters. The endless loop around the hlt instruction is the result \<^theory_text>\<open>Halts\<close>. Timing, interrupts
  (the kernel has none) and the caches of the processor are not part of the model.
\<close>

end
